(* ===== verification/Canticle_Prelude.thy ===== *)
theory Canticle_Prelude
  imports Main "HOL-Library.Word"
begin

text \<open>
  Shared base of the development: the Go machine integers, instants and durations, the text
  type (a Go string of valid UTF-8, seen as its list of code points) with the functions of the
  packages \<open>strings\<close> and \<open>unicode\<close> that the modelled code calls, and the generic lemmas the
  components share.

  An \<open>instant\<close> is a \<open>time.Time\<close> as its distance in nanoseconds from the zero time, so that
  \<open>IsZero\<close> is equality with 0; a \<open>duration\<close> is a \<open>time.Duration\<close>, a count of nanoseconds.
  Both are \<open>int\<close>; arithmetic that can leave 64 bits is written with \<open>int64\<close>, which wraps as
  Go's \<open>int64\<close> does.
\<close>

named_theorems wrap_simps "facts about 64-bit wrap-around"
named_theorems text_simps "evaluation of text functions"

section \<open>Machine integers, instants and durations\<close>

type_synonym instant = int
type_synonym duration = int

definition int64 :: "int \<Rightarrow> int" where
  "int64 x = (x + 2 ^ 63) mod 2 ^ 64 - 2 ^ 63"

definition is_int64 :: "int \<Rightarrow> bool" where
  "is_int64 x \<longleftrightarrow> - (2 ^ 63) \<le> x \<and> x < 2 ^ 63"

text \<open>Go integer division truncates towards zero.\<close>

definition quot :: "int \<Rightarrow> int \<Rightarrow> int" where
  "quot a b = sgn a * sgn b * (\<bar>a\<bar> div \<bar>b\<bar>)"

definition isZero :: "instant \<Rightarrow> bool" where
  "isZero t \<longleftrightarrow> t = 0"

definition nanosecond :: duration where "nanosecond = 1"
definition second :: duration where "second = 1000000000"
definition minute :: duration where "minute = 60 * second"
definition hour :: duration where "hour = 60 * minute"

section \<open>Text\<close>

type_synonym rune = nat
type_synonym gotext = "rune list"

definition lit :: "string \<Rightarrow> gotext" where
  "lit s = map of_char s"

text \<open>\<open>unicode.IsSpace\<close>: the White_Space property.\<close>

definition isSpace :: "rune \<Rightarrow> bool" where
  "isSpace r \<longleftrightarrow> r \<in> {9, 10, 11, 12, 13, 32, 133, 160, 5760, 8232, 8233, 8239, 8287, 12288}
     \<or> (8192 \<le> r \<and> r \<le> 8202)"

definition trimSpace :: "gotext \<Rightarrow> gotext" where
  "trimSpace s = rev (dropWhile isSpace (rev (dropWhile isSpace s)))"

text \<open>
  \<open>unicode.ToLower\<close> and the simple case folding behind \<open>strings.EqualFold\<close>, exact for every
  comparison with an ASCII literal, the only use the modelled code makes of them: besides the
  ASCII capitals, U+0130 lowers to i and U+212A to k, while U+017F folds with s and U+212A
  with k; every other cased code point lowers and folds outside ASCII.
\<close>

definition lowerRune :: "rune \<Rightarrow> rune" where
  "lowerRune r = (if 65 \<le> r \<and> r \<le> 90 then r + 32
     else if r = 304 then 105 else if r = 8490 then 107 else r)"

definition toLower :: "gotext \<Rightarrow> gotext" where
  "toLower s = map lowerRune s"

definition foldRune :: "rune \<Rightarrow> rune" where
  "foldRune r = (if 65 \<le> r \<and> r \<le> 90 then r + 32
     else if r = 383 then 115 else if r = 8490 then 107 else r)"

definition equalFold :: "gotext \<Rightarrow> gotext \<Rightarrow> bool" where
  "equalFold a b \<longleftrightarrow> map foldRune a = map foldRune b"

definition isDigit :: "rune \<Rightarrow> bool" where
  "isDigit r \<longleftrightarrow> 48 \<le> r \<and> r \<le> 57"

text \<open>Decimal rendering of a natural number, the verb \<open>d\<close> of package \<open>fmt\<close>.\<close>

fun digitsOf :: "nat \<Rightarrow> gotext" where
  "digitsOf n = (if n < 10 then [48 + n] else digitsOf (n div 10) @ [48 + n mod 10])"

declare digitsOf.simps [simp del]

definition itoa :: "int \<Rightarrow> gotext" where
  "itoa i = (if i < 0 then 45 # digitsOf (nat (- i)) else digitsOf (nat i))"

text \<open>The verb \<open>02d\<close>: at least two characters, padded with zeros on the left.\<close>

definition pad2 :: "nat \<Rightarrow> gotext" where
  "pad2 n = (if n < 10 then [48, 48 + n] else digitsOf n)"

text \<open>Value of a digit string, as \<open>strconv.Atoi\<close> reads it.\<close>

definition atoiDigits :: "gotext \<Rightarrow> nat" where
  "atoiDigits s = foldl (\<lambda>acc d. 10 * acc + (d - 48)) 0 s"

section \<open>Lemmas\<close>

lemma int64_id [wrap_simps]: "is_int64 x \<Longrightarrow> int64 x = x"
  by (simp add: int64_def is_int64_def)

lemma is_int64_int64 [wrap_simps, simp]: "is_int64 (int64 x)"
proof -
  have "0 \<le> (x + 2 ^ 63) mod 2 ^ 64" and "(x + 2 ^ 63) mod 2 ^ 64 < 2 ^ 64"
    by (rule pos_mod_sign, simp) (rule pos_mod_bound, simp)
  then show ?thesis by (simp add: int64_def is_int64_def)
qed

lemma is_int64_between: "is_int64 b \<Longrightarrow> 0 \<le> x \<Longrightarrow> x \<le> b \<Longrightarrow> is_int64 x"
  by (simp add: is_int64_def)

lemma quot_pos: "0 \<le> a \<Longrightarrow> 0 < b \<Longrightarrow> quot a b = a div b"
  by (cases "a = 0") (simp_all add: quot_def)

lemma dropWhile_idem: "dropWhile P (dropWhile P xs) = dropWhile P xs"
  by (induction xs) auto

lemma dropWhile_eq_self: "xs = [] \<or> \<not> P (hd xs) \<Longrightarrow> dropWhile P xs = xs"
  by (cases xs) auto

lemma dropWhile_Nil_iff: "dropWhile P xs = [] \<longleftrightarrow> (\<forall>x \<in> set xs. P x)"
  by (induction xs) auto

lemma dropWhile_hd: "dropWhile P xs \<noteq> [] \<Longrightarrow> \<not> P (hd (dropWhile P xs))"
  by (induction xs) auto

lemma hd_rev_dropWhile_rev:
  assumes "xs \<noteq> []" and "\<not> P (hd xs)"
  shows "rev (dropWhile P (rev xs)) \<noteq> [] \<and> hd (rev (dropWhile P (rev xs))) = hd xs"
proof -
  have ne: "dropWhile P (rev xs) \<noteq> []"
    using assms by (auto simp: dropWhile_Nil_iff intro!: bexI [of _ "hd xs"])
  obtain p where p: "xs = rev (dropWhile P (rev xs)) @ rev p"
    by (metis rev_append rev_rev_ident takeWhile_dropWhile_id)
  show ?thesis
    using ne by (subst (2) p) simp
qed

lemma trimSpace_Nil [simp]: "trimSpace [] = []"
  by (simp add: trimSpace_def)

lemma trimSpace_idem: "trimSpace (trimSpace s) = trimSpace s"
proof (cases "dropWhile isSpace s = []")
  case True
  then have "trimSpace s = []" unfolding trimSpace_def by (simp only: True rev.simps dropWhile.simps)
  then show ?thesis by simp
next
  case False
  let ?t = "dropWhile isSpace s"
  have "rev (dropWhile isSpace (rev ?t)) \<noteq> []"
    and "\<not> isSpace (hd (rev (dropWhile isSpace (rev ?t))))"
    using hd_rev_dropWhile_rev [where P = isSpace, OF False dropWhile_hd [OF False]] dropWhile_hd [OF False] by auto
  then have "dropWhile isSpace (rev (dropWhile isSpace (rev ?t))) = rev (dropWhile isSpace (rev ?t))"
    by (intro dropWhile_eq_self) simp
  then show ?thesis by (simp add: trimSpace_def dropWhile_idem)
qed

lemma lit_Nil [simp]: "lit [] = []"
  by (simp add: lit_def)

lemma lit_eq_iff [simp]: "lit a = lit b \<longleftrightarrow> a = b"
proof -
  have "inj (of_char :: char \<Rightarrow> nat)"
    by (rule injI) (simp add: of_char_eq_iff)
  then show ?thesis by (simp add: lit_def inj_map_eq_map)
qed

lemma lit_Nil_iff [simp]: "lit s = [] \<longleftrightarrow> s = []"
  by (simp add: lit_def)

lemma digitsOf_digits: "\<forall>d \<in> set (digitsOf n). isDigit d"
proof (induction n rule: digitsOf.induct)
  case (1 n)
  show ?case
  proof (cases "n < 10")
    case True
    then show ?thesis by (subst digitsOf.simps) (simp add: isDigit_def)
  next
    case False
    with 1 have "\<forall>d \<in> set (digitsOf (n div 10)). isDigit d" by simp
    moreover have "isDigit (48 + n mod 10)"
      by (simp add: isDigit_def)
    ultimately show ?thesis using False by (subst digitsOf.simps) auto
  qed
qed

lemma digitsOf_nonempty [simp]: "digitsOf n \<noteq> []"
  by (subst digitsOf.simps) simp

lemma atoiDigits_snoc: "atoiDigits (s @ [d]) = 10 * atoiDigits s + (d - 48)"
  by (simp add: atoiDigits_def)

lemma atoiDigits_digitsOf [text_simps]: "atoiDigits (digitsOf n) = n"
proof (induction n rule: digitsOf.induct)
  case (1 n)
  show ?case
  proof (cases "n < 10")
    case True
    then show ?thesis by (subst digitsOf.simps) (simp add: atoiDigits_def)
  next
    case False
    with 1 have "atoiDigits (digitsOf (n div 10)) = n div 10" by simp
    with False show ?thesis by (subst digitsOf.simps) (simp add: atoiDigits_snoc)
  qed
qed

lemma atoiDigits_pad2 [text_simps]: "atoiDigits (pad2 n) = n"
  by (auto simp: pad2_def atoiDigits_digitsOf) (simp add: atoiDigits_def)

lemma pad2_digits: "\<forall>d \<in> set (pad2 n). isDigit d"
  using digitsOf_digits [of n] by (auto simp: pad2_def isDigit_def)

lemma digitsOf_two: "10 \<le> n \<Longrightarrow> n < 100 \<Longrightarrow> digitsOf n = [48 + n div 10, 48 + n mod 10]"
  by (subst digitsOf.simps, subst digitsOf.simps) auto

lemma pad2_two: "n < 100 \<Longrightarrow> pad2 n = [48 + n div 10, 48 + n mod 10]"
  by (auto simp: pad2_def digitsOf_two)

end
