(* ===== verification/Backoff.thy ===== *)
theory Backoff
  imports Canticle_Prelude
begin

text \<open>
  Package \<open>internal/backoff\<close>: the one retry-delay formula of the program, doubling from a base
  and capped, with the doubling written as the 64-bit multiplication it is. The locale
  \<open>retry_ramp\<close> is what its callers rely on (a positive, capped, non-decreasing window); the
  circuit breaker's lemmas are proved from it.
\<close>

section \<open>Definitions\<close>

definition DefaultBase :: duration where "DefaultBase = minute"
definition DefaultMax :: duration where "DefaultMax = hour"
definition DefaultMissBase :: duration where "DefaultMissBase = 7 * 24 * hour"
definition DefaultMissCap :: duration where "DefaultMissCap = 28 * 24 * hour"

text \<open>The loop \<open>for i := 1; i < attempts; i++\<close>, with the number of turns left as its argument.\<close>

fun geometricLoop :: "nat \<Rightarrow> duration \<Rightarrow> duration \<Rightarrow> duration" where
  "geometricLoop 0 delay mx = (if delay > mx then mx else delay)"
| "geometricLoop (Suc k) delay mx =
     (if delay \<ge> mx \<or> delay > quot mx 2 then mx else geometricLoop k (int64 (delay * 2)) mx)"

definition Geometric :: "int \<Rightarrow> duration \<Rightarrow> duration \<Rightarrow> duration" where
  "Geometric attempts base mx =
     (if base \<le> 0 \<or> mx \<le> 0 then 0
      else let attempts = (if attempts < 1 then 1 else attempts)
           in geometricLoop (nat (attempts - 1)) base mx)"

definition MissCooldown :: "int \<Rightarrow> duration \<Rightarrow> duration \<Rightarrow> duration" where
  "MissCooldown missCount base mx = Geometric missCount base mx"

section \<open>The contract of a retry ramp\<close>

locale retry_ramp =
  fixes window :: "int \<Rightarrow> duration \<Rightarrow> duration \<Rightarrow> duration"
  assumes window_pos: "is_int64 mx \<Longrightarrow> 0 < base \<Longrightarrow> 0 < mx \<Longrightarrow> 0 < window n base mx"
    and window_le_cap: "is_int64 mx \<Longrightarrow> 0 < base \<Longrightarrow> 0 < mx \<Longrightarrow> window n base mx \<le> mx"
    and window_mono: "is_int64 mx \<Longrightarrow> 0 < base \<Longrightarrow> 0 < mx \<Longrightarrow> m \<le> n \<Longrightarrow>
      window m base mx \<le> window n base mx"
begin

lemma window_between:
  "is_int64 mx \<Longrightarrow> 0 < base \<Longrightarrow> 0 < mx \<Longrightarrow> 0 < window n base mx \<and> window n base mx \<le> mx"
  using window_pos window_le_cap by blast

lemma window_at_cap_stays:
  assumes "is_int64 mx" "0 < base" "0 < mx" "window m base mx = mx" "m \<le> n"
  shows "window n base mx = mx"
  using window_mono [of mx base m n] window_le_cap [of mx base n] assms by linarith

end

section \<open>Lemmas\<close>

lemma geometricLoop_eq:
  assumes "is_int64 mx" "0 < delay" "0 < mx"
  shows "geometricLoop k delay mx = min mx (delay * 2 ^ k)"
  using assms
proof (induction k arbitrary: delay)
  case 0
  then show ?case by (simp add: min_def)
next
  case (Suc k)
  have q: "quot mx 2 = mx div 2" using Suc.prems by (simp add: quot_pos)
  show ?case
  proof (cases "delay \<ge> mx \<or> delay > quot mx 2")
    case True
    then have "mx \<le> delay * 2" using Suc.prems q by auto
    also have "\<dots> \<le> delay * 2 * 2 ^ k" using Suc.prems by (simp add: mult_le_cancel_left1)
    finally show ?thesis using True by (simp add: min_def mult.assoc)
  next
    case False
    then have le: "delay * 2 \<le> mx" using q by auto
    then have "is_int64 (delay * 2)" using Suc.prems by (auto intro: is_int64_between)
    then have "int64 (delay * 2) = delay * 2" by (rule int64_id)
    moreover have "geometricLoop k (delay * 2) mx = min mx (delay * 2 * 2 ^ k)"
      using Suc.IH [of "delay * 2"] Suc.prems by simp
    ultimately show ?thesis using False by (simp add: mult.assoc)
  qed
qed

lemma Geometric_closed:
  assumes "is_int64 mx" "0 < base" "0 < mx"
  shows "Geometric n base mx = min mx (base * 2 ^ nat (n - 1))"
  using assms by (auto simp: Geometric_def Let_def geometricLoop_eq)

lemma Geometric_nonpos [simp]: "base \<le> 0 \<or> mx \<le> 0 \<Longrightarrow> Geometric n base mx = 0"
  by (auto simp: Geometric_def)

interpretation geo: retry_ramp Geometric
proof unfold_locales
  fix mx base n :: int
  assume a: "is_int64 mx" "0 < base" "0 < mx"
  then show "0 < Geometric n base mx" and "Geometric n base mx \<le> mx"
    by (simp_all add: Geometric_closed)
  fix m :: int
  assume "m \<le> n"
  then have "base * 2 ^ nat (m - 1) \<le> base * 2 ^ nat (n - 1)"
    using a by (intro mult_left_mono power_increasing) auto
  then show "Geometric m base mx \<le> Geometric n base mx"
    unfolding Geometric_closed [OF a] by (intro min.mono order_refl)
qed

section \<open>Properties\<close>

text \<open>
  The delay is exactly the doubled base capped at the maximum, for every attempt count: the
  64-bit doubling in the loop never overflows, because the loop stops before it would pass the
  cap. Attempts below one count as one, and a non-positive base or cap disables the delay.
\<close>

theorem Geometric_spec:
  assumes "is_int64 mx"
  shows "Geometric n base mx =
    (if base \<le> 0 \<or> mx \<le> 0 then 0 else min mx (base * 2 ^ nat (max n 1 - 1)))"
proof (cases "base \<le> 0 \<or> mx \<le> 0")
  case False
  moreover have "nat (max n 1 - 1) = nat (n - 1)" by auto
  ultimately show ?thesis using assms by (simp add: Geometric_closed)
qed simp

theorem Geometric_spec_witness:
  "is_int64 DefaultMax \<and> Geometric 4 DefaultBase DefaultMax = 8 * minute
    \<and> Geometric 100 DefaultBase DefaultMax = hour"
proof -
  have h: "is_int64 DefaultMax"
    by (simp add: is_int64_def DefaultMax_def hour_def minute_def second_def)
  show ?thesis
    using h Geometric_spec [OF h, of 4 DefaultBase] Geometric_spec [OF h, of 100 DefaultBase]
    by (simp add: DefaultBase_def DefaultMax_def hour_def minute_def second_def)
qed

end
