(* ===== verification/Breaker.thy ===== *)
theory Breaker
  imports Backoff
begin

text \<open>
  Package \<open>internal/circuit\<close>: the circuit breaker of one provider lane. Every method holds the
  breaker's mutex for its whole read-modify-write, so an operation is one function of the state
  and of the clock reading it takes; \<open>breaker_step\<close> interleaves the operations of all callers
  in any order as time passes. The locale \<open>circuit_gate\<close> is the contract the lanes rely on.
\<close>

section \<open>Definitions\<close>

datatype BreakerState = StateClosed | StateOpen | StateHalfOpen

record TripResult =
  tr_Trips :: int
  tr_Window :: duration
  tr_OpenUntil :: instant

record breaker =
  backoffBase :: duration
  openDuration :: duration
  openUntil :: instant
  consecutiveTrips :: int
  probing :: bool
  everProviderSuccess :: bool

definition NewBreaker :: "duration \<Rightarrow> duration \<Rightarrow> breaker" where
  "NewBreaker base cap = \<lparr>backoffBase = base, openDuration = cap, openUntil = 0,
     consecutiveTrips = 0, probing = False, everProviderSuccess = False\<rparr>"

definition SetBackoff :: "duration \<Rightarrow> duration \<Rightarrow> breaker \<Rightarrow> breaker" where
  "SetBackoff base cap b =
     (let b = (if base > 0 then b\<lparr>backoffBase := base\<rparr> else b)
      in if cap > 0 then b\<lparr>openDuration := cap\<rparr> else b)"

definition SetOpenDuration :: "duration \<Rightarrow> breaker \<Rightarrow> breaker" where
  "SetOpenDuration d b = (if d > 0 then b\<lparr>openDuration := d\<rparr> else b)"

definition Allow :: "instant \<Rightarrow> breaker \<Rightarrow> BreakerState \<times> breaker" where
  "Allow now b =
     (if \<not> isZero (openUntil b) \<and> now < openUntil b then (StateOpen, b)
      else let b = (if \<not> isZero (openUntil b) then b\<lparr>probing := True, openUntil := 0\<rparr> else b)
           in (if probing b then StateHalfOpen else StateClosed, b))"

definition OpenUntil :: "breaker \<Rightarrow> instant" where
  "OpenUntil b = openUntil b"

definition Trip :: "instant \<Rightarrow> breaker \<Rightarrow> TripResult \<times> breaker" where
  "Trip now b =
     (let trips = consecutiveTrips b + 1;
          window = Geometric trips (backoffBase b) (openDuration b);
          until = now + window
      in (\<lparr>tr_Trips = trips, tr_Window = window, tr_OpenUntil = until\<rparr>,
          b\<lparr>consecutiveTrips := trips, openUntil := until, probing := False\<rparr>))"

definition TripRenewal :: "instant \<Rightarrow> breaker \<Rightarrow> TripResult \<times> breaker" where
  "TripRenewal now b =
     (let until = now + openDuration b
      in (\<lparr>tr_Trips = consecutiveTrips b, tr_Window = openDuration b, tr_OpenUntil = until\<rparr>,
          b\<lparr>openUntil := until, probing := False\<rparr>))"

definition RecordSuccess :: "breaker \<Rightarrow> bool \<times> breaker" where
  "RecordSuccess b =
     (probing b, b\<lparr>everProviderSuccess := True, consecutiveTrips := 0, probing := False\<rparr>)"

definition RecordBenignMiss :: "breaker \<Rightarrow> bool \<times> breaker" where
  "RecordBenignMiss b = (probing b, b\<lparr>consecutiveTrips := 0, probing := False\<rparr>)"

definition Trips :: "breaker \<Rightarrow> int" where
  "Trips b = consecutiveTrips b"

definition EverSucceeded :: "breaker \<Rightarrow> bool" where
  "EverSucceeded b = everProviderSuccess b"

record Snapshot =
  sn_State :: BreakerState
  sn_OpenUntil :: instant
  sn_Trips :: int
  sn_EverSucceeded :: bool

definition breakerSnapshot :: "instant \<Rightarrow> breaker \<Rightarrow> Snapshot" where
  "breakerSnapshot now b =
     (let s = \<lparr>sn_State = StateClosed, sn_OpenUntil = 0, sn_Trips = consecutiveTrips b,
               sn_EverSucceeded = everProviderSuccess b\<rparr>
      in if \<not> isZero (openUntil b) \<and> now < openUntil b
           then s\<lparr>sn_State := StateOpen, sn_OpenUntil := openUntil b\<rparr>
         else if \<not> isZero (openUntil b) \<or> probing b then s\<lparr>sn_State := StateHalfOpen\<rparr>
         else s)"

abbreviation viewState :: "instant \<Rightarrow> breaker \<Rightarrow> BreakerState" where
  "viewState now b \<equiv> sn_State (breakerSnapshot now b)"

text \<open>One call of any caller, at the clock reading \<open>now\<close>.\<close>

datatype breaker_op =
  OpAllow | OpTrip | OpRenewal | OpSuccess | OpMiss | OpSetBackoff duration duration
  | OpSetOpenDuration duration

fun apply_op :: "instant \<Rightarrow> breaker_op \<Rightarrow> breaker \<Rightarrow> breaker" where
  "apply_op now OpAllow b = snd (Allow now b)"
| "apply_op now OpTrip b = snd (Trip now b)"
| "apply_op now OpRenewal b = snd (TripRenewal now b)"
| "apply_op now OpSuccess b = snd (RecordSuccess b)"
| "apply_op now OpMiss b = snd (RecordBenignMiss b)"
| "apply_op now (OpSetBackoff base cap) b = SetBackoff base cap b"
| "apply_op now (OpSetOpenDuration d) b = SetOpenDuration d b"

fun run_ops :: "(instant \<times> breaker_op) list \<Rightarrow> breaker \<Rightarrow> breaker" where
  "run_ops [] b = b"
| "run_ops ((now, opn) # rest) b = run_ops rest (apply_op now opn b)"

text \<open>A breaker with the instant of its last use, moved by calls at later instants.\<close>

inductive breaker_step :: "instant \<times> breaker \<Rightarrow> instant \<times> breaker \<Rightarrow> bool" where
  call: "t \<le> now \<Longrightarrow> (\<And>base cap. opn = OpSetBackoff base cap \<Longrightarrow> is_int64 base \<and> is_int64 cap) \<Longrightarrow>
    (\<And>d. opn = OpSetOpenDuration d \<Longrightarrow> is_int64 d) \<Longrightarrow>
    breaker_step (t, b) (now, apply_op now opn b)"

inductive breaker_reach :: "instant \<times> breaker \<Rightarrow> bool" where
  start: "0 < t \<Longrightarrow> 0 < base \<Longrightarrow> 0 < cap \<Longrightarrow> is_int64 base \<Longrightarrow> is_int64 cap \<Longrightarrow>
    breaker_reach (t, NewBreaker base cap)"
| step: "breaker_reach s \<Longrightarrow> breaker_step s s' \<Longrightarrow> breaker_reach s'"

inductive_cases breaker_stepE: "breaker_step (t, b) s'"

definition breaker_ok :: "breaker \<Rightarrow> bool" where
  "breaker_ok b \<longleftrightarrow> 0 < backoffBase b \<and> 0 < openDuration b \<and> is_int64 (backoffBase b)
     \<and> is_int64 (openDuration b) \<and> 0 \<le> consecutiveTrips b
     \<and> (probing b \<longrightarrow> isZero (openUntil b))"

lemmas breaker_defs =
  Allow_def Trip_def TripRenewal_def RecordSuccess_def RecordBenignMiss_def SetBackoff_def
  SetOpenDuration_def Let_def isZero_def

section \<open>The contract the lanes rely on\<close>

locale circuit_gate =
  fixes valid :: "'b \<Rightarrow> bool"
    and view :: "instant \<Rightarrow> 'b \<Rightarrow> BreakerState"
    and allow :: "instant \<Rightarrow> 'b \<Rightarrow> BreakerState \<times> 'b"
    and trip :: "instant \<Rightarrow> 'b \<Rightarrow> 'b"
    and success :: "'b \<Rightarrow> 'b"
    and miss :: "'b \<Rightarrow> 'b"
  assumes allow_view: "fst (allow t b) = view t b"
    and allow_valid: "valid b \<Longrightarrow> valid (snd (allow t b))"
    and trip_valid: "valid b \<Longrightarrow> valid (trip t b)"
    and success_valid: "valid b \<Longrightarrow> valid (success b)"
    and miss_valid: "valid b \<Longrightarrow> valid (miss b)"
    and allow_open: "view t b = StateOpen \<Longrightarrow> snd (allow t b) = b"
    and trip_open: "valid b \<Longrightarrow> 0 < t \<Longrightarrow> view t (trip t b) = StateOpen"
    and admitted_stays: "view t b \<noteq> StateOpen \<Longrightarrow> view t' (snd (allow t b)) = view t b"
    and success_closes: "view t b \<noteq> StateOpen \<Longrightarrow> view t' (success (snd (allow t b))) = StateClosed"
    and miss_closes: "view t b \<noteq> StateOpen \<Longrightarrow> view t' (miss (snd (allow t b))) = StateClosed"
begin

lemma admitted_trip_refuses_next:
  assumes "valid b" "0 < t'"
  shows "fst (allow t' (trip t' (snd (allow t b)))) = StateOpen"
  using assms by (simp add: allow_view trip_open allow_valid)

lemma admitted_success_admits_next:
  "view t b \<noteq> StateOpen \<Longrightarrow> fst (allow t' (success (snd (allow t b)))) = StateClosed"
  by (simp add: allow_view success_closes)

lemma admitted_miss_admits_next:
  "view t b \<noteq> StateOpen \<Longrightarrow> fst (allow t' (miss (snd (allow t b)))) = StateClosed"
  by (simp add: allow_view miss_closes)

lemma refused_call_no_effect: "fst (allow t b) = StateOpen \<Longrightarrow> snd (allow t b) = b"
  by (simp add: allow_view allow_open)

end

section \<open>Lemmas\<close>

lemma NewBreaker_ok: "0 < base \<Longrightarrow> 0 < cap \<Longrightarrow> is_int64 base \<Longrightarrow> is_int64 cap \<Longrightarrow>
    breaker_ok (NewBreaker base cap)"
  by (simp add: breaker_ok_def NewBreaker_def isZero_def)

lemma apply_op_ok:
  assumes "breaker_ok b"
    and "\<And>base cap. opn = OpSetBackoff base cap \<Longrightarrow> is_int64 base \<and> is_int64 cap"
    and "\<And>d. opn = OpSetOpenDuration d \<Longrightarrow> is_int64 d"
  shows "breaker_ok (apply_op now opn b)"
  using assms by (cases opn) (auto simp: breaker_ok_def breaker_defs)

lemma breaker_reach_ok: "breaker_reach s \<Longrightarrow> 0 < fst s \<and> breaker_ok (snd s)"
proof (induction rule: breaker_reach.induct)
  case (start t base cap)
  then show ?case by (simp add: NewBreaker_ok)
next
  case (step s s')
  obtain t b where s: "s = (t, b)" by (cases s)
  from step.hyps(2) show ?case
    unfolding s by (rule breaker_stepE) (use step.IH in \<open>auto simp: s intro!: apply_op_ok\<close>)
qed

lemma Allow_view: "fst (Allow now b) = viewState now b"
  by (simp add: breaker_defs breakerSnapshot_def)

lemma Trip_window_pos: "breaker_ok b \<Longrightarrow> 0 < tr_Window (fst (Trip now b))"
  by (simp add: Trip_def Let_def breaker_ok_def geo.window_pos)

lemma Trip_window_cap: "breaker_ok b \<Longrightarrow> tr_Window (fst (Trip now b)) \<le> openDuration b"
  by (simp add: Trip_def Let_def breaker_ok_def geo.window_le_cap)

lemma Trip_openUntil: "openUntil (snd (Trip now b)) = now + tr_Window (fst (Trip now b))"
  by (simp add: Trip_def Let_def)

interpretation gate: circuit_gate breaker_ok viewState Allow "\<lambda>t b. snd (Trip t b)"
  "\<lambda>b. snd (RecordSuccess b)" "\<lambda>b. snd (RecordBenignMiss b)"
proof unfold_locales
  fix t t' :: instant and b :: breaker
  show "fst (Allow t b) = viewState t b" by (rule Allow_view)
  show "viewState t b = StateOpen \<Longrightarrow> snd (Allow t b) = b"
    and "viewState t b \<noteq> StateOpen \<Longrightarrow> viewState t' (snd (Allow t b)) = viewState t b"
    and "viewState t b \<noteq> StateOpen \<Longrightarrow>
      viewState t' (snd (RecordSuccess (snd (Allow t b)))) = StateClosed"
    and "viewState t b \<noteq> StateOpen \<Longrightarrow>
      viewState t' (snd (RecordBenignMiss (snd (Allow t b)))) = StateClosed"
    by (auto simp: breaker_defs breakerSnapshot_def split: if_splits)
  assume ok: "breaker_ok b"
  show "breaker_ok (snd (Allow t b))" "breaker_ok (snd (Trip t b))"
    "breaker_ok (snd (RecordSuccess b))" "breaker_ok (snd (RecordBenignMiss b))"
    using ok by (auto simp: breaker_ok_def breaker_defs)
  assume "0 < t"
  then show "viewState t (snd (Trip t b)) = StateOpen"
    using Trip_window_pos [OF ok, of t] Trip_openUntil [of t b]
    by (simp add: breakerSnapshot_def Let_def isZero_def)
qed

text \<open>The operations that leave the ramp position alone, and those that advance it.\<close>

fun ramp_op :: "breaker_op \<Rightarrow> bool" where
  "ramp_op OpAllow = True"
| "ramp_op OpTrip = True"
| "ramp_op OpRenewal = True"
| "ramp_op _ = False"

lemma apply_ramp_op:
  "ramp_op opn \<Longrightarrow> consecutiveTrips (apply_op now opn b)
      = consecutiveTrips b + (if opn = OpTrip then 1 else 0)
    \<and> backoffBase (apply_op now opn b) = backoffBase b
    \<and> openDuration (apply_op now opn b) = openDuration b"
  by (cases opn) (auto simp: breaker_defs)

lemma run_ramp_ops:
  "\<forall>(now, opn) \<in> set ops. ramp_op opn \<Longrightarrow>
    consecutiveTrips (run_ops ops b)
      = consecutiveTrips b + int (length (filter (\<lambda>(now, opn). opn = OpTrip) ops))
    \<and> backoffBase (run_ops ops b) = backoffBase b
    \<and> openDuration (run_ops ops b) = openDuration b"
proof (induction ops arbitrary: b)
  case Nil
  then show ?case by simp
next
  case (Cons x ops)
  obtain now opn where x: "x = (now, opn)" by (cases x)
  then have "ramp_op opn" and "\<forall>(now, opn) \<in> set ops. ramp_op opn" using Cons.prems by auto
  then show ?case
    using Cons.IH [of "apply_op now opn b"] apply_ramp_op [of opn now b] by (simp add: x)
qed

section \<open>Properties\<close>

text \<open>
  C28: In every state the breaker can reach from a constructor call with positive windows, under
  any interleaving of its operations as time passes, the windows stay positive, the trip count
  is never negative, and the breaker is never open and probing at once.
\<close>

theorem breaker_invariant:
  assumes "breaker_reach (t, b)"
  shows "0 < backoffBase b \<and> 0 < openDuration b \<and> 0 \<le> consecutiveTrips b
    \<and> \<not> (probing b \<and> openUntil b \<noteq> 0)"
  using breaker_reach_ok [OF assms] by (auto simp: breaker_ok_def isZero_def)

lemma breaker_reach_example:
  "breaker_reach (2, snd (Trip 2 (NewBreaker minute hour)))"
proof -
  have "breaker_reach (1, NewBreaker minute hour)"
    by (rule breaker_reach.start) (simp_all add: is_int64_def hour_def minute_def second_def)
  moreover have "breaker_step (1, NewBreaker minute hour) (2, apply_op 2 OpTrip (NewBreaker minute hour))"
    by (rule breaker_step.call) simp_all
  ultimately show ?thesis by (auto dest: breaker_reach.step)
qed

theorem breaker_invariant_witness:
  "breaker_reach (2, snd (Trip 2 (NewBreaker minute hour)))
    \<and> 0 \<le> consecutiveTrips (snd (Trip 2 (NewBreaker minute hour)))"
  using breaker_reach_example breaker_invariant [OF breaker_reach_example] by simp

text \<open>
  Observing is not consuming: the state a snapshot reports is the answer the gate would give
  at that instant, an elapsed window included, and the gate's own transition does not change what
  is reported.
\<close>

theorem snapshot_agrees_with_gate:
  "sn_State (breakerSnapshot now b) = fst (Allow now b)
    \<and> sn_State (breakerSnapshot now (snd (Allow now b))) = fst (Allow now b)
    \<and> sn_Trips (breakerSnapshot now (snd (Allow now b))) = sn_Trips (breakerSnapshot now b)"
  by (auto simp: breaker_defs breakerSnapshot_def)

text \<open>
  A throttle trip refuses every caller for exactly its window, without changing state, and
  the first caller after the window is admitted as a probe; the window is positive and never
  longer than the configured cap.
\<close>

theorem trip_window_gates:
  assumes "breaker_reach (t, b)" and "t \<le> now" and "Trip now b = (r, b')"
  shows "0 < tr_Window r \<and> tr_Window r \<le> openDuration b
    \<and> (\<forall>t'. t' < now + tr_Window r \<longrightarrow> Allow t' b' = (StateOpen, b'))
    \<and> (\<forall>t'. now + tr_Window r \<le> t' \<longrightarrow>
          fst (Allow t' b') = StateHalfOpen \<and> openUntil (snd (Allow t' b')) = 0)"
proof -
  from breaker_reach_ok [OF assms(1)] have t: "0 < t" and ok: "breaker_ok b" by auto
  have r: "r = fst (Trip now b)" and b': "b' = snd (Trip now b)" using assms(3) by simp_all
  have w: "0 < tr_Window r" "tr_Window r \<le> openDuration b"
    unfolding r using ok by (rule Trip_window_pos, rule Trip_window_cap)
  have u: "openUntil b' = now + tr_Window r" unfolding r b' by (rule Trip_openUntil)
  with w t assms(2) have "\<not> isZero (openUntil b')" by (simp add: isZero_def)
  then show ?thesis using w by (auto simp: Allow_def Let_def u)
qed

theorem trip_window_gates_witness:
  "tr_Window (fst (Trip 5 (NewBreaker minute hour))) \<le> hour
    \<and> Allow 6 (snd (Trip 5 (NewBreaker minute hour)))
        = (StateOpen, snd (Trip 5 (NewBreaker minute hour)))"
proof -
  have reach: "breaker_reach (1, NewBreaker minute hour)"
    by (rule breaker_reach.start) (simp_all add: is_int64_def hour_def minute_def second_def)
  have "tr_Window (fst (Trip 5 (NewBreaker minute hour))) = minute"
    by (simp add: Trip_def Let_def NewBreaker_def Geometric_def geometricLoop.simps
        hour_def minute_def second_def)
  then show ?thesis
    using trip_window_gates [OF reach, of 5 "fst (Trip 5 (NewBreaker minute hour))"
        "snd (Trip 5 (NewBreaker minute hour))"]
    by (simp add: minute_def second_def hour_def)
qed

text \<open>
  The throttle ramp: after any sequence of gate checks, throttle trips and renewal trips since
  the last recorded round trip, the next throttle window is the base doubled once per earlier
  throttle trip, capped; renewal trips and gate checks do not advance it.
\<close>

theorem throttle_ramp:
  assumes "breaker_ok b" and "consecutiveTrips b = 0"
    and "\<forall>(now, opn) \<in> set ops. ramp_op opn"
    and "n = length (filter (\<lambda>(now, opn). opn = OpTrip) ops)"
  shows "tr_Window (fst (Trip now (run_ops ops b))) = min (openDuration b) (backoffBase b * 2 ^ n)
    \<and> tr_Trips (fst (Trip now (run_ops ops b))) = int n + 1"
  using run_ramp_ops [OF assms(3), of b] assms(1,2,4)
  by (simp add: Trip_def Let_def breaker_ok_def Geometric_closed)

theorem throttle_ramp_witness:
  "tr_Window (fst (Trip 40 (run_ops [(10, OpTrip), (20, OpRenewal), (30, OpAllow), (35, OpTrip)]
      (NewBreaker minute hour)))) = 4 * minute"
proof -
  have ok: "breaker_ok (NewBreaker minute hour)"
    by (rule NewBreaker_ok) (simp_all add: is_int64_def hour_def minute_def second_def)
  show ?thesis
    using throttle_ramp [OF ok, of "[(10, OpTrip), (20, OpRenewal), (30, OpAllow), (35, OpTrip)]" 2 40]
    by (simp add: NewBreaker_def hour_def minute_def second_def)
qed

text \<open>
  A renewal trip opens for the whole cap at once and keeps the ramp where it is, and it
  reports that ramp position, which is not 0 when throttle trips came before it.
\<close>

theorem renewal_keeps_ramp:
  "tr_Window (fst (TripRenewal now b)) = openDuration b
    \<and> tr_Trips (fst (TripRenewal now b)) = consecutiveTrips b
    \<and> consecutiveTrips (snd (TripRenewal now b)) = consecutiveTrips b
    \<and> tr_Trips (fst (TripRenewal now (snd (Trip t b)))) = consecutiveTrips b + 1"
  by (simp add: breaker_defs)

end
