(* ===== verification/Pacer.thy ===== *)
theory Pacer
  imports Canticle_Prelude
begin

text \<open>
  The adaptive request pacer of \<open>internal/musixmatch/client.go\<close>: the level that scales the
  configured interval, its ratchet (\<open>OnThrottle\<close>), its two ways down (a success streak and time
  decay), and the slot reservation of \<open>pace\<close>. \<open>pace\<close> takes the client's lock twice: once to
  reserve a slot and, when its wait is canceled, once more to give the slot back; the two
  critical sections are \<open>paceReserve\<close> and \<open>paceRelease\<close>, and the callers' order between them is
  any list of \<open>pacer_ev\<close>. The locale \<open>adaptive_pacer\<close> is the interface
  \<open>providers.AdaptivePacer\<close> as the lanes use it.
\<close>

section \<open>Definitions\<close>

definition adaptiveMaxLevel :: int where "adaptiveMaxLevel = 3"
definition adaptiveSuccessThreshold :: int where "adaptiveSuccessThreshold = 5"
definition adaptiveDecayInterval :: duration where "adaptiveDecayInterval = 20 * minute"
definition maxInt64 :: int where "maxInt64 = 2 ^ 63 - 1"

record pacer =
  minInterval :: duration
  lastRequest :: instant
  adaptiveLevel :: int
  consecutiveSuccesses :: int
  lastLevelChange :: instant
  lastThrottle :: instant

definition newPacer :: "duration \<Rightarrow> pacer" where
  "newPacer d = \<lparr>minInterval = d, lastRequest = 0, adaptiveLevel = 0, consecutiveSuccesses = 0,
     lastLevelChange = 0, lastThrottle = 0\<rparr>"

definition effectiveInterval :: "duration \<Rightarrow> int \<Rightarrow> duration" where
  "effectiveInterval mi level =
     (if mi \<le> 0 \<or> level \<le> 0 then mi
      else if mi > maxInt64 div 2 ^ nat level then maxInt64
      else int64 (mi * 2 ^ nat level))"

text \<open>\<open>time.Time.Sub\<close> saturates at the ends of the 64-bit range.\<close>

definition timeSub :: "instant \<Rightarrow> instant \<Rightarrow> duration" where
  "timeSub t u = max (- (2 ^ 63)) (min maxInt64 (t - u))"

function decayedLevel :: "int \<Rightarrow> instant \<Rightarrow> instant \<Rightarrow> int \<times> instant" where
  "decayedLevel level since now =
     (if level > 0 \<and> \<not> isZero since \<and> timeSub now since \<ge> adaptiveDecayInterval
      then decayedLevel (level - 1) (since + adaptiveDecayInterval) now
      else (level, since))"
  by pat_completeness auto
termination
  by (relation "measure (\<lambda>(level, since, now). nat level)") auto

declare decayedLevel.simps [simp del]

definition decayLocked :: "instant \<Rightarrow> pacer \<Rightarrow> pacer" where
  "decayLocked now c =
     (let (level, since) = decayedLevel (adaptiveLevel c) (lastLevelChange c) now;
          c = (if level \<noteq> adaptiveLevel c then c\<lparr>consecutiveSuccesses := 0\<rparr> else c)
      in c\<lparr>adaptiveLevel := level, lastLevelChange := since\<rparr>)"

definition OnThrottle :: "instant \<Rightarrow> pacer \<Rightarrow> pacer" where
  "OnThrottle now c =
     (let c = (if adaptiveLevel c < adaptiveMaxLevel then c\<lparr>adaptiveLevel := adaptiveLevel c + 1\<rparr> else c)
      in c\<lparr>consecutiveSuccesses := 0, lastLevelChange := now, lastThrottle := now\<rparr>)"

definition OnSuccess :: "instant \<Rightarrow> pacer \<Rightarrow> pacer" where
  "OnSuccess now c =
     (let c = c\<lparr>consecutiveSuccesses := consecutiveSuccesses c + 1\<rparr>
      in if consecutiveSuccesses c \<ge> adaptiveSuccessThreshold
         then (let c = (if adaptiveLevel c > 0
                        then c\<lparr>adaptiveLevel := adaptiveLevel c - 1, lastLevelChange := now\<rparr> else c)
               in c\<lparr>consecutiveSuccesses := 0\<rparr>)
         else c)"

record PacerStats =
  ps_Level :: int
  ps_EffectiveInterval :: duration
  ps_LastThrottle :: instant

definition pacerStats :: "instant \<Rightarrow> pacer \<Rightarrow> PacerStats" where
  "pacerStats now c =
     (let level = fst (decayedLevel (adaptiveLevel c) (lastLevelChange c) now)
      in \<lparr>ps_Level = level,
          ps_EffectiveInterval = (if minInterval c > 0 then effectiveInterval (minInterval c) level else 0),
          ps_LastThrottle = lastThrottle c\<rparr>)"

text \<open>
  The first critical section of \<open>pace\<close>: \<open>None\<close> when pacing is off, otherwise the slot it came
  from, the slot it reserved and the wait, with the client after the reservation.
\<close>

definition paceReserve :: "instant \<Rightarrow> pacer \<Rightarrow> (instant \<times> instant \<times> duration) option \<times> pacer" where
  "paceReserve now c =
     (if minInterval c \<le> 0 then (None, c)
      else let c = decayLocked now c;
               interval = effectiveInterval (minInterval c) (adaptiveLevel c);
               prev = lastRequest c;
               slot = (if prev + interval < now then now else prev + interval)
           in (Some (prev, slot, timeSub slot now), c\<lparr>lastRequest := slot\<rparr>))"

text \<open>The second one, entered by a caller whose wait was canceled.\<close>

definition paceRelease :: "instant \<Rightarrow> instant \<Rightarrow> pacer \<Rightarrow> pacer" where
  "paceRelease prev slot c = (if lastRequest c = slot then c\<lparr>lastRequest := prev\<rparr> else c)"

text \<open>
  A run of the pacer. A reservation is the slot it came from, the slot and the wait; \<open>held\<close> are the
  reservations not given back, in the order of the lock: callers that wait for their slot, and those that
  have used it. \<open>EvCancel i\<close> is the cancellation of the \<open>i\<close>-th of them, if it had to wait at all.
\<close>

type_synonym reservation = "instant \<times> instant \<times> duration"

definition slotOf :: "reservation \<Rightarrow> instant" where "slotOf r = fst (snd r)"

datatype pacer_ev = EvThrottle | EvSuccess | EvPace | EvCancel nat

fun pacer_step :: "instant \<times> pacer_ev \<Rightarrow> reservation list \<times> pacer \<Rightarrow> reservation list \<times> pacer" where
  "pacer_step (now, EvThrottle) (held, c) = (held, OnThrottle now c)"
| "pacer_step (now, EvSuccess) (held, c) = (held, OnSuccess now c)"
| "pacer_step (now, EvPace) (held, c) =
     (case paceReserve now c of (None, c') \<Rightarrow> (held, c') | (Some r, c') \<Rightarrow> (held @ [r], c'))"
| "pacer_step (now, EvCancel i) (held, c) =
     (if i < length held
      then case held ! i of (prev, slot, wait) \<Rightarrow>
        (if 0 < wait then (take i held @ drop (Suc i) held, paceRelease prev slot c) else (held, c))
      else (held, c))"

definition pacer_run :: "(instant \<times> pacer_ev) list \<Rightarrow> pacer \<Rightarrow> reservation list \<times> pacer" where
  "pacer_run evs c = fold pacer_step evs ([], c)"

definition pacer_ok :: "pacer \<Rightarrow> bool" where
  "pacer_ok c \<longleftrightarrow> 0 < minInterval c \<and> is_int64 (minInterval c) \<and> 0 \<le> adaptiveLevel c
     \<and> adaptiveLevel c \<le> adaptiveMaxLevel \<and> 0 \<le> consecutiveSuccesses c
     \<and> consecutiveSuccesses c < adaptiveSuccessThreshold"

lemmas pacer_consts = adaptiveMaxLevel_def adaptiveSuccessThreshold_def

section \<open>The interface the lanes notify\<close>

locale adaptive_pacer =
  fixes level :: "'p \<Rightarrow> int" and ok :: "'p \<Rightarrow> bool" and top :: int
    and onThrottle :: "instant \<Rightarrow> 'p \<Rightarrow> 'p" and onSuccess :: "instant \<Rightarrow> 'p \<Rightarrow> 'p"
  assumes ok_throttle: "ok p \<Longrightarrow> ok (onThrottle t p)"
    and ok_success: "ok p \<Longrightarrow> ok (onSuccess t p)"
    and level_range: "ok p \<Longrightarrow> 0 \<le> level p \<and> level p \<le> top"
    and throttle_level: "level (onThrottle t p) = (if level p < top then level p + 1 else level p)"
    and success_level: "level (onSuccess t p) = level p \<or> level (onSuccess t p) = level p - 1"
begin

lemma throttles_reach_top:
  assumes "ok p" "nat (top - level p) \<le> length ts"
  shows "level (foldl (\<lambda>p t. onThrottle t p) p ts) = top"
  using assms
proof (induction ts arbitrary: p)
  case Nil
  then show ?case using level_range [of p] by simp
next
  case (Cons t ts)
  have "nat (top - level (onThrottle t p)) \<le> length ts"
    using Cons.prems level_range [of p] by (auto simp: throttle_level)
  then show ?case using Cons.IH [OF ok_throttle [OF Cons.prems(1)]] by simp
qed

lemma success_never_raises: "level (onSuccess t p) \<le> level p"
  using success_level [of t p] by auto

end

section \<open>Lemmas\<close>

lemma effectiveInterval_eq:
  assumes "0 < mi" "is_int64 mi" "0 \<le> level"
  shows "effectiveInterval mi level = min maxInt64 (mi * 2 ^ nat level)"
proof (cases "level = 0")
  case True
  then show ?thesis using assms by (simp add: effectiveInterval_def maxInt64_def is_int64_def)
next
  case False
  have p: "(0::int) < 2 ^ nat level" by simp
  show ?thesis
  proof (cases "mi > maxInt64 div 2 ^ nat level")
    case True
    then have "maxInt64 div 2 ^ nat level + 1 \<le> mi" by simp
    then have "(maxInt64 div 2 ^ nat level + 1) * 2 ^ nat level \<le> mi * 2 ^ nat level"
      by (intro mult_right_mono) auto
    moreover have "maxInt64 < (maxInt64 div 2 ^ nat level + 1) * 2 ^ nat level"
      using div_mult_mod_eq [of maxInt64 "2 ^ nat level"] pos_mod_bound [OF p, of maxInt64]
      unfolding distrib_right mult_1 by linarith
    ultimately have "maxInt64 < mi * 2 ^ nat level" by linarith
    then show ?thesis using True False assms by (simp add: effectiveInterval_def)
  next
    case le: False
    then have "mi * 2 ^ nat level \<le> (maxInt64 div 2 ^ nat level) * 2 ^ nat level"
      by (intro mult_right_mono) auto
    also have "\<dots> \<le> maxInt64"
      using div_mult_mod_eq [of maxInt64 "2 ^ nat level"] pos_mod_sign [OF p, of maxInt64] by linarith
    finally have up: "mi * 2 ^ nat level \<le> maxInt64" .
    have "is_int64 maxInt64" by (simp add: is_int64_def maxInt64_def)
    moreover have "0 \<le> mi * 2 ^ nat level" using assms by simp
    ultimately have "is_int64 (mi * 2 ^ nat level)" using up by (rule is_int64_between)
    then show ?thesis
      using le False assms up by (simp add: effectiveInterval_def int64_id)
  qed
qed

lemma effectiveInterval_floor: "0 < mi \<Longrightarrow> is_int64 mi \<Longrightarrow> 0 \<le> level \<Longrightarrow> mi \<le> effectiveInterval mi level"
proof -
  assume a: "0 < mi" "is_int64 mi" "0 \<le> level"
  have "mi * 1 \<le> mi * 2 ^ nat level" using a by (intro mult_left_mono) auto
  then show ?thesis using a by (simp add: effectiveInterval_eq maxInt64_def is_int64_def)
qed

lemma timeSub_decay: "timeSub now since \<ge> adaptiveDecayInterval \<longleftrightarrow> now - since \<ge> adaptiveDecayInterval"
  by (auto simp: timeSub_def maxInt64_def adaptiveDecayInterval_def minute_def second_def)

lemma decayedLevel_range: "0 \<le> level \<Longrightarrow>
    0 \<le> fst (decayedLevel level since now) \<and> fst (decayedLevel level since now) \<le> level"
proof (induction level since now rule: decayedLevel.induct)
  case (1 level since now)
  show ?case
  proof (cases "level > 0 \<and> \<not> isZero since \<and> timeSub now since \<ge> adaptiveDecayInterval")
    case True
    then show ?thesis using 1 by (simp add: decayedLevel.simps [of level since now])
  next
    case False
    then have "decayedLevel level since now = (level, since)"
      by (subst decayedLevel.simps) (simp only: if_False)
    then show ?thesis using "1.prems" by simp
  qed
qed

lemma decayLocked_level: "adaptiveLevel (decayLocked now c)
    = fst (decayedLevel (adaptiveLevel c) (lastLevelChange c) now)"
  by (simp add: decayLocked_def Let_def split: prod.split)

lemma decayLocked_same [simp]:
  "minInterval (decayLocked now c) = minInterval c" "lastRequest (decayLocked now c) = lastRequest c"
  by (simp_all add: decayLocked_def Let_def split: prod.split)

lemma decayLocked_ok: "pacer_ok c \<Longrightarrow> pacer_ok (decayLocked now c)"
  using decayedLevel_range [of "adaptiveLevel c" "lastLevelChange c" now]
  by (auto simp: pacer_ok_def decayLocked_level) (auto simp: decayLocked_def Let_def pacer_consts split: prod.split)

lemma OnThrottle_ok: "pacer_ok c \<Longrightarrow> pacer_ok (OnThrottle now c)"
  by (auto simp: pacer_ok_def OnThrottle_def Let_def pacer_consts)

lemma OnSuccess_ok: "pacer_ok c \<Longrightarrow> pacer_ok (OnSuccess now c)"
  by (auto simp: pacer_ok_def OnSuccess_def Let_def pacer_consts)

lemma notify_lastRequest [simp]:
  "lastRequest (OnThrottle now c) = lastRequest c" "lastRequest (OnSuccess now c) = lastRequest c"
  "minInterval (OnThrottle now c) = minInterval c" "minInterval (OnSuccess now c) = minInterval c"
  by (simp_all add: OnThrottle_def OnSuccess_def Let_def)

interpretation mxm: adaptive_pacer adaptiveLevel pacer_ok adaptiveMaxLevel OnThrottle OnSuccess
proof unfold_locales
  fix p :: pacer and t :: instant
  show "pacer_ok p \<Longrightarrow> pacer_ok (OnThrottle t p)" by (rule OnThrottle_ok)
  show "pacer_ok p \<Longrightarrow> pacer_ok (OnSuccess t p)" by (rule OnSuccess_ok)
  show "pacer_ok p \<Longrightarrow> 0 \<le> adaptiveLevel p \<and> adaptiveLevel p \<le> adaptiveMaxLevel"
    by (simp add: pacer_ok_def)
  show "adaptiveLevel (OnThrottle t p) =
      (if adaptiveLevel p < adaptiveMaxLevel then adaptiveLevel p + 1 else adaptiveLevel p)"
    by (simp add: OnThrottle_def Let_def)
  show "adaptiveLevel (OnSuccess t p) = adaptiveLevel p \<or> adaptiveLevel (OnSuccess t p) = adaptiveLevel p - 1"
    by (simp add: OnSuccess_def Let_def)
qed

lemma paceReserve_slot:
  assumes "pacer_ok c" and "paceReserve now c = (Some (prev, slot, wait), c')"
  shows "prev = lastRequest c" "lastRequest c' = slot" "lastRequest c + minInterval c \<le> slot"
    "now \<le> slot" "minInterval c' = minInterval c" "pacer_ok c'"
proof -
  let ?d = "decayLocked now c"
  have ok: "pacer_ok ?d" using assms(1) by (rule decayLocked_ok)
  have f: "minInterval c \<le> effectiveInterval (minInterval c) (adaptiveLevel ?d)"
    using ok by (intro effectiveInterval_floor) (auto simp: pacer_ok_def)
  have eq: "prev = lastRequest c"
    "slot = (if lastRequest c + effectiveInterval (minInterval c) (adaptiveLevel ?d) < now then now
             else lastRequest c + effectiveInterval (minInterval c) (adaptiveLevel ?d))"
    "c' = ?d\<lparr>lastRequest := slot\<rparr>"
    using assms by (auto simp: paceReserve_def Let_def pacer_ok_def split: if_splits)
  show "prev = lastRequest c" "lastRequest c' = slot" "minInterval c' = minInterval c"
    by (simp_all add: eq)
  show "lastRequest c + minInterval c \<le> slot" "now \<le> slot" using f eq(2) by auto
  show "pacer_ok c'" using ok by (simp add: eq(3) pacer_ok_def)
qed

lemma paceReserve_on: "pacer_ok c \<Longrightarrow> \<exists>prev slot wait c'. paceReserve now c = (Some (prev, slot, wait), c')"
  by (simp add: paceReserve_def Let_def pacer_ok_def)

text \<open>
  The slots held by a run that started at \<open>base\<close>: each comes at least the interval \<open>gap\<close> after the slot it was
  reserved from, that one is not before any slot held earlier, and the client is at the last of them or beyond.
\<close>

fun chained :: "duration \<Rightarrow> instant \<Rightarrow> reservation list \<Rightarrow> instant \<Rightarrow> bool" where
  "chained gap base [] lst \<longleftrightarrow> base \<le> lst"
| "chained gap base ((prev, slot, wait) # rs) lst \<longleftrightarrow> base \<le> prev \<and> prev + gap \<le> slot \<and> chained gap slot rs lst"

lemma chained_mono: "chained gap base rs lst \<Longrightarrow> lst \<le> e \<Longrightarrow> chained gap base rs e"
  by (induction rs arbitrary: base) auto

lemma chained_weaken: "chained gap base rs lst \<Longrightarrow> b \<le> base \<Longrightarrow> chained gap b rs lst"
  by (cases rs) auto

lemma chained_base: "0 \<le> gap \<Longrightarrow> chained gap base rs lst \<Longrightarrow> base \<le> lst"
  by (induction rs arbitrary: base) fastforce+

lemma chained_snoc: "chained gap base rs prev \<Longrightarrow> prev + gap \<le> slot \<Longrightarrow> chained gap base (rs @ [(prev, slot, wait)]) slot"
  by (induction rs arbitrary: base) auto

text \<open>
  A reservation given back leaves the chain; the client steps back only when nobody reserved behind it.
\<close>

lemma chained_drop:
  assumes "0 < gap" "chained gap base rs lst" "i < length rs" "rs ! i = (prev, slot, wait)"
  shows "chained gap base (take i rs @ drop (Suc i) rs) (if lst = slot then prev else lst)"
  using assms(2-)
proof (induction rs arbitrary: base i)
  case (Cons r rs)
  obtain p s w where r: "r = (p, s, w)" by (cases r)
  show ?case
  proof (cases i)
    case 0
    then have c: "base \<le> prev" "prev + gap \<le> slot" "chained gap slot rs lst" using Cons.prems by auto
    show ?thesis
    proof (cases "lst = slot")
      case True
      then have "rs = []" using c(3) assms(1) chained_base [of gap _ "tl rs" lst] by (cases rs) fastforce+
      then show ?thesis using 0 True c(1) by simp
    next
      case False
      then show ?thesis using 0 c assms(1) chained_weaken [of gap slot rs lst base] by simp
    qed
  next
    case (Suc j)
    then have "chained gap s (take j rs @ drop (Suc j) rs) (if lst = slot then prev else lst)"
      using Cons by (auto simp: r)
    then show ?thesis using Suc Cons.prems(1) by (simp add: r)
  qed
qed simp

lemma chained_sorted:
  "0 < gap \<Longrightarrow> chained gap base rs lst \<Longrightarrow> sorted_wrt (\<lambda>a b. a + gap \<le> b) (base # map slotOf rs)"
proof (induction rs arbitrary: base)
  case (Cons r rs)
  obtain p s w where r: "r = (p, s, w)" by (cases r)
  then have "sorted_wrt (\<lambda>a b. a + gap \<le> b) (s # map slotOf rs)" "base + gap \<le> s" using Cons by auto
  moreover have "base + gap \<le> x" if "x \<in> slotOf ` set rs" for x
    using that calculation Cons.prems(1) by fastforce
  moreover have "slotOf r = s" by (simp add: r slotOf_def)
  ultimately show ?case by auto
qed simp

lemma chained_bound: "0 < gap \<Longrightarrow> chained gap base rs lst \<Longrightarrow> r \<in> set rs \<Longrightarrow> slotOf r \<le> lst"
proof (induction rs arbitrary: base)
  case (Cons x rs)
  obtain p s w where x: "x = (p, s, w)" by (cases x)
  with Cons.prems have c: "chained gap s rs lst" by simp
  then have "s \<le> lst" using chained_base [OF less_imp_le [OF Cons.prems(1)]] by blast
  with c Cons show ?case by (auto simp: x slotOf_def)
qed simp

lemma pacer_step_chained:
  assumes "pacer_ok c" "chained (minInterval c) base held (lastRequest c)" "pacer_step ev (held, c) = (held', c')"
  shows "pacer_ok c' \<and> minInterval c' = minInterval c \<and> chained (minInterval c) base held' (lastRequest c')"
proof -
  obtain now e where ev: "ev = (now, e)" by (cases ev)
  have gap: "0 < minInterval c" using assms(1) by (simp add: pacer_ok_def)
  show ?thesis
  proof (cases e)
    case EvPace
    obtain prev slot wait d where r: "paceReserve now c = (Some (prev, slot, wait), d)"
      using paceReserve_on [OF assms(1)] by blast
    note s = paceReserve_slot [OF assms(1) r]
    then show ?thesis
      using assms(2, 3) chained_snoc [of "minInterval c" base held prev slot wait] by (simp add: ev EvPace r)
  next
    case (EvCancel i)
    obtain prev slot wait where h: "held ! i = (prev, slot, wait)" by (cases "held ! i")
    have "pacer_ok (paceRelease prev slot c)" "minInterval (paceRelease prev slot c) = minInterval c"
      "lastRequest (paceRelease prev slot c) = (if lastRequest c = slot then prev else lastRequest c)"
      using assms(1) by (simp_all add: paceRelease_def pacer_ok_def)
    then show ?thesis
      using assms chained_drop [OF gap assms(2) _ h] by (auto simp: ev EvCancel h split: if_splits)
  qed (use assms OnThrottle_ok OnSuccess_ok in \<open>auto simp: ev\<close>)
qed

lemma pacer_run_chained:
  "pacer_ok c \<Longrightarrow> chained (minInterval c) base held (lastRequest c) \<Longrightarrow> fold pacer_step evs (held, c) = (held', c') \<Longrightarrow>
    pacer_ok c' \<and> minInterval c' = minInterval c \<and> chained (minInterval c) base held' (lastRequest c')"
proof (induction evs arbitrary: held c)
  case (Cons ev evs)
  obtain h d where step: "pacer_step ev (held, c) = (h, d)" by fastforce
  show ?case using Cons.IH [of d h] Cons.prems(3) pacer_step_chained [OF Cons.prems(1, 2) step] by (simp add: step)
qed simp

section \<open>Properties\<close>

text \<open>
  C29: Callers are spaced. Whatever throttle and success notifications come between them and whichever
  waiting callers are canceled, in whatever order, the slots that are not given back, in the order the
  callers took the lock, are each at least the configured interval after the one before, starting from
  the last request; the adaptive level can only slow the lane down from that floor. A slot may be handed
  out again only after its caller gave it back, and the client never falls behind a slot that is in use.
\<close>

theorem pace_slots_spaced:
  assumes "pacer_ok c" and "pacer_run evs c = (held, c')"
  shows "sorted_wrt (\<lambda>a b. a + minInterval c \<le> b) (lastRequest c # map slotOf held) \<and>
    (\<forall>r \<in> set held. slotOf r \<le> lastRequest c')"
proof -
  have gap: "0 < minInterval c" using assms(1) by (simp add: pacer_ok_def)
  have c: "chained (minInterval c) (lastRequest c) held (lastRequest c')"
    using pacer_run_chained [OF assms(1), of "lastRequest c" "[]" evs held c'] assms(2) by (simp add: pacer_run_def)
  then show ?thesis using chained_sorted [OF gap c] chained_bound [OF gap c] by blast
qed

text \<open>The second caller gives its slot back, and the fourth is handed it.\<close>

theorem pace_slots_spaced_witness:
  "pacer_run [(100, EvPace), (101, EvPace), (102, EvCancel 1), (103, EvPace), (104, EvPace)] (newPacer 10) =
     ([(0, 100, 0), (100, 110, 7), (110, 120, 16)], (newPacer 10)\<lparr>lastRequest := 120\<rparr>) \<and>
   sorted_wrt (\<lambda>a b. a + 10 \<le> b) [0, 100, 110, 120 :: int]"
proof -
  have ok: "pacer_ok (newPacer 10)"
    by (simp add: pacer_ok_def newPacer_def pacer_consts is_int64_def)
  have run: "pacer_run [(100, EvPace), (101, EvPace), (102, EvCancel 1), (103, EvPace), (104, EvPace)] (newPacer 10) =
     ([(0, 100, 0), (100, 110, 7), (110, 120, 16)], (newPacer 10)\<lparr>lastRequest := 120\<rparr>)"
    by (simp add: pacer_run_def paceReserve_def paceRelease_def newPacer_def decayLocked_def decayedLevel.simps
        effectiveInterval_def timeSub_def maxInt64_def Let_def)
  show ?thesis using run pace_slots_spaced [OF ok run] by (simp add: newPacer_def slotOf_def)
qed

text \<open>
  The effective interval is the configured one doubled per level and saturated at the largest
  duration: it never wraps to a non-positive value, which would switch pacing off.
\<close>

theorem effective_interval_saturates:
  assumes "0 < mi" "is_int64 mi" "0 \<le> level"
  shows "effectiveInterval mi level = min maxInt64 (mi * 2 ^ nat level) \<and> mi \<le> effectiveInterval mi level"
  using effectiveInterval_eq [OF assms] effectiveInterval_floor [OF assms] by simp

theorem effective_interval_saturates_witness:
  "effectiveInterval maxInt64 3 = maxInt64 \<and> effectiveInterval second 3 = 8 * second"
  using effective_interval_saturates [of maxInt64 3] effective_interval_saturates [of second 3]
  by (simp add: maxInt64_def is_int64_def second_def)

end
