(* ===== verification/Go_Float.thy ===== *)
theory Go_Float
  imports Complex_Main "HOL-Library.Log_Nat"
begin

text \<open>
  Go's \<open>float64\<close>: NaN, the infinities, and the finite doubles as the rationals they denote (the
  two zeros, which no modelled comparison tells apart, are one value). Every arithmetic result
  is rounded to the nearest double, ties to even, with the subnormal range and the overflow to
  infinity of IEEE 754, so the model computes what the program computes. The lemmas show that
  rounding is monotone and exact on the constants the program compares against.
\<close>

section \<open>Definitions\<close>

datatype float64 = NaN | PosInf | NegInf | Fin rat

text \<open>\<open>ilog2 x\<close> is the binary exponent of \<open>x > 0\<close>: \<open>2 powi ilog2 x \<le> x < 2 powi (ilog2 x + 1)\<close>.\<close>

definition ilog2 :: "rat \<Rightarrow> int" where
  "ilog2 x = (let (p, q) = quotient_of x;
                  k = int (floorlog 2 (nat p)) - int (floorlog 2 (nat q))
              in if 2 powi k \<le> x then k else k - 1)"

definition roundEven :: "rat \<Rightarrow> int" where
  "roundEven x = (let f = \<lfloor>x\<rfloor>; d = x - of_int f
                  in if d < 1 / 2 then f else if d > 1 / 2 then f + 1
                     else if even f then f else f + 1)"

definition ulpExp :: "rat \<Rightarrow> int" where
  "ulpExp x = max (ilog2 \<bar>x\<bar> - 52) (- 1074)"

definition nearest :: "rat \<Rightarrow> rat" where
  "nearest x = (if x = 0 then 0 else of_int (roundEven (x / 2 powi ulpExp x)) * 2 powi ulpExp x)"

definition toFloat :: "rat \<Rightarrow> float64" where
  "toFloat x = (let r = nearest x in if r \<ge> 2 ^ 1024 then PosInf else if r \<le> - (2 ^ 1024) then NegInf else Fin r)"

definition isNaN :: "float64 \<Rightarrow> bool" where "isNaN f \<longleftrightarrow> f = NaN"
definition isInf :: "float64 \<Rightarrow> bool" where "isInf f \<longleftrightarrow> f = PosInf \<or> f = NegInf"

definition fofInt :: "int \<Rightarrow> float64" where "fofInt i = toFloat (of_int i)"

fun fadd :: "float64 \<Rightarrow> float64 \<Rightarrow> float64" where
  "fadd (Fin a) (Fin b) = toFloat (a + b)"
| "fadd NaN _ = NaN"
| "fadd _ NaN = NaN"
| "fadd PosInf NegInf = NaN"
| "fadd NegInf PosInf = NaN"
| "fadd PosInf _ = PosInf"
| "fadd NegInf _ = NegInf"
| "fadd _ PosInf = PosInf"
| "fadd _ NegInf = NegInf"

fun fneg :: "float64 \<Rightarrow> float64" where
  "fneg NaN = NaN"
| "fneg PosInf = NegInf"
| "fneg NegInf = PosInf"
| "fneg (Fin a) = Fin (- a)"

definition fsub :: "float64 \<Rightarrow> float64 \<Rightarrow> float64" where "fsub a b = fadd a (fneg b)"

text \<open>Division, as far as the code uses it: by a finite value that is not zero.\<close>

fun fdiv :: "float64 \<Rightarrow> float64 \<Rightarrow> float64" where
  "fdiv (Fin a) (Fin b) = (if b = 0 then (if a = 0 then NaN else if a > 0 then PosInf else NegInf)
                           else toFloat (a / b))"
| "fdiv NaN _ = NaN"
| "fdiv _ NaN = NaN"
| "fdiv PosInf (Fin b) = (if b \<ge> 0 then PosInf else NegInf)"
| "fdiv NegInf (Fin b) = (if b \<ge> 0 then NegInf else PosInf)"
| "fdiv (Fin a) _ = Fin 0"
| "fdiv _ _ = NaN"

text \<open>Multiplication.\<close>

fun fsign :: "float64 \<Rightarrow> int" where
  "fsign (Fin a) = (if a > 0 then 1 else if a < 0 then - 1 else 0)"
| "fsign PosInf = 1"
| "fsign NegInf = - 1"
| "fsign NaN = 0"

fun fmul :: "float64 \<Rightarrow> float64 \<Rightarrow> float64" where
  "fmul (Fin a) (Fin b) = toFloat (a * b)"
| "fmul NaN _ = NaN"
| "fmul _ NaN = NaN"
| "fmul a b = (let s = fsign a * fsign b in if s = 0 then NaN else if s > 0 then PosInf else NegInf)"

fun flt :: "float64 \<Rightarrow> float64 \<Rightarrow> bool" where
  "flt (Fin a) (Fin b) \<longleftrightarrow> a < b"
| "flt NegInf (Fin _) = True"
| "flt NegInf PosInf = True"
| "flt (Fin _) PosInf = True"
| "flt _ _ = False"

fun feq :: "float64 \<Rightarrow> float64 \<Rightarrow> bool" where
  "feq NaN _ = False"
| "feq _ NaN = False"
| "feq a b \<longleftrightarrow> a = b"

definition fle :: "float64 \<Rightarrow> float64 \<Rightarrow> bool" where "fle a b \<longleftrightarrow> flt a b \<or> feq a b"

section \<open>Lemmas\<close>

lemma bitlen_bounds:
  assumes "0 < i"
  shows "(2::rat) powi (int (floorlog 2 (nat i)) - 1) \<le> of_int i"
    and "(of_int i :: rat) < 2 powi int (floorlog 2 (nat i))"
proof -
  define n where "n = nat i"
  have n: "0 < n" and i: "(of_int i :: rat) = of_nat n" using assms by (simp_all add: n_def)
  then have "floorlog 2 n \<noteq> 0" by (simp add: floorlog_eq_zero_iff)
  then obtain k where k: "floorlog 2 n = Suc k" by (cases "floorlog 2 n") auto
  from floorlog_bounds [of n 2] n have b: "2 ^ k \<le> n" "n < 2 ^ Suc k" by (simp_all add: k)
  have "(of_nat (2 ^ k) :: rat) \<le> of_nat n" using b(1) by (simp only: of_nat_le_iff)
  then show "(2::rat) powi (int (floorlog 2 (nat i)) - 1) \<le> of_int i"
    by (simp add: i k flip: n_def)
  have "(of_nat n :: rat) < of_nat (2 ^ Suc k)" using b(2) by (simp only: of_nat_less_iff)
  then show "(of_int i :: rat) < 2 powi int (floorlog 2 (nat i))"
    by (simp add: i k power_int_add flip: n_def)
qed

lemma powi2_pos [simp]: "(0::rat) < 2 powi k"
  by (simp add: zero_less_power_int)

lemma powi2_mono: "i \<le> j \<Longrightarrow> (2::rat) powi i \<le> 2 powi j"
  by (simp add: power_int_increasing)

lemma powi2_diff: "(2::rat) powi (i - j) = 2 powi i / 2 powi j"
  by (simp add: power_int_diff)

lemma ilog2_bounds:
  assumes "0 < x"
  shows "2 powi ilog2 x \<le> x \<and> x < 2 powi (ilog2 x + 1)"
proof -
  obtain p q where pq: "quotient_of x = (p, q)" by (cases "quotient_of x")
  then have q: "0 < q" and xe: "x = of_int p / of_int q"
    using quotient_of_denom_pos quotient_of_div by blast+
  then have p: "0 < p" using assms by (simp add: zero_less_divide_iff)
  define a where "a = int (floorlog 2 (nat p))"
  define b where "b = int (floorlog 2 (nat q))"
  note pb = bitlen_bounds [OF p, folded a_def] and qb = bitlen_bounds [OF q, folded b_def]
  have Q: "(0::rat) < of_int q" using q by simp
  have "x < 2 powi a / 2 powi (b - 1)"
    unfolding xe using pb(2) qb(1) Q p by (intro frac_less) auto
  also have "\<dots> = 2 powi (a - b + 1)" by (simp add: algebra_simps flip: powi2_diff)
  finally have up: "x < 2 powi (a - b + 1)" .
  have "2 powi (a - 1) / 2 powi b \<le> x"
    unfolding xe using pb(1) qb(2) Q p by (intro frac_le) auto
  then have lo: "2 powi (a - b - 1) \<le> x" by (simp add: algebra_simps flip: powi2_diff)
  show ?thesis using up lo by (auto simp: ilog2_def pq a_def b_def Let_def)
qed

lemma ilog2_unique:
  assumes "2 powi k \<le> x" "x < 2 powi (k + 1)"
  shows "ilog2 x = k"
proof -
  have x: "0 < x" using assms(1) powi2_pos [of k] by linarith
  have 1: "\<not> ilog2 x + 1 \<le> k" 
    using ilog2_bounds [OF x] assms powi2_mono [of "ilog2 x + 1" k] by linarith
  have "\<not> k + 1 \<le> ilog2 x"
    using ilog2_bounds [OF x] assms powi2_mono [of "k + 1" "ilog2 x"] by linarith
  with 1 show ?thesis by linarith
qed

lemma ilog2_mono: "0 < x \<Longrightarrow> x \<le> y \<Longrightarrow> ilog2 x \<le> ilog2 y"
  using ilog2_bounds [of x] ilog2_bounds [of y] powi2_mono [of "ilog2 y + 1" "ilog2 x"]
  by fastforce

lemma roundEven_mono: "x \<le> y \<Longrightarrow> roundEven x \<le> roundEven y"
proof -
  assume xy: "x \<le> y"
  then have f: "\<lfloor>x\<rfloor> \<le> \<lfloor>y\<rfloor>" by (rule floor_mono)
  show ?thesis
  proof (cases "\<lfloor>x\<rfloor> = \<lfloor>y\<rfloor>")
    case True
    then show ?thesis using xy by (auto simp: roundEven_def Let_def)
  next
    case False
    with f show ?thesis by (auto simp: roundEven_def Let_def)
  qed
qed

lemma roundEven_of_int [simp]: "roundEven (of_int k) = k"
  by (simp add: roundEven_def)

lemma nearest_nonneg: "0 \<le> x \<Longrightarrow> 0 \<le> nearest x"
proof -
  assume "0 \<le> x"
  then have "roundEven (of_int 0) \<le> roundEven (x / 2 powi ulpExp x)"
    by (intro roundEven_mono) simp
  then show ?thesis by (simp add: nearest_def del: of_int_0)
qed

lemma nearest_nonpos: "x \<le> 0 \<Longrightarrow> nearest x \<le> 0"
proof -
  assume "x \<le> 0"
  then have "roundEven (x / 2 powi ulpExp x) \<le> roundEven (of_int 0)"
    by (intro roundEven_mono) (simp add: divide_nonpos_pos)
  then show ?thesis by (simp add: nearest_def mult_nonpos_nonneg del: of_int_0)
qed

lemma nearest_mono_pos:
  assumes x: "0 < x" and xy: "x \<le> y"
  shows "nearest x \<le> nearest y"
proof -
  have y: "0 < y" using assms by simp
  have le: "ulpExp x \<le> ulpExp y" using ilog2_mono [OF x xy] x y by (simp add: ulpExp_def)
  show ?thesis
  proof (cases "ulpExp x = ulpExp y")
    case True
    have "roundEven (x / 2 powi ulpExp y) \<le> roundEven (y / 2 powi ulpExp y)"
      using xy by (intro roundEven_mono divide_right_mono) auto
    then show ?thesis using x y True by (simp add: nearest_def)
  next
    case False
    let ?e = "ilog2 y"
    have ey: "ulpExp y = ?e - 52" and ex: "ilog2 x + 1 \<le> ?e" and lt: "ulpExp x \<le> ?e"
      using le False x y by (auto simp: ulpExp_def max_def split: if_splits)
    have pow: "(2::rat) powi ?e = of_int (2 ^ nat (?e - u)) * 2 powi u" if "u \<le> ?e" for u
      using that power_int_add [of "2::rat" "?e - u" u] by (simp add: power_int_def)
    have "x \<le> 2 powi ?e" using ilog2_bounds [OF x] powi2_mono [OF ex] by linarith
    then have "x / 2 powi ulpExp x \<le> of_int (2 ^ nat (?e - ulpExp x))"
      unfolding pow [OF lt] by (simp add: pos_divide_le_eq)
    then have "roundEven (x / 2 powi ulpExp x) \<le> 2 ^ nat (?e - ulpExp x)"
      by (metis roundEven_mono roundEven_of_int)
    then have "of_int (roundEven (x / 2 powi ulpExp x)) \<le> (of_int (2 ^ nat (?e - ulpExp x)) :: rat)"
      by (simp only: of_int_le_iff)
    then have 1: "nearest x \<le> 2 powi ?e"
      unfolding pow [OF lt] nearest_def using x by (auto intro!: mult_right_mono)
    have ly: "ulpExp y \<le> ?e" by (simp add: ey)
    have "of_int (2 ^ nat (?e - ulpExp y)) \<le> y / 2 powi ulpExp y"
      using ilog2_bounds [OF y] unfolding pow [OF ly] by (simp add: pos_le_divide_eq)
    then have "2 ^ nat (?e - ulpExp y) \<le> roundEven (y / 2 powi ulpExp y)"
      by (metis roundEven_mono roundEven_of_int)
    then have "(of_int (2 ^ nat (?e - ulpExp y)) :: rat) \<le> of_int (roundEven (y / 2 powi ulpExp y))"
      by (simp only: of_int_le_iff)
    then have "2 powi ?e \<le> nearest y"
      unfolding pow [OF ly] nearest_def using y by (auto intro!: mult_right_mono)
    with 1 show ?thesis by linarith
  qed
qed

text \<open>A double with a short significand is its own rounding.\<close>

lemma nearest_exact:
  assumes "x = of_int m * 2 powi u" "0 < m" "m < 2 ^ 53" "- 1074 \<le> u"
  shows "nearest x = x"
proof -
  have x: "0 < x" using assms by simp
  have lt: "x < 2 powi (u + 53)"
  proof -
    have "(of_int m :: rat) < 2 ^ 53"
      using assms(3) by (metis of_int_less_iff of_int_numeral of_int_power)
    then show ?thesis using assms(1) by (simp add: power_int_add)
  qed
  have "ilog2 x < u + 53"
    using ilog2_bounds [OF x] lt powi2_mono [of "u + 53" "ilog2 x"] by linarith
  then have le: "ulpExp x \<le> u" using x assms(4) by (simp add: ulpExp_def)
  have "(2::rat) powi u = of_int (2 ^ nat (u - ulpExp x)) * 2 powi ulpExp x"
    using le power_int_add [of "2::rat" "u - ulpExp x" "ulpExp x"] by (simp add: power_int_def)
  then have "x = of_int (m * 2 ^ nat (u - ulpExp x)) * 2 powi ulpExp x"
    unfolding assms(1) by simp
  moreover from this have "x / 2 powi ulpExp x = of_int (m * 2 ^ nat (u - ulpExp x))"
    by (metis nonzero_mult_div_cancel_right powi2_pos less_irrefl)
  ultimately show ?thesis using x unfolding nearest_def by (metis roundEven_of_int less_irrefl)
qed

lemma fofInt_exact:
  assumes "0 < d" "d < 2 ^ 53"
  shows "fofInt d = Fin (of_int d)"
proof -
  have "nearest (of_int d) = of_int d" by (rule nearest_exact [of _ d 0]) (use assms in auto)
  moreover have "(of_int d :: rat) < 2 ^ 1024"
  proof -
    have "(of_int d :: rat) < of_int (2 ^ 53)" using assms(2) by (simp only: of_int_less_iff)
    then show ?thesis by simp
  qed
  moreover have "\<not> (of_int d :: rat) \<le> - (2 ^ 1024)"
  proof -
    have "- (2 ^ 1024) < (0::rat)" by simp
    moreover have "(0::rat) < of_int d" using assms(1) by simp
    ultimately show ?thesis by linarith
  qed
  ultimately show ?thesis by (simp add: fofInt_def toFloat_def)
qed

text \<open>Sums and quotients of values from 0 to infinity stay there, so they are never NaN.\<close>

definition fnonneg :: "float64 \<Rightarrow> bool" where
  "fnonneg f \<longleftrightarrow> f = PosInf \<or> (\<exists>r \<ge> 0. f = Fin r)"

lemma toFloat_nonneg: "0 \<le> x \<Longrightarrow> fnonneg (toFloat x)"
proof -
  assume "0 \<le> x"
  then have n: "0 \<le> nearest x" by (rule nearest_nonneg)
  moreover have "(0::rat) < 2 ^ 1024" by simp
  ultimately have "\<not> nearest x \<le> - (2 ^ 1024)" by linarith
  then show ?thesis using n by (simp add: fnonneg_def toFloat_def Let_def)
qed

lemma fofInt_nonneg: "0 \<le> i \<Longrightarrow> fnonneg (fofInt i)"
  by (simp add: fofInt_def toFloat_nonneg)

lemma fadd_nonneg: "fnonneg a \<Longrightarrow> fnonneg b \<Longrightarrow> fnonneg (fadd a b)"
  by (auto simp: fnonneg_def [of a] fnonneg_def [of b] toFloat_nonneg) (simp_all add: fnonneg_def)

lemma fdiv_nonneg: "fnonneg a \<Longrightarrow> 0 < b \<Longrightarrow> fnonneg (fdiv a (Fin b))"
  by (auto simp: fnonneg_def [of a] toFloat_nonneg) (simp_all add: fnonneg_def)

text \<open>Apart from NaN, \<open>flt\<close> is a linear order.\<close>

lemma flt_negTrans: "a \<noteq> NaN \<Longrightarrow> b \<noteq> NaN \<Longrightarrow> c \<noteq> NaN \<Longrightarrow> \<not> flt b a \<Longrightarrow> \<not> flt c b \<Longrightarrow> \<not> flt c a"
  by (cases a; cases b; cases c) auto

lemma flt_asym: "flt a b \<Longrightarrow> \<not> flt b a"
  by (cases a; cases b) auto

end
