(* ===== verification/Models.thy ===== *)
theory Models
  imports Canticle_Prelude Go_Float
begin

text \<open>
  Package \<open>internal/models\<close>: the track and song values that flow from the providers through the
  orchestrator to the writer, with the timestamp conversion and rendering the LRC writers share.
\<close>

section \<open>Definitions\<close>

record Track =
  TrackName :: gotext
  ArtistName :: gotext
  AlbumName :: gotext
  AlbumArtist :: gotext
  TrackLength :: int
  Instrumental :: int
  HasLyrics :: int
  HasSubtitles :: int
  ISRC :: gotext
  SpotifyID :: gotext
  RecordingMBID :: gotext
  CommontrackID :: gotext

record Time =
  Total :: float64
  Minutes :: int
  Seconds :: int
  Hundredths :: int

record Lines =
  Text :: gotext
  LTime :: Time

record WordTiming =
  WLine :: int
  WText :: gotext
  StartMS :: int
  EndMS :: int

datatype WordAnswer = WordAnswerUnknown | WordAnswerServed | WordAnswerAbsent

record LaneAttempt =
  la_Lane :: gotext
  la_Hit :: bool
  la_Local :: bool

record Song =
  STrack :: Track
  LyricsBody :: gotext
  Subtitles :: "Lines list"
  TranslationSubtitles :: "Lines list"
  RomanizationSubtitles :: "Lines list"
  WordTimings :: "WordTiming list"
  WinningLane :: gotext
  Upstream :: gotext
  LaneAttempts :: "LaneAttempt list"
  FetchedAt :: instant
  DetectorVersion :: gotext
  DetectorMusicSum :: float64
  DetectorVocalPeak :: float64
  DetectorSpeechMean :: float64
  DetectorVocalClass :: gotext
  DetectorGateComplete :: bool
  AudioDurationSeconds :: int
  AudioPath :: gotext
  WordAns :: WordAnswer
  IdentityArtistKey :: gotext
  IdentityTitleKey :: gotext

definition zeroTrack :: Track where
  "zeroTrack = \<lparr>TrackName = [], ArtistName = [], AlbumName = [], AlbumArtist = [], TrackLength = 0,
     Instrumental = 0, HasLyrics = 0, HasSubtitles = 0, ISRC = [], SpotifyID = [],
     RecordingMBID = [], CommontrackID = []\<rparr>"

definition zeroSong :: Song where
  "zeroSong = \<lparr>STrack = zeroTrack, LyricsBody = [], Subtitles = [], TranslationSubtitles = [],
     RomanizationSubtitles = [], WordTimings = [], WinningLane = [], Upstream = [],
     LaneAttempts = [], FetchedAt = 0, DetectorVersion = [], DetectorMusicSum = Fin 0,
     DetectorVocalPeak = Fin 0, DetectorSpeechMean = Fin 0, DetectorVocalClass = [],
     DetectorGateComplete = False, AudioDurationSeconds = 0, AudioPath = [],
     WordAns = WordAnswerUnknown, IdentityArtistKey = [], IdentityTitleKey = []\<rparr>"

text \<open>The verb \<open>02d\<close> on an \<open>int\<close>: a minus sign counts towards the width of two.\<close>

definition fmt02d :: "int \<Rightarrow> gotext" where
  "fmt02d i = (if i < 0 then itoa i else pad2 (nat i))"

definition Stamp :: "Time \<Rightarrow> gotext" where
  "Stamp t = fmt02d (Minutes t) @ [58] @ fmt02d (Seconds t) @ [46] @ fmt02d (Hundredths t)"

definition MsToTime :: "int \<Rightarrow> Time" where
  "MsToTime ms =
     (let ms = (if ms < 0 then 0 else ms)
      in \<lparr>Total = fdiv (fofInt ms) (Fin 1000), Minutes = quot ms 60000,
          Seconds = quot ms 1000 mod 60, Hundredths = quot ms 10 mod 100\<rparr>)"

section \<open>Lemmas\<close>

lemma MsToTime_fields:
  assumes "0 \<le> ms"
  shows "Minutes (MsToTime ms) = ms div 60000" "Seconds (MsToTime ms) = ms div 1000 mod 60"
    "Hundredths (MsToTime ms) = ms div 10 mod 100"
  using assms by (simp_all add: MsToTime_def quot_pos)

text \<open>The three integer fields together spell the offset to the hundredth of a second.\<close>

lemma MsToTime_recompose:
  assumes "0 \<le> ms"
  shows "Minutes (MsToTime ms) * 60000 + Seconds (MsToTime ms) * 1000 + Hundredths (MsToTime ms) * 10
    = ms - ms mod 10"
proof -
  have "ms div 10 = ms div 1000 * 100 + ms div 10 mod 100"
    using div_mult_mod_eq [of "ms div 10" 100] by (simp add: zdiv_zmult2_eq [symmetric])
  moreover have "ms div 1000 = ms div 60000 * 60 + ms div 1000 mod 60"
    using div_mult_mod_eq [of "ms div 1000" 60] by (simp add: zdiv_zmult2_eq [symmetric])
  moreover have "ms = ms div 10 * 10 + ms mod 10" by simp
  ultimately show ?thesis using assms unfolding MsToTime_fields [OF assms] by linarith
qed

lemma fmt02d_nonneg: "0 \<le> i \<Longrightarrow> fmt02d i = pad2 (nat i)"
  by (simp add: fmt02d_def)

lemma Stamp_MsToTime:
  assumes "0 \<le> ms"
  shows "Stamp (MsToTime ms) =
    pad2 (nat (ms div 60000)) @ [58] @ pad2 (nat (ms div 1000 mod 60)) @ [46]
      @ pad2 (nat (ms div 10 mod 100))"
  using assms by (simp add: Stamp_def MsToTime_fields fmt02d_nonneg pos_imp_zdiv_nonneg_iff)

end
