(* ===== verification/Timing.thy ===== *)
theory Timing
  imports Models "HOL-Library.Multiset"
begin

text \<open>
  Package \<open>internal/timing\<close>: the one classification of synced lyrics against the audio length,
  with the filters that decide which cues carry timing (word markers, note glyphs, tag lines,
  blank lines). \<open>timed\<close> is its specification: the finite seconds of the text-bearing cues; the
  two loops of the package are shown to compute functions of that list alone.
\<close>

section \<open>Definitions\<close>

datatype TimingOutcome = Ok | MisSynced | Categorical | UnknownDuration | Degenerate

definition Tolerance :: float64 where "Tolerance = Fin 2"
definition CategoricalRatio :: float64 where "CategoricalRatio = Fin (3 / 2)"

record Magnitude =
  OverrunSeconds :: float64
  Ratio :: float64
  Measured :: bool

definition zeroMagnitude :: Magnitude where
  "zeroMagnitude = \<lparr>OverrunSeconds = Fin 0, Ratio = Fin 0, Measured = False\<rparr>"

text \<open>
  One match of the marker pattern at the head of a text: an opening angle bracket, one or more
  digits (greedy), a colon, a digit up to 5, a digit, a point, two digits and the closing
  bracket. The captures and the text after the match are returned.
\<close>

definition markerTail :: "gotext \<Rightarrow> (gotext \<times> gotext \<times> gotext) option" where
  "markerTail t =
     (case t of
        c1 # s1 # s2 # c2 # h1 # h2 # c3 # rest \<Rightarrow>
          (if c1 = 58 \<and> 48 \<le> s1 \<and> s1 \<le> 53 \<and> isDigit s2 \<and> c2 = 46 \<and> isDigit h1 \<and> isDigit h2 \<and> c3 = 62
           then Some ([s1, s2], [h1, h2], rest) else None)
      | _ \<Rightarrow> None)"

definition matchMarker :: "gotext \<Rightarrow> (gotext \<times> gotext \<times> gotext \<times> gotext) option" where
  "matchMarker t =
     (case t of [] \<Rightarrow> None
      | c # cs \<Rightarrow>
          (if c \<noteq> 60 \<or> takeWhile isDigit cs = [] then None
           else case markerTail (dropWhile isDigit cs) of None \<Rightarrow> None
                | Some (s, h, rest) \<Rightarrow> Some (takeWhile isDigit cs, s, h, rest)))"

lemma markerTail_length: "markerTail t = Some (s, h, rest) \<Longrightarrow> length rest < length t"
  by (auto simp: markerTail_def split: list.splits if_splits)

lemma matchMarker_length:
  assumes "matchMarker t = Some (m, s, h, rest)"
  shows "length rest < length t"
proof -
  obtain cs where "t = 60 # cs" and "markerTail (dropWhile isDigit cs) = Some (s, h, rest)"
    using assms by (auto simp: matchMarker_def split: list.splits if_splits option.splits prod.splits)
  then show ?thesis
    using markerTail_length [of "dropWhile isDigit cs"] length_dropWhile_le [of isDigit cs] by fastforce
qed

text \<open>\<open>ReplaceAllString\<close>: leftmost matches, removed without overlap.\<close>

function removeMarkers :: "gotext \<Rightarrow> gotext" where
  "removeMarkers [] = []"
| "removeMarkers (c # cs) =
     (case matchMarker (c # cs) of
        Some (m, s, h, rest) \<Rightarrow> removeMarkers rest
      | None \<Rightarrow> c # removeMarkers cs)"
  by pat_completeness auto
termination
  by (relation "measure length") (auto dest: matchMarker_length)

definition StripWordMarkers :: "gotext \<Rightarrow> gotext" where
  "StripWordMarkers text = (if 60 \<notin> set text then text else removeMarkers text)"

definition noteGlyphs :: "rune set" where
  "noteGlyphs = {9833, 9834, 9835, 9836, 127925, 127926}"

definition zeroWidth :: "rune \<Rightarrow> bool" where
  "zeroWidth r \<longleftrightarrow> r = 8203 \<or> r = 65279"

definition isNoteOnly :: "gotext \<Rightarrow> bool" where
  "isNoteOnly t =
     (let stripped = trimSpace (filter (\<lambda>r. \<not> (r \<in> noteGlyphs \<or> zeroWidth r)) t)
      in stripped = [] \<or> equalFold stripped (lit ''instrumental''))"

definition tagKeys :: "gotext set" where
  "tagKeys = lit ` {''ar'', ''ti'', ''al'', ''au'', ''by'', ''length'', ''offset'', ''re'', ''ve'',
     ''tool'', ''id'', ''isrc'', ''mbid'', ''source'', ''dv'', ''fetched''}"

definition isTagLine :: "gotext \<Rightarrow> bool" where
  "isTagLine t =
     (if t = [] \<or> hd t \<noteq> 91 \<or> List.last t \<noteq> 93 then False
      else let inner = butlast (tl t); key = takeWhile (\<lambda>r. r \<noteq> 58) inner
           in if 58 \<notin> set inner \<or> key = [] then False
              else toLower (trimSpace key) \<in> tagKeys)"

definition isDecorative :: "gotext \<Rightarrow> bool" where
  "isDecorative text =
     (let t = trimSpace (StripWordMarkers text)
      in t = [] \<or> isNoteOnly t \<or> isTagLine t)"

definition IsDecorative :: "gotext \<Rightarrow> bool" where
  "IsDecorative text = isDecorative text"

definition seconds :: "Time \<Rightarrow> float64" where
  "seconds t =
     (if \<not> feq (Total t) (Fin 0) then Total t
      else fadd (fofInt (int64 (int64 (Minutes t * 60) + Seconds t)))
                (fdiv (fofInt (Hundredths t)) (Fin 100)))"

text \<open>The loop of \<open>isDegenerate\<close>: it returns the count and whether it broke on a second stamp.\<close>

fun degenerateLoop :: "Lines list \<Rightarrow> float64 option \<Rightarrow> nat \<Rightarrow> nat \<times> bool" where
  "degenerateLoop [] first cnt = (cnt, False)"
| "degenerateLoop (l # ls) first cnt =
     (if isDecorative (Text l) then degenerateLoop ls first cnt
      else let s = seconds (LTime l)
           in if isNaN s \<or> isInf s then degenerateLoop ls first cnt
              else case first of
                     None \<Rightarrow> degenerateLoop ls (Some s) (cnt + 1)
                   | Some f \<Rightarrow> if \<not> feq s f then (cnt + 1, True)
                              else degenerateLoop ls first (cnt + 1))"

definition isDegenerate :: "Lines list \<Rightarrow> bool" where
  "isDegenerate ls = (let (cnt, distinct) = degenerateLoop ls None 0 in cnt > 1 \<and> \<not> distinct)"

fun correctedMaxLoop :: "Lines list \<Rightarrow> float64 \<Rightarrow> bool \<Rightarrow> float64 \<times> bool" where
  "correctedMaxLoop [] maxTS found = (maxTS, found)"
| "correctedMaxLoop (l # ls) maxTS found =
     (if isDecorative (Text l) then correctedMaxLoop ls maxTS found
      else let s = seconds (LTime l)
           in if isNaN s \<or> isInf s then correctedMaxLoop ls maxTS found
              else if \<not> found \<or> flt maxTS s then correctedMaxLoop ls s True
              else correctedMaxLoop ls maxTS found)"

definition correctedMaxSeconds :: "Lines list \<Rightarrow> float64 \<times> bool" where
  "correctedMaxSeconds ls = correctedMaxLoop ls (Fin 0) False"

definition Evaluate :: "Song \<Rightarrow> int \<Rightarrow> TimingOutcome \<times> Magnitude" where
  "Evaluate song durationSeconds =
     (if durationSeconds \<le> 0 then (UnknownDuration, zeroMagnitude)
      else if isDegenerate (Subtitles song) then (Degenerate, zeroMagnitude)
      else let (maxTS, ok) = correctedMaxSeconds (Subtitles song)
           in if \<not> ok then (Ok, zeroMagnitude)
              else let duration = fofInt durationSeconds;
                       mag = \<lparr>OverrunSeconds = fsub maxTS duration, Ratio = fdiv maxTS duration,
                              Measured = True\<rparr>
                   in if fle (OverrunSeconds mag) Tolerance then (Ok, mag)
                      else if fle CategoricalRatio (Ratio mag) then (Categorical, mag)
                      else (MisSynced, mag))"

text \<open>What the package judges by: the finite seconds of the text-bearing cues, in order.\<close>

definition cueSeconds :: "Lines \<Rightarrow> rat option" where
  "cueSeconds l = (if isDecorative (Text l) then None
     else case seconds (LTime l) of Fin q \<Rightarrow> Some q | _ \<Rightarrow> None)"

definition timed :: "Lines list \<Rightarrow> rat list" where
  "timed ls = List.map_filter cueSeconds ls"

text \<open>A cue of a text and an exact stamp, for the concrete songs below.\<close>

definition cueAt :: "string \<Rightarrow> rat \<Rightarrow> Lines" where
  "cueAt s q = \<lparr>Text = lit s, LTime = \<lparr>Total = Fin q, Minutes = 0, Seconds = 0, Hundredths = 0\<rparr>\<rparr>"

section \<open>Lemmas\<close>

lemma timed_simps [simp]:
  "timed [] = []"
  "timed (l # ls) = (case cueSeconds l of None \<Rightarrow> timed ls | Some q \<Rightarrow> q # timed ls)"
  by (simp_all add: timed_def map_filter_simps split: option.split)

lemma finite_float_cases: "\<not> (isNaN s \<or> isInf s) \<Longrightarrow> \<exists>q. s = Fin q"
  by (cases s) (auto simp: isNaN_def isInf_def)

lemma isNaN_Fin [simp]: "\<not> isNaN (Fin q)" and isInf_Fin [simp]: "\<not> isInf (Fin q)"
  by (simp_all add: isNaN_def isInf_def)

lemma cueSeconds_None: "cueSeconds l = None \<longleftrightarrow>
    isDecorative (Text l) \<or> isNaN (seconds (LTime l)) \<or> isInf (seconds (LTime l))"
  by (auto simp: cueSeconds_def isNaN_def isInf_def split: float64.splits)

lemma cueSeconds_Some: "cueSeconds l = Some q \<longleftrightarrow> \<not> isDecorative (Text l) \<and> seconds (LTime l) = Fin q"
  by (auto simp: cueSeconds_def split: float64.splits)

lemma degenerateLoop_cons_skip: "cueSeconds l = None \<Longrightarrow>
    degenerateLoop (l # ls) first cnt = degenerateLoop ls first cnt"
  by (auto simp: cueSeconds_None Let_def)

lemma degenerateLoop_cons_timed: "cueSeconds l = Some q \<Longrightarrow>
    degenerateLoop (l # ls) first cnt =
      (case first of None \<Rightarrow> degenerateLoop ls (Some (Fin q)) (cnt + 1)
       | Some f \<Rightarrow> if \<not> feq (Fin q) f then (cnt + 1, True)
                  else degenerateLoop ls first (cnt + 1))"
  by (auto simp: cueSeconds_Some Let_def)

lemma degenerateLoop_started: "degenerateLoop ls (Some (Fin a)) cnt =
    (if \<forall>q \<in> set (timed ls). q = a then (cnt + length (timed ls), False)
     else (cnt + length (takeWhile (\<lambda>q. q = a) (timed ls)) + 1, True))"
proof (induction ls arbitrary: cnt)
  case Nil
  then show ?case by simp
next
  case (Cons l ls)
  show ?case
  proof (cases "cueSeconds l")
    case None
    then show ?thesis using Cons.IH [of cnt] by (simp add: degenerateLoop_cons_skip del: degenerateLoop.simps)
  next
    case (Some q)
    then show ?thesis using Cons.IH [of "cnt + 1"]
      by (auto simp: degenerateLoop_cons_timed Let_def simp del: degenerateLoop.simps)
  qed
qed

lemma degenerateLoop_fresh: "degenerateLoop ls None cnt =
    (case timed ls of [] \<Rightarrow> (cnt, False)
     | a # qs \<Rightarrow> (if \<forall>q \<in> set qs. q = a then (cnt + 1 + length qs, False)
                 else (cnt + 1 + length (takeWhile (\<lambda>q. q = a) qs) + 1, True)))"
proof (induction ls arbitrary: cnt)
  case Nil
  then show ?case by simp
next
  case (Cons l ls)
  show ?case
  proof (cases "cueSeconds l")
    case None
    then show ?thesis using Cons.IH [of cnt] by (simp add: degenerateLoop_cons_skip del: degenerateLoop.simps)
  next
    case (Some q)
    then show ?thesis
      by (simp add: degenerateLoop_cons_timed degenerateLoop_started Let_def del: degenerateLoop.simps)
  qed
qed

lemma isDegenerate_iff:
  "isDegenerate ls \<longleftrightarrow> length (timed ls) > 1 \<and> (\<exists>a. set (timed ls) = {a})"
proof (cases "timed ls")
  case Nil
  then show ?thesis by (simp add: isDegenerate_def degenerateLoop_fresh)
next
  case (Cons a qs)
  then have "isDegenerate ls \<longleftrightarrow> qs \<noteq> [] \<and> (\<forall>q \<in> set qs. q = a)"
    by (auto simp: isDegenerate_def degenerateLoop_fresh split: if_splits)
  also have "\<dots> \<longleftrightarrow> length (timed ls) > 1 \<and> (\<exists>b. set (timed ls) = {b})"
    by (auto simp: Cons)
  finally show ?thesis .
qed

lemma correctedMaxLoop_eq: "correctedMaxLoop ls (Fin m) found =
    (if timed ls = [] then (Fin m, found)
     else (Fin (Max ((if found then {m} else {}) \<union> set (timed ls))), True))"
proof (induction ls arbitrary: m found)
  case Nil
  then show ?case by simp
next
  case (Cons l ls)
  show ?case
  proof (cases "cueSeconds l")
    case None
    then have "correctedMaxLoop (l # ls) (Fin m) found = correctedMaxLoop ls (Fin m) found"
      by (auto simp: cueSeconds_None Let_def)
    with None Cons.IH [of m found] show ?thesis by simp
  next
    case (Some q)
    then have "correctedMaxLoop (l # ls) (Fin m) found =
        (if \<not> found \<or> m < q then correctedMaxLoop ls (Fin q) True else correctedMaxLoop ls (Fin m) found)"
      by (auto simp: cueSeconds_Some Let_def)
    moreover have "Max (insert q (set (timed ls))) = max q (Max (set (timed ls)))"
        and "Max (insert m (set (timed ls))) = max m (Max (set (timed ls)))" if "timed ls \<noteq> []"
      using that by simp_all
    moreover have "Max (insert m (insert q (set (timed ls)))) = max m (Max (insert q (set (timed ls))))"
      by simp
    ultimately show ?thesis using Some Cons.IH [of q True] Cons.IH [of m found]
      by (cases "timed ls = []") auto
  qed
qed

lemma correctedMaxSeconds_eq: "correctedMaxSeconds ls =
    (if timed ls = [] then (Fin 0, False) else (Fin (Max (set (timed ls))), True))"
  by (simp add: correctedMaxSeconds_def correctedMaxLoop_eq)

text \<open>The verdict as a function of the multiset of judged seconds.\<close>

lemma isDegenerate_mset: "mset (timed a) = mset (timed b) \<Longrightarrow> isDegenerate a = isDegenerate b"
  using mset_eq_setD [of "timed a" "timed b"] mset_eq_length [of "timed a" "timed b"]
  by (simp add: isDegenerate_iff)

lemma correctedMax_mset: "mset (timed a) = mset (timed b) \<Longrightarrow> correctedMaxSeconds a = correctedMaxSeconds b"
  using mset_eq_setD [of "timed a" "timed b"] by (simp add: correctedMaxSeconds_eq flip: set_empty)

lemma Evaluate_mset:
  "mset (timed (Subtitles a)) = mset (timed (Subtitles b)) \<Longrightarrow> Evaluate a d = Evaluate b d"
  unfolding Evaluate_def
  by (subst isDegenerate_mset [of "Subtitles a" "Subtitles b"], assumption,
      subst correctedMax_mset [of "Subtitles a" "Subtitles b"], assumption, rule refl)

lemma timed_append: "timed (a @ b) = timed a @ timed b"
  by (induction a) (auto split: option.splits)

lemma timed_filter: "timed (filter (\<lambda>l. cueSeconds l \<noteq> None) ls) = timed ls"
  by (induction ls) auto

lemma toFloat_le:
  assumes c: "0 < c" "c < 2 ^ 1024" "nearest c = c" and x: "x \<le> c"
  shows "fle (toFloat x) (Fin c)"
proof -
  have "nearest x \<le> c"
    using nearest_mono_pos [of x c] nearest_nonpos [of x] c x by (cases "0 < x") auto
  with c(2) show ?thesis by (auto simp: toFloat_def Let_def fle_def)
qed

lemma toFloat_ge:
  assumes c: "0 < c" "c < 2 ^ 1024" "nearest c = c" and x: "c \<le> x"
  shows "fle (Fin c) (toFloat x)"
proof -
  have "c \<le> nearest x" using nearest_mono_pos [OF c(1) x] c(3) by simp
  with c show ?thesis by (auto simp: toFloat_def Let_def fle_def)
qed

lemma fle_fin_trans: "fle (Fin c) x \<Longrightarrow> fle x (Fin b) \<Longrightarrow> c \<le> b"
  by (cases x) (auto simp: fle_def)

text \<open>Values on the binary64 grid that the two comparisons turn on.\<close>

lemma nearest_two: "nearest 2 = 2"
  by (rule nearest_exact [of _ 2 0]) simp_all

lemma nearest_above_two: "nearest (2 + 1 / 2 ^ 51) = 2 + 1 / 2 ^ 51"
  by (rule nearest_exact [of _ "2 ^ 52 + 1" "- 51"]) (simp_all add: power_int_minus)

lemma nearest_three_halves: "nearest (3 / 2) = 3 / 2"
  by (rule nearest_exact [of _ 3 "- 1"]) (simp_all add: power_int_minus)

lemma nearest_below_three_halves: "nearest (3 / 2 - 1 / 2 ^ 52) = 3 / 2 - 1 / 2 ^ 52"
  by (rule nearest_exact [of _ "3 * 2 ^ 51 - 1" "- 52"]) (simp_all add: power_int_minus)

lemma Evaluate_measured:
  assumes d: "0 < d" "d < 2 ^ 53" and nd: "\<not> isDegenerate (Subtitles song)"
    and ne: "timed (Subtitles song) \<noteq> []" and m: "m = Max (set (timed (Subtitles song)))"
  shows "fst (Evaluate song d) =
    (if fle (toFloat (m - of_int d)) (Fin 2) then Ok
     else if fle (Fin (3 / 2)) (toFloat (m / of_int d)) then Categorical else MisSynced)"
  using assms by (simp add: Evaluate_def correctedMaxSeconds_eq fofInt_exact fsub_def Tolerance_def
      CategoricalRatio_def Let_def)

lemma overrun_beyond: "of_int d + 2 + 1 / 2 ^ 51 \<le> m \<Longrightarrow> \<not> fle (toFloat (m - of_int d)) (Fin 2)"
  using toFloat_ge [OF _ _ nearest_above_two, of "m - of_int d"] by (auto dest: fle_fin_trans)

lemma ratio_at_least: "0 < d \<Longrightarrow> 3 / 2 * of_int d \<le> m \<Longrightarrow> fle (Fin (3 / 2)) (toFloat (m / of_int d))"
  using toFloat_ge [OF _ _ nearest_three_halves, of "m / of_int d"] by (simp add: pos_le_divide_eq)

lemma ratio_below:
  "0 < d \<Longrightarrow> m \<le> (3 / 2 - 1 / 2 ^ 52) * of_int d \<Longrightarrow> \<not> fle (Fin (3 / 2)) (toFloat (m / of_int d))"
  using toFloat_le [OF _ _ nearest_below_three_halves, of "m / of_int d"]
  by (auto simp: pos_divide_le_eq dest: fle_fin_trans)

lemmas cue_witness = cueAt_def cueSeconds_def seconds_def isDecorative_def StripWordMarkers_def lit_def
  trimSpace_def isSpace_def isNoteOnly_def noteGlyphs_def zeroWidth_def isTagLine_def tagKeys_def
  equalFold_def foldRune_def toLower_def lowerRune_def Let_def

section \<open>Properties\<close>

text \<open>
  The verdict depends on the multiset of the finite seconds of the text-bearing cues and on
  nothing else of the song: reordering the cues, adding decorative lines, note glyphs, tag lines
  or cues stamped NaN or infinity, and every other field of the song leave the outcome and
  its magnitude as they are.
\<close>

theorem Evaluate_depends_on_timed:
  assumes "mset (timed (Subtitles a)) = mset (timed (Subtitles b))"
  shows "Evaluate a d = Evaluate b d"
  using assms by (rule Evaluate_mset)

theorem Evaluate_depends_on_timed_witness:
  "Evaluate (zeroSong\<lparr>Subtitles := [cueAt ''[ti:x]'' 900, cueAt ''b'' 20, cueAt ''a'' 10, cueAt '' '' 999]\<rparr>) 30
   = Evaluate (zeroSong\<lparr>Subtitles := [cueAt ''a'' 10, cueAt ''b'' 20]\<rparr>) 30"
  by (rule Evaluate_depends_on_timed) (simp add: cue_witness add_mset_commute)

text \<open>The boundaries of the verdict, with binary64 rounding taken into account. For a known
  duration of d seconds below 2^53 and cues that are not all stamped alike, whose last text-bearing cue
  is at m: m at most d + 2 is Ok; m beyond d + 2 by a unit in the last place is
  Categorical when m is at least 1.5 d and MisSynced when m is below 1.5 d by a unit in the last
  place of the quotient.
\<close>

theorem Evaluate_boundaries:
  assumes d: "0 < d" "d < 2 ^ 53" and nd: "\<not> isDegenerate (Subtitles song)"
    and ne: "timed (Subtitles song) \<noteq> []" and m: "m = Max (set (timed (Subtitles song)))"
  shows "(m \<le> of_int d + 2 \<longrightarrow> fst (Evaluate song d) = Ok)
    \<and> (of_int d + 2 + 1 / 2 ^ 51 \<le> m \<and> 3 / 2 * of_int d \<le> m \<longrightarrow> fst (Evaluate song d) = Categorical)
    \<and> (of_int d + 2 + 1 / 2 ^ 51 \<le> m \<and> m \<le> (3 / 2 - 1 / 2 ^ 52) * of_int d \<longrightarrow>
           fst (Evaluate song d) = MisSynced)"
proof -
  note ev = Evaluate_measured [OF assms]
  have "m \<le> of_int d + 2 \<Longrightarrow> fst (Evaluate song d) = Ok"
    using toFloat_le [OF _ _ nearest_two, of "m - of_int d"] by (simp add: ev)
  then show ?thesis using overrun_beyond [of d m] ratio_at_least [OF d(1)] ratio_below [OF d(1)] by (auto simp: ev)
qed

theorem Evaluate_boundaries_witness:
  "fst (Evaluate (zeroSong\<lparr>Subtitles := [cueAt ''a'' 10, cueAt ''b'' 100]\<rparr>) 60) = Categorical"
proof -
  let ?s = "zeroSong\<lparr>Subtitles := [cueAt ''a'' 10, cueAt ''b'' 100]\<rparr>"
  have t: "timed (Subtitles ?s) = [10, 100]" by (simp add: cue_witness)
  have "\<not> isDegenerate (Subtitles ?s)" by (simp only: isDegenerate_iff t) simp
  then show ?thesis using Evaluate_boundaries [of 60 ?s 100] t by simp
qed

end
