(* ===== verification/A2.thy ===== *)
theory A2
  imports Timing
begin

text \<open>
  \<open>internal/lyrics/a2.go\<close> and the word parser of \<open>internal/lyrics/a2parse.go\<close>: rendering the
  words of a cue as Enhanced-LRC (A2) inline markers, the guards under which a cue falls back to
  plain text, and the parser that reads the markers back. The parser splits a cue with the same
  pattern that \<open>StripWordMarkers\<close> removes; rendering and parsing are shown to be inverse up to
  the precision of a marker.
\<close>

section \<open>Definitions\<close>

definition a2Stamp :: "int \<Rightarrow> gotext" where
  "a2Stamp ms = Stamp (MsToTime ms)"

definition stripSpace :: "gotext \<Rightarrow> gotext" where
  "stripSpace s = filter (\<lambda>r. \<not> isSpace r) s"

definition wordsReconstructLine :: "gotext \<Rightarrow> WordTiming list \<Rightarrow> bool" where
  "wordsReconstructLine lineText timings \<longleftrightarrow>
     stripSpace (concat (map WText timings)) = stripSpace lineText"

definition containsLineBreak :: "WordTiming list \<Rightarrow> bool" where
  "containsLineBreak timings \<longleftrightarrow> (\<exists>t \<in> set timings. 13 \<in> set (WText t) \<or> 10 \<in> set (WText t))"

definition uniformStarts :: "WordTiming list \<Rightarrow> bool" where
  "uniformStarts timings \<longleftrightarrow>
     (case timings of
        t # u # ts \<Rightarrow> (\<forall>v \<in> set (u # ts). StartMS v = StartMS t)
      | _ \<Rightarrow> False)"

text \<open>The word loop of the renderer, and the closing tag with the end of the last word.\<close>

definition a2Body :: "WordTiming list \<Rightarrow> gotext" where
  "a2Body ordered = concat (map (\<lambda>t. [60] @ a2Stamp (StartMS t) @ [62] @ WText t) ordered)"

definition a2EndTag :: "WordTiming \<Rightarrow> gotext" where
  "a2EndTag w = (let stop = a2Stamp (EndMS w)
     in if EndMS w > StartMS w \<and> stop \<noteq> a2Stamp (StartMS w) then [60] @ stop @ [62] else [])"

definition a2Words :: "gotext \<Rightarrow> WordTiming list \<Rightarrow> gotext option" where
  "a2Words lineText timings =
     (if timings = [] then None
      else let ordered = sort_key StartMS timings
           in if stripSpace lineText = [] then None
              else if containsLineBreak ordered then None
              else if \<not> wordsReconstructLine lineText ordered then None
              else if uniformStarts ordered then None
              else Some (a2Body ordered @ a2EndTag (last ordered)))"

definition wordTimingsByLine :: "Song \<Rightarrow> int \<Rightarrow> WordTiming list" where
  "wordTimingsByLine song i = filter (\<lambda>t. WLine t = i) (WordTimings song)"

definition HasQualifyingWords :: "Song \<Rightarrow> bool" where
  "HasQualifyingWords song =
     (if WordTimings song = [] then False
      else \<exists>i < length (Subtitles song).
             a2Words (Text (Subtitles song ! i)) (wordTimingsByLine song (int i)) \<noteq> None)"

definition maxMarkerMinutes :: int where "maxMarkerMinutes = 35000"

record TimedWord =
  tw_StartMS :: int
  tw_Text :: gotext

definition markerMS :: "gotext \<Rightarrow> gotext \<Rightarrow> gotext \<Rightarrow> int" where
  "markerMS mins secs hunds =
     (let m = int (atoiDigits mins);
          m = (if m \<ge> 2 ^ 63 \<or> m > maxMarkerMinutes then maxMarkerMinutes else m)
      in m * 60000 + int (atoiDigits secs) * 1000 + int (atoiDigits hunds) * 10)"

text \<open>
  \<open>FindAllStringSubmatchIndex\<close>: the text before the first match, and each match (its captures)
  with the text up to the next one.
\<close>

function splitMarkers :: "gotext \<Rightarrow> gotext \<times> ((gotext \<times> gotext \<times> gotext) \<times> gotext) list" where
  "splitMarkers [] = ([], [])"
| "splitMarkers (c # cs) =
     (case matchMarker (c # cs) of
        Some (m, s, h, rest) \<Rightarrow> (let (t, segs) = splitMarkers rest in ([], ((m, s, h), t) # segs))
      | None \<Rightarrow> (let (t, segs) = splitMarkers cs in (c # t, segs)))"
  by pat_completeness auto
termination
  by (relation "measure length") (auto dest: matchMarker_length)

fun segmentWord :: "(gotext \<times> gotext \<times> gotext) \<times> gotext \<Rightarrow> TimedWord option" where
  "segmentWord ((m, s, h), t) =
     (let word = trimSpace t
      in if word = [] then None else Some \<lparr>tw_StartMS = markerMS m s h, tw_Text = word\<rparr>)"

definition parseA2Words :: "gotext \<Rightarrow> TimedWord list" where
  "parseA2Words text =
     (if 60 \<notin> set text then [] else List.map_filter segmentWord (snd (splitMarkers text)))"

text \<open>The three digit fields that a marker spells for an offset.\<close>

definition stampFields :: "int \<Rightarrow> gotext \<times> gotext \<times> gotext" where
  "stampFields ms = (let ms = max 0 ms in
     (pad2 (nat (ms div 60000)), pad2 (nat (ms div 1000 mod 60)), pad2 (nat (ms div 10 mod 100))))"

text \<open>The offset that a marker brings back: never negative, truncated, its minutes bounded.\<close>

definition spelledMS :: "int \<Rightarrow> int" where
  "spelledMS ms = (let ms = max 0 ms in ms - ms mod 10 - max 0 (ms div 60000 - maxMarkerMinutes) * 60000)"

section \<open>Lemmas\<close>

lemma takeWhile_digits: "\<forall>d \<in> set ds. isDigit d \<Longrightarrow> takeWhile isDigit (ds @ 58 # r) = ds"
  by (induction ds) (auto simp: isDigit_def)

lemma dropWhile_digits: "\<forall>d \<in> set ds. isDigit d \<Longrightarrow> dropWhile isDigit (ds @ 58 # r) = 58 # r"
  by (induction ds) (auto simp: isDigit_def)

lemma pad2_nonempty [simp]: "pad2 n \<noteq> []"
  by (simp add: pad2_def)

lemma matchMarker_stamp:
  assumes "S < 60" "H < 100"
  shows "matchMarker ([60] @ (pad2 M @ [58] @ pad2 S @ [46] @ pad2 H) @ [62] @ rest)
    = Some (pad2 M, pad2 S, pad2 H, rest)"
proof -
  have "48 + S div 10 \<le> 53" "S mod 10 \<le> 9" "H div 10 \<le> 9" "H mod 10 \<le> 9" using assms by linarith+
  with assms show ?thesis
    using pad2_digits [of M]
    by (simp add: matchMarker_def takeWhile_digits dropWhile_digits markerTail_def pad2_two [of S]
        pad2_two [of H]) (simp add: isDigit_def)
qed

lemma matchMarker_None: "c \<noteq> 60 \<Longrightarrow> matchMarker (c # cs) = None"
  by (simp add: matchMarker_def)

lemma MsToTime_clamp: "MsToTime ms = MsToTime (max 0 ms)"
  by (simp add: MsToTime_def max_def)

lemma matchMarker_a2Stamp:
  "\<exists>m s h. stampFields ms = (m, s, h) \<and> matchMarker ([60] @ a2Stamp ms @ [62] @ rest) = Some (m, s, h, rest)"
proof -
  let ?n = "max 0 ms"
  have "a2Stamp ms = pad2 (nat (?n div 60000)) @ [58] @ pad2 (nat (?n div 1000 mod 60)) @ [46]
      @ pad2 (nat (?n div 10 mod 100))"
    unfolding a2Stamp_def by (subst MsToTime_clamp) (rule Stamp_MsToTime, simp)
  moreover have "nat (?n div 1000 mod 60) < 60" "nat (?n div 10 mod 100) < 100" by (simp_all add: nat_less_iff)
  ultimately have "matchMarker ([60] @ a2Stamp ms @ [62] @ rest) = Some (pad2 (nat (?n div 60000)),
      pad2 (nat (?n div 1000 mod 60)), pad2 (nat (?n div 10 mod 100)), rest)"
    by (simp only: matchMarker_stamp)
  then show ?thesis unfolding stampFields_def Let_def by blast
qed

lemma splitMarkers_marker:
  "splitMarkers ([60] @ a2Stamp ms @ [62] @ rest) =
     ([], (stampFields ms, fst (splitMarkers rest)) # snd (splitMarkers rest))"
proof -
  obtain m s h where f: "stampFields ms = (m, s, h)"
    and "matchMarker ([60] @ a2Stamp ms @ [62] @ rest) = Some (m, s, h, rest)"
    using matchMarker_a2Stamp by blast
  then show ?thesis by (simp add: case_prod_beta)
qed

lemma splitMarkers_plain:
  "60 \<notin> set w \<Longrightarrow> splitMarkers (w @ t) = (w @ fst (splitMarkers t), snd (splitMarkers t))"
  by (induction w) (simp_all add: matchMarker_None)

lemma removeMarkers_split: "removeMarkers t = fst (splitMarkers t) @ concat (map snd (snd (splitMarkers t)))"
  by (induction t rule: splitMarkers.induct) (auto split: option.splits prod.splits)

lemma matchMarker_lt: "matchMarker t = Some x \<Longrightarrow> 60 \<in> set t"
  by (auto simp: matchMarker_def split: list.splits if_splits option.splits)

lemma splitMarkers_no_lt: "60 \<notin> set t \<Longrightarrow> splitMarkers t = (t, [])"
  using splitMarkers_plain [of t "[]"] by simp

lemma StripWordMarkers_split:
  "StripWordMarkers t = fst (splitMarkers t) @ concat (map snd (snd (splitMarkers t)))"
  by (simp add: StripWordMarkers_def removeMarkers_split splitMarkers_no_lt)

lemma parseA2Words_split: "parseA2Words t = List.map_filter segmentWord (snd (splitMarkers t))"
  by (simp add: parseA2Words_def splitMarkers_no_lt map_filter_simps)

lemma a2Body_Cons: "a2Body (w # ws) = [60] @ a2Stamp (StartMS w) @ [62] @ (WText w @ a2Body ws)"
  by (simp add: a2Body_def)

text \<open>The two shapes of what follows the body: nothing, or one closing tag.\<close>

lemma splitMarkers_endTag:
  "splitMarkers (a2EndTag w) = ([], if a2EndTag w = [] then [] else [(stampFields (EndMS w), [])])"
  using splitMarkers_marker [of "EndMS w" "[]"] by (auto simp: a2EndTag_def Let_def)

lemma splitMarkers_body:
  assumes "\<forall>w \<in> set ws. 60 \<notin> set (WText w)" and "fst (splitMarkers tail) = []"
  shows "splitMarkers (a2Body ws @ tail) =
    ([], map (\<lambda>w. (stampFields (StartMS w), WText w)) ws @ snd (splitMarkers tail))"
  using assms(1)
proof (induction ws)
  case Nil
  then show ?case using assms(2) by (cases "splitMarkers tail") (simp add: a2Body_def)
next
  case (Cons w ws)
  then have "splitMarkers (WText w @ (a2Body ws @ tail)) =
      (WText w, map (\<lambda>w. (stampFields (StartMS w), WText w)) ws @ snd (splitMarkers tail))"
    by (subst splitMarkers_plain) auto
  then show ?case
    using splitMarkers_marker [of "StartMS w" "WText w @ (a2Body ws @ tail)"] by (simp add: a2Body_Cons)
qed

lemma stampFields_ms: "case stampFields ms of (m, s, h) \<Rightarrow> markerMS m s h = spelledMS ms"
proof -
  define n where "n = max 0 ms"
  have n: "0 \<le> n" "0 \<le> n div 60000" by (simp_all add: n_def pos_imp_zdiv_nonneg_iff)
  have "case stampFields ms of (m, s, h) \<Rightarrow> markerMS m s h
      = min (n div 60000) 35000 * 60000 + n div 1000 mod 60 * 1000 + n div 10 mod 100 * 10"
    using n by (simp add: stampFields_def markerMS_def n_def [symmetric] Let_def atoiDigits_pad2 maxMarkerMinutes_def min_def) linarith
  moreover have "n div 60000 * 60000 + n div 1000 mod 60 * 1000 + n div 10 mod 100 * 10 = n - n mod 10"
    using MsToTime_recompose [OF n(1)] n(1) by (auto simp: MsToTime_fields split: prod.splits)
  moreover have "min (n div 60000) 35000 * 60000 = n div 60000 * 60000 - max 0 (n div 60000 - 35000) * 60000"
    by (auto simp: min_def max_def)
  ultimately show ?thesis
    by (auto simp: spelledMS_def n_def [symmetric] Let_def maxMarkerMinutes_def split: prod.splits)
qed

lemma segmentWord_stamp:
  "segmentWord (stampFields ms, t) =
    (if trimSpace t = [] then None else Some \<lparr>tw_StartMS = spelledMS ms, tw_Text = trimSpace t\<rparr>)"
  using stampFields_ms [of ms] by (cases "stampFields ms") (simp add: Let_def)

lemma a2Words_Some:
  assumes "a2Words line timings = Some out"
  shows "out = a2Body (sort_key StartMS timings) @ a2EndTag (last (sort_key StartMS timings))"
    and "stripSpace (concat (map WText (sort_key StartMS timings))) = stripSpace line"
    and "timings \<noteq> []" "\<not> uniformStarts (sort_key StartMS timings)" "stripSpace line \<noteq> []"
    and "\<not> containsLineBreak timings"
  using assms by (auto simp: a2Words_def wordsReconstructLine_def containsLineBreak_def Let_def split: if_splits)

lemma a2Words_split:
  assumes "a2Words line timings = Some out" and "\<forall>w \<in> set timings. 60 \<notin> set (WText w)"
  defines "ordered \<equiv> sort_key StartMS timings"
  shows "\<exists>close. splitMarkers out = ([], map (\<lambda>w. (stampFields (StartMS w), WText w)) ordered @ close)
    \<and> (\<forall>c \<in> set close. snd c = [])"
proof -
  have "\<forall>w \<in> set ordered. 60 \<notin> set (WText w)" using assms(2) by (simp add: ordered_def)
  then show ?thesis unfolding a2Words_Some(1) [OF assms(1)] ordered_def [symmetric]
    by (subst splitMarkers_body) (auto simp: splitMarkers_endTag)
qed

lemma map_filter_closing: "\<forall>c \<in> set close. snd c = [] \<Longrightarrow> List.map_filter segmentWord (xs @ close) = List.map_filter segmentWord xs"
proof -
  assume "\<forall>c \<in> set close. snd c = []"
  then have "List.map_filter segmentWord close = []"
    by (induction close) (auto simp: map_filter_simps)
  then show ?thesis by (simp add: map_filter_def)
qed

lemma map_filter_stamped:
  "List.map_filter segmentWord (map (\<lambda>w. (stampFields (StartMS w), WText w)) ws)
    = map (\<lambda>w. \<lparr>tw_StartMS = spelledMS (StartMS w), tw_Text = trimSpace (WText w)\<rparr>)
        (filter (\<lambda>w. trimSpace (WText w) \<noteq> []) ws)"
  by (induction ws) (auto simp: map_filter_simps segmentWord_stamp simp del: segmentWord.simps)

lemma concat_closing: "\<forall>c \<in> set close. snd c = [] \<Longrightarrow> concat (map snd close) = []"
  by (induction close) auto

lemma a2Stamp_one_line: "10 \<notin> set (a2Stamp ms)" "13 \<notin> set (a2Stamp ms)"
proof -
  have "a2Stamp ms = Stamp (MsToTime (max 0 ms))" unfolding a2Stamp_def by (subst MsToTime_clamp) simp
  then have "set (a2Stamp ms) \<subseteq> {d. isDigit d} \<union> {58, 46}"
    using pad2_digits by (auto simp: Stamp_MsToTime)
  then show "10 \<notin> set (a2Stamp ms)" "13 \<notin> set (a2Stamp ms)" by (auto simp: isDigit_def)
qed

lemma a2Body_one_line:
  assumes "\<not> containsLineBreak ws"
  shows "10 \<notin> set (a2Body ws @ a2EndTag w)" and "13 \<notin> set (a2Body ws @ a2EndTag w)"
  using assms a2Stamp_one_line by (auto simp: a2Body_def a2EndTag_def containsLineBreak_def Let_def)

section \<open>Properties\<close>

text \<open>
  C30: the A2 round trip. Whenever a cue is rendered with word markers and no word contains an
  opening angle bracket, parsing the rendered text gives back exactly the words of the cue in
  order of their starts, trimmed; words that are blank are dropped, and the closing end tag adds no
  word. A word comes back at its start truncated to the hundredth of a second, except that a start
  before zero comes back as zero, and that the minutes of a start beyond the parser's bound of 35000
  come back as that bound.
\<close>

theorem a2_roundtrip:
  assumes "a2Words line timings = Some out" and "\<forall>w \<in> set timings. 60 \<notin> set (WText w)"
  shows "parseA2Words out =
    map (\<lambda>w. \<lparr>tw_StartMS = (let ms = max 0 (StartMS w) in ms - ms mod 10 - max 0 (ms div 60000 - 35000) * 60000),
              tw_Text = trimSpace (WText w)\<rparr>)
      (filter (\<lambda>w. trimSpace (WText w) \<noteq> []) (sort_key StartMS timings))"
proof -
  obtain close where sp: "splitMarkers out =
      ([], map (\<lambda>w. (stampFields (StartMS w), WText w)) (sort_key StartMS timings) @ close)"
    and cl: "\<forall>c \<in> set close. snd c = []"
    using a2Words_split [OF assms] by blast
  show ?thesis
    by (simp add: parseA2Words_split sp map_filter_closing [OF cl] map_filter_stamped spelledMS_def maxMarkerMinutes_def)
qed

lemmas a2_eval = a2Words_def a2Body_def a2EndTag_def a2Stamp_def Stamp_def MsToTime_def fmt02d_def
  pad2_def quot_def stripSpace_def isSpace_def containsLineBreak_def wordsReconstructLine_def
  uniformStarts_def lit_def Let_def digitsOf.simps

theorem a2_roundtrip_witness:
  "\<exists>out. a2Words (lit ''to be'') [\<lparr>WLine = 0, WText = lit ''be'', StartMS = 61507, EndMS = 62000\<rparr>,
       \<lparr>WLine = 0, WText = lit ''to '', StartMS = 61000, EndMS = 61400\<rparr>] = Some out
     \<and> parseA2Words out = [\<lparr>tw_StartMS = 61000, tw_Text = lit ''to''\<rparr>, \<lparr>tw_StartMS = 61500, tw_Text = lit ''be''\<rparr>]"
proof -
  let ?ws = "[\<lparr>WLine = 0, WText = lit ''be'', StartMS = 61507, EndMS = 62000\<rparr>,
       \<lparr>WLine = 0, WText = lit ''to '', StartMS = 61000, EndMS = 61400\<rparr>]"
  obtain out where out: "a2Words (lit ''to be'') ?ws = Some out" by (simp add: a2_eval)
  have "parseA2Words out = [\<lparr>tw_StartMS = 61000, tw_Text = lit ''to''\<rparr>, \<lparr>tw_StartMS = 61500, tw_Text = lit ''be''\<rparr>]"
    by (subst a2_roundtrip [OF out]) (simp_all add: lit_def trimSpace_def isSpace_def)
  with out show ?thesis by blast
qed

text \<open>
  Word markers never lose or alter words. When a cue is rendered with markers and no word
  contains an opening angle bracket, stripping the markers gives back the concatenated words,
  which are the cue text up to white space, and the rendered text stays on one line.
\<close>

theorem a2_fidelity:
  assumes "a2Words line timings = Some out" and "\<forall>w \<in> set timings. 60 \<notin> set (WText w)"
  shows "StripWordMarkers out = concat (map WText (sort_key StartMS timings))
    \<and> stripSpace (StripWordMarkers out) = stripSpace line \<and> stripSpace line \<noteq> []
    \<and> 10 \<notin> set out \<and> 13 \<notin> set out"
proof -
  obtain close where sp: "splitMarkers out =
      ([], map (\<lambda>w. (stampFields (StartMS w), WText w)) (sort_key StartMS timings) @ close)"
    and cl: "\<forall>c \<in> set close. snd c = []"
    using a2Words_split [OF assms] by blast
  have strip: "StripWordMarkers out = concat (map WText (sort_key StartMS timings))"
    by (simp add: StripWordMarkers_split sp concat_closing [OF cl] comp_def)
  have "\<not> containsLineBreak (sort_key StartMS timings)"
    using a2Words_Some(6) [OF assms(1)] by (simp add: containsLineBreak_def)
  then show ?thesis
    using strip a2Words_Some [OF assms(1)] a2Body_one_line by metis
qed

theorem a2_fidelity_witness:
  "\<exists>out. a2Words (lit ''to be'') [\<lparr>WLine = 0, WText = lit ''be'', StartMS = 61507, EndMS = 62000\<rparr>,
       \<lparr>WLine = 0, WText = lit ''to '', StartMS = 61000, EndMS = 61400\<rparr>] = Some out
     \<and> StripWordMarkers out = lit ''to be''"
proof -
  let ?ws = "[\<lparr>WLine = 0, WText = lit ''be'', StartMS = 61507, EndMS = 62000\<rparr>,
       \<lparr>WLine = 0, WText = lit ''to '', StartMS = 61000, EndMS = 61400\<rparr>]"
  obtain out where out: "a2Words (lit ''to be'') ?ws = Some out" by (simp add: a2_eval)
  have "StripWordMarkers out = concat (map WText (sort_key StartMS ?ws))"
    using a2_fidelity [OF out] by (simp add: lit_def)
  with out show ?thesis by (simp add: lit_def)
qed

end
