(* ===== verification/Promotion.thy ===== *)
theory Promotion
  imports Timing
begin

text \<open>
  \<open>internal/lyrics/timing_guard.go\<close>: the accept-time guard that turns a timing verdict into what
  the writer does with a synced result (promote, demote to plain text, quarantine), the duration
  it is judged against, and the plain words kept on a demotion.
\<close>

section \<open>Definitions\<close>

datatype PromotionDecision = PromoteAsIs | DemoteToUnsynced | Quarantine

fun decisionString :: "PromotionDecision \<Rightarrow> gotext" where
  "decisionString PromoteAsIs = lit ''promote''"
| "decisionString DemoteToUnsynced = lit ''demote_to_unsynced''"
| "decisionString Quarantine = lit ''quarantine''"

definition guardDurationSeconds :: "Song \<Rightarrow> int" where
  "guardDurationSeconds song =
     (if AudioDurationSeconds song > 0 then AudioDurationSeconds song else TrackLength (STrack song))"

definition GuardDurationSeconds :: "Song \<Rightarrow> int" where
  "GuardDurationSeconds song = guardDurationSeconds song"

text \<open>The empty verdict of a song without line timing is \<open>None\<close>.\<close>

definition DecidePromotion :: "Song \<Rightarrow> PromotionDecision \<times> TimingOutcome option \<times> Magnitude" where
  "DecidePromotion song =
     (if Instrumental (STrack song) = 1 \<or> Subtitles song = [] then (PromoteAsIs, None, zeroMagnitude)
      else let (verdict, mag) = Evaluate song (guardDurationSeconds song)
           in case verdict of
                MisSynced \<Rightarrow> (DemoteToUnsynced, Some verdict, mag)
              | Degenerate \<Rightarrow> (DemoteToUnsynced, Some verdict, mag)
              | Categorical \<Rightarrow> (Quarantine, Some verdict, mag)
              | _ \<Rightarrow> (PromoteAsIs, Some verdict, mag))"

definition unsyncedFallbackBody :: "Song \<Rightarrow> gotext" where
  "unsyncedFallbackBody song =
     (if LyricsBody song \<noteq> [] then LyricsBody song
      else concat (map (\<lambda>l. let text = trimSpace (Text l)
                            in if IsDecorative text then [] else text @ [10]) (Subtitles song)))"

definition RefusedByTimingGuard :: "Song \<Rightarrow> int \<Rightarrow> bool" where
  "RefusedByTimingGuard song audioSeconds =
     (fst (DecidePromotion (song\<lparr>AudioDurationSeconds := audioSeconds\<rparr>)) = Quarantine)"

section \<open>Lemmas\<close>

text \<open>White space around a text takes no part in a marker, so trimming first changes nothing.\<close>

lemma space_not_marker: "isSpace c \<Longrightarrow> c \<noteq> 60 \<and> c \<noteq> 58 \<and> c \<noteq> 46 \<and> c \<noteq> 62 \<and> \<not> isDigit c \<and> \<not> (48 \<le> c \<and> c \<le> 53)"
  by (auto simp: isSpace_def isDigit_def)

lemma markerTail_short: "length t < 7 \<Longrightarrow> markerTail t = None"
  by (auto simp: markerTail_def split: list.splits)

lemma markerTail_append_space:
  assumes "\<forall>c \<in> set ws. isSpace c"
  shows "markerTail (y @ ws) = map_option (\<lambda>(s, h, r). (s, h, r @ ws)) (markerTail y)"
proof -
  have ws: "c \<in> set ws \<Longrightarrow> c \<noteq> 58 \<and> c \<noteq> 46 \<and> c \<noteq> 62 \<and> \<not> isDigit c \<and> \<not> (48 \<le> c \<and> c \<le> 53)" for c
    using assms space_not_marker by blast
  have short: "markerTail (y @ ws) = None" if "length y < 7"
  proof (cases "length (y @ ws) < 7")
    case True
    then show ?thesis using markerTail_short by blast
  next
    case False
    then have "(y @ ws) ! 6 \<in> set ws" using that by (simp add: nth_append)
    then have "(y @ ws) ! 6 \<noteq> 62" using ws by blast
    then show ?thesis by (auto simp: markerTail_def split: list.splits)
  qed
  show ?thesis
  proof (cases "length y < 7")
    case True
    then have "markerTail y = None" by (rule markerTail_short)
    with short True show ?thesis by simp
  next
    case False
    then obtain a b c d e f g r where "y = a # b # c # d # e # f # g # r"
      by (auto simp: not_less numeral_eq_Suc Suc_le_length_iff)
    then show ?thesis by (simp add: markerTail_def)
  qed
qed

lemma digits_append_space:
  assumes "\<forall>c \<in> set ws. isSpace c"
  shows "takeWhile isDigit (cs @ ws) = takeWhile isDigit cs" "dropWhile isDigit (cs @ ws) = dropWhile isDigit cs @ ws"
  using assms space_not_marker by (induction cs) (cases ws; auto)+

lemma matchMarker_append_space:
  assumes "\<forall>c \<in> set ws. isSpace c"
  shows "matchMarker (y @ ws) = map_option (\<lambda>(m, s, h, r). (m, s, h, r @ ws)) (matchMarker y)"
proof (cases y)
  case Nil
  then show ?thesis using assms space_not_marker by (cases ws) (auto simp: matchMarker_def)
next
  case (Cons c cs)
  then show ?thesis
    by (auto simp: matchMarker_def digits_append_space [OF assms] markerTail_append_space [OF assms]
        split: option.splits)
qed

lemma removeMarkers_spaces: "\<forall>c \<in> set ws. isSpace c \<Longrightarrow> removeMarkers ws = ws"
proof (induction ws)
  case (Cons c cs)
  then have "matchMarker (c # cs) = None" using matchMarker_append_space [of "c # cs" "[]"]
    by (simp add: matchMarker_def)
  with Cons show ?case by simp
qed simp

lemma removeMarkers_append_space:
  assumes "\<forall>c \<in> set ws. isSpace c"
  shows "removeMarkers (y @ ws) = removeMarkers y @ ws"
proof (induction y rule: removeMarkers.induct)
  case 1
  then show ?case using removeMarkers_spaces [OF assms] by simp
next
  case (2 c cs)
  show ?case
  proof (cases "matchMarker (c # cs)")
    case None
    then show ?thesis using 2(1) matchMarker_append_space [OF assms, of "c # cs"] by simp
  next
    case (Some x)
    obtain m s h r where x: "x = (m, s, h, r)" by (cases x)
    with Some have "removeMarkers (r @ ws) = removeMarkers r @ ws" using 2(2) by blast
    then show ?thesis using Some x matchMarker_append_space [OF assms, of "c # cs"] by simp
  qed
qed

lemma removeMarkers_prepend_space:
  assumes "\<forall>c \<in> set ws. isSpace c"
  shows "removeMarkers (ws @ y) = ws @ removeMarkers y"
  using assms
proof (induction ws)
  case (Cons c cs)
  then have "matchMarker (c # cs @ y) = None" using space_not_marker by (auto simp: matchMarker_def)
  with Cons show ?case by simp
qed simp

lemma trimSpace_around:
  assumes "\<forall>c \<in> set a. isSpace c" "\<forall>c \<in> set b. isSpace c"
  shows "trimSpace (a @ y @ b) = trimSpace y"
proof -
  have "dropWhile isSpace (a @ y @ b) = dropWhile isSpace (y @ b)"
    using assms(1) by (induction a) auto
  also have "rev (dropWhile isSpace (rev (dropWhile isSpace (y @ b)))) = trimSpace y"
  proof (cases "\<forall>c \<in> set y. isSpace c")
    case True
    then have "dropWhile isSpace (y @ b) = []" "dropWhile isSpace y = []"
      using assms(2) by (auto simp: dropWhile_Nil_iff simp del: dropWhile_append)
    then show ?thesis unfolding trimSpace_def by (simp only: rev.simps dropWhile.simps)
  next
    case False
    then have "dropWhile isSpace (y @ b) = dropWhile isSpace y @ b"
      by (meson dropWhile_append1)
    moreover have "dropWhile isSpace (rev b @ z) = dropWhile isSpace z" for z
      using assms(2) by (intro dropWhile_append2) simp
    ultimately show ?thesis by (simp add: trimSpace_def)
  qed
  finally show ?thesis by (simp add: trimSpace_def)
qed

lemma trimSpace_decomp:
  obtains a b where "t = a @ trimSpace t @ b" "\<forall>c \<in> set a. isSpace c" "\<forall>c \<in> set b. isSpace c"
proof -
  let ?u = "dropWhile isSpace t"
  have "t = takeWhile isSpace t @ ?u" by simp
  moreover have "?u = trimSpace t @ rev (takeWhile isSpace (rev ?u))"
    unfolding trimSpace_def by (metis rev_append rev_rev_ident takeWhile_dropWhile_id)
  ultimately have "t = takeWhile isSpace t @ trimSpace t @ rev (takeWhile isSpace (rev ?u))" by simp
  moreover have "\<forall>c \<in> set (takeWhile isSpace t). isSpace c" by (auto dest: set_takeWhileD)
  moreover have "\<forall>c \<in> set (rev (takeWhile isSpace (rev ?u))). isSpace c" by (auto dest: set_takeWhileD)
  ultimately show ?thesis using that by blast
qed

lemma StripWordMarkers_removeMarkers: "StripWordMarkers t = removeMarkers t"
proof -
  have "60 \<notin> set t \<Longrightarrow> removeMarkers t = t"
    by (induction t) (auto simp: matchMarker_def)
  then show ?thesis by (auto simp: StripWordMarkers_def)
qed

lemma strip_trim: "trimSpace (StripWordMarkers (trimSpace t)) = trimSpace (StripWordMarkers t)"
proof -
  obtain a b where t: "t = a @ trimSpace t @ b" and "\<forall>c \<in> set a. isSpace c" "\<forall>c \<in> set b. isSpace c"
    by (rule trimSpace_decomp)
  then have "removeMarkers (a @ y @ b) = a @ removeMarkers y @ b"
      and "trimSpace (a @ removeMarkers y @ b) = trimSpace (removeMarkers y)" for y
    by (simp_all add: removeMarkers_prepend_space removeMarkers_append_space trimSpace_around)
  then have "trimSpace (removeMarkers (a @ trimSpace t @ b)) = trimSpace (removeMarkers (trimSpace t))" by (simp only:)
  then show ?thesis unfolding StripWordMarkers_removeMarkers by (simp only: t [symmetric])
qed

lemma IsDecorative_trim: "IsDecorative (trimSpace t) = isDecorative t"
  by (simp add: IsDecorative_def isDecorative_def strip_trim)

lemma fallback_Nil_iff:
  "unsyncedFallbackBody song = [] \<longleftrightarrow>
     LyricsBody song = [] \<and> (\<forall>l \<in> set (Subtitles song). isDecorative (Text l))"
  by (auto simp: unsyncedFallbackBody_def IsDecorative_trim Let_def split: if_splits)

lemma timed_cue: "q \<in> set (timed ls) \<Longrightarrow> \<exists>l \<in> set ls. \<not> isDecorative (Text l) \<and> seconds (LTime l) = Fin q"
  by (induction ls) (auto simp: cueSeconds_Some split: option.splits)

lemma timed_nonempty_of_verdict:
  "fst (Evaluate song d) \<in> {MisSynced, Categorical, Degenerate} \<Longrightarrow> 0 < d \<and> timed (Subtitles song) \<noteq> []"
  by (auto simp: Evaluate_def isDegenerate_iff correctedMaxSeconds_eq Let_def split: if_splits)

lemma demote_verdict:
  "fst (DecidePromotion song) = DemoteToUnsynced \<Longrightarrow>
     fst (Evaluate song (guardDurationSeconds song)) \<in> {MisSynced, Degenerate}"
  by (auto simp: DecidePromotion_def case_prod_beta split: if_splits TimingOutcome.splits)

lemma quarantine_verdict:
  "fst (DecidePromotion song) = Quarantine \<Longrightarrow>
     Instrumental (STrack song) \<noteq> 1 \<and> fst (Evaluate song (guardDurationSeconds song)) = Categorical"
  by (auto simp: DecidePromotion_def case_prod_beta split: if_splits TimingOutcome.splits)

lemma categorical_evidence:
  assumes c: "fst (Evaluate song d) = Categorical" and d: "d < 2 ^ 53"
  shows "0 < d \<and> (\<exists>l \<in> set (Subtitles song). \<exists>q. \<not> isDecorative (Text l) \<and> seconds (LTime l) = Fin q
    \<and> q > of_int d + 2 \<and> q > (3 / 2 - 1 / 2 ^ 52) * of_int d)"
proof -
  have pos: "0 < d" and ne: "timed (Subtitles song) \<noteq> []" using timed_nonempty_of_verdict c by auto
  have nd: "\<not> isDegenerate (Subtitles song)" using c by (auto simp: Evaluate_def split: if_splits)
  define q where "q = Max (set (timed (Subtitles song)))"
  have "q \<in> set (timed (Subtitles song))" using ne by (simp add: q_def)
  then obtain l where l: "l \<in> set (Subtitles song)" "\<not> isDecorative (Text l)" "seconds (LTime l) = Fin q"
    using timed_cue by blast
  note ev = Evaluate_measured [OF pos d nd ne q_def]
  have "q > of_int d + 2"
    using toFloat_le [OF _ _ nearest_two, of "q - of_int d"] c ev by (auto simp: not_le [symmetric])
  moreover have "q > (3 / 2 - 1 / 2 ^ 52) * of_int d"
    using ratio_below [OF pos, of q] c ev by (auto simp: not_le [symmetric] split: if_splits)
  ultimately show ?thesis using l pos by blast
qed

section \<open>Properties\<close>

text \<open>
  C31: a quarantine is always backed by evidence. When the guard refuses a song, the song is not
  an instrumental, the duration it is judged by is known, and some text-bearing cue lies more
  than two seconds past the end of the audio and beyond 1.5 times its length (up to one unit in
  the last place of the quotient). In particular nothing is refused when neither duration is
  known.
\<close>

theorem refusal_has_evidence:
  assumes "RefusedByTimingGuard song secs"
    and "d = guardDurationSeconds (song\<lparr>AudioDurationSeconds := secs\<rparr>)" and "d < 2 ^ 53"
  shows "Instrumental (STrack song) \<noteq> 1 \<and> 0 < d \<and>
    (\<exists>l \<in> set (Subtitles song). \<exists>q. \<not> isDecorative (Text l) \<and> seconds (LTime l) = Fin q
       \<and> q > of_int d + 2 \<and> q > (3 / 2 - 1 / 2 ^ 52) * of_int d)"
proof -
  let ?s = "song\<lparr>AudioDurationSeconds := secs\<rparr>"
  have "Instrumental (STrack ?s) \<noteq> 1 \<and> fst (Evaluate ?s d) = Categorical"
    using quarantine_verdict [of ?s] assms by (simp add: RefusedByTimingGuard_def)
  then show ?thesis using categorical_evidence [of ?s d] assms(3) by simp
qed

theorem refusal_has_evidence_witness:
  "RefusedByTimingGuard (zeroSong\<lparr>Subtitles := [cueAt ''a'' 10, cueAt ''b'' 100]\<rparr>) 60
   \<and> (\<exists>l \<in> set [cueAt ''a'' 10, cueAt ''b'' 100]. \<exists>q. seconds (LTime l) = Fin q \<and> q > 62)"
proof -
  let ?s = "zeroSong\<lparr>Subtitles := [cueAt ''a'' 10, cueAt ''b'' 100]\<rparr>"
  let ?t = "?s\<lparr>AudioDurationSeconds := 60\<rparr>"
  have t: "timed (Subtitles ?t) = [10, 100]" by (simp add: cue_witness)
  have "fst (Evaluate ?t 60) = Categorical"
    using Evaluate_measured [of 60 ?t 100] t overrun_beyond [of 60 100] ratio_at_least [of 60 100]
    by (simp add: isDegenerate_iff doubleton_eq_iff)
  then have r: "RefusedByTimingGuard ?s 60"
    by (simp add: RefusedByTimingGuard_def DecidePromotion_def guardDurationSeconds_def case_prod_beta
        zeroSong_def zeroTrack_def)
  then show ?thesis
    using refusal_has_evidence [OF r, of 60] by (auto simp: guardDurationSeconds_def)
qed

text \<open>
  A demotion never loses the lyric. Whenever the guard demotes a synced result to plain
  text, the text it keeps is not empty: either the provider's own unsynced body, or at least one
  cue that the verdict counted as text.
\<close>

theorem demotion_keeps_words:
  assumes "fst (DecidePromotion song) = DemoteToUnsynced"
  shows "unsyncedFallbackBody song \<noteq> []"
proof -
  have "timed (Subtitles song) \<noteq> []" using demote_verdict [OF assms] timed_nonempty_of_verdict by blast
  then obtain q where "q \<in> set (timed (Subtitles song))" by (meson list.set_sel(1))
  then show ?thesis using timed_cue fallback_Nil_iff by blast
qed

theorem demotion_keeps_words_witness:
  "unsyncedFallbackBody (zeroSong\<lparr>Subtitles := [cueAt ''a'' 0, cueAt ''b'' 0], AudioDurationSeconds := 60\<rparr>) \<noteq> []"
proof (rule demotion_keeps_words)
  let ?s = "zeroSong\<lparr>Subtitles := [cueAt ''a'' 0, cueAt ''b'' 0], AudioDurationSeconds := 60\<rparr>"
  have "timed (Subtitles ?s) = [0, 0]" by (simp add: cue_witness fofInt_def toFloat_def nearest_def int64_def)
  then have "fst (Evaluate ?s 60) = Degenerate" by (simp add: Evaluate_def isDegenerate_iff)
  then show "fst (DecidePromotion ?s) = DemoteToUnsynced"
    by (simp add: DecidePromotion_def guardDurationSeconds_def case_prod_beta zeroSong_def zeroTrack_def)
qed

end
