(* ===== verification/Normalize.thy ===== *)
theory Normalize
  imports Models
begin

text \<open>
  Package \<open>internal/normalize\<close>: the duration bucket of the cache key and the Jaro-Winkler
  similarity that decides whether an answer corresponds to what was asked. The Unicode
  normalisation behind \<open>NormalizeKey\<close> is golang.org/x/text, code outside the repository: it is
  the parameter \<open>nkey\<close> of the definitions that use it. \<open>None\<close> stands for an index out of range.
\<close>

section \<open>Definitions\<close>

definition DurationBucket :: "int \<Rightarrow> int" where
  "DurationBucket secs = (if secs \<le> 0 then 0 else quot secs 5)"

text \<open>One row of the matching loop: the first unmatched position in the window with the rune.\<close>

definition jaroFind :: "gotext \<Rightarrow> gotext \<Rightarrow> nat \<Rightarrow> bool list \<Rightarrow> nat \<Rightarrow> nat option" where
  "jaroFind r1 r2 matchDist m2 i =
     List.find (\<lambda>j. \<not> m2 ! j \<and> r1 ! i = r2 ! j)
       [i - matchDist ..< min (length r2 - 1) (i + matchDist) + 1]"

fun jaroMatches :: "gotext \<Rightarrow> gotext \<Rightarrow> nat \<Rightarrow> nat list \<Rightarrow> bool list \<times> bool list \<times> nat
    \<Rightarrow> bool list \<times> bool list \<times> nat" where
  "jaroMatches r1 r2 d [] st = st"
| "jaroMatches r1 r2 d (i # is) (m1, m2, n) =
     (case jaroFind r1 r2 d m2 i of
        None \<Rightarrow> jaroMatches r1 r2 d is (m1, m2, n)
      | Some j \<Rightarrow> jaroMatches r1 r2 d is (m1[i := True], m2[j := True], n + 1))"

text \<open>The inner loop of the transposition count, which advances to the next matched position.\<close>

function skipUnmatched :: "bool list \<Rightarrow> nat \<Rightarrow> nat option" where
  "skipUnmatched m2 k = (if k \<ge> length m2 then None else if m2 ! k then Some k else skipUnmatched m2 (k + 1))"
  by pat_completeness auto
termination by (relation "measure (\<lambda>(m2, k). length m2 - k)") auto

declare skipUnmatched.simps [simp del]

fun jaroTranspositions :: "gotext \<Rightarrow> gotext \<Rightarrow> bool list \<Rightarrow> bool list \<Rightarrow> nat list \<Rightarrow> nat \<Rightarrow> nat \<Rightarrow> nat option" where
  "jaroTranspositions r1 r2 m1 m2 [] k t = Some t"
| "jaroTranspositions r1 r2 m1 m2 (i # is) k t =
     (if \<not> m1 ! i then jaroTranspositions r1 r2 m1 m2 is k t
      else case skipUnmatched m2 k of
             None \<Rightarrow> None
           | Some k' \<Rightarrow> jaroTranspositions r1 r2 m1 m2 is (k' + 1) (if r1 ! i \<noteq> r2 ! k' then t + 1 else t))"

definition commonPrefix4 :: "gotext \<Rightarrow> gotext \<Rightarrow> nat" where
  "commonPrefix4 r1 r2 = length (takeWhile (\<lambda>(a, b). a = b) (take 4 (zip r1 r2)))"

definition jaroScore :: "nat \<Rightarrow> nat \<Rightarrow> nat \<Rightarrow> nat \<Rightarrow> float64" where
  "jaroScore matches l1 l2 transpositions =
     (let fm = fofInt (int matches)
      in fdiv (fadd (fadd (fdiv fm (fofInt (int l1))) (fdiv fm (fofInt (int l2))))
                    (fdiv (fsub fm (fdiv (fofInt (int transpositions)) (Fin 2))) fm))
              (Fin 3))"

definition jaroWinkler :: "gotext \<Rightarrow> gotext \<Rightarrow> float64 option" where
  "jaroWinkler s1 s2 =
     (if s1 = s2 then Some (Fin 1)
      else if s1 = [] \<or> s2 = [] then Some (Fin 0)
      else let l1 = length s1; l2 = length s2; matchDist = max l1 l2 div 2 - 1;
               (m1, m2, matches) = jaroMatches s1 s2 matchDist [0 ..< l1]
                                     (replicate l1 False, replicate l2 False, 0)
           in if matches = 0 then Some (Fin 0)
              else case jaroTranspositions s1 s2 m1 m2 [0 ..< l1] 0 0 of
                     None \<Rightarrow> None
                   | Some transpositions \<Rightarrow>
                       (let jaro = jaroScore matches l1 l2 transpositions
                        in Some (fadd jaro (fmul (fmul (fofInt (int (commonPrefix4 s1 s2))) (toFloat (1 / 10)))
                                                 (fsub (Fin 1) jaro)))))"

definition MatchConfidence :: "(gotext \<Rightarrow> gotext) \<Rightarrow> gotext \<Rightarrow> gotext \<Rightarrow> float64 option" where
  "MatchConfidence nkey a b = jaroWinkler (nkey a) (nkey b)"

section \<open>Lemmas\<close>

definition trues :: "bool list \<Rightarrow> nat" where
  "trues m = length (filter id m)"

lemma trues_simps [simp]: "trues [] = 0" "trues (b # m) = (if b then 1 else 0) + trues m"
  by (simp_all add: trues_def)

lemma trues_replicate [simp]: "trues (replicate n False) = 0"
  by (simp add: trues_def)

lemma trues_update: "i < length m \<Longrightarrow> \<not> m ! i \<Longrightarrow> trues (m[i := True]) = trues m + 1"
proof (induction m arbitrary: i)
  case (Cons b m)
  then show ?case by (cases i) auto
qed simp

lemma trues_drop: "k < length m \<Longrightarrow> trues (drop k m) = (if m ! k then 1 else 0) + trues (drop (k + 1) m)"
proof -
  assume "k < length m"
  then have "drop k m = m ! k # drop (k + 1) m" by (simp add: Cons_nth_drop_Suc)
  then show ?thesis by (simp only: trues_simps)
qed

lemma find_SomeD: "List.find P xs = Some x \<Longrightarrow> x \<in> set xs \<and> P x"
  by (induction xs) (auto split: if_splits)

lemma jaroFind_Some:
  assumes "jaroFind r1 r2 d m2 i = Some j" "r2 \<noteq> []"
  shows "j < length r2 \<and> \<not> m2 ! j \<and> r1 ! i = r2 ! j \<and> i \<le> j + d \<and> j \<le> i + d"
proof -
  have "j \<in> set [i - d ..< min (length r2 - 1) (i + d) + 1]" "\<not> m2 ! j \<and> r1 ! i = r2 ! j"
    using find_SomeD [OF assms(1) [unfolded jaroFind_def]] by blast+
  then show ?thesis using assms(2) by (auto simp: min_def split: if_splits)
qed

text \<open>Every matched position of one side pairs with one of the other.\<close>

lemma jaroMatches_balanced:
  assumes "jaroMatches r1 r2 d is (m1, m2, n) = (m1', m2', n')" "r2 \<noteq> []" "distinct is"
    "\<forall>i \<in> set is. i < length m1 \<and> \<not> m1 ! i" "length m2 = length r2" "trues m1 = n" "trues m2 = n"
  shows "trues m1' = n' \<and> trues m2' = n' \<and> length m1' = length m1 \<and> length m2' = length r2"
  using assms
proof (induction "is" arbitrary: m1 m2 n)
  case (Cons i "is")
  show ?case
  proof (cases "jaroFind r1 r2 d m2 i")
    case None
    with Cons show ?thesis by auto
  next
    case (Some j)
    have j: "j < length r2" "\<not> m2 ! j" using jaroFind_Some [OF Some Cons.prems(2)] by auto
    have "trues (m1[i := True]) = n + 1" "trues (m2[j := True]) = n + 1"
      using Cons.prems j by (auto simp: trues_update)
    moreover have "\<forall>i' \<in> set is. i' < length (m1[i := True]) \<and> \<not> m1[i := True] ! i'"
      using Cons.prems(3,4) by (auto simp: nth_list_update)
    ultimately show ?thesis
      using Cons.IH [of "m1[i := True]" "m2[j := True]" "n + 1"] Cons.prems Some by auto
  qed
qed auto

lemma skipUnmatched_found:
  "0 < trues (drop k m) \<Longrightarrow>
     \<exists>k'. skipUnmatched m k = Some k' \<and> k \<le> k' \<and> k' < length m \<and> trues (drop (k' + 1) m) + 1 = trues (drop k m)"
proof (induction m k rule: skipUnmatched.induct)
  case (1 m k)
  then have k: "k < length m" by (cases "k < length m") auto
  show ?case
  proof (cases "m ! k")
    case True
    then show ?thesis using k trues_drop [OF k] by (subst skipUnmatched.simps) auto
  next
    case False
    then have "0 < trues (drop (k + 1) m)" using "1.prems" trues_drop [OF k] by simp
    then show ?thesis using "1.IH" k False trues_drop [OF k] by (subst skipUnmatched.simps) fastforce
  qed
qed

lemma jaroTranspositions_total:
  assumes "i \<le> length m1" "trues (drop i m1) \<le> trues (drop k m2)"
  shows "\<exists>t'. jaroTranspositions r1 r2 m1 m2 [i ..< length m1] k t = Some t'"
  using assms
proof (induction "length m1 - i" arbitrary: i k t)
  case (Suc n)
  then have i: "i < length m1" and up: "[i ..< length m1] = i # [i + 1 ..< length m1]"
    by (simp_all add: upt_conv_Cons)
  have "\<exists>t'. jaroTranspositions r1 r2 m1 m2 [i + 1 ..< length m1] k' t = Some t'"
    if "trues (drop (i + 1) m1) \<le> trues (drop k' m2)" for k' t
    using Suc(1) [of "i + 1" k' t] Suc(2) i that by simp
  moreover have "m1 ! i \<Longrightarrow> 0 < trues (drop k m2)" using Suc(4) trues_drop [OF i] by simp
  ultimately show ?case
    unfolding up using Suc(4) trues_drop [OF i] skipUnmatched_found [of k m2] by fastforce
qed simp

text \<open>The similarity is total: no index of the two loops leaves its array.\<close>

lemma jaroWinkler_total: "\<exists>c. jaroWinkler s1 s2 = Some c"
proof (cases "s1 = s2 \<or> s1 = [] \<or> s2 = []")
  case True
  then show ?thesis by (auto simp: jaroWinkler_def)
next
  case False
  obtain m1 m2 n where m: "jaroMatches s1 s2 (max (length s1) (length s2) div 2 - 1) [0 ..< length s1]
      (replicate (length s1) False, replicate (length s2) False, 0) = (m1, m2, n)"
    by (cases "jaroMatches s1 s2 (max (length s1) (length s2) div 2 - 1) [0 ..< length s1]
      (replicate (length s1) False, replicate (length s2) False, 0)")
  have "trues m1 = n \<and> trues m2 = n \<and> length m1 = length s1"
    using jaroMatches_balanced [OF m] False by simp
  then have "\<exists>t. jaroTranspositions s1 s2 m1 m2 [0 ..< length s1] 0 0 = Some t"
    using jaroTranspositions_total [of 0 m1 0 m2 s1 s2 0] by simp
  then show ?thesis using False m by (auto simp: jaroWinkler_def Let_def)
qed

end
