(* ===== verification/RespDrift.thy ===== *)
theory RespDrift
  imports Normalize
begin

text \<open>
  Package \<open>internal/respdrift\<close>: the detector of a provider that answers many distinct queries
  with one unrelated identity. \<open>None\<close> as the result of an observation stands for a panic (a
  write to a map that was never made, or an index out of range in the similarity); it is shown
  never to happen on a detector made by \<open>New\<close>. The Unicode normalisation is the parameter
  \<open>nkey\<close>.
\<close>

section \<open>Definitions\<close>

definition minThreshold :: int where "minThreshold = 2"
definition relatedFloor :: float64 where "relatedFloor = Fin (3 / 4)"

text \<open>The map \<open>seen\<close> is \<open>None\<close> while nil, and otherwise the list of its keys.\<close>

record Detector =
  threshold :: int
  lastIdentity :: gotext
  lastQuery :: gotext
  drun :: int
  seen :: "gotext list option"
  fired :: bool

definition newDetector :: "int \<Rightarrow> Detector" where
  "newDetector n = \<lparr>threshold = (if n < minThreshold then minThreshold else n), lastIdentity = [],
     lastQuery = [], drun = 0, seen = None, fired = False\<rparr>"

definition resetRun :: "gotext \<Rightarrow> gotext \<Rightarrow> int \<Rightarrow> Detector \<Rightarrow> Detector" where
  "resetRun identity query n d = d\<lparr>lastIdentity := identity, lastQuery := query, drun := n,
     fired := False, seen := Some (if n > 0 then [query] else [])\<rparr>"

definition isDup :: "gotext \<Rightarrow> Detector \<Rightarrow> bool" where
  "isDup query d = (case seen d of None \<Rightarrow> False | Some ks \<Rightarrow> query \<in> set ks)"

definition Observe :: "(gotext \<Rightarrow> gotext) \<Rightarrow> gotext \<Rightarrow> gotext \<Rightarrow> Detector \<Rightarrow> ((bool \<times> int) \<times> Detector) option" where
  "Observe nkey query identity d =
     (if identity = [] then Some ((False, drun d), d)
      else case MatchConfidence nkey query identity of
        None \<Rightarrow> None
      | Some c \<Rightarrow>
         (if fle relatedFloor c then Some ((False, 0), resetRun identity query 0 d)
          else if identity \<noteq> lastIdentity d then Some ((False, 1), resetRun identity query 1 d)
          else if isDup query d then Some ((False, drun d), d)
          else if fired d then Some ((False, drun d), d)
          else case seen d of
                 None \<Rightarrow> None
               | Some ks \<Rightarrow>
                   (let d' = d\<lparr>lastQuery := query, seen := Some (query # ks), drun := drun d + 1\<rparr>
                    in if drun d' \<ge> threshold d then Some ((True, drun d'), d'\<lparr>fired := True\<rparr>)
                       else Some ((False, drun d'), d'))))"

text \<open>A history of observations, with the verdict of each.\<close>

fun observeAll :: "(gotext \<Rightarrow> gotext) \<Rightarrow> (gotext \<times> gotext) list \<Rightarrow> Detector \<Rightarrow> ((bool \<times> int) list \<times> Detector) option" where
  "observeAll nkey [] d = Some ([], d)"
| "observeAll nkey ((q, i) # obs) d =
     (case Observe nkey q i d of None \<Rightarrow> None
      | Some (v, d') \<Rightarrow> (case observeAll nkey obs d' of None \<Rightarrow> None
                       | Some (vs, d'') \<Rightarrow> Some (v # vs, d'')))"

definition unrelated :: "(gotext \<Rightarrow> gotext) \<Rightarrow> gotext \<Rightarrow> gotext \<Rightarrow> bool" where
  "unrelated nkey q i = (case MatchConfidence nkey q i of None \<Rightarrow> False | Some c \<Rightarrow> \<not> fle relatedFloor c)"

text \<open>
  The evidence behind the state: every counted query was asked (it is in the history), was
  answered with the current identity, and is unrelated to it; the run is their number.
\<close>

definition evidence :: "(gotext \<Rightarrow> gotext) \<Rightarrow> (gotext \<times> gotext) list \<Rightarrow> Detector \<Rightarrow> bool" where
  "evidence nkey hist d \<longleftrightarrow> 2 \<le> threshold d \<and>
     (case seen d of
        None \<Rightarrow> lastIdentity d = [] \<and> drun d = 0 \<and> \<not> fired d
      | Some ks \<Rightarrow> lastIdentity d \<noteq> [] \<and> distinct ks \<and> drun d = int (length ks)
          \<and> (\<forall>q \<in> set ks. (q, lastIdentity d) \<in> set hist \<and> unrelated nkey q (lastIdentity d))
          \<and> (if fired d then drun d = threshold d else drun d < threshold d))"

section \<open>Lemmas\<close>

lemma MatchConfidence_total: "\<exists>c. MatchConfidence nkey a b = Some c"
  by (simp add: MatchConfidence_def jaroWinkler_total)

lemma resetRun_simps [simp]:
  "threshold (resetRun i q n d) = threshold d" "lastIdentity (resetRun i q n d) = i"
  "drun (resetRun i q n d) = n" "fired (resetRun i q n d) = False"
  "seen (resetRun i q n d) = Some (if n > 0 then [q] else [])"
  by (simp_all add: resetRun_def)

lemma evidence_new: "evidence nkey hist (newDetector n)"
  by (simp add: evidence_def newDetector_def minThreshold_def)

lemma evidence_seen: "evidence nkey hist d \<Longrightarrow> lastIdentity d \<noteq> [] \<Longrightarrow> \<exists>ks. seen d = Some ks"
  by (cases "seen d") (auto simp: evidence_def)

lemma evidence_mono: "evidence nkey hist d \<Longrightarrow> evidence nkey (hist @ later) d"
  by (auto simp: evidence_def split: option.splits)

lemma Observe_total:
  assumes "evidence nkey hist d"
  shows "Observe nkey q i d \<noteq> None"
proof (cases "i = [] \<or> i \<noteq> lastIdentity d")
  case True
  then show ?thesis using MatchConfidence_total [of nkey q i] by (auto simp: Observe_def)
next
  case False
  then obtain ks c where "seen d = Some ks" "MatchConfidence nkey q i = Some c"
    using evidence_seen [OF assms] MatchConfidence_total [of nkey q i] by blast
  moreover have "\<exists>a::bool. a" "\<exists>a::bool. \<not> a" by (rule exI [of _ True], simp) (rule exI [of _ False], simp)
  ultimately show ?thesis unfolding Observe_def Let_def by (simp split: if_split)
qed

lemma evidence_reset_related: "evidence nkey hist d \<Longrightarrow> i \<noteq> [] \<Longrightarrow> evidence nkey (hist @ [(q, i)]) (resetRun i q 0 d)"
  by (simp add: evidence_def)

lemma evidence_reset_unrelated:
  "evidence nkey hist d \<Longrightarrow> i \<noteq> [] \<Longrightarrow> unrelated nkey q i \<Longrightarrow> evidence nkey (hist @ [(q, i)]) (resetRun i q 1 d)"
  by (simp add: evidence_def)

lemma Observe_step:
  assumes ev: "evidence nkey hist d" and ob: "Observe nkey q i d = Some ((f, n), d')"
  shows "evidence nkey (hist @ [(q, i)]) d' \<and> threshold d' = threshold d \<and> n = drun d'
    \<and> (f \<longrightarrow> \<not> fired d \<and> fired d' \<and> i = lastIdentity d \<and> lastIdentity d' = i)
    \<and> (fired d \<and> \<not> f \<and> \<not> fired d' \<longrightarrow> i \<noteq> [] \<and> (i \<noteq> lastIdentity d \<or> \<not> unrelated nkey q i))"
proof (cases "i = []")
  case True
  then show ?thesis using ev ob by (auto simp: Observe_def evidence_mono)
next
  case False
  obtain c where c: "MatchConfidence nkey q i = Some c" using MatchConfidence_total by blast
  consider (related) "fle relatedFloor c" | (fresh) "\<not> fle relatedFloor c" "i \<noteq> lastIdentity d"
    | (frozen) "\<not> fle relatedFloor c" "i = lastIdentity d" "isDup q d \<or> fired d"
    | (count) "\<not> fle relatedFloor c" "i = lastIdentity d" "\<not> isDup q d" "\<not> fired d" by blast
  then show ?thesis
  proof cases
    case related
    then have "d' = resetRun i q 0 d \<and> f = False \<and> n = 0" using ob False c by (simp add: Observe_def)
    then show ?thesis using evidence_reset_related [OF ev False] False related c by (auto simp: unrelated_def)
  next
    case fresh
    then have "d' = resetRun i q 1 d \<and> f = False \<and> n = 1" using ob False c by (simp add: Observe_def)
    moreover have "unrelated nkey q i" using fresh c by (simp add: unrelated_def)
    ultimately show ?thesis using evidence_reset_unrelated [OF ev False] False fresh by auto
  next
    case frozen
    then have "d' = d \<and> f = False \<and> n = drun d" using ob False c by (auto simp: Observe_def split: if_splits)
    then show ?thesis using evidence_mono [OF ev] by auto
  next
    case count
    obtain ks where ks: "seen d = Some ks" using evidence_seen [OF ev] count False by blast
    have "unrelated nkey q i" using count c by (simp add: unrelated_def)
    then show ?thesis using ob False c count ks ev
      by (auto simp: Observe_def Let_def evidence_def isDup_def split: if_splits)
  qed
qed

lemma observeAll_total:
  "evidence nkey hist d \<Longrightarrow> \<exists>vs d'. observeAll nkey obs d = Some (vs, d') \<and> evidence nkey (hist @ obs) d'"
proof (induction obs arbitrary: hist d)
  case (Cons o1 obs)
  obtain q i where o1: "o1 = (q, i)" by (cases o1)
  obtain f n d1 where ob: "Observe nkey q i d = Some ((f, n), d1)"
    using Observe_total [OF Cons.prems] by (metis not_None_eq surj_pair)
  then have "evidence nkey (hist @ [(q, i)]) d1" using Observe_step [OF Cons.prems ob] by blast
  from Cons.IH [OF this] show ?case using ob o1 by auto
qed auto

lemma observeAll_append:
  "observeAll nkey (xs @ ys) d = (case observeAll nkey xs d of None \<Rightarrow> None
     | Some (vs, d') \<Rightarrow> (case observeAll nkey ys d' of None \<Rightarrow> None | Some (ws, d'') \<Rightarrow> Some (vs @ ws, d'')))"
  by (induction xs arbitrary: d) (auto split: option.splits prod.splits)

lemma observeAll_threshold:
  "observeAll nkey obs d = Some (vs, d') \<Longrightarrow> evidence nkey hist d \<Longrightarrow> threshold d' = threshold d"
proof (induction obs arbitrary: d vs hist)
  case (Cons o1 obs)
  obtain q i where o1: "o1 = (q, i)" by (cases o1)
  obtain v n d1 ws where ob: "Observe nkey q i d = Some ((v, n), d1)" and rest: "observeAll nkey obs d1 = Some (ws, d')"
    using Cons.prems(1) o1 by (auto split: option.splits)
  from Observe_step [OF Cons.prems(2) ob] Cons.IH [OF rest] show ?case by auto
qed simp

section \<open>Properties\<close>

text \<open>
  A drift report is sound. After any history of observations on a new detector, no
  observation panics, and one that fires has seen exactly the threshold of distinct queries,
  each of them asked in that history, answered with the reported identity and unrelated to
  it.
\<close>

theorem drift_report_sound:
  "\<exists>vs d v m d'. observeAll nkey hist (newDetector n) = Some (vs, d) \<and> Observe nkey q i d = Some ((v, m), d')
     \<and> (v \<longrightarrow> m = max 2 n \<and> (\<exists>ks. seen d' = Some ks \<and> distinct ks \<and> int (length ks) = max 2 n
          \<and> (\<forall>k \<in> set ks. (k, i) \<in> set (hist @ [(q, i)]) \<and> unrelated nkey k i)))"
proof -
  obtain vs d where o1: "observeAll nkey hist (newDetector n) = Some (vs, d)" and ev: "evidence nkey hist d"
    using observeAll_total [OF evidence_new, where hist = "[]"] by (metis append_Nil)
  obtain v m d' where o2: "Observe nkey q i d = Some ((v, m), d')"
    using Observe_total [OF ev] by (metis not_None_eq surj_pair)
  note st = Observe_step [OF ev o2]
  have "threshold d' = max 2 n"
    using observeAll_threshold [OF o1 evidence_new] st by (auto simp: newDetector_def minThreshold_def)
  then have "v \<longrightarrow> m = max 2 n \<and> (\<exists>ks. seen d' = Some ks \<and> distinct ks \<and> int (length ks) = max 2 n
      \<and> (\<forall>k \<in> set ks. (k, i) \<in> set (hist @ [(q, i)]) \<and> unrelated nkey k i))"
    using st by (auto simp: evidence_def split: option.splits if_splits)
  then show ?thesis using o1 o2 by blast
qed

theorem drift_report_sound_witness:
  "\<exists>vs d m d'. observeAll id [(lit ''b'', lit ''x'')] (newDetector 2) = Some (vs, d)
     \<and> Observe id (lit ''c'') (lit ''x'') d = Some ((True, m), d') \<and> m = 2
     \<and> (\<forall>k \<in> set (the (seen d')). (k, lit ''x'') \<in> {(lit ''b'', lit ''x''), (lit ''c'', lit ''x'')})"
proof -
  obtain vs d v m d' where o1: "observeAll id [(lit ''b'', lit ''x'')] (newDetector 2) = Some (vs, d)"
    and o2: "Observe id (lit ''c'') (lit ''x'') d = Some ((v, m), d')"
    and s: "v \<longrightarrow> m = 2 \<and> (\<exists>ks. seen d' = Some ks \<and> distinct ks \<and> int (length ks) = 2
      \<and> (\<forall>k \<in> set ks. (k, lit ''x'') \<in> set ([(lit ''b'', lit ''x'')] @ [(lit ''c'', lit ''x'')]) \<and> unrelated id k (lit ''x'')))"
    using drift_report_sound [of id "[(lit ''b'', lit ''x'')]" 2 "lit ''c''" "lit ''x''"] by auto
  have "v" using o1 o2
    by (simp add: Observe_def MatchConfidence_def jaroWinkler_def jaroFind_def lit_def relatedFloor_def fle_def
        newDetector_def minThreshold_def resetRun_def isDup_def Let_def)
      (auto simp: isDup_def Let_def)
  with o1 o2 s show ?thesis by auto
qed

end
