(* ===== verification/Outcome.thy ===== *)
theory Outcome
  imports Canticle_Prelude
begin

text \<open>
  Errors as values. \<open>sentinel\<close> lists the package-level error variables that the orchestrator
  tests for (\<open>internal/orchestrator/errors.go\<close> and the error blocks of the musixmatch,
  petitlyrics, innertube and detector packages, those of the lyrics writer and of the worker, the
  two context errors and \<open>sql.ErrNoRows\<close>); \<open>goerr\<close> is an
  error value built from them by the wrapping forms the program uses, \<open>errorsIs\<close> is
  \<open>errors.Is\<close> over its tree and \<open>errText\<close> its \<open>Error()\<close> text. On top of them the
  cross-lane classification: \<open>ClassifyOutcome\<close> and its precedence.
\<close>

section \<open>Definitions\<close>

datatype sentinel =
  ErrLaneUnavailable | ErrNoProviderAsked | ErrLaneBenignMiss | ErrLaneOutage | ErrLaneNotReady
| ErrTimingRefusedUntried | ErrAllResultsBlocked
| MxmUnauthorized | MxmRateLimited | MxmForbidden | MxmNotFound | MxmNoLyrics
| MxmTruncatedResponse | MxmUnparsableSubtitleBody | MxmMatchMismatch | MxmUnmatchable
| MxmMatcherClientError | MxmTokenRenewalRequired
| PetitUnauthorized | PetitRateLimited | PetitForbidden | PetitNotFound | PetitNoMatch
| PetitProviderUnavailable | PetitOutageLatched
| InnerUnauthorized | InnerRateLimited | InnerForbidden | InnerClientVersion | InnerNotFound
| InnerNoLyricsTab | InnerUntimedLyrics
| DetErrClassifierNotReady | CtxCanceled | CtxDeadlineExceeded
| SqlErrNoRows | LyrErrBlocked | LyrErrKeptBetter | LyrErrOutputDirMissing
| WrkIdle | WrkQueueEmpty | WrkLanesUnavailable | WrkThrottled | WrkVerificationRejected | WrkNoWordAnswer

text \<open>
  What a sentinel satisfies besides itself: the variables built with \<open>fmt.Errorf\<close> and a
  wrapping verb, and \<open>tokenRenewalError\<close>, whose \<open>Is\<close> method also accepts \<open>ErrUnauthorized\<close>.
\<close>

fun wrapsSentinel :: "sentinel \<Rightarrow> sentinel option" where
  "wrapsSentinel ErrNoProviderAsked = Some ErrLaneUnavailable"
| "wrapsSentinel MxmTokenRenewalRequired = Some MxmUnauthorized"
| "wrapsSentinel PetitNoMatch = Some PetitNotFound"
| "wrapsSentinel PetitProviderUnavailable = Some PetitNotFound"
| "wrapsSentinel PetitOutageLatched = Some PetitNotFound"
| "wrapsSentinel InnerClientVersion = Some InnerForbidden"
| "wrapsSentinel InnerNoLyricsTab = Some InnerNotFound"
| "wrapsSentinel WrkQueueEmpty = Some WrkIdle"
| "wrapsSentinel WrkLanesUnavailable = Some WrkIdle"
| "wrapsSentinel WrkThrottled = Some WrkIdle"
| "wrapsSentinel _ = None"

fun sentinelText :: "sentinel \<Rightarrow> gotext" where
  "sentinelText ErrLaneUnavailable = lit ''orchestrator: lane unavailable (circuit open)''"
| "sentinelText ErrNoProviderAsked =
     lit ''orchestrator: lane unavailable (circuit open): no provider lane was asked''"
| "sentinelText ErrLaneBenignMiss = lit ''orchestrator: lane benign miss (no result)''"
| "sentinelText ErrLaneOutage = lit ''orchestrator: lane outage''"
| "sentinelText ErrLaneNotReady = lit ''orchestrator: lane not ready (starting up)''"
| "sentinelText ErrTimingRefusedUntried =
     lit ''orchestrator: only result is timing-refused and a lane did not answer''"
| "sentinelText ErrAllResultsBlocked =
     lit ''orchestrator: every lane's result is blocked for this track''"
| "sentinelText MxmUnauthorized = lit ''musixmatch: unauthorized''"
| "sentinelText MxmRateLimited = lit ''musixmatch: rate limited''"
| "sentinelText MxmForbidden = lit ''musixmatch: forbidden''"
| "sentinelText MxmNotFound = lit ''musixmatch: no results found''"
| "sentinelText MxmNoLyrics = lit ''musixmatch: no lyrics available''"
| "sentinelText MxmTruncatedResponse = lit ''musixmatch: truncated or empty response body''"
| "sentinelText MxmUnparsableSubtitleBody = lit ''musixmatch: unrecognized subtitle_body encoding''"
| "sentinelText MxmMatchMismatch = lit ''musixmatch: response does not match the requested track''"
| "sentinelText MxmUnmatchable =
     lit ''musixmatch: track has no title or alternate identifier to match against''"
| "sentinelText MxmMatcherClientError =
     lit ''musixmatch: matcher rejected the request (client error)''"
| "sentinelText MxmTokenRenewalRequired = lit ''musixmatch: token renewal required''"
| "sentinelText PetitUnauthorized = lit ''petitlyrics: unauthorized''"
| "sentinelText PetitRateLimited = lit ''petitlyrics: rate limited''"
| "sentinelText PetitForbidden = lit ''petitlyrics: forbidden''"
| "sentinelText PetitNotFound = lit ''petitlyrics: no results found''"
| "sentinelText PetitNoMatch = lit ''petitlyrics: no songs in response: petitlyrics: no results found''"
| "sentinelText PetitProviderUnavailable =
     lit ''petitlyrics: provider returned no results for 20 consecutive lookups (application id revoked?): petitlyrics: no results found''"
| "sentinelText PetitOutageLatched =
     lit ''petitlyrics: no results while a confirmed outage is unresolved (application id revoked?): petitlyrics: no results found''"
| "sentinelText InnerUnauthorized = lit ''innertube: unauthorized''"
| "sentinelText InnerRateLimited = lit ''innertube: rate limited''"
| "sentinelText InnerForbidden = lit ''innertube: forbidden''"
| "sentinelText InnerClientVersion = lit ''innertube: stale client version: innertube: forbidden''"
| "sentinelText InnerNotFound = lit ''innertube: no results found''"
| "sentinelText InnerNoLyricsTab = lit ''innertube: no lyrics tab for video: innertube: no results found''"
| "sentinelText InnerUntimedLyrics = lit ''innertube: response carried lyrics but no timings''"
| "sentinelText DetErrClassifierNotReady = lit ''detector: classifier not ready''"
| "sentinelText CtxCanceled = lit ''context canceled''"
| "sentinelText CtxDeadlineExceeded = lit ''context deadline exceeded''"
| "sentinelText SqlErrNoRows = lit ''sql: no rows in result set''"
| "sentinelText LyrErrBlocked = lit ''lyrics: result is blocked for this track''"
| "sentinelText LyrErrKeptBetter = lit ''lyrics: kept a better sidecar already on disk''"
| "sentinelText LyrErrOutputDirMissing = lit ''refusing to write: output dir does not exist''"
| "sentinelText WrkIdle = lit ''worker idle''"
| "sentinelText WrkQueueEmpty = lit ''worker idle: queue empty''"
| "sentinelText WrkLanesUnavailable = lit ''worker idle: all lanes unavailable''"
| "sentinelText WrkThrottled = lit ''worker idle: provider throttled''"
| "sentinelText WrkVerificationRejected = lit ''worker: verification rejected lyrics''"
| "sentinelText WrkNoWordAnswer = lit ''worker: word recheck: no word answer''"

text \<open>
  An error value: a sentinel, an error none of the tests knows, \<open>fmt.Errorf\<close> with a wrapping
  verb between two texts, \<open>errors.Join\<close> of two, the orchestrator's \<open>laneOutage\<close>,
  \<open>RefusedUntriedError\<close> and \<open>PartialFailureError\<close>, and musixmatch's \<open>forbiddenError\<close>.
\<close>

datatype goerr =
  Sentinel sentinel
| Opaque gotext
| Wrapf gotext goerr gotext
| Joined goerr goerr
| LaneOutageError "goerr option"
| RefusedUntriedError gotext gotext bool
| PartialFailureError goerr
| ForbiddenError gotext

fun errorsIs :: "goerr \<Rightarrow> sentinel \<Rightarrow> bool" where
  "errorsIs (Sentinel s) t \<longleftrightarrow> s = t \<or> wrapsSentinel s = Some t"
| "errorsIs (Opaque _) t \<longleftrightarrow> False"
| "errorsIs (Wrapf _ e _) t \<longleftrightarrow> errorsIs e t"
| "errorsIs (Joined a b) t \<longleftrightarrow> errorsIs a t \<or> errorsIs b t"
| "errorsIs (LaneOutageError c) t \<longleftrightarrow> t = ErrLaneOutage \<or> (case c of None \<Rightarrow> False | Some e \<Rightarrow> errorsIs e t)"
| "errorsIs (RefusedUntriedError _ _ _) t \<longleftrightarrow> t = ErrTimingRefusedUntried"
| "errorsIs (PartialFailureError e) t \<longleftrightarrow> errorsIs e t"
| "errorsIs (ForbiddenError _) t \<longleftrightarrow> t = MxmForbidden"

fun errText :: "goerr \<Rightarrow> gotext" where
  "errText (Sentinel s) = sentinelText s"
| "errText (Opaque m) = m"
| "errText (Wrapf p e q) = p @ errText e @ q"
| "errText (Joined a b) = errText a @ [10] @ errText b"
| "errText (LaneOutageError c) =
     (case c of None \<Rightarrow> sentinelText ErrLaneOutage | Some e \<Rightarrow> errText e)"
| "errText (RefusedUntriedError lane cause blocked) =
     (if blocked
      then lit ''orchestrator: only answer is blocked and a lane did not answer (untried lane ''
        @ lane @ lit '': '' @ cause @ lit '')''
      else sentinelText ErrTimingRefusedUntried @ lit '' (untried lane '' @ lane @ lit '': ''
        @ cause @ lit '')'')"
| "errText (PartialFailureError e) = errText e"
| "errText (ForbiddenError m) = m"

definition mxmIsBenignMiss :: "goerr \<Rightarrow> bool" where
  "mxmIsBenignMiss e \<longleftrightarrow> errorsIs e MxmNotFound \<or> errorsIs e MxmNoLyrics
     \<or> errorsIs e MxmTruncatedResponse \<or> errorsIs e MxmUnparsableSubtitleBody
     \<or> errorsIs e MxmMatchMismatch \<or> errorsIs e MxmUnmatchable
     \<or> errorsIs e MxmMatcherClientError"

definition mxmIsNoMatch :: "goerr \<Rightarrow> bool" where
  "mxmIsNoMatch e \<longleftrightarrow> errorsIs e MxmNotFound"

definition petitIsNoMatch :: "goerr \<Rightarrow> bool" where
  "petitIsNoMatch e \<longleftrightarrow> errorsIs e PetitNoMatch"

definition IsRefusal :: "goerr \<Rightarrow> bool" where
  "IsRefusal e \<longleftrightarrow> \<not> errorsIs e InnerClientVersion
     \<and> (errorsIs e MxmForbidden \<or> errorsIs e PetitForbidden \<or> errorsIs e InnerForbidden)"

datatype OutcomeClass =
  OutcomeSuccess | OutcomeBenignMiss | OutcomeLaneOutage | OutcomeLaneNotReady
| OutcomeTransport | OutcomeAuthRateLimit | OutcomeUnavailable | OutcomeRefusedUntried

definition classifyErr :: "goerr \<Rightarrow> OutcomeClass" where
  "classifyErr e =
     (if errorsIs e ErrTimingRefusedUntried then OutcomeRefusedUntried
      else if errorsIs e ErrLaneUnavailable then OutcomeUnavailable
      else if errorsIs e MxmTokenRenewalRequired \<or> errorsIs e MxmUnauthorized
              \<or> errorsIs e MxmRateLimited
              \<or> errorsIs e PetitProviderUnavailable \<or> errorsIs e PetitOutageLatched
              \<or> errorsIs e PetitUnauthorized \<or> errorsIs e PetitRateLimited
              \<or> errorsIs e InnerUnauthorized \<or> errorsIs e InnerRateLimited
           then OutcomeAuthRateLimit
      else if mxmIsBenignMiss e \<or> errorsIs e ErrLaneBenignMiss \<or> errorsIs e ErrAllResultsBlocked
              \<or> errorsIs e PetitNotFound \<or> errorsIs e InnerNotFound
           then OutcomeBenignMiss
      else if errorsIs e ErrLaneNotReady then OutcomeLaneNotReady
      else if errorsIs e ErrLaneOutage then OutcomeLaneOutage
      else OutcomeTransport)"

definition ClassifyOutcome :: "goerr option \<Rightarrow> OutcomeClass" where
  "ClassifyOutcome err = (case err of None \<Rightarrow> OutcomeSuccess | Some e \<Rightarrow> classifyErr e)"

fun precedence :: "OutcomeClass \<Rightarrow> nat" where
  "precedence OutcomeSuccess = 0"
| "precedence OutcomeRefusedUntried = 0"
| "precedence OutcomeBenignMiss = 1"
| "precedence OutcomeLaneOutage = 2"
| "precedence OutcomeLaneNotReady = 2"
| "precedence OutcomeTransport = 3"
| "precedence OutcomeAuthRateLimit = 4"
| "precedence OutcomeUnavailable = 4"

section \<open>Lemmas\<close>

lemma classifyErr_cong: "(\<And>t. errorsIs a t = errorsIs b t) \<Longrightarrow> classifyErr a = classifyErr b"
  by (simp add: classifyErr_def mxmIsBenignMiss_def)

lemma classifyErr_Wrapf [simp]: "classifyErr (Wrapf p e q) = classifyErr e"
  by (rule classifyErr_cong) simp

lemma classifyErr_Partial [simp]: "classifyErr (PartialFailureError e) = classifyErr e"
  by (rule classifyErr_cong) simp

lemma ClassifyOutcome_simps [simp]:
  "ClassifyOutcome None = OutcomeSuccess" "ClassifyOutcome (Some e) = classifyErr e"
  by (simp_all add: ClassifyOutcome_def)

lemma classifyErr_not_success [simp]: "classifyErr e \<noteq> OutcomeSuccess"
  by (simp add: classifyErr_def)

lemma ClassifyOutcome_success_iff [simp]: "ClassifyOutcome err = OutcomeSuccess \<longleftrightarrow> err = None"
  by (cases err) simp_all

lemma classify_unavailable:
  "classifyErr e = OutcomeUnavailable \<longleftrightarrow>
    errorsIs e ErrLaneUnavailable \<and> \<not> errorsIs e ErrTimingRefusedUntried"
  by (auto simp: classifyErr_def)

end
