(* ===== verification/Lane.thy ===== *)
theory Lane
  imports Breaker Pacer Models Outcome RespDrift
begin

text \<open>
  A lane of the orchestrator (\<open>internal/orchestrator/lane.go\<close>, \<open>resolve.go\<close>,
  \<open>detector_lane.go\<close>, \<open>lanehealth.go\<close>): one source of lyrics behind its own circuit breaker,
  with the error policy of its kind and an optional shared pacer. What the outside world answers
  during one call of a lane is a \<open>LaneEnv\<close>: the provider's or detector's answer and the clock
  readings taken at the gate, when the outcome is settled and when the breaker is read back. The
  pacers live in a store, since a detector lane may hold the pacer of a provider lane; \<open>World\<close>
  is that store with the drift reports made so far.
\<close>

section \<open>Provider names\<close>

definition Musixmatch :: gotext where "Musixmatch = lit ''musixmatch''"
definition PetitLyrics :: gotext where "PetitLyrics = lit ''petitlyrics''"
definition InnerTube :: gotext where "InnerTube = lit ''innertube''"

definition NormalizeName :: "gotext \<Rightarrow> gotext" where
  "NormalizeName name = toLower (trimSpace name)"

definition Known :: "gotext list" where
  "Known = [Musixmatch, PetitLyrics, InnerTube]"

definition IsKnown :: "gotext \<Rightarrow> bool" where
  "IsKnown name \<longleftrightarrow> NormalizeName name \<in> set Known"

definition WordCapable :: "gotext \<Rightarrow> bool" where
  "WordCapable name \<longleftrightarrow> NormalizeName name = Musixmatch \<or> NormalizeName name = PetitLyrics"

definition AnyWordCapable :: "gotext list \<Rightarrow> bool" where
  "AnyWordCapable names \<longleftrightarrow> (\<exists>n \<in> set names. WordCapable n)"

section \<open>Definitions\<close>

definition detectorLaneName :: gotext where "detectorLaneName = lit ''detector''"
definition notReadyBound :: nat where "notReadyBound = 5"

datatype LaneKind = ProviderLane | DetectorLane

record Lane =
  lname :: gotext
  lkind :: LaneKind
  lbreaker :: breaker
  lpacer :: "nat option"
  llocal :: bool
  instrumentalOnly :: bool
  drift :: "Detector option"
  onDrift :: bool
  refused :: bool
  everReached :: bool
  notReadyStreak :: nat

record DetectResult =
  dr_Instrumental :: bool
  dr_Confidence :: float64
  dr_VocalConfidence :: float64
  dr_SpeechConfidence :: float64
  dr_WinningVocalClass :: gotext
  dr_Version :: gotext
  dr_Reusable :: bool

record LaneEnv =
  ask :: "Track \<Rightarrow> Song \<times> goerr option"
  detect :: "gotext \<Rightarrow> goerr + DetectResult"
  tAllow :: instant
  tSettle :: instant
  tRead :: instant

record World =
  pacers :: "nat \<Rightarrow> pacer"
  reports :: "(gotext \<times> gotext) list"

definition NewProviderLane :: "gotext \<Rightarrow> breaker \<Rightarrow> nat option \<Rightarrow> Lane" where
  "NewProviderLane name b p = \<lparr>lname = name, lkind = ProviderLane, lbreaker = b, lpacer = p,
     llocal = False, instrumentalOnly = False, drift = None, onDrift = False, refused = False,
     everReached = False, notReadyStreak = 0\<rparr>"

definition NewDetectorLane :: "breaker \<Rightarrow> nat option \<Rightarrow> Lane" where
  "NewDetectorLane b p = \<lparr>lname = detectorLaneName, lkind = DetectorLane, lbreaker = b, lpacer = p,
     llocal = True, instrumentalOnly = True, drift = None, onDrift = False, refused = False,
     everReached = False, notReadyStreak = 0\<rparr>"

definition WithResponseDrift :: "Detector \<Rightarrow> bool \<Rightarrow> Lane \<Rightarrow> Lane" where
  "WithResponseDrift d report l = l\<lparr>drift := Some d, onDrift := report\<rparr>"

definition laneWordCapable :: "Lane \<Rightarrow> bool" where
  "laneWordCapable l \<longleftrightarrow> \<not> instrumentalOnly l \<and> WordCapable (lname l)"

definition laneOpen :: "instant \<Rightarrow> Lane \<Rightarrow> bool" where
  "laneOpen now l \<longleftrightarrow> sn_State (breakerSnapshot now (lbreaker l)) = StateOpen"

definition notifyThrottle :: "instant \<Rightarrow> Lane \<Rightarrow> World \<Rightarrow> World" where
  "notifyThrottle now l w = (case lpacer l of None \<Rightarrow> w
     | Some p \<Rightarrow> w\<lparr>pacers := (pacers w)(p := OnThrottle now (pacers w p))\<rparr>)"

definition notifySuccess :: "instant \<Rightarrow> Lane \<Rightarrow> World \<Rightarrow> World" where
  "notifySuccess now l w = (case lpacer l of None \<Rightarrow> w
     | Some p \<Rightarrow> w\<lparr>pacers := (pacers w)(p := OnSuccess now (pacers w p))\<rparr>)"

abbreviation tripLane :: "instant \<Rightarrow> Lane \<Rightarrow> Lane" where
  "tripLane now l \<equiv> l\<lparr>lbreaker := snd (Trip now (lbreaker l))\<rparr>"

abbreviation missLane :: "Lane \<Rightarrow> Lane" where
  "missLane l \<equiv> l\<lparr>lbreaker := snd (RecordBenignMiss (lbreaker l))\<rparr>"

text \<open>The error policy of a provider lane, in the order of the code.\<close>

definition providerClassifier :: "instant \<Rightarrow> goerr \<Rightarrow> Lane \<Rightarrow> World \<Rightarrow> goerr \<times> Lane \<times> World" where
  "providerClassifier now e l w =
     (if errorsIs e MxmTokenRenewalRequired
        then (e, l\<lparr>lbreaker := snd (TripRenewal now (lbreaker l))\<rparr>, w)
      else if errorsIs e MxmRateLimited \<or> errorsIs e MxmUnauthorized
        then (let l' = tripLane now l
              in (e, l', if errorsIs e MxmRateLimited \<or> errorsIs e MxmUnauthorized \<and> EverSucceeded (lbreaker l')
                         then notifyThrottle now l' w else w))
      else if errorsIs e MxmForbidden then (e, tripLane now l, w)
      else if errorsIs e PetitProviderUnavailable then (e, tripLane now l, w)
      else if errorsIs e PetitOutageLatched then (e, l, w)
      else if errorsIs e PetitUnauthorized then (e, tripLane now l, w)
      else if errorsIs e PetitForbidden then (e, tripLane now l, w)
      else if errorsIs e PetitRateLimited
        then (let l' = tripLane now l in (e, l', notifyThrottle now l' w))
      else if errorsIs e InnerClientVersion then (e, tripLane now l, w)
      else if errorsIs e InnerForbidden then (e, tripLane now l, w)
      else if errorsIs e InnerUnauthorized then (e, tripLane now l, w)
      else if errorsIs e InnerRateLimited
        then (let l' = tripLane now l in (e, l', notifyThrottle now l' w))
      else if errorsIs e InnerNotFound then (e, missLane l, w)
      else if errorsIs e PetitNotFound then (e, missLane l, w)
      else if mxmIsBenignMiss e then (e, missLane l, w)
      else (Wrapf (lit ''lane '' @ lname l @ lit '': find lyrics: '') e [], l, w))"

definition detectorClassifier :: "instant \<Rightarrow> goerr \<Rightarrow> Lane \<Rightarrow> World \<Rightarrow> goerr \<times> Lane \<times> World" where
  "detectorClassifier now e l w =
     (if errorsIs e ErrLaneBenignMiss then (e, missLane l, w)
      else if errorsIs e ErrLaneNotReady then (e, l, w)
      else if errorsIs e ErrLaneOutage then (e, tripLane now l, w)
      else (Wrapf (lit ''lane '' @ lname l @ lit '': resolve: '') e [], l, w))"

definition laneClassify :: "instant \<Rightarrow> goerr \<Rightarrow> Lane \<Rightarrow> World \<Rightarrow> goerr \<times> Lane \<times> World" where
  "laneClassify now e l w = (case lkind l of
       ProviderLane \<Rightarrow> providerClassifier now e l w | DetectorLane \<Rightarrow> detectorClassifier now e l w)"

definition newLaneOutage :: "goerr \<Rightarrow> goerr" where
  "newLaneOutage cause = LaneOutageError (Some cause)"

text \<open>The song of a gate-positive verdict.\<close>

definition detectorSong :: "Track \<Rightarrow> DetectResult \<Rightarrow> Song" where
  "detectorSong track res =
     zeroSong\<lparr>STrack := zeroTrack\<lparr>ArtistName := ArtistName track, TrackName := TrackName track,
         AlbumName := AlbumName track, AlbumArtist := AlbumArtist track,
         TrackLength := TrackLength track, ISRC := ISRC track,
         RecordingMBID := RecordingMBID track, Instrumental := 1\<rparr>,
       DetectorVersion := dr_Version res, DetectorMusicSum := dr_Confidence res,
       DetectorVocalPeak := dr_VocalConfidence res, DetectorSpeechMean := dr_SpeechConfidence res,
       DetectorVocalClass := dr_WinningVocalClass res, DetectorGateComplete := dr_Reusable res\<rparr>"

definition detectorResolve :: "LaneEnv \<Rightarrow> Track \<Rightarrow> gotext \<Rightarrow> Lane \<Rightarrow> (Song \<times> goerr option) \<times> Lane" where
  "detectorResolve env track sourcePath l =
     (if sourcePath = [] then ((zeroSong, Some (Sentinel ErrLaneBenignMiss)), l)
      else case detect env sourcePath of
        Inl e \<Rightarrow>
          (if errorsIs e DetErrClassifierNotReady \<and> \<not> everReached l \<and> notReadyStreak l < notReadyBound
           then ((zeroSong, Some (Wrapf (lit ''detector not ready: '') (Joined (Sentinel ErrLaneNotReady) e) [])),
                 l\<lparr>notReadyStreak := notReadyStreak l + 1\<rparr>)
           else ((zeroSong, Some (newLaneOutage e)), l))
      | Inr res \<Rightarrow>
          (let l = l\<lparr>everReached := True, notReadyStreak := 0\<rparr>
           in if \<not> dr_Instrumental res then ((zeroSong, Some (Sentinel ErrLaneBenignMiss)), l)
              else ((detectorSong track res, None), l)))"

definition laneResolve :: "LaneEnv \<Rightarrow> Track \<Rightarrow> gotext \<Rightarrow> Lane \<Rightarrow> (Song \<times> goerr option) \<times> Lane" where
  "laneResolve env track sourcePath l = (case lkind l of
       ProviderLane \<Rightarrow> (ask env track, l) | DetectorLane \<Rightarrow> detectorResolve env track sourcePath l)"

text \<open>
  One successful response fed to the drift detector. \<open>Observe\<close> never fails on a detector made by
  \<open>newDetector\<close> (lemma \<open>Observe_total\<close>).
\<close>

definition observeDrift :: "(gotext \<Rightarrow> gotext) \<Rightarrow> Track \<Rightarrow> Song \<Rightarrow> Lane \<Rightarrow> World \<Rightarrow> Lane \<times> World" where
  "observeDrift nkey requested got l w =
     (case drift l of None \<Rightarrow> (l, w)
      | Some d \<Rightarrow>
         (let query = nkey (ArtistName requested) @ [0] @ nkey (TrackName requested);
              identity = nkey (ArtistName (STrack got)) @ [0] @ nkey (TrackName (STrack got))
          in if identity = [0] then (l, w)
             else case Observe nkey query identity d of None \<Rightarrow> (l, w)
                  | Some ((hit, n), d') \<Rightarrow>
                      (l\<lparr>drift := Some d'\<rparr>,
                       if hit \<and> onDrift l then w\<lparr>reports := reports w @ [(lname l, itoa n)]\<rparr> else w)))"

definition isCanceled :: "goerr option \<Rightarrow> bool" where
  "isCanceled err = (case err of None \<Rightarrow> False | Some e \<Rightarrow> errorsIs e CtxCanceled)"

definition laneFindLyrics :: "(gotext \<Rightarrow> gotext) \<Rightarrow> LaneEnv \<Rightarrow> Track \<Rightarrow> gotext \<Rightarrow> Lane \<Rightarrow> World
    \<Rightarrow> (Song \<times> goerr option) \<times> Lane \<times> World" where
  "laneFindLyrics nkey env track sourcePath l w =
     (let (st, b) = Allow (tAllow env) (lbreaker l); l = l\<lparr>lbreaker := b\<rparr>
      in if st = StateOpen then ((zeroSong, Some (Sentinel ErrLaneUnavailable)), l, w)
         else let ((song, err), l) = laneResolve env track sourcePath l;
                  l = (if isCanceled err then l
                       else l\<lparr>refused := (case err of None \<Rightarrow> False | Some e \<Rightarrow> IsRefusal e)\<rparr>)
              in case err of
                   Some e \<Rightarrow> (let (e', l', w') = laneClassify (tSettle env) e l w
                             in ((zeroSong, Some e'), l', w'))
                 | None \<Rightarrow> (let l = l\<lparr>lbreaker := snd (RecordSuccess (lbreaker l))\<rparr>;
                                w = notifySuccess (tSettle env) l w;
                                (l, w) = observeDrift nkey track song l w
                            in ((song, None), l, w)))"

record LaneState =
  ls_Provider :: gotext
  ls_Local :: bool
  ls_State :: gotext
  ls_OpenUntil :: instant
  ls_Trips :: int
  ls_EverSucceeded :: bool
  ls_Refused :: bool

fun laneStateName :: "BreakerState \<Rightarrow> gotext" where
  "laneStateName StateOpen = lit ''open''"
| "laneStateName StateHalfOpen = lit ''half-open''"
| "laneStateName StateClosed = lit ''closed''"

definition LaneHealth :: "(instant \<times> Lane) list \<Rightarrow> LaneState list" where
  "LaneHealth lanes = map (\<lambda>(now, l). let s = breakerSnapshot now (lbreaker l)
     in \<lparr>ls_Provider = lname l, ls_Local = llocal l, ls_State = laneStateName (sn_State s),
         ls_OpenUntil = sn_OpenUntil s, ls_Trips = sn_Trips s, ls_EverSucceeded = sn_EverSucceeded s,
         ls_Refused = refused l\<rparr>) lanes"

text \<open>The sentinel an error carries when it is one sentinel under wrapping texts.\<close>

fun rootSentinel :: "goerr \<Rightarrow> sentinel option" where
  "rootSentinel (Sentinel s) = Some s"
| "rootSentinel (Wrapf _ e _) = rootSentinel e"
| "rootSentinel (ForbiddenError _) = Some MxmForbidden"
| "rootSentinel _ = None"

fun plainError :: "goerr \<Rightarrow> bool" where
  "plainError (Opaque _) = True"
| "plainError (Wrapf _ e _) = plainError e"
| "plainError _ = False"

definition providerSentinels :: "sentinel set" where
  "providerSentinels = {MxmUnauthorized, MxmRateLimited, MxmForbidden, MxmNotFound, MxmNoLyrics,
     MxmTruncatedResponse, MxmUnparsableSubtitleBody, MxmMatchMismatch, MxmUnmatchable,
     MxmMatcherClientError, MxmTokenRenewalRequired, PetitUnauthorized, PetitRateLimited,
     PetitForbidden, PetitNotFound, PetitNoMatch, PetitProviderUnavailable, PetitOutageLatched,
     InnerUnauthorized, InnerRateLimited, InnerForbidden, InnerClientVersion, InnerNotFound,
     InnerNoLyricsTab, InnerUntimedLyrics, CtxCanceled, CtxDeadlineExceeded}"

definition lane_ok :: "Lane \<Rightarrow> bool" where
  "lane_ok l \<longleftrightarrow> breaker_ok (lbreaker l) \<and> notReadyStreak l \<le> notReadyBound
     \<and> (everReached l \<longrightarrow> notReadyStreak l = 0)"

text \<open>What a classifier may do to the lane: one of four breaker updates, and nothing else.\<close>

definition breakerMoves :: "instant \<Rightarrow> breaker \<Rightarrow> breaker set" where
  "breakerMoves now b = {b, snd (Trip now b), snd (TripRenewal now b), snd (RecordBenignMiss b)}"

text \<open>The parts of a lane that no call changes.\<close>

definition sameLane :: "Lane \<Rightarrow> Lane \<Rightarrow> bool" where
  "sameLane l l' \<longleftrightarrow> lname l' = lname l \<and> lkind l' = lkind l \<and> lpacer l' = lpacer l
     \<and> llocal l' = llocal l \<and> instrumentalOnly l' = instrumentalOnly l"

text \<open>The admitted part of a call, from the lane after the gate on.\<close>

definition laneSettle :: "(gotext \<Rightarrow> gotext) \<Rightarrow> LaneEnv \<Rightarrow> Track \<Rightarrow> Song \<times> goerr option \<Rightarrow> Lane \<Rightarrow> World
    \<Rightarrow> (Song \<times> goerr option) \<times> Lane \<times> World" where
  "laneSettle nkey env track r l w =
     (case r of
        (song, Some e) \<Rightarrow> (let (e', l', w') = laneClassify (tSettle env) e
                               (if errorsIs e CtxCanceled then l else l\<lparr>refused := IsRefusal e\<rparr>) w
                          in ((zeroSong, Some e'), l', w'))
      | (song, None) \<Rightarrow> (let l = l\<lparr>refused := False, lbreaker := snd (RecordSuccess (lbreaker l))\<rparr>;
                            (l, w) = observeDrift nkey track song l (notifySuccess (tSettle env) l w)
                        in ((song, None), l, w)))"

text \<open>The breaker and pacer policy as a table over the class and the cause of the error.\<close>

definition policyBreaker :: "instant \<Rightarrow> goerr \<Rightarrow> breaker \<Rightarrow> breaker" where
  "policyBreaker now e b =
     (case classifyErr e of
        OutcomeAuthRateLimit \<Rightarrow>
          (if errorsIs e MxmTokenRenewalRequired then snd (TripRenewal now b)
           else if errorsIs e PetitOutageLatched then b else snd (Trip now b))
      | OutcomeBenignMiss \<Rightarrow> snd (RecordBenignMiss b)
      | _ \<Rightarrow> if IsRefusal e \<or> errorsIs e InnerClientVersion then snd (Trip now b) else b)"

definition policyThrottles :: "goerr \<Rightarrow> breaker \<Rightarrow> bool" where
  "policyThrottles e b \<longleftrightarrow> errorsIs e MxmRateLimited \<or> errorsIs e PetitRateLimited
     \<or> errorsIs e InnerRateLimited
     \<or> errorsIs e MxmUnauthorized \<and> \<not> errorsIs e MxmTokenRenewalRequired \<and> EverSucceeded b"

text \<open>A sequence of calls of one lane, each in its own environment.\<close>

fun laneCalls :: "(gotext \<Rightarrow> gotext) \<Rightarrow> Track \<Rightarrow> gotext \<Rightarrow> LaneEnv list \<Rightarrow> Lane \<Rightarrow> World
    \<Rightarrow> (Song \<times> goerr option) list \<times> Lane \<times> World" where
  "laneCalls nkey track path [] l w = ([], l, w)"
| "laneCalls nkey track path (env # envs) l w =
     (let (r, l1, w1) = laneFindLyrics nkey env track path l w;
          (rs, l2, w2) = laneCalls nkey track path envs l1 w1
      in (r # rs, l2, w2))"

definition dialFailure :: "gotext \<Rightarrow> LaneEnv \<Rightarrow> bool" where
  "dialFailure path env = (case detect env path of
     Inl e \<Rightarrow> rootSentinel e = Some DetErrClassifierNotReady | Inr _ \<Rightarrow> False)"

text \<open>Concrete values for the examples below: a breaker, a world, an environment that fails.\<close>

definition exBreaker :: breaker where "exBreaker = NewBreaker minute hour"
definition exWorld :: World where "exWorld = \<lparr>pacers = (\<lambda>_. newPacer second), reports = []\<rparr>"
definition exEnv :: "goerr \<Rightarrow> LaneEnv" where
  "exEnv e = \<lparr>ask = (\<lambda>_. (zeroSong, Some e)), detect = (\<lambda>_. Inl e), tAllow = 10, tSettle = 20, tRead = 30\<rparr>"

section \<open>Lemmas\<close>

lemma errorsIs_root: "rootSentinel e = Some s \<Longrightarrow> errorsIs e t \<longleftrightarrow> errorsIs (Sentinel s) t"
  by (induction e rule: rootSentinel.induct) auto

lemma errorsIs_plain: "plainError e \<Longrightarrow> \<not> errorsIs e t"
  by (induction e rule: plainError.induct) auto

lemma laneFind_open:
  assumes "viewState (tAllow env) (lbreaker l) = StateOpen"
  shows "laneFindLyrics nkey env track path l w = ((zeroSong, Some (Sentinel ErrLaneUnavailable)), l, w)"
proof -
  have "Allow (tAllow env) (lbreaker l) = (StateOpen, lbreaker l)"
    using assms gate.refused_call_no_effect by (simp add: Allow_view prod_eq_iff)
  then show ?thesis by (simp add: laneFindLyrics_def)
qed

lemma laneFind_error_song: "laneFindLyrics nkey env track path l w = ((song, Some e), l', w') \<Longrightarrow> song = zeroSong"
  by (auto simp: laneFindLyrics_def Let_def split: if_splits option.splits prod.splits)

lemma laneClassify_moves:
  "laneClassify now e l w = (e', l', w') \<Longrightarrow>
     \<exists>b \<in> breakerMoves now (lbreaker l). l' = l\<lparr>lbreaker := b\<rparr>"
  unfolding laneClassify_def providerClassifier_def detectorClassifier_def breakerMoves_def
  by (auto simp: Let_def split: LaneKind.splits if_splits)

lemma laneClassify_err: "laneClassify now e l w = (e', l', w') \<Longrightarrow> errorsIs e' t = errorsIs e t"
  unfolding laneClassify_def providerClassifier_def detectorClassifier_def
  by (auto simp: Let_def split: LaneKind.splits if_splits)

lemma breakerMoves_ok: "breaker_ok b \<Longrightarrow> b' \<in> breakerMoves now b \<Longrightarrow> breaker_ok b'"
  by (auto simp: breakerMoves_def gate.trip_valid gate.miss_valid) (simp add: breaker_ok_def TripRenewal_def Let_def)

lemma sameLane_trans: "sameLane a b \<Longrightarrow> sameLane b c \<Longrightarrow> sameLane a c"
  by (simp add: sameLane_def)

lemma sameLane_updates [simp]:
  "sameLane l (l\<lparr>lbreaker := b\<rparr>)" "sameLane l (l\<lparr>refused := r\<rparr>)" "sameLane l (l\<lparr>drift := d\<rparr>)" "sameLane l l"
  by (simp_all add: sameLane_def)

lemma sameLane_wordCapable: "sameLane l l' \<Longrightarrow> laneWordCapable l' = laneWordCapable l"
  by (simp add: sameLane_def laneWordCapable_def)

lemma laneResolve_frame:
  "laneResolve env track path l = (r, l') \<Longrightarrow> sameLane l l' \<and> lbreaker l' = lbreaker l \<and> drift l' = drift l"
  by (auto simp: laneResolve_def detectorResolve_def sameLane_def Let_def
      split: LaneKind.splits if_splits sum.splits)

lemma observeDrift_frame:
  assumes "observeDrift nkey track song l w = (l', w')"
  shows "sameLane l l' \<and> lbreaker l' = lbreaker l \<and> refused l' = refused l
    \<and> everReached l' = everReached l \<and> notReadyStreak l' = notReadyStreak l \<and> pacers w' = pacers w"
  using assms unfolding observeDrift_def Let_def
  by (auto simp: sameLane_def split: option.splits if_splits prod.splits)

lemma notify_frame [simp]:
  "reports (notifyThrottle now l w) = reports w" "reports (notifySuccess now l w) = reports w"
  by (simp_all add: notifyThrottle_def notifySuccess_def split: option.split)

lemma laneResolve_streak:
  "laneResolve env track path l = (r, l') \<Longrightarrow> lane_ok l \<Longrightarrow> lane_ok l'"
  by (auto simp: laneResolve_def detectorResolve_def lane_ok_def Let_def
      split: LaneKind.splits if_splits sum.splits)

lemma laneFind_admitted:
  assumes "Allow (tAllow env) (lbreaker l) = (st, b)" "st \<noteq> StateOpen"
    and "laneResolve env track path (l\<lparr>lbreaker := b\<rparr>) = (r, l1)"
  shows "laneFindLyrics nkey env track path l w = laneSettle nkey env track r l1 w"
  using assms by (cases r) (auto simp: laneFindLyrics_def laneSettle_def isCanceled_def Let_def split: option.split)

lemma laneSettle_frame:
  assumes "laneSettle nkey env track r l w = (res, l', w')"
  shows "sameLane l l'" "lane_ok l \<Longrightarrow> lane_ok l'"
proof -
  obtain song err where r: "r = (song, err)" by (cases r)
  have "sameLane l l' \<and> (lane_ok l \<longrightarrow> lane_ok l')"
  proof (cases err)
    case None
    let ?l = "l\<lparr>refused := False, lbreaker := snd (RecordSuccess (lbreaker l))\<rparr>"
    have "observeDrift nkey track song ?l (notifySuccess (tSettle env) ?l w) = (l', w')"
      using assms r None by (auto simp: laneSettle_def Let_def split: prod.splits)
    from observeDrift_frame [OF this] show ?thesis
      by (auto simp: sameLane_def lane_ok_def gate.success_valid)
  next
    case (Some e)
    let ?l = "if errorsIs e CtxCanceled then l else l\<lparr>refused := IsRefusal e\<rparr>"
    obtain e' where "laneClassify (tSettle env) e ?l w = (e', l', w')"
      using assms r Some by (auto simp: laneSettle_def Let_def split: prod.splits)
    from laneClassify_moves [OF this] obtain b where "b \<in> breakerMoves (tSettle env) (lbreaker l)" "l' = ?l\<lparr>lbreaker := b\<rparr>"
      by (cases "errorsIs e CtxCanceled") auto
    then show ?thesis using breakerMoves_ok by (auto simp: sameLane_def lane_ok_def)
  qed
  then show "sameLane l l'" "lane_ok l \<Longrightarrow> lane_ok l'" by auto
qed

lemma laneFind_frame:
  assumes "laneFindLyrics nkey env track path l w = (res, l', w')"
  shows "sameLane l l' \<and> (lane_ok l \<longrightarrow> lane_ok l')"
proof (cases "viewState (tAllow env) (lbreaker l) = StateOpen")
  case True
  then show ?thesis using assms laneFind_open by simp
next
  case False
  obtain st b where ab: "Allow (tAllow env) (lbreaker l) = (st, b)" by (cases "Allow (tAllow env) (lbreaker l)")
  then have st: "st \<noteq> StateOpen" and "b = snd (Allow (tAllow env) (lbreaker l))"
    using False Allow_view [of "tAllow env" "lbreaker l"] by simp_all
  then have ok: "lane_ok l \<Longrightarrow> lane_ok (l\<lparr>lbreaker := b\<rparr>)" by (auto simp: lane_ok_def intro: gate.allow_valid)
  obtain r l1 where lr: "laneResolve env track path (l\<lparr>lbreaker := b\<rparr>) = (r, l1)"
    by (cases "laneResolve env track path (l\<lparr>lbreaker := b\<rparr>)")
  have se: "laneSettle nkey env track r l1 w = (res, l', w')" using assms laneFind_admitted [OF ab st lr] by simp
  have "sameLane (l\<lparr>lbreaker := b\<rparr>) l1" using laneResolve_frame [OF lr] by blast
  then have "sameLane l l1" by (simp add: sameLane_def)
  then show ?thesis using laneSettle_frame [OF se] laneResolve_streak [OF lr] ok sameLane_trans by blast
qed

lemma laneSettle_provider_error:
  assumes "lkind l = ProviderLane"
  shows "laneSettle nkey env track (song, Some e) l w =
    (let l1 = (if errorsIs e CtxCanceled then l else l\<lparr>refused := IsRefusal e\<rparr>);
         (e', l', w') = providerClassifier (tSettle env) e l1 w in ((zeroSong, Some e'), l', w'))"
  using assms by (auto simp: laneSettle_def laneClassify_def Let_def)

lemma EverSucceeded_Trip [simp]: "EverSucceeded (snd (Trip now b)) = EverSucceeded b"
  by (simp add: EverSucceeded_def Trip_def Let_def)

lemma notifyThrottle_breaker [simp]: "notifyThrottle now (l\<lparr>lbreaker := b\<rparr>) w = notifyThrottle now l w"
  "notifyThrottle now (l\<lparr>refused := r\<rparr>) w = notifyThrottle now l w"
  by (simp_all add: notifyThrottle_def)

lemma provider_policy:
  assumes "rootSentinel e = Some s \<and> s \<in> providerSentinels \<or> plainError e"
  shows "\<exists>e'. providerClassifier now e l w =
      (e', l\<lparr>lbreaker := policyBreaker now e (lbreaker l)\<rparr>,
       if policyThrottles e (lbreaker l) then notifyThrottle now l w else w)
    \<and> classifyErr e' = classifyErr e"
proof -
  from assms consider (plain) "plainError e" | (root) "rootSentinel e = Some s" "s \<in> providerSentinels" by blast
  then show ?thesis
  proof cases
    case plain
    note is0 = errorsIs_plain [OF plain]
    then show ?thesis
      by (simp add: providerClassifier_def policyBreaker_def policyThrottles_def classifyErr_def mxmIsBenignMiss_def IsRefusal_def)
  next
    case root
    note iss = errorsIs_root [OF root(1)]
    show ?thesis using root(2) unfolding providerSentinels_def
      by (simp only: insert_iff empty_iff, elim disjE)
         (simp_all add: providerClassifier_def policyBreaker_def policyThrottles_def classifyErr_def
            mxmIsBenignMiss_def IsRefusal_def iss Let_def)
  qed
qed

lemma laneCalls_ok: "lane_ok l \<Longrightarrow> laneCalls nkey track path envs l w = (rs, l', w') \<Longrightarrow> sameLane l l' \<and> lane_ok l'"
proof (induction envs arbitrary: l w rs)
  case (Cons env envs)
  obtain r l1 w1 where f: "laneFindLyrics nkey env track path l w = (r, l1, w1)" by (metis surj_pair)
  obtain rs' where "laneCalls nkey track path envs l1 w1 = (rs', l', w')"
    using Cons.prems(2) f by (auto split: prod.splits)
  then show ?case using Cons.IH laneFind_frame [OF f] Cons.prems(1) sameLane_trans by blast
qed (simp add: sameLane_def)

lemma Allow_closed: "openUntil b = 0 \<Longrightarrow> probing b = False \<Longrightarrow> Allow now b = (StateClosed, b)"
  by (simp add: Allow_def isZero_def)

lemma detector_dial_step:
  assumes l: "lkind l = DetectorLane" "\<not> everReached l" "openUntil (lbreaker l) = 0" "\<not> probing (lbreaker l)"
    and f: "dialFailure path env" "path \<noteq> []"
  shows "notReadyStreak l < notReadyBound \<Longrightarrow>
      \<exists>e. laneFindLyrics nkey env track path l w =
          ((zeroSong, Some e), l\<lparr>notReadyStreak := notReadyStreak l + 1, refused := False\<rparr>, w)
        \<and> classifyErr e = OutcomeLaneNotReady"
    and "\<not> notReadyStreak l < notReadyBound \<Longrightarrow>
      \<exists>e. laneFindLyrics nkey env track path l w =
          ((zeroSong, Some e), l\<lparr>refused := False, lbreaker := snd (Trip (tSettle env) (lbreaker l))\<rparr>, w)
        \<and> classifyErr e = OutcomeLaneOutage"
proof -
  obtain e where e: "detect env path = Inl e" "rootSentinel e = Some DetErrClassifierNotReady"
    using f(1) by (auto simp: dialFailure_def split: sum.splits)
  note iss = errorsIs_root [OF e(2)]
  note al = Allow_closed [OF l(3), of "tAllow env"]
  show "notReadyStreak l < notReadyBound \<Longrightarrow>
      \<exists>e. laneFindLyrics nkey env track path l w =
          ((zeroSong, Some e), l\<lparr>notReadyStreak := notReadyStreak l + 1, refused := False\<rparr>, w)
        \<and> classifyErr e = OutcomeLaneNotReady"
    using l f(2) al by (simp add: laneFindLyrics_def laneResolve_def detectorResolve_def e iss isCanceled_def
        laneClassify_def detectorClassifier_def IsRefusal_def classifyErr_def mxmIsBenignMiss_def)
  show "\<not> notReadyStreak l < notReadyBound \<Longrightarrow>
      \<exists>e. laneFindLyrics nkey env track path l w =
          ((zeroSong, Some e), l\<lparr>refused := False, lbreaker := snd (Trip (tSettle env) (lbreaker l))\<rparr>, w)
        \<and> classifyErr e = OutcomeLaneOutage"
    using l f(2) al by (simp add: laneFindLyrics_def laneResolve_def detectorResolve_def e iss isCanceled_def
        laneClassify_def detectorClassifier_def IsRefusal_def classifyErr_def mxmIsBenignMiss_def newLaneOutage_def)
qed

lemma detector_boot_run:
  assumes "lkind l = DetectorLane" "\<not> everReached l" "openUntil (lbreaker l) = 0" "\<not> probing (lbreaker l)"
    and "\<forall>env \<in> set envs. dialFailure path env" "path \<noteq> []" "notReadyStreak l + length envs \<le> notReadyBound"
  shows "\<exists>rs r. laneCalls nkey track path envs l w =
      (rs, l\<lparr>notReadyStreak := notReadyStreak l + length envs, refused := r\<rparr>, w)
    \<and> map (ClassifyOutcome \<circ> snd) rs = replicate (length envs) OutcomeLaneNotReady"
  using assms
proof (induction envs arbitrary: l)
  case Nil
  show ?case by (intro exI [of _ "[]"] exI [of _ "refused l"]) simp
next
  case (Cons env envs)
  let ?l = "l\<lparr>notReadyStreak := notReadyStreak l + 1, refused := False\<rparr>"
  obtain e where st: "laneFindLyrics nkey env track path l w = ((zeroSong, Some e), ?l, w)"
    and c: "classifyErr e = OutcomeLaneNotReady"
    using detector_dial_step(1) [of l path env nkey track w] Cons.prems by auto
  have "\<exists>rs r. laneCalls nkey track path envs ?l w =
      (rs, ?l\<lparr>notReadyStreak := notReadyStreak ?l + length envs, refused := r\<rparr>, w)
    \<and> map (ClassifyOutcome \<circ> snd) rs = replicate (length envs) OutcomeLaneNotReady"
    by (rule Cons.IH) (use Cons.prems in auto)
  then obtain rs r where ih: "laneCalls nkey track path envs ?l w =
      (rs, ?l\<lparr>notReadyStreak := notReadyStreak ?l + length envs, refused := r\<rparr>, w)"
    "map (ClassifyOutcome \<circ> snd) rs = replicate (length envs) OutcomeLaneNotReady" by blast
  have "laneCalls nkey track path (env # envs) l w =
      ((zeroSong, Some e) # rs, l\<lparr>notReadyStreak := notReadyStreak l + length (env # envs), refused := r\<rparr>, w)"
    using st ih(1) by simp
  moreover have "map (ClassifyOutcome \<circ> snd) ((zeroSong, Some e) # rs) = replicate (length (env # envs)) OutcomeLaneNotReady"
    using ih(2) c by simp
  ultimately show ?case by blast
qed

section \<open>Properties\<close>

text \<open>
  C27: the error policy of a provider lane agrees with the classification the dispatcher ranks
  errors by. For a call that the breaker admits and whose provider fails with one of its
  sentinels (under any wrapping text) or with an error nothing knows, the caller gets an error of
  the same class and no song, and the breaker and the pacer move by a table over that class: a
  renewal holds the full window without advancing the ramp, an outage already confirmed leaves
  the breaker alone, every other throttle or auth failure trips it, a miss resets it, and any
  other failure trips it just when it is a refusal or a stale client version. The pacer is
  slowed only by an explicit rate limit, or by a 401 of a token that worked before.
\<close>

theorem provider_lane_policy:
  assumes "lkind l = ProviderLane" and "Allow (tAllow env) (lbreaker l) = (st, b)" and "st \<noteq> StateOpen"
    and "snd (ask env track) = Some e"
    and "rootSentinel e = Some s \<and> s \<in> providerSentinels \<or> plainError e"
  shows "\<exists>e' l'. laneFindLyrics nkey env track path l w =
      ((zeroSong, Some e'), l', if policyThrottles e b then notifyThrottle (tSettle env) l w else w)
    \<and> classifyErr e' = classifyErr e \<and> lbreaker l' = policyBreaker (tSettle env) e b \<and> sameLane l l'"
proof -
  let ?l = "l\<lparr>lbreaker := b\<rparr>" and ?l1 = "if errorsIs e CtxCanceled then l\<lparr>lbreaker := b\<rparr> else l\<lparr>lbreaker := b, refused := IsRefusal e\<rparr>"
  obtain song where a: "ask env track = (song, Some e)" using assms(4) by (cases "ask env track") auto
  have lr: "laneResolve env track path ?l = ((song, Some e), ?l)" using assms(1) a by (simp add: laneResolve_def)
  obtain e' where pc: "providerClassifier (tSettle env) e ?l1 w =
      (e', ?l1\<lparr>lbreaker := policyBreaker (tSettle env) e (lbreaker ?l1)\<rparr>,
       if policyThrottles e (lbreaker ?l1) then notifyThrottle (tSettle env) ?l1 w else w)"
    "classifyErr e' = classifyErr e"
    using provider_policy [OF assms(5), of "tSettle env" ?l1 w] by auto
  have "laneFindLyrics nkey env track path l w = ((zeroSong, Some e'),
      ?l1\<lparr>lbreaker := policyBreaker (tSettle env) e b\<rparr>, if policyThrottles e b then notifyThrottle (tSettle env) l w else w)"
    using laneFind_admitted [OF assms(2,3) lr, of nkey w] pc(1) assms(1)
    by (simp add: laneSettle_provider_error cong: if_cong)
  then show ?thesis using pc(2) by (auto simp: sameLane_def)
qed

theorem provider_lane_policy_witness:
  "\<exists>e' l'. laneFindLyrics id (exEnv (Sentinel InnerRateLimited)) zeroTrack [] (NewProviderLane InnerTube exBreaker (Some 0)) exWorld
     = ((zeroSong, Some e'), l', notifyThrottle 20 (NewProviderLane InnerTube exBreaker (Some 0)) exWorld)
   \<and> classifyErr e' = OutcomeAuthRateLimit \<and> lbreaker l' = snd (Trip 20 exBreaker)"
proof -
  let ?l = "NewProviderLane InnerTube exBreaker (Some 0)" and ?e = "Sentinel InnerRateLimited"
  have h: "lkind ?l = ProviderLane" "Allow (tAllow (exEnv ?e)) (lbreaker ?l) = (StateClosed, exBreaker)"
    "StateClosed \<noteq> StateOpen" "snd (ask (exEnv ?e) zeroTrack) = Some ?e"
    "rootSentinel ?e = Some InnerRateLimited \<and> InnerRateLimited \<in> providerSentinels \<or> plainError ?e"
    by (simp_all add: NewProviderLane_def exEnv_def Allow_def exBreaker_def NewBreaker_def isZero_def providerSentinels_def)
  have c: "classifyErr ?e = OutcomeAuthRateLimit" by (simp add: classifyErr_def)
  have "policyThrottles ?e exBreaker" "policyBreaker 20 ?e exBreaker = snd (Trip 20 exBreaker)"
    by (simp_all add: policyThrottles_def policyBreaker_def c)
  then show ?thesis using provider_lane_policy [OF h, of id "[]" exWorld] c by (auto simp: exEnv_def)
qed

text \<open>
  An open lane is inert. While the breaker view of a lane is open at the instant of the
  call, the call returns the unavailable sentinel without asking the provider or the detector:
  whatever they would have answered, the lane, every pacer and the drift reports stay as they
  were.
\<close>

theorem open_lane_inert:
  assumes "viewState (tAllow env) (lbreaker l) = StateOpen"
  shows "laneFindLyrics nkey (env\<lparr>ask := a, detect := d\<rparr>) track path l w
    = ((zeroSong, Some (Sentinel ErrLaneUnavailable)), l, w)"
  by (rule laneFind_open) (simp add: assms)

theorem open_lane_inert_witness:
  "laneFindLyrics id (exEnv (Opaque [])) zeroTrack [] (NewProviderLane InnerTube (snd (Trip 5 exBreaker)) None) exWorld
     = ((zeroSong, Some (Sentinel ErrLaneUnavailable)), NewProviderLane InnerTube (snd (Trip 5 exBreaker)) None, exWorld)"
proof -
  have "openUntil (snd (Trip 5 exBreaker)) = 5 + tr_Window (fst (Trip 5 exBreaker))" by (rule Trip_openUntil)
  moreover have "tr_Window (fst (Trip 5 exBreaker)) = minute"
    by (simp add: Trip_def exBreaker_def NewBreaker_def Let_def Geometric_def minute_def second_def hour_def)
  ultimately have "viewState (tAllow (exEnv (Opaque []))) (lbreaker (NewProviderLane InnerTube (snd (Trip 5 exBreaker)) None)) = StateOpen"
    by (simp add: breakerSnapshot_def NewProviderLane_def exEnv_def isZero_def minute_def second_def Let_def)
  from open_lane_inert [OF this, where a = "ask (exEnv (Opaque []))" and d = "detect (exEnv (Opaque []))"]
  show ?thesis by simp
qed

text \<open>
  The detector's start-up grace is bounded. On a lane that has never reached its sidecar
  and whose breaker is closed, the first five calls that fail at the dial report not-ready and
  leave the breaker closed; the sixth is an outage, and it trips the breaker.
\<close>

theorem detector_grace_bounded:
  assumes "openUntil b = 0" "\<not> probing b" "path \<noteq> []" "length envs = 5"
    and "\<forall>env \<in> set (envs @ [last_env]). dialFailure path env"
  shows "\<exists>rs r. laneCalls nkey track path (envs @ [last_env]) (NewDetectorLane b p) w =
      (rs, (NewDetectorLane b p)\<lparr>notReadyStreak := 5, refused := r, lbreaker := snd (Trip (tSettle last_env) b)\<rparr>, w)
    \<and> map (ClassifyOutcome \<circ> snd) rs = replicate 5 OutcomeLaneNotReady @ [OutcomeLaneOutage]"
proof -
  let ?l = "NewDetectorLane b p"
  obtain rs r where run: "laneCalls nkey track path envs ?l w = (rs, ?l\<lparr>notReadyStreak := 5, refused := r\<rparr>, w)"
    and cl: "map (ClassifyOutcome \<circ> snd) rs = replicate 5 OutcomeLaneNotReady"
    using detector_boot_run [of ?l envs path nkey track w] assms by (auto simp: NewDetectorLane_def notReadyBound_def)
  let ?m = "?l\<lparr>notReadyStreak := 5, refused := r\<rparr>"
  obtain e where st: "laneFindLyrics nkey last_env track path ?m w =
      ((zeroSong, Some e), ?m\<lparr>refused := False, lbreaker := snd (Trip (tSettle last_env) b)\<rparr>, w)"
    and ce: "classifyErr e = OutcomeLaneOutage"
    using detector_dial_step(2) [of ?m path last_env nkey track w] assms
    by (auto simp: NewDetectorLane_def notReadyBound_def)
  have "laneCalls nkey track path (xs @ [y]) l v =
      (let (as, l1, w1) = laneCalls nkey track path xs l v; (a, l2, w2) = laneFindLyrics nkey y track path l1 w1
       in (as @ [a], l2, w2))" for xs y l v
    by (induction xs arbitrary: l v) (auto split: prod.splits)
  then have "laneCalls nkey track path (envs @ [last_env]) ?l w =
      (rs @ [(zeroSong, Some e)], ?l\<lparr>notReadyStreak := 5, refused := False, lbreaker := snd (Trip (tSettle last_env) b)\<rparr>, w)"
    using run st by simp
  then show ?thesis using cl ce by (intro exI [of _ "rs @ [(zeroSong, Some e)]"] exI [of _ False]) simp
qed

theorem detector_grace_bounded_witness:
  "\<exists>rs l'. laneCalls id zeroTrack (lit ''/a'') (replicate 6 (exEnv (Sentinel DetErrClassifierNotReady))) (NewDetectorLane exBreaker None) exWorld
     = (rs, l', exWorld) \<and> lbreaker l' = snd (Trip 20 exBreaker)
     \<and> map (ClassifyOutcome \<circ> snd) rs = replicate 5 OutcomeLaneNotReady @ [OutcomeLaneOutage]"
proof -
  let ?e = "exEnv (Sentinel DetErrClassifierNotReady)"
  have r: "replicate 6 ?e = replicate 5 ?e @ [?e]" by (simp add: numeral_eq_Suc)
  have h: "openUntil exBreaker = 0" "\<not> probing exBreaker" by (simp_all add: exBreaker_def NewBreaker_def)
  have "\<forall>env \<in> set (replicate 5 ?e @ [?e]). dialFailure (lit ''/a'') env" by (simp add: dialFailure_def exEnv_def)
  from detector_grace_bounded [OF h _ _ this, of id zeroTrack None exWorld] obtain rs q where
    "laneCalls id zeroTrack (lit ''/a'') (replicate 5 ?e @ [?e]) (NewDetectorLane exBreaker None) exWorld =
      (rs, (NewDetectorLane exBreaker None)\<lparr>notReadyStreak := 5, refused := q, lbreaker := snd (Trip 20 exBreaker)\<rparr>, exWorld)"
    "map (ClassifyOutcome \<circ> snd) rs = replicate 5 OutcomeLaneNotReady @ [OutcomeLaneOutage]"
    by (auto simp: exEnv_def)
  then show ?thesis by (simp only: r) simp
qed

end
