(* ===== verification/Dispatch.thy ===== *)
theory Dispatch
  imports Lane A2 Promotion
begin

text \<open>
  The orchestrator's ordered dispatch (\<open>internal/orchestrator/suitability.go\<close> and
  \<open>orchestrator.go\<close>): how a lane result is judged, what the dispatch accumulates over the lanes
  (\<open>dispatchResult\<close>), the shared resolution when nothing committed, and the loop over the lanes.
  The script guard and the block checker are the interfaces of the code: optional functions of
  the orchestrator value. \<open>ctx.Err()\<close> is an error option read at each point where the code reads
  it.
\<close>

section \<open>Suitability\<close>

datatype Quality = QualityNone | QualityInstrumental | QualityUnsynced | QualitySynced | QualityWordSynced

fun qrank :: "Quality \<Rightarrow> nat" where
  "qrank QualityNone = 0"
| "qrank QualityInstrumental = 1"
| "qrank QualityUnsynced = 2"
| "qrank QualitySynced = 3"
| "qrank QualityWordSynced = 4"

lemma qrank_inj: "qrank a = qrank b \<longleftrightarrow> a = b"
  by (cases a; cases b) auto

instantiation Quality :: linorder
begin

definition less_eq_Quality :: "Quality \<Rightarrow> Quality \<Rightarrow> bool" where
  "less_eq_Quality a b \<longleftrightarrow> qrank a \<le> qrank b"

definition less_Quality :: "Quality \<Rightarrow> Quality \<Rightarrow> bool" where
  "less_Quality a b \<longleftrightarrow> qrank a < qrank b"

instance
  by standard (auto simp: less_eq_Quality_def less_Quality_def qrank_inj)

end

definition QualityOf :: "Song \<Rightarrow> Quality" where
  "QualityOf song =
     (if Subtitles song \<noteq> [] \<and> WordTimings song \<noteq> [] then QualityWordSynced
      else if Subtitles song \<noteq> [] then QualitySynced
      else if LyricsBody song \<noteq> [] then QualityUnsynced
      else if Instrumental (STrack song) = 1 then QualityInstrumental
      else QualityNone)"

record ScriptGuard =
  Enabled :: bool
  Accept :: "Song \<Rightarrow> bool"

definition IsSuitable :: "Song \<Rightarrow> ScriptGuard option \<Rightarrow> bool" where
  "IsSuitable song guard =
     (let detectorInstrumental = (Instrumental (STrack song) = 1 \<and> DetectorVersion song \<noteq> [])
      in if \<not> detectorInstrumental \<and> QualityOf song < QualityUnsynced then False
         else case guard of None \<Rightarrow> True | Some g \<Rightarrow> (if Enabled g then Accept g song else True))"

definition judgeAgainst :: "Song \<Rightarrow> Track \<Rightarrow> Song" where
  "judgeAgainst song track = song\<lparr>AudioDurationSeconds := TrackLength track\<rparr>"

definition timingDecision :: "Song \<Rightarrow> Track \<Rightarrow> PromotionDecision" where
  "timingDecision song track = fst (DecidePromotion (judgeAgainst song track))"

datatype candidate =
  candidateRetain | candidateCommit | candidateHold | candidateRefused | candidateBlocked

type_synonym blockIdentity = "(gotext \<times> gotext) option"

definition StampBlockIdentity :: "blockIdentity \<Rightarrow> Song \<Rightarrow> Song" where
  "StampBlockIdentity ctx song = (case ctx of None \<Rightarrow> song
     | Some (a, t) \<Rightarrow> song\<lparr>IdentityArtistKey := a, IdentityTitleKey := t\<rparr>)"

type_synonym BlockChecker = "Song \<Rightarrow> bool"

definition isBlocked :: "BlockChecker option \<Rightarrow> blockIdentity \<Rightarrow> Song \<Rightarrow> bool" where
  "isBlocked blocks ctx song = (case blocks of None \<Rightarrow> False | Some f \<Rightarrow> f (StampBlockIdentity ctx song))"

definition classifyCandidate :: "blockIdentity \<Rightarrow> Song \<Rightarrow> Track \<Rightarrow> ScriptGuard option \<Rightarrow> BlockChecker option \<Rightarrow> candidate" where
  "classifyCandidate ctx song track guard blocks =
     (if isBlocked blocks ctx song then candidateBlocked
      else if \<not> IsSuitable song guard then candidateRetain
      else case timingDecision song track of
             PromoteAsIs \<Rightarrow> candidateCommit
           | DemoteToUnsynced \<Rightarrow> candidateHold
           | Quarantine \<Rightarrow> candidateRefused)"

definition retainQuality :: "Song \<Rightarrow> Track \<Rightarrow> Quality" where
  "retainQuality song track = (case timingDecision song track of
       Quarantine \<Rightarrow> QualityNone | DemoteToUnsynced \<Rightarrow> QualityUnsynced | PromoteAsIs \<Rightarrow> QualityOf song)"

definition landedQuality :: "Song \<Rightarrow> Track \<Rightarrow> Quality" where
  "landedQuality song track =
     (if Instrumental (STrack song) = 1 then QualityInstrumental else retainQuality song track)"

definition gateQuality :: "Song \<Rightarrow> Quality" where
  "gateQuality song =
     (if QualityOf song \<noteq> QualityWordSynced \<or> HasQualifyingWords song then QualityOf song else QualitySynced)"

section \<open>The orchestrator and what a dispatch accumulates\<close>

datatype Mode = ModeOrdered | ModeParallel

record Orchestrator =
  o_lanes :: "Lane list"
  o_guard :: "ScriptGuard option"
  o_mode :: Mode
  o_raceWait :: duration
  o_minCommit :: Quality
  o_blocks :: "BlockChecker option"

definition DefaultRaceWait :: duration where "DefaultRaceWait = 2 * second"

definition parseMode :: "gotext \<Rightarrow> Mode option" where
  "parseMode m = (if m = [] \<or> m = lit ''ordered'' then Some ModeOrdered
     else if m = lit ''parallel'' then Some ModeParallel else None)"

datatype newError = UnsupportedMode gotext | NoLanes | NilLane nat

definition newOrchestrator :: "gotext \<Rightarrow> Lane option list \<Rightarrow> newError + Orchestrator" where
  "newOrchestrator mode lanes =
     (case parseMode mode of None \<Rightarrow> Inl (UnsupportedMode mode)
      | Some md \<Rightarrow>
         (if lanes = [] then Inl NoLanes
          else case List.find (\<lambda>i. lanes ! i = None) [0 ..< length lanes] of
                 Some i \<Rightarrow> Inl (NilLane i)
               | None \<Rightarrow> Inr \<lparr>o_lanes = map the lanes, o_guard = None, o_mode = md,
                    o_raceWait = DefaultRaceWait, o_minCommit = QualityNone, o_blocks = None\<rparr>))"

definition SetGuard :: "ScriptGuard option \<Rightarrow> Orchestrator \<Rightarrow> Orchestrator" where
  "SetGuard g orc = orc\<lparr>o_guard := g\<rparr>"

definition SetBlockChecker :: "BlockChecker option \<Rightarrow> Orchestrator \<Rightarrow> Orchestrator" where
  "SetBlockChecker c orc = orc\<lparr>o_blocks := c\<rparr>"

definition LaneNames :: "Orchestrator \<Rightarrow> gotext list" where
  "LaneNames orc = map lname (o_lanes orc)"

definition SetRaceWait :: "duration \<Rightarrow> Orchestrator \<Rightarrow> Orchestrator" where
  "SetRaceWait d orc = (if d \<le> 0 then orc else orc\<lparr>o_raceWait := d\<rparr>)"

text \<open>\<open>None\<close> is the rejected gate; a quality outside the range does not exist in the datatype.\<close>

definition SetMinCommitQuality :: "Quality \<Rightarrow> Orchestrator \<Rightarrow> Orchestrator option" where
  "SetMinCommitQuality q orc =
     (if o_mode orc = ModeParallel \<and> q > QualityNone then None else Some (orc\<lparr>o_minCommit := q\<rparr>))"

definition isWordNoMatch :: "goerr option \<Rightarrow> bool" where
  "isWordNoMatch err = (case err of None \<Rightarrow> False | Some e \<Rightarrow> mxmIsNoMatch e \<or> petitIsNoMatch e)"

definition wordAnswerFor :: "int \<Rightarrow> Orchestrator \<Rightarrow> WordAnswer" where
  "wordAnswerFor n orc =
     (let lanes = int (length (filter laneWordCapable (o_lanes orc)))
      in if lanes > 0 \<and> n = lanes then WordAnswerAbsent else WordAnswerUnknown)"

definition answersWord :: "bool \<Rightarrow> Song \<Rightarrow> goerr option \<Rightarrow> bool" where
  "answersWord wordCapable song err \<longleftrightarrow>
     wordCapable \<and> (isWordNoMatch err \<or> err = None \<and> WordAns song \<noteq> WordAnswerUnknown)"

definition ungatedWordAnswer :: "WordAnswer \<Rightarrow> int \<Rightarrow> Orchestrator \<Rightarrow> WordAnswer" where
  "ungatedWordAnswer a n orc = (if a \<noteq> WordAnswerAbsent then a else wordAnswerFor n orc)"

record attemptedLane =
  at_name :: gotext
  at_local :: bool

definition laneAttemptsFor :: "attemptedLane list \<Rightarrow> gotext \<Rightarrow> LaneAttempt list" where
  "laneAttemptsFor attempted winner =
     map (\<lambda>a. \<lparr>la_Lane = at_name a, la_Hit = (at_name a = winner), la_Local = at_local a\<rparr>) attempted"

record dispatchResult =
  bestSong :: Song
  bestLane :: gotext
  haveBest :: bool
  bestQuality :: Quality
  topErr :: "goerr option"
  topClass :: OutcomeClass
  hollowErr :: "goerr option"
  consulted :: int
  heldSong :: Song
  heldLane :: gotext
  haveHeld :: bool
  bestRefused :: bool
  untriedErr :: "goerr option"
  failedErr :: "goerr option"
  untriedLane :: gotext
  gatedSong :: Song
  gatedLane :: gotext
  gatedQuality :: Quality
  haveGated :: bool
  wordAnswered :: int
  answered :: bool
  blockedSeen :: bool
  unbounded :: bool
  asked :: bool
  skipped :: bool

definition zeroResult :: dispatchResult where
  "zeroResult = \<lparr>bestSong = zeroSong, bestLane = [], haveBest = False, bestQuality = QualityNone,
     topErr = None, topClass = OutcomeSuccess, hollowErr = None, consulted = 0, heldSong = zeroSong,
     heldLane = [], haveHeld = False, bestRefused = False, untriedErr = None, failedErr = None,
     untriedLane = [], gatedSong = zeroSong, gatedLane = [], gatedQuality = QualityNone,
     haveGated = False, wordAnswered = 0, answered = False, blockedSeen = False, unbounded = False,
     asked = False, skipped = False\<rparr>"

definition consult :: "bool \<Rightarrow> dispatchResult \<Rightarrow> dispatchResult" where
  "consult loc r = r\<lparr>consulted := consulted r + 1, asked := asked r \<or> \<not> loc\<rparr>"

definition noProviderAsked :: "dispatchResult \<Rightarrow> bool" where
  "noProviderAsked r \<longleftrightarrow> consulted r = 0 \<or> (\<not> asked r \<and> skipped r)"

definition gateSong :: "Song \<Rightarrow> gotext \<Rightarrow> Quality \<Rightarrow> dispatchResult \<Rightarrow> dispatchResult" where
  "gateSong song lane q r =
     (if \<not> haveGated r \<or> q > gatedQuality r
      then r\<lparr>gatedSong := song, gatedLane := lane, gatedQuality := q, haveGated := True\<rparr> else r)"

definition isTruncated :: "goerr option \<Rightarrow> bool" where
  "isTruncated err = (case err of None \<Rightarrow> False | Some e \<Rightarrow> errorsIs e MxmTruncatedResponse)"

definition noteUntried :: "goerr option \<Rightarrow> OutcomeClass \<Rightarrow> gotext \<Rightarrow> bool \<Rightarrow> dispatchResult \<Rightarrow> dispatchResult" where
  "noteUntried err class lane instOnly r =
     (if instOnly then r
      else let r = r\<lparr>answered := answered r \<or> (class = OutcomeBenignMiss \<and> \<not> isTruncated err),
                     skipped := skipped r \<or> class = OutcomeUnavailable\<rparr>
           in if class \<in> {OutcomeUnavailable, OutcomeAuthRateLimit, OutcomeLaneNotReady}
              then (if untriedErr r = None then r\<lparr>untriedErr := err, untriedLane := lane\<rparr> else r)
              else if class = OutcomeTransport
              then (if failedErr r = None \<and> \<not> isCanceled err then r\<lparr>failedErr := err\<rparr> else r)
              else r)"

definition noteTransport :: "OutcomeClass \<Rightarrow> bool \<Rightarrow> dispatchResult \<Rightarrow> dispatchResult" where
  "noteTransport class isOpen r = r\<lparr>unbounded := unbounded r \<or> (class = OutcomeTransport \<and> \<not> isOpen)\<rparr>"

definition retain :: "Song \<Rightarrow> gotext \<Rightarrow> Quality \<Rightarrow> dispatchResult \<Rightarrow> bool \<times> dispatchResult" where
  "retain song lane q r =
     (if \<not> haveBest r \<or> q > bestQuality r
      then (True, r\<lparr>bestSong := song, bestQuality := q, haveBest := True, bestLane := lane\<rparr>)
      else (False, r))"

definition retainCandidate :: "Song \<Rightarrow> gotext \<Rightarrow> Quality \<Rightarrow> candidate \<Rightarrow> dispatchResult \<Rightarrow> dispatchResult" where
  "retainCandidate song lane q kind r =
     (let (kept, r) = retain song lane q r
      in if kept then r\<lparr>bestRefused := (kind = candidateRefused)\<rparr> else r)"

definition hold :: "Song \<Rightarrow> gotext \<Rightarrow> dispatchResult \<Rightarrow> dispatchResult" where
  "hold song lane r = (if \<not> haveHeld r then r\<lparr>heldSong := song, heldLane := lane, haveHeld := True\<rparr> else r)"

definition rankErr :: "goerr \<Rightarrow> OutcomeClass \<Rightarrow> dispatchResult \<Rightarrow> dispatchResult" where
  "rankErr err class r =
     (let hollow = errorsIs err MxmTruncatedResponse;
          r = (if hollow \<and> hollowErr r = None then r\<lparr>hollowErr := Some err\<rparr> else r);
          r = (if topErr r = None \<or> precedence class > precedence (topClass r)
               then r\<lparr>topErr := Some err, topClass := class\<rparr>
               else if class = topClass r \<and> class = OutcomeBenignMiss \<and> hollow \<and> \<not> isTruncated (topErr r)
               then r\<lparr>topErr := Some err\<rparr> else r)
      in if hollowErr r \<noteq> None \<and> precedence (topClass r) > precedence OutcomeBenignMiss
              \<and> precedence (topClass r) \<le> precedence OutcomeLaneOutage
         then r\<lparr>topErr := hollowErr r, topClass := OutcomeBenignMiss\<rparr> else r)"

definition won :: "Song \<Rightarrow> gotext \<Rightarrow> Song" where
  "won song lane = song\<lparr>WinningLane := lane\<rparr>"

text \<open>The shared tail of \<open>resolve\<close>: the ranked error, if any.\<close>

definition resolveError :: "dispatchResult \<Rightarrow> Song \<times> goerr option" where
  "resolveError r =
     (case topErr r of
        Some e \<Rightarrow> (if topClass r = OutcomeTransport \<and> answered r \<and> \<not> unbounded r
                  then (zeroSong, Some (PartialFailureError e)) else (zeroSong, Some e))
      | None \<Rightarrow> (zeroSong, Some (Sentinel ErrLaneUnavailable)))"

definition resolve :: "Orchestrator \<Rightarrow> goerr option \<Rightarrow> dispatchResult \<Rightarrow> Song \<times> goerr option" where
  "resolve orc ctxErr r =
     (if haveGated r \<and> (\<not> haveHeld r \<or> gatedQuality r \<ge> QualityUnsynced)
        then (won (gatedSong r) (gatedLane r), None)
      else if haveHeld r then (won (heldSong r) (heldLane r), None)
      else if haveBest r \<and> bestRefused r \<and> untriedErr r \<noteq> None
        then (won (bestSong r) (bestLane r),
              Some (RefusedUntriedError (untriedLane r) (errText (the (untriedErr r))) False))
      else if haveBest r then (won (bestSong r) (bestLane r), None)
      else if noProviderAsked r \<and> o_lanes orc \<noteq> []
        then (case ctxErr of Some e \<Rightarrow> (zeroSong, Some e)
              | None \<Rightarrow> if consulted r > 0 then (zeroSong, Some (Sentinel ErrNoProviderAsked))
                        else (zeroSong, Some (Sentinel ErrLaneUnavailable)))
      else if blockedSeen r
        then (if failedErr r \<noteq> None
                then resolveError (r\<lparr>topErr := failedErr r, topClass := OutcomeTransport\<rparr>)
              else if untriedErr r \<noteq> None
                then (zeroSong, Some (RefusedUntriedError (untriedLane r) (errText (the (untriedErr r))) True))
              else if hollowErr r = None \<and> (topErr r = None \<or> topClass r = OutcomeBenignMiss \<or> topClass r = OutcomeLaneOutage)
                then (zeroSong, Some (Sentinel ErrAllResultsBlocked))
              else resolveError r)
      else resolveError r)"

section \<open>Ordered dispatch\<close>

text \<open>The bookkeeping of one answer, before it is looked at: untried lanes and word answers.\<close>

definition noted :: "Lane \<Rightarrow> Song \<Rightarrow> goerr option \<Rightarrow> dispatchResult \<Rightarrow> dispatchResult" where
  "noted lane song err r =
     (let r = noteUntried err (ClassifyOutcome err) (lname lane) (instrumentalOnly lane) r
      in if answersWord (laneWordCapable lane) song err then r\<lparr>wordAnswered := wordAnswered r + 1\<rparr> else r)"

definition attempt :: "Lane \<Rightarrow> attemptedLane" where
  "attempt lane = \<lparr>at_name = lname lane, at_local = llocal lane\<rparr>"

text \<open>A committed song with its attribution and the word answer of the dispatch.\<close>

definition commitSong :: "Orchestrator \<Rightarrow> Lane \<Rightarrow> Song \<Rightarrow> int \<Rightarrow> attemptedLane list \<Rightarrow> Song" where
  "commitSong orc lane song n attempted =
     (let song = song\<lparr>WinningLane := lname lane, LaneAttempts := laneAttemptsFor attempted (lname lane)\<rparr>;
          song = (if o_minCommit orc > QualityNone \<and> WordAns song \<noteq> WordAnswerServed
                  then song\<lparr>WordAns := wordAnswerFor n orc\<rparr> else song)
      in song\<lparr>WordAns := ungatedWordAnswer (WordAns song) n orc\<rparr>)"

text \<open>
  What the loop does with a song of one lane: end the dispatch with it (\<open>Inl\<close>), or go on with
  the accumulated result and the lanes attempted so far.
\<close>

definition orderedSong :: "Orchestrator \<Rightarrow> blockIdentity \<Rightarrow> Track \<Rightarrow> Lane \<Rightarrow> Song \<Rightarrow> dispatchResult
    \<Rightarrow> attemptedLane list \<Rightarrow> Song + dispatchResult \<times> attemptedLane list" where
  "orderedSong orc ctx track lane song r attempted =
     (let attempted' = attempted @ [attempt lane]
      in case classifyCandidate ctx song track (o_guard orc) (o_blocks orc) of
           candidateBlocked \<Rightarrow>
             Inr (if answersWord (laneWordCapable lane) song None
                  then r\<lparr>blockedSeen := True, wordAnswered := wordAnswered r - 1\<rparr> else r\<lparr>blockedSeen := True\<rparr>, attempted)
         | candidateCommit \<Rightarrow>
             (if \<not> haveHeld r \<or> landedQuality song track > QualityUnsynced
              then (if gateQuality song < o_minCommit orc
                    then Inr (gateSong song (lname lane) (landedQuality song track) r, attempted')
                    else Inl (commitSong orc lane song (wordAnswered r) attempted'))
              else Inr (r, attempted'))
         | candidateHold \<Rightarrow> Inr (hold song (lname lane) r, attempted')
         | candidateRetain \<Rightarrow> Inr (retainCandidate song (lname lane) (retainQuality song track) candidateRetain r, attempted')
         | candidateRefused \<Rightarrow> Inr (retainCandidate song (lname lane) (retainQuality song track) candidateRefused r, attempted'))"

definition orderedAnswer :: "Orchestrator \<Rightarrow> blockIdentity \<Rightarrow> Track \<Rightarrow> Lane \<Rightarrow> bool \<Rightarrow> Song \<times> goerr option
    \<Rightarrow> dispatchResult \<Rightarrow> attemptedLane list \<Rightarrow> Song + dispatchResult \<times> attemptedLane list" where
  "orderedAnswer orc ctx track lane isOpen res r attempted =
     (case res of (song, err) \<Rightarrow>
        (let class = ClassifyOutcome err; r = noted lane song err r
         in if class = OutcomeUnavailable then Inr (r, attempted)
            else let r = consult (llocal lane) r
                 in case err of
                      Some e \<Rightarrow> Inr (rankErr e class (noteTransport class isOpen r), attempted @ [attempt lane])
                    | None \<Rightarrow> orderedSong orc ctx track lane song r attempted))"

datatype loopEnd = Committed Song | Canceled goerr | Exhausted dispatchResult "attemptedLane list"

text \<open>
  The loop. Each lane comes with its environment and the value of \<open>ctx.Err()\<close> before it; the
  lanes after the end of the loop are returned as they were.
\<close>

fun orderedLoop :: "(gotext \<Rightarrow> gotext) \<Rightarrow> Orchestrator \<Rightarrow> blockIdentity \<Rightarrow> Track \<Rightarrow> gotext
    \<Rightarrow> (Lane \<times> LaneEnv \<times> goerr option) list \<Rightarrow> dispatchResult \<Rightarrow> attemptedLane list \<Rightarrow> World
    \<Rightarrow> loopEnd \<times> Lane list \<times> World" where
  "orderedLoop nkey orc ctx track path [] r attempted w = (Exhausted r attempted, [], w)"
| "orderedLoop nkey orc ctx track path ((lane, env, ce) # rest) r attempted w =
     (case ce of
        Some e \<Rightarrow> (Canceled e, lane # map fst rest, w)
      | None \<Rightarrow>
          (if (haveHeld r \<or> haveGated r) \<and> instrumentalOnly lane
           then (let (fin, lanes, w') = orderedLoop nkey orc ctx track path rest r attempted w in (fin, lane # lanes, w'))
           else let (res, lane', w') = laneFindLyrics nkey env track path lane w
                in case orderedAnswer orc ctx track lane' (laneOpen (tRead env) lane') res r attempted of
                     Inl song \<Rightarrow> (Committed song, lane' # map fst rest, w')
                   | Inr (r', attempted') \<Rightarrow>
                       (let (fin, lanes, w'') = orderedLoop nkey orc ctx track path rest r' attempted' w'
                        in (fin, lane' # lanes, w''))))"

definition orderedFinish :: "Orchestrator \<Rightarrow> goerr option \<Rightarrow> loopEnd \<Rightarrow> Song \<times> goerr option" where
  "orderedFinish orc ctxErr fin =
     (case fin of
        Committed song \<Rightarrow> (song, None)
      | Canceled e \<Rightarrow> (zeroSong, Some e)
      | Exhausted r attempted \<Rightarrow>
          (let (song, err) = resolve orc ctxErr r;
               song = song\<lparr>LaneAttempts := laneAttemptsFor attempted (WinningLane song)\<rparr>;
               song = (if o_minCommit orc > QualityNone then song\<lparr>WordAns := wordAnswerFor (wordAnswered r) orc\<rparr> else song)
           in (song\<lparr>WordAns := ungatedWordAnswer (WordAns song) (wordAnswered r) orc\<rparr>, err)))"

definition findOrdered :: "(gotext \<Rightarrow> gotext) \<Rightarrow> Orchestrator \<Rightarrow> blockIdentity \<Rightarrow> Track \<Rightarrow> gotext
    \<Rightarrow> (LaneEnv \<times> goerr option) list \<Rightarrow> goerr option \<Rightarrow> World
    \<Rightarrow> (Song \<times> goerr option) \<times> Orchestrator \<times> World" where
  "findOrdered nkey orc ctx track path envs ctxErr w =
     (let (fin, lanes, w') = orderedLoop nkey orc ctx track path (zip (o_lanes orc) envs) zeroResult [] w
      in (orderedFinish orc ctxErr fin, orc\<lparr>o_lanes := lanes\<rparr>, w'))"

section \<open>Views and invariants\<close>

text \<open>The songs a dispatch result keeps, and the predicate that all of them satisfy.\<close>

definition keptView :: "dispatchResult \<Rightarrow> (bool \<times> Song \<times> gotext) \<times> (bool \<times> Song \<times> gotext) \<times> (bool \<times> Song \<times> gotext \<times> Quality)" where
  "keptView r = ((haveBest r, bestSong r, bestLane r), (haveHeld r, heldSong r, heldLane r),
     (haveGated r, gatedSong r, gatedLane r, gatedQuality r))"

definition keptAll :: "(Song \<Rightarrow> gotext \<Rightarrow> bool) \<Rightarrow> dispatchResult \<Rightarrow> bool" where
  "keptAll P r \<longleftrightarrow> (haveBest r \<longrightarrow> P (bestSong r) (bestLane r)) \<and> (haveHeld r \<longrightarrow> P (heldSong r) (heldLane r))
     \<and> (haveGated r \<longrightarrow> P (gatedSong r) (gatedLane r))"

text \<open>What the attribution fields leave of a song.\<close>

definition content :: "Song \<Rightarrow> Song" where
  "content song = song\<lparr>WinningLane := [], LaneAttempts := [], WordAns := WordAnswerUnknown\<rparr>"

text \<open>A held song is a lyric the writer lands as plain text; the gated rank is what lands.\<close>

definition landing_ok :: "Track \<Rightarrow> dispatchResult \<Rightarrow> bool" where
  "landing_ok track r \<longleftrightarrow> (haveHeld r \<longrightarrow> landedQuality (heldSong r) track \<ge> QualityUnsynced)
     \<and> (haveGated r \<longrightarrow> gatedQuality r = landedQuality (gatedSong r) track)"

text \<open>Concrete lanes, answers and songs for the examples.\<close>

definition exLane :: "gotext \<Rightarrow> Lane" where "exLane name = NewProviderLane name exBreaker None"
definition exAnswer :: "Song \<Rightarrow> LaneEnv" where "exAnswer song = (exEnv (Opaque []))\<lparr>ask := \<lambda>_. (song, None)\<rparr>"
definition exWords :: Song where "exWords = zeroSong\<lparr>LyricsBody := lit ''la''\<rparr>"
definition exFlat :: Song where "exFlat = zeroSong\<lparr>Subtitles := [cueAt ''a'' 0, cueAt ''b'' 0]\<rparr>"
definition exTrack :: Track where "exTrack = zeroTrack\<lparr>TrackLength := 60\<rparr>"
definition exOrc :: "Lane list \<Rightarrow> Orchestrator" where
  "exOrc lanes = \<lparr>o_lanes = lanes, o_guard = None, o_mode = ModeOrdered, o_raceWait = DefaultRaceWait,
     o_minCommit = QualityNone, o_blocks = None\<rparr>"

section \<open>First-best accumulators\<close>

text \<open>
  The fallback and the below-gate candidate are kept by one rule: a result replaces the kept one
  just when it ranks strictly higher, so the earliest of the best is kept. \<open>upd\<close> offers one
  result, \<open>sel\<close> reads what is kept, with its rank.
\<close>

locale first_best =
  fixes upd :: "'a \<Rightarrow> ('r::linorder) \<Rightarrow> 's \<Rightarrow> 's" and sel :: "'s \<Rightarrow> ('a \<times> 'r) option"
  assumes upd_none: "sel s = None \<Longrightarrow> sel (upd a q s) = Some (a, q)"
    and upd_better: "sel s = Some (b, p) \<Longrightarrow> p < q \<Longrightarrow> sel (upd a q s) = Some (a, q)"
    and upd_worse: "sel s = Some (b, p) \<Longrightarrow> q \<le> p \<Longrightarrow> sel (upd a q s) = Some (b, p)"
begin

lemma fold_some:
  "sel s = Some (b, p) \<Longrightarrow>
     sel (fold (\<lambda>(a, q). upd a q) xs s) =
       List.find (\<lambda>(a, q). q = Max (insert p (snd ` set xs))) ((b, p) # xs)"
proof (induction xs arbitrary: s b p)
  case Nil
  then show ?case by simp
next
  case (Cons x xs)
  obtain a q where x: "x = (a, q)" by (cases x)
  show ?case
  proof (cases "p < q")
    case True
    have m: "Max (insert p (insert q (snd ` set xs))) = Max (insert q (snd ` set xs))"
    proof -
      have "p \<le> Max (insert q (snd ` set xs))"
        by (rule order_trans [OF less_imp_le [OF True]]) (rule Max_ge; simp)
      then show ?thesis by (simp add: max_def)
    qed
    have "p \<noteq> Max (insert q (snd ` set xs))" using True Max_ge [of "insert q (snd ` set xs)" q] by auto
    then show ?thesis using Cons.IH [OF upd_better [OF Cons.prems True, of a]] by (simp add: x m)
  next
    case False
    then have le: "q \<le> p" by simp
    have m: "Max (insert p (insert q (snd ` set xs))) = Max (insert p (snd ` set xs))"
      using le by (cases "snd ` set xs = {}") (simp_all add: max.absorb1 max.assoc [symmetric])
    have "q \<noteq> Max (insert p (snd ` set xs)) \<or> p = Max (insert p (snd ` set xs))"
    proof -
      have "p \<le> Max (insert p (snd ` set xs))" by (rule Max_ge; simp)
      then show ?thesis using le by (metis order_antisym)
    qed
    then show ?thesis using Cons.IH [OF upd_worse [OF Cons.prems le, of a]] by (auto simp: x m)
  qed
qed

text \<open>From nothing kept: the first of the highest-ranked results offered.\<close>

lemma fold_none:
  assumes "sel s = None" "xs \<noteq> []"
  shows "sel (fold (\<lambda>(a, q). upd a q) xs s) = List.find (\<lambda>(a, q). q = Max (snd ` set xs)) xs"
proof -
  obtain a q ys where xs: "xs = (a, q) # ys" using assms(2) by (cases xs) auto
  have "sel (upd a q s) = Some (a, q)" by (rule upd_none [OF assms(1)])
  from fold_some [OF this, of ys] show ?thesis by (simp add: xs)
qed

end

definition keptBest :: "dispatchResult \<Rightarrow> ((Song \<times> gotext) \<times> Quality) option" where
  "keptBest r = (if haveBest r then Some ((bestSong r, bestLane r), bestQuality r) else None)"

definition keptGated :: "dispatchResult \<Rightarrow> ((Song \<times> gotext) \<times> Quality) option" where
  "keptGated r = (if haveGated r then Some ((gatedSong r, gatedLane r), gatedQuality r) else None)"

interpretation best: first_best "\<lambda>(song, lane) q r. snd (retain song lane q r)" keptBest
  by unfold_locales (auto simp: retain_def keptBest_def split: if_splits)

interpretation gated: first_best "\<lambda>(song, lane). gateSong song lane" keptGated
  by unfold_locales (auto simp: gateSong_def keptGated_def split: if_splits)

section \<open>Lemmas\<close>

lemma orderedLoop_commit_append:
  "orderedLoop nkey orc ctx track path xs r a w = (Committed song, ls, w') \<Longrightarrow>
   orderedLoop nkey orc ctx track path (xs @ ys) r a w = (Committed song, ls @ map fst ys, w')"
proof (induction xs arbitrary: r a w ls)
  case (Cons x xs)
  obtain lane env ce where x: "x = (lane, env, ce)" by (metis surj_pair)
  show ?case using Cons.prems Cons.IH unfolding x
    by (auto simp: Let_def split: option.splits if_splits prod.splits sum.splits)
qed simp

lemma orderedLoop_exhaust_append:
  "orderedLoop nkey orc ctx track path xs r a w = (Exhausted r1 a1, ls, w1) \<Longrightarrow>
   orderedLoop nkey orc ctx track path (xs @ ys) r a w =
     (let (fin, ls', w') = orderedLoop nkey orc ctx track path ys r1 a1 w1 in (fin, ls @ ls', w'))"
proof (induction xs arbitrary: r a w ls)
  case (Cons x xs)
  obtain lane env ce where x: "x = (lane, env, ce)" by (metis surj_pair)
  show ?case using Cons.prems Cons.IH unfolding x
    by (auto simp: Let_def split: option.splits if_splits prod.splits sum.splits)
qed simp

lemma keptView_frame [simp]:
  "keptView (noteUntried err class lane io r) = keptView r"
  "keptView (noteTransport class o' r) = keptView r"
  "keptView (consult loc r) = keptView r"
  "keptView (rankErr e class r) = keptView r"
  "keptView (r\<lparr>wordAnswered := n\<rparr>) = keptView r"
  "keptView (r\<lparr>blockedSeen := True\<rparr>) = keptView r"
  by (auto simp: keptView_def noteUntried_def noteTransport_def consult_def rankErr_def Let_def)

lemma keptAll_view: "keptView r = keptView r' \<Longrightarrow> keptAll P r = keptAll P r'"
  by (auto simp: keptView_def keptAll_def)

lemma landing_view: "keptView r = keptView r' \<Longrightarrow> landing_ok t r = landing_ok t r'"
  by (auto simp: keptView_def landing_ok_def)

lemma keptAll_offer:
  "keptAll P r \<Longrightarrow> P song lane \<Longrightarrow> keptAll P (retainCandidate song lane q kind r)"
  "keptAll P r \<Longrightarrow> P song lane \<Longrightarrow> keptAll P (hold song lane r)"
  "keptAll P r \<Longrightarrow> P song lane \<Longrightarrow> keptAll P (gateSong song lane q r)"
  by (auto simp: keptAll_def retainCandidate_def retain_def hold_def gateSong_def Let_def)

lemma keptView_noted [simp]: "keptView (noted lane song err r) = keptView r"
  by (auto simp: noted_def Let_def)

lemma classifyCandidate_blocked: "classifyCandidate ctx song track g b = candidateBlocked \<longleftrightarrow> isBlocked b ctx song"
  by (auto simp: classifyCandidate_def split: PromotionDecision.splits)

lemma orderedSong_kept:
  assumes "keptAll P r" and "\<not> isBlocked (o_blocks orc) ctx song \<Longrightarrow> P song (lname lane)"
    and "orderedSong orc ctx track lane song r attempted = Inr (r', attempted')"
  shows "keptAll P r'"
proof -
  have "keptAll P (r\<lparr>blockedSeen := True\<rparr>)" "keptAll P (r\<lparr>blockedSeen := True, wordAnswered := n\<rparr>)" for n
    using assms(1) by (simp_all add: keptAll_def)
  moreover have "classifyCandidate ctx song track (o_guard orc) (o_blocks orc) \<noteq> candidateBlocked \<Longrightarrow> P song (lname lane)"
    using assms(2) classifyCandidate_blocked by blast
  ultimately show ?thesis using assms(1,3)
    by (auto simp: orderedSong_def Let_def keptAll_offer split: candidate.splits if_splits)
qed

lemma orderedAnswer_kept:
  assumes "keptAll P r" and "\<And>song. res = (song, None) \<Longrightarrow> \<not> isBlocked (o_blocks orc) ctx song \<Longrightarrow> P song (lname lane)"
    and "orderedAnswer orc ctx track lane isOpen res r attempted = Inr (r', attempted')"
  shows "keptAll P r'"
proof -
  obtain song err where res: "res = (song, err)" by (cases res)
  let ?r = "consult (llocal lane) (noted lane song err r)"
  have kv: "keptAll P x" if "keptView x = keptView r" for x using that assms(1) keptAll_view by blast
  have base: "keptAll P (noted lane song err r)" "keptAll P ?r"
    "\<And>e c c' o'. keptAll P (rankErr e c (noteTransport c' o' ?r))"
    by (rule kv; simp)+
  show ?thesis
    using assms(3) base orderedSong_kept [OF base(2), of orc ctx song lane track attempted r' attempted'] assms(2)
    by (auto simp: orderedAnswer_def res Let_def split: if_splits option.splits)
qed

text \<open>
  Invariant rule of the loop. \<open>I\<close> relates the lanes passed so far with the accumulated result;
  a commit happens at some lane in a state that satisfies it.
\<close>

lemma orderedLoop_rule:
  assumes step: "\<And>passed lane env r a w res lane' w' r' a'. I passed r a \<Longrightarrow>
      laneFindLyrics nkey env track path lane w = (res, lane', w') \<Longrightarrow>
      orderedAnswer orc ctx track lane' (laneOpen (tRead env) lane') res r a = Inr (r', a') \<Longrightarrow> I (passed @ [lane]) r' a'"
    and skip: "\<And>passed lane r a. I passed r a \<Longrightarrow> I (passed @ [lane]) r a"
    and run: "orderedLoop nkey orc ctx track path xs r a w = (fin, ls, w')" and init: "I passed r a"
  shows "case fin of
      Exhausted r' a' \<Rightarrow> I (passed @ map fst xs) r' a'
    | Canceled e \<Rightarrow> True
    | Committed song \<Rightarrow> \<exists>pre lane env ce post r1 a1 w1 res lane' w2. xs = pre @ (lane, env, ce) # post
        \<and> I (passed @ map fst pre) r1 a1 \<and> laneFindLyrics nkey env track path lane w1 = (res, lane', w2)
        \<and> orderedAnswer orc ctx track lane' (laneOpen (tRead env) lane') res r1 a1 = Inl song"
  using run init
proof (induction xs arbitrary: passed r a w ls)
  case Nil
  then show ?case by auto
next
  case (Cons x xs)
  obtain lane env ce where x: "x = (lane, env, ce)" by (metis surj_pair)
  have grow: "case fin of Exhausted r' a' \<Rightarrow> I (passed @ map fst (x # xs)) r' a' | Canceled e \<Rightarrow> True
    | Committed song \<Rightarrow> \<exists>pre lane env ce post r1 a1 w1 res lane' w2. x # xs = pre @ (lane, env, ce) # post
        \<and> I (passed @ map fst pre) r1 a1 \<and> laneFindLyrics nkey env track path lane w1 = (res, lane', w2)
        \<and> orderedAnswer orc ctx track lane' (laneOpen (tRead env) lane') res r1 a1 = Inl song"
    if "orderedLoop nkey orc ctx track path xs r1 a1 w1 = (fin, ls1, w')" "I (passed @ [lane]) r1 a1" for r1 a1 w1 ls1
  proof (cases fin)
    case (Committed song)
    with Cons.IH [OF that] obtain pre l e c post r1 a1 w1 res l' w2 where "xs = pre @ (l, e, c) # post"
      "I ((passed @ [lane]) @ map fst pre) r1 a1" "laneFindLyrics nkey e track path l w1 = (res, l', w2)"
      "orderedAnswer orc ctx track l' (laneOpen (tRead e) l') res r1 a1 = Inl song" by auto
    then have "x # xs = (x # pre) @ (l, e, c) # post \<and> I (passed @ map fst (x # pre)) r1 a1
        \<and> laneFindLyrics nkey e track path l w1 = (res, l', w2)
        \<and> orderedAnswer orc ctx track l' (laneOpen (tRead e) l') res r1 a1 = Inl song" by (simp add: x)
    then show ?thesis unfolding Committed loopEnd.case by blast
  qed (use Cons.IH [OF that] in \<open>auto simp: x\<close>)
  show ?case
  proof (cases ce)
    case (Some e)
    then show ?thesis using Cons.prems by (auto simp: x)
  next
    case None
    show ?thesis
    proof (cases "(haveHeld r \<or> haveGated r) \<and> instrumentalOnly lane")
      case True
      obtain ls1 where "orderedLoop nkey orc ctx track path xs r a w = (fin, ls1, w')"
        using Cons.prems(1) x None True by (auto split: prod.splits)
      then show ?thesis using grow skip [OF Cons.prems(2)] by blast
    next
      case False
      obtain res lane' w1 where f: "laneFindLyrics nkey env track path lane w = (res, lane', w1)" by (metis surj_pair)
      show ?thesis
      proof (cases "orderedAnswer orc ctx track lane' (laneOpen (tRead env) lane') res r a")
        case (Inl song)
        then have fin: "fin = Committed song" using Cons.prems(1) x None False f by auto
        have "x # xs = [] @ (lane, env, ce) # xs \<and> I (passed @ map fst []) r a" using Cons.prems(2) x by simp
        then show ?thesis using Inl f unfolding fin loopEnd.case by blast
      next
        case (Inr ra)
        obtain r1 a1 where ra: "ra = (r1, a1)" by (cases ra)
        obtain ls1 where "orderedLoop nkey orc ctx track path xs r1 a1 w1 = (fin, ls1, w')"
          using Cons.prems(1) x None False f Inr ra by (auto split: prod.splits)
        then show ?thesis using grow step [OF Cons.prems(2) f Inr [unfolded ra]] by blast
      qed
    qed
  qed
qed

lemma orderedSong_Inl:
  "orderedSong orc ctx track lane song r attempted = Inl s \<Longrightarrow>
     s = commitSong orc lane song (wordAnswered r) (attempted @ [attempt lane])
   \<and> classifyCandidate ctx song track (o_guard orc) (o_blocks orc) = candidateCommit
   \<and> (\<not> haveHeld r \<or> landedQuality song track > QualityUnsynced) \<and> \<not> gateQuality song < o_minCommit orc"
  by (auto simp: orderedSong_def Let_def split: candidate.splits if_splits)

lemma orderedAnswer_Inl:
  "orderedAnswer orc ctx track lane isOpen res r attempted = Inl s \<Longrightarrow>
     \<exists>song. res = (song, None) \<and> orderedSong orc ctx track lane song (consult (llocal lane) (noted lane song None r)) attempted = Inl s"
  by (auto simp: orderedAnswer_def Let_def split: prod.splits if_splits option.splits)

lemma content_commit [simp]: "content (commitSong orc lane song n a) = content song"
  by (simp add: commitSong_def content_def Let_def)

lemma content_won [simp]: "content (won song lane) = content song"
  by (simp add: won_def content_def)

lemma resolve_kept:
  assumes "keptAll P r" "resolve orc ce r = (song, err)"
  shows "song = zeroSong \<and> err \<noteq> None \<or> (\<exists>s l. P s l \<and> song = won s l)"
proof -
  have tail: "fst (resolveError x) = zeroSong \<and> snd (resolveError x) \<noteq> None" for x
    by (auto simp: resolveError_def split: option.split)
  show ?thesis using assms tail unfolding resolve_def keptAll_def
    by (auto simp: prod_eq_iff split: if_splits option.splits)
qed

lemma Stamp_content: "content (StampBlockIdentity ctx s) = StampBlockIdentity ctx (content s)"
  by (auto simp: StampBlockIdentity_def content_def split: option.split)

lemma isBlocked_content:
  "\<forall>s. f s = f (content s) \<Longrightarrow> content a = content b \<Longrightarrow> isBlocked (Some f) ctx a = isBlocked (Some f) ctx b"
  by (simp add: isBlocked_def) (metis Stamp_content)

lemma orderedFinish_song:
  assumes "orderedFinish orc ce fin = (song, err)"
  shows "case fin of Committed s \<Rightarrow> song = s \<and> err = None
    | Canceled e \<Rightarrow> song = zeroSong \<and> err = Some e
    | Exhausted r a \<Rightarrow> \<exists>s. resolve orc ce r = (s, err) \<and> content song = content s
        \<and> WinningLane song = WinningLane s \<and> LaneAttempts song = laneAttemptsFor a (WinningLane s)
        \<and> (\<exists>wa. song = s\<lparr>LaneAttempts := laneAttemptsFor a (WinningLane s), WordAns := wa\<rparr>)"
  using assms by (cases fin) (auto simp: orderedFinish_def content_def Let_def split: prod.splits if_splits)

lemma findOrdered_loop:
  assumes "findOrdered nkey orc ctx track path envs ce w = ((song, err), orc', w')"
  obtains fin ls where "orderedLoop nkey orc ctx track path (zip (o_lanes orc) envs) zeroResult [] w = (fin, ls, w')"
    "orderedFinish orc ce fin = (song, err)" "orc' = orc\<lparr>o_lanes := ls\<rparr>"
  using assms by (auto simp: findOrdered_def split: prod.splits)

lemma keptAll_zero [simp]: "keptAll P zeroResult"
  by (simp add: keptAll_def zeroResult_def)

lemma landing_zero [simp]: "landing_ok t zeroResult"
  by (simp add: landing_ok_def zeroResult_def)

lemma classify_hold: "classifyCandidate ctx song track g b = candidateHold \<Longrightarrow> landedQuality song track = QualityUnsynced"
  by (auto simp: classifyCandidate_def landedQuality_def retainQuality_def timingDecision_def judgeAgainst_def
      DecidePromotion_def split: PromotionDecision.splits if_splits)

lemma haveHeld_view: "keptView r = keptView r' \<Longrightarrow> haveHeld r = haveHeld r'"
  by (simp add: keptView_def)

lemma orderedSong_landing:
  assumes "landing_ok track r" "orderedSong orc ctx track lane song r attempted = Inr (r', attempted')"
  shows "landing_ok track r' \<and> (haveHeld r \<longrightarrow> haveHeld r')"
  using assms classify_hold [of ctx song track "o_guard orc" "o_blocks orc"]
  by (auto simp: orderedSong_def landing_ok_def gateSong_def hold_def retainCandidate_def retain_def Let_def
      split: candidate.splits if_splits)

lemma orderedAnswer_landing:
  assumes "landing_ok track r" "orderedAnswer orc ctx track lane isOpen res r attempted = Inr (r', attempted')"
  shows "landing_ok track r' \<and> (haveHeld r \<longrightarrow> haveHeld r')"
proof -
  obtain song err where res: "res = (song, err)" by (cases res)
  let ?r = "consult (llocal lane) (noted lane song err r)"
  have kv: "landing_ok track x \<and> haveHeld x = haveHeld r" if "keptView x = keptView r" for x
    using that assms(1) landing_view haveHeld_view by blast
  have base: "landing_ok track (noted lane song err r) \<and> haveHeld (noted lane song err r) = haveHeld r"
    "landing_ok track ?r \<and> haveHeld ?r = haveHeld r"
    "\<And>e c c' o'. landing_ok track (rankErr e c (noteTransport c' o' ?r)) \<and> haveHeld (rankErr e c (noteTransport c' o' ?r)) = haveHeld r"
    by (rule kv; simp)+
  show ?thesis
    using assms(2) base orderedSong_landing [of track ?r orc ctx lane song attempted r' attempted']
    by (auto simp: orderedAnswer_def res Let_def split: if_splits option.splits)
qed

lemma timingDecision_cong:
  assumes "STrack a = STrack b" "Subtitles a = Subtitles b"
  shows "timingDecision a t = timingDecision b t"
proof -
  have "Evaluate (judgeAgainst a t) d = Evaluate (judgeAgainst b t) d" for d
    by (rule Evaluate_mset) (simp add: judgeAgainst_def assms)
  moreover have "guardDurationSeconds (judgeAgainst a t) = guardDurationSeconds (judgeAgainst b t)"
    "STrack (judgeAgainst a t) = STrack (judgeAgainst b t)" "Subtitles (judgeAgainst a t) = Subtitles (judgeAgainst b t)"
    by (simp_all add: judgeAgainst_def guardDurationSeconds_def assms)
  ultimately show ?thesis unfolding timingDecision_def DecidePromotion_def by metis
qed

lemma landed_updates [simp]:
  "landedQuality (s\<lparr>WinningLane := l\<rparr>) t = landedQuality s t"
  "landedQuality (s\<lparr>LaneAttempts := a\<rparr>) t = landedQuality s t"
  "landedQuality (s\<lparr>WordAns := wa\<rparr>) t = landedQuality s t"
  using timingDecision_cong [of "s\<lparr>WinningLane := l\<rparr>" s t] timingDecision_cong [of "s\<lparr>LaneAttempts := a\<rparr>" s t]
    timingDecision_cong [of "s\<lparr>WordAns := wa\<rparr>" s t]
  by (simp_all add: landedQuality_def retainQuality_def QualityOf_def split: PromotionDecision.split)

lemma landed_won [simp]: "landedQuality (won s l) t = landedQuality s t"
  by (simp add: won_def)

lemma landed_commit [simp]: "landedQuality (commitSong orc lane s n a) t = landedQuality s t"
  by (simp add: commitSong_def Let_def)

lemma resolve_held:
  "haveHeld r \<Longrightarrow> landing_ok t r \<Longrightarrow>
     \<exists>s l. resolve orc ce r = (won s l, None) \<and> QualityUnsynced \<le> landedQuality s t"
  by (auto simp: resolve_def landing_ok_def)

lemma ex_call: "laneFindLyrics nkey (exAnswer song) track path (exLane name) w =
    ((song, None), (exLane name)\<lparr>lbreaker := snd (RecordSuccess exBreaker)\<rparr>, w)"
  by (simp add: laneFindLyrics_def exAnswer_def exEnv_def exLane_def NewProviderLane_def exBreaker_def NewBreaker_def
      Allow_def isZero_def laneResolve_def isCanceled_def notifySuccess_def observeDrift_def)

lemma ex_fields [simp]: "lname (exLane n) = n" "instrumentalOnly (exLane n) = False" "llocal (exLane n) = False"
    "LyricsBody exWords = lit ''la''"
  by (simp_all add: exLane_def NewProviderLane_def exWords_def)

lemma ex_commit: "classifyCandidate ctx exWords track None None = candidateCommit"
  by (simp add: classifyCandidate_def isBlocked_def IsSuitable_def QualityOf_def exWords_def zeroSong_def zeroTrack_def
      less_Quality_def timingDecision_def judgeAgainst_def DecidePromotion_def lit_def)

lemma ex_hold: "classifyCandidate ctx exFlat exTrack None None = candidateHold"
proof -
  let ?s = "judgeAgainst exFlat exTrack"
  have "timed (Subtitles ?s) = [0, 0]"
    by (simp add: judgeAgainst_def exFlat_def cue_witness fofInt_def toFloat_def nearest_def int64_def)
  then have "fst (Evaluate ?s 60) = Degenerate" by (simp add: Evaluate_def isDegenerate_iff)
  moreover have "guardDurationSeconds ?s = 60"
    by (simp add: guardDurationSeconds_def judgeAgainst_def exTrack_def)
  ultimately have "timingDecision exFlat exTrack = DemoteToUnsynced"
    by (simp add: timingDecision_def DecidePromotion_def case_prod_beta judgeAgainst_def exFlat_def zeroSong_def zeroTrack_def)
  then show ?thesis
    by (simp add: classifyCandidate_def isBlocked_def IsSuitable_def QualityOf_def exFlat_def zeroSong_def zeroTrack_def
        less_Quality_def)
qed

lemmas ex_dispatch = ex_call ex_commit ex_hold orderedAnswer_def orderedSong_def exOrc_def noted_def noteUntried_def
  consult_def zeroResult_def hold_def Let_def

section \<open>Properties\<close>

text \<open>
  C9: the first committed result ends an ordered dispatch. If the lanes of a prefix of the lane
  list produce a commit, then whatever lanes follow and whatever they would answer, the dispatch
  ends with that song; no later lane is called, and their breakers, the pacers and the drift
  reports are those of the prefix.
\<close>

theorem ordered_short_circuit:
  assumes "orderedLoop nkey orc ctx track path xs zeroResult [] w = (Committed song, ls, w')"
    and "o_lanes orc = map fst xs @ later" and "length envs = length later"
  shows "findOrdered nkey orc ctx track path (map snd xs @ envs) ce w = ((song, None), orc\<lparr>o_lanes := ls @ later\<rparr>, w')"
proof -
  have "zip (o_lanes orc) (map snd xs @ envs) = xs @ zip later envs"
    unfolding assms(2) by (simp add: zip_map_fst_snd)
  then show ?thesis
    using orderedLoop_commit_append [OF assms(1), of "zip later envs"] assms(3)
    by (simp add: findOrdered_def orderedFinish_def)
qed

theorem ordered_short_circuit_witness:
  "\<exists>song orc'. findOrdered id (exOrc [exLane Musixmatch, exLane InnerTube]) None exTrack []
       [(exAnswer exWords, None), (exAnswer exFlat, None)] None exWorld = ((song, None), orc', exWorld)
     \<and> LyricsBody song = lit ''la'' \<and> WinningLane song = Musixmatch \<and> o_lanes orc' ! 1 = exLane InnerTube"
proof -
  let ?o = "exOrc [exLane Musixmatch, exLane InnerTube]"
  have "\<exists>song l. orderedLoop id ?o None exTrack [] [(exLane Musixmatch, exAnswer exWords, None)] zeroResult [] exWorld
      = (Committed song, [l], exWorld) \<and> LyricsBody song = lit ''la'' \<and> WinningLane song = Musixmatch"
    by (simp add: ex_dispatch commitSong_def less_Quality_def)
  then obtain song l where run: "orderedLoop id ?o None exTrack [] [(exLane Musixmatch, exAnswer exWords, None)] zeroResult [] exWorld
      = (Committed song, [l], exWorld)" and s: "LyricsBody song = lit ''la''" "WinningLane song = Musixmatch" by blast
  show ?thesis
    using ordered_short_circuit [OF run, of "[exLane InnerTube]" "[(exAnswer exFlat, None)]" None] s
    by (simp add: exOrc_def)
qed

text \<open>
  C8: a blocked result is never returned. With a block checker that judges a song by its
  content (not by the attribution the dispatch adds), the song an ordered dispatch returns is not
  blocked for the row, in every outcome that carries a song; otherwise the outcome is an error
  with an empty song.
\<close>

theorem ordered_never_blocked:
  assumes "findOrdered nkey orc ctx track path envs ce w = ((song, err), orc', w')"
    and "o_blocks orc = Some f" and "\<forall>s. f s = f (content s)"
  shows "\<not> isBlocked (Some f) ctx song \<or> (content song = zeroSong \<and> err \<noteq> None)"
proof -
  let ?P = "\<lambda>s (l::gotext). \<not> isBlocked (Some f) ctx s"
  obtain fin ls where run: "orderedLoop nkey orc ctx track path (zip (o_lanes orc) envs) zeroResult [] w = (fin, ls, w')"
    and of_: "orderedFinish orc ce fin = (song, err)" using findOrdered_loop [OF assms(1)] .
  have step: "keptAll ?P r'" if "keptAll ?P r" "orderedAnswer orc ctx track lane o' res r a = Inr (r', a')" for r r' lane o' res a a'
    using orderedAnswer_kept [OF that(1) _ that(2)] assms(2) by simp
  have inv: "case fin of Exhausted r' a' \<Rightarrow> keptAll ?P r' | Canceled e \<Rightarrow> True
    | Committed song \<Rightarrow> \<exists>pre lane env ce post r1 a1 w1 res lane' w2. zip (o_lanes orc) envs = pre @ (lane, env, ce) # post
        \<and> keptAll ?P r1 \<and> laneFindLyrics nkey env track path lane w1 = (res, lane', w2)
        \<and> orderedAnswer orc ctx track lane' (laneOpen (tRead env) lane') res r1 a1 = Inl song"
    by (rule orderedLoop_rule [OF _ _ run, where I = "\<lambda>_ r _. keptAll ?P r" and passed = "[]"])
       (auto dest: step)
  have zero: "content zeroSong = zeroSong" by (simp add: content_def zeroSong_def)
  show ?thesis
  proof (cases fin)
    case (Committed s)
    then obtain lane' sng n a where "s = commitSong orc lane' sng n a" "\<not> isBlocked (Some f) ctx sng"
      using inv assms(2) by (auto dest!: orderedAnswer_Inl orderedSong_Inl
          simp: classifyCandidate_def split: if_splits)
    then have "\<not> isBlocked (Some f) ctx s" using isBlocked_content [OF assms(3)] content_commit by metis
    then show ?thesis using of_ Committed by (simp add: orderedFinish_def)
  next
    case (Canceled e)
    then show ?thesis using of_ zero by (auto simp: orderedFinish_def)
  next
    case (Exhausted r a)
    then obtain s where s: "resolve orc ce r = (s, err)" "content song = content s"
      using orderedFinish_song [OF of_] by auto
    have "keptAll ?P r" using inv Exhausted by simp
    from resolve_kept [OF this s(1)] consider "s = zeroSong" "err \<noteq> None"
      | k l where "\<not> isBlocked (Some f) ctx k" "s = won k l" by blast
    then show ?thesis
    proof cases
      case 2
      then have "content song = content k" using s(2) by simp
      then show ?thesis using 2(1) isBlocked_content [OF assms(3)] by blast
    qed (use s(2) zero in auto)
  qed
qed

theorem ordered_never_blocked_witness:
  "case findOrdered id ((exOrc [exLane Musixmatch, exLane InnerTube])\<lparr>o_blocks := Some (\<lambda>s. LyricsBody s = lit ''la'')\<rparr>)
       None exTrack [] [(exAnswer exWords, None), (exAnswer exFlat, None)] None exWorld of
     ((song, err), _) \<Rightarrow> LyricsBody song \<noteq> lit ''la'' \<or> (content song = zeroSong \<and> err \<noteq> None)"
proof -
  let ?f = "\<lambda>s. LyricsBody s = lit ''la''"
  let ?o = "(exOrc [exLane Musixmatch, exLane InnerTube])\<lparr>o_blocks := Some ?f\<rparr>"
  obtain song err orc' w' where run: "findOrdered id ?o None exTrack []
      [(exAnswer exWords, None), (exAnswer exFlat, None)] None exWorld = ((song, err), orc', w')"
    by (metis surj_pair)
  have "\<not> isBlocked (Some ?f) None song \<or> (content song = zeroSong \<and> err \<noteq> None)"
    by (rule ordered_never_blocked [OF run]) (simp_all add: content_def)
  then show ?thesis unfolding run by (simp add: isBlocked_def StampBlockIdentity_def)
qed

text \<open>
  C10: words already in hand are never given up for an instrumental marker. Once some lane of an
  ordered dispatch has answered with a lyric that is held because its timing would be demoted,
  the dispatch, unless it is canceled, ends with a nil error and a song that the writer lands as
  text or better.
\<close>

theorem held_words_survive:
  assumes "orderedLoop nkey orc ctx track path xs zeroResult [] w = (Exhausted r a, ls, w1)" and "haveHeld r"
    and "orderedLoop nkey orc ctx track path (xs @ ys) zeroResult [] w = (fin, ls', w')"
    and "\<forall>e. fin \<noteq> Canceled e"
  shows "\<exists>song. orderedFinish orc ce fin = (song, None) \<and> QualityUnsynced \<le> landedQuality song track"
proof -
  let ?I = "\<lambda>(_::Lane list) r (_::attemptedLane list). landing_ok track r"
  have "case Exhausted r a of Exhausted r' a' \<Rightarrow> landing_ok track r' | _ \<Rightarrow> True"
    using orderedLoop_rule [where I = ?I and passed = "[]", OF _ _ assms(1)] by (auto dest: orderedAnswer_landing)
  then have r: "landing_ok track r \<and> haveHeld r" using assms(2) by simp
  obtain ls2 where run: "orderedLoop nkey orc ctx track path ys r a w1 = (fin, ls2, w')"
    using assms(3) orderedLoop_exhaust_append [OF assms(1), of ys] by (auto simp: Let_def split: prod.splits)
  have inv: "case fin of Exhausted r' a' \<Rightarrow> landing_ok track r' \<and> haveHeld r' | Canceled e \<Rightarrow> True
    | Committed song \<Rightarrow> \<exists>pre lane env ce post r1 a1 w1 res lane' w2. ys = pre @ (lane, env, ce) # post
        \<and> (landing_ok track r1 \<and> haveHeld r1) \<and> laneFindLyrics nkey env track path lane w1 = (res, lane', w2)
        \<and> orderedAnswer orc ctx track lane' (laneOpen (tRead env) lane') res r1 a1 = Inl song"
    by (rule orderedLoop_rule [OF _ _ run, where I = "\<lambda>_ r _. landing_ok track r \<and> haveHeld r" and passed = "[]"])
       (use r in \<open>auto dest: orderedAnswer_landing\<close>)
  show ?thesis
  proof (cases fin)
    case (Committed s)
    then obtain lane' sng n b r1 where "s = commitSong orc lane' sng n b" "landedQuality sng track > QualityUnsynced"
      using inv haveHeld_view [of "consult _ (noted _ _ _ _)"] by (auto dest!: orderedAnswer_Inl orderedSong_Inl)
    then show ?thesis using Committed by (simp add: orderedFinish_def)
  next
    case (Exhausted r2 a2)
    then obtain s l where "resolve orc ce r2 = (won s l, None)" "QualityUnsynced \<le> landedQuality s track"
      using inv resolve_held by fastforce
    then show ?thesis using Exhausted by (simp add: orderedFinish_def Let_def)
  qed (use assms(4) in auto)
qed

theorem held_words_survive_witness:
  "\<exists>song. fst (findOrdered id (exOrc [exLane Musixmatch, NewDetectorLane exBreaker None]) None exTrack []
       [(exAnswer exFlat, None), (exEnv (Opaque []), None)] None exWorld) = (song, None)
     \<and> QualityUnsynced \<le> landedQuality song exTrack"
proof -
  let ?d = "NewDetectorLane exBreaker None" and ?l = "(exLane Musixmatch)\<lparr>lbreaker := snd (RecordSuccess exBreaker)\<rparr>"
  let ?o = "exOrc [exLane Musixmatch, ?d]"
  let ?xs = "[(exLane Musixmatch, exAnswer exFlat, None)]" and ?ys = "[(?d, exEnv (Opaque []), None :: goerr option)]"
  obtain r a where xs: "orderedLoop id ?o None exTrack [] ?xs zeroResult [] exWorld = (Exhausted r a, [?l], exWorld)"
    and h: "haveHeld r"
    by (simp add: ex_dispatch)
  have io: "instrumentalOnly ?d" by (simp add: NewDetectorLane_def)
  have all: "orderedLoop id ?o None exTrack [] (?xs @ ?ys) zeroResult [] exWorld = (Exhausted r a, [?l, ?d], exWorld)"
    using orderedLoop_exhaust_append [OF xs, of ?ys] h io by simp
  have z: "zip (o_lanes ?o) [(exAnswer exFlat, None), (exEnv (Opaque []), None)] = ?xs @ ?ys" by (simp add: exOrc_def)
  show ?thesis using held_words_survive [OF xs h all, of None] unfolding findOrdered_def z all by simp
qed

end
