(* ===== verification/Dispatch_Accounts.thy ===== *)
theory Dispatch_Accounts
  imports Dispatch
begin

text \<open>
  What an ordered dispatch reports about itself: the error it surfaces when no lane had a
  result, the lanes it names as attempted and as the winner, the word answer it gives, and the
  outcome when no lane could be asked.
\<close>

section \<open>Definitions\<close>

text \<open>The errors of a dispatch ranked in lane order, and the error the ranking must surface.\<close>

definition rankAll :: "goerr list \<Rightarrow> dispatchResult" where
  "rankAll es = fold (\<lambda>e. rankErr e (classifyErr e)) es zeroResult"

definition errPrec :: "goerr \<Rightarrow> nat" where
  "errPrec e = precedence (classifyErr e)"

definition topPrec :: "goerr list \<Rightarrow> nat" where
  "topPrec es = Max (errPrec ` set es)"

definition hollowBody :: "goerr \<Rightarrow> bool" where
  "hollowBody e \<longleftrightarrow> errorsIs e MxmTruncatedResponse"

definition surfaced :: "goerr list \<Rightarrow> goerr option" where
  "surfaced es =
     (if es = [] then None
      else if (\<exists>e \<in> set es. hollowBody e) \<and> topPrec es \<le> 2 then List.find hollowBody es
      else List.find (\<lambda>e. errPrec e = topPrec es) es)"

definition wordCapables :: "Lane list \<Rightarrow> int" where
  "wordCapables lanes = int (length (filter laneWordCapable lanes))"

text \<open>What holds of the accumulated result after ranking a list of errors.\<close>

definition rank_inv :: "goerr list \<Rightarrow> dispatchResult \<Rightarrow> bool" where
  "rank_inv es r \<longleftrightarrow> topErr r = surfaced es \<and> hollowErr r = List.find hollowBody es
     \<and> (es \<noteq> [] \<longrightarrow> precedence (topClass r) =
          (if (\<exists>e \<in> set es. hollowBody e) \<and> topPrec es \<le> 2 then 1 else topPrec es))"

text \<open>What a dispatch result says of the lanes passed so far.\<close>

definition attribution_ok :: "Lane list \<Rightarrow> dispatchResult \<Rightarrow> attemptedLane list \<Rightarrow> bool" where
  "attribution_ok passed r a \<longleftrightarrow> keptAll (\<lambda>_ l. l \<in> at_name ` set a) r \<and> at_name ` set a \<subseteq> lname ` set passed"

definition words_ok :: "Lane list \<Rightarrow> dispatchResult \<Rightarrow> bool" where
  "words_ok passed r \<longleftrightarrow> 0 \<le> wordAnswered r \<and> wordAnswered r \<le> wordCapables passed"

text \<open>A result to which no lane has contributed.\<close>

definition untouched :: "dispatchResult \<Rightarrow> bool" where
  "untouched r \<longleftrightarrow> keptView r = keptView zeroResult \<and> consulted r = 0 \<and> wordAnswered r = 0"

section \<open>Error ranking\<close>

lemma rankAll_snoc: "rankAll (es @ [e]) = rankErr e (classifyErr e) (rankAll es)"
  by (simp add: rankAll_def)

lemma precedence_one: "precedence c = Suc 0 \<longleftrightarrow> c = OutcomeBenignMiss"
  by (cases c) auto

lemma precedence_le: "precedence c \<le> 4"
  by (cases c) auto

lemma hollow_prec: "hollowBody e \<Longrightarrow> classifyErr e \<noteq> OutcomeRefusedUntried \<Longrightarrow>
    classifyErr e = OutcomeBenignMiss \<or> errPrec e = 4"
  by (auto simp: hollowBody_def errPrec_def classifyErr_def mxmIsBenignMiss_def split: if_splits)

lemma errPrec_pos: "classifyErr e \<noteq> OutcomeRefusedUntried \<Longrightarrow> 1 \<le> errPrec e"
  using classifyErr_not_success [of e] by (cases "classifyErr e") (auto simp: errPrec_def)

lemma find_append: "List.find P (xs @ ys) = (case List.find P xs of Some x \<Rightarrow> Some x | None \<Rightarrow> List.find P ys)"
  by (induction xs) auto

lemma find_None: "List.find P xs = None \<longleftrightarrow> (\<forall>x \<in> set xs. \<not> P x)"
  by (induction xs) auto

lemma topPrec_snoc: "es \<noteq> [] \<Longrightarrow> topPrec (es @ [e]) = max (topPrec es) (errPrec e)"
  by (simp add: topPrec_def max.commute)

lemma topPrec_single [simp]: "topPrec [e] = errPrec e"
  by (simp add: topPrec_def)

lemma topPrec_ge: "x \<in> set es \<Longrightarrow> errPrec x \<le> topPrec es"
  by (simp add: topPrec_def)

lemma topPrec_in: "es \<noteq> [] \<Longrightarrow> \<exists>x \<in> set es. errPrec x = topPrec es"
proof -
  assume "es \<noteq> []"
  then have "topPrec es \<in> errPrec ` set es" unfolding topPrec_def by (intro Max_in) auto
  then show ?thesis by fastforce
qed

lemma find_top_snoc:
  assumes "es \<noteq> []"
  shows "List.find (\<lambda>x. errPrec x = topPrec (es @ [e])) (es @ [e]) =
    (if topPrec es < errPrec e then Some e else List.find (\<lambda>x. errPrec x = topPrec es) es)"
proof (cases "topPrec es < errPrec e")
  case True
  then have "\<forall>x \<in> set es. errPrec x \<noteq> errPrec e" using topPrec_ge by fastforce
  then have "List.find (\<lambda>x. errPrec x = errPrec e) es = None" by (simp add: find_None)
  then show ?thesis using True assms by (simp add: topPrec_snoc find_append max_def)
next
  case False
  obtain y where "List.find (\<lambda>x. errPrec x = topPrec es) es = Some y"
    using topPrec_in [OF assms] find_None by fastforce
  then show ?thesis using False assms by (simp add: topPrec_snoc find_append max_def)
qed

lemma surfaced_nonempty: "es \<noteq> [] \<Longrightarrow> \<exists>e. surfaced es = Some e"
  using topPrec_in [of es] find_None [of hollowBody es] find_None [of "\<lambda>e. errPrec e = topPrec es" es]
  by (auto simp: surfaced_def)

lemma surfaced_mem: "surfaced es = Some e \<Longrightarrow> e \<in> set es"
  by (auto simp: surfaced_def dest: find_SomeD split: if_splits)

lemma rank_step:
  assumes inv: "rank_inv es r" and e: "classifyErr e \<noteq> OutcomeRefusedUntried"
    and es: "\<forall>x \<in> set es. classifyErr x \<noteq> OutcomeRefusedUntried"
  shows "rank_inv (es @ [e]) (rankErr e (classifyErr e) r)"
proof (cases "es = []")
  case True
  then have "topErr r = None" "hollowErr r = None" using inv by (simp_all add: rank_inv_def surfaced_def)
  then show ?thesis using True hollow_prec [OF _ e]
    by (auto simp: rank_inv_def rankErr_def surfaced_def hollowBody_def errPrec_def Let_def)
next
  case ne: False
  let ?m = "topPrec es" and ?h = "\<exists>x \<in> set es. hollowBody x"
  obtain t where t: "topErr r = Some t" "t \<in> set es"
    using inv ne surfaced_nonempty surfaced_mem by (fastforce simp: rank_inv_def)
  have m1: "1 \<le> ?m"
    using topPrec_in [OF ne] es errPrec_pos by fastforce
  note p1 = errPrec_pos [OF e] and snoc = find_top_snoc [OF ne, of e] topPrec_snoc [OF ne, of e]
  have he: "hollowErr r \<noteq> None \<longleftrightarrow> ?h" using inv by (auto simp: rank_inv_def find_None)
  consider (A) "?h" "?m \<le> 2" | (B) "?h" "2 < ?m" | (C) "\<not> ?h" by linarith
  then show ?thesis
  proof cases
    case A
    then have tc: "topClass r = OutcomeBenignMiss" "topErr r = List.find hollowBody es"
      using inv ne by (auto simp: rank_inv_def surfaced_def precedence_one)
    then have "hollowBody t" using t find_SomeD by metis
    then have tr: "isTruncated (topErr r)" using t by (simp add: isTruncated_def hollowBody_def)
    show ?thesis using A tc tr t he p1 inv ne snoc hollow_prec [OF _ e]
      by (auto simp: rank_inv_def rankErr_def surfaced_def find_append errPrec_def Let_def max_def
           split: option.splits)
  next
    case B
    then have tc: "precedence (topClass r) = ?m" "topErr r = List.find (\<lambda>x. errPrec x = ?m) es"
      using inv ne by (auto simp: rank_inv_def surfaced_def)
    then have "topClass r \<noteq> OutcomeBenignMiss" using B by auto
    then show ?thesis using B tc t he p1 inv ne snoc
      by (auto simp: rank_inv_def rankErr_def surfaced_def find_append errPrec_def Let_def max_def
           split: option.splits)
  next
    case C
    then have tc: "precedence (topClass r) = ?m" "topErr r = List.find (\<lambda>x. errPrec x = ?m) es" "hollowErr r = None"
      using inv ne he by (auto simp: rank_inv_def surfaced_def)
    have tr: "\<not> isTruncated (topErr r)" using C t by (simp add: isTruncated_def hollowBody_def)
    show ?thesis
    proof (cases "hollowBody e")
      case False
      then show ?thesis using C tc tr t p1 inv ne snoc
        by (auto simp: rank_inv_def rankErr_def surfaced_def find_append hollowBody_def errPrec_def Let_def max_def
             split: option.splits)
    next
      case True
      have fh: "List.find hollowBody (es @ [e]) = Some e" using C True find_None [of hollowBody es] by (simp add: find_append)
      have hol: "errorsIs e MxmTruncatedResponse" using True by (simp add: hollowBody_def)
      have ex: "\<exists>x \<in> set (es @ [e]). hollowBody x" using True by simp
      from hollow_prec [OF True e] show ?thesis
      proof
        assume b: "classifyErr e = OutcomeBenignMiss"
        then have p: "errPrec e = 1" by (simp add: errPrec_def)
        have m': "topPrec (es @ [e]) = ?m" using snoc(2) m1 p by simp
        have top: "List.find (\<lambda>x. errPrec x = topPrec (es @ [e])) (es @ [e]) = topErr r"
          using snoc(1) m1 p tc(2) by simp
        consider "?m = 1" "topClass r = OutcomeBenignMiss" | "?m = 2" | "2 < ?m" using m1 tc(1) precedence_one by fastforce
        then show ?thesis
        proof cases
          case 3
          then have "topClass r \<noteq> OutcomeBenignMiss" using tc(1) by auto
          then show ?thesis using 3 ex fh m' top tc(1,3) t(1) b hol by (simp add: rank_inv_def rankErr_def surfaced_def Let_def)
        qed (use ex fh m' top tc tr t b hol in \<open>simp_all add: rank_inv_def rankErr_def surfaced_def Let_def\<close>)
      next
        assume p: "errPrec e = 4"
        have m4: "?m \<le> 4" using topPrec_in [OF ne] by (metis errPrec_def precedence_le)
        then have m': "topPrec (es @ [e]) = 4" using snoc(2) p by simp
        have top: "List.find (\<lambda>x. errPrec x = topPrec (es @ [e])) (es @ [e]) = (if ?m < 4 then Some e else topErr r)"
          using snoc(1) p tc(2) by simp
        have pc: "precedence (classifyErr e) = 4" "classifyErr e \<noteq> OutcomeBenignMiss" using p by (auto simp: errPrec_def)
        show ?thesis using ex fh m' m4 top tc(1,3) t(1) pc hol by (simp add: rank_inv_def rankErr_def surfaced_def Let_def)
      qed
    qed
  qed
qed

lemma rankAll_inv: "\<forall>x \<in> set es. classifyErr x \<noteq> OutcomeRefusedUntried \<Longrightarrow> rank_inv es (rankAll es)"
proof (induction es rule: rev_induct)
  case Nil
  then show ?case by (simp add: rank_inv_def rankAll_def surfaced_def zeroResult_def)
next
  case (snoc e es)
  then show ?case unfolding rankAll_snoc by (intro rank_step) auto
qed

section \<open>Attribution\<close>

lemma keptAll_mono: "keptAll P r \<Longrightarrow> (\<And>s l. P s l \<Longrightarrow> Q s l) \<Longrightarrow> keptAll Q r"
  by (auto simp: keptAll_def)

lemma orderedSong_attempts:
  "orderedSong orc ctx track lane song r a = Inr (r', a') \<Longrightarrow>
     a' = a @ [attempt lane] \<or> a' = a \<and> isBlocked (o_blocks orc) ctx song"
  using classifyCandidate_blocked [of ctx song track "o_guard orc" "o_blocks orc"]
  by (auto simp: orderedSong_def Let_def split: candidate.splits if_splits)

lemma orderedAnswer_attempts:
  "orderedAnswer orc ctx track lane isOpen res r a = Inr (r', a') \<Longrightarrow>
     a' = a @ [attempt lane] \<or> a' = a \<and> (\<forall>song. res = (song, None) \<longrightarrow> isBlocked (o_blocks orc) ctx song)"
  by (auto simp: orderedAnswer_def Let_def split: prod.splits if_splits option.splits dest: orderedSong_attempts)

lemma attribution_step:
  assumes "attribution_ok passed r a" "laneFindLyrics nkey env track path lane w = (res, lane', w')"
    and "orderedAnswer orc ctx track lane' isOpen res r a = Inr (r', a')"
  shows "attribution_ok (passed @ [lane]) r' a'"
proof -
  have n: "lname lane' = lname lane" using laneFind_frame [OF assms(2)] by (simp add: sameLane_def)
  note at = orderedAnswer_attempts [OF assms(3)]
  have "keptAll (\<lambda>_ l. l \<in> at_name ` set a') r'"
  proof (rule orderedAnswer_kept [OF _ _ assms(3)])
    show "keptAll (\<lambda>_ l. l \<in> at_name ` set a') r"
      using assms(1) at by (auto simp: attribution_ok_def elim!: keptAll_mono)
    fix song assume "res = (song, None)" "\<not> isBlocked (o_blocks orc) ctx song"
    then show "lname lane' \<in> at_name ` set a'" using at by (auto simp: attempt_def)
  qed
  moreover have "at_name ` set a' \<subseteq> lname ` set (passed @ [lane])"
  proof -
    have "at_name ` set a \<subseteq> lname ` set passed" using assms(1) by (simp add: attribution_ok_def)
    then show ?thesis using at n by (elim disjE) (auto simp: attempt_def)
  qed
  ultimately show ?thesis by (simp add: attribution_ok_def)
qed

lemma attribution_skip: "attribution_ok passed r a \<Longrightarrow> attribution_ok (passed @ [lane]) r a"
  by (auto simp: attribution_ok_def)

lemma attribution_zero: "attribution_ok passed zeroResult []"
  by (simp add: attribution_ok_def)

lemma commit_attribution:
  "WinningLane (commitSong orc lane song n a) = lname lane"
  "LaneAttempts (commitSong orc lane song n a) = laneAttemptsFor a (lname lane)"
  by (simp_all add: commitSong_def Let_def)

lemma attempts_lanes: "la_Lane ` set (laneAttemptsFor a w) = at_name ` set a"
  by (force simp: laneAttemptsFor_def)

lemma attempts_hit: "t \<in> set (laneAttemptsFor a w) \<Longrightarrow> la_Hit t \<longleftrightarrow> la_Lane t = w"
  by (auto simp: laneAttemptsFor_def)

section \<open>Word answers\<close>

lemma wordCapables_snoc: "wordCapables (ls @ [l]) = wordCapables ls + (if laneWordCapable l then 1 else 0)"
  by (simp add: wordCapables_def)

lemma wordAnswered_frame [simp]:
  "wordAnswered (noteUntried err class l io r) = wordAnswered r" "wordAnswered (noteTransport class o' r) = wordAnswered r"
  "wordAnswered (consult loc r) = wordAnswered r" "wordAnswered (rankErr e class r) = wordAnswered r"
  "wordAnswered (hold s l r) = wordAnswered r" "wordAnswered (gateSong s l q r) = wordAnswered r"
  "wordAnswered (retainCandidate s l q k r) = wordAnswered r"
  by (auto simp: noteUntried_def noteTransport_def consult_def rankErr_def hold_def gateSong_def retainCandidate_def
      retain_def Let_def)

lemma wordAnswered_noted:
  "wordAnswered (noted lane song err r) = wordAnswered r + (if answersWord (laneWordCapable lane) song err then 1 else 0)"
  by (simp add: noted_def Let_def)

lemma orderedSong_words:
  "orderedSong orc ctx track lane song r a = Inr (r', a') \<Longrightarrow>
     wordAnswered r' = wordAnswered r \<or> answersWord (laneWordCapable lane) song None \<and> wordAnswered r' = wordAnswered r - 1"
  by (auto simp: orderedSong_def Let_def split: candidate.splits if_splits)

lemma orderedAnswer_words:
  assumes "orderedAnswer orc ctx track lane isOpen res r a = Inr (r', a')"
  shows "wordAnswered r \<le> wordAnswered r' \<and> wordAnswered r' \<le> wordAnswered r + (if laneWordCapable lane then 1 else 0)"
proof -
  obtain song err where res: "res = (song, err)" by (cases res)
  have aw: "answersWord (laneWordCapable lane) song err \<Longrightarrow> laneWordCapable lane" by (simp add: answersWord_def)
  show ?thesis
    using assms aw orderedSong_words [of orc ctx track lane song "consult (llocal lane) (noted lane song None r)" a r' a']
    by (auto simp: orderedAnswer_def res Let_def wordAnswered_noted split: if_splits option.splits)
qed

lemma words_step:
  assumes "words_ok passed r" "laneFindLyrics nkey env track path lane w = (res, lane', w')"
    and "orderedAnswer orc ctx track lane' isOpen res r a = Inr (r', a')"
  shows "words_ok (passed @ [lane]) r'"
  using orderedAnswer_words [OF assms(3)] assms(1) sameLane_wordCapable [of lane lane'] laneFind_frame [OF assms(2)]
  by (auto simp: words_ok_def wordCapables_snoc)

lemma words_skip: "words_ok passed r \<Longrightarrow> words_ok (passed @ [lane]) r"
  by (auto simp: words_ok_def wordCapables_snoc)

lemma words_zero: "words_ok passed zeroResult"
  by (simp add: words_ok_def wordCapables_def zeroResult_def)

lemma commit_absent:
  "WordAns (commitSong orc lane song n a) = WordAnswerAbsent \<Longrightarrow> n = wordCapables (o_lanes orc)"
  by (auto simp: commitSong_def ungatedWordAnswer_def wordAnswerFor_def wordCapables_def Let_def split: if_splits)

section \<open>No lane could be asked\<close>

lemma orderedAnswer_open:
  "untouched r \<Longrightarrow> \<exists>r'. orderedAnswer orc ctx track lane isOpen (zeroSong, Some (Sentinel ErrLaneUnavailable)) r a = Inr (r', a)
     \<and> untouched r'"
proof -
  assume u: "untouched r"
  let ?r = "noted lane zeroSong (Some (Sentinel ErrLaneUnavailable)) r"
  have c: "classifyErr (Sentinel ErrLaneUnavailable) = OutcomeUnavailable" by (simp add: classifyErr_def)
  have "\<not> answersWord (laneWordCapable lane) zeroSong (Some (Sentinel ErrLaneUnavailable))"
    by (simp add: answersWord_def isWordNoMatch_def mxmIsNoMatch_def petitIsNoMatch_def)
  then have "wordAnswered ?r = wordAnswered r" by (simp add: wordAnswered_noted)
  moreover have "consulted ?r = consulted r" by (auto simp: noted_def noteUntried_def Let_def)
  ultimately show ?thesis using u c by (simp add: orderedAnswer_def untouched_def)
qed

lemma orderedLoop_all_open:
  assumes "\<forall>(lane, env, ce) \<in> set xs. viewState (tAllow env) (lbreaker lane) = StateOpen \<and> ce = None" and "untouched r"
  shows "\<exists>r'. orderedLoop nkey orc ctx track path xs r a w = (Exhausted r' a, map fst xs, w) \<and> untouched r'"
  using assms
proof (induction xs arbitrary: r)
  case (Cons x xs)
  obtain lane env where x: "x = (lane, env, None)" and o: "viewState (tAllow env) (lbreaker lane) = StateOpen"
    using Cons.prems(1) by (cases x) auto
  have nh: "\<not> (haveHeld r \<or> haveGated r)" using Cons.prems(2) by (simp add: untouched_def keptView_def zeroResult_def)
  obtain r1 where r1: "orderedAnswer orc ctx track lane (laneOpen (tRead env) lane)
      (zeroSong, Some (Sentinel ErrLaneUnavailable)) r a = Inr (r1, a)" "untouched r1"
    using orderedAnswer_open [OF Cons.prems(2)] by blast
  from Cons.IH [OF _ r1(2)] Cons.prems(1) obtain r' where
    "orderedLoop nkey orc ctx track path xs r1 a w = (Exhausted r' a, map fst xs, w)" "untouched r'" by auto
  then show ?case using r1(1) nh laneFind_open [OF o] by (auto simp: x)
qed simp

lemma resolve_untouched:
  "untouched r \<Longrightarrow> o_lanes orc \<noteq> [] \<Longrightarrow> resolve orc None r = (zeroSong, Some (Sentinel ErrLaneUnavailable))"
  by (simp add: resolve_def untouched_def keptView_def zeroResult_def noProviderAsked_def)

section \<open>Properties\<close>

text \<open>
  C11: which error a dispatch surfaces. When the errors of the lanes are ranked in any order,
  the one kept is the first of the highest precedence; the one exception is a hollow provider
  response, which wins, as the first of its kind, over every clean miss and over a detector
  outage or start-up, but never over a transport, auth or unavailable error.
\<close>

theorem ranked_error_spec:
  assumes "\<forall>x \<in> set es. classifyErr x \<noteq> OutcomeRefusedUntried"
  shows "topErr (rankAll es) =
    (if es = [] then None
     else if (\<exists>e \<in> set es. errorsIs e MxmTruncatedResponse) \<and> (\<forall>e \<in> set es. precedence (classifyErr e) \<le> 2)
       then List.find (\<lambda>e. errorsIs e MxmTruncatedResponse) es
     else List.find (\<lambda>e. \<forall>x \<in> set es. precedence (classifyErr x) \<le> precedence (classifyErr e)) es)"
proof (cases "es = []")
  case False
  have top: "errPrec e = topPrec es \<longleftrightarrow> (\<forall>x \<in> set es. errPrec x \<le> errPrec e)" if "e \<in> set es" for e
    using topPrec_in [OF False] topPrec_ge that by (metis order_antisym)
  have "List.find (\<lambda>e. errPrec e = topPrec es) es = List.find (\<lambda>e. \<forall>x \<in> set es. errPrec x \<le> errPrec e) es"
    using top by (intro find_cong) auto
  moreover have "topPrec es \<le> 2 \<longleftrightarrow> (\<forall>e \<in> set es. errPrec e \<le> 2)"
    using topPrec_in [OF False] topPrec_ge order_trans by metis
  ultimately show ?thesis
    using rankAll_inv [OF assms] False unfolding rank_inv_def surfaced_def hollowBody_def errPrec_def by simp
qed (simp add: rankAll_def zeroResult_def)

theorem ranked_error_spec_witness:
  "topErr (rankAll [Sentinel MxmNotFound, newLaneOutage (Opaque []), Sentinel MxmTruncatedResponse])
     = Some (Sentinel MxmTruncatedResponse)"
  by (subst ranked_error_spec) (simp_all add: newLaneOutage_def classifyErr_def mxmIsBenignMiss_def)

text \<open>
  C13: attribution. A song that an ordered dispatch returns with a nil error names as its winner
  a lane of the orchestrator that was attempted; every attempted lane it lists is a lane of the
  orchestrator, and exactly the entries of the winner are marked as a hit.
\<close>

theorem ordered_attribution:
  assumes "findOrdered nkey orc ctx track path envs ce w = ((song, None), orc', w')"
  shows "WinningLane song \<in> la_Lane ` set (LaneAttempts song) \<and> la_Lane ` set (LaneAttempts song) \<subseteq> set (LaneNames orc)
    \<and> (\<forall>t \<in> set (LaneAttempts song). la_Hit t \<longleftrightarrow> la_Lane t = WinningLane song)"
proof -
  let ?z = "zip (o_lanes orc) envs"
  obtain fin ls where run: "orderedLoop nkey orc ctx track path ?z zeroResult [] w = (fin, ls, w')"
    and fi: "orderedFinish orc ce fin = (song, None)" using findOrdered_loop [OF assms] .
  have sub: "lname ` set (map fst ?z) \<subseteq> set (LaneNames orc)" by (auto simp: LaneNames_def dest: set_zip_leftD)
  have inv: "case fin of Exhausted r' a' \<Rightarrow> attribution_ok ([] @ map fst ?z) r' a' | Canceled e \<Rightarrow> True
    | Committed song \<Rightarrow> \<exists>pre lane env ce post r1 a1 w1 res lane' w2. ?z = pre @ (lane, env, ce) # post
        \<and> attribution_ok ([] @ map fst pre) r1 a1 \<and> laneFindLyrics nkey env track path lane w1 = (res, lane', w2)
        \<and> orderedAnswer orc ctx track lane' (laneOpen (tRead env) lane') res r1 a1 = Inl song"
    by (rule orderedLoop_rule [OF _ _ run, where I = attribution_ok and passed = "[]"])
       (blast intro: attribution_step attribution_skip attribution_zero)+
  obtain a l where at: "LaneAttempts song = laneAttemptsFor a l" "WinningLane song = l" "l \<in> at_name ` set a"
      "at_name ` set a \<subseteq> lname ` set (map fst ?z)"
  proof (cases fin)
    case (Committed s)
    then obtain pre lane env c post r1 a1 w1 res lane' w2 where z: "?z = pre @ (lane, env, c) # post"
      "attribution_ok (map fst pre) r1 a1" "laneFindLyrics nkey env track path lane w1 = (res, lane', w2)"
      "orderedAnswer orc ctx track lane' (laneOpen (tRead env) lane') res r1 a1 = Inl s" using inv by auto
    then obtain sng n where "s = commitSong orc lane' sng n (a1 @ [attempt lane'])"
      by (auto dest!: orderedAnswer_Inl orderedSong_Inl)
    moreover have "lname lane' = lname lane" using laneFind_frame [OF z(3)] by (simp add: sameLane_def)
    moreover have "song = s" using fi Committed by (simp add: orderedFinish_def)
    moreover have "at_name ` set a1 \<subseteq> lname ` set (map fst pre)" using z(2) by (simp add: attribution_ok_def)
    ultimately show ?thesis using z(1)
      by (intro that [of "a1 @ [attempt lane']" "lname lane'"]) (auto simp: commit_attribution attempt_def)
  next
    case (Exhausted r a)
    then obtain s where s: "resolve orc ce r = (s, None)" "WinningLane song = WinningLane s"
        "LaneAttempts song = laneAttemptsFor a (WinningLane s)" using orderedFinish_song [OF fi] by auto
    have ok: "attribution_ok (map fst ?z) r a" using inv Exhausted by simp
    then have "\<exists>k. WinningLane s \<in> at_name ` set a"
      using resolve_kept [OF _ s(1), of "\<lambda>_ l. l \<in> at_name ` set a"] by (auto simp: attribution_ok_def won_def)
    then show ?thesis using that s ok by (auto simp: attribution_ok_def)
  qed (use fi in \<open>auto simp: orderedFinish_def\<close>)
  then show ?thesis using sub attempts_hit [of _ a l] by (simp only: attempts_lanes) auto
qed

theorem ordered_attribution_witness:
  "\<exists>song orc'. findOrdered id (exOrc [exLane Musixmatch]) None exTrack [] [(exAnswer exWords, None)] None exWorld
       = ((song, None), orc', exWorld) \<and> WinningLane song \<in> la_Lane ` set (LaneAttempts song)"
proof -
  have "\<exists>song orc'. findOrdered id (exOrc [exLane Musixmatch]) None exTrack [] [(exAnswer exWords, None)] None exWorld
       = ((song, None), orc', exWorld)"
    by (simp add: findOrdered_def orderedFinish_def ex_dispatch less_Quality_def)
  then show ?thesis using ordered_attribution by blast
qed

text \<open>
  C12: "no words" is never claimed on behalf of a lane that was not asked. If an ordered dispatch
  commits while a word-capable lane of the orchestrator still lies ahead, the song it returns does
  not carry the absent word answer, whatever the winning lane itself said.
\<close>

theorem absent_needs_every_lane:
  assumes "orderedLoop nkey orc ctx track path xs zeroResult [] w = (Committed song, ls, w')"
    and "o_lanes orc = map fst xs @ later" and "lane \<in> set later" and "laneWordCapable lane"
  shows "WordAns song \<noteq> WordAnswerAbsent"
proof
  assume abs: "WordAns song = WordAnswerAbsent"
  let ?I = "\<lambda>passed r (_::attemptedLane list). words_ok passed r"
  have "case Committed song of Exhausted r' a' \<Rightarrow> ?I ([] @ map fst xs) r' a' | Canceled e \<Rightarrow> True
    | Committed song \<Rightarrow> \<exists>pre lane env ce post r1 a1 w1 res lane' w2. xs = pre @ (lane, env, ce) # post
        \<and> ?I ([] @ map fst pre) r1 a1 \<and> laneFindLyrics nkey env track path lane w1 = (res, lane', w2)
        \<and> orderedAnswer orc ctx track lane' (laneOpen (tRead env) lane') res r1 a1 = Inl song"
    by (rule orderedLoop_rule [OF _ _ assms(1), where I = ?I and passed = "[]"])
       (blast intro: words_step words_skip words_zero)+
  then obtain pre l env c post r1 a1 w1 res l' w2 where z: "xs = pre @ (l, env, c) # post" "words_ok (map fst pre) r1"
      "laneFindLyrics nkey env track path l w1 = (res, l', w2)"
      "orderedAnswer orc ctx track l' (laneOpen (tRead env) l') res r1 a1 = Inl song" by auto
  then obtain sng where s: "song = commitSong orc l' sng (wordAnswered (noted l' sng None r1)) (a1 @ [attempt l'])"
    by (auto dest!: orderedAnswer_Inl orderedSong_Inl)
  have "wordAnswered (noted l' sng None r1) \<le> wordCapables (map fst pre @ [l])"
    using z(2) laneFind_frame [OF z(3)] sameLane_wordCapable [of l l']
    by (auto simp: wordAnswered_noted answersWord_def words_ok_def wordCapables_snoc)
  also have "\<dots> < wordCapables (o_lanes orc)"
  proof -
    have "0 < length (filter laneWordCapable later)" using assms(3,4) by (simp add: filter_empty_conv) blast
    then show ?thesis unfolding assms(2) z(1) by (simp add: wordCapables_def)
  qed
  finally show False using commit_absent abs s by fastforce
qed

theorem absent_needs_every_lane_witness:
  "\<exists>song ls. orderedLoop id (exOrc [exLane InnerTube, exLane Musixmatch]) None exTrack []
       [(exLane InnerTube, exAnswer (exWords\<lparr>WordAns := WordAnswerAbsent\<rparr>), None)] zeroResult [] exWorld = (Committed song, ls, exWorld)
     \<and> WordAns song \<noteq> WordAnswerAbsent"
proof -
  let ?s = "exWords\<lparr>WordAns := WordAnswerAbsent\<rparr>"
  let ?xs = "[(exLane InnerTube, exAnswer ?s, None :: goerr option)]" and ?o = "exOrc [exLane InnerTube, exLane Musixmatch]"
  have c: "classifyCandidate None ?s exTrack None None = candidateCommit"
    by (simp add: classifyCandidate_def isBlocked_def IsSuitable_def QualityOf_def exWords_def zeroSong_def zeroTrack_def
      less_Quality_def timingDecision_def judgeAgainst_def DecidePromotion_def lit_def)
  have "\<exists>song ls. orderedLoop id ?o None exTrack [] ?xs zeroResult [] exWorld = (Committed song, ls, exWorld)"
    by (simp add: ex_dispatch c less_Quality_def)
  then obtain song ls where run: "orderedLoop id ?o None exTrack [] ?xs zeroResult [] exWorld = (Committed song, ls, exWorld)" by blast
  have "laneWordCapable (exLane Musixmatch)"
    by (simp add: laneWordCapable_def WordCapable_def NormalizeName_def Musixmatch_def lit_def trimSpace_def isSpace_def
        toLower_def lowerRune_def)
  then show ?thesis using absent_needs_every_lane [OF run, of "[exLane Musixmatch]" "exLane Musixmatch"] run
    by (auto simp: exOrc_def)
qed

text \<open>
  When the breaker of every lane is open, an ordered dispatch asks nobody: it returns the
  unavailable sentinel with an empty song, and leaves every lane, pacer and report as it was.
\<close>

theorem all_lanes_open:
  assumes "length envs = length (o_lanes orc)" and "o_lanes orc \<noteq> []"
    and "\<forall>(lane, env, c) \<in> set (zip (o_lanes orc) envs). viewState (tAllow env) (lbreaker lane) = StateOpen \<and> c = None"
  shows "findOrdered nkey orc ctx track path envs None w = ((zeroSong, Some (Sentinel ErrLaneUnavailable)), orc, w)"
proof -
  have "untouched zeroResult" by (simp add: untouched_def zeroResult_def)
  from orderedLoop_all_open [OF assms(3) this] obtain r where
    run: "orderedLoop nkey orc ctx track path (zip (o_lanes orc) envs) zeroResult [] w = (Exhausted r [], map fst (zip (o_lanes orc) envs), w)"
    and u: "untouched r" by blast
  have l: "map fst (zip (o_lanes orc) envs) = o_lanes orc" using assms(1) by simp
  have "wordAnswerFor (wordAnswered r) orc = WordAnswerUnknown" using u by (simp add: wordAnswerFor_def untouched_def)
  then show ?thesis using resolve_untouched [OF u assms(2)] run l
    by (simp add: findOrdered_def orderedFinish_def laneAttemptsFor_def zeroSong_def ungatedWordAnswer_def Let_def)
qed

theorem all_lanes_open_witness:
  "findOrdered id (exOrc [NewProviderLane InnerTube (snd (Trip 5 exBreaker)) None]) None exTrack [] [(exAnswer exWords, None)] None exWorld
     = ((zeroSong, Some (Sentinel ErrLaneUnavailable)), exOrc [NewProviderLane InnerTube (snd (Trip 5 exBreaker)) None], exWorld)"
proof (rule all_lanes_open)
  have "openUntil (snd (Trip 5 exBreaker)) = 5 + tr_Window (fst (Trip 5 exBreaker))" by (rule Trip_openUntil)
  moreover have "tr_Window (fst (Trip 5 exBreaker)) = minute"
    by (simp add: Trip_def exBreaker_def NewBreaker_def Let_def Geometric_def minute_def second_def hour_def)
  ultimately show "\<forall>(lane, env, c) \<in> set (zip (o_lanes (exOrc [NewProviderLane InnerTube (snd (Trip 5 exBreaker)) None])) [(exAnswer exWords, None)]).
      viewState (tAllow env) (lbreaker lane) = StateOpen \<and> c = None"
    by (simp add: exOrc_def breakerSnapshot_def NewProviderLane_def exAnswer_def exEnv_def isZero_def minute_def second_def Let_def)
qed (simp_all add: exOrc_def)

end
