(* ===== verification/Parallel.thy ===== *)
theory Parallel
  imports Dispatch_Accounts
begin

text \<open>
  The orchestrator's parallel dispatch (\<open>internal/orchestrator/parallel.go\<close>). The racing lanes run
  on goroutines of their own and report over a buffered channel; the collector selects between a
  report, the end of the upgrade window and the parent's cancellation. One run of the collector
  is a list of \<open>raceEvent\<close>s in the order it receives them, so every interleaving is a list; an
  event that cannot happen in a state (a second report of a lane, a window that is not armed) is
  passed over. A lane's call takes effect when its report is received. Running out of events is
  \<open>None\<close>: the collector is still waiting.
\<close>

section \<open>Definitions\<close>

record laneResult =
  lr_song :: Song
  lr_err :: "goerr option"
  lr_name :: gotext
  lr_local :: bool
  lr_instrumentalOnly :: bool
  lr_wordCapable :: bool
  lr_open :: bool

definition laneReport :: "LaneEnv \<Rightarrow> Lane \<Rightarrow> Song \<times> goerr option \<Rightarrow> laneResult" where
  "laneReport env lane res = \<lparr>lr_song = fst res, lr_err = snd res, lr_name = lname lane,
     lr_local = llocal lane, lr_instrumentalOnly = instrumentalOnly lane,
     lr_wordCapable = laneWordCapable lane, lr_open = laneOpen (tRead env) lane\<rparr>"

record raceState =
  rs_r :: dispatchResult
  rs_consulted :: "attemptedLane list"
  rs_held :: "(Song \<times> gotext) option"
  rs_upgrade :: bool
  rs_pending :: nat
  rs_words :: int

datatype raceEvent = Deliver nat "goerr option" | UpgradeElapsed "goerr option" | ParentDone goerr

datatype raceNext = RaceReturn "Song \<times> goerr option" | RaceTail raceState | RaceGo raceState

text \<open>\<open>stagedLanes\<close>, with the lanes collected so far.\<close>

fun stageLoop :: "Lane list \<Rightarrow> Lane list \<times> Lane list \<times> Lane list \<Rightarrow> Lane list \<times> Lane list \<times> Lane list" where
  "stageLoop [] st = st"
| "stageLoop (lane # lanes) (pre, race, post) =
     (if \<not> instrumentalOnly lane then stageLoop lanes (pre, race @ [lane], post)
      else if race = [] then stageLoop lanes (pre @ [lane], race, post)
      else stageLoop lanes (pre, race, post @ [lane]))"

definition stagedLanes :: "Orchestrator \<Rightarrow> Lane list \<times> Lane list \<times> Lane list" where
  "stagedLanes orc = stageLoop (o_lanes orc) ([], [], [])"

definition runStaged :: "(gotext \<Rightarrow> gotext) \<Rightarrow> Orchestrator \<Rightarrow> blockIdentity \<Rightarrow> Track \<Rightarrow> gotext \<Rightarrow> LaneEnv \<Rightarrow> Lane
    \<Rightarrow> dispatchResult \<Rightarrow> attemptedLane list \<Rightarrow> World
    \<Rightarrow> (Song option \<times> dispatchResult \<times> attemptedLane list) \<times> Lane \<times> World" where
  "runStaged nkey orc ctx track path env lane r cons w =
     (let ((song, err), lane, w) = laneFindLyrics nkey env track path lane w;
          class = ClassifyOutcome err;
          r = noteUntried err class (lname lane) (instrumentalOnly lane) r
      in if class = OutcomeUnavailable then ((None, r, cons), lane, w)
         else let r = consult (llocal lane) r; cons' = cons @ [attempt lane]
              in case err of
                   Some e \<Rightarrow> ((None, rankErr e class (noteTransport class (laneOpen (tRead env) lane) r), cons'), lane, w)
                 | None \<Rightarrow>
                     (case classifyCandidate ctx song track (o_guard orc) (o_blocks orc) of
                        candidateCommit \<Rightarrow>
                          ((Some (song\<lparr>WinningLane := lname lane, LaneAttempts := laneAttemptsFor cons' (lname lane)\<rparr>), r, cons'), lane, w)
                      | candidateBlocked \<Rightarrow> ((None, r\<lparr>blockedSeen := True\<rparr>, cons), lane, w)
                      | kind \<Rightarrow> ((None, retainCandidate song (lname lane) (retainQuality song track) kind r, cons'), lane, w)))"

text \<open>
  The staged lanes run in order, each with its environment and the value of \<open>ctx.Err()\<close> after it:
  \<open>Inl\<close> ends the dispatch.
\<close>

fun stagedLoop :: "(gotext \<Rightarrow> gotext) \<Rightarrow> Orchestrator \<Rightarrow> blockIdentity \<Rightarrow> Track \<Rightarrow> gotext
    \<Rightarrow> (Lane \<times> LaneEnv \<times> goerr option) list \<Rightarrow> dispatchResult \<Rightarrow> attemptedLane list \<Rightarrow> World
    \<Rightarrow> ((Song \<times> goerr option) + dispatchResult \<times> attemptedLane list) \<times> Lane list \<times> World" where
  "stagedLoop nkey orc ctx track path [] r cons w = (Inr (r, cons), [], w)"
| "stagedLoop nkey orc ctx track path ((lane, env, ce) # rest) r cons w =
     (let ((hit, r', cons'), lane', w') = runStaged nkey orc ctx track path env lane r cons w
      in case ce of
           Some e \<Rightarrow> (Inl (zeroSong, Some e), lane' # map fst rest, w')
         | None \<Rightarrow>
             (case hit of
                Some song \<Rightarrow> (Inl (song, None), lane' # map fst rest, w')
              | None \<Rightarrow> (let (fin, lanes, w'') = stagedLoop nkey orc ctx track path rest r' cons' w'
                        in (fin, lane' # lanes, w''))))"

text \<open>The held song, returned with its attribution.\<close>

definition raceCommit :: "Orchestrator \<Rightarrow> attemptedLane list \<Rightarrow> int \<Rightarrow> Song \<Rightarrow> gotext \<Rightarrow> Song" where
  "raceCommit orc cons n song lane =
     song\<lparr>WinningLane := lane, LaneAttempts := laneAttemptsFor cons lane,
          WordAns := ungatedWordAnswer (WordAns song) n orc\<rparr>"

text \<open>
  What the collector does with the song of one report, once its lane is counted as consulted
  (\<open>cons\<close> ends with it); \<open>Inl\<close> is an immediate win.
\<close>

definition raceSong :: "Orchestrator \<Rightarrow> blockIdentity \<Rightarrow> Track \<Rightarrow> laneResult \<Rightarrow> attemptedLane list \<Rightarrow> raceState \<Rightarrow> Song + raceState" where
  "raceSong orc ctx track res cons st =
     (let song = lr_song res;
          held = st\<lparr>rs_consulted := cons,
                    rs_held := (case rs_held st of None \<Rightarrow> Some (song, lr_name res) | Some h \<Rightarrow> Some h),
                    rs_upgrade := rs_upgrade st \<or> rs_pending st > 0\<rparr>;
          retained = (\<lambda>kind. st\<lparr>rs_r := retainCandidate song (lr_name res) (retainQuality song track) kind (rs_r st),
                               rs_consulted := cons\<rparr>)
      in case classifyCandidate ctx song track (o_guard orc) (o_blocks orc) of
           candidateCommit \<Rightarrow>
             (if QualityOf song \<ge> QualitySynced \<and> (rs_held st = None \<or> landedQuality song track > QualityUnsynced)
              then Inl (raceCommit orc cons (rs_words st) song (lr_name res)) else Inr held)
         | candidateHold \<Rightarrow> Inr held
         | candidateBlocked \<Rightarrow>
             Inr (st\<lparr>rs_r := (rs_r st)\<lparr>blockedSeen := True\<rparr>,
                     rs_words := (if answersWord (lr_wordCapable res) song None then rs_words st - 1 else rs_words st)\<rparr>)
         | candidateRetain \<Rightarrow> Inr (retained candidateRetain)
         | candidateRefused \<Rightarrow> Inr (retained candidateRefused))"

definition raceFold :: "Orchestrator \<Rightarrow> blockIdentity \<Rightarrow> Track \<Rightarrow> laneResult \<Rightarrow> raceState \<Rightarrow> Song + raceState" where
  "raceFold orc ctx track res st =
     (let class = ClassifyOutcome (lr_err res);
          r = noteUntried (lr_err res) class (lr_name res) (lr_instrumentalOnly res) (rs_r st);
          n = (if answersWord (lr_wordCapable res) (lr_song res) (lr_err res) then rs_words st + 1 else rs_words st);
          cons = rs_consulted st @ [\<lparr>at_name = lr_name res, at_local = lr_local res\<rparr>]
      in if isCanceled (lr_err res) \<or> class = OutcomeUnavailable then Inr (st\<lparr>rs_r := r, rs_words := n\<rparr>)
         else case lr_err res of
                Some e \<Rightarrow> Inr (st\<lparr>rs_r := rankErr e class (noteTransport class (lr_open res) (consult (lr_local res) r)),
                                 rs_words := n, rs_consulted := cons\<rparr>)
              | None \<Rightarrow> raceSong orc ctx track res cons (st\<lparr>rs_r := consult (lr_local res) r, rs_words := n\<rparr>))"

definition raceReceive :: "Orchestrator \<Rightarrow> blockIdentity \<Rightarrow> Track \<Rightarrow> goerr option \<Rightarrow> laneResult \<Rightarrow> raceState \<Rightarrow> raceNext" where
  "raceReceive orc ctx track ctxErr res st =
     (case raceFold orc ctx track res (st\<lparr>rs_pending := rs_pending st - 1\<rparr>) of
        Inl song \<Rightarrow> RaceReturn (song, None)
      | Inr st' \<Rightarrow>
          (if rs_pending st' = 0
           then (case ctxErr of Some e \<Rightarrow> RaceReturn (zeroSong, Some e)
                 | None \<Rightarrow> (case rs_held st' of
                     Some (song, lane) \<Rightarrow> RaceReturn (raceCommit orc (rs_consulted st') (rs_words st') song lane, None)
                   | None \<Rightarrow> RaceTail st'))
           else RaceGo st'))"

definition raceElapsed :: "Orchestrator \<Rightarrow> goerr option \<Rightarrow> raceState \<Rightarrow> raceNext" where
  "raceElapsed orc ctxErr st =
     (if \<not> rs_upgrade st then RaceGo st
      else case ctxErr of Some e \<Rightarrow> RaceReturn (zeroSong, Some e)
           | None \<Rightarrow> (case rs_held st of
               Some (song, lane) \<Rightarrow> RaceReturn (raceCommit orc (rs_consulted st) (rs_words st) song lane, None)
             | None \<Rightarrow> RaceReturn (raceCommit orc (rs_consulted st) (rs_words st) zeroSong [], None)))"

text \<open>
  The collector. A slot is a racing lane with its environment and whether it has reported. The
  result is the value returned, or the state for the no-result tail (\<open>Inr\<close>).
\<close>

type_synonym slot = "Lane \<times> LaneEnv \<times> bool"

fun raceLoop :: "(gotext \<Rightarrow> gotext) \<Rightarrow> Orchestrator \<Rightarrow> blockIdentity \<Rightarrow> Track \<Rightarrow> gotext \<Rightarrow> raceEvent list
    \<Rightarrow> raceState \<Rightarrow> slot list \<Rightarrow> World \<Rightarrow> (((Song \<times> goerr option) + raceState) \<times> slot list \<times> World) option" where
  "raceLoop nkey orc ctx track path [] st slots w = None"
| "raceLoop nkey orc ctx track path (ParentDone e # evs) st slots w = Some (Inl (zeroSong, Some e), slots, w)"
| "raceLoop nkey orc ctx track path (UpgradeElapsed ce # evs) st slots w =
     (case raceElapsed orc ce st of
        RaceReturn res \<Rightarrow> Some (Inl res, slots, w)
      | _ \<Rightarrow> raceLoop nkey orc ctx track path evs st slots w)"
| "raceLoop nkey orc ctx track path (Deliver i ce # evs) st slots w =
     (if i \<ge> length slots \<or> snd (snd (slots ! i)) then raceLoop nkey orc ctx track path evs st slots w
      else let (lane, env, _) = slots ! i;
               (res, lane', w') = laneFindLyrics nkey env track path lane w;
               slots' = slots[i := (lane', env, True)]
           in case raceReceive orc ctx track ce (laneReport env lane' res) st of
                RaceReturn ans \<Rightarrow> Some (Inl ans, slots', w')
              | RaceTail st' \<Rightarrow> Some (Inr st', slots', w')
              | RaceGo st' \<Rightarrow> raceLoop nkey orc ctx track path evs st' slots' w')"

definition finishParallel :: "(gotext \<Rightarrow> gotext) \<Rightarrow> Orchestrator \<Rightarrow> blockIdentity \<Rightarrow> Track \<Rightarrow> gotext
    \<Rightarrow> (Lane \<times> LaneEnv \<times> goerr option) list \<Rightarrow> goerr option \<Rightarrow> dispatchResult \<Rightarrow> attemptedLane list \<Rightarrow> int \<Rightarrow> World
    \<Rightarrow> (Song \<times> goerr option) \<times> Lane list \<times> World" where
  "finishParallel nkey orc ctx track path post ctxErr r cons n w =
     (let (fin, lanes, w') = stagedLoop nkey orc ctx track path post r cons w
      in case fin of
           Inl ans \<Rightarrow> (ans, lanes, w')
         | Inr (r', cons') \<Rightarrow>
             (let (song, err) = resolve orc ctxErr r'
              in ((song\<lparr>LaneAttempts := laneAttemptsFor cons' (WinningLane song),
                        WordAns := ungatedWordAnswer (WordAns song) n orc\<rparr>, err), lanes, w')))"

text \<open>
  One parallel dispatch: the environments of the staged and racing lanes, the schedule of the
  race, and \<open>ctx.Err()\<close> at the start and at the resolution. The lanes come back in their groups.
\<close>

definition findParallel :: "(gotext \<Rightarrow> gotext) \<Rightarrow> Orchestrator \<Rightarrow> blockIdentity \<Rightarrow> Track \<Rightarrow> gotext
    \<Rightarrow> (LaneEnv \<times> goerr option) list \<Rightarrow> LaneEnv list \<Rightarrow> (LaneEnv \<times> goerr option) list
    \<Rightarrow> raceEvent list \<Rightarrow> goerr option \<Rightarrow> goerr option \<Rightarrow> World
    \<Rightarrow> ((Song \<times> goerr option) \<times> (Lane list \<times> Lane list \<times> Lane list) \<times> World) option" where
  "findParallel nkey orc ctx track path preEnvs raceEnvs postEnvs evs startErr endErr w =
     (let (pre, race, post) = stagedLanes orc
      in case startErr of
           Some e \<Rightarrow> Some ((zeroSong, Some e), (pre, race, post), w)
         | None \<Rightarrow>
             (let (fin, pre', w1) = stagedLoop nkey orc ctx track path (zip pre preEnvs) zeroResult [] w
              in case fin of
                   Inl ans \<Rightarrow> Some (ans, (pre', race, post), w1)
                 | Inr (r, cons) \<Rightarrow>
                     (if race = []
                      then (let (ans, post', w2) = finishParallel nkey orc ctx track path (zip post postEnvs) endErr r cons 0 w1
                            in Some (ans, (pre', race, post'), w2))
                      else case raceLoop nkey orc ctx track path evs
                                  \<lparr>rs_r = r, rs_consulted = cons, rs_held = None, rs_upgrade = False,
                                   rs_pending = length race, rs_words = 0\<rparr>
                                  (zip race (zip raceEnvs (replicate (length race) False))) w1 of
                             None \<Rightarrow> None
                           | Some (Inl ans, slots, w2) \<Rightarrow> Some (ans, (pre', map fst slots, post), w2)
                           | Some (Inr st, slots, w2) \<Rightarrow>
                               (let asked_post = (if consulted (rs_r st) = consulted r then [] else zip post postEnvs);
                                    (ans, post', w3) = finishParallel nkey orc ctx track path asked_post endErr
                                       (rs_r st) (rs_consulted st) (rs_words st) w2
                                in Some (ans, (pre', map fst slots, if consulted (rs_r st) = consulted r then post else post'), w3)))))"

text \<open>
  The invariant of the collector: \<open>rs_pending\<close> counts the lanes that have not reported, the window
  is armed only while a lyric is held, and every kept song satisfies \<open>P\<close>.
\<close>

definition unreported :: "slot list \<Rightarrow> nat" where
  "unreported slots = length (filter (\<lambda>s. \<not> snd (snd s)) slots)"

definition race_ok :: "(Song \<Rightarrow> gotext \<Rightarrow> bool) \<Rightarrow> raceState \<Rightarrow> bool" where
  "race_ok P st \<longleftrightarrow> (rs_upgrade st \<longrightarrow> rs_held st \<noteq> None) \<and> keptAll P (rs_r st)
     \<and> (case rs_held st of None \<Rightarrow> True | Some (song, lane) \<Rightarrow> P song lane)"

text \<open>An answer that is a kept song with its attribution, or an error with an empty song.\<close>

definition answer_ok :: "(Song \<Rightarrow> gotext \<Rightarrow> bool) \<Rightarrow> Song \<times> goerr option \<Rightarrow> bool" where
  "answer_ok P ans \<longleftrightarrow> (content (fst ans) = zeroSong \<and> snd ans \<noteq> None) \<or> (\<exists>s l. P s l \<and> content (fst ans) = content s)"

text \<open>An instrumental verdict of the detector, used by the witnesses.\<close>

definition exVerdict :: DetectResult where
  "exVerdict = \<lparr>dr_Instrumental = True, dr_Confidence = fofInt 1, dr_VocalConfidence = fofInt 0, dr_SpeechConfidence = fofInt 0,
     dr_WinningVocalClass = [], dr_Version = lit ''v1'', dr_Reusable = True\<rparr>"

definition exMarker :: LaneEnv where
  "exMarker = (exEnv (Opaque []))\<lparr>detect := (\<lambda>_. Inr exVerdict)\<rparr>"

section \<open>Lemmas\<close>

lemma stageLoop_eq:
  "stageLoop lanes (pre, race, post) =
     (pre @ (if race = [] then takeWhile instrumentalOnly lanes else []),
      race @ filter (\<lambda>l. \<not> instrumentalOnly l) lanes,
      post @ filter instrumentalOnly (if race = [] then dropWhile instrumentalOnly lanes else lanes))"
  by (induction lanes arbitrary: pre race post) (auto simp: filter_empty_conv)

lemma stagedLanes_eq:
  "stagedLanes orc = (takeWhile instrumentalOnly (o_lanes orc), filter (\<lambda>l. \<not> instrumentalOnly l) (o_lanes orc),
     filter instrumentalOnly (dropWhile instrumentalOnly (o_lanes orc)))"
  by (simp add: stagedLanes_def stageLoop_eq)

lemma content_raceCommit [simp]: "content (raceCommit orc cons n song lane) = content song"
  by (simp add: raceCommit_def content_def)

lemma content_zero [simp]: "content zeroSong = zeroSong"
  by (simp add: content_def zeroSong_def)

lemma raceSong_ok:
  assumes ok: "race_ok P st" and p: "\<not> isBlocked (o_blocks orc) ctx (lr_song res) \<Longrightarrow> P (lr_song res) (lr_name res)"
  shows "case raceSong orc ctx track res cons st of
      Inl song \<Rightarrow> answer_ok P (song, None)
    | Inr st' \<Rightarrow> race_ok P st' \<and> rs_pending st' = rs_pending st"
proof -
  let ?k = "classifyCandidate ctx (lr_song res) track (o_guard orc) (o_blocks orc)"
  have ps: "?k \<noteq> candidateBlocked \<Longrightarrow> P (lr_song res) (lr_name res)" using p classifyCandidate_blocked by blast
  have k: "keptAll P (rs_r st)" using ok by (simp add: race_ok_def)
  then have b: "keptAll P ((rs_r st)\<lparr>blockedSeen := True\<rparr>)" by (simp add: keptAll_def)
  show ?thesis
  proof (cases ?k)
    case candidateBlocked
    then show ?thesis using ok b by (simp add: raceSong_def race_ok_def Let_def)
  next
    case candidateRetain
    then show ?thesis using ok keptAll_offer(1) [OF k ps] by (simp add: raceSong_def race_ok_def Let_def)
  next
    case candidateRefused
    then show ?thesis using ok keptAll_offer(1) [OF k ps] by (simp add: raceSong_def race_ok_def Let_def)
  next
    case candidateHold
    then show ?thesis using ok ps by (auto simp: raceSong_def race_ok_def Let_def split: option.splits)
  next
    case candidateCommit
    then have P: "P (lr_song res) (lr_name res)" using ps by simp
    then have "answer_ok P (raceCommit orc cons (rs_words st) (lr_song res) (lr_name res), None)"
      unfolding answer_ok_def by (metis fst_conv content_raceCommit)
    then show ?thesis using candidateCommit ok P by (auto simp: raceSong_def race_ok_def Let_def split: option.splits)
  qed
qed

lemma raceFold_ok:
  assumes ok: "race_ok P st"
    and p: "lr_err res = None \<Longrightarrow> \<not> isBlocked (o_blocks orc) ctx (lr_song res) \<Longrightarrow> P (lr_song res) (lr_name res)"
  shows "case raceFold orc ctx track res st of
      Inl song \<Rightarrow> answer_ok P (song, None)
    | Inr st' \<Rightarrow> race_ok P st' \<and> rs_pending st' = rs_pending st"
proof -
  let ?r = "noteUntried (lr_err res) (ClassifyOutcome (lr_err res)) (lr_name res) (lr_instrumentalOnly res) (rs_r st)"
  have kv: "keptAll P x" if "keptView x = keptView (rs_r st)" for x
    using ok keptAll_view [OF that, of P] unfolding race_ok_def by blast
  have base: "keptAll P ?r" "keptAll P (consult (lr_local res) ?r)"
    "\<And>e c c' o'. keptAll P (rankErr e c (noteTransport c' o' (consult (lr_local res) ?r)))"
    by (rule kv; simp)+
  show ?thesis
  proof (cases "lr_err res")
    case (Some e)
    then show ?thesis using ok base by (simp add: raceFold_def race_ok_def Let_def)
  next
    case None
    define n where "n = (if answersWord (lr_wordCapable res) (lr_song res) None then rs_words st + 1 else rs_words st)"
    define st1 where "st1 = st\<lparr>rs_r := consult (lr_local res) ?r, rs_words := n\<rparr>"
    have eq: "raceFold orc ctx track res st =
        raceSong orc ctx track res (rs_consulted st @ [\<lparr>at_name = lr_name res, at_local = lr_local res\<rparr>]) st1"
      unfolding st1_def n_def by (simp add: raceFold_def None isCanceled_def Let_def)
    have ok1: "race_ok P st1" and pd: "rs_pending st1 = rs_pending st" using ok base(2) by (simp_all add: race_ok_def st1_def)
    show ?thesis unfolding eq pd [symmetric] by (rule raceSong_ok [OF ok1]) (rule p [OF None])
  qed
qed

text \<open>A report leaves the collector with an answer, or with one lane fewer to wait for.\<close>

lemma raceReceive_ok:
  assumes ok: "race_ok P st"
    and p: "lr_err res = None \<Longrightarrow> \<not> isBlocked (o_blocks orc) ctx (lr_song res) \<Longrightarrow> P (lr_song res) (lr_name res)"
  shows "case raceReceive orc ctx track ce res st of
      RaceReturn ans \<Rightarrow> answer_ok P ans
    | RaceTail st' \<Rightarrow> race_ok P st' \<and> rs_held st' = None
    | RaceGo st' \<Rightarrow> race_ok P st' \<and> rs_pending st' = rs_pending st - 1 \<and> 0 < rs_pending st'"
proof -
  have "race_ok P (st\<lparr>rs_pending := rs_pending st - 1\<rparr>)" using ok by (simp add: race_ok_def)
  note f = raceFold_ok [where orc = orc and ctx = ctx and track = track, OF this p]
  have held: "answer_ok P (raceCommit orc cons n song lane, None)" if "race_ok P s" "rs_held s = Some (song, lane)" for s song lane cons n
    using that unfolding race_ok_def answer_ok_def by (auto intro!: exI)
  show ?thesis
  proof (cases "raceFold orc ctx track res (st\<lparr>rs_pending := rs_pending st - 1\<rparr>)")
    case (Inl song)
    then show ?thesis using f by (simp add: raceReceive_def)
  next
    case (Inr st')
    then have "race_ok P st'" "rs_pending st' = rs_pending st - 1" using f by simp_all
    then show ?thesis using held Inr
      by (auto simp: raceReceive_def answer_ok_def split: option.splits)
  qed
qed

lemma raceElapsed_ok:
  assumes "race_ok P st"
  shows "case raceElapsed orc ce st of RaceReturn ans \<Rightarrow> answer_ok P ans | RaceTail st' \<Rightarrow> False | RaceGo st' \<Rightarrow> st' = st"
proof (cases "rs_upgrade st")
  case True
  then obtain song lane where h: "rs_held st = Some (song, lane)" and "P song lane"
    using assms by (auto simp: race_ok_def split: option.splits)
  then have "answer_ok P (raceCommit orc (rs_consulted st) (rs_words st) song lane, None)"
    unfolding answer_ok_def by (metis fst_conv content_raceCommit)
  then show ?thesis using True h by (auto simp: raceElapsed_def answer_ok_def split: option.splits)
qed (simp add: raceElapsed_def)

lemma raceLoop_ok:
  assumes "raceLoop nkey orc ctx track path evs st slots w = Some (out, slots', w')" "race_ok P st"
    and "\<And>song l. \<not> isBlocked (o_blocks orc) ctx song \<Longrightarrow> P song l"
  shows "case out of Inl ans \<Rightarrow> answer_ok P ans | Inr st' \<Rightarrow> race_ok P st'"
  using assms(1,2)
proof (induction evs arbitrary: st slots w)
  case (Cons ev evs)
  show ?case
  proof (cases ev)
    case (ParentDone e)
    then show ?thesis using Cons.prems by (auto simp: answer_ok_def)
  next
    case (UpgradeElapsed ce)
    then show ?thesis using Cons raceElapsed_ok [OF Cons.prems(2), of orc ce] by (auto split: raceNext.splits)
  next
    case (Deliver i ce)
    show ?thesis
    proof (cases "i \<ge> length slots \<or> snd (snd (slots ! i))")
      case True
      then show ?thesis using Cons Deliver by auto
    next
      case False
      obtain lane env b where sl: "slots ! i = (lane, env, b)" by (metis surj_pair)
      obtain res lane' w1 where f: "laneFindLyrics nkey env track path lane w = (res, lane', w1)" by (metis surj_pair)
      have "case raceReceive orc ctx track ce (laneReport env lane' res) st of
          RaceReturn ans \<Rightarrow> answer_ok P ans | RaceTail st' \<Rightarrow> race_ok P st' \<and> rs_held st' = None
        | RaceGo st' \<Rightarrow> race_ok P st' \<and> rs_pending st' = rs_pending st - 1 \<and> 0 < rs_pending st'"
        by (rule raceReceive_ok [OF Cons.prems(2)]) (rule assms(3))
      then show ?thesis using Cons.prems(1) Cons.IH False sl f Deliver by (auto split: raceNext.splits)
    qed
  qed
qed simp

lemma unreported_update:
  "i < length slots \<Longrightarrow> \<not> snd (snd (slots ! i)) \<Longrightarrow> unreported (slots[i := (l, e, True)]) + 1 = unreported slots"
  unfolding unreported_def
proof (induction slots arbitrary: i)
  case (Cons s slots)
  then show ?case by (cases i) auto
qed simp

lemma unreported_zero: "unreported slots > 0 \<Longrightarrow> \<exists>i < length slots. \<not> snd (snd (slots ! i))"
  unfolding unreported_def by (metis filter_False in_set_conv_nth length_greater_0_conv)

text \<open>The collector cannot wait forever: enough reports end it.\<close>

lemma raceLoop_returns:
  assumes "rs_pending st = unreported slots" "0 < unreported slots" "race_ok (\<lambda>_ _. True) st"
    and "\<forall>i < length slots. \<not> snd (snd (slots ! i)) \<longrightarrow> (\<exists>ce. Deliver i ce \<in> set evs)"
  shows "raceLoop nkey orc ctx track path evs st slots w \<noteq> None"
  using assms
proof (induction evs arbitrary: st slots w)
  case Nil
  then show ?case using unreported_zero [of slots] by auto
next
  case (Cons ev evs)
  show ?case
  proof (cases ev)
    case (UpgradeElapsed ce)
    then show ?thesis using Cons raceElapsed_ok [OF Cons.prems(3), of orc ce] by (auto split: raceNext.splits)
  next
    case (Deliver i ce)
    show ?thesis
    proof (cases "i \<ge> length slots \<or> snd (snd (slots ! i))")
      case True
      then have "\<forall>j < length slots. \<not> snd (snd (slots ! j)) \<longrightarrow> (\<exists>ce. Deliver j ce \<in> set evs)"
        using Cons.prems(4) Deliver by auto
      then show ?thesis using Cons.IH [OF Cons.prems(1-3)] True Deliver by simp
    next
      case False
      obtain lane env b where sl: "slots ! i = (lane, env, b)" by (metis surj_pair)
      obtain res lane' w1 where f: "laneFindLyrics nkey env track path lane w = (res, lane', w1)" by (metis surj_pair)
      let ?slots = "slots[i := (lane', env, True)]"
      have un: "unreported ?slots + 1 = unreported slots" using unreported_update False by simp
      have all: "\<forall>j < length ?slots. \<not> snd (snd (?slots ! j)) \<longrightarrow> (\<exists>ce. Deliver j ce \<in> set evs)"
      proof (intro allI impI)
        fix j assume j: "j < length ?slots" "\<not> snd (snd (?slots ! j))"
        then have "j \<noteq> i" by (cases "j = i") simp_all
        then show "\<exists>ce. Deliver j ce \<in> set evs" using Cons.prems(4) Deliver j by auto
      qed
      have "case raceReceive orc ctx track ce (laneReport env lane' res) st of
          RaceReturn ans \<Rightarrow> True | RaceTail st' \<Rightarrow> True
        | RaceGo st' \<Rightarrow> race_ok (\<lambda>_ _. True) st' \<and> rs_pending st' = rs_pending st - 1 \<and> 0 < rs_pending st'"
        using raceReceive_ok [OF Cons.prems(3), of "laneReport env lane' res" orc ctx track ce]
        by (auto split: raceNext.splits)
      then show ?thesis
        using Cons.IH [OF _ _ _ all] Cons.prems(1) un False sl f Deliver by (auto split: raceNext.splits)
    qed
  qed simp
qed

lemma runStaged_ok:
  assumes "runStaged nkey orc ctx track path env lane r cons w = ((hit, r', cons'), lane', w')" "keptAll P r"
    and "\<And>song l. \<not> isBlocked (o_blocks orc) ctx song \<Longrightarrow> P song l"
  shows "keptAll P r' \<and> (case hit of None \<Rightarrow> True | Some song \<Rightarrow> answer_ok P (song, None))"
proof -
  obtain song err l1 w1 where f: "laneFindLyrics nkey env track path lane w = ((song, err), l1, w1)" by (metis surj_pair)
  let ?r = "noteUntried err (ClassifyOutcome err) (lname l1) (instrumentalOnly l1) r"
  let ?k = "classifyCandidate ctx song track (o_guard orc) (o_blocks orc)"
  have kv: "keptAll P x" if "keptView x = keptView r" for x using assms(2) keptAll_view [OF that, of P] by blast
  have base: "keptAll P ?r" "keptAll P (consult (llocal l1) ?r)"
    "\<And>e c c' o'. keptAll P (rankErr e c (noteTransport c' o' (consult (llocal l1) ?r)))"
    by (rule kv; simp)+
  have b: "keptAll P ((consult (llocal l1) ?r)\<lparr>blockedSeen := True\<rparr>)" using base(2) by (simp add: keptAll_def)
  have p: "?k \<noteq> candidateBlocked \<Longrightarrow> P song l" for l using assms(3) classifyCandidate_blocked by blast
  have win: "?k = candidateCommit \<Longrightarrow> answer_ok P (song\<lparr>WinningLane := a, LaneAttempts := b\<rparr>, None)" for a b
    unfolding answer_ok_def by (intro disjI2 exI [of _ song] exI [of _ a]) (simp add: p content_def)
  show ?thesis
  proof (cases err)
    case (Some e)
    then show ?thesis using assms(1) f base by (auto simp: runStaged_def Let_def split: if_splits)
  next
    case None
    then show ?thesis using assms(1) f base b win keptAll_offer(1) [OF base(2)] p
      by (auto simp: runStaged_def Let_def split: candidate.splits)
  qed
qed

lemma stagedLoop_ok:
  assumes "stagedLoop nkey orc ctx track path xs r cons w = (fin, lanes, w')" "keptAll P r"
    and "\<And>song l. \<not> isBlocked (o_blocks orc) ctx song \<Longrightarrow> P song l"
  shows "case fin of Inl ans \<Rightarrow> answer_ok P ans | Inr (r', cons') \<Rightarrow> keptAll P r'"
  using assms(1,2)
proof (induction xs arbitrary: r cons w lanes)
  case (Cons x xs)
  obtain lane env ce where x: "x = (lane, env, ce)" by (metis surj_pair)
  obtain hit r1 cons1 l1 w1 where st: "runStaged nkey orc ctx track path env lane r cons w = ((hit, r1, cons1), l1, w1)"
    by (metis surj_pair)
  note ok = runStaged_ok [OF st Cons.prems(2) assms(3)]
  show ?case
  proof (cases "ce = None \<and> hit = None")
    case True
    then obtain lanes1 where "stagedLoop nkey orc ctx track path xs r1 cons1 w1 = (fin, lanes1, w')"
      using Cons.prems(1) x st by (auto split: prod.splits)
    then show ?thesis using Cons.IH ok by blast
  next
    case False
    then consider e where "fin = Inl (zeroSong, Some e)" | song where "hit = Some song" "fin = Inl (song, None)"
      using Cons.prems(1) x st by (cases ce; cases hit) auto
    then show ?thesis using ok by cases (simp_all add: answer_ok_def)
  qed
qed auto

lemma finishParallel_ok:
  assumes "keptAll P r" and "\<And>song l. \<not> isBlocked (o_blocks orc) ctx song \<Longrightarrow> P song l"
    and "finishParallel nkey orc ctx track path post ce r cons n w = (ans, lanes, w')"
  shows "answer_ok P ans"
proof -
  obtain fin ls w1 where st: "stagedLoop nkey orc ctx track path post r cons w = (fin, ls, w1)" by (metis surj_pair)
  note ok = stagedLoop_ok [OF st assms(1,2)]
  show ?thesis
  proof (cases fin)
    case (Inl a)
    then show ?thesis using assms(3) st ok by (simp add: finishParallel_def)
  next
    case (Inr rc)
    obtain r1 c1 where rc: "rc = (r1, c1)" by (cases rc)
    obtain song err where rs: "resolve orc ce r1 = (song, err)" by (cases "resolve orc ce r1")
    have a: "fst ans = song\<lparr>LaneAttempts := laneAttemptsFor c1 (WinningLane song), WordAns := ungatedWordAnswer (WordAns song) n orc\<rparr>"
        "snd ans = err" using assms(3) st Inr rc rs by (auto simp: finishParallel_def)
    then have "content (fst ans) = content song" by (simp add: content_def)
    moreover have "keptAll P r1" using ok Inr rc by simp
    ultimately show ?thesis using resolve_kept [OF _ rs, of P] a(2) unfolding answer_ok_def by (metis content_won content_zero)
  qed
qed

lemma answer_unblocked:
  assumes "answer_ok (\<lambda>s _. \<not> isBlocked (Some f) ctx s) ans" "\<forall>s. f s = f (content s)"
  shows "\<not> isBlocked (Some f) ctx (fst ans) \<or> (content (fst ans) = zeroSong \<and> snd ans \<noteq> None)"
  using assms isBlocked_content [OF assms(2)] unfolding answer_ok_def by blast

lemma unreported_fresh: "length envs = length lanes \<Longrightarrow> unreported (zip lanes (zip envs (replicate (length lanes) False))) = length lanes"
proof -
  assume l: "length envs = length lanes"
  have "filter (\<lambda>s. \<not> snd (snd s)) (zip lanes (zip envs (replicate (length lanes) False))) = zip lanes (zip envs (replicate (length lanes) False))"
    by (rule filter_True) (auto dest!: set_zip_rightD)
  then show ?thesis using l by (simp add: unreported_def)
qed

lemma findParallel_Some:
  assumes "length raceEnvs = length (filter (\<lambda>l. \<not> instrumentalOnly l) (o_lanes orc))"
    and "\<forall>i < length raceEnvs. \<exists>ce. Deliver i ce \<in> set evs"
  shows "findParallel nkey orc ctx track path preEnvs raceEnvs postEnvs evs startErr endErr w \<noteq> None"
proof -
  let ?race = "filter (\<lambda>l. \<not> instrumentalOnly l) (o_lanes orc)"
  let ?slots = "zip ?race (zip raceEnvs (replicate (length ?race) False))"
  have "raceLoop nkey orc ctx track path evs \<lparr>rs_r = r, rs_consulted = cons, rs_held = None, rs_upgrade = False,
      rs_pending = length ?race, rs_words = 0\<rparr> ?slots w1 \<noteq> None" if "?race \<noteq> []" for r cons w1
    by (rule raceLoop_returns)
       (use that assms in \<open>simp_all only: unreported_fresh raceState.simps race_ok_def keptAll_def\<close>,
        use that assms in auto)
  note race = this
  obtain fin pre' w1 where st: "stagedLoop nkey orc ctx track path
      (zip (takeWhile instrumentalOnly (o_lanes orc)) preEnvs) zeroResult [] w = (fin, pre', w1)" by (metis surj_pair)
  show ?thesis
  proof (cases "startErr = None \<and> ?race \<noteq> [] \<and> (\<exists>r cons. fin = Inr (r, cons))")
    case True
    then obtain r cons where f: "fin = Inr (r, cons)" by blast
    show ?thesis using race [of r cons w1] True f st
      by (auto simp: findParallel_def stagedLanes_eq Let_def split: sum.splits prod.splits)
  next
    case False
    then show ?thesis using st
      by (cases startErr; cases fin) (auto simp: findParallel_def stagedLanes_eq Let_def split: prod.splits)
  qed
qed

lemma exMarker_call:
  "laneFindLyrics id exMarker exTrack (lit ''/a'') (NewDetectorLane exBreaker None) exWorld =
     ((detectorSong exTrack exVerdict, None),
      (NewDetectorLane exBreaker None)\<lparr>lbreaker := snd (RecordSuccess exBreaker), everReached := True, notReadyStreak := 0\<rparr>, exWorld)"
  by (simp add: laneFindLyrics_def exMarker_def exEnv_def NewDetectorLane_def exBreaker_def NewBreaker_def exVerdict_def
      Allow_def isZero_def laneResolve_def detectorResolve_def isCanceled_def notifySuccess_def observeDrift_def lit_def)

lemma exMarker_commit: "classifyCandidate ctx (detectorSong exTrack exVerdict) exTrack None None = candidateCommit"
  by (simp add: classifyCandidate_def isBlocked_def IsSuitable_def QualityOf_def detectorSong_def zeroSong_def zeroTrack_def
      less_Quality_def timingDecision_def judgeAgainst_def DecidePromotion_def exVerdict_def lit_def)

section \<open>Properties\<close>

text \<open>
  C25: a parallel dispatch returns once its lanes have reported. Whatever the order in which the
  reports, the end of the upgrade window and further events reach the collector, and whatever the
  lanes answer, a schedule that contains a report of every racing lane makes the dispatch return.
\<close>

theorem parallel_returns:
  assumes "length raceEnvs = length (filter (\<lambda>l. \<not> instrumentalOnly l) (o_lanes orc))"
    and "\<forall>i < length raceEnvs. \<exists>ce. Deliver i ce \<in> set evs"
  shows "findParallel nkey orc ctx track path preEnvs raceEnvs postEnvs evs startErr endErr w \<noteq> None"
  using assms by (rule findParallel_Some)

theorem parallel_returns_witness:
  "findParallel id (exOrc [exLane Musixmatch, exLane InnerTube]) None exTrack [] []
     [exAnswer exFlat, exAnswer exWords] [] [Deliver 1 None, UpgradeElapsed None, Deliver 0 None] None None exWorld \<noteq> None"
  by (rule parallel_returns)
     (auto simp: exOrc_def NewProviderLane_def less_Suc_eq)

text \<open>
  C26: a parallel dispatch never returns a blocked result either, under any schedule of the race:
  with a block checker that judges a song by its content, the song it returns is not blocked for
  the row, or the outcome is an error with an empty song.
\<close>

theorem parallel_never_blocked:
  assumes run: "findParallel nkey orc ctx track path preEnvs raceEnvs postEnvs evs startErr endErr w = Some ((song, err), lanes, w')"
    and f: "o_blocks orc = Some f" "\<forall>s. f s = f (content s)"
  shows "\<not> isBlocked (Some f) ctx song \<or> (content song = zeroSong \<and> err \<noteq> None)"
proof -
  let ?P = "\<lambda>s (_::gotext). \<not> isBlocked (o_blocks orc) ctx s"
  obtain pre race post where sl: "stagedLanes orc = (pre, race, post)" by (metis surj_pair)
  have "answer_ok ?P (song, err)"
  proof (cases startErr)
    case (Some e)
    then show ?thesis using run sl by (auto simp: findParallel_def answer_ok_def)
  next
    case None
    obtain fin pre' w1 where st: "stagedLoop nkey orc ctx track path (zip pre preEnvs) zeroResult [] w = (fin, pre', w1)"
      by (metis surj_pair)
    note ok = stagedLoop_ok [OF st, of ?P, simplified]
    show ?thesis
    proof (cases fin)
      case (Inl ans)
      then show ?thesis using run sl None st ok by (auto simp: findParallel_def)
    next
      case (Inr rc)
      obtain r cons where rc: "rc = (r, cons)" by (cases rc)
      have kr: "keptAll ?P r" using ok Inr rc by simp
      show ?thesis
      proof (cases "race = []")
        case True
        obtain ans post' w2 where fp: "finishParallel nkey orc ctx track path (zip post postEnvs) endErr r cons 0 w1 = (ans, post', w2)"
          by (metis surj_pair)
        then have "ans = (song, err)" using run sl None st Inr rc True by (auto simp: findParallel_def)
        then show ?thesis using finishParallel_ok [OF kr _ fp] by simp
      next
        case False
        define st0 where "st0 = \<lparr>rs_r = r, rs_consulted = cons, rs_held = None, rs_upgrade = False, rs_pending = length race, rs_words = 0\<rparr>"
        let ?slots = "zip race (zip raceEnvs (replicate (length race) False))"
        have ok0: "race_ok ?P st0" using kr by (simp add: race_ok_def st0_def)
        from run sl None st Inr rc False obtain out slots w2 where
          rl: "raceLoop nkey orc ctx track path evs st0 ?slots w1 = Some (out, slots, w2)"
          unfolding findParallel_def st0_def by (auto split: option.splits)
        note rok = raceLoop_ok [OF rl ok0, simplified]
        show ?thesis
        proof (cases out)
          case (Inl ans)
          then have "ans = (song, err)" using run sl None st Inr rc False rl by (auto simp: findParallel_def st0_def)
          then show ?thesis using rok Inl by simp
        next
          case (Inr stt)
          define posts where "posts = (if consulted (rs_r stt) = consulted r then [] else zip post postEnvs)"
          obtain ans post' w3 where fp: "finishParallel nkey orc ctx track path posts endErr (rs_r stt) (rs_consulted stt) (rs_words stt) w2 = (ans, post', w3)"
            by (metis surj_pair)
          have "ans = (song, err)" using run sl None st \<open>fin = Inr rc\<close> rc False rl Inr fp
            unfolding findParallel_def posts_def st0_def by (auto simp: Let_def split: if_splits)
          moreover have "keptAll ?P (rs_r stt)" using rok Inr by (simp add: race_ok_def)
          ultimately show ?thesis using finishParallel_ok [OF _ _ fp, of ?P] by simp
        qed
      qed
    qed
  qed
  then show ?thesis using answer_unblocked [of f ctx "(song, err)"] f by simp
qed

theorem parallel_never_blocked_witness:
  "case findParallel id ((exOrc [exLane Musixmatch])\<lparr>o_blocks := Some (\<lambda>s. LyricsBody s = lit ''la'')\<rparr>) None exTrack [] []
       [exAnswer exWords] [] [Deliver 0 None] None None exWorld of
     None \<Rightarrow> False
   | Some ((song, err), _) \<Rightarrow> LyricsBody song \<noteq> lit ''la'' \<or> (content song = zeroSong \<and> err \<noteq> None)"
proof -
  let ?f = "\<lambda>s. LyricsBody s = lit ''la''"
  let ?o = "(exOrc [exLane Musixmatch])\<lparr>o_blocks := Some ?f\<rparr>"
  let ?run = "findParallel id ?o None exTrack [] [] [exAnswer exWords] [] [Deliver 0 None] None None exWorld"
  have "?run \<noteq> None" by (rule findParallel_Some) (simp_all add: exOrc_def NewProviderLane_def)
  then obtain song err lanes w' where run: "?run = Some ((song, err), lanes, w')" by (metis surj_pair option.exhaust)
  have "\<not> isBlocked (Some ?f) None song \<or> (content song = zeroSong \<and> err \<noteq> None)"
    by (rule parallel_never_blocked [OF run]) (simp_all add: content_def)
  then show ?thesis unfolding run by (simp add: isBlocked_def StampBlockIdentity_def)
qed

text \<open>
  A marker committed before the race forecloses it. When a marker-only lane configured ahead
  of every racing lane answers with a result that commits, the dispatch returns that answer
  whatever the racing lanes, the schedule and the trailing lanes would have done, and the
  racing and trailing lanes come back as they were: none of them was called.
\<close>

theorem detector_first:
  assumes "o_lanes orc = dets @ lane # rest" and "\<forall>l \<in> set dets. instrumentalOnly l" and "\<not> instrumentalOnly lane"
    and "length preEnvs = length dets"
    and "stagedLoop nkey orc ctx track path (zip dets preEnvs) zeroResult [] w = (Inl ans, dets', w')"
  shows "findParallel nkey orc ctx track path preEnvs raceEnvs postEnvs evs None endErr w
    = Some (ans, (dets', lane # filter (\<lambda>l. \<not> instrumentalOnly l) rest, filter instrumentalOnly rest), w')"
proof -
  have "stagedLanes orc = (dets, lane # filter (\<lambda>l. \<not> instrumentalOnly l) rest, filter instrumentalOnly rest)"
    using assms(1-3) by (auto simp: stagedLanes_eq filter_empty_conv)
  then show ?thesis using assms(5) by (simp add: findParallel_def)
qed

theorem detector_first_witness:
  "\<exists>song lanes w'. findParallel id (exOrc [NewDetectorLane exBreaker None, exLane Musixmatch]) None exTrack (lit ''/a'')
       [(exMarker, None)] [exAnswer exWords] [] [Deliver 0 None] None None exWorld = Some ((song, None), lanes, w')
     \<and> Instrumental (STrack song) = 1 \<and> fst (snd lanes) = [exLane Musixmatch]"
proof -
  let ?d = "NewDetectorLane exBreaker None"
  let ?o = "exOrc [?d, exLane Musixmatch]"
  have io: "instrumentalOnly ?d" by (simp add: NewDetectorLane_def)
  obtain song l w' where run: "stagedLoop id ?o None exTrack (lit ''/a'') (zip [?d] [(exMarker, None)]) zeroResult [] exWorld
      = (Inl (song, None), [l], w')" "Instrumental (STrack song) = 1"
    by (simp add: runStaged_def exMarker_call exMarker_commit exOrc_def Let_def) (simp add: detectorSong_def)
  show ?thesis
    using detector_first [OF _ _ _ _ run(1), of "exLane Musixmatch" "[]" "[exAnswer exWords]" "[]" "[Deliver 0 None]" None] io run(2)
    by (simp add: exOrc_def)
qed

end
