(* ===== verification/Limiter.thy ===== *)
theory Limiter
  imports Pacer "HOL-Library.AList" "HOL-Library.Multiset"
begin

text \<open>
  The login rate limiter of \<open>internal/web/ratelimit.go\<close> and the part of the login handler
  (\<open>internal/web/auth.go\<close>) that uses it. The Go map from client address to attempt state is an
  association list without duplicate keys; the iteration order of a \<open>range\<close> over it is an input
  where it can matter. Each method reads the clock several times and takes every reading as an
  input. \<open>runOps\<close> is any interleaving of the methods of all requests.
\<close>

section \<open>Definitions\<close>

definition defaultBaseBackoff :: duration where "defaultBaseBackoff = second"
definition defaultMaxBackoff :: duration where "defaultMaxBackoff = 8 * second"
definition defaultMaxFailures :: int where "defaultMaxFailures = 10"
definition defaultLoginLockout :: duration where "defaultLoginLockout = 15 * minute"
definition defaultIdleEvictAfter :: duration where "defaultIdleEvictAfter = 24 * hour"
definition defaultMaxEntries :: nat where "defaultMaxEntries = 10000"

record attemptState =
  failures :: int
  lockedUntil :: instant
  lastSeen :: instant

record loginLimiter =
  attempts :: "(gotext \<times> attemptState) list"
  baseBackoff :: duration
  maxBackoff :: duration
  maxFailures :: int
  lockout :: duration
  idleEvictAfter :: duration
  maxEntries :: nat

definition newLoginLimiter :: loginLimiter where
  "newLoginLimiter = \<lparr>attempts = [], baseBackoff = defaultBaseBackoff, maxBackoff = defaultMaxBackoff,
     maxFailures = defaultMaxFailures, lockout = defaultLoginLockout,
     idleEvictAfter = defaultIdleEvictAfter, maxEntries = defaultMaxEntries\<rparr>"

definition allow :: "instant \<Rightarrow> gotext \<Rightarrow> loginLimiter \<Rightarrow> (bool \<times> duration) \<times> loginLimiter" where
  "allow now ip l =
     (case map_of (attempts l) ip of
        None \<Rightarrow> ((True, 0), l)
      | Some st \<Rightarrow>
          (if isZero (lockedUntil st) then ((True, 0), l)
           else let remaining = timeSub (lockedUntil st) now
                in if remaining > 0 then ((False, remaining), l)
                   else ((True, 0), l\<lparr>attempts := AList.delete ip (attempts l)\<rparr>)))"

text \<open>\<open>backoffFor\<close>; the shift of a Go \<open>int64\<close> wraps.\<close>

definition backoffFor :: "int \<Rightarrow> loginLimiter \<Rightarrow> duration" where
  "backoffFor n l =
     (if n \<le> 1 then 0
      else let shift = n - 2
           in if shift \<ge> 62 then maxBackoff l
              else let d = int64 (baseBackoff l * 2 ^ nat shift)
                   in if d \<le> 0 \<or> d > maxBackoff l then maxBackoff l else d)"

text \<open>An unexpired hard lockout, which no eviction removes.\<close>

definition activeLock :: "instant \<Rightarrow> attemptState \<Rightarrow> bool" where
  "activeLock now st \<longleftrightarrow> \<not> isZero (lockedUntil st) \<and> lockedUntil st > now"

definition evictIdleLocked :: "instant \<Rightarrow> loginLimiter \<Rightarrow> loginLimiter" where
  "evictIdleLocked now l =
     l\<lparr>attempts := filter (\<lambda>(ip, st). activeLock now st \<or> \<not> lastSeen st < now - idleEvictAfter l) (attempts l)\<rparr>"

text \<open>The scan for the oldest unlocked entry, in iteration order; the empty address is the code's "none yet".\<close>

fun oldestScan :: "instant \<Rightarrow> (gotext \<times> attemptState) list \<Rightarrow> gotext \<times> instant \<Rightarrow> gotext" where
  "oldestScan now [] (oldestIP, oldest) = oldestIP"
| "oldestScan now ((ip, st) # rest) (oldestIP, oldest) =
     (if activeLock now st then oldestScan now rest (oldestIP, oldest)
      else if oldestIP = [] \<or> lastSeen st < oldest then oldestScan now rest (ip, lastSeen st)
      else oldestScan now rest (oldestIP, oldest))"

definition evictOldestLocked :: "instant \<Rightarrow> (gotext \<times> attemptState) list \<Rightarrow> loginLimiter \<Rightarrow> loginLimiter" where
  "evictOldestLocked now order l =
     (let oldestIP = oldestScan now order ([], 0)
      in if oldestIP \<noteq> [] then l\<lparr>attempts := AList.delete oldestIP (attempts l)\<rparr> else l)"

text \<open>
  The clock readings of one \<open>fail\<close>: of the two evictions, of \<open>lastSeen\<close> and of \<open>lockedUntil\<close>.
  \<open>perm\<close> is the order in which the second eviction ranges over the map.
\<close>

record failClock =
  tIdle :: instant
  tOldest :: instant
  tSeen :: instant
  tLock :: instant

type_synonym iteration = "(gotext \<times> attemptState) list \<Rightarrow> (gotext \<times> attemptState) list"

definition makeRoom :: "failClock \<Rightarrow> iteration \<Rightarrow> loginLimiter \<Rightarrow> loginLimiter" where
  "makeRoom c perm l =
     (if length (attempts l) < maxEntries l then l
      else let l = evictIdleLocked (tIdle c) l
           in if length (attempts l) < maxEntries l then l
              else evictOldestLocked (tOldest c) (perm (attempts l)) l)"

definition failState :: "failClock \<Rightarrow> attemptState \<Rightarrow> loginLimiter \<Rightarrow> attemptState" where
  "failState c st l =
     (let st = st\<lparr>failures := failures st + 1, lastSeen := tSeen c\<rparr>
      in if failures st \<ge> maxFailures l then st\<lparr>lockedUntil := tLock c + lockout l\<rparr> else st)"

definition failAttempt :: "failClock \<Rightarrow> iteration \<Rightarrow> gotext \<Rightarrow> loginLimiter \<Rightarrow> duration \<times> loginLimiter" where
  "failAttempt c perm ip l =
     (case map_of (attempts l) ip of
        Some st \<Rightarrow>
          (let st' = failState c st l
           in (backoffFor (failures st') l, l\<lparr>attempts := AList.update ip st' (attempts l)\<rparr>))
      | None \<Rightarrow>
          (let l = makeRoom c perm l
           in if length (attempts l) \<ge> maxEntries l then (maxBackoff l, l)
              else let st' = failState c \<lparr>failures = 0, lockedUntil = 0, lastSeen = 0\<rparr> l
                   in (backoffFor (failures st') l, l\<lparr>attempts := AList.update ip st' (attempts l)\<rparr>)))"

definition success :: "gotext \<Rightarrow> loginLimiter \<Rightarrow> loginLimiter" where
  "success ip l = l\<lparr>attempts := AList.delete ip (attempts l)\<rparr>"

text \<open>
  One login request as the handler sees it: the verdicts of the origin check, the CSRF check, the
  form parser and the credential check, the client key, and the clock.
\<close>

record loginRequest =
  sameOrigin :: bool
  csrfValid :: bool
  clientKey :: gotext
  formParses :: bool
  loginOK :: bool
  tAsk :: instant
  clocks :: failClock
  order :: iteration

datatype loginResponse =
  OriginRefused | CsrfRefused | TooManyRequests duration | BadRequest | Unauthorized duration | LoggedIn

definition handleLogin :: "loginRequest \<Rightarrow> loginLimiter \<Rightarrow> loginResponse \<times> loginLimiter" where
  "handleLogin req l =
     (if \<not> sameOrigin req then (OriginRefused, l)
      else if \<not> csrfValid req then (CsrfRefused, l)
      else let ((ok, retryAfter), l) = allow (tAsk req) (clientKey req) l
           in if \<not> ok then (TooManyRequests retryAfter, l)
              else if \<not> formParses req then (BadRequest, l)
              else if \<not> loginOK req
                then (let (backoff, l) = failAttempt (clocks req) (order req) (clientKey req) l in (Unauthorized backoff, l))
              else (LoggedIn, success (clientKey req) l))"

fun handleAll :: "loginRequest list \<Rightarrow> loginLimiter \<Rightarrow> loginResponse list \<times> loginLimiter" where
  "handleAll [] l = ([], l)"
| "handleAll (req # reqs) l =
     (let (resp, l) = handleLogin req l; (resps, l) = handleAll reqs l in (resp # resps, l))"

section \<open>Interleavings and invariants\<close>

text \<open>The mutex makes each method one step, so an interleaving of all requests is a list of calls.\<close>

datatype limiterOp = OpAllow instant gotext | OpFail failClock iteration gotext | OpSuccess gotext

fun applyOp :: "limiterOp \<Rightarrow> loginLimiter \<Rightarrow> loginLimiter" where
  "applyOp (OpAllow now ip) l = snd (allow now ip l)"
| "applyOp (OpFail c perm ip) l = snd (failAttempt c perm ip l)"
| "applyOp (OpSuccess ip) l = success ip l"

definition runOps :: "limiterOp list \<Rightarrow> loginLimiter \<Rightarrow> loginLimiter" where
  "runOps ops l = fold applyOp ops l"

definition table_ok :: "loginLimiter \<Rightarrow> bool" where
  "table_ok l \<longleftrightarrow> distinct (map fst (attempts l)) \<and> length (attempts l) \<le> maxEntries l"

text \<open>The configuration, which no method changes.\<close>

definition sameConfig :: "loginLimiter \<Rightarrow> loginLimiter \<Rightarrow> bool" where
  "sameConfig l l' \<longleftrightarrow> l'\<lparr>attempts := attempts l\<rparr> = l"

text \<open>A \<open>range\<close> over a map visits every entry once.\<close>

definition visitsAll :: "iteration \<Rightarrow> bool" where
  "visitsAll perm \<longleftrightarrow> (\<forall>xs. mset (perm xs) = mset xs)"

text \<open>Every clock reading of an operation lies in the window \<open>[a, b)\<close>; its \<open>range\<close> visits every entry.\<close>

definition clockIn :: "instant \<Rightarrow> instant \<Rightarrow> failClock \<Rightarrow> bool" where
  "clockIn a b c \<longleftrightarrow> (\<forall>t \<in> {tIdle c, tOldest c, tSeen c, tLock c}. a \<le> t \<and> t < b)"

fun opIn :: "instant \<Rightarrow> instant \<Rightarrow> limiterOp \<Rightarrow> bool" where
  "opIn a b (OpAllow now ip) \<longleftrightarrow> a \<le> now \<and> now < b"
| "opIn a b (OpFail c perm ip) \<longleftrightarrow> clockIn a b c \<and> visitsAll perm"
| "opIn a b (OpSuccess ip) \<longleftrightarrow> True"

text \<open>The address is locked until \<open>u\<close> or later.\<close>

definition lockedPast :: "instant \<Rightarrow> gotext \<Rightarrow> loginLimiter \<Rightarrow> bool" where
  "lockedPast u ip l \<longleftrightarrow> (case map_of (attempts l) ip of None \<Rightarrow> False
     | Some st \<Rightarrow> failures st \<ge> maxFailures l \<and> lockedUntil st \<ge> u \<and> \<not> isZero (lockedUntil st))"

text \<open>The requests of one address that reached the credential check.\<close>

definition guessed :: "loginResponse \<Rightarrow> bool" where
  "guessed resp \<longleftrightarrow> (case resp of Unauthorized _ \<Rightarrow> True | LoggedIn \<Rightarrow> True | _ \<Rightarrow> False)"

definition guesses :: "gotext \<Rightarrow> loginRequest list \<Rightarrow> loginResponse list \<Rightarrow> nat" where
  "guesses ip reqs resps = length (filter (\<lambda>(req, resp). clientKey req = ip \<and> guessed resp) (zip reqs resps))"

text \<open>
  What the table records of an address checked \<open>k\<close> times since \<open>t0\<close>, as long as nothing was evicted.
\<close>

definition recorded :: "instant \<Rightarrow> gotext \<Rightarrow> nat \<Rightarrow> loginLimiter \<Rightarrow> bool" where
  "recorded t0 ip k l \<longleftrightarrow> (case map_of (attempts l) ip of
       None \<Rightarrow> k = 0
     | Some st \<Rightarrow> 0 < k \<and> failures st = int k \<and>
         (if int k < maxFailures l then lockedUntil st = 0 else lockedUntil st \<ge> t0 + lockout l \<and> \<not> isZero (lockedUntil st)))"

definition requestIn :: "instant \<Rightarrow> instant \<Rightarrow> loginRequest \<Rightarrow> bool" where
  "requestIn a b req \<longleftrightarrow> a \<le> tAsk req \<and> tAsk req < b \<and> clockIn a b (clocks req)"

text \<open>Concrete requests and a locked limiter, used by the witnesses.\<close>

definition exClock :: failClock where
  "exClock = \<lparr>tIdle = minute, tOldest = minute, tSeen = minute, tLock = minute\<rparr>"

definition exGuess :: loginRequest where
  "exGuess = \<lparr>sameOrigin = True, csrfValid = True, clientKey = lit ''ip'', formParses = True, loginOK = False,
     tAsk = minute, clocks = exClock, order = id\<rparr>"

definition exLocked :: loginLimiter where
  "exLocked = newLoginLimiter\<lparr>attempts := [(lit ''ip'', \<lparr>failures = 10, lockedUntil = 16 * minute, lastSeen = minute\<rparr>)]\<rparr>"

section \<open>Lemmas\<close>

lemma delete_length: "length (AList.delete k xs) \<le> length xs"
  by (simp add: AList.delete_eq)

lemma update_length_new: "map_of xs k = None \<Longrightarrow> length (AList.update k v xs) = Suc (length xs)"
  by (induction xs) (auto split: if_splits)

lemma update_length_old: "map_of xs k = Some v' \<Longrightarrow> length (AList.update k v xs) = length xs"
  by (induction xs) (auto split: if_splits)

lemma evictions_config [simp]:
  "sameConfig l (evictIdleLocked t l)" "sameConfig l (evictOldestLocked t ord l)" "sameConfig l (makeRoom c perm l)"
  by (simp_all add: sameConfig_def evictIdleLocked_def evictOldestLocked_def makeRoom_def Let_def)

lemma sameConfig_fields:
  "sameConfig l l' \<Longrightarrow> maxEntries l' = maxEntries l \<and> maxFailures l' = maxFailures l \<and> lockout l' = lockout l
     \<and> maxBackoff l' = maxBackoff l \<and> baseBackoff l' = baseBackoff l"
  by (auto simp: sameConfig_def dest: arg_cong [where f = maxEntries] arg_cong [where f = maxFailures]
      arg_cong [where f = lockout] arg_cong [where f = maxBackoff] arg_cong [where f = baseBackoff])

lemma sameConfig_trans: "sameConfig a b \<Longrightarrow> sameConfig b c \<Longrightarrow> sameConfig a c"
  by (cases a; cases b; cases c) (auto simp: sameConfig_def)

lemma sameConfig_update [simp]: "sameConfig l (l'\<lparr>attempts := x\<rparr>) = sameConfig l l'"
  by (simp add: sameConfig_def)

lemma sameConfig_refl [simp]: "sameConfig l l"
  by (simp add: sameConfig_def)

lemma applyOp_config: "sameConfig l (applyOp x l)"
  by (cases x) (auto simp: allow_def failAttempt_def success_def Let_def split: option.splits)

lemma evictions_table:
  assumes "table_ok l"
  shows "table_ok (evictIdleLocked t l)" "table_ok (evictOldestLocked t ord l)" "table_ok (makeRoom c perm l)"
proof -
  have idle: "table_ok (evictIdleLocked t l)" if "table_ok l" for t l
    using that by (auto simp: table_ok_def evictIdleLocked_def distinct_map filter_empty_conv
        intro: inj_on_subset le_trans [OF length_filter_le])
  have old: "table_ok (evictOldestLocked t ord l)" if "table_ok l" for t ord l
    using that delete_length [of _ "attempts l"]
    by (auto simp: table_ok_def evictOldestLocked_def Let_def distinct_delete intro: le_trans)
  show "table_ok (evictIdleLocked t l)" "table_ok (evictOldestLocked t ord l)" using assms idle old by auto
  show "table_ok (makeRoom c perm l)" using assms idle old by (auto simp: makeRoom_def Let_def)
qed

lemma allow_table: "table_ok l \<Longrightarrow> table_ok (snd (allow now ip l))"
  using delete_length [of ip "attempts l"]
  by (auto simp: allow_def table_ok_def Let_def distinct_delete split: option.splits)

lemma evict_keys:
  "map_of (attempts l) ip = None \<Longrightarrow> map_of (attempts (makeRoom c perm l)) ip = None"
  by (auto simp: makeRoom_def evictIdleLocked_def evictOldestLocked_def Let_def map_of_eq_None_iff AList.delete_eq)

lemma fail_table: "table_ok l \<Longrightarrow> table_ok (snd (failAttempt c perm ip l))"
proof (cases "map_of (attempts l) ip")
  case (Some st)
  then show "table_ok l \<Longrightarrow> ?thesis"
    by (simp add: failAttempt_def table_ok_def Let_def distinct_update update_length_old)
next
  case None
  let ?m = "makeRoom c perm l"
  assume "table_ok l"
  then have "table_ok ?m" by (rule evictions_table)
  then show ?thesis using None update_length_new [OF evict_keys [OF None, of c perm]]
    by (auto simp: failAttempt_def table_ok_def Let_def distinct_update)
qed

lemma applyOp_table: "table_ok l \<Longrightarrow> table_ok (applyOp x l)"
  using delete_length [of _ "attempts l"]
  by (cases x) (auto simp: allow_table fail_table, auto simp: success_def table_ok_def distinct_delete intro: le_trans)

lemma runOps_table: "table_ok l \<Longrightarrow> table_ok (runOps ops l)"
  unfolding runOps_def by (induction ops arbitrary: l) (simp_all add: applyOp_table)

lemma runOps_config: "sameConfig l (runOps ops l)"
  unfolding runOps_def
  by (induction ops arbitrary: l) (auto intro: sameConfig_trans [OF applyOp_config])

lemma scan_unlocked:
  "oldestScan now xs (ip0, t0) = ip \<Longrightarrow> ip = ip0 \<or> (\<exists>st. (ip, st) \<in> set xs \<and> \<not> activeLock now st)"
proof (induction xs arbitrary: ip0 t0)
  case (Cons x xs)
  then show ?case by (cases x) (auto split: if_splits; blast)
qed simp

lemma timeSub_pos: "timeSub t u > 0 \<longleftrightarrow> t > u"
  by (auto simp: timeSub_def maxInt64_def)

lemma lock_active: "lockedPast u ip l \<Longrightarrow> map_of (attempts l) ip = Some st \<Longrightarrow> now < u \<Longrightarrow> activeLock now st"
  by (auto simp: lockedPast_def activeLock_def)

lemma idle_keeps_lock:
  assumes "lockedPast u ip l" "t < u" "table_ok l"
  shows "lockedPast u ip (evictIdleLocked t l)"
proof -
  obtain st where st: "map_of (attempts l) ip = Some st" using assms(1) by (auto simp: lockedPast_def split: option.splits)
  let ?xs = "attempts (evictIdleLocked t l)"
  have "(ip, st) \<in> set ?xs" using lock_active [OF assms(1) st assms(2)] map_of_SomeD [OF st] by (simp add: evictIdleLocked_def)
  moreover have "distinct (map fst ?xs)" using evictions_table(1) [OF assms(3), of t] by (simp add: table_ok_def)
  ultimately have "map_of ?xs ip = Some st" by (rule map_of_is_SomeI [rotated])
  then show ?thesis using assms(1) st sameConfig_fields [of l "evictIdleLocked t l"] by (simp add: lockedPast_def)
qed

lemma oldest_keeps_lock:
  assumes "lockedPast u ip l" "t < u" "table_ok l" "visitsAll perm"
  shows "lockedPast u ip (evictOldestLocked t (perm (attempts l)) l)"
proof -
  obtain st where st: "map_of (attempts l) ip = Some st" using assms(1) by (auto simp: lockedPast_def split: option.splits)
  let ?o = "oldestScan t (perm (attempts l)) ([], 0)"
  have s: "set (perm (attempts l)) = set (attempts l)" using assms(4) by (auto simp: visitsAll_def dest: mset_eq_setD)
  have "?o \<noteq> ip" if ne: "?o \<noteq> []"
  proof
    assume "?o = ip"
    then obtain st' where "(ip, st') \<in> set (attempts l)" "\<not> activeLock t st'"
      using scan_unlocked [of t "perm (attempts l)" "[]" 0 ip] ne s by auto
    moreover have "map_of (attempts l) ip = Some st'" using calculation(1) assms(3)
      by (intro map_of_is_SomeI) (simp_all add: table_ok_def)
    ultimately show False using lock_active [OF assms(1) _ assms(2)] by blast
  qed
  then show ?thesis using assms(1) by (auto simp: evictOldestLocked_def lockedPast_def Let_def delete_conv' split: option.splits)
qed

lemma room_keeps_lock:
  assumes "lockedPast u ip l" "clockIn a u c" "table_ok l" "visitsAll perm"
  shows "lockedPast u ip (makeRoom c perm l)"
  using assms idle_keeps_lock [OF assms(1) _ assms(3), of "tIdle c"]
    oldest_keeps_lock [OF _ _ evictions_table(1) [OF assms(3)] assms(4), of u ip "tIdle c" "tOldest c"]
  by (auto simp: makeRoom_def Let_def clockIn_def)

lemma fail_keeps_lock:
  assumes "lockedPast u ip l" "clockIn (u - lockout l) u c" "0 < u" "table_ok l" "visitsAll perm"
  shows "lockedPast u ip (snd (failAttempt c perm ip' l))"
proof (cases "map_of (attempts l) ip'")
  case (Some st)
  then show ?thesis using assms(1-3)
    by (auto simp: failAttempt_def lockedPast_def failState_def Let_def update_conv' clockIn_def isZero_def split: option.splits)
next
  case None
  then have "ip' \<noteq> ip" using assms(1) by (auto simp: lockedPast_def)
  moreover have "lockedPast u ip (makeRoom c perm l)" using room_keeps_lock assms by blast
  ultimately show ?thesis using None by (auto simp: failAttempt_def lockedPast_def Let_def update_conv' split: option.splits)
qed

lemma allow_keeps_lock: "lockedPast u ip l \<Longrightarrow> now < u \<Longrightarrow> lockedPast u ip (snd (allow now ip' l))"
  by (auto simp: allow_def lockedPast_def Let_def delete_conv' timeSub_pos split: option.splits)

lemma applyOp_keeps_lock:
  assumes "lockedPast u ip l" "opIn (u - lockout l) u x" "0 < u" "table_ok l" "x \<noteq> OpSuccess ip"
  shows "lockedPast u ip (applyOp x l)"
proof (cases x)
  case (OpAllow now ip')
  then show ?thesis using assms(1,2) allow_keeps_lock by simp
next
  case (OpFail c perm ip')
  then show ?thesis using assms(2) fail_keeps_lock [OF assms(1) _ assms(3,4), of c perm ip'] by simp
next
  case (OpSuccess ip')
  then show ?thesis using assms(1,5) by (auto simp: success_def lockedPast_def delete_conv' split: option.splits)
qed

lemma runOps_keeps_lock:
  assumes "lockedPast u ip l" "\<forall>x \<in> set ops. opIn (u - lockout l) u x \<and> x \<noteq> OpSuccess ip" "0 < u" "table_ok l"
  shows "lockedPast u ip (runOps ops l)"
  using assms unfolding runOps_def
proof (induction ops arbitrary: l)
  case (Cons x ops)
  have "lockout (applyOp x l) = lockout l" using sameConfig_fields [OF applyOp_config] by simp
  then show ?case using Cons applyOp_keeps_lock applyOp_table by simp
qed simp

lemma locked_refuses: "lockedPast u ip l \<Longrightarrow> now < u \<Longrightarrow> \<not> fst (fst (allow now ip l)) \<and> snd (allow now ip l) = l"
  by (auto simp: allow_def lockedPast_def Let_def timeSub_pos split: option.splits)

lemma backoff_default: "backoffFor n newLoginLimiter = (if n \<le> 1 then 0 else min (8 * second) (2 ^ nat (n - 2) * second))"
proof -
  have big: "(8::int) * second \<le> 2 ^ k * second" if "3 \<le> k" for k :: nat
    using power_increasing [OF that, of "2::int"] by (simp add: second_def)
  have small: "min (8 * second) (2 ^ k * second)
      = (let d = int64 (second * 2 ^ k) in if d \<le> 0 \<or> d > 8 * second then 8 * second else d)" if "k < 62" for k :: nat
  proof -
    have "k \<in> set [0..<62]" using that by simp
    then show ?thesis unfolding upt_conv_Cons_Cons by (simp add: upt_rec int64_def second_def Let_def) (elim disjE; simp)
  qed
  show ?thesis
    using big [of "nat (n - 2)"] small [of "nat (n - 2)"]
    by (auto simp: backoffFor_def newLoginLimiter_def defaultMaxBackoff_def defaultBaseBackoff_def Let_def not_less)
qed


lemma makeRoom_id: "length (attempts l) < maxEntries l \<Longrightarrow> makeRoom c perm l = l"
  by (simp add: makeRoom_def)

lemma fail_recorded:
  assumes "recorded t0 ip k l" "clockIn t0 b c" "0 \<le> t0" "0 < lockout l" "length (attempts l) < maxEntries l"
    "0 < maxFailures l"
  shows "recorded t0 ip (if ip' = ip then Suc k else k) (snd (failAttempt c perm ip' l))"
  using assms
  by (auto simp: recorded_def failAttempt_def failState_def makeRoom_id Let_def update_conv' clockIn_def isZero_def
      split: option.splits if_splits)

lemma fail_grows:
  assumes "length (attempts l) < maxEntries l"
  shows "length (attempts (snd (failAttempt c perm ip l))) \<le> Suc (length (attempts l))"
  using assms update_length_new [of "attempts l" ip] update_length_old [of "attempts l" ip]
  by (auto simp: failAttempt_def makeRoom_id Let_def split: option.splits)

lemma allow_shrinks: "length (attempts (snd (allow now ip l))) \<le> length (attempts l)"
  using delete_length [of ip "attempts l"] by (auto simp: allow_def Let_def split: option.splits)

lemma allow_recorded:
  assumes "recorded t0 ip k l" "now < t0 + lockout l"
  shows "recorded t0 ip k (snd (allow now ip' l))"
    and "ip' = ip \<Longrightarrow> fst (fst (allow now ip' l)) \<Longrightarrow> int k < maxFailures l \<or> k = 0"
  using assms by (auto simp: recorded_def allow_def Let_def delete_conv' timeSub_pos isZero_def split: option.splits if_splits)

lemma allow_config: "sameConfig l (snd (allow now ip l))"
  using applyOp_config [of l "OpAllow now ip"] by simp

lemma fail_config: "sameConfig l (snd (failAttempt c perm ip l))"
  using applyOp_config [of l "OpFail c perm ip"] by simp

lemma handle_recorded:
  assumes rec: "recorded t0 ip k l" and req: "requestIn t0 (t0 + lockout l) req" "clientKey req = ip \<longrightarrow> \<not> loginOK req"
    and cfg: "0 \<le> t0" "0 < lockout l" "0 < maxFailures l" "length (attempts l) < maxEntries l"
    and run: "handleLogin req l = (resp, l')" and k: "int k \<le> maxFailures l"
  defines "k' \<equiv> (if clientKey req = ip \<and> guessed resp then Suc k else k)"
  shows "recorded t0 ip k' l' \<and> int k' \<le> maxFailures l \<and> length (attempts l') \<le> Suc (length (attempts l)) \<and> sameConfig l l'"
proof -
  let ?a = "allow (tAsk req) (clientKey req) l"
  obtain ok ra la where a: "?a = ((ok, ra), la)" by (metis surj_pair)
  have now: "tAsk req < t0 + lockout l" using req(1) by (simp add: requestIn_def)
  have la: "recorded t0 ip k la" "clientKey req = ip \<Longrightarrow> ok \<Longrightarrow> int k < maxFailures l"
    "length (attempts la) \<le> length (attempts l)" "sameConfig l la"
    using allow_recorded [OF rec now, of "clientKey req"] allow_shrinks [of "tAsk req" "clientKey req" l]
      allow_config [of l "tAsk req" "clientKey req"] a cfg(3) by auto
  note fields = sameConfig_fields [OF la(4)]
  have room: "length (attempts la) < maxEntries la" using la(3) cfg(4) fields by simp
  have fl: "recorded t0 ip (if clientKey req = ip then Suc k else k) (snd (failAttempt (clocks req) (order req) (clientKey req) la))"
    using fail_recorded [OF la(1) _ cfg(1) _ room, where c = "clocks req" and b = "t0 + lockout l"] req(1) cfg fields
    by (auto simp: requestIn_def)
  have fc: "sameConfig l (snd (failAttempt (clocks req) (order req) (clientKey req) la))"
    using sameConfig_trans [OF la(4) fail_config] .
  have fg: "length (attempts (snd (failAttempt (clocks req) (order req) (clientKey req) la))) \<le> Suc (length (attempts l))"
    using fail_grows [OF room, of "clocks req" "order req" "clientKey req"] la(3) by simp
  have sc: "recorded t0 ip k (success (clientKey req) la)" if "clientKey req \<noteq> ip"
    using la(1) that by (auto simp: recorded_def success_def delete_conv' split: option.splits)
  have sl: "length (attempts (success (clientKey req) la)) \<le> Suc (length (attempts l))" "sameConfig l (success (clientKey req) la)"
    using delete_length [of "clientKey req" "attempts la"] la(3,4) by (auto simp: success_def)
  show ?thesis
    using run rec k req(2) la fl fc fg sc sl unfolding k'_def
    by (auto simp: handleLogin_def a guessed_def split: if_splits prod.splits)
qed

lemma handleAll_guesses:
  assumes "recorded t0 ip k l" "\<forall>req \<in> set reqs. requestIn t0 (t0 + lockout l) req \<and> (clientKey req = ip \<longrightarrow> \<not> loginOK req)"
    and "0 \<le> t0" "0 < lockout l" "0 < maxFailures l" "length (attempts l) + length reqs \<le> maxEntries l"
    and "int k \<le> maxFailures l"
  shows "int (k + guesses ip reqs (fst (handleAll reqs l))) \<le> maxFailures l"
  using assms
proof (induction reqs arbitrary: k l)
  case (Cons req reqs)
  obtain resp l' where run: "handleLogin req l = (resp, l')" by fastforce
  obtain resps l'' where rest: "handleAll reqs l' = (resps, l'')" by fastforce
  let ?k = "if clientKey req = ip \<and> guessed resp then Suc k else k"
  have h: "recorded t0 ip ?k l' \<and> int ?k \<le> maxFailures l \<and> length (attempts l') \<le> Suc (length (attempts l)) \<and> sameConfig l l'"
    using Cons.prems by (intro handle_recorded [OF _ _ _ _ _ _ _ run]) auto
  note f = sameConfig_fields [of l l']
  have "int (?k + guesses ip reqs (fst (handleAll reqs l'))) \<le> maxFailures l'"
    using Cons.prems h f by (intro Cons.IH) auto
  then show ?case using h f by (auto simp: run rest guesses_def)
qed (simp add: guesses_def)

section \<open>Properties\<close>

text \<open>
  The attempt table is bounded. However the methods of the login requests interleave, with any
  clock readings and any iteration order of the map, the table of a new limiter never holds more
  than 10000 addresses, nor two entries of one address, and its configuration is unchanged.
\<close>

theorem login_table_bounded:
  "length (attempts (runOps ops newLoginLimiter)) \<le> 10000
   \<and> distinct (map fst (attempts (runOps ops newLoginLimiter)))
   \<and> maxFailures (runOps ops newLoginLimiter) = 10 \<and> lockout (runOps ops newLoginLimiter) = 15 * minute"
  using runOps_table [of newLoginLimiter ops] sameConfig_fields [OF runOps_config [of newLoginLimiter ops]]
  by (simp add: table_ok_def newLoginLimiter_def defaultMaxEntries_def defaultMaxFailures_def defaultLoginLockout_def)

text \<open>
  C35: a lockout outlives any flood. Once an address is locked until \<open>u\<close>, no interleaving of
  attempts from other addresses, of further attempts of its own, or of evictions lifts the lock
  before \<open>u\<close>, unless the address logs in: every attempt is refused, with a positive wait.
\<close>

theorem lockout_survives_flood:
  assumes "table_ok l" and "map_of (attempts l) ip = Some st" and "failures st \<ge> maxFailures l" and "0 < lockedUntil st"
    and "\<forall>x \<in> set ops. opIn (lockedUntil st - lockout l) (lockedUntil st) x \<and> x \<noteq> OpSuccess ip"
    and "now < lockedUntil st"
  shows "\<exists>wait > 0. allow now ip (runOps ops l) = ((False, wait), runOps ops l)"
proof -
  have "lockedPast (lockedUntil st) ip l" using assms(2-4) by (simp add: lockedPast_def isZero_def)
  then have "lockedPast (lockedUntil st) ip (runOps ops l)" using runOps_keeps_lock assms by blast
  then show ?thesis using assms(6)
    by (auto simp: allow_def lockedPast_def Let_def timeSub_pos split: option.splits)
qed

theorem lockout_survives_flood_witness:
  "\<exists>wait > 0. allow (2 * minute) (lit ''ip'')
       (runOps [OpFail exClock rev (lit ''b''), OpAllow minute (lit ''ip''), OpFail exClock id (lit ''ip'')] exLocked)
     = ((False, wait), runOps [OpFail exClock rev (lit ''b''), OpAllow minute (lit ''ip''), OpFail exClock id (lit ''ip'')] exLocked)"
  by (rule lockout_survives_flood [where st = "\<lparr>failures = 10, lockedUntil = 16 * minute, lastSeen = minute\<rparr>"])
     (auto simp: table_ok_def exLocked_def newLoginLimiter_def defaultMaxEntries_def defaultMaxFailures_def
       defaultLoginLockout_def minute_def second_def clockIn_def exClock_def visitsAll_def)

text \<open>
  C34: the brute-force bound. Of the login requests a new limiter serves one after the other within
  one lockout period, as long as they are fewer than its table has room for, at most ten of one
  address reach the credential check when none of them carries the right password.
\<close>

theorem guesses_bounded:
  assumes "\<forall>req \<in> set reqs. requestIn t0 (t0 + 15 * minute) req \<and> (clientKey req = ip \<longrightarrow> \<not> loginOK req)"
    and "0 \<le> t0" and "length reqs \<le> 10000"
  shows "guesses ip reqs (fst (handleAll reqs newLoginLimiter)) \<le> 10"
  using handleAll_guesses [of t0 ip 0 newLoginLimiter reqs] assms
  by (simp add: recorded_def newLoginLimiter_def defaultMaxEntries_def defaultMaxFailures_def defaultLoginLockout_def
      minute_def second_def)

theorem guesses_bounded_witness:
  "guesses (lit ''ip'') (replicate 12 exGuess) (fst (handleAll (replicate 12 exGuess) newLoginLimiter)) \<le> 10"
  by (rule guesses_bounded [where ?t0.0 = 0])
     (auto simp: requestIn_def exGuess_def clockIn_def exClock_def minute_def second_def)

end
