(* ===== verification/TimingAcc.thy ===== *)
theory TimingAcc
  imports Models Go_Float
begin

text \<open>
  Package \<open>internal/timingacc\<close>: how far the line and word starts of a provider sit from a
  hand-verified reference. \<open>matchSeq\<close> fills its table row by row, left to right, and traces one
  best alignment back from the last cell. \<open>normalize.NormalizeKey\<close> (golang.org/x/text) is the
  parameter \<open>nkey\<close>, and the Unicode tables behind \<open>unicode.IsPunct\<close> and \<open>unicode.IsSymbol\<close> are
  the parameter \<open>punctSym\<close>. Starts are milliseconds within a track, so the sums are taken in \<open>int\<close>.
\<close>

section \<open>Definitions\<close>

definition WithinMS :: int where "WithinMS = 300"

record AccWord =
  aw_StartMS :: int
  aw_Text :: gotext

record Cue =
  cue_StartMS :: int
  cue_Text :: gotext
  cue_Words :: "AccWord list"

type_synonym pair = "nat \<times> nat"

record score =
  sc_n :: int
  sc_cost :: int

definition better :: "score \<Rightarrow> score \<Rightarrow> bool" where
  "better a b \<longleftrightarrow> sc_n a > sc_n b \<or> (sc_n a = sc_n b \<and> sc_cost a < sc_cost b)"

definition absInt :: "int \<Rightarrow> int" where
  "absInt v = (if v < 0 then - v else v)"

definition zeroScore :: score where "zeroScore = \<lparr>sc_n = 0, sc_cost = 0\<rparr>"

text \<open>The score of the diagonal neighbour extended by one pair.\<close>

definition extendScore :: "score \<Rightarrow> int \<Rightarrow> int \<Rightarrow> score" where
  "extendScore d p r = \<lparr>sc_n = sc_n d + 1, sc_cost = sc_cost d + absInt (p - r)\<rparr>"

text \<open>One cell of the table, from its neighbours above, to the left and on the diagonal.\<close>

definition cell :: "gotext \<times> int \<Rightarrow> gotext \<times> int \<Rightarrow> score \<Rightarrow> score \<Rightarrow> score \<Rightarrow> score" where
  "cell r p diag left up =
     (let cur = (if better left up then left else up)
      in if fst r \<noteq> [] \<and> fst r = fst p \<and> better (extendScore diag (snd p) (snd r)) cur
         then extendScore diag (snd p) (snd r) else cur)"

fun bestRow :: "gotext \<times> int \<Rightarrow> (gotext \<times> int) list \<Rightarrow> score \<Rightarrow> score list \<Rightarrow> score list" where
  "bestRow r (p # ps) left (diag # up # ups) =
     (let cur = cell r p diag left up in cur # bestRow r ps cur (up # ups))"
| "bestRow r ps left ups = []"

fun bestTable :: "(gotext \<times> int) list \<Rightarrow> (gotext \<times> int) list \<Rightarrow> score list \<Rightarrow> score list list" where
  "bestTable [] prov row = [row]"
| "bestTable (r # ref) prov row = row # bestTable ref prov (zeroScore # bestRow r prov zeroScore row)"

fun traceback :: "score list list \<Rightarrow> (gotext \<times> int) list \<Rightarrow> (gotext \<times> int) list \<Rightarrow> nat \<Rightarrow> nat \<Rightarrow> pair list \<Rightarrow> pair list" where
  "traceback best ref prov 0 j pairs = pairs"
| "traceback best ref prov (Suc i) 0 pairs = pairs"
| "traceback best ref prov (Suc i) (Suc j) pairs =
     (let r = ref ! i; p = prov ! j
      in if fst r \<noteq> [] \<and> fst r = fst p \<and> best ! Suc i ! Suc j = extendScore (best ! i ! j) (snd p) (snd r)
         then traceback best ref prov i j ((i, j) # pairs)
         else if best ! Suc i ! Suc j = best ! i ! Suc j then traceback best ref prov i (Suc j) pairs
         else traceback best ref prov (Suc i) j pairs)"

definition matchSeq :: "(gotext \<times> int) list \<Rightarrow> (gotext \<times> int) list \<Rightarrow> pair list \<times> nat list \<times> nat list" where
  "matchSeq ref prov =
     (let best = bestTable ref prov (replicate (Suc (length prov)) zeroScore);
          pairs = traceback best ref prov (length ref) (length prov) []
      in (pairs, filter (\<lambda>i. i \<notin> fst ` set pairs) [0..<length ref], filter (\<lambda>j. j \<notin> snd ` set pairs) [0..<length prov]))"

definition matchLines :: "(gotext \<Rightarrow> gotext) \<Rightarrow> Cue list \<Rightarrow> Cue list \<Rightarrow> pair list \<times> nat list \<times> nat list" where
  "matchLines nkey ref prov =
     matchSeq (map (\<lambda>c. (nkey (cue_Text c), cue_StartMS c)) ref) (map (\<lambda>c. (nkey (cue_Text c), cue_StartMS c)) prov)"

definition trimFunc :: "(rune \<Rightarrow> bool) \<Rightarrow> gotext \<Rightarrow> gotext" where
  "trimFunc P s = rev (dropWhile P (rev (dropWhile P s)))"

definition wordKey :: "(gotext \<Rightarrow> gotext) \<Rightarrow> (rune \<Rightarrow> bool) \<Rightarrow> gotext \<Rightarrow> gotext" where
  "wordKey nkey punctSym text = nkey (trimFunc punctSym text)"

definition sortedWords :: "AccWord list \<Rightarrow> AccWord list" where
  "sortedWords ws = sort_key aw_StartMS ws"

definition uniformWordStarts :: "AccWord list \<Rightarrow> bool" where
  "uniformWordStarts ws \<longleftrightarrow> (case ws of [] \<Rightarrow> False | [w] \<Rightarrow> False
     | w # rest \<Rightarrow> (\<forall>v \<in> set rest. aw_StartMS v = aw_StartMS w))"

definition matchWords :: "(gotext \<Rightarrow> gotext) \<Rightarrow> (rune \<Rightarrow> bool) \<Rightarrow> AccWord list \<Rightarrow> AccWord list \<Rightarrow> pair list \<times> nat list \<times> nat list" where
  "matchWords nkey punctSym ref prov =
     matchSeq (map (\<lambda>w. (wordKey nkey punctSym (aw_Text w), aw_StartMS w)) ref)
              (map (\<lambda>w. (wordKey nkey punctSym (aw_Text w), aw_StartMS w)) prov)"

record LineStats =
  ls_Tracks :: int
  ls_RefCues :: int
  ls_Matched :: int
  ls_RefUnmatched :: int
  ls_ProvExtra :: int
  ls_SumAbsErrMS :: int
  ls_WithinCount :: int
  ls_ResidualSumMS :: int
  ls_ResidualMaxMS :: int

definition zeroLineStats :: LineStats where
  "zeroLineStats = \<lparr>ls_Tracks = 0, ls_RefCues = 0, ls_Matched = 0, ls_RefUnmatched = 0, ls_ProvExtra = 0,
     ls_SumAbsErrMS = 0, ls_WithinCount = 0, ls_ResidualSumMS = 0, ls_ResidualMaxMS = 0\<rparr>"

definition addLineError :: "int \<Rightarrow> LineStats \<Rightarrow> LineStats" where
  "addLineError e s =
     (let s = s\<lparr>ls_SumAbsErrMS := ls_SumAbsErrMS s + e\<rparr>
      in if e \<le> WithinMS then s\<lparr>ls_WithinCount := ls_WithinCount s + 1\<rparr> else s)"

definition lineAddTrack :: "(gotext \<Rightarrow> gotext) \<Rightarrow> Cue list \<Rightarrow> Cue list \<Rightarrow> int \<Rightarrow> LineStats \<Rightarrow> LineStats" where
  "lineAddTrack nkey ref prov residualMS s =
     (let (pairs, refU, provX) = matchLines nkey ref prov;
          s = s\<lparr>ls_Tracks := ls_Tracks s + 1, ls_RefCues := ls_RefCues s + int (length ref),
                ls_Matched := ls_Matched s + int (length pairs), ls_RefUnmatched := ls_RefUnmatched s + int (length refU),
                ls_ProvExtra := ls_ProvExtra s + int (length provX)\<rparr>;
          s = fold (\<lambda>(i, j). addLineError (absInt (cue_StartMS (prov ! j) - cue_StartMS (ref ! i)))) pairs s
      in if pairs \<noteq> []
         then s\<lparr>ls_ResidualSumMS := ls_ResidualSumMS s + residualMS * int (length pairs),
                ls_ResidualMaxMS := max (ls_ResidualMaxMS s) residualMS\<rparr>
         else s)"

definition MAE :: "LineStats \<Rightarrow> float64 option" where
  "MAE s = (if ls_Matched s = 0 then None else Some (fdiv (fofInt (ls_SumAbsErrMS s)) (fofInt (ls_Matched s))))"

definition Within :: "LineStats \<Rightarrow> float64 option" where
  "Within s = (if ls_Matched s = 0 then None else Some (fdiv (fofInt (ls_WithinCount s)) (fofInt (ls_Matched s))))"

definition Residual :: "LineStats \<Rightarrow> (float64 \<times> int) option" where
  "Residual s = (if ls_Matched s = 0 then None
     else Some (fdiv (fofInt (ls_ResidualSumMS s)) (fofInt (ls_Matched s)), ls_ResidualMaxMS s))"

record WordStats =
  ws_Tracks :: int
  ws_RefWords :: int
  ws_Matched :: int
  ws_SumAbsErrMS :: int
  ws_WithinCount :: int
  ws_ResidualSumMS :: int
  ws_ResidualMaxMS :: int

definition addWordError :: "int \<Rightarrow> WordStats \<Rightarrow> WordStats" where
  "addWordError e s =
     (let s = s\<lparr>ws_SumAbsErrMS := ws_SumAbsErrMS s + e\<rparr>
      in if e \<le> WithinMS then s\<lparr>ws_WithinCount := ws_WithinCount s + 1\<rparr> else s)"

text \<open>The loop over the matched lines, with the words matched so far and whether any line had both.\<close>

fun wordLines :: "(gotext \<Rightarrow> gotext) \<Rightarrow> (rune \<Rightarrow> bool) \<Rightarrow> Cue list \<Rightarrow> Cue list \<Rightarrow> pair list
    \<Rightarrow> WordStats \<times> int \<times> bool \<Rightarrow> WordStats \<times> int \<times> bool" where
  "wordLines nkey punctSym ref prov [] acc = acc"
| "wordLines nkey punctSym ref prov ((i, j) # pairs) (s, matched, seen) =
     (let rw = sortedWords (cue_Words (ref ! i)); pw = sortedWords (cue_Words (prov ! j))
      in if rw = [] then wordLines nkey punctSym ref prov pairs (s, matched, seen)
         else let s = s\<lparr>ws_RefWords := ws_RefWords s + int (length rw)\<rparr>
              in if pw = [] \<or> uniformWordStarts pw then wordLines nkey punctSym ref prov pairs (s, matched, seen)
                 else let (wp, _, _) = matchWords nkey punctSym rw pw;
                          s = fold (\<lambda>(k, m). addWordError (absInt (aw_StartMS (pw ! m) - aw_StartMS (rw ! k)))) wp s
                      in wordLines nkey punctSym ref prov pairs (s, matched + int (length wp), True))"

definition wordAddTrack :: "(gotext \<Rightarrow> gotext) \<Rightarrow> (rune \<Rightarrow> bool) \<Rightarrow> Cue list \<Rightarrow> Cue list \<Rightarrow> int \<Rightarrow> WordStats \<Rightarrow> WordStats" where
  "wordAddTrack nkey punctSym ref prov residualMS s =
     (let (pairs, _, _) = matchLines nkey ref prov;
          (s, matched, seen) = wordLines nkey punctSym ref prov pairs (s, 0, False);
          s = (if seen then s\<lparr>ws_Tracks := ws_Tracks s + 1\<rparr> else s);
          s = s\<lparr>ws_Matched := ws_Matched s + matched\<rparr>
      in if matched > 0
         then s\<lparr>ws_ResidualSumMS := ws_ResidualSumMS s + residualMS * matched,
                ws_ResidualMaxMS := max (ws_ResidualMaxMS s) residualMS\<rparr>
         else s)"

section \<open>Specification\<close>

text \<open>
  A monotone alignment of the first \<open>m\<close> reference and \<open>n\<close> provider lines: pairs of equal,
  non-empty keys, strictly increasing on both sides.
\<close>

definition alignment :: "(gotext \<times> int) list \<Rightarrow> (gotext \<times> int) list \<Rightarrow> nat \<Rightarrow> nat \<Rightarrow> pair list \<Rightarrow> bool" where
  "alignment ref prov m n al \<longleftrightarrow>
     sorted_wrt (\<lambda>(a, b) (c, d). a < c \<and> b < d) al
     \<and> (\<forall>(a, b) \<in> set al. a < m \<and> b < n \<and> fst (ref ! a) \<noteq> [] \<and> fst (ref ! a) = fst (prov ! b))"

definition cost :: "(gotext \<times> int) list \<Rightarrow> (gotext \<times> int) list \<Rightarrow> pair list \<Rightarrow> int" where
  "cost ref prov al = (\<Sum>(a, b) \<leftarrow> al. \<bar>snd (prov ! b) - snd (ref ! a)\<bar>)"

definition scoreOf :: "(gotext \<times> int) list \<Rightarrow> (gotext \<times> int) list \<Rightarrow> pair list \<Rightarrow> score" where
  "scoreOf ref prov al = \<lparr>sc_n = int (length al), sc_cost = cost ref prov al\<rparr>"

text \<open>The table as a recurrence over the prefixes.\<close>

fun bestAt :: "(gotext \<times> int) list \<Rightarrow> (gotext \<times> int) list \<Rightarrow> nat \<Rightarrow> nat \<Rightarrow> score" where
  "bestAt ref prov 0 j = zeroScore"
| "bestAt ref prov (Suc i) 0 = zeroScore"
| "bestAt ref prov (Suc i) (Suc j) =
     cell (ref ! i) (prov ! j) (bestAt ref prov i j) (bestAt ref prov (Suc i) j) (bestAt ref prov i (Suc j))"

text \<open>The statistics of a list of tracks, and what they keep.\<close>

definition addedLines :: "(gotext \<Rightarrow> gotext) \<Rightarrow> (Cue list \<times> Cue list \<times> int) list \<Rightarrow> LineStats \<Rightarrow> LineStats" where
  "addedLines nkey tracks s = fold (\<lambda>(ref, prov, residualMS). lineAddTrack nkey ref prov residualMS) tracks s"

definition lines_ok :: "LineStats \<Rightarrow> bool" where
  "lines_ok s \<longleftrightarrow> ls_RefCues s = ls_Matched s + ls_RefUnmatched s \<and> 0 \<le> ls_RefUnmatched s \<and> 0 \<le> ls_ProvExtra s
     \<and> 0 \<le> ls_WithinCount s \<and> ls_WithinCount s \<le> ls_Matched s
     \<and> (WithinMS + 1) * (ls_Matched s - ls_WithinCount s) \<le> ls_SumAbsErrMS s"

text \<open>The lines of a track as \<open>matchSeq\<close> sees them, and the lines that can pair at all.\<close>

definition keyed :: "(gotext \<Rightarrow> gotext) \<Rightarrow> Cue list \<Rightarrow> (gotext \<times> int) list" where
  "keyed nkey cues = map (\<lambda>c. (nkey (cue_Text c), cue_StartMS c)) cues"

definition pairable :: "(gotext \<times> int) list \<Rightarrow> nat list" where
  "pairable xs = filter (\<lambda>i. fst (xs ! i) \<noteq> []) [0..<length xs]"

section \<open>Lemmas\<close>

subsection \<open>The table\<close>

lemma bestRow_eq:
  assumes "j \<le> length prov"
  shows "bestRow (ref ! i) (drop j prov) (bestAt ref prov (Suc i) j) (map (bestAt ref prov i) [j..<Suc (length prov)])
    = map (bestAt ref prov (Suc i)) [Suc j..<Suc (length prov)]"
  using assms
proof (induction "length prov - j" arbitrary: j)
  case (Suc d)
  then have j: "j < length prov" by simp
  then have "drop j prov = prov ! j # drop (Suc j) prov" by (simp add: Cons_nth_drop_Suc)
  moreover have "[j..<Suc (length prov)] = j # Suc j # [Suc (Suc j)..<Suc (length prov)]"
    using j by (simp add: upt_rec)
  moreover have "[Suc j..<Suc (length prov)] = Suc j # [Suc (Suc j)..<Suc (length prov)]" using j by (simp add: upt_rec)
  ultimately show ?case using Suc.hyps(1) [of "Suc j"] Suc.hyps(2) j by (simp add: Let_def del: upt_Suc)
qed simp

lemma bestTable_drop:
  assumes "i \<le> length ref"
  shows "bestTable (drop i ref) prov (map (bestAt ref prov i) [0..<Suc (length prov)])
    = map (\<lambda>k. map (bestAt ref prov k) [0..<Suc (length prov)]) [i..<Suc (length ref)]"
  using assms
proof (induction "length ref - i" arbitrary: i)
  case (Suc d)
  then have i: "i < length ref" by simp
  have z: "bestAt ref prov (Suc i) 0 = zeroScore" by simp
  have "zeroScore # bestRow (ref ! i) prov zeroScore (map (bestAt ref prov i) [0..<Suc (length prov)])
      = map (bestAt ref prov (Suc i)) [0..<Suc (length prov)]"
    using bestRow_eq [of 0 prov ref i] by (subst (2) upt_rec) (simp del: upt_Suc)
  moreover have "drop i ref = ref ! i # drop (Suc i) ref" using i by (simp add: Cons_nth_drop_Suc)
  moreover have "[i..<Suc (length ref)] = i # [Suc i..<Suc (length ref)]" using i by (simp add: upt_rec)
  ultimately show ?case using Suc.hyps(1) [of "Suc i"] Suc.hyps(2) i by (simp del: upt_Suc)
qed simp

lemma bestTable_nth:
  assumes "i \<le> length ref" "j \<le> length prov"
  shows "bestTable ref prov (replicate (Suc (length prov)) zeroScore) ! i ! j = bestAt ref prov i j"
proof -
  have "map (bestAt ref prov 0) [0..<Suc (length prov)] = replicate (Suc (length prov)) zeroScore"
    by (rule nth_equalityI) (auto simp del: upt_Suc replicate_Suc)
  then show ?thesis using bestTable_drop [of 0 ref prov] assms by (simp del: upt_Suc replicate_Suc)
qed

subsection \<open>The order of scores\<close>

lemma better_trans: "\<not> better a b \<Longrightarrow> \<not> better b c \<Longrightarrow> \<not> better a c"
  by (auto simp: better_def)

lemma better_irrefl [simp]: "\<not> better a a"
  by (simp add: better_def)

lemma extendScore_mono: "\<not> better a b \<Longrightarrow> \<not> better (extendScore a p r) (extendScore b p r)"
  by (auto simp: better_def extendScore_def)

lemma better_asym: "better a b \<Longrightarrow> \<not> better b a"
  by (auto simp: better_def)

lemma cell_upper:
  "\<not> better up (cell r p diag left up)" "\<not> better left (cell r p diag left up)"
  "fst r \<noteq> [] \<Longrightarrow> fst r = fst p \<Longrightarrow> \<not> better (extendScore diag (snd p) (snd r)) (cell r p diag left up)"
proof -
  define cur where "cur = (if better left up then left else up)"
  define e where "e = extendScore diag (snd p) (snd r)"
  have c: "cell r p diag left up = (if fst r \<noteq> [] \<and> fst r = fst p \<and> better e cur then e else cur)"
    by (simp only: cell_def Let_def cur_def e_def)
  have "\<not> better up cur" "\<not> better left cur" using better_asym by (simp_all add: cur_def)
  moreover have "\<not> better cur (cell r p diag left up)" using better_asym c by auto
  ultimately show "\<not> better up (cell r p diag left up)" "\<not> better left (cell r p diag left up)"
    using better_trans by blast+
  show "\<not> better e (cell r p diag left up)" if "fst r \<noteq> []" "fst r = fst p" using that c by auto
qed

lemmas cell_bounds = better_trans [OF _ cell_upper(1)] better_trans [OF _ cell_upper(2)] better_trans [OF _ cell_upper(3)]

lemma cell_cases:
  "cell r p diag left up = up \<or> cell r p diag left up = left
    \<or> (fst r \<noteq> [] \<and> fst r = fst p \<and> cell r p diag left up = extendScore diag (snd p) (snd r))"
  by (auto simp: cell_def Let_def)

lemma scoreOf_snoc: "scoreOf ref prov (al @ [(a, b)]) = extendScore (scoreOf ref prov al) (snd (prov ! b)) (snd (ref ! a))"
  by (simp add: scoreOf_def extendScore_def cost_def absInt_def)

lemma alignment_snoc:
  "alignment ref prov m n (al @ [(a, b)]) \<longleftrightarrow>
     alignment ref prov a b al \<and> a < m \<and> b < n \<and> fst (ref ! a) \<noteq> [] \<and> fst (ref ! a) = fst (prov ! b)"
  by (fastforce simp: alignment_def sorted_wrt_append)

lemma alignment_mono: "alignment ref prov m n al \<Longrightarrow> m \<le> m' \<Longrightarrow> n \<le> n' \<Longrightarrow> alignment ref prov m' n' al"
  by (fastforce simp: alignment_def)

lemma score_zero: "\<not> better (scoreOf ref prov []) (bestAt ref prov m n)"
proof (induction ref prov m n rule: bestAt.induct)
  case (3 ref prov i j)
  then show ?case unfolding bestAt.simps by (intro cell_bounds(1))
qed (simp_all add: scoreOf_def cost_def zeroScore_def)

lemma alignment_empty: "alignment ref prov m n al \<Longrightarrow> m = 0 \<or> n = 0 \<Longrightarrow> al = []"
  by (cases al) (auto simp: alignment_def)

lemma bestAt_optimal: "alignment ref prov m n al \<Longrightarrow> \<not> better (scoreOf ref prov al) (bestAt ref prov m n)"
proof (induction ref prov m n arbitrary: al rule: bestAt.induct)
  case (3 ref prov i j)
  show ?case
  proof (cases al rule: rev_cases)
    case Nil
    then show ?thesis using score_zero by blast
  next
    case (snoc al' ab)
    obtain a b where ab: "ab = (a, b)" by (cases ab)
    have al: "alignment ref prov a b al'" "a < Suc i" "b < Suc j" "fst (ref ! a) \<noteq> []" "fst (ref ! a) = fst (prov ! b)"
      using 3(4) unfolding snoc ab alignment_snoc by blast+
    consider "a < i" | "b < j" | "a = i" "b = j" using al by linarith
    then show ?thesis
    proof cases
      case 1
      then have "alignment ref prov i (Suc j) al" using al by (simp add: snoc ab alignment_snoc)
      then show ?thesis unfolding bestAt.simps by (intro cell_bounds(1) 3(3))
    next
      case 2
      then have "alignment ref prov (Suc i) j al" using al by (simp add: snoc ab alignment_snoc)
      then show ?thesis unfolding bestAt.simps by (intro cell_bounds(2) 3(2))
    next
      case eq: 3
      have "\<not> better (scoreOf ref prov al) (extendScore (bestAt ref prov i j) (snd (prov ! j)) (snd (ref ! i)))"
        using extendScore_mono [OF 3(1) [OF al(1) [unfolded eq]]] by (simp add: snoc ab scoreOf_snoc eq)
      then show ?thesis using al(4,5) unfolding eq bestAt.simps by (rule cell_bounds(3))
    qed
  qed
qed (auto dest!: alignment_empty simp: scoreOf_def cost_def zeroScore_def)

text \<open>The traced alignment scores what the table says.\<close>

lemma traceback_score:
  assumes "\<And>k l. k \<le> i \<Longrightarrow> l \<le> j \<Longrightarrow> best ! k ! l = bestAt ref prov k l"
  shows "\<exists>al. traceback best ref prov i j acc = al @ acc \<and> alignment ref prov i j al \<and> scoreOf ref prov al = bestAt ref prov i j"
  using assms
proof (induction best ref prov i j acc rule: traceback.induct)
  case (3 best ref prov i j acc)
  let ?m = "fst (ref ! i) \<noteq> [] \<and> fst (ref ! i) = fst (prov ! j)
    \<and> best ! Suc i ! Suc j = extendScore (best ! i ! j) (snd (prov ! j)) (snd (ref ! i))"
  have b: "best ! Suc i ! Suc j = bestAt ref prov (Suc i) (Suc j)" "best ! i ! j = bestAt ref prov i j"
    "best ! i ! Suc j = bestAt ref prov i (Suc j)" using 3(4) by simp_all
  consider "?m" | "\<not> ?m" "best ! Suc i ! Suc j = best ! i ! Suc j" | "\<not> ?m" "best ! Suc i ! Suc j \<noteq> best ! i ! Suc j" by blast
  then show ?case
  proof cases
    case 1
    then obtain al where al: "traceback best ref prov i j ((i, j) # acc) = al @ (i, j) # acc" "alignment ref prov i j al"
      "scoreOf ref prov al = bestAt ref prov i j" using 3(1) [OF refl refl] 3(4) by fastforce
    then show ?thesis using 1 b by (intro exI [of _ "al @ [(i, j)]"]) (auto simp: alignment_snoc scoreOf_snoc)
  next
    case 2
    then obtain al where "traceback best ref prov i (Suc j) acc = al @ acc" "alignment ref prov i (Suc j) al"
      "scoreOf ref prov al = bestAt ref prov i (Suc j)" using 3(2) [OF refl refl] 3(4) by fastforce
    then show ?thesis using 2 b by (intro exI [of _ al]) (auto simp: Let_def intro: alignment_mono)
  next
    case neq: 3
    then have "bestAt ref prov (Suc i) (Suc j) = bestAt ref prov (Suc i) j"
      using b cell_cases [of "ref ! i" "prov ! j" "bestAt ref prov i j" "bestAt ref prov (Suc i) j" "bestAt ref prov i (Suc j)"] by auto
    moreover obtain al where "traceback best ref prov (Suc i) j acc = al @ acc" "alignment ref prov (Suc i) j al"
      "scoreOf ref prov al = bestAt ref prov (Suc i) j" using 3(3) [OF refl refl] neq 3(4) by fastforce
    ultimately show ?thesis using neq by (intro exI [of _ al]) (auto simp: Let_def intro: alignment_mono)
  qed
qed (auto simp: alignment_def scoreOf_def cost_def zeroScore_def)

subsection \<open>Matching\<close>

lemma matchSeq_score:
  obtains pairs where "fst (matchSeq ref prov) = pairs" "alignment ref prov (length ref) (length prov) pairs"
    "scoreOf ref prov pairs = bestAt ref prov (length ref) (length prov)"
  using traceback_score [of "length ref" "length prov" _ ref prov "[]", OF bestTable_nth]
  by (auto simp: matchSeq_def Let_def)

lemma scoreOf_better: "\<not> better (scoreOf ref prov a) (scoreOf ref prov b) \<longleftrightarrow>
    length a \<le> length b \<and> (length a = length b \<longrightarrow> cost ref prov b \<le> cost ref prov a)"
  by (auto simp: better_def scoreOf_def)

lemma alignment_distinct: "alignment ref prov m n al \<Longrightarrow> distinct (map fst al) \<and> distinct (map snd al)"
proof -
  assume "alignment ref prov m n al"
  then have "sorted_wrt (<) (map fst al) \<and> sorted_wrt (<) (map snd al)"
    by (auto simp: alignment_def sorted_wrt_map case_prod_beta elim: sorted_wrt_mono_rel [rotated])
  then show ?thesis by (simp add: strict_sorted_iff)
qed

lemma unmatched_count:
  assumes "distinct xs" "\<forall>x \<in> set xs. x < n"
  shows "length (filter (\<lambda>i. i \<notin> set xs) [0..<n]) + length xs = n"
proof -
  have "length (filter (\<lambda>i. i \<notin> set xs) [0..<n]) = card ({0..<n} - set xs)"
    by (subst distinct_card [symmetric]) (auto intro: arg_cong [where f = card])
  also have "\<dots> = n - length xs" using assms by (subst card_Diff_subset) (auto simp: distinct_card)
  moreover have "length xs \<le> n" using card_mono [of "{0..<n}" "set xs"] assms by (simp add: distinct_card subset_iff)
  ultimately show ?thesis by simp
qed

lemma matchSeq_counts:
  assumes "matchSeq ref prov = (pairs, refU, provX)"
  shows "length refU + length pairs = length ref" "length provX + length pairs = length prov"
proof -
  have al: "alignment ref prov (length ref) (length prov) pairs" using matchSeq_score [of ref prov] assms by fastforce
  note d = alignment_distinct [OF al]
  have "refU = filter (\<lambda>i. i \<notin> set (map fst pairs)) [0..<length ref]" "provX = filter (\<lambda>i. i \<notin> set (map snd pairs)) [0..<length prov]"
    using assms by (auto simp: matchSeq_def Let_def)
  then show "length refU + length pairs = length ref" "length provX + length pairs = length prov"
    using unmatched_count [of "map fst pairs" "length ref"] unmatched_count [of "map snd pairs" "length prov"] d al
    by (simp_all add: alignment_def case_prod_beta)
qed

subsection \<open>Statistics\<close>

lemma fold_errors:
  "\<forall>p \<in> set pairs. 0 \<le> f p \<Longrightarrow> s' = fold (\<lambda>p. addLineError (f p)) pairs s \<Longrightarrow>
   ls_Tracks s' = ls_Tracks s \<and> ls_RefCues s' = ls_RefCues s \<and> ls_Matched s' = ls_Matched s \<and> ls_RefUnmatched s' = ls_RefUnmatched s
   \<and> ls_ProvExtra s' = ls_ProvExtra s \<and> ls_SumAbsErrMS s' = ls_SumAbsErrMS s + (\<Sum>p \<leftarrow> pairs. f p)
   \<and> ls_WithinCount s' = ls_WithinCount s + int (length (filter (\<lambda>p. f p \<le> WithinMS) pairs))"
  by (induction pairs arbitrary: s) (auto simp: addLineError_def Let_def)

lemma sum_outside: "\<forall>p \<in> set pairs. 0 \<le> f p \<Longrightarrow>
    (WithinMS + 1) * int (length (filter (\<lambda>p. \<not> f p \<le> WithinMS) pairs)) \<le> (\<Sum>p \<leftarrow> pairs. f p)"
  by (induction pairs) (auto simp: WithinMS_def)

lemma absInt_abs: "absInt v = \<bar>v\<bar>"
  by (simp add: absInt_def)

lemma lineAddTrack_fields:
  assumes "matchLines nkey ref prov = (pairs, refU, provX)" and "s' = lineAddTrack nkey ref prov res s"
  defines "f \<equiv> \<lambda>(i, j). \<bar>cue_StartMS (prov ! j) - cue_StartMS (ref ! i)\<bar>"
  shows "ls_Tracks s' = ls_Tracks s + 1" "ls_RefCues s' = ls_RefCues s + int (length ref)"
    "ls_Matched s' = ls_Matched s + int (length pairs)" "ls_RefUnmatched s' = ls_RefUnmatched s + int (length refU)"
    "ls_ProvExtra s' = ls_ProvExtra s + int (length provX)" "ls_SumAbsErrMS s' = ls_SumAbsErrMS s + (\<Sum>p \<leftarrow> pairs. f p)"
    "ls_WithinCount s' = ls_WithinCount s + int (length (filter (\<lambda>p. f p \<le> WithinMS) pairs))"
proof -
  define s1 where "s1 = s\<lparr>ls_Tracks := ls_Tracks s + 1, ls_RefCues := ls_RefCues s + int (length ref),
    ls_Matched := ls_Matched s + int (length pairs), ls_RefUnmatched := ls_RefUnmatched s + int (length refU),
    ls_ProvExtra := ls_ProvExtra s + int (length provX)\<rparr>"
  define s2 where "s2 = fold (\<lambda>p. addLineError (f p)) pairs s1"
  have "(\<lambda>(i, j). addLineError (absInt (cue_StartMS (prov ! j) - cue_StartMS (ref ! i)))) = (\<lambda>p. addLineError (f p))"
    by (auto simp: f_def absInt_abs)
  then have s': "s' = (if pairs \<noteq> [] then s2\<lparr>ls_ResidualSumMS := ls_ResidualSumMS s2 + res * int (length pairs),
      ls_ResidualMaxMS := max (ls_ResidualMaxMS s2) res\<rparr> else s2)"
    using assms(1,2) unfolding lineAddTrack_def s2_def s1_def by (simp add: Let_def)
  have "\<forall>p \<in> set pairs. 0 \<le> f p" by (auto simp: f_def)
  note e = fold_errors [OF this s2_def]
  show "ls_Tracks s' = ls_Tracks s + 1" "ls_RefCues s' = ls_RefCues s + int (length ref)"
    "ls_Matched s' = ls_Matched s + int (length pairs)" "ls_RefUnmatched s' = ls_RefUnmatched s + int (length refU)"
    "ls_ProvExtra s' = ls_ProvExtra s + int (length provX)" "ls_SumAbsErrMS s' = ls_SumAbsErrMS s + (\<Sum>p \<leftarrow> pairs. f p)"
    "ls_WithinCount s' = ls_WithinCount s + int (length (filter (\<lambda>p. f p \<le> WithinMS) pairs))"
    using e unfolding s' by (auto simp: s1_def)
qed

lemma matchLines_keyed: "matchLines nkey ref prov = matchSeq (keyed nkey ref) (keyed nkey prov)"
  by (simp add: matchLines_def keyed_def)

lemma lineAddTrack_ok:
  assumes "lines_ok s"
  shows "lines_ok (lineAddTrack nkey ref prov res s)"
    and "ls_Matched (lineAddTrack nkey ref prov res s) + ls_ProvExtra (lineAddTrack nkey ref prov res s)
       = ls_Matched s + ls_ProvExtra s + int (length prov)"
proof -
  obtain pairs refU provX where m: "matchLines nkey ref prov = (pairs, refU, provX)" by (metis surj_pair)
  let ?f = "\<lambda>(i, j). \<bar>cue_StartMS (prov ! j) - cue_StartMS (ref ! i)\<bar>"
  note fields = lineAddTrack_fields [OF m refl, of res s]
  have c: "length refU + length pairs = length ref" "length provX + length pairs = length prov"
    using matchSeq_counts [of "keyed nkey ref" "keyed nkey prov"] m unfolding matchLines_keyed by (simp_all add: keyed_def)
  have "length pairs = length (filter (\<lambda>p. ?f p \<le> WithinMS) pairs) + length (filter (\<lambda>p. \<not> ?f p \<le> WithinMS) pairs)"
    by (rule sum_length_filter_compl [symmetric])
  moreover have "(WithinMS + 1) * int (length (filter (\<lambda>p. \<not> ?f p \<le> WithinMS) pairs)) \<le> (\<Sum>p \<leftarrow> pairs. ?f p)"
    by (rule sum_outside) auto
  ultimately show "lines_ok (lineAddTrack nkey ref prov res s)" using assms c
    unfolding lines_ok_def fields by (auto simp: WithinMS_def)
  show "ls_Matched (lineAddTrack nkey ref prov res s) + ls_ProvExtra (lineAddTrack nkey ref prov res s)
       = ls_Matched s + ls_ProvExtra s + int (length prov)" unfolding fields using c by simp
qed

lemma alignment_pairable: "alignment xs ys (length xs) n al \<Longrightarrow> length al \<le> length (pairable xs)"
proof -
  assume al: "alignment xs ys (length xs) n al"
  then have "length al = card (set (map fst al))" using alignment_distinct [OF al] distinct_card by fastforce
  also have "\<dots> \<le> card (set (pairable xs))" using al by (intro card_mono) (auto simp: alignment_def pairable_def)
  also have "\<dots> = length (pairable xs)" by (rule distinct_card) (simp add: pairable_def)
  finally show ?thesis .
qed

lemma self_alignment:
  "alignment xs xs (length xs) (length xs) (map (\<lambda>i. (i, i)) (pairable xs))"
  "cost xs xs (map (\<lambda>i. (i, i)) (pairable xs)) = 0"
proof -
  have "sorted_wrt (<) (pairable xs)" unfolding pairable_def by (rule sorted_wrt_filter) simp
  then show "alignment xs xs (length xs) (length xs) (map (\<lambda>i. (i, i)) (pairable xs))"
    by (auto simp: alignment_def sorted_wrt_map pairable_def)
  show "cost xs xs (map (\<lambda>i. (i, i)) (pairable xs)) = 0" by (simp add: cost_def comp_def)
qed

lemma cost_nonneg: "0 \<le> cost ref prov al"
  by (auto simp: cost_def intro!: sum_list_nonneg)

lemma self_match:
  assumes "matchSeq xs xs = (pairs, refU, provX)"
  shows "length pairs = length (pairable xs)" "cost xs xs pairs = 0"
proof -
  let ?id = "map (\<lambda>i. (i, i)) (pairable xs)"
  have al: "alignment xs xs (length xs) (length xs) pairs" "scoreOf xs xs pairs = bestAt xs xs (length xs) (length xs)"
    using matchSeq_score [of xs xs] assms by fastforce+
  have "\<not> better (scoreOf xs xs ?id) (scoreOf xs xs pairs)" using bestAt_optimal [OF self_alignment(1)] al(2) by metis
  then have "length (pairable xs) \<le> length pairs \<and> (length (pairable xs) = length pairs \<longrightarrow> cost xs xs pairs \<le> 0)"
    unfolding scoreOf_better using self_alignment(2) [of xs] by simp
  then show "length pairs = length (pairable xs)" "cost xs xs pairs = 0"
    using alignment_pairable [OF al(1)] cost_nonneg [of xs xs pairs] by auto
qed

lemma keyed_cost:
  "alignment (keyed nkey ref) (keyed nkey prov) (length ref) (length prov) pairs \<Longrightarrow>
   cost (keyed nkey ref) (keyed nkey prov) pairs = (\<Sum>(i, j) \<leftarrow> pairs. \<bar>cue_StartMS (prov ! j) - cue_StartMS (ref ! i)\<bar>)"
  unfolding cost_def by (rule arg_cong [where f = sum_list], rule map_cong [OF refl]) (auto simp: alignment_def keyed_def)

section \<open>Properties\<close>

text \<open>
  C36: the matcher is optimal. Its pairs never cross, pair equal non-empty keys only, and no other
  such alignment of the two tracks has more pairs, nor as many with a smaller total start
  difference.
\<close>

theorem matcher_optimal:
  assumes "matchSeq ref prov = (pairs, refUnmatched, provExtra)"
  shows "alignment ref prov (length ref) (length prov) pairs
    \<and> (\<forall>al. alignment ref prov (length ref) (length prov) al \<longrightarrow>
         length al \<le> length pairs \<and> (length al = length pairs \<longrightarrow> cost ref prov pairs \<le> cost ref prov al))"
proof -
  have p: "alignment ref prov (length ref) (length prov) pairs" "scoreOf ref prov pairs = bestAt ref prov (length ref) (length prov)"
    using matchSeq_score [of ref prov] assms by fastforce+
  then show ?thesis using bestAt_optimal [of ref prov "length ref" "length prov"] scoreOf_better [of ref prov] by metis
qed

theorem matcher_optimal_witness:
  "alignment [([1], 0), ([2], 1000), ([1], 2000)] [([1], 1900), ([2], 2500)] 3 2 [(0, 0), (1, 1)]
   \<and> fst (matchSeq [([1], 0), ([2], 1000), ([1], 2000)] [([1], 1900), ([2], 2500)]) = [(0, 0), (1, 1)]"
proof -
  let ?r = "[([1], 0), ([2], 1000), ([1], 2000)] :: (gotext \<times> int) list" and ?p = "[([1], 1900), ([2], 2500)] :: (gotext \<times> int) list"
  have m: "matchSeq ?r ?p = ([(0, 0), (1, 1)], [2], [])"
    by code_simp
  then show ?thesis using matcher_optimal [OF m] by (simp add: eval_nat_numeral)
qed

text \<open>
  The line report accounts for every cue. After any tracks, every reference cue is matched or
  unmatched, every provider cue matched or extra, the cues within the tolerance are among the
  matched ones, and every matched cue outside it adds at least 301 ms to the error sum.
\<close>

theorem line_report_accounts:
  "lines_ok (addedLines nkey tracks zeroLineStats)
   \<and> ls_RefCues (addedLines nkey tracks zeroLineStats) = (\<Sum>(ref, prov, _) \<leftarrow> tracks. int (length ref))
   \<and> ls_Matched (addedLines nkey tracks zeroLineStats) + ls_ProvExtra (addedLines nkey tracks zeroLineStats)
     = (\<Sum>(ref, prov, _) \<leftarrow> tracks. int (length prov))"
proof -
  have "lines_ok s \<Longrightarrow> lines_ok (addedLines nkey tracks s)
      \<and> ls_RefCues (addedLines nkey tracks s) = ls_RefCues s + (\<Sum>(ref, prov, _) \<leftarrow> tracks. int (length ref))
      \<and> ls_Matched (addedLines nkey tracks s) + ls_ProvExtra (addedLines nkey tracks s)
        = ls_Matched s + ls_ProvExtra s + (\<Sum>(ref, prov, _) \<leftarrow> tracks. int (length prov))" for s
    unfolding addedLines_def
  proof (induction tracks arbitrary: s)
    case (Cons t tracks)
    obtain ref prov res where t: "t = (ref, prov, res)" by (metis surj_pair)
    obtain pairs refU provX where m: "matchLines nkey ref prov = (pairs, refU, provX)" by (metis surj_pair)
    show ?case using Cons.IH [OF lineAddTrack_ok(1) [OF Cons.prems]] lineAddTrack_ok(2) [OF Cons.prems]
        lineAddTrack_fields(2) [OF m refl] by (simp add: t)
  qed simp
  moreover have "lines_ok zeroLineStats" by (simp add: lines_ok_def zeroLineStats_def WithinMS_def)
  ultimately show ?thesis by (simp add: zeroLineStats_def)
qed

text \<open>
  A provider that serves the reference itself is measured as perfect: every cue whose text has
  a key is matched, repeated lines included, and the total start error is 0.
\<close>

theorem reference_measures_perfect:
  "ls_Matched (lineAddTrack nkey ref ref residualMS zeroLineStats)
     = int (length (filter (\<lambda>c. nkey (cue_Text c) \<noteq> []) ref))
   \<and> ls_SumAbsErrMS (lineAddTrack nkey ref ref residualMS zeroLineStats) = 0"
proof -
  obtain pairs refU provX where m: "matchLines nkey ref ref = (pairs, refU, provX)" by (metis surj_pair)
  note ms = m [unfolded matchLines_keyed]
  have al: "alignment (keyed nkey ref) (keyed nkey ref) (length ref) (length ref) pairs"
    using matchSeq_score [of "keyed nkey ref" "keyed nkey ref"] ms by (fastforce simp: keyed_def)
  have "length (pairable (keyed nkey ref)) = length (filter (\<lambda>c. nkey (cue_Text c) \<noteq> []) ref)"
    unfolding pairable_def length_filter_conv_card
    by (rule arg_cong [where f = card]) (auto simp: keyed_def)
  then show ?thesis
    using self_match [OF ms] lineAddTrack_fields(3,6) [OF m refl, of residualMS zeroLineStats] keyed_cost [OF al]
    by (simp add: zeroLineStats_def)
qed

end
