(* ===== verification/Repair.thy ===== *)
theory Repair
  imports Go_Float Pacer
begin

text \<open>
  Package \<open>internal/repair\<close>: the contract of an operator repair (\<open>repair.go\<close>), the registry of
  repairs (\<open>registry.go\<close>), the in-memory run store (\<open>runstore.go\<close>) and the runner that runs one
  repair at a time off the caller's goroutine (\<open>runner.go\<close>). A \<open>Repair\<close> is its \<open>Info\<close>; what its
  \<open>Run\<close> reports and returns, and when, are the events of \<open>runner_step\<close>. The interface \<open>RunStore\<close>
  is a record of functions over the store's state; its contract is the locale \<open>run_store\<close>, under
  which the runner is verified, and \<open>MemStore\<close> is an interpretation of it. Each method that holds a
  mutex is one step. Run ids are taken in \<open>int\<close>: a process does not start \<open>2 ^ 63\<close> runs.
\<close>

section \<open>The contract of a repair\<close>

definition maxIdentLen :: nat where "maxIdentLen = 48"

definition isLowerAZ :: "rune \<Rightarrow> bool" where "isLowerAZ b \<longleftrightarrow> 97 \<le> b \<and> b \<le> 122"

definition validIdent :: "gotext \<Rightarrow> rune \<Rightarrow> bool" where
  "validIdent s sep \<longleftrightarrow> s \<noteq> [] \<and> length s \<le> maxIdentLen \<and> isLowerAZ (hd s)
     \<and> (\<forall>b \<in> set (tl s). isLowerAZ b \<or> isDigit b \<or> b = sep)"

definition keyValid :: "gotext \<Rightarrow> bool" where "keyValid k \<longleftrightarrow> validIdent k 45"
definition countKeyValid :: "gotext \<Rightarrow> bool" where "countKeyValid c \<longleftrightarrow> validIdent c 95"

record Info =
  i_Key :: gotext
  i_Title :: gotext
  i_Description :: gotext
  i_CostNote :: gotext
  i_ReadsFiles :: bool
  i_NeedsBackup :: bool
  i_Counts :: "gotext list"

datatype repairErr =
  InvalidInfoKey gotext | InvalidInfoTitle gotext | InvalidInfoCount gotext | InvalidInfoTwice gotext gotext
| ErrInvalidResult gotext nat | ErrBackupRequired gotext | ErrDuplicateKey gotext | ErrNilRepair
| ErrUnknownRepair gotext | ErrClosed | ErrCloseTimeout | ErrBusy

fun checkCounts :: "gotext \<Rightarrow> gotext list \<Rightarrow> gotext list \<Rightarrow> repairErr option" where
  "checkCounts key known [] = None"
| "checkCounts key known (c # cs) =
     (if \<not> countKeyValid c then Some (InvalidInfoCount key)
      else if c \<in> set known then Some (InvalidInfoTwice key c)
      else checkCounts key (c # known) cs)"

definition Validate :: "Info \<Rightarrow> repairErr option" where
  "Validate i = (if \<not> keyValid (i_Key i) then Some (InvalidInfoKey (i_Key i))
     else if i_Title i = [] then Some (InvalidInfoTitle (i_Key i))
     else checkCounts (i_Key i) [] (i_Counts i))"

definition declares :: "Info \<Rightarrow> gotext \<Rightarrow> bool" where
  "declares i c \<longleftrightarrow> c \<in> set (i_Counts i)"

record Options =
  o_Apply :: bool
  o_Backup :: gotext

definition CheckOptions :: "Info \<Rightarrow> Options \<Rightarrow> repairErr option" where
  "CheckOptions i opts = (if o_Apply opts \<and> i_NeedsBackup i \<and> o_Backup opts = [] then Some (ErrBackupRequired (i_Key i)) else None)"

text \<open>A result: its counts in order.\<close>

type_synonym Result = "(gotext \<times> int) list"

fun resultAdd :: "gotext \<Rightarrow> int \<Rightarrow> Result \<Rightarrow> Result" where
  "resultAdd key n [] = [(key, n)]"
| "resultAdd key n ((k, m) # r) = (if k = key then (k, int64 (m + n)) # r else (k, m) # resultAdd key n r)"

definition NewResult :: "gotext list \<Rightarrow> Result" where
  "NewResult keys = fold (\<lambda>k. resultAdd k 0) keys []"

definition resultGet :: "gotext \<Rightarrow> Result \<Rightarrow> int option" where
  "resultGet key r = map_of r key"

fun checkFrom :: "Info \<Rightarrow> nat \<Rightarrow> Result \<Rightarrow> repairErr option" where
  "checkFrom i n [] = None"
| "checkFrom i n ((k, m) # r) =
     (if \<not> countKeyValid k \<or> \<not> declares i k then Some (ErrInvalidResult (i_Key i) n) else checkFrom i (Suc n) r)"

definition Check :: "Info \<Rightarrow> Result \<Rightarrow> repairErr option" where
  "Check i r = checkFrom i 0 r"

section \<open>Registry\<close>

record Registry =
  byKey :: "gotext \<rightharpoonup> Info"
  regOrder :: "gotext list"

definition NewRegistry :: Registry where
  "NewRegistry = \<lparr>byKey = Map.empty, regOrder = []\<rparr>"

text \<open>\<open>None\<close> is a nil repair.\<close>

definition Register :: "Info option \<Rightarrow> Registry \<Rightarrow> repairErr option \<times> Registry" where
  "Register r g = (case r of None \<Rightarrow> (Some ErrNilRepair, g)
     | Some info \<Rightarrow>
         (case Validate info of Some e \<Rightarrow> (Some e, g)
          | None \<Rightarrow> (if byKey g (i_Key info) \<noteq> None then (Some (ErrDuplicateKey (i_Key info)), g)
                    else (None, g\<lparr>byKey := (byKey g)(i_Key info \<mapsto> info), regOrder := regOrder g @ [i_Key info]\<rparr>))))"

definition regGet :: "gotext \<Rightarrow> Registry \<Rightarrow> Info option" where
  "regGet key g = byKey g key"

definition regKeys :: "Registry \<Rightarrow> gotext list" where
  "regKeys g = regOrder g"

section \<open>Run store\<close>

datatype RunState = StateEmpty | StateIdle | StateRunning | StateDone | StateCanceled | StateFailed
datatype RunFailure = FailureNone | FailureError | FailurePanic | FailureInvalidResult

record RunSnapshot =
  sn_ID :: int
  sn_Key :: gotext
  sn_State :: RunState
  sn_Failure :: RunFailure
  sn_Apply :: bool
  sn_Done :: int
  sn_Total :: int
  sn_Rate :: float64
  sn_Counts :: Result
  sn_Started :: instant
  sn_Finished :: instant

definition zeroSnapshot :: RunSnapshot where
  "zeroSnapshot = \<lparr>sn_ID = 0, sn_Key = [], sn_State = StateEmpty, sn_Failure = FailureNone, sn_Apply = False,
     sn_Done = 0, sn_Total = 0, sn_Rate = fofInt 0, sn_Counts = [], sn_Started = 0, sn_Finished = 0\<rparr>"

record 's RunStore =
  so_Begin :: "RunSnapshot \<Rightarrow> 's \<Rightarrow> (repairErr + int) \<times> 's"
  so_Progress :: "int \<Rightarrow> int \<Rightarrow> int \<Rightarrow> 's \<Rightarrow> 's"
  so_Finish :: "int \<Rightarrow> RunSnapshot \<Rightarrow> 's \<Rightarrow> 's"
  so_Load :: "'s \<Rightarrow> RunSnapshot"

record MemStore =
  lastID :: int
  cur :: RunSnapshot

definition newMemStore :: MemStore where "newMemStore = \<lparr>lastID = 0, cur = zeroSnapshot\<rparr>"

definition memBegin :: "RunSnapshot \<Rightarrow> MemStore \<Rightarrow> (repairErr + int) \<times> MemStore" where
  "memBegin s m = (if sn_State (cur m) = StateRunning then (Inl ErrBusy, m)
     else let n = lastID m + 1
          in (Inr n, m\<lparr>lastID := n, cur := s\<lparr>sn_ID := n, sn_State := StateRunning\<rparr>\<rparr>))"

definition memProgress :: "int \<Rightarrow> int \<Rightarrow> int \<Rightarrow> MemStore \<Rightarrow> MemStore" where
  "memProgress rid d t m = (if sn_ID (cur m) = rid \<and> sn_State (cur m) = StateRunning
     then m\<lparr>cur := (cur m)\<lparr>sn_Done := d, sn_Total := t\<rparr>\<rparr> else m)"

definition memFinish :: "int \<Rightarrow> RunSnapshot \<Rightarrow> MemStore \<Rightarrow> MemStore" where
  "memFinish rid s m = (if sn_ID (cur m) = rid \<and> sn_State (cur m) = StateRunning then m\<lparr>cur := s\<lparr>sn_ID := rid\<rparr>\<rparr> else m)"

definition memLoad :: "MemStore \<Rightarrow> RunSnapshot" where
  "memLoad m = (let s = cur m in if sn_State s = StateEmpty then s\<lparr>sn_State := StateIdle\<rparr> else s)"

definition memStore :: "MemStore RunStore" where
  "memStore = \<lparr>so_Begin = memBegin, so_Progress = memProgress, so_Finish = memFinish, so_Load = memLoad\<rparr>"

section \<open>Runner\<close>

datatype RunPhase = Executing | Ended | Gone

text \<open>
  The goroutine of one run: \<open>Ended\<close> once its deferred function has recorded the outcome, \<open>Gone\<close>
  once its \<open>live\<close> channel is closed. Its token is its position in the list of started runs, and
  stands for that channel.
\<close>

record RunGoroutine =
  g_id :: int
  g_info :: Info
  g_apply :: bool
  g_started :: instant
  g_done :: int
  g_total :: int
  g_canceled :: bool
  g_phase :: RunPhase

record 's Runner =
  rn_reg :: Registry
  rn_store :: 's
  rn_closed :: bool
  rn_live :: "nat option"
  rn_liveKey :: gotext
  rn_liveID :: int
  rn_last :: "nat option"
  rn_runs :: "RunGoroutine list"

definition NewRunner :: "Registry \<Rightarrow> 's \<Rightarrow> 's Runner" where
  "NewRunner g store = \<lparr>rn_reg = g, rn_store = store, rn_closed = False, rn_live = None, rn_liveKey = [],
     rn_liveID = 0, rn_last = None, rn_runs = []\<rparr>"

definition runnerStart :: "'s RunStore \<Rightarrow> instant \<Rightarrow> gotext \<Rightarrow> Options \<Rightarrow> 's Runner \<Rightarrow> (repairErr + int) \<times> 's Runner" where
  "runnerStart ops now key opts r =
     (if rn_closed r then (Inl ErrClosed, r)
      else case regGet key (rn_reg r) of
        None \<Rightarrow> (Inl (ErrUnknownRepair key), r)
      | Some info \<Rightarrow>
          (case CheckOptions info opts of
             Some e \<Rightarrow> (Inl e, r)
           | None \<Rightarrow>
               (if rn_live r \<noteq> None then (Inl ErrBusy, r)
                else case so_Begin ops (zeroSnapshot\<lparr>sn_Key := i_Key info, sn_Apply := o_Apply opts, sn_Started := now\<rparr>) (rn_store r) of
                  (Inl e, store) \<Rightarrow> (Inl e, r\<lparr>rn_store := store\<rparr>)
                | (Inr n, store) \<Rightarrow>
                    (Inr n, r\<lparr>rn_store := store, rn_live := Some (length (rn_runs r)), rn_liveKey := i_Key info,
                       rn_liveID := n, rn_last := Some (length (rn_runs r)),
                       rn_runs := rn_runs r @ [\<lparr>g_id = n, g_info = info, g_apply = o_Apply opts, g_started = now,
                         g_done = 0, g_total = 0, g_canceled = False, g_phase = Executing\<rparr>]\<rparr>))))"

text \<open>The progress function a run is given.\<close>

definition runProgress :: "'s RunStore \<Rightarrow> nat \<Rightarrow> int \<Rightarrow> int \<Rightarrow> 's Runner \<Rightarrow> 's Runner" where
  "runProgress ops tok d t r =
     r\<lparr>rn_runs := (rn_runs r)[tok := (rn_runs r ! tok)\<lparr>g_done := d, g_total := t\<rparr>],
       rn_store := so_Progress ops (g_id (rn_runs r ! tok)) d t (rn_store r)\<rparr>"

text \<open>How \<open>Run\<close> ended: a panic, \<open>runtime.Goexit\<close>, or its results with whether \<open>err\<close> is nil or canceled.\<close>

datatype runErr = NoErr | CanceledErr | OtherErr
datatype runEnd = RunPanicked | RunGoexit | RunReturned Result runErr

definition runVerdict :: "Info \<Rightarrow> bool \<Rightarrow> runEnd \<Rightarrow> RunState \<times> RunFailure \<times> Result" where
  "runVerdict info ctxDone e =
     (case e of
        RunGoexit \<Rightarrow> (StateFailed, FailureError, [])
      | RunPanicked \<Rightarrow> (StateFailed, FailurePanic, [])
      | RunReturned res err \<Rightarrow>
          (if Check info res \<noteq> None then (StateFailed, FailureInvalidResult, [])
           else if err = NoErr then (StateDone, FailureNone, res)
           else if err = CanceledErr \<and> ctxDone then (StateCanceled, FailureNone, res)
           else (StateFailed, FailureError, res)))"

definition runFinal :: "RunGoroutine \<Rightarrow> instant \<Rightarrow> runEnd \<Rightarrow> RunSnapshot" where
  "runFinal g now e =
     (let (st, fl, counts) = runVerdict (g_info g) (g_canceled g) e
      in zeroSnapshot\<lparr>sn_Key := i_Key (g_info g), sn_Apply := g_apply g, sn_Started := g_started g, sn_State := st,
           sn_Failure := fl, sn_Counts := counts, sn_Finished := now, sn_Done := g_done g, sn_Total := g_total g\<rparr>)"

definition runFinish :: "'s RunStore \<Rightarrow> nat \<Rightarrow> instant \<Rightarrow> runEnd \<Rightarrow> 's Runner \<Rightarrow> 's Runner" where
  "runFinish ops tok now e r =
     (let g = rn_runs r ! tok;
          r = r\<lparr>rn_store := so_Finish ops (g_id g) (runFinal g now e) (rn_store r), rn_runs := (rn_runs r)[tok := g\<lparr>g_phase := Ended\<rparr>]\<rparr>
      in if rn_live r = Some tok then r\<lparr>rn_live := None, rn_liveKey := [], rn_liveID := 0\<rparr> else r)"

text \<open>The last deferred calls of the goroutine: \<open>cancel\<close> and the close of its channel.\<close>

definition runGone :: "nat \<Rightarrow> 's Runner \<Rightarrow> 's Runner" where
  "runGone tok r = r\<lparr>rn_runs := (rn_runs r)[tok := (rn_runs r ! tok)\<lparr>g_canceled := True, g_phase := Gone\<rparr>]\<rparr>"

definition cancelLive :: "'s Runner \<Rightarrow> 's Runner" where
  "cancelLive r = (case rn_live r of None \<Rightarrow> r
     | Some tok \<Rightarrow> r\<lparr>rn_runs := (rn_runs r)[tok := (rn_runs r ! tok)\<lparr>g_canceled := True\<rparr>]\<rparr>)"

definition runnerCancel :: "'s Runner \<Rightarrow> bool \<times> 's Runner" where
  "runnerCancel r = (if rn_live r = None then (False, r) else (True, cancelLive r))"

definition runnerCancelKey :: "gotext \<Rightarrow> 's Runner \<Rightarrow> (int \<times> bool) \<times> 's Runner" where
  "runnerCancelKey key r = (if rn_live r = None \<or> rn_liveKey r \<noteq> key then ((0, False), r)
     else ((rn_liveID r, True), cancelLive r))"

text \<open>\<open>Close\<close>: the part under the lock, which returns the run to wait for, and the wait.\<close>

definition runnerClose :: "'s Runner \<Rightarrow> nat option \<times> 's Runner" where
  "runnerClose r = (rn_last r, cancelLive (r\<lparr>rn_closed := True\<rparr>))"

text \<open>What the wait returns once the timer fired or the run is gone; \<open>None\<close> while it still waits.\<close>

definition closeWait :: "nat option \<Rightarrow> bool \<Rightarrow> 's Runner \<Rightarrow> repairErr option option" where
  "closeWait waitFor timerFired r =
     (case waitFor of None \<Rightarrow> Some None
      | Some tok \<Rightarrow> (if g_phase (rn_runs r ! tok) = Gone then Some None
                     else if timerFired then Some (Some ErrCloseTimeout) else None))"

definition durationSeconds :: "duration \<Rightarrow> float64" where
  "durationSeconds d = fadd (fofInt (quot d second)) (fdiv (fofInt (d - quot d second * second)) (fofInt second))"

definition runnerSnapshot :: "'s RunStore \<Rightarrow> instant \<Rightarrow> 's Runner \<Rightarrow> RunSnapshot" where
  "runnerSnapshot ops now r =
     (let s = so_Load ops (rn_store r);
          stop = (if isZero (sn_Finished s) then now else sn_Finished s);
          secs = durationSeconds (timeSub stop (sn_Started s))
      in if sn_Done s > 0 \<and> \<not> isZero (sn_Started s) \<and> flt (fofInt 0) secs
         then s\<lparr>sn_Rate := fdiv (fofInt (sn_Done s)) secs\<rparr> else s)"

section \<open>Steps, the abstract job and the invariant\<close>

text \<open>
  The steps of the system, in any order: calls from outside, reports of a run (a run that leaked a
  goroutine may still report after its end), the end of a run and of its goroutine.
\<close>

inductive runner_step :: "'s RunStore \<Rightarrow> 's Runner \<Rightarrow> 's Runner \<Rightarrow> bool" for ops where
  st_register: "runner_step ops r (r\<lparr>rn_reg := snd (Register rep (rn_reg r))\<rparr>)"
| st_start: "runner_step ops r (snd (runnerStart ops now key opts r))"
| st_progress: "tok < length (rn_runs r) \<Longrightarrow> runner_step ops r (runProgress ops tok d t r)"
| st_finish: "tok < length (rn_runs r) \<Longrightarrow> g_phase (rn_runs r ! tok) = Executing \<Longrightarrow> runner_step ops r (runFinish ops tok now e r)"
| st_gone: "tok < length (rn_runs r) \<Longrightarrow> g_phase (rn_runs r ! tok) = Ended \<Longrightarrow> runner_step ops r (runGone tok r)"
| st_cancel: "runner_step ops r (snd (runnerCancel r))"
| st_cancelKey: "runner_step ops r (snd (runnerCancelKey key r))"
| st_close: "runner_step ops r (snd (runnerClose r))"

definition runner_reach :: "'s RunStore \<Rightarrow> 's Runner \<Rightarrow> 's Runner \<Rightarrow> bool" where
  "runner_reach ops = (runner_step ops)\<^sup>*\<^sup>*"

text \<open>What a client of the runner is promised: one job at a time, that only moves forward.\<close>

datatype job = NoJob | Job int gotext RunState

inductive jobStep :: "job \<Rightarrow> job \<Rightarrow> bool" where
  job_start: "(case j of NoJob \<Rightarrow> True | Job m k st \<Rightarrow> st \<noteq> StateRunning \<and> m < n) \<Longrightarrow> jobStep j (Job n key StateRunning)"
| job_end: "st \<in> {StateDone, StateCanceled, StateFailed} \<Longrightarrow> jobStep (Job n key StateRunning) (Job n key st)"

definition jobOf :: "RunSnapshot \<Rightarrow> job" where
  "jobOf s = (if sn_State s = StateIdle then NoJob else Job (sn_ID s) (sn_Key s) (sn_State s))"

definition registry_ok :: "Registry \<Rightarrow> bool" where
  "registry_ok g \<longleftrightarrow> distinct (regOrder g) \<and> set (regOrder g) = dom (byKey g)
     \<and> (\<forall>key info. byKey g key = Some info \<longrightarrow> i_Key info = key \<and> Validate info = None)"

text \<open>The counts of a snapshot are keyed by what the registered repair of its key declares.\<close>

definition counts_ok :: "Registry \<Rightarrow> RunSnapshot \<Rightarrow> bool" where
  "counts_ok g s \<longleftrightarrow> (sn_Counts s \<noteq> [] \<longrightarrow>
     (\<exists>info. regGet (sn_Key s) g = Some info \<and> (\<forall>(k, n) \<in> set (sn_Counts s). countKeyValid k \<and> declares info k)))"

text \<open>
  The invariant of the runner over the snapshot its store shows and the last id it gave out. Of the
  runner it depends on the registry, the slot and, of each run, the id, the repair and whether it is
  still executing.
\<close>

type_synonym slotView = "Registry \<times> nat option \<times> gotext \<times> int \<times> (int \<times> Info \<times> bool) list"

definition runsView :: "RunGoroutine list \<Rightarrow> (int \<times> Info \<times> bool) list" where
  "runsView gs = map (\<lambda>g. (g_id g, g_info g, g_phase g = Executing)) gs"

definition slotView :: "'s Runner \<Rightarrow> slotView" where
  "slotView r = (rn_reg r, rn_live r, rn_liveKey r, rn_liveID r, runsView (rn_runs r))"

definition idle_ok :: "RunSnapshot \<Rightarrow> (int \<times> Info \<times> bool) list \<Rightarrow> bool" where
  "idle_ok s vs \<longleftrightarrow> sn_State s \<noteq> StateRunning \<and> (\<forall>v \<in> set vs. \<not> snd (snd v))"

definition live_ok :: "RunSnapshot \<Rightarrow> gotext \<Rightarrow> int \<Rightarrow> (int \<times> Info \<times> bool) list \<Rightarrow> nat \<Rightarrow> bool" where
  "live_ok s key n vs tok \<longleftrightarrow> tok < length vs \<and> sn_State s = StateRunning \<and> sn_ID s = n \<and> sn_Key s = key
     \<and> fst (vs ! tok) = n \<and> i_Key (fst (snd (vs ! tok))) = key \<and> snd (snd (vs ! tok))
     \<and> (\<forall>i < length vs. i \<noteq> tok \<longrightarrow> \<not> snd (snd (vs ! i)) \<and> fst (vs ! i) < n)"

definition base_ok :: "RunSnapshot \<Rightarrow> int \<Rightarrow> Registry \<Rightarrow> (int \<times> Info \<times> bool) list \<Rightarrow> bool" where
  "base_ok s n g vs \<longleftrightarrow> registry_ok g \<and> counts_ok g s \<and> sn_State s \<noteq> StateEmpty \<and> sn_ID s \<le> n
     \<and> (\<forall>v \<in> set vs. regGet (i_Key (fst (snd v))) g = Some (fst (snd v)) \<and> fst v \<le> n)"

definition view_ok :: "RunSnapshot \<Rightarrow> int \<Rightarrow> slotView \<Rightarrow> bool" where
  "view_ok s n v \<longleftrightarrow> (case v of (g, live, key, m, vs) \<Rightarrow>
     base_ok s n g vs \<and> (case live of None \<Rightarrow> idle_ok s vs | Some tok \<Rightarrow> live_ok s key m vs tok))"

definition runner_ok :: "RunSnapshot \<Rightarrow> int \<Rightarrow> 's Runner \<Rightarrow> bool" where
  "runner_ok s n r \<longleftrightarrow> view_ok s n (slotView r)"

text \<open>The refusal of a start, from the state the snapshot shows.\<close>

definition startRefusal :: "RunState \<Rightarrow> gotext \<Rightarrow> Options \<Rightarrow> 's Runner \<Rightarrow> repairErr option" where
  "startRefusal st key opts r =
     (if rn_closed r then Some ErrClosed
      else case regGet key (rn_reg r) of None \<Rightarrow> Some (ErrUnknownRepair key)
        | Some info \<Rightarrow> (case CheckOptions info opts of Some e \<Rightarrow> Some e
            | None \<Rightarrow> if st = StateRunning then Some ErrBusy else None))"

text \<open>A registered repair, a run of it and its end, used by the witnesses.\<close>

definition exInfo :: Info where
  "exInfo = \<lparr>i_Key = lit ''fix'', i_Title = lit ''Fix'', i_Description = [], i_CostNote = [], i_ReadsFiles = False,
     i_NeedsBackup = False, i_Counts = [lit ''moved'']\<rparr>"

definition exReg :: Registry where "exReg = snd (Register (Some exInfo) NewRegistry)"

definition exStarted :: "MemStore Runner" where
  "exStarted = snd (runnerStart memStore second (lit ''fix'') \<lparr>o_Apply = False, o_Backup = []\<rparr> (NewRunner exReg newMemStore))"

definition exDone :: "MemStore Runner" where
  "exDone = runFinish memStore 0 (2 * second) (RunReturned [(lit ''moved'', 3)] NoErr) exStarted"

section \<open>Registry lemmas\<close>

lemma register_get:
  "regGet key g = Some info \<Longrightarrow> regGet key (snd (Register rep g)) = Some info"
  by (auto simp: Register_def regGet_def split: option.splits)

lemma register_ok: "registry_ok g \<Longrightarrow> registry_ok (snd (Register rep g))"
  by (auto simp: Register_def registry_ok_def split: option.splits)

lemma check_declared: "checkFrom i n res = None \<Longrightarrow> \<forall>(k, m) \<in> set res. countKeyValid k \<and> declares i k"
  by (induction i n res rule: checkFrom.induct) (auto split: if_splits)

section \<open>Lemmas on the slot\<close>

lemma runsView_update:
  "tok < length gs \<Longrightarrow> runsView (gs[tok := g]) = (runsView gs)[tok := (g_id g, g_info g, g_phase g = Executing)]"
  by (simp add: runsView_def map_update)

lemma runsView_nth: "tok < length gs \<Longrightarrow> runsView gs ! tok = (g_id (gs ! tok), g_info (gs ! tok), g_phase (gs ! tok) = Executing)"
  by (simp add: runsView_def)

lemma runsView_length [simp]: "length (runsView gs) = length gs"
  by (simp add: runsView_def)

lemma runsView_same:
  "tok < length gs \<Longrightarrow> (g_id g, g_info g, g_phase g = Executing) = runsView gs ! tok \<Longrightarrow> runsView (gs[tok := g]) = runsView gs"
  by (simp add: runsView_update del: prod.inject)

lemma view_progress: "view_ok (s\<lparr>sn_Done := d, sn_Total := t\<rparr>) n v = view_ok s n v"
  by (cases v) (simp add: view_ok_def base_ok_def counts_ok_def idle_ok_def live_ok_def split: option.split)

lemma live_length: "runner_ok s n r \<Longrightarrow> rn_live r = Some tok \<Longrightarrow> tok < length (rn_runs r)"
  by (simp add: runner_ok_def view_ok_def slotView_def live_ok_def)

lemma view_cancel: "runner_ok s n r \<Longrightarrow> slotView (cancelLive r) = slotView r"
  using live_length [of s n r]
  by (auto simp: cancelLive_def slotView_def runsView_nth intro!: runsView_same split: option.splits)

lemma view_gone: "tok < length (rn_runs r) \<Longrightarrow> g_phase (rn_runs r ! tok) = Ended \<Longrightarrow> slotView (runGone tok r) = slotView r"
  by (simp add: runGone_def slotView_def runsView_same runsView_nth)

lemma cancel_frame [simp]: "rn_store (cancelLive r) = rn_store r" "rn_reg (cancelLive r) = rn_reg r" "rn_live (cancelLive r) = rn_live r"
  by (simp_all add: cancelLive_def split: option.splits)

section \<open>The contract of a run store\<close>

text \<open>\<open>issued\<close> is the last id the store gave out.\<close>

locale run_store =
  fixes ops :: "'s RunStore" and issued :: "'s \<Rightarrow> int"
  assumes begin_free: "sn_State (so_Load ops s) \<noteq> StateRunning \<Longrightarrow> \<exists>n s'. so_Begin ops x s = (Inr n, s') \<and> issued s < n
      \<and> issued s' = n \<and> so_Load ops s' = x\<lparr>sn_ID := n, sn_State := StateRunning\<rparr>"
    and begin_busy: "sn_State (so_Load ops s) = StateRunning \<Longrightarrow> so_Begin ops x s = (Inl ErrBusy, s)"
    and progress_live: "sn_State (so_Load ops s) = StateRunning \<Longrightarrow>
      so_Load ops (so_Progress ops (sn_ID (so_Load ops s)) d t s) = (so_Load ops s)\<lparr>sn_Done := d, sn_Total := t\<rparr>"
    and progress_late: "sn_State (so_Load ops s) \<noteq> StateRunning \<or> sn_ID (so_Load ops s) \<noteq> n \<Longrightarrow>
      so_Load ops (so_Progress ops n d t s) = so_Load ops s"
    and finish_live: "sn_State (so_Load ops s) = StateRunning \<Longrightarrow> sn_State x \<noteq> StateEmpty \<Longrightarrow>
      so_Load ops (so_Finish ops (sn_ID (so_Load ops s)) x s) = x\<lparr>sn_ID := sn_ID (so_Load ops s)\<rparr>"
    and finish_late: "sn_State (so_Load ops s) \<noteq> StateRunning \<or> sn_ID (so_Load ops s) \<noteq> n \<Longrightarrow>
      so_Load ops (so_Finish ops n x s) = so_Load ops s"
    and issued_kept: "issued (so_Progress ops n d t s) = issued s" "issued (so_Finish ops n x s) = issued s"
begin

abbreviation shown :: "'s Runner \<Rightarrow> RunSnapshot" where
  "shown r \<equiv> so_Load ops (rn_store r)"

abbreviation ok :: "'s Runner \<Rightarrow> bool" where
  "ok r \<equiv> runner_ok (shown r) (issued (rn_store r)) r"

text \<open>Steps that neither touch the store nor the slot.\<close>

lemma ok_view: "ok r \<Longrightarrow> slotView r' = slotView r \<Longrightarrow> shown r' = shown r \<Longrightarrow> issued (rn_store r') = issued (rn_store r) \<Longrightarrow> ok r'"
  by (simp add: runner_ok_def)

lemma ok_reg:
  assumes "ok r" shows "ok (r\<lparr>rn_reg := snd (Register rep (rn_reg r))\<rparr>)"
proof -
  let ?g = "snd (Register rep (rn_reg r))"
  have b: "base_ok (shown r) (issued (rn_store r)) (rn_reg r) (runsView (rn_runs r))"
    using assms by (simp add: runner_ok_def view_ok_def slotView_def)
  have "counts_ok ?g (shown r)" using b register_get [of _ "rn_reg r" _ rep] unfolding base_ok_def counts_ok_def by blast
  then have "base_ok (shown r) (issued (rn_store r)) ?g (runsView (rn_runs r))"
    using b register_ok [of "rn_reg r" rep] register_get [of _ "rn_reg r" _ rep] unfolding base_ok_def by blast
  then show ?thesis using assms by (simp add: runner_ok_def view_ok_def slotView_def)
qed

lemma ok_cancel: "ok r \<Longrightarrow> ok (cancelLive r)"
  by (rule ok_view [OF _ view_cancel]) simp_all

lemma ok_close: "ok r \<Longrightarrow> ok (snd (runnerClose r))"
  using ok_cancel [of "r\<lparr>rn_closed := True\<rparr>"] by (simp add: runnerClose_def runner_ok_def slotView_def)

lemma ok_gone: "ok r \<Longrightarrow> tok < length (rn_runs r) \<Longrightarrow> g_phase (rn_runs r ! tok) = Ended \<Longrightarrow> ok (runGone tok r)"
  by (rule ok_view [OF _ view_gone]) (simp_all add: runGone_def)

lemma progress_shown:
  "(\<exists>d t. so_Load ops (so_Progress ops n d' t' s) = (so_Load ops s)\<lparr>sn_Done := d, sn_Total := t\<rparr>)
   \<or> so_Load ops (so_Progress ops n d' t' s) = so_Load ops s"
  using progress_live [of s d' t'] progress_late [of s n d' t'] by metis

lemma ok_progress:
  assumes "ok r" "tok < length (rn_runs r)"
  shows "ok (runProgress ops tok d t r) \<and> jobOf (shown (runProgress ops tok d t r)) = jobOf (shown r)"
proof -
  let ?r = "runProgress ops tok d t r"
  have "slotView ?r = slotView r" using assms(2) by (simp add: runProgress_def slotView_def runsView_same runsView_nth)
  moreover have "issued (rn_store ?r) = issued (rn_store r)" by (simp add: runProgress_def issued_kept)
  moreover have "(\<exists>d t. shown ?r = (shown r)\<lparr>sn_Done := d, sn_Total := t\<rparr>) \<or> shown ?r = shown r"
    using progress_shown by (simp add: runProgress_def)
  ultimately show ?thesis using assms(1)
    by (elim disjE exE) (simp_all add: jobOf_def runner_ok_def view_progress)
qed

lemma ok_start:
  assumes "ok r"
  shows "ok (snd (runnerStart ops now key opts r))
    \<and> (shown (snd (runnerStart ops now key opts r)) = shown r
       \<or> jobStep (jobOf (shown r)) (jobOf (shown (snd (runnerStart ops now key opts r)))))"
proof (cases "\<exists>info. \<not> rn_closed r \<and> regGet key (rn_reg r) = Some info \<and> CheckOptions info opts = None \<and> rn_live r = None")
  case False
  then show ?thesis using assms by (auto simp: runnerStart_def split: option.splits)
next
  case True
  then obtain info where g: "\<not> rn_closed r" "regGet key (rn_reg r) = Some info" "CheckOptions info opts = None" "rn_live r = None"
    by blast
  let ?x = "zeroSnapshot\<lparr>sn_Key := i_Key info, sn_Apply := o_Apply opts, sn_Started := now\<rparr>"
  let ?vs = "runsView (rn_runs r)"
  have b: "base_ok (shown r) (issued (rn_store r)) (rn_reg r) ?vs" and idle: "idle_ok (shown r) ?vs"
    using assms g(4) by (simp_all add: runner_ok_def view_ok_def slotView_def)
  have "sn_State (shown r) \<noteq> StateRunning" using idle by (simp add: idle_ok_def)
  from begin_free [OF this, of ?x] obtain n s' where bg: "so_Begin ops ?x (rn_store r) = (Inr n, s')" "issued (rn_store r) < n"
    "issued s' = n" "so_Load ops s' = ?x\<lparr>sn_ID := n, sn_State := StateRunning\<rparr>" by blast
  have k: "i_Key info = key" using b g(2) by (auto simp: base_ok_def registry_ok_def regGet_def)
  have old: "fst v < n \<and> \<not> snd (snd v)" if "v \<in> set ?vs" for v
    using that b idle bg(2) unfolding base_ok_def idle_ok_def by fastforce
  have vs: "runsView (rn_runs r @ [g]) = ?vs @ [(g_id g, g_info g, g_phase g = Executing)]" for g by (simp add: runsView_def)
  have "base_ok (?x\<lparr>sn_ID := n, sn_State := StateRunning\<rparr>) n (rn_reg r) (?vs @ [(n, info, True)])"
    using b g(2) k bg(2) by (auto simp: base_ok_def counts_ok_def zeroSnapshot_def)
  moreover have "live_ok (?x\<lparr>sn_ID := n, sn_State := StateRunning\<rparr>) (i_Key info) n (?vs @ [(n, info, True)]) (length (rn_runs r))"
    using old by (auto simp: live_ok_def nth_append)
  ultimately have "ok (snd (runnerStart ops now key opts r))"
    using g bg by (simp add: runnerStart_def runner_ok_def view_ok_def slotView_def vs)
  moreover have "jobStep (jobOf (shown r)) (jobOf (shown (snd (runnerStart ops now key opts r))))"
    using g bg idle b by (auto simp: runnerStart_def jobOf_def base_ok_def idle_ok_def intro!: job_start)
  ultimately show ?thesis by blast
qed

lemma ok_finish:
  assumes "ok r" "tok < length (rn_runs r)" "g_phase (rn_runs r ! tok) = Executing"
  shows "ok (runFinish ops tok now e r) \<and> rn_live r = Some tok \<and> rn_live (runFinish ops tok now e r) = None
    \<and> shown (runFinish ops tok now e r) = (runFinal (rn_runs r ! tok) now e)\<lparr>sn_ID := g_id (rn_runs r ! tok)\<rparr>
    \<and> jobStep (jobOf (shown r)) (jobOf (shown (runFinish ops tok now e r)))"
proof -
  let ?g = "rn_runs r ! tok" and ?vs = "runsView (rn_runs r)" and ?r = "runFinish ops tok now e r"
  let ?x = "runFinal ?g now e"
  have live: "rn_live r = Some tok"
  proof (cases "rn_live r")
    case None
    then show ?thesis using assms runsView_nth [OF assms(2)] nth_mem [of tok ?vs]
      by (auto simp: runner_ok_def view_ok_def slotView_def idle_ok_def)
  next
    case (Some t)
    then show ?thesis using assms runsView_nth [OF assms(2)]
      by (auto simp: runner_ok_def view_ok_def slotView_def live_ok_def)
  qed
  then have b: "base_ok (shown r) (issued (rn_store r)) (rn_reg r) ?vs" and l: "live_ok (shown r) (rn_liveKey r) (rn_liveID r) ?vs tok"
    using assms(1) by (simp_all add: runner_ok_def view_ok_def slotView_def)
  have id: "sn_ID (shown r) = g_id ?g" "sn_State (shown r) = StateRunning" "sn_Key (shown r) = i_Key (g_info ?g)"
    using l runsView_nth [OF assms(2)] by (auto simp: live_ok_def)
  have st: "sn_State ?x \<in> {StateDone, StateCanceled, StateFailed}" "sn_Key ?x = i_Key (g_info ?g)"
    by (auto simp: runFinal_def runVerdict_def split: runEnd.splits)
  have load: "shown ?r = ?x\<lparr>sn_ID := g_id ?g\<rparr>"
    using finish_live [of "rn_store r" ?x] id st live by (auto simp: runFinish_def Let_def)
  have gv: "regGet (i_Key (g_info ?g)) (rn_reg r) = Some (g_info ?g)" "g_id ?g \<le> issued (rn_store r)"
    using b runsView_nth [OF assms(2)] nth_mem [of tok ?vs] assms(2) by (auto simp: base_ok_def)
  have "Check i res = None \<Longrightarrow> \<forall>(k, n) \<in> set res. countKeyValid k \<and> declares i k" for i res
    unfolding Check_def using check_declared by blast
  then have "counts_ok (rn_reg r) (shown ?r)" unfolding load counts_ok_def using gv(1) st(2)
    by (auto simp: runFinal_def runVerdict_def split: runEnd.splits if_splits)
  then have "base_ok (shown ?r) (issued (rn_store r)) (rn_reg r) (?vs[tok := (g_id ?g, g_info ?g, False)])"
    using b gv st(1) unfolding base_ok_def load by (auto dest: set_update_subset_insert [THEN subsetD])
  moreover have "idle_ok (shown ?r) (?vs[tok := (g_id ?g, g_info ?g, False)])"
    using l st(1) unfolding idle_ok_def load live_ok_def all_set_conv_all_nth by (auto simp: nth_list_update)
  moreover have "slotView ?r = (rn_reg r, None, [], 0, ?vs[tok := (g_id ?g, g_info ?g, False)])"
    using live assms(2) by (simp add: runFinish_def slotView_def Let_def runsView_update)
  moreover have "issued (rn_store ?r) = issued (rn_store r)" by (simp add: runFinish_def Let_def issued_kept)
  ultimately have "ok ?r" by (simp add: runner_ok_def view_ok_def)
  moreover have "jobStep (jobOf (shown r)) (jobOf (shown ?r))"
    unfolding load using id st by (auto simp: jobOf_def intro!: job_end)
  ultimately show ?thesis using live load by (simp add: runFinish_def Let_def)
qed

lemma ok_step:
  assumes "runner_step ops r r'" "ok r"
  shows "ok r' \<and> (jobOf (shown r') = jobOf (shown r) \<or> jobStep (jobOf (shown r)) (jobOf (shown r')))"
  using assms
proof (cases rule: runner_step.cases)
  case (st_start now key opts)
  then show ?thesis using ok_start [OF assms(2), of now key opts] by auto
next
  case (st_finish tok now e)
  then show ?thesis using ok_finish [OF assms(2), of tok now e] by auto
qed (use assms(2) ok_reg ok_cancel ok_close ok_gone ok_progress in
      \<open>auto simp: runnerCancel_def runnerCancelKey_def runGone_def runnerClose_def\<close>)

lemma ok_reach: "runner_reach ops r r' \<Longrightarrow> ok r \<Longrightarrow> ok r'"
  unfolding runner_reach_def by (induction rule: rtranclp_induct) (use ok_step in blast)+

lemma ok_slot:
  assumes "ok r"
  shows "(rn_live r = None \<longleftrightarrow> sn_State (shown r) \<noteq> StateRunning)"
    "rn_live r = Some tok \<Longrightarrow> sn_ID (shown r) = rn_liveID r \<and> sn_Key (shown r) = rn_liveKey r"
    "i < length (rn_runs r) \<Longrightarrow> g_phase (rn_runs r ! i) = Executing \<longleftrightarrow> rn_live r = Some i"
proof -
  have v: "case rn_live r of None \<Rightarrow> idle_ok (shown r) (runsView (rn_runs r))
    | Some tok \<Rightarrow> live_ok (shown r) (rn_liveKey r) (rn_liveID r) (runsView (rn_runs r)) tok"
    using assms by (simp add: runner_ok_def view_ok_def slotView_def)
  show "(rn_live r = None \<longleftrightarrow> sn_State (shown r) \<noteq> StateRunning)"
    "rn_live r = Some tok \<Longrightarrow> sn_ID (shown r) = rn_liveID r \<and> sn_Key (shown r) = rn_liveKey r"
    using v by (auto simp: idle_ok_def live_ok_def split: option.splits)
  show "g_phase (rn_runs r ! i) = Executing \<longleftrightarrow> rn_live r = Some i" if "i < length (rn_runs r)"
    using v that runsView_nth [OF that] nth_mem [of i "runsView (rn_runs r)"]
    by (auto simp: idle_ok_def live_ok_def split: option.splits)
qed

text \<open>What a start answers: the refusals, in their order, and otherwise a new run.\<close>

lemma start_new:
  assumes "ok r" "\<not> rn_closed r" "regGet key (rn_reg r) = Some info" "CheckOptions info opts = None" "sn_State (shown r) \<noteq> StateRunning"
  obtains n r' where "runnerStart ops now key opts r = (Inr n, r')" "sn_ID (shown r) < n" "sn_State (shown r') = StateRunning"
    "sn_ID (shown r') = n" "sn_Key (shown r') = key"
proof -
  have b: "base_ok (shown r) (issued (rn_store r)) (rn_reg r) (runsView (rn_runs r))"
    using assms(1) by (simp add: runner_ok_def view_ok_def slotView_def)
  have k: "i_Key info = key" using b assms(3) by (auto simp: base_ok_def registry_ok_def regGet_def)
  have live: "rn_live r = None" using ok_slot(1) [OF assms(1)] assms(5) by simp
  let ?x = "zeroSnapshot\<lparr>sn_Key := i_Key info, sn_Apply := o_Apply opts, sn_Started := now\<rparr>"
  obtain n s' where bg: "so_Begin ops ?x (rn_store r) = (Inr n, s')" "issued (rn_store r) < n"
      "so_Load ops s' = ?x\<lparr>sn_ID := n, sn_State := StateRunning\<rparr>"
    using begin_free [OF assms(5), of ?x] by blast
  have "\<exists>r'. runnerStart ops now key opts r = (Inr n, r') \<and> rn_store r' = s'"
    using assms(2-4) live bg(1) by (simp add: runnerStart_def)
  then obtain r' where r': "runnerStart ops now key opts r = (Inr n, r')" "rn_store r' = s'" by blast
  show ?thesis
    by (rule that [OF r'(1)]) (use b bg(2,3) r'(2) k in \<open>simp_all add: base_ok_def\<close>)
qed

lemma start_refused:
  assumes "ok r" "sn_State (shown r) = StateRunning \<or> rn_closed r \<or> regGet key (rn_reg r) = None
      \<or> CheckOptions (the (regGet key (rn_reg r))) opts \<noteq> None"
  shows "runnerStart ops now key opts r = (Inl (if rn_closed r then ErrClosed
      else case regGet key (rn_reg r) of None \<Rightarrow> ErrUnknownRepair key
        | Some info \<Rightarrow> (case CheckOptions info opts of Some e \<Rightarrow> e | None \<Rightarrow> ErrBusy)), r)"
  using assms(2) ok_slot(1) [OF assms(1)] by (auto simp: runnerStart_def split: option.splits)

end

lemma memLoad_running: "sn_State (memLoad m) = StateRunning \<longleftrightarrow> sn_State (cur m) = StateRunning"
    "sn_ID (memLoad m) = sn_ID (cur m)" "sn_State (cur m) = StateRunning \<Longrightarrow> memLoad m = cur m"
  by (simp_all add: memLoad_def Let_def)

interpretation mem: run_store memStore lastID
proof
  fix s :: MemStore and x :: RunSnapshot
  assume "sn_State (so_Load memStore s) \<noteq> StateRunning"
  then show "\<exists>n s'. so_Begin memStore x s = (Inr n, s') \<and> lastID s < n \<and> lastID s' = n
      \<and> so_Load memStore s' = x\<lparr>sn_ID := n, sn_State := StateRunning\<rparr>"
    by (auto simp: memStore_def memLoad_running memBegin_def memLoad_def Let_def split: if_splits)
next
  fix s :: MemStore and x :: RunSnapshot
  assume "sn_State (so_Load memStore s) = StateRunning"
  then show "so_Begin memStore x s = (Inl ErrBusy, s)" by (simp add: memStore_def memLoad_running memBegin_def)
next
  fix s d t
  assume "sn_State (so_Load memStore s) = StateRunning"
  then show "so_Load memStore (so_Progress memStore (sn_ID (so_Load memStore s)) d t s) = (so_Load memStore s)\<lparr>sn_Done := d, sn_Total := t\<rparr>"
    by (simp add: memStore_def memLoad_running memProgress_def)
next
  fix s n d t
  assume "sn_State (so_Load memStore s) \<noteq> StateRunning \<or> sn_ID (so_Load memStore s) \<noteq> n"
  then show "so_Load memStore (so_Progress memStore n d t s) = so_Load memStore s"
    by (auto simp: memStore_def memLoad_running memProgress_def)
next
  fix s :: MemStore and x :: RunSnapshot
  assume a: "sn_State (so_Load memStore s) = StateRunning" "sn_State x \<noteq> StateEmpty"
  have "sn_State (cur s) = StateRunning" using a(1) by (simp add: memStore_def memLoad_running(1))
  then have "memFinish (sn_ID (cur s)) x s = s\<lparr>cur := x\<lparr>sn_ID := sn_ID (cur s)\<rparr>\<rparr>" by (simp add: memFinish_def)
  moreover have "memLoad (s\<lparr>cur := x\<lparr>sn_ID := sn_ID (cur s)\<rparr>\<rparr>) = x\<lparr>sn_ID := sn_ID (cur s)\<rparr>"
    using a(2) by (simp add: memLoad_def)
  ultimately show "so_Load memStore (so_Finish memStore (sn_ID (so_Load memStore s)) x s) = x\<lparr>sn_ID := sn_ID (so_Load memStore s)\<rparr>"
    by (simp add: memStore_def memLoad_running(2))
next
  fix s n and x :: RunSnapshot
  assume "sn_State (so_Load memStore s) \<noteq> StateRunning \<or> sn_ID (so_Load memStore s) \<noteq> n"
  then show "so_Load memStore (so_Finish memStore n x s) = so_Load memStore s"
    by (auto simp: memStore_def memLoad_running memFinish_def)
qed (simp_all add: memStore_def memProgress_def memFinish_def)

lemma mem_new: "registry_ok g \<Longrightarrow> mem.ok (NewRunner g newMemStore)"
  by (simp add: runner_ok_def view_ok_def base_ok_def idle_ok_def slotView_def runsView_def NewRunner_def newMemStore_def
      memStore_def memLoad_def zeroSnapshot_def counts_ok_def)

lemma mem_reach: "registry_ok g \<Longrightarrow> runner_reach memStore (NewRunner g newMemStore) r \<Longrightarrow> mem.ok r"
  using mem.ok_reach mem_new by blast

lemma mem_load: "so_Load memStore s = memLoad s"
  by (simp add: memStore_def)

lemma exReg_ok: "registry_ok exReg"
  unfolding exReg_def by (rule register_ok) (simp add: registry_ok_def NewRegistry_def)

lemma exInfo_valid: "Validate exInfo = None" "Check exInfo [(lit ''moved'', 3)] = None"
  by (simp_all add: Validate_def exInfo_def keyValid_def countKeyValid_def validIdent_def lit_def isLowerAZ_def maxIdentLen_def
      Check_def declares_def)

lemma ex_run:
  "rn_closed exStarted = False" "rn_live exStarted = Some 0" "byKey (rn_reg exStarted) (lit ''fix'') = Some exInfo"
  "rn_runs exStarted = [\<lparr>g_id = 1, g_info = exInfo, g_apply = False, g_started = second, g_done = 0, g_total = 0,
      g_canceled = False, g_phase = Executing\<rparr>]"
  "cur (rn_store exStarted) = zeroSnapshot\<lparr>sn_ID := 1, sn_Key := lit ''fix'', sn_Started := second, sn_State := StateRunning\<rparr>"
  "cur (rn_store exDone) = zeroSnapshot\<lparr>sn_ID := 1, sn_Key := lit ''fix'', sn_Started := second, sn_State := StateDone,
      sn_Counts := [(lit ''moved'', 3)], sn_Finished := 2 * second\<rparr>"
  "i_NeedsBackup exInfo = False"
proof -
  have k: "i_Key exInfo = lit ''fix''" "i_NeedsBackup exInfo = False" by (simp_all add: exInfo_def)
  then show s: "rn_closed exStarted = False" "rn_live exStarted = Some 0" "byKey (rn_reg exStarted) (lit ''fix'') = Some exInfo"
    "rn_runs exStarted = [\<lparr>g_id = 1, g_info = exInfo, g_apply = False, g_started = second, g_done = 0, g_total = 0,
      g_canceled = False, g_phase = Executing\<rparr>]"
    "cur (rn_store exStarted) = zeroSnapshot\<lparr>sn_ID := 1, sn_Key := lit ''fix'', sn_Started := second, sn_State := StateRunning\<rparr>"
    by (simp_all add: exStarted_def runnerStart_def NewRunner_def exReg_def Register_def exInfo_valid NewRegistry_def regGet_def
        CheckOptions_def memStore_def memBegin_def newMemStore_def zeroSnapshot_def)
  show "cur (rn_store exDone) = zeroSnapshot\<lparr>sn_ID := 1, sn_Key := lit ''fix'', sn_Started := second, sn_State := StateDone,
      sn_Counts := [(lit ''moved'', 3)], sn_Finished := 2 * second\<rparr>"
    by (simp add: exDone_def runFinish_def s memStore_def memFinish_def runFinal_def runVerdict_def exInfo_valid k zeroSnapshot_def)
  show "i_NeedsBackup exInfo = False" by (rule k)
qed

lemma exStarted_reach: "runner_reach memStore (NewRunner exReg newMemStore) exStarted"
  unfolding runner_reach_def exStarted_def by (rule r_into_rtranclp) (rule st_start)

lemma exDone_step: "runner_step memStore exStarted exDone"
  unfolding exDone_def by (rule st_finish) (simp_all add: ex_run)

lemma exDone_reach: "runner_reach memStore (NewRunner exReg newMemStore) exDone"
  using exStarted_reach exDone_step unfolding runner_reach_def by (rule rtranclp.rtrancl_into_rtrancl)

section \<open>Properties\<close>

text \<open>
  C32: the runner implements one job at a time. In every interleaving of starts, progress reports
  (late ones of ended runs included), cancels, run ends and a close, each step leaves the job that
  the store shows as it is or moves it forward: a new run with a larger id from a job that is not
  running, or the end of the running one, which keeps its id and repair.
\<close>

theorem runner_refines_job:
  assumes "registry_ok g" and "runner_reach memStore (NewRunner g newMemStore) r" and "runner_step memStore r r'"
  shows "jobOf (memLoad (rn_store r')) = jobOf (memLoad (rn_store r))
    \<or> jobStep (jobOf (memLoad (rn_store r))) (jobOf (memLoad (rn_store r')))"
  using mem.ok_step [OF assms(3) mem_reach [OF assms(1,2)]] unfolding mem_load by blast

theorem runner_refines_job_witness:
  "jobOf (memLoad (rn_store exStarted)) = Job 1 (lit ''fix'') StateRunning
   \<and> jobStep (Job 1 (lit ''fix'') StateRunning) (jobOf (memLoad (rn_store exDone)))"
proof -
  have j: "jobOf (memLoad (rn_store exStarted)) = Job 1 (lit ''fix'') StateRunning"
    "jobOf (memLoad (rn_store exDone)) \<noteq> Job 1 (lit ''fix'') StateRunning"
    by (simp_all add: ex_run jobOf_def memLoad_def)
  then show ?thesis using runner_refines_job [OF exReg_ok exStarted_reach exDone_step] by simp
qed

text \<open>
  The snapshot and the slot agree. In every reachable state the snapshot says running exactly
  while a start is refused as busy, it then names the run that holds the slot, and that run is the
  only one executing.
\<close>

theorem snapshot_matches_slot:
  assumes "registry_ok g" and "runner_reach memStore (NewRunner g newMemStore) r"
  shows "(rn_live r = None \<longleftrightarrow> sn_State (memLoad (rn_store r)) \<noteq> StateRunning)
    \<and> (\<forall>tok. rn_live r = Some tok \<longrightarrow> sn_ID (memLoad (rn_store r)) = rn_liveID r \<and> sn_Key (memLoad (rn_store r)) = rn_liveKey r)
    \<and> (\<forall>i < length (rn_runs r). g_phase (rn_runs r ! i) = Executing \<longleftrightarrow> rn_live r = Some i)"
  using mem.ok_slot [OF mem_reach [OF assms]] unfolding mem_load by blast

theorem snapshot_matches_slot_witness:
  "rn_live exStarted \<noteq> None \<and> g_phase (rn_runs exStarted ! 0) = Executing"
  using snapshot_matches_slot [OF exReg_ok exStarted_reach] by (simp add: ex_run memLoad_def)

text \<open>
  C33: a snapshot carries declared identifiers only. Whatever counts a run returned, every count
  the runner ever shows is keyed by a well-formed identifier that the registered repair of the
  snapshot's key declares, so no library data can reach a snapshot through a count key.
\<close>

theorem counts_declared:
  assumes "registry_ok g" and "runner_reach memStore (NewRunner g newMemStore) r"
    and "(k, n) \<in> set (sn_Counts (runnerSnapshot memStore now r))"
  shows "\<exists>info. regGet (sn_Key (runnerSnapshot memStore now r)) (rn_reg r) = Some info \<and> countKeyValid k \<and> k \<in> set (i_Counts info)"
proof -
  have "counts_ok (rn_reg r) (memLoad (rn_store r))"
    using mem_reach [OF assms(1,2)] by (simp add: runner_ok_def view_ok_def base_ok_def slotView_def mem_load)
  then show ?thesis using assms(3) by (fastforce simp: counts_ok_def runnerSnapshot_def Let_def mem_load declares_def split: if_splits)
qed

theorem counts_declared_witness:
  "\<exists>info. regGet (lit ''fix'') (rn_reg exDone) = Some info \<and> lit ''moved'' \<in> set (i_Counts info)"
proof -
  have "(lit ''moved'', 3) \<in> set (sn_Counts (runnerSnapshot memStore 0 exDone))" "sn_Key (runnerSnapshot memStore 0 exDone) = lit ''fix''"
    by (simp_all add: runnerSnapshot_def ex_run memLoad_def Let_def mem_load)
  then show ?thesis using counts_declared [OF exReg_ok exDone_reach, of "lit ''moved''" 3 0] by auto
qed

text \<open>
  What a start answers. In every reachable state a start is refused, with the state unchanged,
  exactly when the runner is closed, the key unknown, a needed backup path missing or a run is
  shown running, with the error of the first of these; otherwise it starts a run of that repair
  under a new id, and the snapshot shows it running.
\<close>

theorem start_answers:
  assumes "registry_ok g" and "runner_reach memStore (NewRunner g newMemStore) r"
  shows "case startRefusal (sn_State (memLoad (rn_store r))) key opts r of
      Some e \<Rightarrow> runnerStart memStore now key opts r = (Inl e, r)
    | None \<Rightarrow> \<exists>n r'. runnerStart memStore now key opts r = (Inr n, r') \<and> sn_ID (memLoad (rn_store r)) < n
        \<and> sn_State (memLoad (rn_store r')) = StateRunning \<and> sn_ID (memLoad (rn_store r')) = n \<and> sn_Key (memLoad (rn_store r')) = key"
proof -
  note ok = mem_reach [OF assms(1,2)]
  show ?thesis
  proof (cases "startRefusal (sn_State (memLoad (rn_store r))) key opts r")
    case None
    then obtain info where i: "\<not> rn_closed r" "regGet key (rn_reg r) = Some info" "CheckOptions info opts = None"
        "sn_State (so_Load memStore (rn_store r)) \<noteq> StateRunning"
      unfolding startRefusal_def mem_load by (auto split: if_splits option.splits)
    obtain n r' where "runnerStart memStore now key opts r = (Inr n, r')" "sn_ID (memLoad (rn_store r)) < n"
      "sn_State (memLoad (rn_store r')) = StateRunning" "sn_ID (memLoad (rn_store r')) = n" "sn_Key (memLoad (rn_store r')) = key"
      using mem.start_new [OF ok i, of now] unfolding mem_load by metis
    then show ?thesis using None by simp
  next
    case (Some e)
    then show ?thesis using mem.start_refused [OF ok, of key opts now] unfolding startRefusal_def mem_load
      by (auto split: if_splits option.splits)
  qed
qed

theorem start_answers_witness:
  "runnerStart memStore (5 * second) (lit ''fix'') \<lparr>o_Apply = False, o_Backup = []\<rparr> exStarted = (Inl ErrBusy, exStarted)"
  using start_answers [OF exReg_ok exStarted_reach, where key = "lit ''fix''" and opts = "\<lparr>o_Apply = False, o_Backup = []\<rparr>"
      and now = "5 * second"]
  by (simp add: startRefusal_def ex_run regGet_def CheckOptions_def memLoad_running)

end
