(* ===== verification/Selfwrite.thy ===== *)
theory Selfwrite
  imports Canticle_Prelude "HOL-Library.AList"
begin

text \<open>
  Package \<open>internal/selfwrite\<close>: the short-lived record of the paths this process wrote, by which
  the file watcher tells its own writes from foreign ones. \<open>canonical\<close> resolves symbolic links and
  is the parameter \<open>canon\<close>. A nil registry is \<open>None\<close>. Every operation takes the clock readings it
  makes; the mutex makes each one a step.
\<close>

section \<open>Definitions\<close>

definition TempExt :: gotext where "TempExt = lit ''.tmp''"

definition TempPattern :: "gotext \<Rightarrow> gotext" where
  "TempPattern name = name @ lit ''.*'' @ TempExt"

record SelfRegistry =
  ttl :: duration
  expires :: "(gotext \<times> instant) list"

definition newSelfRegistry :: "duration \<Rightarrow> SelfRegistry option" where
  "newSelfRegistry d = Some \<lparr>ttl = d, expires = []\<rparr>"

definition pruneLocked :: "instant \<Rightarrow> SelfRegistry \<Rightarrow> SelfRegistry" where
  "pruneLocked now r = r\<lparr>expires := filter (\<lambda>(p, deadline). now < deadline) (expires r)\<rparr>"

text \<open>\<open>Record\<close> reads the clock for the deadline and again for the pruning.\<close>

definition recordPaths :: "(gotext \<Rightarrow> gotext) \<Rightarrow> instant \<Rightarrow> instant \<Rightarrow> gotext list \<Rightarrow> SelfRegistry option \<Rightarrow> SelfRegistry option" where
  "recordPaths canon now nowPrune paths reg =
     (case reg of None \<Rightarrow> None
      | Some r \<Rightarrow>
          (if ttl r \<le> 0 then Some r
           else let deadline = now + ttl r;
                    es = fold (\<lambda>p es. if p = [] then es else AList.update (canon p) deadline es) paths (expires r)
                in Some (pruneLocked nowPrune (r\<lparr>expires := es\<rparr>))))"

text \<open>\<open>rest[:i]\<close> for the last dot of \<open>rest\<close>, which must not be its first character.\<close>

definition trimTempSuffix :: "gotext \<Rightarrow> gotext option" where
  "trimTempSuffix p =
     (if length p < length TempExt \<or> drop (length p - length TempExt) p \<noteq> TempExt then None
      else let rest = take (length p - length TempExt) p;
               front = rev (tl (dropWhile (\<lambda>c. c \<noteq> 46) (rev rest)))
           in if 46 \<in> set rest \<and> front \<noteq> [] then Some front else None)"

definition suppress :: "(gotext \<Rightarrow> gotext) \<Rightarrow> instant \<Rightarrow> gotext \<Rightarrow> SelfRegistry option \<Rightarrow> bool \<times> SelfRegistry option" where
  "suppress canon now path reg =
     (case reg of None \<Rightarrow> (False, None)
      | Some r \<Rightarrow>
          (if ttl r \<le> 0 \<or> path = [] then (False, Some r)
           else let c = canon path; r = pruneLocked now r
                in (map_of (expires r) c \<noteq> None
                    \<or> (case trimTempSuffix c of None \<Rightarrow> False | Some base \<Rightarrow> map_of (expires r) base \<noteq> None), Some r)))"

definition registryLen :: "instant \<Rightarrow> SelfRegistry option \<Rightarrow> nat \<times> SelfRegistry option" where
  "registryLen now reg = (case reg of None \<Rightarrow> (0, None)
     | Some r \<Rightarrow> (let r = pruneLocked now r in (length (expires r), Some r)))"

section \<open>Histories\<close>

datatype selfOp = Wrote instant instant "gotext list" | Asked instant gotext | Counted instant

fun applySelf :: "(gotext \<Rightarrow> gotext) \<Rightarrow> selfOp \<Rightarrow> SelfRegistry option \<Rightarrow> SelfRegistry option" where
  "applySelf canon (Wrote t t' ps) reg = recordPaths canon t t' ps reg"
| "applySelf canon (Asked t p) reg = snd (suppress canon t p reg)"
| "applySelf canon (Counted t) reg = snd (registryLen t reg)"

definition selfRun :: "(gotext \<Rightarrow> gotext) \<Rightarrow> duration \<Rightarrow> selfOp list \<Rightarrow> SelfRegistry option" where
  "selfRun canon d ops = fold (applySelf canon) ops (newSelfRegistry d)"

text \<open>The clock readings of the operations, in order.\<close>

fun readings :: "selfOp \<Rightarrow> instant list" where
  "readings (Wrote t t' ps) = [t, t']"
| "readings (Asked t p) = [t]"
| "readings (Counted t) = [t]"

text \<open>The key was written less than \<open>d\<close> before \<open>now\<close>: what the registry should answer.\<close>

definition fresh :: "(gotext \<Rightarrow> gotext) \<Rightarrow> duration \<Rightarrow> selfOp list \<Rightarrow> instant \<Rightarrow> gotext \<Rightarrow> bool" where
  "fresh canon d ops now k \<longleftrightarrow> (\<exists>t t' ps p. Wrote t t' ps \<in> set ops \<and> p \<in> set ps \<and> p \<noteq> [] \<and> canon p = k \<and> now < t + d)"

definition live :: "SelfRegistry \<Rightarrow> instant \<Rightarrow> gotext \<Rightarrow> bool" where
  "live r now k \<longleftrightarrow> (\<exists>e. map_of (expires r) k = Some e \<and> now < e)"

definition registry_inv :: "(gotext \<Rightarrow> gotext) \<Rightarrow> duration \<Rightarrow> selfOp list \<Rightarrow> instant \<Rightarrow> SelfRegistry \<Rightarrow> bool" where
  "registry_inv canon d ops c r \<longleftrightarrow> ttl r = d \<and> distinct (map fst (expires r))
     \<and> (\<forall>(k, e) \<in> set (expires r). e \<le> c + d) \<and> (\<forall>now \<ge> c. \<forall>k. live r now k \<longleftrightarrow> fresh canon d ops now k)"

section \<open>Lemmas\<close>

lemma pruned_keys: "distinct (map fst (expires r)) \<Longrightarrow> distinct (map fst (expires (pruneLocked now r)))"
  by (auto simp: pruneLocked_def distinct_map intro: inj_on_subset)

lemma pruned_entry:
  assumes "distinct (map fst (expires r))"
  shows "map_of (expires (pruneLocked now r)) k = Some e \<longleftrightarrow> map_of (expires r) k = Some e \<and> now < e"
proof -
  have "(k, e) \<in> set (expires (pruneLocked now r)) \<longleftrightarrow> (k, e) \<in> set (expires r) \<and> now < e" by (auto simp: pruneLocked_def)
  then show ?thesis using assms pruned_keys [OF assms, of now] by simp
qed

lemma prune_live: "distinct (map fst (expires r)) \<Longrightarrow> c \<le> now \<Longrightarrow> live (pruneLocked c r) now k = live r now k"
  by (auto simp: live_def pruned_entry simp del: map_of_eq_Some_iff)

lemma prune_inv:
  assumes "registry_inv canon d ops c r" "c \<le> c'" "0 < d"
  shows "registry_inv canon d ops c' (pruneLocked c' r)"
proof -
  have i: "ttl r = d" "distinct (map fst (expires r))" "\<forall>(k, e) \<in> set (expires r). e \<le> c + d"
    "\<forall>now \<ge> c. \<forall>k. live r now k \<longleftrightarrow> fresh canon d ops now k" using assms(1) by (simp_all add: registry_inv_def)
  have "\<forall>(k, e) \<in> set (expires (pruneLocked c' r)). e \<le> c' + d" using i(3) assms(2) by (auto simp: pruneLocked_def)
  moreover have "\<forall>now \<ge> c'. \<forall>k. live (pruneLocked c' r) now k \<longleftrightarrow> fresh canon d ops now k"
    using i(4) prune_live [OF i(2)] assms(2) by auto
  moreover have "ttl (pruneLocked c' r) = d" "distinct (map fst (expires (pruneLocked c' r)))"
    using i(1) pruned_keys [OF i(2)] by (simp_all add: pruneLocked_def)
  ultimately show ?thesis unfolding registry_inv_def by blast
qed

lemma inv_mono: "registry_inv canon d ops c r \<Longrightarrow> c \<le> c' \<Longrightarrow> registry_inv canon d ops c' r"
  unfolding registry_inv_def by fastforce

lemma updates_map:
  "map_of (fold (\<lambda>p es. if p = [] then es else AList.update (canon p) e es) ps es) k =
     (if \<exists>p \<in> set ps. p \<noteq> [] \<and> canon p = k then Some e else map_of es k)"
  by (induction ps arbitrary: es) (auto simp: update_conv')

lemma updates_distinct:
  "distinct (map fst es) \<Longrightarrow> distinct (map fst (fold (\<lambda>p es. if p = [] then es else AList.update (canon p) e es) ps es))"
  by (induction ps arbitrary: es) (auto simp: distinct_update)

lemma bounded_map: "distinct (map fst es) \<Longrightarrow> (\<forall>(k, e) \<in> set es. e \<le> b) \<longleftrightarrow> (\<forall>k e. map_of es k = Some e \<longrightarrow> e \<le> b)"
  by (auto dest: map_of_SomeD)

lemma fresh_append: "fresh canon d (ops @ [x]) now k \<longleftrightarrow> fresh canon d ops now k
    \<or> (\<exists>t t' ps p. x = Wrote t t' ps \<and> p \<in> set ps \<and> p \<noteq> [] \<and> canon p = k \<and> now < t + d)"
  by (auto simp: fresh_def)

lemma record_inv:
  fixes ps :: "gotext list"
  assumes "registry_inv canon d ops c r" "c \<le> t" "0 < d"
  defines "r' \<equiv> r\<lparr>expires := fold (\<lambda>p es. if p = [] then es else AList.update (canon p) (t + d) es) ps (expires r)\<rparr>"
  shows "registry_inv canon d (ops @ [Wrote t t' ps]) t r'"
proof -
  have i: "ttl r = d" "distinct (map fst (expires r))" "\<forall>(k, e) \<in> set (expires r). e \<le> c + d"
    "\<forall>now \<ge> c. \<forall>k. live r now k \<longleftrightarrow> fresh canon d ops now k" using assms(1) by (simp_all add: registry_inv_def)
  let ?hit = "\<lambda>k. \<exists>p \<in> set ps. p \<noteq> [] \<and> canon p = k"
  have m: "map_of (expires r') k = (if ?hit k then Some (t + d) else map_of (expires r) k)" for k
    by (simp add: r'_def updates_map)
  have old: "e \<le> c + d" if "map_of (expires r) k = Some e" for k e using that i(3) by (auto dest: map_of_SomeD)
  have "\<forall>(k, e) \<in> set (expires r'). e \<le> t + d"
    using updates_distinct [OF i(2), of canon "t + d" ps] old assms(2)
    by (subst bounded_map) (auto simp: r'_def updates_map simp del: map_of_eq_Some_iff split: if_splits dest!: old)
  moreover have "live r' now k \<longleftrightarrow> fresh canon d (ops @ [Wrote t t' ps]) now k" if "t \<le> now" for now k
  proof -
    have "live r now k \<longleftrightarrow> fresh canon d ops now k" using i(4) that assms(2) by auto
    moreover have "live r now k \<Longrightarrow> now < t + d" using old assms(2) by (fastforce simp: live_def)
    ultimately show ?thesis unfolding fresh_append live_def m by auto
  qed
  moreover have "ttl r' = d" "distinct (map fst (expires r'))"
    using i(1) updates_distinct [OF i(2)] by (simp_all add: r'_def)
  ultimately show ?thesis unfolding registry_inv_def by blast
qed

lemma selfRun_inv:
  assumes "0 < d" "sorted (concat (map readings ops))" "\<forall>t \<in> set (concat (map readings ops)). 0 \<le> t"
  shows "\<exists>r. selfRun canon d ops = Some r \<and> registry_inv canon d ops (Max (insert 0 (set (concat (map readings ops))))) r"
  using assms(2,3)
proof (induction ops rule: rev_induct)
  case Nil
  show ?case by (simp add: selfRun_def newSelfRegistry_def registry_inv_def live_def fresh_def)
next
  case (snoc x ops)
  let ?c = "Max (insert 0 (set (concat (map readings ops))))"
  have "sorted (concat (map readings ops))" "\<forall>t \<in> set (concat (map readings ops)). \<forall>u \<in> set (readings x). t \<le> u"
    "sorted (readings x)" using snoc.prems(1) by (auto simp: sorted_append)
  then obtain r where r: "selfRun canon d ops = Some r" "registry_inv canon d ops ?c r" using snoc by auto
  have ge: "?c \<le> u" if "u \<in> set (readings x)" for u
    using that snoc.prems \<open>\<forall>t \<in> set (concat (map readings ops)). \<forall>u \<in> set (readings x). t \<le> u\<close> by (intro Max.boundedI) auto
  have c': "Max (insert 0 (set (concat (map readings (ops @ [x]))))) = last (readings x)"
  proof (rule Max_eqI)
    show "last (readings x) \<in> insert 0 (set (concat (map readings (ops @ [x]))))" by (cases x) auto
    show "y \<le> last (readings x)" if "y \<in> insert 0 (set (concat (map readings (ops @ [x]))))" for y
      using that ge snoc.prems(2) \<open>\<forall>t \<in> set (concat (map readings ops)). \<forall>u \<in> set (readings x). t \<le> u\<close> \<open>sorted (readings x)\<close>
      by (cases x) auto
  qed simp
  have t: "ttl r = d" using r(2) by (simp add: registry_inv_def)
  have f: "fresh canon d (ops @ [x]) = fresh canon d ops" if "\<And>t t' ps. x \<noteq> Wrote t t' ps"
    using that by (auto simp: fresh_append fun_eq_iff)
  show ?case unfolding c'
  proof (cases x)
    case (Wrote u u' ps)
    then have "?c \<le> u" "u \<le> u'" using ge \<open>sorted (readings x)\<close> by auto
    note inv = prune_inv [OF record_inv [OF r(2) \<open>?c \<le> u\<close> assms(1), of u' ps] \<open>u \<le> u'\<close> assms(1)]
    then show "\<exists>r. selfRun canon d (ops @ [x]) = Some r \<and> registry_inv canon d (ops @ [x]) (last (readings x)) r"
      using Wrote r(1) t assms(1) by (simp add: selfRun_def recordPaths_def Let_def)
  next
    case (Asked u p)
    then have "registry_inv canon d ops u (pruneLocked u r)" "registry_inv canon d ops u r"
      using prune_inv [OF r(2) ge [of u] assms(1)] inv_mono [OF r(2) ge [of u]] by simp_all
    then show "\<exists>r. selfRun canon d (ops @ [x]) = Some r \<and> registry_inv canon d (ops @ [x]) (last (readings x)) r"
      using Asked r(1) f t assms(1) by (simp add: selfRun_def suppress_def Let_def registry_inv_def)
  next
    case (Counted u)
    then show "\<exists>r. selfRun canon d (ops @ [x]) = Some r \<and> registry_inv canon d (ops @ [x]) (last (readings x)) r"
      using r(1) prune_inv [OF r(2) ge [of u] assms(1)] f
      by (simp add: selfRun_def registryLen_def Let_def registry_inv_def)
  qed
qed

lemma trimTemp_iff:
  "trimTempSuffix p = Some base \<longleftrightarrow> base \<noteq> [] \<and> (\<exists>rnd. 46 \<notin> set rnd \<and> p = base @ 46 # rnd @ TempExt)"
proof
  assume t: "trimTempSuffix p = Some base"
  let ?rest = "take (length p - length TempExt) p"
  have "drop (length p - length TempExt) p = TempExt" using t by (auto simp: trimTempSuffix_def split: if_splits)
  then have "p = ?rest @ TempExt" by (metis append_take_drop_id)
  moreover have d: "46 \<in> set ?rest" "base = rev (tl (dropWhile (\<lambda>c. c \<noteq> 46) (rev ?rest)))" "base \<noteq> []"
    using t by (auto simp: trimTempSuffix_def Let_def split: if_splits)
  moreover have "?rest = base @ 46 # rev (takeWhile (\<lambda>c. c \<noteq> 46) (rev ?rest))"
  proof -
    let ?d = "dropWhile (\<lambda>c. c \<noteq> 46) (rev ?rest)"
    have ne: "?d \<noteq> []" using d(1) by (simp add: dropWhile_Nil_iff)
    have "?rest = rev ?d @ rev (takeWhile (\<lambda>c. c \<noteq> 46) (rev ?rest))"
      by (metis rev_append rev_rev_ident takeWhile_dropWhile_id)
    also have "rev ?d = base @ [46]" using ne dropWhile_hd [OF ne] d(2) by (cases ?d) auto
    finally show ?thesis by simp
  qed
  moreover have "46 \<notin> set (rev (takeWhile (\<lambda>c. c \<noteq> 46) (rev ?rest)))" by (auto dest: set_takeWhileD)
  ultimately show "base \<noteq> [] \<and> (\<exists>rnd. 46 \<notin> set rnd \<and> p = base @ 46 # rnd @ TempExt)"
    by (metis append.assoc append_Cons)
next
  assume "base \<noteq> [] \<and> (\<exists>rnd. 46 \<notin> set rnd \<and> p = base @ 46 # rnd @ TempExt)"
  then obtain rnd where r: "base \<noteq> []" "46 \<notin> set rnd" "p = (base @ 46 # rnd) @ TempExt" by auto
  have "dropWhile (\<lambda>c. c \<noteq> 46) (rev (base @ 46 # rnd)) = 46 # rev base" using r(2) by (simp add: dropWhile_append)
  then show "trimTempSuffix p = Some base" using r unfolding trimTempSuffix_def by (simp add: Let_def)
qed

section \<open>Properties\<close>

text \<open>
  The registry suppresses exactly its own recent writes. After any history of records,
  questions and counts whose clock readings do not run backwards, an event is suppressed if and
  only if its path, or the path its name is a temporary file of, was recorded less than the time to
  live ago.
\<close>

theorem suppress_exact:
  assumes "0 < d" and "sorted (concat (map readings ops) @ [now])" and "\<forall>t \<in> set (concat (map readings ops)). 0 \<le> t" and "0 \<le> now"
    and "path \<noteq> []"
  shows "fst (suppress canon now path (selfRun canon d ops)) \<longleftrightarrow>
    fresh canon d ops now (canon path)
    \<or> (\<exists>base rnd. base \<noteq> [] \<and> 46 \<notin> set rnd \<and> canon path = base @ 46 # rnd @ TempExt \<and> fresh canon d ops now base)"
proof -
  let ?c = "Max (insert 0 (set (concat (map readings ops))))"
  obtain r where r: "selfRun canon d ops = Some r" "registry_inv canon d ops ?c r"
    using selfRun_inv [OF assms(1) _ assms(3), of canon] assms(2) by (auto simp: sorted_append)
  have "?c \<le> now" using assms(2,4) by (intro Max.boundedI) (auto simp: sorted_append)
  then have l: "live r now k \<longleftrightarrow> fresh canon d ops now k" for k using r(2) by (simp add: registry_inv_def)
  have m: "map_of (expires (pruneLocked now r)) k \<noteq> None \<longleftrightarrow> live r now k" for k
    using r(2) by (auto simp: registry_inv_def live_def pruned_entry simp del: map_of_eq_Some_iff)
  have t: "ttl r = d" using r(2) by (simp add: registry_inv_def)
  have "fst (suppress canon now path (selfRun canon d ops)) \<longleftrightarrow> fresh canon d ops now (canon path)
      \<or> (\<exists>base. trimTempSuffix (canon path) = Some base \<and> fresh canon d ops now base)"
    unfolding r(1) suppress_def using assms(1,5) t m [of "canon path"] m l
    by (auto simp: Let_def simp del: not_None_eq split: option.splits)
  then show ?thesis unfolding trimTemp_iff by blast
qed

theorem suppress_exact_witness:
  "fst (suppress (\<lambda>p. p) 3 (lit ''a.lrc.12.tmp'') (selfRun (\<lambda>p. p) 5 [Wrote 1 1 [lit ''a.lrc'']]))
   \<and> \<not> fst (suppress (\<lambda>p. p) 6 (lit ''a.lrc'') (selfRun (\<lambda>p. p) 5 [Wrote 1 1 [lit ''a.lrc'']]))"
proof -
  have tmp: "lit ''a.lrc.12.tmp'' = lit ''a.lrc'' @ 46 # lit ''12'' @ TempExt" "46 \<notin> set (lit ''12'')"
    by (simp_all add: lit_def TempExt_def)
  let ?ops = "[Wrote 1 1 [lit ''a.lrc'']]"
  have f: "fresh (\<lambda>p. p) 5 [Wrote 1 1 [lit ''a.lrc'']] 3 (lit ''a.lrc'')"
    "\<not> fresh (\<lambda>p. p) 5 [Wrote 1 1 [lit ''a.lrc'']] 6 q" for q by (auto simp: fresh_def)
  have "\<exists>base rnd. base \<noteq> [] \<and> 46 \<notin> set rnd \<and> lit ''a.lrc.12.tmp'' = base @ 46 # rnd @ TempExt \<and> fresh (\<lambda>p. p) 5 ?ops 3 base"
    using f(1) tmp by (intro exI [of _ "lit ''a.lrc''"] exI [of _ "lit ''12''"]) simp
  then have "fst (suppress (\<lambda>p. p) 3 (lit ''a.lrc.12.tmp'') (selfRun (\<lambda>p. p) 5 ?ops))"
    by (subst suppress_exact) simp_all
  moreover have "\<not> fst (suppress (\<lambda>p. p) 6 (lit ''a.lrc'') (selfRun (\<lambda>p. p) 5 ?ops))"
    by (subst suppress_exact) (simp_all add: f(2))
  ultimately show ?thesis by blast
qed

end
