(* ===== verification/Schedule.thy ===== *)
theory Schedule
  imports Canticle_Prelude
begin

text \<open>
  Package \<open>internal/schedule\<close>: when the periodic library scan runs next. The calendar is the
  proleptic Gregorian one of package \<open>time\<close>, whose zero time is a Monday: a date is its day number,
  so that \<open>time.Date\<close> with a day out of range is plain addition, and so is its normalisation of
  hours. A location is its zone table, the function \<open>lookup\<close> from a second to the offset in force
  and the seconds where that period starts and ends; \<open>dateIn\<close> is the two-step search of
  \<open>time.Date\<close> over it.
\<close>

section \<open>Definitions\<close>

datatype Frequency = FrequencyOff | FrequencyHourly | FrequencyDaily | FrequencyWeekly | FrequencyInterval
  | FrequencyEmpty | FrequencyOther gotext

record TimeOfDay =
  Hour :: int
  Minute :: int

datatype timeError = NotHHMM gotext | NotPadded gotext | HourRange gotext | MinuteRange gotext

definition isDigits :: "gotext \<Rightarrow> bool" where
  "isDigits s \<longleftrightarrow> (\<forall>c \<in> set s. isDigit c)"

definition ParseTimeOfDay :: "gotext \<Rightarrow> timeError + TimeOfDay" where
  "ParseTimeOfDay s =
     (let t = trimSpace s; h = takeWhile (\<lambda>c. c \<noteq> 58) t; rest = dropWhile (\<lambda>c. c \<noteq> 58) t
      in if rest = [] then Inl (NotHHMM s)
         else let m = tl rest
              in if length h \<noteq> 2 \<or> length m \<noteq> 2 then Inl (NotPadded s)
                 else if \<not> isDigits h \<or> \<not> isDigits m then Inl (NotPadded s)
                 else if atoiDigits h > 23 then Inl (HourRange s)
                 else if atoiDigits m > 59 then Inl (MinuteRange s)
                 else Inr \<lparr>Hour = int (atoiDigits h), Minute = int (atoiDigits m)\<rparr>)"

definition timeOfDayString :: "TimeOfDay \<Rightarrow> gotext" where
  "timeOfDayString t = pad2 (nat (Hour t)) @ 58 # pad2 (nat (Minute t))"

definition WeekdayNames :: "gotext list" where
  "WeekdayNames = [lit ''sunday'', lit ''monday'', lit ''tuesday'', lit ''wednesday'', lit ''thursday'',
     lit ''friday'', lit ''saturday'']"

text \<open>\<open>ParseWeekday\<close>; the days count from Sunday.\<close>

definition ParseWeekday :: "gotext \<Rightarrow> int option" where
  "ParseWeekday s =
     (let n = toLower (trimSpace s)
      in if n = lit ''sunday'' then Some 0 else if n = lit ''monday'' then Some 1 else if n = lit ''tuesday'' then Some 2
         else if n = lit ''wednesday'' then Some 3 else if n = lit ''thursday'' then Some 4
         else if n = lit ''friday'' then Some 5 else if n = lit ''saturday'' then Some 6 else None)"

definition FrequencyNames :: "gotext list" where
  "FrequencyNames = [lit ''off'', lit ''hourly'', lit ''daily'', lit ''weekly'']"

record Schedule =
  s_Frequency :: Frequency
  s_At :: TimeOfDay
  s_Day :: int
  s_Interval :: duration
  s_ScanOnStart :: bool

text \<open>The zone of an instant, and the local fields of \<open>time.Time\<close>.\<close>

type_synonym location = "int \<Rightarrow> int \<times> int \<times> int"

definition offsetAt :: "location \<Rightarrow> int \<Rightarrow> int" where
  "offsetAt loc u = fst (loc u)"

definition localSecs :: "location \<Rightarrow> instant \<Rightarrow> int" where
  "localSecs loc t = t div second + offsetAt loc (t div second)"

definition localDay :: "location \<Rightarrow> instant \<Rightarrow> int" where
  "localDay loc t = localSecs loc t div 86400"

definition localHour :: "location \<Rightarrow> instant \<Rightarrow> int" where
  "localHour loc t = localSecs loc t mod 86400 div 3600"

definition weekdayOf :: "int \<Rightarrow> int" where
  "weekdayOf day = (day + 1) mod 7"

definition dateIn :: "location \<Rightarrow> int \<Rightarrow> int \<Rightarrow> int \<Rightarrow> instant" where
  "dateIn loc day hr mn =
     (let u = day * 86400 + hr * 3600 + mn * 60; (off, start, stop) = loc u
      in if off = 0 then u * second
         else let utc = u - off;
                  off = (if utc < start \<or> utc \<ge> stop then offsetAt loc utc else off)
              in (u - off) * second)"

fun advanceLoop :: "instant \<Rightarrow> (int \<Rightarrow> instant) \<Rightarrow> int \<Rightarrow> int list \<Rightarrow> instant \<Rightarrow> instant" where
  "advanceLoop now build step [] candidate = candidate"
| "advanceLoop now build step (i # is) candidate =
     (if candidate > now then candidate else advanceLoop now build step is (build (i * step)))"

definition advanceUntilAfter :: "instant \<Rightarrow> (int \<Rightarrow> instant) \<Rightarrow> int \<Rightarrow> instant" where
  "advanceUntilAfter now build step = advanceLoop now build step [1, 2] (build 0)"

definition NextFire :: "location \<Rightarrow> Schedule \<Rightarrow> instant \<Rightarrow> instant option" where
  "NextFire loc s now =
     (case s_Frequency s of
        FrequencyOff \<Rightarrow> None
      | FrequencyInterval \<Rightarrow> (if s_Interval s \<le> 0 then None else Some (now + s_Interval s))
      | FrequencyEmpty \<Rightarrow> (if s_Interval s \<le> 0 then None else Some (now + s_Interval s))
      | FrequencyHourly \<Rightarrow>
          Some (advanceUntilAfter now (\<lambda>offset. dateIn loc (localDay loc now) (localHour loc now + 1 + offset) 0) 1)
      | FrequencyDaily \<Rightarrow>
          Some (advanceUntilAfter now (\<lambda>offset. dateIn loc (localDay loc now + offset) (Hour (s_At s)) (Minute (s_At s))) 1)
      | FrequencyWeekly \<Rightarrow>
          (let ahead = (s_Day s - weekdayOf (localDay loc now) + 7) mod 7
           in Some (advanceUntilAfter now
                (\<lambda>offset. dateIn loc (localDay loc now + ahead + offset) (Hour (s_At s)) (Minute (s_At s))) 7))
      | FrequencyOther _ \<Rightarrow> None)"

section \<open>Specification\<close>

text \<open>A schedule whose anchor is a time of day and a weekday.\<close>

definition schedule_ok :: "Schedule \<Rightarrow> bool" where
  "schedule_ok s \<longleftrightarrow> 0 \<le> Hour (s_At s) \<and> Hour (s_At s) \<le> 23 \<and> 0 \<le> Minute (s_At s) \<and> Minute (s_At s) \<le> 59
     \<and> 0 \<le> s_Day s \<and> s_Day s \<le> 6"

definition anchorSecs :: "Schedule \<Rightarrow> int" where
  "anchorSecs s = Hour (s_At s) * 3600 + Minute (s_At s) * 60"

text \<open>The instants a wall-clock schedule names, in a zone at a fixed offset.\<close>

definition firesAt :: "int \<Rightarrow> Schedule \<Rightarrow> instant \<Rightarrow> bool" where
  "firesAt off s t \<longleftrightarrow> t mod second = 0 \<and>
     (let u = t div second + off
      in case s_Frequency s of
           FrequencyHourly \<Rightarrow> u mod 3600 = 0
         | FrequencyDaily \<Rightarrow> u mod 86400 = anchorSecs s
         | FrequencyWeekly \<Rightarrow> u mod 86400 = anchorSecs s \<and> weekdayOf (u div 86400) = s_Day s
         | _ \<Rightarrow> False)"

section \<open>Lemmas\<close>

lemma dateIn_offset:
  obtains v where "dateIn loc day hr mn = (day * 86400 + hr * 3600 + mn * 60 - offsetAt loc v) * second"
proof -
  let ?u = "day * 86400 + hr * 3600 + mn * 60"
  obtain off start stop where l: "loc ?u = (off, start, stop)" by (metis surj_pair)
  have "\<exists>v. dateIn loc day hr mn = (?u - offsetAt loc v) * second"
  proof (cases "off = 0 \<or> \<not> (?u - off < start \<or> ?u - off \<ge> stop)")
    case True
    then show ?thesis using l by (intro exI [of _ ?u]) (auto simp: dateIn_def offsetAt_def Let_def)
  next
    case False
    then show ?thesis using l by (intro exI [of _ "?u - off"]) (auto simp: dateIn_def Let_def)
  qed
  then show ?thesis using that by blast
qed

lemma dateIn_fixed: "(\<And>u. offsetAt loc u = off) \<Longrightarrow> dateIn loc day hr mn = (day * 86400 + hr * 3600 + mn * 60 - off) * second"
  by (metis dateIn_offset)

lemma advance_cases:
  "advanceUntilAfter now build step =
     (if build 0 > now then build 0 else if build step > now then build step else build (2 * step))"
  by (simp add: advanceUntilAfter_def)

lemma now_bound: "now < (now div second + 1) * second"
proof -
  have "(now div second + 1) * second = now div second * second + second" by (simp add: distrib_right)
  moreover have "now div second * second + now mod second = now" by (rule div_mult_mod_eq)
  moreover have "now mod second < second" by (simp add: second_def)
  ultimately show ?thesis by linarith
qed

lemma later: "now div second < u \<Longrightarrow> now < u * second"
proof -
  assume "now div second < u"
  then have "(now div second + 1) * second \<le> u * second" by (intro mult_right_mono) (simp_all add: second_def)
  then show ?thesis using now_bound [of now] by simp
qed

lemma local_parts: "localSecs loc now = localDay loc now * 86400 + localHour loc now * 3600 + localSecs loc now mod 3600"
  "0 \<le> localHour loc now" "localHour loc now \<le> 23"
proof -
  let ?l = "localSecs loc now"
  have "?l div 86400 * 86400 + ?l mod 86400 = ?l" "?l mod 86400 div 3600 * 3600 + ?l mod 86400 mod 3600 = ?l mod 86400"
    by (rule div_mult_mod_eq)+
  moreover have "?l mod 86400 mod 3600 = ?l mod 3600" by (rule mod_mod_cancel) simp
  ultimately show "?l = localDay loc now * 86400 + localHour loc now * 3600 + ?l mod 3600" unfolding localDay_def localHour_def by linarith
  show "0 \<le> localHour loc now" by (simp add: localHour_def pos_imp_zdiv_nonneg_iff)
  have "?l mod 86400 \<le> 86399" using pos_mod_bound [of 86400 ?l] by simp
  then have "?l mod 86400 div 3600 \<le> 86399 div 3600" by (rule zdiv_mono1) simp
  then show "localHour loc now \<le> 23" unfolding localHour_def by simp
qed

lemma local_bounds:
  "localDay loc now * 86400 + localHour loc now * 3600 \<le> localSecs loc now"
  "localSecs loc now < localDay loc now * 86400 + localHour loc now * 3600 + 3600"
  "localSecs loc now < localDay loc now * 86400 + 86400"
proof -
  obtain m where "localSecs loc now = localDay loc now * 86400 + localHour loc now * 3600 + m" "0 \<le> m" "m < 3600"
    using local_parts(1) [of loc now] pos_mod_sign [of 3600 "localSecs loc now"] pos_mod_bound [of 3600 "localSecs loc now"] by simp
  then show "localDay loc now * 86400 + localHour loc now * 3600 \<le> localSecs loc now"
    "localSecs loc now < localDay loc now * 86400 + localHour loc now * 3600 + 3600"
    "localSecs loc now < localDay loc now * 86400 + 86400" using local_parts(2,3) [of loc now] by linarith+
qed


lemma time_of_day_roundtrip:
  assumes "0 \<le> Hour t" "Hour t \<le> 23" "0 \<le> Minute t" "Minute t \<le> 59"
  shows "ParseTimeOfDay (timeOfDayString t) = Inr t"
proof -
  obtain h m where hm: "Hour t = int h" "Minute t = int m" "h \<le> 23" "m \<le> 59"
    using assms by (metis int_nat_eq nat_le_iff of_nat_numeral)
  have str: "timeOfDayString t = [48 + h div 10, 48 + h mod 10, 58, 48 + m div 10, 48 + m mod 10]"
    using hm by (simp add: timeOfDayString_def pad2_two)
  have "h div 10 \<le> 2" "m div 10 \<le> 5" "h mod 10 < 10" "m mod 10 < 10" using hm(3,4) by auto
  then have "\<not> isSpace (48 + h div 10)" "\<not> isSpace (48 + m mod 10)" "isDigit (48 + h div 10)" "isDigit (48 + h mod 10)"
    "isDigit (48 + m div 10)" "isDigit (48 + m mod 10)" "48 + h div 10 \<noteq> 58" "48 + h mod 10 \<noteq> 58"
    by (auto simp: isSpace_def isDigit_def)
  then show ?thesis unfolding str using hm
    by (cases t) (simp add: ParseTimeOfDay_def trimSpace_def isDigits_def atoiDigits_def Let_def)
qed

lemma last_hourly:
  assumes "\<And>u v. offsetAt loc u - offsetAt loc v \<le> 7200"
  shows "now < dateIn loc (localDay loc now) (3 + localHour loc now) 0"
proof -
  obtain v where v: "dateIn loc (localDay loc now) (3 + localHour loc now) 0
      = (localDay loc now * 86400 + (3 + localHour loc now) * 3600 + 0 * 60 - offsetAt loc v) * second" by (rule dateIn_offset)
  show ?thesis unfolding v using assms [of v "now div second"] local_bounds(2) [of loc now]
    by (intro later) (simp add: localSecs_def)
qed

lemma last_daily:
  assumes "\<And>u v. offsetAt loc u - offsetAt loc v \<le> 86400" "0 \<le> hr" "0 \<le> mn" "2 \<le> k"
  shows "now < dateIn loc (localDay loc now + k) hr mn"
proof -
  obtain v where v: "dateIn loc (localDay loc now + k) hr mn
      = ((localDay loc now + k) * 86400 + hr * 3600 + mn * 60 - offsetAt loc v) * second" by (rule dateIn_offset)
  have "(localDay loc now + 2) * 86400 \<le> (localDay loc now + k) * 86400" using assms(4) by simp
  then show ?thesis unfolding v using assms(1) [of v "now div second"] assms(2,3) local_bounds(3) [of loc now]
    by (intro later) (simp add: localSecs_def)
qed

text \<open>In a zone at a fixed offset the candidates are an arithmetic progression, which the search walks.\<close>

lemma advance_least:
  assumes build: "build 0 = b * second" "build step = (b + p) * second" "build (2 * step) = (b + 2 * p) * second"
    and "(b - p) * second \<le> now" "now < build (2 * step)" "0 < p"
  shows "\<exists>k. advanceUntilAfter now build step = (b + k * p) * second"
    and "now < advanceUntilAfter now build step"
    and "now < (b + k' * p) * second \<Longrightarrow> advanceUntilAfter now build step \<le> (b + k' * p) * second"
proof -
  obtain k where k: "advanceUntilAfter now build step = (b + k * p) * second" "now < (b + k * p) * second" "(b + (k - 1) * p) * second \<le> now"
  proof -
    consider "now < build 0" | "\<not> now < build 0" "now < build step" | "\<not> now < build 0" "\<not> now < build step" by blast
    then show ?thesis
    proof cases
      case 1 then show ?thesis using that [of 0] assms by (simp add: advance_cases)
    next
      case 2 then show ?thesis using that [of 1] assms by (simp add: advance_cases)
    next
      case 3 then show ?thesis using that [of 2] assms by (simp add: advance_cases)
    qed
  qed
  then show "\<exists>k. advanceUntilAfter now build step = (b + k * p) * second" "now < advanceUntilAfter now build step" by auto
  assume "now < (b + k' * p) * second"
  then have "(b + (k - 1) * p) * second < (b + k' * p) * second" using k(3) by simp
  then have "(k - 1) * p < k' * p" by (simp add: second_def)
  then have "k \<le> k'" using \<open>0 < p\<close> by simp
  then have "(b + k * p) * second \<le> (b + k' * p) * second" using \<open>0 < p\<close> by (simp add: second_def mult_right_mono)
  then show "advanceUntilAfter now build step \<le> (b + k' * p) * second" using k(1) by simp
qed

lemma now_floor: "u \<le> now div second \<Longrightarrow> u * second \<le> now"
proof -
  assume "u \<le> now div second"
  then have "u * second \<le> now div second * second" by (rule mult_right_mono) (simp add: second_def)
  moreover have "now div second * second + now mod second = now" by (rule div_mult_mod_eq)
  moreover have "0 \<le> now mod second" by (simp add: second_def)
  ultimately show ?thesis by linarith
qed

lemma fires_secs: "t mod second = 0 \<longleftrightarrow> (\<exists>u. t = u * second)" "(u * second) div second = u"
  by (auto simp: second_def mod_eq_0_iff_dvd dvd_def mult.commute)

lemma weekly_days:
  assumes "0 \<le> w" "w \<le> 6"
  shows "weekdayOf q = w \<longleftrightarrow> (\<exists>k. q = day + (w - weekdayOf day + 7) mod 7 + 7 * k)"
proof -
  let ?a = "(w - weekdayOf day + 7) mod 7"
  have "(day + 1 + ?a) mod 7 = (day + 1 + (w - (day + 1) + 7)) mod 7"
    unfolding weekdayOf_def by (metis mod_add_right_eq mod_diff_right_eq mod_add_left_eq)
  then have "(day + ?a + 1) mod 7 = w" using assms by (simp add: algebra_simps)
  then have "weekdayOf q = w \<longleftrightarrow> (q + 1) mod 7 = (day + ?a + 1) mod 7" by (simp add: weekdayOf_def)
  also have "\<dots> \<longleftrightarrow> 7 dvd q - (day + ?a)" by (simp add: mod_eq_dvd_iff)
  also have "\<dots> \<longleftrightarrow> (\<exists>k. q = day + ?a + 7 * k)" by (auto simp: dvd_def algebra_simps)
  finally show ?thesis .
qed

lemma residue: "0 \<le> a \<Longrightarrow> a < p \<Longrightarrow> (x::int) mod p = a \<longleftrightarrow> (\<exists>k. x = a + (c + k) * p)"
proof
  assume "x mod p = a"
  then have "x = a + (c + (x div p - c)) * p" using div_mult_mod_eq [of x p] by simp
  then show "\<exists>k. x = a + (c + k) * p" by blast
qed auto

lemma anchor_range: "schedule_ok s \<Longrightarrow> 0 \<le> anchorSecs s \<and> anchorSecs s < 86400"
  by (simp add: schedule_ok_def anchorSecs_def)

lemma secs_form:
  assumes "\<And>u. Q u \<longleftrightarrow> (\<exists>k. u = f k)"
  shows "t mod second = 0 \<and> Q (t div second) \<longleftrightarrow> (\<exists>k. t = f k * second)"
  unfolding fires_secs(1) using assms fires_secs(2) by metis

lemma residue_shift:
  fixes u off :: int
  assumes "0 \<le> a" "a < p"
  shows "(u + off) mod p = a \<longleftrightarrow> (\<exists>k. u = (c * p + a - off) + k * p)"
  unfolding residue [OF assms, of "u + off" c] by (rule ex_cong1) (auto simp: algebra_simps)

lemma fires_hourly:
  "s_Frequency s = FrequencyHourly \<Longrightarrow> firesAt off s t \<longleftrightarrow> (\<exists>k. t = ((c * 3600 - off) + k * 3600) * second)"
  unfolding firesAt_def by (simp add: Let_def) (rule secs_form, use residue_shift [of 0 3600 _ off c] in simp)

lemma fires_daily:
  assumes "s_Frequency s = FrequencyDaily" "schedule_ok s"
  shows "firesAt off s t \<longleftrightarrow> (\<exists>k. t = ((c * 86400 + anchorSecs s - off) + k * 86400) * second)"
  unfolding firesAt_def using assms(1)
  by (simp add: Let_def) (rule secs_form, use residue_shift [of "anchorSecs s" 86400 _ off c] anchor_range [OF assms(2)] in simp)

lemma fires_weekly:
  assumes "s_Frequency s = FrequencyWeekly" "schedule_ok s"
  shows "firesAt off s t \<longleftrightarrow>
    (\<exists>k. t = (((day + (s_Day s - weekdayOf day + 7) mod 7) * 86400 + anchorSecs s - off) + k * 604800) * second)"
    (is "_ \<longleftrightarrow> (\<exists>k. t = ?f k * second)")
proof -
  let ?d = "day + (s_Day s - weekdayOf day + 7) mod 7"
  note a = anchor_range [OF assms(2)]
  have d: "(u + off) mod 86400 = anchorSecs s \<and> weekdayOf ((u + off) div 86400) = s_Day s \<longleftrightarrow> (\<exists>k. u = ?f k)" for u
  proof
    assume h: "(u + off) mod 86400 = anchorSecs s \<and> weekdayOf ((u + off) div 86400) = s_Day s"
    then obtain k where "(u + off) div 86400 = ?d + 7 * k" using weekly_days [of "s_Day s"] assms(2) by (auto simp: schedule_ok_def)
    then have "u + off = (?d + 7 * k) * 86400 + anchorSecs s" using h div_mult_mod_eq [of "u + off" 86400] by simp
    then show "\<exists>k. u = ?f k" by (intro exI [of _ k]) (simp add: algebra_simps)
  next
    assume "\<exists>k. u = ?f k"
    then obtain k q where q: "q = ?d + 7 * k" "u + off = anchorSecs s + q * 86400" by (auto simp: algebra_simps)
    have "(u + off) mod 86400 = anchorSecs s" "(u + off) div 86400 = q" unfolding q(2) using a by simp_all
    then show "(u + off) mod 86400 = anchorSecs s \<and> weekdayOf ((u + off) div 86400) = s_Day s"
      using q(1) weekly_days [of "s_Day s" q day] assms(2) by (auto simp: schedule_ok_def)
  qed
  have "firesAt off s t \<longleftrightarrow> t mod second = 0 \<and> ((t div second + off) mod 86400 = anchorSecs s
      \<and> weekdayOf ((t div second + off) div 86400) = s_Day s)" using assms(1) by (simp add: firesAt_def Let_def)
  also have "\<dots> \<longleftrightarrow> (\<exists>k. t = ?f k * second)" by (rule secs_form [where f = ?f, OF d])
  finally show ?thesis .
qed

section \<open>Properties\<close>

text \<open>
  C37: the next scan is always ahead. In a zone whose offsets never differ by more than two hours,
  daylight saving included, the next fire of every schedule is strictly after now, so the bounded
  search of the code never returns a missed window.
\<close>

theorem next_fire_ahead:
  assumes "schedule_ok s" and "\<forall>u v. offsetAt loc u - offsetAt loc v \<le> 7200" and "NextFire loc s now = Some t"
  shows "now < t"
proof -
  have day: "offsetAt loc u - offsetAt loc v \<le> 86400" for u v using assms(2) [rule_format, of u v] by simp
  have a: "0 \<le> Hour (s_At s)" "0 \<le> Minute (s_At s)" "0 \<le> s_Day s" using assms(1) by (simp_all add: schedule_ok_def)
  show ?thesis
  proof (cases "s_Frequency s")
    case FrequencyHourly
    then show ?thesis using assms(3) last_hourly [of loc now] assms(2) by (auto simp: NextFire_def advance_cases split: if_splits)
  next
    case FrequencyDaily
    then show ?thesis using assms(3) last_daily [OF day a(1,2), of 2 now] by (auto simp: NextFire_def advance_cases split: if_splits)
  next
    case FrequencyWeekly
    let ?ahead = "(s_Day s - weekdayOf (localDay loc now) + 7) mod 7"
    have "0 \<le> ?ahead" by simp
    then show ?thesis using assms(3) FrequencyWeekly last_daily [OF day a(1,2), of "?ahead + 14" now]
      by (auto simp: NextFire_def advance_cases Let_def add.assoc split: if_splits)
  qed (use assms(3) in \<open>auto simp: NextFire_def split: if_splits\<close>)
qed

theorem next_fire_ahead_witness:
  "\<exists>t. NextFire (\<lambda>u. if u < 100000 then (0, 0, 100000) else (3600, 100000, 200000))
      \<lparr>s_Frequency = FrequencyDaily, s_At = \<lparr>Hour = 4, Minute = 0\<rparr>, s_Day = 0, s_Interval = 0, s_ScanOnStart = False\<rparr> (50000 * second) = Some t
    \<and> 50000 * second < t"
proof -
  let ?l = "\<lambda>u. if u < 100000 then (0, 0, 100000) else (3600, 100000, 200000)"
  let ?s = "\<lparr>s_Frequency = FrequencyDaily, s_At = \<lparr>Hour = 4, Minute = 0\<rparr>, s_Day = 0, s_Interval = 0, s_ScanOnStart = False\<rparr>"
  obtain t where t: "NextFire ?l ?s (50000 * second) = Some t" by (simp add: NextFire_def)
  have "50000 * second < t" by (rule next_fire_ahead [OF _ _ t]) (auto simp: schedule_ok_def offsetAt_def)
  then show ?thesis using t by blast
qed

text \<open>
  No window is skipped and none invented. In a zone at a fixed offset the next fire of an
  hourly, daily or weekly schedule is an instant the schedule names, and the first such instant
  after now.
\<close>

theorem next_fire_least:
  assumes "schedule_ok s" and "\<forall>u. offsetAt loc u = off" and "s_Frequency s \<in> {FrequencyHourly, FrequencyDaily, FrequencyWeekly}"
  shows "\<exists>t. NextFire loc s now = Some t \<and> now < t \<and> firesAt off s t \<and> (\<forall>t'. now < t' \<and> firesAt off s t' \<longrightarrow> t \<le> t')"
proof -
  have dt: "dateIn loc day hr mn = (day * 86400 + hr * 3600 + mn * 60 - off) * second" for day hr mn
    using dateIn_fixed assms(2) by blast
  have L: "localSecs loc now - off = now div second" using assms(2) by (simp add: localSecs_def)
  let ?D = "localDay loc now" and ?H = "localHour loc now"
  note b = local_bounds [of loc now] and a = anchor_range [OF assms(1)]
  have done_by: ?thesis if "NextFire loc s now = Some (advanceUntilAfter now build step)"
    "\<And>t. firesAt off s t \<longleftrightarrow> (\<exists>k. t = (c + k * p) * second)" "0 < p" "(c - p) * second \<le> now" "now < build (2 * step)"
    "build 0 = c * second" "build step = (c + p) * second" "build (2 * step) = (c + 2 * p) * second" for build step c p
    using advance_least [OF that(6-8,4,5,3)] that(1,2) by (intro exI [of _ "advanceUntilAfter now build step"]) auto
  consider "s_Frequency s = FrequencyHourly" | "s_Frequency s = FrequencyDaily" | "s_Frequency s = FrequencyWeekly" using assms(3) by blast
  then show ?thesis
  proof cases
    case 1
    have "now < dateIn loc ?D (?H + 1 + 2 * 1) 0" unfolding dt using b L by (intro later) simp
    moreover have "((?D * 24 + ?H + 1) * 3600 - off - 3600) * second \<le> now" using b L by (intro now_floor) simp
    ultimately show ?thesis
      by (intro done_by [where c = "(?D * 24 + ?H + 1) * 3600 - off" and p = 3600 and step = 1
            and build = "\<lambda>offset. dateIn loc ?D (?H + 1 + offset) 0"] fires_hourly [OF 1])
         (simp_all add: NextFire_def 1 dt algebra_simps)
  next
    case 2
    have "now < dateIn loc (?D + 2 * 1) (Hour (s_At s)) (Minute (s_At s))" unfolding dt using b L a
      by (intro later) (simp add: anchorSecs_def)
    moreover have "(?D * 86400 + anchorSecs s - off - 86400) * second \<le> now" using b(1) L a local_parts(2) [of loc now] by (intro now_floor) simp
    ultimately show ?thesis
      by (intro done_by [where c = "?D * 86400 + anchorSecs s - off" and p = 86400 and step = 1
            and build = "\<lambda>offset. dateIn loc (?D + offset) (Hour (s_At s)) (Minute (s_At s))"] fires_daily [OF 2 assms(1)])
         (simp_all add: NextFire_def 2 dt anchorSecs_def algebra_simps)
  next
    case 3
    define ahead where "ahead = (s_Day s - weekdayOf ?D + 7) mod 7"
    have h: "0 \<le> ahead" "ahead \<le> 6" unfolding ahead_def using pos_mod_bound [of 7 "s_Day s - weekdayOf ?D + 7"] by simp_all
    have "now < dateIn loc (?D + ahead + 2 * 7) (Hour (s_At s)) (Minute (s_At s))" unfolding dt using b L a h
      by (intro later) (simp add: anchorSecs_def)
    moreover have "((?D + ahead) * 86400 + anchorSecs s - off - 604800) * second \<le> now"
      using b(1) L a h local_parts(2) [of loc now] by (intro now_floor) simp
    ultimately show ?thesis
      by (intro done_by [where c = "(?D + ahead) * 86400 + anchorSecs s - off" and p = 604800 and step = 7
            and build = "\<lambda>offset. dateIn loc (?D + ahead + offset) (Hour (s_At s)) (Minute (s_At s))"]
            fires_weekly [OF 3 assms(1), of off _ ?D, folded ahead_def])
         (simp_all add: NextFire_def 3 dt anchorSecs_def ahead_def Let_def algebra_simps)
  qed
qed

theorem next_fire_least_witness:
  "\<exists>t. NextFire (\<lambda>u. (0, 0, 0)) \<lparr>s_Frequency = FrequencyWeekly, s_At = \<lparr>Hour = 4, Minute = 30\<rparr>, s_Day = 0, s_Interval = 0,
      s_ScanOnStart = False\<rparr> (50000 * second) = Some t
    \<and> firesAt 0 \<lparr>s_Frequency = FrequencyWeekly, s_At = \<lparr>Hour = 4, Minute = 30\<rparr>, s_Day = 0, s_Interval = 0, s_ScanOnStart = False\<rparr> t"
  using next_fire_least [of "\<lparr>s_Frequency = FrequencyWeekly, s_At = \<lparr>Hour = 4, Minute = 30\<rparr>, s_Day = 0, s_Interval = 0, s_ScanOnStart = False\<rparr>"
      "\<lambda>u. (0, 0, 0)" 0 "50000 * second"]
  by (auto simp: schedule_ok_def offsetAt_def)

end
