(* ===== verification/LrcNormalize.thy ===== *)
theory LrcNormalize
  imports Models "HOL-Library.Multiset"
begin

text \<open>
  Package \<open>internal/lrcnormalize\<close>: the expansion of LRC lines that stack several timestamps. The
  regular expression \<open>tsRe\<close> is the matcher \<open>tsMatch\<close>: every part of it is delimited by the
  character that follows, so a match is unique. Code points 91 and 93 are the brackets, 58 the colon,
  46 the dot, 10 and 13 the line ends. \<open>sort.SliceStable\<close> is the insertion sort \<open>stableSort\<close>: for
  times that are not NaN both give the one stable ordering. Shown: the rewrite of a body is final and loses
  no tag and no cue, and an expanded track is sorted, free of embedded timestamps and final.
\<close>

section \<open>Definitions\<close>

type_synonym stampParts = "gotext \<times> gotext \<times> gotext"

definition nextIs :: "rune \<Rightarrow> gotext \<Rightarrow> bool" where
  "nextIs c s \<longleftrightarrow> s \<noteq> [] \<and> hd s = c"

text \<open>The optional fraction and the closing bracket.\<close>

definition tsTail :: "gotext \<Rightarrow> (gotext \<times> gotext) option" where
  "tsTail v =
     (if nextIs 93 v then Some ([], tl v)
      else if nextIs 46 v \<or> nextIs 58 v
        then (let f = takeWhile isDigit (tl v); w = dropWhile isDigit (tl v)
              in if 1 \<le> length f \<and> length f \<le> 3 \<and> nextIs 93 w then Some (f, tl w) else None)
      else None)"

definition tsMatch :: "gotext \<Rightarrow> (stampParts \<times> gotext) option" where
  "tsMatch s =
     (if \<not> nextIs 91 s then None
      else let m = takeWhile isDigit (tl s); r = dropWhile isDigit (tl s)
           in if length m < 1 \<or> 4 < length m \<or> \<not> nextIs 58 r then None
              else let sec = take 2 (tl r); v = drop 2 (tl r)
                   in if length sec \<noteq> 2 \<or> \<not> (\<forall>c \<in> set sec. isDigit c) then None
                      else case tsTail v of None \<Rightarrow> None | Some (f, rest) \<Rightarrow> Some ((m, sec, f), rest))"

definition normalizeHundredths :: "gotext \<Rightarrow> int" where
  "normalizeHundredths fr =
     (if length fr = 0 then 0
      else if length fr = 1 then int (atoiDigits fr) * 10
      else if length fr = 2 then int (atoiDigits fr)
      else int (atoiDigits (take 2 fr)))"

definition newCue :: "stampParts \<Rightarrow> gotext \<Rightarrow> Lines" where
  "newCue parts text =
     (case parts of (mi, sec, fr) \<Rightarrow>
        (let m = int (atoiDigits mi); s = int (atoiDigits sec); h = normalizeHundredths fr
         in \<lparr>Text = text, LTime = \<lparr>Total = fadd (fofInt (m * 60 + s)) (fdiv (fofInt h) (fofInt 100)),
              Minutes = m, Seconds = s, Hundredths = h\<rparr>\<rparr>))"

definition stampSeconds :: "stampParts \<Rightarrow> float64" where
  "stampSeconds parts =
     (case parts of (mi, sec, fr) \<Rightarrow>
        (let total = fofInt (int (atoiDigits mi) * 60 + int (atoiDigits sec))
         in if fr \<noteq> [] then fadd total (fdiv (fofInt (int (atoiDigits fr))) (fofInt (10 ^ length fr))) else total))"

fun insertStable :: "('a \<Rightarrow> 'a \<Rightarrow> bool) \<Rightarrow> 'a \<Rightarrow> 'a list \<Rightarrow> 'a list" where
  "insertStable lt x [] = [x]"
| "insertStable lt x (y # ys) = (if lt y x then y # insertStable lt x ys else x # y # ys)"

definition stableSort :: "('a \<Rightarrow> 'a \<Rightarrow> bool) \<Rightarrow> 'a list \<Rightarrow> 'a list" where
  "stableSort lt xs = foldr (insertStable lt) xs []"

definition cueLess :: "Lines \<Rightarrow> Lines \<Rightarrow> bool" where
  "cueLess a b \<longleftrightarrow> flt (Total (LTime a)) (Total (LTime b))"

definition sortCues :: "Lines list \<Rightarrow> Lines list" where
  "sortCues cues = stableSort cueLess cues"

lemma nextIs_iff: "nextIs c s \<longleftrightarrow> (\<exists>t. s = c # t)"
  by (cases s) (auto simp: nextIs_def)

text \<open>A match is a prefix of the text, and it matches the same in front of any other text.\<close>

definition stampPrefix :: "gotext \<Rightarrow> bool" where
  "stampPrefix raw \<longleftrightarrow> raw \<noteq> [] \<and> last raw = 93 \<and> (\<forall>c \<in> set raw. 46 \<le> c)"

lemma digits_delimited:
  assumes "\<forall>c \<in> set f. isDigit c" and "\<not> isDigit d"
  shows "takeWhile isDigit (f @ d # t) = f \<and> dropWhile isDigit (f @ d # t) = d # t"
  using assms by (induction f) auto

lemma tsTail_prefix:
  assumes "tsTail v = Some (f, rest)"
  shows "\<exists>u. v = u @ rest \<and> stampPrefix u \<and> (\<forall>t. tsTail (u @ t) = Some (f, t))"
proof (cases "nextIs 93 v")
  case True
  then show ?thesis
    using assms by (intro exI [of _ "[93]"]) (auto simp: tsTail_def nextIs_iff stampPrefix_def)
next
  case False
  then obtain d w where v: "v = d # w" "d = 46 \<or> d = 58" and
    f: "f = takeWhile isDigit w" "1 \<le> length f" "length f \<le> 3" "dropWhile isDigit w = 93 # rest"
    using assms by (auto simp: tsTail_def nextIs_iff Let_def split: if_splits)
  have w: "w = f @ 93 # rest" using takeWhile_dropWhile_id [of isDigit w] f(1,4) by simp
  have dig: "\<forall>c \<in> set f. isDigit c" using f(1) by (auto dest: set_takeWhileD)
  have "\<not> isDigit 93" by (simp add: isDigit_def)
  note dl = digits_delimited [OF dig this]
  have "tsTail ((d # f @ [93]) @ t) = Some (f, t)" for t
    using v(2) f(2,3) dl [of t] by (auto simp: tsTail_def nextIs_iff Let_def)
  moreover have "stampPrefix (d # f @ [93])" using dig v(2) by (auto simp: stampPrefix_def isDigit_def)
  ultimately show ?thesis using v(1) w by (intro exI [of _ "d # f @ [93]"]) simp
qed

lemma tsMatch_prefix:
  assumes "tsMatch s = Some (p, rest)"
  shows "\<exists>raw. s = raw @ rest \<and> stampPrefix raw \<and> (\<forall>t. tsMatch (raw @ t) = Some (p, t))"
proof -
  obtain x where s: "s = 91 # x" using assms by (auto simp: tsMatch_def nextIs_iff split: if_splits)
  define m where "m = takeWhile isDigit x"
  from assms obtain y where y: "dropWhile isDigit x = 58 # y" and m: "m \<noteq> []" "length m \<le> 4"
    by (auto simp: tsMatch_def s nextIs_iff m_def Let_def split: if_splits)
  define sec where "sec = take 2 y"
  from assms y m obtain f where sec: "length sec = 2" "\<forall>c \<in> set sec. isDigit c" and
    tail: "tsTail (drop 2 y) = Some (f, rest)" and p: "p = (m, sec, f)"
    by (auto simp: tsMatch_def s nextIs_iff Let_def sec_def simp flip: m_def split: if_splits option.splits)
  from tsTail_prefix [OF tail] obtain u where u: "drop 2 y = u @ rest" "stampPrefix u" "\<And>t. tsTail (u @ t) = Some (f, t)"
    by blast
  have x: "x = m @ 58 # sec @ u @ rest"
    using takeWhile_dropWhile_id [of isDigit x] append_take_drop_id [of 2 y] by (simp add: y m_def sec_def flip: u(1))
  have dig: "\<forall>c \<in> set m. isDigit c" by (auto simp: m_def dest: set_takeWhileD)
  have "\<not> isDigit 58" by (simp add: isDigit_def)
  note dl = digits_delimited [OF dig this]
  have "tsMatch ((91 # m @ 58 # sec @ u) @ t) = Some (p, t)" for t
    using dl [of "sec @ u @ t"] m sec u(3) by (simp add: tsMatch_def nextIs_def Let_def p Suc_le_eq)
  moreover have "stampPrefix (91 # m @ 58 # sec @ u)"
    using u(2) dig sec(2) by (auto simp: stampPrefix_def isDigit_def)
  ultimately show ?thesis using s x by (intro exI [of _ "91 # m @ 58 # sec @ u"]) simp
qed

lemma tsMatch_length: "tsMatch s = Some (p, rest) \<Longrightarrow> length rest < length s"
  using tsMatch_prefix [of s p rest] by (auto simp: stampPrefix_def)

lemma dropWhile_shorter: "dropWhile P xs = y # ys \<Longrightarrow> length ys < length xs"
  using length_dropWhile_le [of P xs] by simp

lemma trimSpace_length: "length (trimSpace s) \<le> length s"
  using length_dropWhile_le [of isSpace s] length_dropWhile_le [of isSpace "rev (dropWhile isSpace s)"]
  by (simp add: trimSpace_def)

text \<open>The leading stamps of a line and what follows them, trimmed after each stamp or not.\<close>

function stampsTrimmed :: "gotext \<Rightarrow> stampParts list \<times> gotext" where
  "stampsTrimmed s = (case tsMatch s of None \<Rightarrow> ([], s)
     | Some (p, rest) \<Rightarrow> (let (ps, t) = stampsTrimmed (trimSpace rest) in (p # ps, t)))"
  by auto
termination
  by (relation "measure length") (auto intro: le_less_trans [OF trimSpace_length] tsMatch_length)

declare stampsTrimmed.simps [simp del]

definition expandLine :: "gotext \<Rightarrow> Lines list" where
  "expandLine raw = (let (ps, rest) = stampsTrimmed raw in map (\<lambda>p. newCue p rest) ps)"

record Tag =
  tag_Key :: gotext
  tag_Value :: gotext
  tag_Raw :: gotext

definition parseTag :: "gotext \<Rightarrow> Tag option" where
  "parseTag line =
     (let s = trimSpace line
      in if \<not> nextIs 91 s \<or> last s \<noteq> 93 then None
         else let inner = butlast (tl s); key = takeWhile (\<lambda>c. c \<noteq> 58) inner
              in if 58 \<notin> set inner \<or> key = [] then None
                 else if isDigit (hd key) then None
                 else Some \<lparr>tag_Key = key, tag_Value = tl (dropWhile (\<lambda>c. c \<noteq> 58) inner), tag_Raw = line\<rparr>)"

text \<open>\<open>splitLines\<close>: cut at every line feed, with a carriage return before it.\<close>

definition stripCR :: "gotext \<Rightarrow> gotext" where
  "stripCR s = (if s \<noteq> [] \<and> last s = 13 then butlast s else s)"

function splitLines :: "gotext \<Rightarrow> gotext list" where
  "splitLines body = (case dropWhile (\<lambda>c. c \<noteq> 10) body of [] \<Rightarrow> [body]
     | _ # rest \<Rightarrow> stripCR (takeWhile (\<lambda>c. c \<noteq> 10) body) # splitLines rest)"
  by auto
termination
  by (relation "measure length") (auto dest: dropWhile_shorter)

declare splitLines.simps [simp del]

record Document =
  Tags :: "Tag list"
  Cues :: "Lines list"

fun parseLines :: "gotext list \<Rightarrow> Document \<Rightarrow> Document" where
  "parseLines [] doc = doc"
| "parseLines (raw # raws) doc =
     (let cues = expandLine raw
      in if cues = []
         then (case parseTag raw of None \<Rightarrow> parseLines raws doc | Some tag \<Rightarrow> parseLines raws (doc\<lparr>Tags := Tags doc @ [tag]\<rparr>))
         else parseLines raws (doc\<lparr>Cues := Cues doc @ cues\<rparr>))"

definition ParseBody :: "gotext \<Rightarrow> Document" where
  "ParseBody body = (let doc = parseLines (splitLines body) \<lparr>Tags = [], Cues = []\<rparr> in doc\<lparr>Cues := sortCues (Cues doc)\<rparr>)"

definition expandCue :: "Lines \<Rightarrow> Lines list" where
  "expandCue line =
     (let embedded = expandLine (Text line)
      in if embedded = [] then [line] else line\<lparr>Text := Text (hd embedded)\<rparr> # embedded)"

definition Expand :: "Lines list \<Rightarrow> Lines list" where
  "Expand lines = sortCues (concat (map expandCue lines))"

record eolSegment =
  seg_content :: gotext
  seg_term :: gotext

function splitKeepEOL :: "gotext \<Rightarrow> eolSegment list" where
  "splitKeepEOL body =
     (if body = [] then []
      else case dropWhile (\<lambda>c. c \<noteq> 10) body of
        [] \<Rightarrow> [\<lparr>seg_content = body, seg_term = []\<rparr>]
      | _ # rest \<Rightarrow>
          (let content = takeWhile (\<lambda>c. c \<noteq> 10) body
           in (if content \<noteq> [] \<and> last content = 13 then \<lparr>seg_content = butlast content, seg_term = [13, 10]\<rparr>
               else \<lparr>seg_content = content, seg_term = [10]\<rparr>) # splitKeepEOL rest))"
  by auto
termination
  by (relation "measure length") (auto dest: dropWhile_shorter)

declare splitKeepEOL.simps [simp del]

text \<open>The adjacent leading stamps, each with its original text, and what follows them.\<close>

function stampsRaw :: "gotext \<Rightarrow> (gotext \<times> float64) list \<times> gotext" where
  "stampsRaw s = (case tsMatch s of None \<Rightarrow> ([], s)
     | Some (p, rest) \<Rightarrow> (let (ps, t) = stampsRaw rest in ((take (length s - length rest) s, stampSeconds p) # ps, t)))"
  by auto
termination by (relation "measure length") (auto intro: tsMatch_length)

declare stampsRaw.simps [simp del]

definition splitStackedLine :: "gotext \<Rightarrow> gotext list option" where
  "splitStackedLine line =
     (let (stamps, rest) = stampsRaw line
      in if length stamps < 2 then None
         else Some (map (\<lambda>(raw, total). raw @ rest) (stableSort (\<lambda>a b. flt (snd a) (snd b)) stamps)))"

text \<open>The output of one source line and whether it changed.\<close>

fun joinWith :: "gotext \<Rightarrow> gotext list \<Rightarrow> gotext" where
  "joinWith sep [] = []"
| "joinWith sep [e] = e"
| "joinWith sep (e # es) = e @ sep @ joinWith sep es"

definition normalizeSegment :: "eolSegment \<Rightarrow> gotext \<times> bool" where
  "normalizeSegment seg =
     (case splitStackedLine (seg_content seg) of
        None \<Rightarrow> (seg_content seg @ seg_term seg, False)
      | Some expanded \<Rightarrow>
          (joinWith (if seg_term seg = [] then [10] else seg_term seg) expanded @ seg_term seg, True))"

definition NormalizeBody :: "gotext \<Rightarrow> gotext \<times> bool" where
  "NormalizeBody body =
     (let outs = map normalizeSegment (splitKeepEOL body)
      in if \<exists>x \<in> set outs. snd x then (concat (map fst outs), True) else (body, False))"

section \<open>Lemmas on stamps\<close>

definition stacked :: "gotext \<Rightarrow> bool" where
  "stacked s \<longleftrightarrow> 2 \<le> length (fst (stampsRaw s))"

lemma stamps_none [simp]: "tsMatch s = None \<Longrightarrow> stampsRaw s = ([], s)" "tsMatch s = None \<Longrightarrow> stampsTrimmed s = ([], s)"
  by (simp_all add: stampsRaw.simps [of s] stampsTrimmed.simps [of s])

lemma stampsRaw_some:
  "tsMatch s = Some (p, rest) \<Longrightarrow> stampsRaw s = ((take (length s - length rest) s, stampSeconds p) # fst (stampsRaw rest), snd (stampsRaw rest))"
  by (simp add: stampsRaw.simps [of s] split_beta)

lemma stampsTrimmed_some:
  "tsMatch s = Some (p, rest) \<Longrightarrow>
   stampsTrimmed s = (p # fst (stampsTrimmed (trimSpace rest)), snd (stampsTrimmed (trimSpace rest)))"
  by (simp add: stampsTrimmed.simps [of s] split_beta)

lemma tsMatch_append: "tsMatch s = Some (p, rest) \<Longrightarrow> tsMatch (s @ t) = Some (p, rest @ t)"
  using tsMatch_prefix [of s p rest] by auto

lemma stampsRaw_append: "length (fst (stampsRaw s)) \<le> length (fst (stampsRaw (s @ t)))"
proof (induction s rule: stampsRaw.induct)
  case (1 s)
  show ?case
  proof (cases "tsMatch s")
    case (Some q)
    obtain p rest where q: "q = (p, rest)" by (cases q)
    show ?thesis using 1 Some by (simp add: q stampsRaw_some stampsRaw_some [OF tsMatch_append])
  qed simp
qed

lemma stacked_append: "stacked s \<Longrightarrow> stacked (s @ t)"
  using stampsRaw_append [of s t] by (simp add: stacked_def)

lemma stampsRaw_rest: "tsMatch (snd (stampsRaw s)) = None"
proof (induction s rule: stampsRaw.induct)
  case (1 s)
  show ?case
  proof (cases "tsMatch s")
    case (Some q)
    obtain p rest where q: "q = (p, rest)" by (cases q)
    show ?thesis using 1 Some by (simp add: q stampsRaw_some)
  qed simp
qed

text \<open>Every stamp a line stacks is a timestamp in front of any text, and a piece of the line.\<close>

definition rawStamp :: "gotext \<times> stampParts \<Rightarrow> bool" where
  "rawStamp x \<longleftrightarrow> stampPrefix (fst x) \<and> (\<forall>t. tsMatch (fst x @ t) = Some (snd x, t))"

lemma stampsRaw_raw:
  "\<exists>rps. fst (stampsRaw s) = map (\<lambda>(raw, p). (raw, stampSeconds p)) rps \<and>
     s = concat (map fst rps) @ snd (stampsRaw s) \<and> (\<forall>x \<in> set rps. rawStamp x)"
proof (induction s rule: stampsRaw.induct)
  case (1 s)
  show ?case
  proof (cases "tsMatch s")
    case (Some q)
    obtain p rest where q: "q = (p, rest)" by (cases q)
    from tsMatch_prefix [of s p rest] Some q obtain raw
      where raw: "s = raw @ rest" "stampPrefix raw" "\<forall>t. tsMatch (raw @ t) = Some (p, t)" by auto
    from 1 Some q obtain rps where
      IH: "fst (stampsRaw rest) = map (\<lambda>(raw, p). (raw, stampSeconds p)) rps"
        "rest = concat (map fst rps) @ snd (stampsRaw rest)" "\<forall>x \<in> set rps. rawStamp x" by blast
    have "take (length s - length rest) s = raw" by (simp add: raw(1))
    moreover have "rawStamp (raw, p)" using raw(2,3) by (simp add: rawStamp_def)
    ultimately show ?thesis using IH Some q raw(1)
      by (intro exI [of _ "(raw, p) # rps"]) (simp add: stampsRaw_some)
  qed simp
qed

lemma rawStamp_single:
  assumes "rawStamp x" and "tsMatch rest = None"
  shows "\<not> stacked (fst x @ rest)"
proof -
  have "tsMatch (fst x @ rest) = Some (snd x, rest)" using assms(1) by (simp add: rawStamp_def)
  from stampsRaw_some [OF this] show ?thesis using assms(2) by (simp add: stacked_def)
qed

lemma mset_insertStable: "mset (insertStable lt x ys) = add_mset x (mset ys)"
  by (induction ys) auto

lemma mset_stableSort [simp]: "mset (stableSort lt xs) = mset xs"
  unfolding stableSort_def by (induction xs) (auto simp: mset_insertStable)

text \<open>The lines a stacked line becomes: one stamp each, no line feed, at least two of them.\<close>

lemma split_stacked_form:
  assumes "splitStackedLine line = Some es"
  obtains rps where "stampsRaw line = (map (\<lambda>(raw, p). (raw, stampSeconds p)) rps, snd (stampsRaw line))"
    "line = concat (map fst rps) @ snd (stampsRaw line)" "\<forall>x \<in> set rps. rawStamp x" "2 \<le> length rps"
    "mset es = mset (map (\<lambda>x. fst x @ snd (stampsRaw line)) rps)"
proof -
  obtain rps where rps: "fst (stampsRaw line) = map (\<lambda>(raw, p). (raw, stampSeconds p)) rps"
    "line = concat (map fst rps) @ snd (stampsRaw line)" "\<forall>x \<in> set rps. rawStamp x"
    using stampsRaw_raw by blast
  from assms have "es = map (\<lambda>x. fst x @ snd (stampsRaw line)) (stableSort (\<lambda>a b. flt (snd a) (snd b)) (fst (stampsRaw line)))"
    and two: "2 \<le> length (fst (stampsRaw line))" by (auto simp: splitStackedLine_def split_beta split: if_splits)
  then have "mset es = image_mset (\<lambda>x. fst x @ snd (stampsRaw line)) (mset (fst (stampsRaw line)))" by simp
  also have "\<dots> = mset (map (\<lambda>x. fst x @ snd (stampsRaw line)) rps)"
    by (simp add: rps(1) split_beta flip: mset_map) (simp add: o_def split_beta)
  finally show ?thesis using that rps two by (simp add: prod_eq_iff)
qed

lemma split_stacked_lines:
  assumes "splitStackedLine line = Some es"
  shows "2 \<le> length es" "\<forall>e \<in> set es. \<not> stacked e" "\<forall>e \<in> set es. set e \<subseteq> set line"
proof -
  from assms obtain rps where rps: "line = concat (map fst rps) @ snd (stampsRaw line)" "\<forall>x \<in> set rps. rawStamp x"
    "2 \<le> length rps" and m: "mset es = mset (map (\<lambda>x. fst x @ snd (stampsRaw line)) rps)"
    by (rule split_stacked_form)
  from m have es: "set es = set (map (\<lambda>x. fst x @ snd (stampsRaw line)) rps)" by (rule mset_eq_setD)
  show "2 \<le> length es" using mset_eq_length [OF m] rps(3) by simp
  show "\<forall>e \<in> set es. \<not> stacked e" using rps(2) stampsRaw_rest [of line] by (simp add: es rawStamp_single)
  have "set (fst x) \<subseteq> set line" if "x \<in> set rps" for x using that by (subst rps(1)) auto
  moreover have "set (snd (stampsRaw line)) \<subseteq> set line" by (subst rps(1)) auto
  ultimately show "\<forall>e \<in> set es. set e \<subseteq> set line" by (auto simp: es)
qed

lemma split_none_iff: "splitStackedLine line = None \<longleftrightarrow> \<not> stacked line"
  by (simp add: splitStackedLine_def stacked_def split_beta not_le)

section \<open>Lemmas on line ends\<close>

lemma upto_LF:
  assumes "(10::rune) \<notin> set c"
  shows "takeWhile (\<lambda>c. c \<noteq> 10) (c @ 10 # rest) = c" "dropWhile (\<lambda>c. c \<noteq> 10) (c @ 10 # rest) = 10 # rest"
    "dropWhile (\<lambda>c. c \<noteq> 10) c = []"
  using assms by (induction c) auto

definition eolOf :: "gotext \<Rightarrow> eolSegment" where
  "eolOf c = (if c \<noteq> [] \<and> last c = 13 then \<lparr>seg_content = butlast c, seg_term = [13, 10]\<rparr>
              else \<lparr>seg_content = c, seg_term = [10]\<rparr>)"

lemma splitKeepEOL_cons:
  "10 \<notin> set c \<Longrightarrow> splitKeepEOL (c @ 10 # rest) = eolOf c # splitKeepEOL rest"
  by (simp add: splitKeepEOL.simps [of "c @ 10 # rest"] upto_LF eolOf_def Let_def)

lemma splitKeepEOL_last:
  "10 \<notin> set c \<Longrightarrow> splitKeepEOL c = (if c = [] then [] else [\<lparr>seg_content = c, seg_term = []\<rparr>])"
  by (simp add: splitKeepEOL.simps [of c] upto_LF)

lemma LF_cases:
  obtains "(10::rune) \<notin> set body" | c rest where "body = c @ 10 # rest" "10 \<notin> set c"
  by (metis in_set_conv_decomp_first)

lemma LF_induct [case_names last line]:
  assumes "\<And>c. (10::rune) \<notin> set c \<Longrightarrow> P c"
    and "\<And>c rest. 10 \<notin> set c \<Longrightarrow> P rest \<Longrightarrow> P (c @ 10 # rest)"
  shows "P body"
proof (induction body rule: length_induct)
  case (1 body)
  show ?case by (rule LF_cases [of body]) (use assms 1 in auto)
qed

definition segText :: "eolSegment \<Rightarrow> gotext" where
  "segText seg = seg_content seg @ seg_term seg"

lemma eolOf_text: "segText (eolOf c) = c @ [10]"
  by (cases c rule: rev_cases) (auto simp: eolOf_def segText_def)

lemma splitKeepEOL_text: "concat (map segText (splitKeepEOL body)) = body"
proof (induction body rule: LF_induct)
  case (last c) then show ?case by (simp add: splitKeepEOL_last segText_def)
next
  case (line c rest) then show ?case by (simp add: splitKeepEOL_cons eolOf_text)
qed

text \<open>A body none of whose lines stacks stamps.\<close>

definition calm :: "gotext \<Rightarrow> bool" where
  "calm body \<longleftrightarrow> (\<forall>seg \<in> set (splitKeepEOL body). \<not> stacked (seg_content seg))"

lemma calm_normalize: "calm body \<Longrightarrow> NormalizeBody body = (body, False)"
  by (auto simp: NormalizeBody_def normalizeSegment_def calm_def split_none_iff split: option.splits)
    (metis option.distinct(1) split_none_iff)

lemma calm_line:
  assumes "10 \<notin> set c" "\<not> stacked c" "calm rest"
  shows "calm (c @ 10 # rest)"
proof -
  have "\<not> stacked (butlast c)" if "c \<noteq> []"
    using assms(2) stacked_append [of "butlast c" "[last c]"] that by auto
  then show ?thesis using assms by (auto simp: calm_def splitKeepEOL_cons eolOf_def)
qed

lemma calm_last: "10 \<notin> set c \<Longrightarrow> \<not> stacked c \<Longrightarrow> calm c"
  by (simp add: calm_def splitKeepEOL_last)

lemma calm_empty [simp]: "calm []"
  by (simp add: calm_def splitKeepEOL.simps)

lemma calm_term:
  assumes "10 \<notin> set c" "\<not> stacked c" "calm rest" "term = [10] \<or> term = [13, 10]"
  shows "calm (c @ term @ rest)"
proof (cases "term = [10]")
  case False
  then have "splitKeepEOL ((c @ [13]) @ 10 # rest) = \<lparr>seg_content = c, seg_term = [13, 10]\<rparr> # splitKeepEOL rest"
    using assms(1) by (subst splitKeepEOL_cons) (simp_all add: eolOf_def)
  then show ?thesis using False assms by (simp add: calm_def)
qed (use assms calm_line in simp)

lemma stacked_nil [simp]: "\<not> stacked []"
  by (simp add: stacked_def tsMatch_def nextIs_def)

lemma calm_join:
  assumes "\<forall>e \<in> set es. 10 \<notin> set e \<and> \<not> stacked e" "calm rest" "term = [10] \<or> term = [13, 10]"
  shows "calm (joinWith term es @ term @ rest)"
  using assms by (induction "term" es rule: joinWith.induct) (simp_all add: calm_term calm_term [of "[]", simplified])

lemma calm_join_last:
  assumes "\<forall>e \<in> set es. 10 \<notin> set e \<and> \<not> stacked e"
  shows "calm (joinWith [10] es)"
  using assms by (induction "[10] :: gotext" es rule: joinWith.induct) (simp_all add: calm_last calm_line)

text \<open>The lines one segment is written as, and the segment as their join.\<close>

definition segLines :: "eolSegment \<Rightarrow> gotext list" where
  "segLines seg = (case splitStackedLine (seg_content seg) of None \<Rightarrow> [seg_content seg] | Some es \<Rightarrow> es)"

lemma normalizeSegment_join:
  "fst (normalizeSegment seg) = joinWith (if seg_term seg = [] then [10] else seg_term seg) (segLines seg) @ seg_term seg"
  by (simp add: normalizeSegment_def segLines_def split: option.split)

lemma segLines_clean:
  "10 \<notin> set (seg_content seg) \<Longrightarrow> \<forall>e \<in> set (segLines seg). 10 \<notin> set e \<and> \<not> stacked e"
  using split_stacked_lines(2,3) [of "seg_content seg"]
  by (auto simp: segLines_def split_none_iff split: option.split) blast

lemma eolOf_clean: "10 \<notin> set c \<Longrightarrow> 10 \<notin> set (seg_content (eolOf c))" "seg_term (eolOf c) = [10] \<or> seg_term (eolOf c) = [13, 10]"
  by (auto simp: eolOf_def dest: in_set_butlastD)

lemma normalized_calm: "calm (concat (map (fst \<circ> normalizeSegment) (splitKeepEOL body)))"
proof (induction body rule: LF_induct)
  case (last c)
  then show ?case by (auto simp: splitKeepEOL_last normalizeSegment_join intro!: calm_join_last segLines_clean)
next
  case (line c rest)
  have "calm (joinWith (seg_term (eolOf c)) (segLines (eolOf c)) @ seg_term (eolOf c) @
      concat (map (fst \<circ> normalizeSegment) (splitKeepEOL rest)))"
    using line eolOf_clean by (intro calm_join segLines_clean)
  then show ?case using line(1) eolOf_clean(2) [of c] by (auto simp: splitKeepEOL_cons normalizeSegment_join [of "eolOf c"] o_def)
qed

lemma normalizeSegment_same: "\<not> snd (normalizeSegment seg) \<Longrightarrow> fst (normalizeSegment seg) = segText seg \<and> \<not> stacked (seg_content seg)"
  by (auto simp: normalizeSegment_def segText_def split: option.splits simp flip: split_none_iff)

lemma NormalizeBody_text: "fst (NormalizeBody body) = concat (map (fst \<circ> normalizeSegment) (splitKeepEOL body))"
proof (cases "\<exists>x \<in> set (splitKeepEOL body). snd (normalizeSegment x)")
  case False
  then have "map (fst \<circ> normalizeSegment) (splitKeepEOL body) = map segText (splitKeepEOL body)"
    using normalizeSegment_same by auto
  moreover have "fst (NormalizeBody body) = body" using False by (simp add: NormalizeBody_def)
  ultimately show ?thesis by (simp only: splitKeepEOL_text)
qed (simp add: NormalizeBody_def o_def)

section \<open>Lemmas on parsing\<close>

definition trimRight :: "gotext \<Rightarrow> gotext" where
  "trimRight s = rev (dropWhile isSpace (rev s))"

lemma stampPrefix_ends: "stampPrefix raw \<Longrightarrow> raw \<noteq> [] \<and> last raw = 93"
  by (simp add: stampPrefix_def)

lemma rawStamp_hd: "rawStamp x \<Longrightarrow> hd (fst x) = 91"
  by (auto simp: rawStamp_def stampPrefix_def tsMatch_def nextIs_def dest: spec [of _ "[]"] split: if_splits)

lemma trimRight_append:
  assumes "xs \<noteq> []" "\<not> isSpace (last xs)"
  shows "trimRight (xs @ r) = xs @ trimRight r"
proof -
  have "dropWhile isSpace (rev xs) = rev xs" using assms by (cases "rev xs") (auto simp: last_rev [symmetric])
  then show ?thesis by (simp add: trimRight_def dropWhile_append)
qed

lemma trimSpace_right: "trimSpace s = trimRight (dropWhile isSpace s)"
  by (simp add: trimSpace_def trimRight_def)

lemma trimSpace_trimRight: "trimSpace (trimRight s) = trimSpace s"
proof (cases "\<forall>c \<in> set s. isSpace c")
  case False
  define sp where "sp = takeWhile isSpace s"
  define w where "w = dropWhile isSpace s"
  have w: "w \<noteq> []" "\<not> isSpace (hd w)" using False hd_dropWhile [of isSpace s] by (auto simp: w_def)
  have s: "s = sp @ w" by (simp add: sp_def w_def)
  obtain h u where hu: "w = h # u" using w(1) by (cases w) auto
  have ns: "\<not> isSpace h" using w hu by simp
  have "trimRight s = sp @ h # trimRight u"
    using trimRight_append [of "sp @ [h]" u] ns by (simp add: s hu)
  moreover have "\<forall>c \<in> set sp. isSpace c" by (auto simp: sp_def dest: set_takeWhileD)
  moreover have "trimRight (trimRight u) = trimRight u"
    by (simp add: trimRight_def)
  ultimately show ?thesis using ns trimRight_append [of "[h]"] by (simp add: trimSpace_right s hu dropWhile_append)
next
  case True
  then have "dropWhile isSpace s = []" "dropWhile isSpace (rev s) = []" by simp_all
  then show ?thesis by (simp only: trimSpace_def trimRight_def rev.simps dropWhile.simps)
qed

lemma run_ends:
  assumes "\<forall>x \<in> set rps. rawStamp x" "rps \<noteq> []"
  shows "concat (map fst rps) \<noteq> [] \<and> hd (concat (map fst rps)) = 91 \<and> last (concat (map fst rps)) = 93"
  using assms
proof (induction rps)
  case (Cons x rps)
  have x: "fst x \<noteq> []" "hd (fst x) = 91" "last (fst x) = 93"
    using Cons.prems(1) rawStamp_hd [of x] stampPrefix_ends [of "fst x"] by (simp_all add: rawStamp_def)
  show ?case by (cases "rps = []") (use x Cons in \<open>auto simp: hd_append\<close>)
qed simp

lemma trimSpace_run:
  assumes "s \<noteq> []" "hd s = 91" "last s = 93"
  shows "trimSpace (s @ r) = s @ trimRight r"
proof -
  have "dropWhile isSpace (s @ r) = s @ r" using assms(1,2) by (cases s) (simp_all add: isSpace_def)
  then show ?thesis using assms by (simp add: trimSpace_right trimRight_append isSpace_def)
qed

lemma stampsTrimmed_run:
  assumes "\<forall>x \<in> set rps. rawStamp x" "rps \<noteq> []" "tsMatch (trimSpace r) = None"
  shows "stampsTrimmed (concat (map fst rps) @ r) = (map snd rps, trimSpace r)"
  using assms
proof (induction rps arbitrary: r)
  case (Cons x rps)
  let ?s = "concat (map fst rps) @ r"
  have m: "tsMatch (fst x @ ?s) = Some (snd x, ?s)" using Cons.prems(1) by (simp add: rawStamp_def)
  show ?case
  proof (cases "rps = []")
    case True
    then show ?thesis using m Cons.prems by (simp add: stampsTrimmed_some)
  next
    case False
    then have "trimSpace ?s = concat (map fst rps) @ trimRight r"
      using run_ends [of rps] Cons.prems(1) by (intro trimSpace_run) simp_all
    then show ?thesis
      using stampsTrimmed_some [OF m] Cons.IH [of "trimRight r"] Cons.prems False by (simp add: trimSpace_trimRight)
  qed
qed simp

text \<open>What a line contributes to the document.\<close>

definition lineTags :: "gotext \<Rightarrow> Tag list" where
  "lineTags raw = (if expandLine raw = [] then (case parseTag raw of None \<Rightarrow> [] | Some tag \<Rightarrow> [tag]) else [])"

definition bodyTags :: "gotext \<Rightarrow> Tag list" where
  "bodyTags body = concat (map lineTags (splitLines body))"

definition bodyCues :: "gotext \<Rightarrow> Lines list" where
  "bodyCues body = concat (map expandLine (splitLines body))"

lemma parseLines_contrib:
  "parseLines raws doc = doc\<lparr>Tags := Tags doc @ concat (map lineTags raws), Cues := Cues doc @ concat (map expandLine raws)\<rparr>"
  by (induction raws arbitrary: doc) (auto simp: Let_def lineTags_def split: option.split)

lemma ParseBody_contrib: "ParseBody body = \<lparr>Tags = bodyTags body, Cues = sortCues (bodyCues body)\<rparr>"
  by (simp add: ParseBody_def parseLines_contrib bodyTags_def bodyCues_def)

lemma splitLines_line: "10 \<notin> set c \<Longrightarrow> splitLines (c @ 10 # rest) = stripCR c # splitLines rest"
  by (simp add: splitLines.simps [of "c @ 10 # rest"] upto_LF)

lemma splitLines_last: "10 \<notin> set c \<Longrightarrow> splitLines c = [c]"
  by (simp add: splitLines.simps [of c] upto_LF)

lemma splitLines_crlf: "10 \<notin> set c \<Longrightarrow> splitLines (c @ 13 # 10 # rest) = c # splitLines rest"
  using splitLines_line [of "c @ [13]" rest] by (simp add: stripCR_def)

lemma splitLines_join:
  assumes "es \<noteq> []" "\<forall>e \<in> set es. 10 \<notin> set e"
  shows "splitLines (joinWith [10] es @ 10 # rest) = map stripCR es @ splitLines rest"
    "splitLines (joinWith [13, 10] es @ 13 # 10 # rest) = es @ splitLines rest"
    "splitLines (joinWith [10] es) = map stripCR (butlast es) @ [last es]"
  using assms by (induction es rule: induct_list012) (simp_all add: splitLines_line splitLines_crlf splitLines_last)

text \<open>A carriage return at the end of a line that starts with one timestamp is trimmed away.\<close>

lemma trimSpace_stripCR: "trimSpace (stripCR s) = trimSpace s"
proof (cases "s \<noteq> [] \<and> last s = 13")
  case True
  then obtain u where s: "s = u @ [13]" by (metis append_butlast_last_id)
  have "trimRight s = trimRight u" by (simp add: s trimRight_def isSpace_def)
  then have "trimSpace s = trimSpace u" by (metis trimSpace_trimRight)
  then show ?thesis by (simp add: s stripCR_def)
qed (auto simp: stripCR_def)

lemma expand_single:
  assumes "rawStamp x" "tsMatch (trimSpace r) = None"
  shows "expandLine (fst x @ r) = [newCue (snd x) (trimSpace r)]"
    "expandLine (stripCR (fst x @ r)) = [newCue (snd x) (trimSpace r)]"
proof -
  show *: "expandLine (fst x @ r) = [newCue (snd x) (trimSpace r)]"
    using stampsTrimmed_run [of "[x]" r] assms by (simp add: expandLine_def)
  have "stripCR (fst x @ r) = fst x @ stripCR r"
    using assms(1) by (cases "r = []") (auto simp: stripCR_def rawStamp_def stampPrefix_def butlast_append)
  then show "expandLine (stripCR (fst x @ r)) = [newCue (snd x) (trimSpace r)]"
    using stampsTrimmed_run [of "[x]" "stripCR r"] assms by (simp add: expandLine_def trimSpace_stripCR)
qed

text \<open>The lines a stacked line becomes carry its cues, whether or not a carriage return is cut off them.\<close>

definition sameButCR :: "gotext list \<Rightarrow> gotext list \<Rightarrow> bool" where
  "sameButCR = list_all2 (\<lambda>e e'. e' = e \<or> e' = stripCR e)"

lemma sameButCR_map:
  assumes "sameButCR es es'" "\<And>e. e \<in> set es \<Longrightarrow> g (stripCR e) = g e"
  shows "map g es' = map g es"
  using assms unfolding sameButCR_def by (induction rule: list_all2_induct) auto

lemma stacked_cues:
  assumes "splitStackedLine k = Some es" "tsMatch (trimSpace (snd (stampsRaw k))) = None" "sameButCR es es'"
  shows "mset (concat (map expandLine es')) = mset (expandLine k) \<and> concat (map lineTags es') = lineTags k"
proof -
  let ?r = "snd (stampsRaw k)"
  from assms(1) obtain rps where rps: "k = concat (map fst rps) @ ?r" "\<forall>x \<in> set rps. rawStamp x" "2 \<le> length rps"
    and es: "mset es = mset (map (\<lambda>x. fst x @ ?r) rps)" by (rule split_stacked_form)
  have one: "\<exists>q. expandLine e = [q] \<and> expandLine (stripCR e) = [q]" if "e \<in> set es" for e
  proof -
    from that mset_eq_setD [OF es] obtain x where x: "x \<in> set rps" "e = fst x @ ?r" by auto
    then have "rawStamp x" using rps(2) by blast
    from expand_single [OF this assms(2)] show ?thesis by (simp add: x(2))
  qed
  have "map expandLine es' = map expandLine es" using one by (intro sameButCR_map [OF assms(3)]) fastforce
  moreover have "map expandLine es = map (\<lambda>e. [hd (expandLine e)]) es" using one by fastforce
  ultimately have "concat (map expandLine es') = map (hd \<circ> expandLine) es" by (simp add: o_def)
  then have "mset (concat (map expandLine es')) = image_mset (hd \<circ> expandLine) (mset es)" by simp
  also have "\<dots> = mset (map (\<lambda>x. newCue (snd x) (trimSpace ?r)) rps)"
    using rps(2) assms(2) by (auto simp: es expand_single simp flip: mset_map intro!: arg_cong [where f = mset])
  also have "\<dots> = mset (expandLine k)"
    using stampsTrimmed_run [of rps ?r] rps assms(2) by (fastforce simp: expandLine_def o_def)
  finally have cues: "mset (concat (map expandLine es')) = mset (expandLine k)" .
  have "es \<noteq> []" using split_stacked_lines(1) [OF assms(1)] by auto
  then have "map (hd \<circ> expandLine) es \<noteq> []" by simp
  with cues \<open>concat (map expandLine es') = _\<close> have "expandLine k \<noteq> []" by (metis mset_zero_iff)
  moreover have "lineTags e = [] \<and> lineTags (stripCR e) = []" if "e \<in> set es" for e
    using one [OF that] by (auto simp: lineTags_def)
  moreover from this have "map lineTags es' = map lineTags es" by (intro sameButCR_map [OF assms(3)]) simp
  ultimately show ?thesis using cues by (simp add: lineTags_def [of k])
qed

text \<open>The rewritten text of a line and the text itself contribute the same to a document.\<close>

lemma segLines_nonempty: "segLines seg \<noteq> []"
  using split_stacked_lines(1) [of "seg_content seg"] by (auto simp: segLines_def split: option.split)

lemma segment_contrib:
  assumes "sameButCR (segLines seg) es'"
    and "tsMatch (trimSpace (snd (stampsRaw (seg_content seg)))) = None"
    and "\<not> stacked (seg_content seg) \<Longrightarrow> es' = [seg_content seg]"
  shows "mset (concat (map expandLine es')) = mset (expandLine (seg_content seg)) \<and>
    concat (map lineTags es') = lineTags (seg_content seg)"
proof (cases "splitStackedLine (seg_content seg)")
  case None
  then show ?thesis using assms(3) by (simp add: split_none_iff)
next
  case (Some es)
  then show ?thesis using stacked_cues [OF Some assms(2)] assms(1) by (simp add: segLines_def)
qed

lemma eolOf_stripCR: "seg_content (eolOf c) = stripCR c"
  by (simp add: eolOf_def stripCR_def)

lemma sameButCR_intros: "sameButCR es es" "sameButCR es (map stripCR es)"
  by (simp_all add: sameButCR_def list_all2_conv_all_nth)

lemma sameButCR_butlast: "es \<noteq> [] \<Longrightarrow> sameButCR es (map stripCR (butlast es) @ [last es])"
  by (cases es rule: rev_cases) (auto simp: sameButCR_def list_all2_conv_all_nth nth_append)

lemma segLines_calm: "\<not> stacked (seg_content seg) \<Longrightarrow> segLines seg = [seg_content seg]"
  by (simp add: segLines_def flip: split_none_iff)

definition rewritten :: "gotext \<Rightarrow> gotext" where
  "rewritten body = concat (map (fst \<circ> normalizeSegment) (splitKeepEOL body))"

lemma rewritten_line:
  assumes "10 \<notin> set c"
  shows "\<exists>es'. splitLines (rewritten (c @ 10 # rest)) = es' @ splitLines (rewritten rest) \<and>
    sameButCR (segLines (eolOf c)) es' \<and> (\<not> stacked (stripCR c) \<longrightarrow> es' = [stripCR c])"
proof -
  let ?seg = "eolOf c"
  have o: "rewritten (c @ 10 # rest) = joinWith (seg_term ?seg) (segLines ?seg) @ seg_term ?seg @ rewritten rest"
    using assms eolOf_clean(2) [of c]
    by (auto simp: rewritten_def splitKeepEOL_cons normalizeSegment_join [of "eolOf c"] o_def)
  have "\<forall>e \<in> set (segLines ?seg). 10 \<notin> set e"
    using segLines_clean [of ?seg] eolOf_clean(1) [OF assms] by blast
  note sj = splitLines_join [OF segLines_nonempty this]
  define es' where "es' = (if seg_term ?seg = [10] then map stripCR (segLines ?seg) else segLines ?seg)"
  have "splitLines (rewritten (c @ 10 # rest)) = es' @ splitLines (rewritten rest)"
    using eolOf_clean(2) [of c] sj by (auto simp: o es'_def)
  moreover have "sameButCR (segLines ?seg) es'" by (simp add: es'_def sameButCR_intros)
  moreover have "es' = [stripCR c]" if "\<not> stacked (stripCR c)"
    using segLines_calm [of ?seg] that by (auto simp: es'_def eolOf_stripCR) (auto simp: eolOf_def stripCR_def split: if_splits)
  ultimately show ?thesis by blast
qed

lemma rewritten_last:
  assumes "10 \<notin> set c" "c \<noteq> []"
  shows "\<exists>es'. splitLines (rewritten c) = es' \<and> sameButCR (segLines \<lparr>seg_content = c, seg_term = []\<rparr>) es' \<and>
    (\<not> stacked c \<longrightarrow> es' = [c])"
proof -
  let ?seg = "\<lparr>seg_content = c, seg_term = []\<rparr>"
  have o: "rewritten c = joinWith [10] (segLines ?seg)"
    using assms by (simp add: rewritten_def splitKeepEOL_last normalizeSegment_join)
  have "\<forall>e \<in> set (segLines ?seg). 10 \<notin> set e" using segLines_clean [of ?seg] assms by simp
  note sj = splitLines_join [OF segLines_nonempty this]
  show ?thesis
    using sameButCR_butlast [OF segLines_nonempty] segLines_calm [of ?seg] by (simp add: o sj(3))
qed

lemma body_contrib:
  assumes "\<forall>seg \<in> set (splitKeepEOL body). tsMatch (trimSpace (snd (stampsRaw (seg_content seg)))) = None"
  shows "mset (bodyCues (rewritten body)) = mset (bodyCues body) \<and> bodyTags (rewritten body) = bodyTags body"
  using assms
proof (induction body rule: LF_induct)
  case (last c)
  show ?case
  proof (cases "c = []")
    case False
    from rewritten_last [OF last(1) False] obtain es' where
      es: "splitLines (rewritten c) = es'" "sameButCR (segLines \<lparr>seg_content = c, seg_term = []\<rparr>) es'"
        "\<not> stacked c \<longrightarrow> es' = [c]" by blast
    then show ?thesis using segment_contrib [OF es(2)] last False
      by (simp add: bodyCues_def bodyTags_def splitLines_last splitKeepEOL_last)
  qed (simp add: rewritten_def splitKeepEOL.simps)
next
  case (line c rest)
  from rewritten_line [OF line(1), of rest] obtain es' where
    es: "splitLines (rewritten (c @ 10 # rest)) = es' @ splitLines (rewritten rest)"
      "sameButCR (segLines (eolOf c)) es'" "\<not> stacked (stripCR c) \<longrightarrow> es' = [stripCR c]" by blast
  then show ?case using segment_contrib [OF es(2)] line
    by (simp add: bodyCues_def bodyTags_def splitLines_line splitKeepEOL_cons eolOf_stripCR)
qed

section \<open>Lemmas on the order of cues\<close>

text \<open>Apart from NaN, sorting leaves no inversion and keeps a list that has none.\<close>

definition noNaN :: "Lines list \<Rightarrow> bool" where
  "noNaN cues \<longleftrightarrow> (\<forall>c \<in> set cues. Total (LTime c) \<noteq> NaN)"

definition inOrder :: "Lines list \<Rightarrow> bool" where
  "inOrder cues \<longleftrightarrow> sorted_wrt (\<lambda>a b. \<not> cueLess b a) cues"

lemma set_insertStable [simp]: "set (insertStable lt x ys) = insert x (set ys)"
  by (induction ys) auto

lemma set_sort [simp]: "set (sortCues cues) = set cues"
  unfolding sortCues_def stableSort_def by (induction cues) auto

lemma cueLess_asym: "cueLess a b \<Longrightarrow> \<not> cueLess b a"
  by (simp add: cueLess_def flt_asym)

lemma cueLess_negTrans: "noNaN [a, b, c] \<Longrightarrow> \<not> cueLess b a \<Longrightarrow> \<not> cueLess c b \<Longrightarrow> \<not> cueLess c a"
  using flt_negTrans [of "Total (LTime a)" "Total (LTime b)" "Total (LTime c)"] by (simp add: cueLess_def noNaN_def)

lemma insert_inOrder:
  "inOrder ys \<Longrightarrow> noNaN (x # ys) \<Longrightarrow> inOrder (insertStable cueLess x ys)"
proof (induction ys)
  case (Cons y ys)
  show ?case
  proof (cases "cueLess y x")
    case True
    then show ?thesis using Cons by (auto simp: inOrder_def noNaN_def dest: cueLess_asym)
  next
    case False
    then have "\<not> cueLess z x" if "z \<in> set ys" for z
      using Cons.prems that cueLess_negTrans [of x y z] by (auto simp: inOrder_def noNaN_def)
    then show ?thesis using False Cons.prems by (auto simp: inOrder_def)
  qed
qed (simp add: inOrder_def)

lemma sort_inOrder: "noNaN cues \<Longrightarrow> inOrder (sortCues cues)"
proof (induction cues)
  case (Cons c cues)
  then have "noNaN (c # sortCues cues)" "inOrder (sortCues cues)" by (simp_all add: noNaN_def)
  then show ?case using insert_inOrder by (simp add: sortCues_def stableSort_def)
qed (simp add: sortCues_def stableSort_def inOrder_def)

lemma sort_id: "inOrder cues \<Longrightarrow> sortCues cues = cues"
proof (induction cues)
  case (Cons c cues)
  then show ?case by (cases cues) (auto simp: sortCues_def stableSort_def inOrder_def)
qed (simp add: sortCues_def stableSort_def)

lemma newCue_timed: "Total (LTime (newCue p text)) \<noteq> NaN"
proof -
  obtain mi sec fr where p: "p = (mi, sec, fr)" by (cases p)
  have "0 \<le> normalizeHundredths fr" by (simp add: normalizeHundredths_def)
  then have "fnonneg (Total (LTime (newCue p text)))"
    using fofInt_exact [of 100] by (simp add: newCue_def p Let_def fadd_nonneg fdiv_nonneg fofInt_nonneg)
  then show ?thesis by (auto simp: fnonneg_def)
qed

text \<open>No text of an expanded line starts with a timestamp.\<close>

lemma stampsTrimmed_rest: "tsMatch (snd (stampsTrimmed s)) = None"
proof (induction s rule: stampsTrimmed.induct)
  case (1 s)
  show ?case
  proof (cases "tsMatch s")
    case (Some q)
    obtain p rest where q: "q = (p, rest)" by (cases q)
    show ?thesis using 1 Some by (simp add: q stampsTrimmed_some)
  qed simp
qed

lemma expandLine_nil_iff: "expandLine s = [] \<longleftrightarrow> tsMatch s = None"
  by (cases "tsMatch s") (auto simp: expandLine_def split_beta stampsTrimmed_some)

lemma expandLine_clean: "c \<in> set (expandLine s) \<Longrightarrow> tsMatch (Text c) = None \<and> Total (LTime c) \<noteq> NaN"
  using stampsTrimmed_rest [of s] newCue_timed
  by (auto simp: expandLine_def split_beta) (auto simp: newCue_def split_beta Let_def)

lemma expandCue_clean:
  assumes "c \<in> set (expandCue l)" "Total (LTime l) \<noteq> NaN"
  shows "tsMatch (Text c) = None \<and> Total (LTime c) \<noteq> NaN"
proof (cases "expandLine (Text l) = []")
  case False
  then have "hd (expandLine (Text l)) \<in> set (expandLine (Text l))" by simp
  from expandLine_clean [OF this] show ?thesis
    using assms False expandLine_clean by (auto simp: expandCue_def Let_def)
qed (use assms in \<open>auto simp: expandCue_def expandLine_nil_iff\<close>)

lemma Expand_id:
  assumes "inOrder ls" "\<forall>l \<in> set ls. tsMatch (Text l) = None"
  shows "Expand ls = ls"
proof -
  have "map expandCue ls = map (\<lambda>l. [l]) ls" using assms(2) by (auto simp: expandCue_def expandLine_nil_iff)
  then have "concat (map expandCue ls) = concat (map (\<lambda>l. [l]) ls)" by (simp only:)
  then show ?thesis using assms(1) by (simp add: Expand_def sort_id)
qed

section \<open>Properties\<close>

text \<open>
  A rewrite is final. Normalizing the output of \<open>NormalizeBody\<close> changes nothing and reports that
  nothing changed, whatever the body, mixed line ends and a last line without one included; and
  a pass reports a change exactly when some line of the body stacks two timestamps.
\<close>
theorem normalize_idempotent:
  "NormalizeBody (fst (NormalizeBody body)) = (fst (NormalizeBody body), False) \<and>
   (snd (NormalizeBody body) \<longleftrightarrow>
     (\<exists>seg \<in> set (splitKeepEOL body). 2 \<le> length (fst (stampsRaw (seg_content seg)))))"
  using normalized_calm [of body]
  by (auto simp: calm_normalize NormalizeBody_text)
    (auto simp: NormalizeBody_def normalizeSegment_def split_none_iff stacked_def split: option.splits if_splits)

lemmas lrc_eval = tsMatch_def tsTail_def nextIs_def Let_def isDigit_def lit_def trimSpace_def isSpace_def

text \<open>
  C38: a rewrite loses no cue and no tag. When no line has, behind its adjacent timestamps, another
  timestamp set off by whitespace, the rewritten body parses to the tags of the original body, in
  order, and to the same cues, each with the same time and text and as often as before, a last line that ends in
  a carriage return included.
\<close>
theorem normalize_keeps_cues:
  assumes "\<forall>seg \<in> set (splitKeepEOL body). tsMatch (trimSpace (snd (stampsRaw (seg_content seg)))) = None"
  shows "Tags (ParseBody (fst (NormalizeBody body))) = Tags (ParseBody body) \<and>
    mset (Cues (ParseBody (fst (NormalizeBody body)))) = mset (Cues (ParseBody body))"
  using body_contrib [OF assms]
  by (simp add: ParseBody_contrib sortCues_def NormalizeBody_text flip: rewritten_def)

theorem normalize_keeps_cues_witness:
  "mset (Cues (ParseBody (fst (NormalizeBody (lit ''[ti:x]'' @ [13, 10] @ lit ''[00:02.50][00:01] la'' @ [13])))))
   = mset (Cues (ParseBody (lit ''[ti:x]'' @ [13, 10] @ lit ''[00:02.50][00:01] la'' @ [13])))"
proof -
  have "\<forall>seg \<in> set (splitKeepEOL (lit ''[ti:x]'' @ [13, 10] @ lit ''[00:02.50][00:01] la'' @ [13])).
      tsMatch (trimSpace (snd (stampsRaw (seg_content seg)))) = None"
    by (simp add: splitKeepEOL.simps stampsRaw.simps lrc_eval)
  from normalize_keeps_cues [OF this] show ?thesis by blast
qed

text \<open>
  Expansion is final, and the two ways to a one-stamp track agree. For cues whose times are
  numbers, expanding an expanded track changes nothing, its cues are in the order of time and none of
  their texts starts with a timestamp, and every time of the original track is still there; and the
  cues a body parses to are left as they are by \<open>Expand\<close>.
\<close>
theorem expand_idempotent:
  assumes "\<forall>l \<in> set ls. Total (LTime l) \<noteq> NaN"
  shows "Expand (Expand ls) = Expand ls \<and>
    sorted_wrt (\<lambda>a b. \<not> cueLess b a) (Expand ls) \<and>
    (\<forall>c \<in> set (Expand ls). tsMatch (Text c) = None) \<and>
    LTime ` set ls \<subseteq> LTime ` set (Expand ls) \<and>
    Expand (Cues (ParseBody body)) = Cues (ParseBody body)"
proof -
  have nn: "noNaN (concat (map expandCue ls))" and clean: "\<forall>c \<in> set (Expand ls). tsMatch (Text c) = None"
    using assms expandCue_clean by (fastforce simp: noNaN_def Expand_def)+
  have ord: "inOrder (Expand ls)" using sort_inOrder [OF nn] by (simp add: Expand_def)
  have parsed: "noNaN (bodyCues body)" "\<forall>c \<in> set (sortCues (bodyCues body)). tsMatch (Text c) = None"
    using expandLine_clean by (fastforce simp: noNaN_def bodyCues_def)+
  have "\<exists>c \<in> set (expandCue l). LTime c = LTime l" for l by (simp add: expandCue_def Let_def)
  then have "LTime l \<in> LTime ` set (Expand ls)" if "l \<in> set ls" for l
    using that by (simp add: Expand_def image_iff) metis
  then have "LTime ` set ls \<subseteq> LTime ` set (Expand ls)" by blast
  then show ?thesis
    using Expand_id [OF ord clean] Expand_id [OF sort_inOrder [OF parsed(1)] parsed(2)] ord clean
    by (simp add: ParseBody_contrib inOrder_def)
qed

theorem expand_idempotent_witness:
  "Expand (Expand [\<lparr>Text = lit ''[00:01]la'', LTime = \<lparr>Total = Fin 2, Minutes = 0, Seconds = 2, Hundredths = 0\<rparr>\<rparr>])
   = Expand [\<lparr>Text = lit ''[00:01]la'', LTime = \<lparr>Total = Fin 2, Minutes = 0, Seconds = 2, Hundredths = 0\<rparr>\<rparr>]"
  using expand_idempotent [of "[\<lparr>Text = lit ''[00:01]la'', LTime = \<lparr>Total = Fin 2, Minutes = 0, Seconds = 2, Hundredths = 0\<rparr>\<rparr>]"]
  by simp

text \<open>
  The condition of the rewrite is needed: two adjacent timestamps followed by a third behind a blank
  become two lines that both carry the third, so a later parse has one cue more than the original.
\<close>

lemma spaced_stamp_repeated:
  "length (Cues (ParseBody (lit ''[00:01][00:02] [00:03]la''))) = 3 \<and>
   length (Cues (ParseBody (fst (NormalizeBody (lit ''[00:01][00:02] [00:03]la''))))) = 4"
proof -
  have "length (bodyCues (lit ''[00:01][00:02] [00:03]la'')) = 3"
    by (simp add: bodyCues_def expandLine_def splitLines.simps stampsTrimmed.simps lrc_eval)
  moreover have "fst (NormalizeBody (lit ''[00:01][00:02] [00:03]la'')) = lit ''[00:01] [00:03]la'' @ [10] @ lit ''[00:02] [00:03]la''"
    using fofInt_exact [of 1] fofInt_exact [of 2]
    by (simp add: NormalizeBody_def normalizeSegment_def splitKeepEOL.simps splitStackedLine_def stampsRaw.simps
        stampSeconds_def atoiDigits_def stableSort_def lrc_eval)
  moreover have "length (bodyCues (lit ''[00:01] [00:03]la'' @ [10] @ lit ''[00:02] [00:03]la'')) = 4"
    by (simp add: bodyCues_def expandLine_def splitLines.simps stripCR_def stampsTrimmed.simps lrc_eval)
  moreover have "length (sortCues cues) = length cues" for cues
    by (metis mset_stableSort size_mset sortCues_def)
  ultimately show ?thesis by (simp add: ParseBody_contrib)
qed

end
