(* ===== verification/QueueDB.thy ===== *)
theory QueueDB
  imports Models Backoff
begin

text \<open>
  The tables the durable queue of \<open>internal/queue\<close> keeps in SQLite, and the statement forms its
  operations use. A table is the list of its rows in insertion order; a record field is a column
  under its SQL name (\<open>rowid\<close> is \<open>id\<close>); columns that statements always write together are grouped
  in a record of their own (\<open>paths\<close>, \<open>timing\<close>, \<open>word\<close>, \<open>telemetry\<close>, \<open>provenance\<close>). A nullable
  column is an option. Times are stored as RFC 3339 text in UTC, whose order is that of the whole
  seconds they name (for the four-digit years the format can write), so a time column is that
  count of seconds and \<open>formatTime\<close> drops the fraction. \<open>updated_at\<close>, which nothing reads back, is
  left out. The connection pool has one connection and every transaction takes the write lock at
  its beginning, so an operation is one step on the database; a failed transaction rolls back.
\<close>

named_theorems sql "unfolding of the statement forms"

section \<open>Rows\<close>

datatype RowStatus =
  StatusPending | StatusProcessing | StatusDone | StatusFailed | StatusDeferred | StatusUnavailable

datatype ScanStatus = ScanPending | ScanProcessing | ScanDone | ScanFailed

datatype WordTimingState = WordTimingQueued | WordTimingServed | WordTimingAbsent

datatype FailureClass =
  FailureNone | FailureWrite | FailureThrottle | FailureNetwork | FailureMiss | FailureOther

record OutputPath =
  opOutdir :: gotext
  opFilename :: gotext

record Inputs =
  inTrack :: Track
  inOutdir :: gotext
  inFilename :: gotext
  inSourcePath :: gotext
  inOutputPaths :: "OutputPath list"
  inScanResultID :: int
  inLibraryID :: int
  inFromScan :: bool
  inReopenCategorical :: bool
  inReopenAdopted :: bool
  inDetectInstrumental :: "bool option"

record RowPaths =
  artist :: gotext
  title :: gotext
  album :: gotext
  album_artist :: gotext
  outdir :: gotext
  filename :: gotext
  source_path :: gotext
  output_paths :: "OutputPath list option"

record RowTiming =
  timing_outcome :: "gotext option"
  overrun_magnitude :: "float64 option"
  overrun_ratio :: "float64 option"
  evaluated_at :: "int option"
  timing_stamp_source :: "gotext option"

record RowWord =
  word_timing_state :: "WordTimingState option"
  word_timing_generation :: "int option"
  word_timing_checked_at :: "int option"

record RowTelemetry =
  music_sum :: "float64 option"
  vocal_peak :: "float64 option"
  speech_mean :: "float64 option"
  vocal_class :: "gotext option"
  detector_version :: "gotext option"
  gate_complete :: "bool option"

record RowProvenance =
  isrc :: "gotext option"
  mbid :: "gotext option"
  fetched_at :: "int option"
  writer_version :: "gotext option"

record WorkRow =
  rowid :: int
  artist_key :: gotext
  title_key :: gotext
  edition :: gotext
  paths :: RowPaths
  scan_result_id :: "int option"
  status :: RowStatus
  prev_status :: "RowStatus option"
  priority :: int
  attempts :: int
  miss_count :: int
  refused_waits :: int
  providers_version :: int
  detect_instrumental :: "bool option"
  next_attempt_at :: int
  last_error :: gotext
  failure_class :: "FailureClass option"
  created_at :: int
  completed_at :: "int option"
  claimed_at :: "int option"
  adopted_at :: "int option"
  batch_seq :: "int option"
  instrumental_result :: "int option"
  telemetry :: RowTelemetry
  provenance :: RowProvenance
  provider_lane :: "gotext option"
  upstream :: "gotext option"
  outcome_type :: "gotext option"
  outcome_detail :: "gotext option"
  timing :: RowTiming
  word :: RowWord
  sync_tier :: "gotext option"
  upgrade_checked_at :: "int option"
  upgrade_queued :: bool
  upgrade_miss_count :: int
  missync_recheck_generation :: "int option"
  lyric_edited_at :: "int option"
  lyric_offset_ms :: "int option"
  manual_instrumental_at :: "int option"
  source_gone_at :: "int option"

record ScanRow =
  sr_id :: int
  library_id :: int
  file_path :: gotext
  sr_outdir :: gotext
  sr_filename :: gotext
  sr_status :: ScanStatus
  sr_artist :: gotext
  sr_title :: gotext
  sr_album :: gotext
  sr_album_artist :: gotext
  sr_artist_key :: gotext
  sr_title_key :: gotext

text \<open>
  \<open>links\<close> is the junction \<open>work_queue_scan_results\<close>, \<open>lastRowid\<close> the AUTOINCREMENT counter,
  \<open>lyric_blocks\<close> the keys of the operator's lyric blocks.
\<close>

record QDB =
  work_queue :: "WorkRow list"
  lastRowid :: int
  scan_results :: "ScanRow list"
  links :: "(int \<times> int) list"
  lyric_blocks :: "(gotext \<times> gotext) list"

section \<open>Values\<close>

definition formatTime :: "instant \<Rightarrow> int" where
  "formatTime t = t div second"

definition PriorityMiss :: int where "PriorityMiss = - 100"
definition PriorityUpgrade :: int where "PriorityUpgrade = - 50"
definition PriorityScan :: int where "PriorityScan = 0"
definition PriorityWebhook :: int where "PriorityWebhook = 10"

definition EditionNone :: gotext where "EditionNone = []"
definition EditionInstrumental :: gotext where "EditionInstrumental = lit ''instrumental''"

definition missLimitReachedError :: gotext where
  "missLimitReachedError = lit ''miss limit reached''"

definition releaseCauseClearedError :: gotext where
  "releaseCauseClearedError = lit ''cause cleared by release''"

definition UnresolvableGoneError :: gotext where
  "UnresolvableGoneError = lit ''source file is gone and the row carries no ISRC or MBID, so it can never be relinked; retired as unactionable''"

definition nullIfEmpty :: "gotext \<Rightarrow> gotext option" where
  "nullIfEmpty s = (if s = [] then None else Some s)"

definition nullableID :: "int \<Rightarrow> int option" where
  "nullableID i = (if i \<le> 0 then None else Some i)"

definition storedClass :: "gotext \<Rightarrow> FailureClass option \<Rightarrow> FailureClass option" where
  "storedClass message cls =
     (if message = [] \<or> cls = None then None
      else if trimSpace message = [] then Some FailureNone else cls)"

text \<open>
  \<open>COALESCE(a, b)\<close>; comparisons with a NULL are not true. \<open>TRIM\<close> strips blanks only.
\<close>

definition coalesce :: "'a option \<Rightarrow> 'a option \<Rightarrow> 'a option" where
  "coalesce a b = (case a of None \<Rightarrow> b | Some _ \<Rightarrow> a)"

definition blankText :: "gotext \<Rightarrow> bool" where
  "blankText s \<longleftrightarrow> (\<forall>c \<in> set s. c = 32)"

text \<open>A cause handed to \<open>Fail\<close> or \<open>Defer\<close>: its text and the class attached to it, if any.\<close>

record Cause =
  causeText :: gotext
  causeClass :: "FailureClass option"

datatype QueueError =
  ErrNoRows | ErrNotRetryable | ErrCategoricalNotReopened | ErrRecheckRetiredCountChanged
| ErrManualInstrumentalInFlight | ErrManualInstrumentalNotFound | ErrAdoptBackup | ErrReport | ErrInvalid gotext

section \<open>Statements\<close>

text \<open>The triggers of migrations 053 and 067, which fire on statements that name \<open>status\<close> or \<open>last_error\<close>.\<close>

definition clearUpgradeQueued :: "WorkRow \<Rightarrow> WorkRow" where
  "clearUpgradeQueued r =
     (if upgrade_queued r \<and> status r \<in> {StatusDone, StatusUnavailable} then r\<lparr>upgrade_queued := False\<rparr> else r)"

definition clearFailureClass :: "WorkRow \<Rightarrow> WorkRow" where
  "clearFailureClass r =
     (if failure_class r \<noteq> None \<and> (status r \<in> {StatusPending, StatusDone} \<or> last_error r = [])
      then r\<lparr>failure_class := None\<rparr> else r)"

definition onStatus :: "WorkRow \<Rightarrow> WorkRow" where
  "onStatus r = clearFailureClass (clearUpgradeQueued r)"

definition matched :: "(WorkRow \<Rightarrow> bool) \<Rightarrow> QDB \<Rightarrow> WorkRow list" where
  "matched p db = filter p (work_queue db)"

definition updateWork :: "(WorkRow \<Rightarrow> bool) \<Rightarrow> (WorkRow \<Rightarrow> WorkRow) \<Rightarrow> QDB \<Rightarrow> QDB" where
  "updateWork p f db = db\<lparr>work_queue := map (\<lambda>r. if p r then f r else r) (work_queue db)\<rparr>"

definition updateScan :: "(ScanRow \<Rightarrow> bool) \<Rightarrow> (ScanRow \<Rightarrow> ScanRow) \<Rightarrow> QDB \<Rightarrow> QDB" where
  "updateScan p f db = db\<lparr>scan_results := map (\<lambda>s. if p s then f s else s) (scan_results db)\<rparr>"

definition setScan :: "ScanStatus \<Rightarrow> (ScanRow \<Rightarrow> bool) \<Rightarrow> QDB \<Rightarrow> QDB" where
  "setScan st p = updateScan p (\<lambda>s. s\<lparr>sr_status := st\<rparr>)"

text \<open>Deleting a row cascades to its links; a deleted scan result is also unlinked from \<open>scan_result_id\<close>.\<close>

definition deleteWork :: "(WorkRow \<Rightarrow> bool) \<Rightarrow> QDB \<Rightarrow> QDB" where
  "deleteWork p db =
     db\<lparr>work_queue := filter (\<lambda>r. \<not> p r) (work_queue db),
        links := filter (\<lambda>l. fst l \<notin> rowid ` set (matched p db)) (links db)\<rparr>"

definition deleteScan :: "(ScanRow \<Rightarrow> bool) \<Rightarrow> QDB \<Rightarrow> QDB" where
  "deleteScan p db =
     (let gone = sr_id ` set (filter p (scan_results db))
      in db\<lparr>scan_results := filter (\<lambda>s. \<not> p s) (scan_results db),
            links := filter (\<lambda>l. snd l \<notin> gone) (links db),
            work_queue := map (\<lambda>r. case scan_result_id r of None \<Rightarrow> r
                | Some i \<Rightarrow> if i \<in> gone then r\<lparr>scan_result_id := None\<rparr> else r) (work_queue db)\<rparr>)"

text \<open>\<open>INSERT OR IGNORE\<close> into the junction.\<close>

definition addLink :: "int \<Rightarrow> int \<Rightarrow> QDB \<Rightarrow> QDB" where
  "addLink w s db = (if (w, s) \<in> set (links db) then db else db\<lparr>links := links db @ [(w, s)]\<rparr>)"

text \<open>A transaction: an error rolls back everything its statements did.\<close>

definition inTx :: "(QDB \<Rightarrow> (QueueError + 'a) \<times> QDB) \<Rightarrow> QDB \<Rightarrow> (QueueError + 'a) \<times> QDB" where
  "inTx f db = (case f db of (Inl e, _) \<Rightarrow> (Inl e, db) | (Inr a, db') \<Rightarrow> (Inr a, db'))"

definition byID :: "int \<Rightarrow> (WorkRow \<Rightarrow> bool) \<Rightarrow> WorkRow \<Rightarrow> bool" where
  "byID i p r \<longleftrightarrow> rowid r = i \<and> p r"

definition processing :: "WorkRow \<Rightarrow> bool" where
  "processing r \<longleftrightarrow> status r = StatusProcessing"

text \<open>A guarded update of one row, with the affected-row check of \<open>requireAffected\<close>.\<close>

definition updateOne :: "int \<Rightarrow> (WorkRow \<Rightarrow> bool) \<Rightarrow> (WorkRow \<Rightarrow> WorkRow) \<Rightarrow> QDB \<Rightarrow> bool \<times> QDB" where
  "updateOne i p f db = (matched (byID i p) db \<noteq> [], updateWork (byID i p) f db)"

definition requireAffected :: "bool \<times> QDB \<Rightarrow> (QueueError + unit) \<times> QDB" where
  "requireAffected res = ((if fst res then Inr () else Inl ErrNoRows), snd res)"

section \<open>Shared predicates and fragments\<close>

definition wordQueued :: "WorkRow \<Rightarrow> bool" where
  "wordQueued r \<longleftrightarrow> word_timing_state (word r) = Some WordTimingQueued"

definition notWordRecheckQueued :: "WorkRow \<Rightarrow> bool" where
  "notWordRecheckQueued r \<longleftrightarrow> \<not> wordQueued r \<and> \<not> upgrade_queued r"

definition notHandProtected :: "WorkRow \<Rightarrow> bool" where
  "notHandProtected r \<longleftrightarrow> lyric_edited_at r = None \<and> manual_instrumental_at r = None"

definition retryable :: "WorkRow \<Rightarrow> bool" where
  "retryable r \<longleftrightarrow> status r \<in> {StatusPending, StatusFailed, StatusDeferred}"

definition terminal :: "WorkRow \<Rightarrow> bool" where
  "terminal r \<longleftrightarrow> status r \<in> {StatusDone, StatusUnavailable}"

definition ClearWordRecheckQueued :: "WorkRow \<Rightarrow> WorkRow" where
  "ClearWordRecheckQueued r = (if wordQueued r then r\<lparr>word := (word r)\<lparr>word_timing_state := None\<rparr>\<rparr> else r)"

text \<open>\<open>scanResultNoLiveSibling\<close>: some other linked row is live, so the scan result is not this row's to settle.\<close>

definition liveOwner :: "WorkRow \<Rightarrow> bool" where
  "liveOwner r \<longleftrightarrow> \<not> terminal r \<and> notWordRecheckQueued r"

definition liveSibling :: "QDB \<Rightarrow> int \<Rightarrow> int \<Rightarrow> bool" where
  "liveSibling db w s \<longleftrightarrow>
     (\<exists>r \<in> set (work_queue db). rowid r \<noteq> w \<and> (rowid r, s) \<in> set (links db) \<and> liveOwner r)"

definition writeBackScanResultsDone :: "int \<Rightarrow> QDB \<Rightarrow> QDB" where
  "writeBackScanResultsDone w db =
     setScan ScanDone (\<lambda>s. (w, sr_id s) \<in> set (links db) \<and> sr_status s \<noteq> ScanDone \<and> \<not> liveSibling db w (sr_id s)) db"

definition resetScanResultsPending :: "int \<Rightarrow> QDB \<Rightarrow> QDB" where
  "resetScanResultsPending w db =
     setScan ScanPending (\<lambda>s. (w, sr_id s) \<in> set (links db) \<and> sr_status s \<noteq> ScanDone \<and> \<not> liveSibling db w (sr_id s)) db"

text \<open>Linked scan results of one row in some of the given states, set to another.\<close>

definition setLinkedScan :: "int \<Rightarrow> ScanStatus list \<Rightarrow> ScanStatus \<Rightarrow> QDB \<Rightarrow> QDB" where
  "setLinkedScan w from st db = setScan st (\<lambda>s. (w, sr_id s) \<in> set (links db) \<and> sr_status s \<in> set from) db"

text \<open>\<open>ReopenDoneRowTx\<close>: a settled row, or a parked word recheck, becomes pending without its settle columns.\<close>

definition reopenRow :: "instant \<Rightarrow> WorkRow \<Rightarrow> WorkRow" where
  "reopenRow now r = ClearWordRecheckQueued (r\<lparr>
     status := StatusPending,
     priority := (if status r = StatusDeferred then PriorityScan else priority r),
     attempts := 0, next_attempt_at := formatTime now, last_error := [], completed_at := None,
     provider_lane := None, upstream := None, outcome_type := None, outcome_detail := None,
     timing := (timing r)\<lparr>timing_outcome := None, overrun_magnitude := None, overrun_ratio := None, evaluated_at := None\<rparr>,
     refused_waits := 0, source_gone_at := None\<rparr>)"

definition reopenable :: "WorkRow \<Rightarrow> bool" where
  "reopenable r \<longleftrightarrow>
     (status r = StatusDone \<or> status r = StatusDeferred \<and> wordQueued r) \<and> manual_instrumental_at r = None"

definition ReopenDoneRowTx :: "int \<Rightarrow> instant \<Rightarrow> QDB \<Rightarrow> bool \<times> QDB" where
  "ReopenDoneRowTx i now = updateOne i reopenable (onStatus \<circ> reopenRow now)"

section \<open>The queue's configuration and its items\<close>

record DBQueue =
  baseBackoff :: duration
  maxBackoff :: duration
  randomized :: bool
  batchSize :: int
  queueGeneration :: int
  editionRule :: "(Track \<Rightarrow> gotext) option"

definition defaultBatchSize :: int where "defaultBatchSize = 10"

definition NewDBQueue :: DBQueue where
  "NewDBQueue = \<lparr>baseBackoff = DefaultBase, maxBackoff = DefaultMax, randomized = True,
     batchSize = defaultBatchSize, queueGeneration = 0, editionRule = None\<rparr>"

definition SetBatchSize :: "int \<Rightarrow> DBQueue \<Rightarrow> DBQueue" where "SetBatchSize n q = q\<lparr>batchSize := n\<rparr>"
definition SetRandomized :: "bool \<Rightarrow> DBQueue \<Rightarrow> DBQueue" where "SetRandomized b q = q\<lparr>randomized := b\<rparr>"
definition SetProvidersVersion :: "int \<Rightarrow> DBQueue \<Rightarrow> DBQueue" where "SetProvidersVersion v q = q\<lparr>queueGeneration := v\<rparr>"
definition SetEditionRule :: "(Track \<Rightarrow> gotext) option \<Rightarrow> DBQueue \<Rightarrow> DBQueue" where "SetEditionRule f q = q\<lparr>editionRule := f\<rparr>"

definition IdentityKeys :: "(gotext \<Rightarrow> gotext) \<Rightarrow> Track \<Rightarrow> gotext \<times> gotext" where
  "IdentityKeys nkey track = (nkey (ArtistName track), nkey (TrackName track))"

text \<open>
  \<open>scanWorkItem\<close> reads the columns of a row into a \<open>WorkItem\<close>; here an item is the row, with the
  output paths it defaults to when the column names none.
\<close>

definition unmarshalOutputPaths :: "WorkRow \<Rightarrow> OutputPath list" where
  "unmarshalOutputPaths r =
     (let dflt = [\<lparr>opOutdir = outdir (paths r), opFilename = filename (paths r)\<rparr>]
      in case output_paths (paths r) of None \<Rightarrow> dflt | Some ps \<Rightarrow> if ps = [] then dflt else ps)"

definition marshalOutputPaths :: "Inputs \<Rightarrow> OutputPath list option" where
  "marshalOutputPaths i =
     Some (if inOutputPaths i = [] then [\<lparr>opOutdir = inOutdir i, opFilename = inFilename i\<rparr>] else inOutputPaths i)"

type_synonym WorkItem = "WorkRow \<times> OutputPath list"

definition scanWorkItem :: "WorkRow \<Rightarrow> WorkItem" where
  "scanWorkItem r = (r, unmarshalOutputPaths r)"

text \<open>A guarded update that returns the row, before the triggers of the statement run.\<close>

definition updateReturning :: "int \<Rightarrow> (WorkRow \<Rightarrow> bool) \<Rightarrow> (WorkRow \<Rightarrow> WorkRow) \<Rightarrow> QDB \<Rightarrow> (QueueError + WorkItem) \<times> QDB" where
  "updateReturning i p f db =
     (case matched (byID i p) db of [] \<Rightarrow> (Inl ErrNoRows, db)
      | r # _ \<Rightarrow> (Inr (scanWorkItem (f r)), updateWork (byID i p) (onStatus \<circ> f) db))"

end
