(* ===== verification/QueueWorker.thy ===== *)
theory QueueWorker
  imports QueueDB
begin

text \<open>
  The operations by which a worker claims a row of the queue and gives it back: \<open>Dequeue\<close> in its
  three modes, the settles, releases, deferrals and failures, the columns stamped on a held row,
  and \<open>RetryOnBusy\<close>, which wraps them. \<open>RANDOM()\<close> is a value per row, an argument of the claim;
  the order among equal values is the table's.
\<close>

section \<open>Retrying a locked database\<close>

text \<open>
  What the driver does to one attempt: it runs; it fails on a locked database (nothing is written);
  the same while the context ends during the pause that follows; or it fails otherwise. The retry
  loop records the pauses it makes.
\<close>

datatype attempt = Runs | Busy | BusyCanceled | DriverError

datatype dbFault = FaultBusy | FaultCanceled | FaultOther

definition retryBaseDelay :: duration where "retryBaseDelay = 100 * 1000000"
definition retryMaxDelay :: duration where "retryMaxDelay = 2 * second"
definition dequeueMaxAttempts :: nat where "dequeueMaxAttempts = 5"
definition BatchTxAttempts :: nat where "BatchTxAttempts = 20"

text \<open>\<open>n\<close> attempts are left, the next one is number \<open>k\<close>; a driver that is not described further runs.\<close>

fun retryLoop :: "nat \<Rightarrow> nat \<Rightarrow> attempt list \<Rightarrow> (QDB \<Rightarrow> 'a \<times> QDB) \<Rightarrow> QDB \<Rightarrow> (dbFault + 'a) \<times> QDB \<times> duration list" where
  "retryLoop 0 k faults f db = (Inl FaultBusy, db, [])"
| "retryLoop (Suc n) k faults f db =
     (case faults of
        [] \<Rightarrow> (case f db of (a, db') \<Rightarrow> (Inr a, db', []))
      | Runs # _ \<Rightarrow> (case f db of (a, db') \<Rightarrow> (Inr a, db', []))
      | DriverError # _ \<Rightarrow> (Inl FaultOther, db, [])
      | Busy # rest \<Rightarrow>
          (if n = 0 then (Inl FaultBusy, db, [])
           else case retryLoop n (k + 1) rest f db of
             (res, db', ds) \<Rightarrow> (res, db', Geometric (int k) retryBaseDelay retryMaxDelay # ds))
      | BusyCanceled # _ \<Rightarrow>
          (if n = 0 then (Inl FaultBusy, db, [])
           else (Inl FaultCanceled, db, [Geometric (int k) retryBaseDelay retryMaxDelay])))"

definition RetryOnBusy :: "nat \<Rightarrow> attempt list \<Rightarrow> (QDB \<Rightarrow> 'a \<times> QDB) \<Rightarrow> QDB \<Rightarrow> (dbFault + 'a) \<times> QDB \<times> duration list" where
  "RetryOnBusy maxAttempts faults f db = retryLoop (max maxAttempts 1) 1 faults f db"

section \<open>Claiming\<close>

definition eligible :: "instant \<Rightarrow> WorkRow \<Rightarrow> bool" where
  "eligible now r \<longleftrightarrow> retryable r \<and> next_attempt_at r \<le> formatTime now"

definition claimRow :: "int \<Rightarrow> WorkRow \<Rightarrow> WorkRow" where
  "claimRow wall r = r\<lparr>status := StatusProcessing, prev_status := Some (status r), claimed_at := Some wall,
     adopted_at := None, batch_seq := None\<rparr>"

text \<open>The two orders of a claim; sorting is stable, so the last key named in SQL is sorted first.\<close>

definition orderRandom :: "(int \<Rightarrow> int) \<Rightarrow> WorkRow list \<Rightarrow> WorkRow list" where
  "orderRandom rnd rows = sort_key (\<lambda>r. - priority r) (sort_key (\<lambda>r. rnd (rowid r)) rows)"

definition orderFIFO :: "WorkRow list \<Rightarrow> WorkRow list" where
  "orderFIFO rows = sort_key (\<lambda>r. - priority r) (sort_key created_at (sort_key rowid rows))"

definition claimFirst :: "int \<Rightarrow> WorkRow list \<Rightarrow> QDB \<Rightarrow> (QueueError + WorkItem) \<times> QDB" where
  "claimFirst wall candidates db =
     (case candidates of [] \<Rightarrow> (Inl ErrNoRows, db)
      | r # _ \<Rightarrow> updateReturning (rowid r) (\<lambda>_. True) (claimRow wall) db)"

definition buffered :: "WorkRow \<Rightarrow> bool" where
  "buffered r \<longleftrightarrow> batch_seq r \<noteq> None"

definition clearStaleBatchSeq :: "instant \<Rightarrow> QDB \<Rightarrow> QDB" where
  "clearStaleBatchSeq now = updateWork (\<lambda>r. buffered r \<and> \<not> eligible now r) (\<lambda>r. r\<lparr>batch_seq := None\<rparr>)"

definition maxBatchSeq :: "QDB \<Rightarrow> int" where
  "maxBatchSeq db = (let seqs = map (\<lambda>r. the (batch_seq r)) (matched buffered db)
                     in if seqs = [] then 0 else Max (set seqs))"

text \<open>The rows drawn, with their \<open>ROW_NUMBER()\<close> from 1, stamped behind the rows already buffered.\<close>

definition stampDrawn :: "int \<Rightarrow> WorkRow list \<Rightarrow> QDB \<Rightarrow> QDB" where
  "stampDrawn offset drawn db =
     (let rn = map_of (zip (map rowid drawn) [0 ..< length drawn])
      in updateWork (\<lambda>r. rn (rowid r) \<noteq> None) (\<lambda>r. r\<lparr>batch_seq := Some (offset + int (the (rn (rowid r))) + 1)\<rparr>) db)"

definition refillBuffer :: "DBQueue \<Rightarrow> instant \<Rightarrow> (int \<Rightarrow> int) \<Rightarrow> QDB \<Rightarrow> QDB" where
  "refillBuffer q now rnd db =
     (let db1 = clearStaleBatchSeq now db;
          limit = batchSize q - int (length (matched buffered db1))
      in if limit \<le> 0 then db1
         else stampDrawn (maxBatchSeq db1)
           (take (nat limit) (orderRandom rnd (matched (\<lambda>r. eligible now r \<and> \<not> buffered r) db1))) db1)"

definition dequeueBatched :: "DBQueue \<Rightarrow> instant \<Rightarrow> int \<Rightarrow> (int \<Rightarrow> int) \<Rightarrow> QDB \<Rightarrow> (QueueError + WorkItem) \<times> QDB" where
  "dequeueBatched q now wall rnd db =
     (let db1 = refillBuffer q now rnd db
      in claimFirst wall (sort_key (\<lambda>r. the (batch_seq r)) (matched (\<lambda>r. eligible now r \<and> buffered r) db1)) db1)"

definition dequeueOnce :: "DBQueue \<Rightarrow> instant \<Rightarrow> int \<Rightarrow> (int \<Rightarrow> int) \<Rightarrow> QDB \<Rightarrow> (QueueError + WorkItem) \<times> QDB" where
  "dequeueOnce q now wall rnd db =
     (if randomized q \<and> 0 < batchSize q then dequeueBatched q now wall rnd db
      else if randomized q then claimFirst wall (orderRandom rnd (matched (eligible now) db)) db
      else claimFirst wall (orderFIFO (matched (eligible now) db)) db)"

definition Dequeue :: "DBQueue \<Rightarrow> attempt list \<Rightarrow> instant \<Rightarrow> int \<Rightarrow> (int \<Rightarrow> int) \<Rightarrow> QDB
    \<Rightarrow> (dbFault + (QueueError + WorkItem)) \<times> QDB \<times> duration list" where
  "Dequeue q faults now wall rnd = RetryOnBusy dequeueMaxAttempts faults (dequeueOnce q now wall rnd)"

section \<open>Completing\<close>

definition misSynced :: "WorkRow \<Rightarrow> bool" where
  "misSynced r \<longleftrightarrow> timing_outcome (timing r) = Some (lit ''mis_synced'')"

definition completeRow :: "DBQueue \<Rightarrow> instant \<Rightarrow> WorkRow \<Rightarrow> WorkRow" where
  "completeRow q now r = r\<lparr>status := StatusDone, completed_at := Some (formatTime now), last_error := [],
     refused_waits := 0,
     missync_recheck_generation := (if upgrade_queued r \<and> misSynced r then Some (queueGeneration q)
                                    else missync_recheck_generation r),
     upgrade_miss_count := (if upgrade_queued r then 0 else upgrade_miss_count r),
     source_gone_at := None\<rparr>"

text \<open>A guarded update of one row followed, when it matched, by the writeback of its scan results.\<close>

definition settleTx :: "int \<Rightarrow> (WorkRow \<Rightarrow> bool) \<Rightarrow> (WorkRow \<Rightarrow> WorkRow) \<Rightarrow> QDB \<Rightarrow> bool \<times> QDB" where
  "settleTx i guard f db =
     (case updateOne i guard (onStatus \<circ> f) db of (ok, db') \<Rightarrow>
        (if ok then (True, writeBackScanResultsDone i db') else (False, db)))"

definition completeOnce :: "DBQueue \<Rightarrow> instant \<Rightarrow> int \<Rightarrow> QDB \<Rightarrow> (QueueError + unit) \<times> QDB" where
  "completeOnce q now i db = requireAffected (settleTx i processing (completeRow q now) db)"

definition Complete :: "DBQueue \<Rightarrow> attempt list \<Rightarrow> instant \<Rightarrow> int \<Rightarrow> QDB \<Rightarrow> (dbFault + (QueueError + unit)) \<times> QDB \<times> duration list" where
  "Complete q faults now i = RetryOnBusy dequeueMaxAttempts faults (completeOnce q now i)"

datatype SettleOutcome =
  SettleFailed | Settled | SettleClaimed | SettleAlreadyInstrumental | SettleRowGone | SettleNoBlock

datatype RowOwnership = OwnedByBackfill | OwnedByWorker

fun ownerStatus :: "RowOwnership \<Rightarrow> RowStatus" where
  "ownerStatus OwnedByWorker = StatusProcessing"
| "ownerStatus OwnedByBackfill = StatusDeferred"

record InstrumentalTelemetry =
  telMusicSum :: float64
  telVocalPeak :: float64
  telSpeechMean :: float64
  telVocalClass :: gotext
  telDetectorVersion :: gotext
  telGateComplete :: bool

definition telColumns :: "InstrumentalTelemetry \<Rightarrow> RowTelemetry" where
  "telColumns t = \<lparr>music_sum = Some (telMusicSum t), vocal_peak = Some (telVocalPeak t),
     speech_mean = Some (telSpeechMean t), vocal_class = Some (telVocalClass t),
     detector_version = Some (telDetectorVersion t), gate_complete = Some (telGateComplete t)\<rparr>"

definition LaneName :: gotext where "LaneName = lit ''detector''"

definition classifyNoSettle :: "int \<Rightarrow> QDB \<Rightarrow> SettleOutcome" where
  "classifyNoSettle i db =
     (case matched (byID i (\<lambda>_. True)) db of [] \<Rightarrow> SettleRowGone
      | r # _ \<Rightarrow> if status r = StatusDone \<and> instrumental_result r = Some 1 then SettleAlreadyInstrumental
                else SettleClaimed)"

definition instrumentalRow :: "instant \<Rightarrow> InstrumentalTelemetry \<Rightarrow> WorkRow \<Rightarrow> WorkRow" where
  "instrumentalRow now tel r = r\<lparr>instrumental_result := Some 1, telemetry := telColumns tel,
     outcome_type := Some (lit ''instrumental''), provider_lane := Some LaneName, upstream := None,
     status := StatusDone, completed_at := Some (formatTime now), last_error := [], refused_waits := 0\<rparr>"

definition settleInstrumentalOnce :: "instant \<Rightarrow> int \<Rightarrow> InstrumentalTelemetry \<Rightarrow> RowOwnership \<Rightarrow> QDB \<Rightarrow> SettleOutcome \<times> QDB" where
  "settleInstrumentalOnce now i tel owner db =
     (case settleTx i (\<lambda>r. status r = ownerStatus owner \<and> (processing r \<or> \<not> wordQueued r)) (instrumentalRow now tel) db of
        (True, db') \<Rightarrow> (Settled, db')
      | (False, _) \<Rightarrow> (classifyNoSettle i db, db))"

definition rejectedRow :: "instant \<Rightarrow> gotext \<Rightarrow> WorkRow \<Rightarrow> WorkRow" where
  "rejectedRow now reason r = r\<lparr>outcome_type := Some (lit ''rejected''), outcome_detail := nullIfEmpty reason,
     status := StatusDone, completed_at := Some (formatTime now), last_error := [], refused_waits := 0\<rparr>"

definition settleGuardRejectedOnce :: "instant \<Rightarrow> int \<Rightarrow> gotext \<Rightarrow> QDB \<Rightarrow> SettleOutcome \<times> QDB" where
  "settleGuardRejectedOnce now i reason db =
     (case settleTx i processing (rejectedRow now reason) db of
        (True, db') \<Rightarrow> (Settled, db')
      | (False, _) \<Rightarrow> (classifyNoSettle i db, db))"

definition OutcomeBlocked :: gotext where "OutcomeBlocked = lit ''blocked''"
definition OutcomeDetailBlocked :: gotext where "OutcomeDetailBlocked = lit ''blocked by operator''"

definition clearWordVerdict :: "RowWord \<Rightarrow> RowWord" where
  "clearWordVerdict w =
     (if word_timing_state w \<in> {Some WordTimingServed, Some WordTimingAbsent}
      then \<lparr>word_timing_state = None, word_timing_generation = None, word_timing_checked_at = None\<rparr> else w)"

definition blockedRow :: "instant \<Rightarrow> WorkRow \<Rightarrow> WorkRow" where
  "blockedRow now r = r\<lparr>outcome_type := Some OutcomeBlocked, outcome_detail := Some OutcomeDetailBlocked,
     status := StatusDone, completed_at := Some (formatTime now), last_error := [], refused_waits := 0,
     provider_lane := None, upstream := None, sync_tier := None,
     timing := (timing r)\<lparr>timing_outcome := None, overrun_magnitude := None, overrun_ratio := None, evaluated_at := None\<rparr>,
     word := clearWordVerdict (word r)\<rparr>"

definition settleBlockedOnce :: "instant \<Rightarrow> int \<Rightarrow> QDB \<Rightarrow> SettleOutcome \<times> QDB" where
  "settleBlockedOnce now i db =
     (case settleTx i (\<lambda>r. processing r \<and> (artist_key r, title_key r) \<in> set (lyric_blocks db)) (blockedRow now) db of
        (True, db') \<Rightarrow> (Settled, db')
      | (False, _) \<Rightarrow>
          (case matched (byID i (\<lambda>_. True)) db of
             r # _ \<Rightarrow> if processing r then (SettleNoBlock, db) else (classifyNoSettle i db, db)
           | [] \<Rightarrow> (classifyNoSettle i db, db)))"

section \<open>Giving a row back\<close>

definition releaseRow :: "WorkRow \<Rightarrow> WorkRow" where
  "releaseRow r = r\<lparr>
     status := (case prev_status r of None \<Rightarrow> StatusPending | Some st \<Rightarrow> st),
     last_error := (if prev_status r \<in> {None, Some StatusPending} \<and> last_error r \<noteq> [] then releaseCauseClearedError
                    else if prev_status r \<in> {None, Some StatusPending} then []
                    else last_error r)\<rparr>"

definition Release :: "int \<Rightarrow> QDB \<Rightarrow> (QueueError + unit) \<times> QDB" where
  "Release i db = requireAffected (updateOne i processing (onStatus \<circ> releaseRow) db)"

definition ReleaseUntil :: "instant \<Rightarrow> int \<Rightarrow> duration \<Rightarrow> QDB \<Rightarrow> (QueueError + unit) \<times> QDB" where
  "ReleaseUntil now i retryAfter db = requireAffected (updateOne i processing
     (onStatus \<circ> (\<lambda>r. r\<lparr>status := (case prev_status r of None \<Rightarrow> StatusPending | Some st \<Rightarrow> st),
                       next_attempt_at := formatTime (now + retryAfter)\<rparr>)) db)"

definition errorOf :: "Cause option \<Rightarrow> gotext" where
  "errorOf cause = (case cause of None \<Rightarrow> [] | Some c \<Rightarrow> causeText c)"

definition FailureClassOf :: "Cause option \<Rightarrow> FailureClass option" where
  "FailureClassOf cause = (case cause of None \<Rightarrow> None | Some c \<Rightarrow> causeClass c)"

text \<open>\<open>WithFailureClass\<close>: the outermost class is the one read back.\<close>

definition WithFailureClass :: "Cause option \<Rightarrow> FailureClass \<Rightarrow> Cause option" where
  "WithFailureClass err cls = map_option (\<lambda>c. c\<lparr>causeClass := Some cls\<rparr>) err"

definition failRow :: "DBQueue \<Rightarrow> instant \<Rightarrow> Cause option \<Rightarrow> WorkRow \<Rightarrow> WorkRow" where
  "failRow q now cause r =
     (let n = int64 (attempts r + 1)
      in r\<lparr>status := StatusFailed, attempts := n,
           next_attempt_at := formatTime (now + Geometric n (baseBackoff q) (maxBackoff q)),
           failure_class := storedClass (errorOf cause) (FailureClassOf cause), last_error := errorOf cause\<rparr>)"

definition failOnce :: "DBQueue \<Rightarrow> instant \<Rightarrow> int \<Rightarrow> Cause option \<Rightarrow> QDB \<Rightarrow> (QueueError + WorkItem) \<times> QDB" where
  "failOnce q now i cause db =
     (case updateReturning i processing (failRow q now cause) db of
        (Inl e, _) \<Rightarrow> (Inl e, db)
      | (Inr item, db') \<Rightarrow> (Inr item, setLinkedScan i [ScanProcessing] ScanFailed db'))"

definition Fail :: "DBQueue \<Rightarrow> attempt list \<Rightarrow> instant \<Rightarrow> int \<Rightarrow> Cause option \<Rightarrow> QDB
    \<Rightarrow> (dbFault + (QueueError + WorkItem)) \<times> QDB \<times> duration list" where
  "Fail q faults now i cause = RetryOnBusy dequeueMaxAttempts faults (failOnce q now i cause)"

definition deferRow :: "instant \<Rightarrow> duration \<Rightarrow> Cause option \<Rightarrow> WorkRow \<Rightarrow> WorkRow" where
  "deferRow now retryAfter cause r = r\<lparr>status := StatusDeferred, miss_count := miss_count r + 1, priority := - 100,
     next_attempt_at := formatTime (now + retryAfter),
     failure_class := storedClass (errorOf cause) (FailureClassOf cause), last_error := errorOf cause\<rparr>"

definition Defer :: "instant \<Rightarrow> int \<Rightarrow> duration \<Rightarrow> Cause option \<Rightarrow> QDB \<Rightarrow> (QueueError + WorkItem) \<times> QDB" where
  "Defer now i retryAfter cause = updateReturning i processing (deferRow now retryAfter cause)"

definition refusedRow :: "instant \<Rightarrow> duration \<Rightarrow> gotext \<Rightarrow> WorkRow \<Rightarrow> WorkRow" where
  "refusedRow now retryAfter cause r = r\<lparr>status := StatusDeferred, refused_waits := refused_waits r + 1,
     next_attempt_at := formatTime (now + retryAfter),
     failure_class := storedClass cause (Some FailureThrottle), last_error := cause\<rparr>"

definition deferRefusedOnce :: "instant \<Rightarrow> int \<Rightarrow> duration \<Rightarrow> int \<Rightarrow> gotext \<Rightarrow> QDB \<Rightarrow> (QueueError + bool) \<times> QDB" where
  "deferRefusedOnce now i retryAfter maxWaits cause db =
     (case matched (byID i processing) db of
        [] \<Rightarrow> (Inl ErrNoRows, db)
      | r # _ \<Rightarrow> if refused_waits r \<ge> maxWaits then (Inr False, db)
                else (Inr True, snd (updateOne i processing (onStatus \<circ> refusedRow now retryAfter cause) db)))"

definition retireRow :: "instant \<Rightarrow> WorkRow \<Rightarrow> WorkRow" where
  "retireRow now r = r\<lparr>status := StatusUnavailable, completed_at := Some (formatTime now),
     last_error := missLimitReachedError, failure_class := Some FailureMiss, refused_waits := 0\<rparr>"

definition RetireMiss :: "instant \<Rightarrow> int \<Rightarrow> QDB \<Rightarrow> (QueueError + WorkItem) \<times> QDB" where
  "RetireMiss now i db =
     (case updateReturning i processing (retireRow now) db of
        (Inl e, _) \<Rightarrow> (Inl e, db)
      | (Inr item, db') \<Rightarrow> (Inr item, writeBackScanResultsDone i db'))"

section \<open>Word rechecks\<close>

definition wordRecheckOwned :: "WorkRow \<Rightarrow> bool" where
  "wordRecheckOwned r \<longleftrightarrow> processing r \<and> wordQueued r"

definition wordSettledRow :: "instant \<Rightarrow> WordTimingState \<Rightarrow> int \<Rightarrow> WorkRow \<Rightarrow> WorkRow" where
  "wordSettledRow now st gen r = r\<lparr>status := StatusDone, last_error := [], refused_waits := 0,
     completed_at := (if st = WordTimingServed then Some (formatTime now) else completed_at r),
     word := \<lparr>word_timing_state = Some st, word_timing_generation = Some gen,
              word_timing_checked_at = Some (formatTime now)\<rparr>\<rparr>"

definition SettleWordRecheck :: "instant \<Rightarrow> int \<Rightarrow> WordTimingState \<Rightarrow> int \<Rightarrow> QDB \<Rightarrow> (QueueError + unit) \<times> QDB" where
  "SettleWordRecheck now i st gen db =
     (if st \<noteq> WordTimingServed \<and> st \<noteq> WordTimingAbsent then (Inl (ErrInvalid (lit ''invalid state'')), db)
      else requireAffected (settleTx i wordRecheckOwned (wordSettledRow now st gen) db))"

definition wordDeferredRow :: "instant \<Rightarrow> duration \<Rightarrow> int \<Rightarrow> gotext \<Rightarrow> FailureClass option \<Rightarrow> WorkRow \<Rightarrow> WorkRow" where
  "wordDeferredRow now retryAfter maxWaits cause cls r =
     (let spent = refused_waits r \<ge> maxWaits
      in r\<lparr>status := (if spent then StatusDone else StatusDeferred),
           word := (if spent then (word r)\<lparr>word_timing_state := None\<rparr> else word r),
           next_attempt_at := (if spent then next_attempt_at r else formatTime (now + retryAfter)),
           last_error := (if spent then [] else cause),
           failure_class := storedClass cause cls,
           refused_waits := (if spent then 0 else refused_waits r + 1)\<rparr>)"

definition DeferWordRecheck :: "instant \<Rightarrow> int \<Rightarrow> duration \<Rightarrow> int \<Rightarrow> gotext \<Rightarrow> FailureClass option \<Rightarrow> QDB
    \<Rightarrow> (QueueError + bool) \<times> QDB" where
  "DeferWordRecheck now i retryAfter maxWaits cause cls db =
     (case updateReturning i wordRecheckOwned (wordDeferredRow now retryAfter maxWaits cause cls) db of
        (Inl e, _) \<Rightarrow> (Inl e, db)
      | (Inr (r, _), db') \<Rightarrow>
          (if status r = StatusDone then (Inr True, writeBackScanResultsDone i db') else (Inr False, db')))"

definition RetryWordRecheckWrite :: "instant \<Rightarrow> int \<Rightarrow> duration \<Rightarrow> gotext \<Rightarrow> QDB \<Rightarrow> (QueueError + unit) \<times> QDB" where
  "RetryWordRecheckWrite now i retryAfter cause db = requireAffected (updateOne i wordRecheckOwned
     (onStatus \<circ> (\<lambda>r. r\<lparr>status := StatusDeferred, next_attempt_at := formatTime (now + retryAfter),
        last_error := cause, failure_class := storedClass cause (Some FailureOther)\<rparr>)) db)"

section \<open>Upgrade trips\<close>

definition upgradeTrip :: "WorkRow \<Rightarrow> bool" where
  "upgradeTrip r \<longleftrightarrow> processing r \<and> upgrade_queued r"

definition tripSettledRow :: "DBQueue \<Rightarrow> bool \<Rightarrow> WorkRow \<Rightarrow> WorkRow" where
  "tripSettledRow q answered r = r\<lparr>status := StatusDone, last_error := [], refused_waits := 0, attempts := 0,
     missync_recheck_generation := (if answered \<and> misSynced r then Some (queueGeneration q) else missync_recheck_generation r),
     upgrade_miss_count := (if answered then upgrade_miss_count r + 1 else upgrade_miss_count r)\<rparr>"

definition SettleUpgradeTrip :: "DBQueue \<Rightarrow> int \<Rightarrow> bool \<Rightarrow> QDB \<Rightarrow> bool \<times> QDB" where
  "SettleUpgradeTrip q i answered = updateOne i upgradeTrip (onStatus \<circ> tripSettledRow q answered)"

definition SettleStuckUpgradeTrip :: "DBQueue \<Rightarrow> instant \<Rightarrow> int \<Rightarrow> bool \<Rightarrow> QDB \<Rightarrow> bool \<times> QDB" where
  "SettleStuckUpgradeTrip q now i landed = updateOne i upgradeTrip (onStatus \<circ> (\<lambda>r. r\<lparr>status := StatusDone,
     last_error := [], refused_waits := 0, attempts := 0,
     completed_at := (if landed then Some (formatTime now) else completed_at r),
     missync_recheck_generation := (if misSynced r then Some (queueGeneration q) else missync_recheck_generation r)\<rparr>))"

datatype GoneOutcome = GoneNotTrip | GoneMarked | GoneRetired

definition goneRetiredRow :: "instant \<Rightarrow> WorkRow \<Rightarrow> WorkRow" where
  "goneRetiredRow now r = r\<lparr>status := StatusDone, completed_at := Some (formatTime now),
     last_error := UnresolvableGoneError, refused_waits := 0, attempts := 0\<rparr>"

definition goneMarkedRow :: "instant \<Rightarrow> WorkRow \<Rightarrow> WorkRow" where
  "goneMarkedRow now r = r\<lparr>status := StatusDone, last_error := [], refused_waits := 0, attempts := 0,
     upgrade_miss_count := upgrade_miss_count r + 1,
     source_gone_at := coalesce (source_gone_at r) (Some (formatTime now))\<rparr>"

definition SettleGoneUpgradeTrip :: "instant \<Rightarrow> int \<Rightarrow> duration \<Rightarrow> QDB \<Rightarrow> GoneOutcome \<times> QDB" where
  "SettleGoneUpgradeTrip now i confirmAfter db =
     (case matched (byID i upgradeTrip) db of
        [] \<Rightarrow> (GoneNotTrip, db)
      | r # _ \<Rightarrow>
          (let confirmed = (case source_gone_at r of None \<Rightarrow> False | Some g \<Rightarrow> g \<le> formatTime (now - confirmAfter))
           in if confirmed then (GoneRetired, writeBackScanResultsDone i
                     (updateWork (byID i (\<lambda>_. True)) (onStatus \<circ> goneRetiredRow now) db))
              else (GoneMarked, updateWork (byID i (\<lambda>_. True)) (onStatus \<circ> goneMarkedRow now) db)))"

definition ClearSourceGone :: "int \<Rightarrow> QDB \<Rightarrow> QDB" where
  "ClearSourceGone i = updateWork (byID i (\<lambda>r. source_gone_at r \<noteq> None)) (\<lambda>r. r\<lparr>source_gone_at := None\<rparr>)"

end
