(* ===== verification/QueueIntake.thy ===== *)
theory QueueIntake
  imports QueueDB
begin

text \<open>
  How work enters the queue and leaves it unfetched: the edition of a row, the repair of a row
  whose audio file was replaced in place, the reopens a scan asks for, \<open>Enqueue\<close> with its upsert,
  \<open>Cleanup\<close>, the cancelling of a library, and the adoption of settled files that have no row.
  The file system enters as the answers of \<open>stat\<close>.
\<close>

section \<open>Paths\<close>

text \<open>Package \<open>path/filepath\<close> on Unix; 47 is the slash, 46 the dot.\<close>

fun splitSlash :: "gotext \<Rightarrow> gotext list" where
  "splitSlash [] = [[]]"
| "splitSlash (c # cs) = (if c = 47 then [] # splitSlash cs
     else case splitSlash cs of [] \<Rightarrow> [[c]] | p # ps \<Rightarrow> (c # p) # ps)"

fun joinSlash :: "gotext list \<Rightarrow> gotext" where
  "joinSlash [] = []"
| "joinSlash [p] = p"
| "joinSlash (p # ps) = p @ 47 # joinSlash ps"

fun cleanParts :: "bool \<Rightarrow> gotext list \<Rightarrow> gotext list \<Rightarrow> gotext list" where
  "cleanParts rooted stack [] = rev stack"
| "cleanParts rooted stack (p # ps) =
     (if p = [] \<or> p = [46] then cleanParts rooted stack ps
      else if p = [46, 46]
        then (if stack \<noteq> [] \<and> hd stack \<noteq> [46, 46] then cleanParts rooted (tl stack) ps
              else if rooted then cleanParts rooted stack ps
              else cleanParts rooted (p # stack) ps)
      else cleanParts rooted (p # stack) ps)"

definition pathClean :: "gotext \<Rightarrow> gotext" where
  "pathClean p =
     (if p = [] then [46]
      else let rooted = hd p = 47; body = joinSlash (cleanParts rooted [] (splitSlash p))
           in if rooted then 47 # body else if body = [] then [46] else body)"

definition lastElem :: "gotext \<Rightarrow> gotext" where
  "lastElem p = rev (takeWhile (\<lambda>c. c \<noteq> 47) (rev p))"

definition pathDir :: "gotext \<Rightarrow> gotext" where
  "pathDir p = pathClean (rev (dropWhile (\<lambda>c. c \<noteq> 47) (rev p)))"

definition pathBase :: "gotext \<Rightarrow> gotext" where
  "pathBase p =
     (if p = [] then [46]
      else let q = rev (dropWhile (\<lambda>c. c = 47) (rev p)) in if lastElem q = [] then [47] else lastElem q)"

definition pathExt :: "gotext \<Rightarrow> gotext" where
  "pathExt p = (let b = lastElem p in if 46 \<in> set b then 46 # rev (takeWhile (\<lambda>c. c \<noteq> 46) (rev b)) else [])"

definition trimSuffix :: "gotext \<Rightarrow> gotext \<Rightarrow> gotext" where
  "trimSuffix s suf =
     (if length suf \<le> length s \<and> drop (length s - length suf) s = suf then take (length s - length suf) s else s)"

text \<open>The order of text columns, by bytes, which for valid UTF-8 is that of the code points.\<close>

fun textLess :: "gotext \<Rightarrow> gotext \<Rightarrow> bool" where
  "textLess _ [] \<longleftrightarrow> False"
| "textLess [] (_ # _) \<longleftrightarrow> True"
| "textLess (a # as) (b # bs) \<longleftrightarrow> a < b \<or> a = b \<and> textLess as bs"

datatype statResult = StatOK | StatNotExist | StatError

section \<open>Editions\<close>

definition sameKeys :: "gotext \<Rightarrow> gotext \<Rightarrow> WorkRow \<Rightarrow> bool" where
  "sameKeys ak tk r \<longleftrightarrow> artist_key r = ak \<and> title_key r = tk"

definition identityIs :: "gotext \<Rightarrow> gotext \<Rightarrow> gotext \<Rightarrow> WorkRow \<Rightarrow> bool" where
  "identityIs ak tk ed r \<longleftrightarrow> sameKeys ak tk r \<and> edition r = ed"

definition resolveEditionTx :: "DBQueue \<Rightarrow> gotext \<Rightarrow> gotext \<Rightarrow> Track \<Rightarrow> gotext \<Rightarrow> QDB \<Rightarrow> QueueError + gotext" where
  "resolveEditionTx q ak tk track sourcePath db =
     (case editionRule q of
        None \<Rightarrow> Inr EditionNone
      | Some rule \<Rightarrow>
          (let ed = rule track
           in if ed \<noteq> EditionNone \<and> ed \<noteq> EditionInstrumental then Inl (ErrInvalid (lit ''unknown edition''))
              else if sourcePath = [] then Inr ed
              else case sort_key (\<lambda>r. if edition r = ed then 0 else 1 :: nat) (sort_key rowid
                     (matched (\<lambda>r. sameKeys ak tk r \<and> source_path (paths r) = sourcePath) db)) of
                     [] \<Rightarrow> Inr ed
                   | r # _ \<Rightarrow> Inr (edition r)))"

definition EditionOf :: "(gotext \<Rightarrow> gotext) \<Rightarrow> DBQueue \<Rightarrow> Track \<Rightarrow> gotext \<Rightarrow> QDB \<Rightarrow> QueueError + gotext" where
  "EditionOf nkey q track sourcePath db =
     (if editionRule q = None then Inr EditionNone
      else case IdentityKeys nkey track of (ak, tk) \<Rightarrow> resolveEditionTx q ak tk track sourcePath db)"

definition SungRowMissing :: "(gotext \<Rightarrow> gotext) \<Rightarrow> Track \<Rightarrow> gotext \<Rightarrow> QDB \<Rightarrow> bool" where
  "SungRowMissing nkey track sourcePath db =
     (case IdentityKeys nkey track of (ak, tk) \<Rightarrow>
        matched (identityIs ak tk EditionInstrumental) db \<noteq> [] \<and>
        matched (identityIs ak tk EditionNone) db = [] \<and>
        matched (\<lambda>r. identityIs ak tk EditionInstrumental r \<and> source_path (paths r) = sourcePath) db = [])"

section \<open>Rows whose source file was replaced\<close>

record goneSourceMove =
  mvID :: int
  oldPath :: gotext
  gonePath :: gotext
  keepLink :: bool

definition SameStemSibling :: "gotext \<Rightarrow> gotext \<Rightarrow> bool" where
  "SameStemSibling a b \<longleftrightarrow> a \<noteq> [] \<and> b \<noteq> [] \<and> a \<noteq> b \<and> pathDir a = pathDir b \<and>
     trimSuffix (pathBase a) (pathExt a) = trimSuffix (pathBase b) (pathExt b)"

definition scanByID :: "int \<Rightarrow> QDB \<Rightarrow> ScanRow option" where
  "scanByID i db = List.find (\<lambda>s. sr_id s = i) (scan_results db)"

text \<open>The row judged, and the file its \<open>scan_result_id\<close> names, if a row is found.\<close>

definition readGoneSourceRow :: "(gotext \<Rightarrow> gotext) \<Rightarrow> DBQueue \<Rightarrow> Inputs \<Rightarrow> QDB \<Rightarrow> QueueError + (goneSourceMove \<times> gotext) option" where
  "readGoneSourceRow nkey q inputs db =
     (case IdentityKeys nkey (inTrack inputs) of (ak, tk) \<Rightarrow>
        (case resolveEditionTx q ak tk (inTrack inputs) (inSourcePath inputs) db of
           Inl e \<Rightarrow> Inl e
         | Inr ed \<Rightarrow>
             (case matched (\<lambda>r. identityIs ak tk ed r \<and> \<not> processing r) db of
                [] \<Rightarrow> Inr None
              | r # _ \<Rightarrow> Inr (Some (\<lparr>mvID = rowid r, oldPath = source_path (paths r), gonePath = [], keepLink = False\<rparr>,
                   (case scan_result_id r of None \<Rightarrow> []
                    | Some i \<Rightarrow> (case scanByID i db of None \<Rightarrow> [] | Some s \<Rightarrow> file_path s)))))))"

definition planLibraryRelink :: "(gotext \<Rightarrow> statResult) \<Rightarrow> goneSourceMove \<Rightarrow> Inputs \<Rightarrow> QDB \<Rightarrow> goneSourceMove option" where
  "planLibraryRelink stat m inputs db =
     (if inLibraryID inputs \<le> 0 \<and> inScanResultID inputs \<le> 0 then None
      else let stem = trimSuffix (inSourcePath inputs) (pathExt (inSourcePath inputs));
               lib = (if inLibraryID inputs \<noteq> 0 then Some (inLibraryID inputs)
                      else map_option library_id (scanByID (inScanResultID inputs) db));
               siblings = map file_path (sort_key sr_id (filter (\<lambda>s.
                 Some (library_id s) = lib \<and> \<not> textLess (file_path s) (stem @ [46]) \<and>
                 textLess (file_path s) (stem @ [47]) \<and> file_path s \<noteq> inSourcePath inputs \<and>
                 \<not> (\<exists>l \<in> set (links db). snd l = sr_id s \<and> fst l \<noteq> mvID m)) (scan_results db)))
           in case List.find (\<lambda>p. SameStemSibling p (inSourcePath inputs) \<and> stat p = StatNotExist) siblings of
                None \<Rightarrow> None
              | Some p \<Rightarrow> Some (m\<lparr>gonePath := p, keepLink := True\<rparr>))"

definition planGoneSourceMove :: "(gotext \<Rightarrow> gotext) \<Rightarrow> DBQueue \<Rightarrow> (gotext \<Rightarrow> statResult) \<Rightarrow> Inputs \<Rightarrow> QDB
    \<Rightarrow> QueueError + goneSourceMove option" where
  "planGoneSourceMove nkey q stat inputs db =
     (let new = inSourcePath inputs
      in if new = [] then Inr None
         else case readGoneSourceRow nkey q inputs db of
           Inl e \<Rightarrow> Inl e
         | Inr None \<Rightarrow> Inr None
         | Inr (Some (m, linked)) \<Rightarrow> Inr
             (if oldPath m = new
              then (if linked = [] then Some m
                    else if SameStemSibling linked new
                      then (if stat linked = StatNotExist then Some (m\<lparr>gonePath := linked\<rparr>) else None)
                    else planLibraryRelink stat m inputs db)
              else if \<not> SameStemSibling (oldPath m) new then None
              else if stat (oldPath m) \<noteq> StatNotExist then None
              else if stat new \<noteq> StatOK then None
              else Some (m\<lparr>gonePath := oldPath m\<rparr>)))"

definition movedTo :: "gotext \<Rightarrow> int option \<Rightarrow> WorkRow \<Rightarrow> WorkRow" where
  "movedTo new sr r = r\<lparr>paths := (paths r)\<lparr>source_path := new\<rparr>, scan_result_id := coalesce sr (scan_result_id r)\<rparr>"

definition retiredGone :: "WorkRow \<Rightarrow> bool" where
  "retiredGone r \<longleftrightarrow> status r = StatusDone \<and> last_error r = UnresolvableGoneError"

definition resurrectRow :: "int \<Rightarrow> WorkRow \<Rightarrow> WorkRow" where
  "resurrectRow now r = ClearWordRecheckQueued (r\<lparr>status := StatusPending, attempts := 0, next_attempt_at := now,
     completed_at := None, last_error := [], outcome_type := None, outcome_detail := None,
     timing := (timing r)\<lparr>timing_outcome := None\<rparr>\<rparr>)"

definition unretireRow :: "WorkRow \<Rightarrow> WorkRow" where
  "unretireRow r = r\<lparr>last_error := [], source_gone_at := None\<rparr>"

text \<open>The three path updates in turn: the first that matches a row counts.\<close>

definition moveRow :: "goneSourceMove \<Rightarrow> gotext \<Rightarrow> int option \<Rightarrow> int \<Rightarrow> QDB \<Rightarrow> bool \<times> QDB" where
  "moveRow m new sr now db =
     (let relink = oldPath m = new;
          at_old = (\<lambda>p r. p r \<and> source_path (paths r) = oldPath m);
          path_only = (\<lambda>db. updateOne (mvID m) (at_old (\<lambda>r. \<not> processing r)) (movedTo new sr) db)
      in if relink then path_only db
         else case updateOne (mvID m) (at_old (\<lambda>r. retiredGone r \<and> source_gone_at r = None \<and> notHandProtected r))
                (onStatus \<circ> resurrectRow now \<circ> movedTo new sr) db of
           (True, db1) \<Rightarrow> (True, db1)
         | (False, _) \<Rightarrow>
             (case updateOne (mvID m) (at_old (\<lambda>r. retiredGone r \<and> source_gone_at r \<noteq> None))
                (clearFailureClass \<circ> unretireRow \<circ> movedTo new sr) db of
                (True, db2) \<Rightarrow> (True, db2)
              | (False, _) \<Rightarrow> path_only db))"

definition moveScanResult :: "Inputs \<Rightarrow> QDB \<Rightarrow> int" where
  "moveScanResult inputs db =
     (if inScanResultID inputs > 0 then inScanResultID inputs
      else case sort_key sr_id (filter (\<lambda>s. file_path s = inSourcePath inputs \<and>
               (inLibraryID inputs > 0 \<longrightarrow> library_id s = inLibraryID inputs)) (scan_results db)) of
             [] \<Rightarrow> 0 | s # _ \<Rightarrow> sr_id s)"

definition dropGoneScan :: "gotext \<Rightarrow> int \<Rightarrow> QDB \<Rightarrow> QDB" where
  "dropGoneScan gone sr db =
     deleteScan (\<lambda>s. file_path s = gone \<and> sr_id s \<noteq> sr \<and>
       Some (library_id s) = map_option library_id (scanByID sr db) \<and>
       \<not> (\<exists>r \<in> set (work_queue db). (rowid r, sr_id s) \<in> set (links db) \<and> processing r)) db"

definition settleMovedScan :: "int \<Rightarrow> int \<Rightarrow> QDB \<Rightarrow> QDB" where
  "settleMovedScan w sr db =
     setScan ScanDone (\<lambda>s. sr_id s = sr \<and> (\<exists>r \<in> set (work_queue db). rowid r = w \<and> terminal r) \<and>
       \<not> liveSibling db w sr) db"

definition moveGoneSourceTx :: "goneSourceMove \<Rightarrow> Inputs \<Rightarrow> int \<Rightarrow> QDB \<Rightarrow> bool \<times> QDB" where
  "moveGoneSourceTx m inputs now db =
     (let new = inSourcePath inputs; sr = moveScanResult inputs db;
          srCol = (if keepLink m then None else nullableID sr)
      in if oldPath m = new \<and> sr \<le> 0 then (False, db)
         else case moveRow m new srCol now db of
           (False, _) \<Rightarrow> (False, db)
         | (True, db1) \<Rightarrow>
             (if sr \<le> 0 then (True, db1)
              else let db2 = (if gonePath m = [] then db1 else dropGoneScan (gonePath m) sr db1);
                       db3 = addLink (mvID m) sr db2
                   in (True, if gonePath m = [] then db3 else settleMovedScan (mvID m) sr db3)))"

definition RepointGoneSource :: "(gotext \<Rightarrow> gotext) \<Rightarrow> DBQueue \<Rightarrow> (gotext \<Rightarrow> statResult) \<Rightarrow> instant \<Rightarrow> Inputs \<Rightarrow> QDB
    \<Rightarrow> (QueueError + bool) \<times> QDB" where
  "RepointGoneSource nkey q stat now inputs db =
     (case planGoneSourceMove nkey q stat inputs db of
        Inl e \<Rightarrow> (Inl e, db)
      | Inr None \<Rightarrow> (Inr False, db)
      | Inr (Some m) \<Rightarrow> (case moveGoneSourceTx m inputs (formatTime now) db of (ok, db') \<Rightarrow> (Inr ok, db')))"

section \<open>Reopening a row for a scan\<close>

definition reopenWordRecheckForScan :: "(gotext \<Rightarrow> gotext) \<Rightarrow> Inputs \<Rightarrow> gotext \<Rightarrow> instant \<Rightarrow> QDB \<Rightarrow> QDB" where
  "reopenWordRecheckForScan nkey inputs ed now db =
     (case IdentityKeys nkey (inTrack inputs) of (ak, tk) \<Rightarrow>
        (case matched (\<lambda>r. identityIs ak tk ed r \<and> status r = StatusDeferred \<and> wordQueued r) db of
           [] \<Rightarrow> db
         | r # _ \<Rightarrow> snd (ReopenDoneRowTx (rowid r) now db)))"

definition categoricalFileless :: "WorkRow \<Rightarrow> bool" where
  "categoricalFileless r \<longleftrightarrow> outcome_type r = None \<and> sync_tier r = None \<and> notHandProtected r"

definition linkedElsewhere :: "QDB \<Rightarrow> gotext \<Rightarrow> WorkRow \<Rightarrow> bool" where
  "linkedElsewhere db src r \<longleftrightarrow>
     (\<exists>s \<in> set (scan_results db). (rowid r, sr_id s) \<in> set (links db) \<and> file_path s \<noteq> src \<and> sr_status s \<noteq> ScanDone)"

definition reopenCategoricalForScan :: "(gotext \<Rightarrow> gotext) \<Rightarrow> Inputs \<Rightarrow> gotext \<Rightarrow> instant \<Rightarrow> QDB \<Rightarrow> (QueueError + unit) \<times> QDB" where
  "reopenCategoricalForScan nkey inputs ed now db =
     (case IdentityKeys nkey (inTrack inputs) of (ak, tk) \<Rightarrow>
        (case matched (\<lambda>r. identityIs ak tk ed r \<and> timing_outcome (timing r) = Some (lit ''categorical'')) db of
           [] \<Rightarrow> (Inr (), db)
         | r # _ \<Rightarrow>
             (let held = upgrade_queued r \<or> wordQueued r;
                  live = linkedElsewhere db (inSourcePath inputs) r
              in if \<not> held \<and> retryable r then (Inr (), db)
                 else if held \<or> live \<or> \<not> categoricalFileless r \<or> status r \<noteq> StatusDone
                   then (Inl ErrCategoricalNotReopened, db)
                 else case ReopenDoneRowTx (rowid r) now db of
                   (False, _) \<Rightarrow> (Inl ErrCategoricalNotReopened, db)
                 | (True, db') \<Rightarrow> (Inr (), updateWork (byID (rowid r) (\<lambda>_. True))
                     (\<lambda>r. r\<lparr>timing := (timing r)\<lparr>timing_stamp_source := None\<rparr>\<rparr>) db'))))"

definition reopenAdoptedForScan :: "(gotext \<Rightarrow> gotext) \<Rightarrow> Inputs \<Rightarrow> gotext \<Rightarrow> instant \<Rightarrow> QDB \<Rightarrow> (QueueError + unit) \<times> QDB" where
  "reopenAdoptedForScan nkey inputs ed now db =
     (case IdentityKeys nkey (inTrack inputs) of (ak, tk) \<Rightarrow>
        (let p = (\<lambda>r. identityIs ak tk ed r \<and> status r = StatusDone \<and> adopted_at r \<noteq> None \<and>
                      source_path (paths r) = inSourcePath inputs \<and> notHandProtected r)
         in case matched p db of
              [] \<Rightarrow> (Inr (), db)
            | r # _ \<Rightarrow>
                (case ReopenDoneRowTx (rowid r) now (updateWork p (\<lambda>r. r\<lparr>adopted_at := None\<rparr>) db) of
                   (True, db') \<Rightarrow> (Inr (), db')
                 | (False, _) \<Rightarrow> (Inl (ErrInvalid (lit ''adopted row was not reopened'')), db))))"

section \<open>Enqueue\<close>

definition zeroWord :: RowWord where
  "zeroWord = \<lparr>word_timing_state = None, word_timing_generation = None, word_timing_checked_at = None\<rparr>"

definition zeroTiming :: RowTiming where
  "zeroTiming = \<lparr>timing_outcome = None, overrun_magnitude = None, overrun_ratio = None, evaluated_at = None, timing_stamp_source = None\<rparr>"

definition zeroTelemetry :: RowTelemetry where
  "zeroTelemetry = \<lparr>music_sum = None, vocal_peak = None, speech_mean = None, vocal_class = None, detector_version = None, gate_complete = None\<rparr>"

definition zeroProvenance :: RowProvenance where
  "zeroProvenance = \<lparr>isrc = None, mbid = None, fetched_at = None, writer_version = None\<rparr>"

text \<open>A new row with the defaults of the schema; \<open>wall\<close> is SQLite's clock.\<close>

definition defaultRow :: "int \<Rightarrow> int \<Rightarrow> gotext \<Rightarrow> gotext \<Rightarrow> gotext \<Rightarrow> RowPaths \<Rightarrow> WorkRow" where
  "defaultRow i wall ak tk ed ps = \<lparr>rowid = i, artist_key = ak, title_key = tk, edition = ed, paths = ps,
     scan_result_id = None, status = StatusPending, prev_status = None, priority = 0, attempts = 0, miss_count = 0,
     refused_waits = 0, providers_version = 0, detect_instrumental = None, next_attempt_at = 0, last_error = [],
     failure_class = None, created_at = wall, completed_at = None, claimed_at = None, adopted_at = None,
     batch_seq = None, instrumental_result = None, telemetry = zeroTelemetry, provenance = zeroProvenance,
     provider_lane = None, upstream = None, outcome_type = None, outcome_detail = None, timing = zeroTiming,
     word = zeroWord, sync_tier = None, upgrade_checked_at = None, upgrade_queued = False, upgrade_miss_count = 0,
     missync_recheck_generation = None, lyric_edited_at = None, lyric_offset_ms = None,
     manual_instrumental_at = None, source_gone_at = None\<rparr>"

definition inputPaths :: "Inputs \<Rightarrow> RowPaths" where
  "inputPaths i = \<lparr>artist = ArtistName (inTrack i), title = TrackName (inTrack i), album = AlbumName (inTrack i),
     album_artist = AlbumArtist (inTrack i), outdir = inOutdir i, filename = inFilename i,
     source_path = inSourcePath i, output_paths = marshalOutputPaths i\<rparr>"

definition freshRow :: "DBQueue \<Rightarrow> int \<Rightarrow> int \<Rightarrow> int \<Rightarrow> gotext \<Rightarrow> gotext \<Rightarrow> gotext \<Rightarrow> Inputs \<Rightarrow> int \<Rightarrow> WorkRow" where
  "freshRow q i wall now ak tk ed inputs prio = (defaultRow i wall ak tk ed (inputPaths inputs))\<lparr>
     scan_result_id := nullableID (inScanResultID inputs), priority := prio, providers_version := queueGeneration q,
     detect_instrumental := inDetectInstrumental inputs, next_attempt_at := now\<rparr>"

text \<open>
  The \<open>DO UPDATE SET\<close> list: \<open>x\<close> is the row that would have been inserted (\<open>excluded\<close>), \<open>refresh\<close> the
  bound \<open>refreshFailedBackoff\<close>. The eight path columns share one condition.
\<close>

definition keepsPaths :: "WorkRow \<Rightarrow> bool" where
  "keepsPaths r \<longleftrightarrow> terminal r \<or> processing r \<or> wordQueued r \<or> upgrade_queued r"

definition conflictRow :: "bool \<Rightarrow> WorkRow \<Rightarrow> WorkRow \<Rightarrow> WorkRow" where
  "conflictRow refresh x r = r\<lparr>
     paths := (if keepsPaths r then paths r else paths x),
     scan_result_id := coalesce (scan_result_id r) (scan_result_id x),
     priority := (if priority x \<ge> 10 then priority x
                  else if status r = StatusDeferred then priority r
                  else max (priority r) (priority x)),
     status := (if status r = StatusPending then StatusPending else status r),
     next_attempt_at := (if terminal r \<or> processing r then next_attempt_at r
                         else if status r = StatusFailed \<and> refresh then next_attempt_at x
                         else if status r = StatusFailed then next_attempt_at r
                         else if status r = StatusDeferred \<and> refresh then next_attempt_at x
                         else if status r = StatusDeferred then next_attempt_at r
                         else next_attempt_at x),
     last_error := (if status r = StatusPending then [] else last_error r),
     completed_at := (if terminal r then completed_at r
                      else if wordQueued r then completed_at r
                      else if upgrade_queued r then completed_at r
                      else None)\<rparr>"

definition upsert :: "DBQueue \<Rightarrow> int \<Rightarrow> int \<Rightarrow> gotext \<Rightarrow> gotext \<Rightarrow> gotext \<Rightarrow> Inputs \<Rightarrow> int \<Rightarrow> QDB \<Rightarrow> WorkRow \<times> QDB" where
  "upsert q wall now ak tk ed inputs prio db =
     (let i = lastRowid db + 1; x = freshRow q i wall now ak tk ed inputs prio;
          refresh = prio \<ge> PriorityWebhook
      in case matched (identityIs ak tk ed) db of
           [] \<Rightarrow> (x, db\<lparr>work_queue := work_queue db @ [x], lastRowid := i\<rparr>)
         | r # _ \<Rightarrow> (conflictRow refresh x r, updateWork (identityIs ak tk ed) (onStatus \<circ> conflictRow refresh x) db))"

definition settleTerminalScan :: "int \<Rightarrow> int \<Rightarrow> QDB \<Rightarrow> QDB" where
  "settleTerminalScan sr w db =
     setScan ScanDone (\<lambda>s. sr_id s = sr \<and> sr_status s \<noteq> ScanDone \<and> \<not> liveSibling db w sr) db"

definition reopensForScan :: "(gotext \<Rightarrow> gotext) \<Rightarrow> Inputs \<Rightarrow> gotext \<Rightarrow> instant \<Rightarrow> QDB \<Rightarrow> (QueueError + unit) \<times> QDB" where
  "reopensForScan nkey inputs ed now db =
     (if \<not> inFromScan inputs then (Inr (), db)
      else let db1 = reopenWordRecheckForScan nkey inputs ed now db
           in case (if inReopenCategorical inputs then reopenCategoricalForScan nkey inputs ed now db1 else (Inr (), db1)) of
                (Inl e, db2) \<Rightarrow> (Inl e, db2)
              | (Inr _, db2) \<Rightarrow> (if inReopenAdopted inputs then reopenAdoptedForScan nkey inputs ed now db2 else (Inr (), db2)))"

definition enqueueBody :: "(gotext \<Rightarrow> gotext) \<Rightarrow> DBQueue \<Rightarrow> goneSourceMove option \<Rightarrow> int \<Rightarrow> instant \<Rightarrow> Inputs \<Rightarrow> int
    \<Rightarrow> QDB \<Rightarrow> (QueueError + WorkItem) \<times> QDB" where
  "enqueueBody nkey q move wall now inputs prio db =
     (let db1 = (case move of None \<Rightarrow> db | Some m \<Rightarrow> snd (moveGoneSourceTx m inputs (formatTime now) db))
      in case IdentityKeys nkey (inTrack inputs) of (ak, tk) \<Rightarrow>
         (case resolveEditionTx q ak tk (inTrack inputs) (inSourcePath inputs) db1 of
            Inl e \<Rightarrow> (Inl e, db1)
          | Inr ed \<Rightarrow>
              (case reopensForScan nkey inputs ed now db1 of
                 (Inl e, db2) \<Rightarrow> (Inl e, db2)
               | (Inr _, db2) \<Rightarrow>
                   (case upsert q wall (formatTime now) ak tk ed inputs prio db2 of (item, db3) \<Rightarrow>
                      (let sr = inScanResultID inputs;
                           db4 = (if sr > 0 then addLink (rowid item) sr db3 else db3);
                           db5 = (if sr > 0 \<and> inFromScan inputs \<and> terminal item
                                  then settleTerminalScan sr (rowid item) db4 else db4);
                           db6 = (if prio \<ge> PriorityWebhook
                                  then updateWork (\<lambda>r. batch_seq r \<noteq> None) (\<lambda>r. r\<lparr>batch_seq := None\<rparr>) db5 else db5)
                       in (Inr (scanWorkItem item), db6))))))"

text \<open>\<open>enqueueTx\<close> is the transaction, for a move planned on an earlier state; \<open>Enqueue\<close> plans it first.\<close>

definition enqueueTx :: "(gotext \<Rightarrow> gotext) \<Rightarrow> DBQueue \<Rightarrow> goneSourceMove option \<Rightarrow> int \<Rightarrow> instant \<Rightarrow> Inputs \<Rightarrow> int
    \<Rightarrow> QDB \<Rightarrow> (QueueError + WorkItem) \<times> QDB" where
  "enqueueTx nkey q move wall now inputs prio = inTx (enqueueBody nkey q move wall now inputs prio)"

definition Enqueue :: "(gotext \<Rightarrow> gotext) \<Rightarrow> DBQueue \<Rightarrow> (gotext \<Rightarrow> statResult) \<Rightarrow> int \<Rightarrow> instant \<Rightarrow> Inputs \<Rightarrow> int
    \<Rightarrow> QDB \<Rightarrow> (QueueError + WorkItem) \<times> QDB" where
  "Enqueue nkey q stat wall now inputs prio db =
     (case planGoneSourceMove nkey q stat inputs db of
        Inl e \<Rightarrow> (Inl e, db)
      | Inr move \<Rightarrow> enqueueTx nkey q move wall now inputs prio db)"

section \<open>Cleanup and cancelling\<close>

definition cancellable :: "WorkRow \<Rightarrow> bool" where
  "cancellable r \<longleftrightarrow> retryable r \<and> notWordRecheckQueued r"

text \<open>A row is deleted after the results it alone kept alive are offered to the scan again.\<close>

definition deleteQueued :: "(WorkRow \<Rightarrow> bool) \<Rightarrow> int \<Rightarrow> QDB \<Rightarrow> int \<times> QDB" where
  "deleteQueued p i db =
     (let db1 = resetScanResultsPending i db
      in (int (length (matched (byID i p) db1)), deleteWork (byID i p) db1))"

fun cleanupLoop :: "int list \<Rightarrow> int \<Rightarrow> QDB \<Rightarrow> int \<times> QDB" where
  "cleanupLoop [] n db = (n, db)"
| "cleanupLoop (i # is) n db = (case deleteQueued cancellable i db of (c, db') \<Rightarrow> cleanupLoop is (n + c) db')"

definition Cleanup :: "(gotext \<Rightarrow> gotext) \<Rightarrow> DBQueue \<Rightarrow> Inputs \<Rightarrow> QDB \<Rightarrow> (QueueError + int) \<times> QDB" where
  "Cleanup nkey q inputs db =
     (case IdentityKeys nkey (inTrack inputs) of (ak, tk) \<Rightarrow>
        (case resolveEditionTx q ak tk (inTrack inputs) (inSourcePath inputs) db of
           Inl e \<Rightarrow> (Inl e, db)
         | Inr ed \<Rightarrow>
             (case cleanupLoop (map rowid (matched (\<lambda>r. identityIs ak tk ed r \<and> cancellable r) db)) 0 db of
                (n, db') \<Rightarrow> (Inr n, db'))))"

definition outputPathKey :: "OutputPath \<Rightarrow> gotext" where
  "outputPathKey p = opOutdir p @ 0 # opFilename p"

definition keepSetForRow :: "int \<Rightarrow> int \<Rightarrow> QDB \<Rightarrow> gotext list" where
  "keepSetForRow w lib db =
     map (\<lambda>s. outputPathKey \<lparr>opOutdir = sr_outdir s, opFilename = sr_filename s\<rparr>)
       (filter (\<lambda>s. (w, sr_id s) \<in> set (links db) \<and> library_id s \<noteq> lib) (scan_results db))"

definition linkedToLibrary :: "QDB \<Rightarrow> int \<Rightarrow> WorkRow \<Rightarrow> bool" where
  "linkedToLibrary db lib r \<longleftrightarrow> (\<exists>s \<in> set (scan_results db). (rowid r, sr_id s) \<in> set (links db) \<and> library_id s = lib)"

fun cancelLoop :: "bool \<Rightarrow> int \<Rightarrow> WorkRow list \<Rightarrow> int \<times> int \<Rightarrow> QDB \<Rightarrow> (int \<times> int) \<times> QDB" where
  "cancelLoop dryRun lib [] counts db = (counts, db)"
| "cancelLoop dryRun lib (c # cs) (deleted, updated) db =
     (let keep = keepSetForRow (rowid c) lib db;
          ps = (case output_paths (paths c) of None \<Rightarrow> [] | Some ps \<Rightarrow> ps);
          filtered = filter (\<lambda>p. outputPathKey p \<in> set keep) ps
      in if filtered = []
         then (if dryRun then cancelLoop dryRun lib cs (deleted + 1, updated) db
               else case deleteQueued retryable (rowid c) db of
                 (n, db') \<Rightarrow> cancelLoop dryRun lib cs (if n = 1 then deleted + 1 else deleted, updated) db')
         else if length filtered = length ps then cancelLoop dryRun lib cs (deleted, updated) db
         else if dryRun then cancelLoop dryRun lib cs (deleted, updated + 1) db
         else case updateOne (rowid c) retryable (\<lambda>r. r\<lparr>paths := (paths r)\<lparr>output_paths := Some filtered\<rparr>\<rparr>) db of
           (ok, db') \<Rightarrow> cancelLoop dryRun lib cs (deleted, if ok then updated + 1 else updated) db')"

definition cancelByLibrary :: "bool \<Rightarrow> int \<Rightarrow> QDB \<Rightarrow> (int \<times> int) \<times> QDB" where
  "cancelByLibrary dryRun lib db =
     cancelLoop dryRun lib (sort_key rowid (matched (\<lambda>r. linkedToLibrary db lib r \<and> cancellable r) db)) (0, 0) db"

end
