(* ===== verification/QueueAdmin.thy ===== *)
theory QueueAdmin
  imports QueueWorker QueueIntake
begin

text \<open>
  The operations of the queue that no worker holds a row for: the operator's retries, rechecks,
  clears and marks, the sweeps that re-queue settled rows (word recheck, upgrade), the reversal of
  instrumental verdicts, the adoption of settled files, the columns stamped by id, and the counts
  that preview them.
\<close>

section \<open>Retry, recheck, clear\<close>

definition retryRow :: "instant \<Rightarrow> WorkRow \<Rightarrow> WorkRow" where
  "retryRow now r = ClearWordRecheckQueued (r\<lparr>status := StatusPending, attempts := 0,
     next_attempt_at := formatTime now, last_error := []\<rparr>)"

definition Retry :: "instant \<Rightarrow> int \<Rightarrow> QDB \<Rightarrow> (QueueError + WorkItem) \<times> QDB" where
  "Retry now i db =
     (case updateReturning i (\<lambda>r. status r = StatusFailed) (retryRow now) db of
        (Inl _, _) \<Rightarrow> ((if matched (byID i (\<lambda>_. True)) db = [] then Inl ErrNoRows else Inl ErrNotRetryable), db)
      | (Inr item, db') \<Rightarrow> (Inr item, setLinkedScan i [ScanProcessing, ScanFailed] ScanPending db'))"

text \<open>The library scope of a recheck: every row, or the rows linked to one library.\<close>

definition recheckLibraryClause :: "int option \<Rightarrow> QDB \<Rightarrow> WorkRow \<Rightarrow> bool" where
  "recheckLibraryClause lib db r = (case lib of None \<Rightarrow> True | Some l \<Rightarrow> linkedToLibrary db l r)"

definition recheckDeferredWhere :: "WorkRow \<Rightarrow> bool" where
  "recheckDeferredWhere r \<longleftrightarrow> status r = StatusDeferred \<and> notWordRecheckQueued r"

definition RecheckDeferred :: "instant \<Rightarrow> int option \<Rightarrow> QDB \<Rightarrow> int \<times> QDB" where
  "RecheckDeferred now lib db =
     (let p = (\<lambda>r. recheckDeferredWhere r \<and> recheckLibraryClause lib db r)
      in (int (length (matched p db)), updateWork p (\<lambda>r. r\<lparr>next_attempt_at := formatTime now\<rparr>) db))"

definition CountRecheckDeferred :: "instant \<Rightarrow> int option \<Rightarrow> QDB \<Rightarrow> int" where
  "CountRecheckDeferred now lib db =
     int (length (matched (\<lambda>r. recheckDeferredWhere r \<and> next_attempt_at r > formatTime now \<and> recheckLibraryClause lib db r) db))"

definition recheckRetiredWhere :: "WorkRow \<Rightarrow> bool" where
  "recheckRetiredWhere r \<longleftrightarrow> status r = StatusUnavailable \<and> last_error r = missLimitReachedError"

definition revivedRow :: "instant \<Rightarrow> WorkRow \<Rightarrow> WorkRow" where
  "revivedRow now r = ClearWordRecheckQueued (r\<lparr>status := StatusDeferred, priority := - 100,
     next_attempt_at := formatTime now, last_error := [], completed_at := None, refused_waits := 0\<rparr>)"

definition unsettleScans :: "int option \<Rightarrow> int list \<Rightarrow> QDB \<Rightarrow> QDB" where
  "unsettleScans lib ids db = fold (\<lambda>i. setScan ScanPending (\<lambda>s. (i, sr_id s) \<in> set (links db) \<and> sr_status s = ScanDone \<and>
     (case lib of None \<Rightarrow> True | Some l \<Rightarrow> library_id s = l))) ids db"

definition recheckRetired :: "instant \<Rightarrow> int option \<Rightarrow> int option \<Rightarrow> QDB \<Rightarrow> (QueueError + int) \<times> QDB" where
  "recheckRetired now lib expected db =
     (let p = (\<lambda>r. recheckRetiredWhere r \<and> recheckLibraryClause lib db r);
          n = int (length (matched p db))
      in if expected \<noteq> None \<and> expected \<noteq> Some n then (Inl ErrRecheckRetiredCountChanged, db)
         else if n = 0 then (Inr 0, db)
         else (Inr n, unsettleScans lib (map rowid (matched p db)) (updateWork p (onStatus \<circ> revivedRow now) db)))"

definition RecheckRetired :: "instant \<Rightarrow> int option \<Rightarrow> QDB \<Rightarrow> (QueueError + int) \<times> QDB" where
  "RecheckRetired now lib = recheckRetired now lib None"

definition RecheckRetiredExpect :: "instant \<Rightarrow> int option \<Rightarrow> int \<Rightarrow> QDB \<Rightarrow> (QueueError + int) \<times> QDB" where
  "RecheckRetiredExpect now lib expected = recheckRetired now lib (Some expected)"

definition CountRecheckRetired :: "int option \<Rightarrow> QDB \<Rightarrow> int" where
  "CountRecheckRetired lib db = int (length (matched (\<lambda>r. recheckRetiredWhere r \<and> recheckLibraryClause lib db r) db))"

definition clearable :: "WorkRow \<Rightarrow> bool" where
  "clearable r \<longleftrightarrow> status r = StatusDone \<and> manual_instrumental_at r = None"

definition ClearDone :: "QDB \<Rightarrow> int \<times> QDB" where
  "ClearDone db = (int (length (matched clearable db)), deleteWork clearable db)"

definition CountDone :: "QDB \<Rightarrow> int" where
  "CountDone db = int (length (matched clearable db))"

definition ReopenBlockedTx :: "gotext \<Rightarrow> gotext \<Rightarrow> instant \<Rightarrow> QDB \<Rightarrow> int \<times> QDB" where
  "ReopenBlockedTx ak tk now db =
     foldl (\<lambda>(n, db) i. case ReopenDoneRowTx i now db of (ok, db') \<Rightarrow> (if ok then n + 1 else n, db')) (0, db)
       (map rowid (sort_key rowid (matched (\<lambda>r. sameKeys ak tk r \<and> status r = StatusDone \<and> outcome_type r = Some OutcomeBlocked) db)))"

section \<open>Instrumental verdicts\<close>

definition StampUnclassifiedMiss :: "int \<Rightarrow> InstrumentalTelemetry \<Rightarrow> QDB \<Rightarrow> bool \<times> QDB" where
  "StampUnclassifiedMiss i tel = updateOne i (\<lambda>r. status r = StatusDeferred \<and> notWordRecheckQueued r)
     (\<lambda>r. r\<lparr>instrumental_result := Some 0, telemetry := telColumns tel\<rparr>)"

definition instrumentalTelemetryGuard :: "WorkRow \<Rightarrow> bool" where
  "instrumentalTelemetryGuard r \<longleftrightarrow> instrumental_result r = Some 1 \<and> status r = StatusDone \<and> music_sum (telemetry r) = None"

definition StampInstrumentalTelemetry :: "int \<Rightarrow> InstrumentalTelemetry \<Rightarrow> QDB \<Rightarrow> bool \<times> QDB" where
  "StampInstrumentalTelemetry i tel = updateOne i instrumentalTelemetryGuard (\<lambda>r. r\<lparr>telemetry := telColumns tel\<rparr>)"

definition NeedsInstrumentalTelemetry :: "int \<Rightarrow> QDB \<Rightarrow> bool" where
  "NeedsInstrumentalTelemetry i db \<longleftrightarrow> matched (byID i instrumentalTelemetryGuard) db \<noteq> []"

definition resetInstrumentalRow :: "instant \<Rightarrow> WorkRow \<Rightarrow> WorkRow" where
  "resetInstrumentalRow now r = ClearWordRecheckQueued (r\<lparr>status := StatusDeferred, priority := - 100,
     instrumental_result := None, outcome_type := None, completed_at := None, telemetry := zeroTelemetry,
     last_error := [], refused_waits := 0, next_attempt_at := formatTime now\<rparr>)"

definition ResetInstrumental :: "instant \<Rightarrow> int \<Rightarrow> QDB \<Rightarrow> int \<times> QDB" where
  "ResetInstrumental now i db =
     (case updateOne i (\<lambda>r. instrumental_result r = Some 1 \<and> status r = StatusDone) (onStatus \<circ> resetInstrumentalRow now) db of
        (False, _) \<Rightarrow> (0, db)
      | (True, db') \<Rightarrow> (1, setLinkedScan i [ScanDone] ScanPending db'))"

definition ResetInstrumentalToUnclassified :: "int \<Rightarrow> QDB \<Rightarrow> bool \<times> QDB" where
  "ResetInstrumentalToUnclassified i = updateOne i
     (\<lambda>r. status r = StatusDeferred \<and> instrumental_result r = Some 0 \<and> notWordRecheckQueued r)
     (\<lambda>r. r\<lparr>instrumental_result := None\<rparr>)"

definition unsettledRow :: "instant \<Rightarrow> WorkRow \<Rightarrow> WorkRow" where
  "unsettledRow now r = ClearWordRecheckQueued (r\<lparr>instrumental_result := Some 0, outcome_type := None,
     provider_lane := None, upstream := None, status := StatusDeferred, completed_at := None,
     priority := PriorityScan, next_attempt_at := formatTime now, refused_waits := 0,
     last_error := lit ''instrumental verdict reversed by a tightened vocal gate'', failure_class := Some FailureOther\<rparr>)"

definition UnsettleInstrumental :: "instant \<Rightarrow> int \<Rightarrow> QDB \<Rightarrow> bool \<times> QDB" where
  "UnsettleInstrumental now i = updateOne i
     (\<lambda>r. status r = StatusDone \<and> instrumental_result r = Some 1 \<and> provider_lane r \<in> {None, Some LaneName})
     (onStatus \<circ> unsettledRow now)"

definition ManualLane :: gotext where "ManualLane = lit ''manual''"

definition manualRow :: "instant \<Rightarrow> WorkRow \<Rightarrow> WorkRow" where
  "manualRow now r = r\<lparr>manual_instrumental_at := Some (formatTime now), status := StatusDone,
     outcome_type := Some (lit ''instrumental''), outcome_detail := None, provider_lane := Some ManualLane,
     upstream := None, instrumental_result := None, sync_tier := None, word := zeroWord,
     lyric_edited_at := None, lyric_offset_ms := None,
     timing := (timing r)\<lparr>timing_outcome := None, overrun_magnitude := None, overrun_ratio := None, evaluated_at := None\<rparr>,
     refused_waits := 0, upgrade_queued := False, upgrade_checked_at := None, last_error := [],
     completed_at := Some (formatTime now)\<rparr>"

definition MarkManualInstrumentalTx :: "int \<Rightarrow> instant \<Rightarrow> QDB \<Rightarrow> (QueueError + bool) \<times> QDB" where
  "MarkManualInstrumentalTx i now db =
     (case matched (byID i (\<lambda>_. True)) db of
        [] \<Rightarrow> (Inl ErrManualInstrumentalNotFound, db)
      | r # _ \<Rightarrow>
          if processing r then (Inl ErrManualInstrumentalInFlight, db)
          else if manual_instrumental_at r \<noteq> None then (Inr False, db)
          else case settleTx i (\<lambda>r. \<not> processing r \<and> manual_instrumental_at r = None) (manualRow now) db of
            (ok, db') \<Rightarrow> (Inr ok, db'))"

definition unmarkedRow :: "instant \<Rightarrow> WorkRow \<Rightarrow> WorkRow" where
  "unmarkedRow now r = r\<lparr>manual_instrumental_at := None, status := StatusDeferred, priority := PriorityScan,
     outcome_type := None, outcome_detail := None, provider_lane := None, upstream := None, completed_at := None,
     attempts := 0, next_attempt_at := formatTime now, last_error := [], refused_waits := 0\<rparr>"

definition UnmarkManualInstrumentalTx :: "int \<Rightarrow> instant \<Rightarrow> QDB \<Rightarrow> bool \<times> QDB" where
  "UnmarkManualInstrumentalTx i now db =
     (case updateOne i (\<lambda>r. manual_instrumental_at r \<noteq> None \<and> \<not> processing r) (onStatus \<circ> unmarkedRow now) db of
        (False, _) \<Rightarrow> (False, db)
      | (True, db') \<Rightarrow> (True, setLinkedScan i [ScanDone] ScanPending db'))"

section \<open>The word-recheck sweep\<close>

record WordRecheckOptions =
  woGeneration :: int
  woCompletedBefore :: instant
  woRecheckAbsentBefore :: instant
  woLibraryIDs :: "int list"
  woUnexaminedCheckedBefore :: instant
  woStampChecked :: bool

definition timeBefore :: "int option \<Rightarrow> instant \<Rightarrow> bool" where
  "timeBefore t limit = (case t of None \<Rightarrow> True | Some s \<Rightarrow> s < formatTime limit)"

definition outcomeIn :: "string list \<Rightarrow> WorkRow \<Rightarrow> bool" where
  "outcomeIn names r \<longleftrightarrow> (\<exists>n \<in> set names. timing_outcome (timing r) = Some (lit n))"

definition libraryLinked :: "int list \<Rightarrow> QDB \<Rightarrow> WorkRow \<Rightarrow> bool" where
  "libraryLinked ids db r \<longleftrightarrow> ids = [] \<or> (\<exists>l \<in> set ids. linkedToLibrary db l r)"

definition linkedOutside :: "int list \<Rightarrow> QDB \<Rightarrow> WorkRow \<Rightarrow> bool" where
  "linkedOutside ids db r \<longleftrightarrow> ids \<noteq> [] \<and>
     (\<exists>s \<in> set (scan_results db). (rowid r, sr_id s) \<in> set (links db) \<and> library_id s \<notin> set ids)"

definition wordRecheckPredicate :: "WordRecheckOptions \<Rightarrow> QDB \<Rightarrow> WorkRow \<Rightarrow> bool" where
  "wordRecheckPredicate opts db r \<longleftrightarrow>
     status r = StatusDone \<and> outcome_type r = Some (lit ''synced'') \<and>
     \<not> outcomeIn [''categorical'', ''mis_synced'', ''degenerate''] r \<and>
     \<not> blankText (source_path (paths r)) \<and> last_error r \<noteq> UnresolvableGoneError \<and> notHandProtected r \<and>
     (word_timing_state (word r) = None \<and>
        (isZero (woUnexaminedCheckedBefore opts) \<or> timeBefore (word_timing_checked_at (word r)) (woUnexaminedCheckedBefore opts)) \<or>
      word_timing_state (word r) = Some WordTimingAbsent \<and> word_timing_generation (word r) \<noteq> Some (woGeneration opts) \<or>
      \<not> isZero (woRecheckAbsentBefore opts) \<and> word_timing_state (word r) = Some WordTimingAbsent \<and>
        timeBefore (word_timing_checked_at (word r)) (woRecheckAbsentBefore opts)) \<and>
     (isZero (woCompletedBefore opts) \<or> (\<exists>c. completed_at r = Some c \<and> c < formatTime (woCompletedBefore opts))) \<and>
     libraryLinked (woLibraryIDs opts) db r \<and> \<not> linkedOutside (woLibraryIDs opts) db r"

text \<open>\<open>ORDER BY completed_at\<close>: a NULL sorts first.\<close>

definition sortCompleted :: "WorkRow list \<Rightarrow> WorkRow list" where
  "sortCompleted rows = sort_key (\<lambda>r. if completed_at r = None then 0 else 1 :: nat)
     (sort_key (\<lambda>r. case completed_at r of None \<Rightarrow> 0 | Some c \<Rightarrow> c) rows)"

definition ListWordRecheckCandidates :: "WordRecheckOptions \<Rightarrow> int \<Rightarrow> QDB \<Rightarrow> int list" where
  "ListWordRecheckCandidates opts limit db =
     (let ids = map rowid (sortCompleted (sort_key rowid (matched (wordRecheckPredicate opts db) db)))
      in if limit > 0 then take (nat limit) ids else ids)"

definition CountWordRecheckCandidates :: "WordRecheckOptions \<Rightarrow> QDB \<Rightarrow> int" where
  "CountWordRecheckCandidates opts db = int (length (matched (wordRecheckPredicate opts db) db))"

definition CountWordRecheckQueued :: "int list \<Rightarrow> QDB \<Rightarrow> int" where
  "CountWordRecheckQueued ids db = int (length (matched (\<lambda>r. wordQueued r \<and> libraryLinked ids db r) db))"

definition CountWordRecheckInFlight :: "int list \<Rightarrow> QDB \<Rightarrow> int" where
  "CountWordRecheckInFlight ids db =
     int (length (matched (\<lambda>r. wordQueued r \<and> status r \<noteq> StatusDone \<and> libraryLinked ids db r) db))"

definition wordFlippedRow :: "WordRecheckOptions \<Rightarrow> instant \<Rightarrow> WorkRow \<Rightarrow> WorkRow" where
  "wordFlippedRow opts now r = r\<lparr>status := StatusDeferred, priority := PriorityMiss, next_attempt_at := formatTime now,
     attempts := 0, last_error := [], refused_waits := 0,
     word := (word r)\<lparr>word_timing_state := Some WordTimingQueued,
                      word_timing_checked_at := (if woStampChecked opts then Some (formatTime now)
                                                 else word_timing_checked_at (word r))\<rparr>\<rparr>"

text \<open>The flip of a batch: the rows reported are the states before it; a failing report rolls back.\<close>

fun markWordLoop :: "WordRecheckOptions \<Rightarrow> instant \<Rightarrow> (WorkRow \<Rightarrow> bool) \<Rightarrow> int list \<Rightarrow> WorkRow list \<Rightarrow> QDB
    \<Rightarrow> (QueueError + WorkRow list) \<times> QDB" where
  "markWordLoop opts now report [] prior db = (Inr prior, db)"
| "markWordLoop opts now report (i # is) prior db =
     (case matched (byID i (wordRecheckPredicate opts db)) db of
        [] \<Rightarrow> markWordLoop opts now report is prior db
      | r # _ \<Rightarrow>
          if \<not> report r then (Inl ErrReport, db)
          else markWordLoop opts now report is (prior @ [r])
                 (updateWork (byID i (wordRecheckPredicate opts db)) (onStatus \<circ> wordFlippedRow opts now) db))"

definition MarkWordRecheckQueued :: "int list \<Rightarrow> WordRecheckOptions \<Rightarrow> instant \<Rightarrow> (WorkRow \<Rightarrow> bool) \<Rightarrow> QDB
    \<Rightarrow> (QueueError + WorkRow list) \<times> QDB" where
  "MarkWordRecheckQueued ids opts now report = inTx (markWordLoop opts now report ids [])"

end
