(* ===== verification/QueueStamps.thy ===== *)
theory QueueStamps
  imports QueueAdmin
begin

text \<open>
  The rest of the queue's operations: the upgrade sweep that re-queues settled rows whose lyrics
  could be better, the columns stamped by row id (lane, outcome, timing verdict, word verdict,
  provenance, hand edits), the adoption of settled files that no row describes, the reconcile
  commands, and the reads that other packages decide by.
\<close>

section \<open>The upgrade sweep\<close>

definition UpgradeMaxHoldDoublings :: int where "UpgradeMaxHoldDoublings = 3"

text \<open>
  The hold of a row: the base hold in whole seconds, and as many more of it as its consecutive
  misses ask for. \<open>upgrade_miss_count\<close> starts at 0 and is only ever incremented or reset.
\<close>

definition upgradeHoldBase :: "instant \<Rightarrow> instant \<Rightarrow> int" where
  "upgradeHoldBase now holdBefore = max ((now - holdBefore) div second) 0"

definition upgradeHoldCut :: "instant \<Rightarrow> instant \<Rightarrow> int \<Rightarrow> int" where
  "upgradeHoldCut now holdBefore misses =
     formatTime holdBefore - upgradeHoldBase now holdBefore * (2 ^ nat (min misses UpgradeMaxHoldDoublings) - 1)"

definition beforeCut :: "int option \<Rightarrow> int \<Rightarrow> bool" where
  "beforeCut t limit = (case t of None \<Rightarrow> True | Some s \<Rightarrow> s < limit)"

definition belowLineRung :: "WorkRow \<Rightarrow> bool" where
  "belowLineRung r \<longleftrightarrow> outcome_type r \<in> {Some (lit ''unsynced''), Some (lit ''instrumental'')} \<or>
     outcome_type r = Some (lit ''synced'') \<and> sync_tier r = Some (lit ''unsynced'')"

definition upgradeCandidatePredicate :: "instant \<Rightarrow> instant \<Rightarrow> WorkRow \<Rightarrow> bool" where
  "upgradeCandidatePredicate now holdBefore r \<longleftrightarrow>
     status r = StatusDone \<and> belowLineRung r \<and>
     \<not> outcomeIn [''categorical'', ''mis_synced'', ''degenerate''] r \<and> \<not> wordQueued r \<and>
     \<not> blankText (source_path (paths r)) \<and> last_error r = [] \<and>
     (\<exists>c. completed_at r = Some c \<and> c < formatTime holdBefore) \<and>
     beforeCut (upgrade_checked_at r) (upgradeHoldCut now holdBefore (upgrade_miss_count r)) \<and> notHandProtected r"

definition upgradeMissyncedPredicate :: "int \<Rightarrow> instant \<Rightarrow> WorkRow \<Rightarrow> bool" where
  "upgradeMissyncedPredicate generation holdBefore r \<longleftrightarrow>
     status r = StatusDone \<and> misSynced r \<and> timing_stamp_source (timing r) \<noteq> Some (lit ''fetch'') \<and>
     missync_recheck_generation r \<noteq> Some generation \<and>
     (beforeCut (upgrade_checked_at r) (formatTime holdBefore) \<or>
      (\<exists>u e. upgrade_checked_at r = Some u \<and> evaluated_at (timing r) = Some e \<and> u < e)) \<and>
     \<not> wordQueued r \<and> \<not> blankText (source_path (paths r)) \<and> last_error r = [] \<and> notHandProtected r"

definition upgradeCandidate :: "DBQueue \<Rightarrow> instant \<Rightarrow> instant \<Rightarrow> WorkRow \<Rightarrow> bool" where
  "upgradeCandidate q now holdBefore r \<longleftrightarrow>
     upgradeCandidatePredicate now holdBefore r \<or> upgradeMissyncedPredicate (queueGeneration q) holdBefore r"

definition sortChecked :: "WorkRow list \<Rightarrow> WorkRow list" where
  "sortChecked rows = sort_key (\<lambda>r. if upgrade_checked_at r = None then 0 else 1 :: nat)
     (sort_key (\<lambda>r. case upgrade_checked_at r of None \<Rightarrow> 0 | Some c \<Rightarrow> c) rows)"

text \<open>\<open>UNION ALL\<close> of the two populations; \<open>LIMIT\<close> with a negative bound is no bound.\<close>

definition ListUpgradeCandidates :: "DBQueue \<Rightarrow> instant \<Rightarrow> instant \<Rightarrow> int \<Rightarrow> QDB \<Rightarrow> int list" where
  "ListUpgradeCandidates q now holdBefore limit db =
     (let rows = matched (upgradeCandidatePredicate now holdBefore) db @
                 matched (upgradeMissyncedPredicate (queueGeneration q) holdBefore) db;
          ids = map rowid (sortChecked (sortCompleted (sort_key rowid rows)))
      in if limit < 0 then ids else take (nat limit) ids)"

definition CountUpgradeInFlight :: "QDB \<Rightarrow> int" where
  "CountUpgradeInFlight db = int (length (matched upgrade_queued db))"

definition upgradeFlippedRow :: "instant \<Rightarrow> WorkRow \<Rightarrow> WorkRow" where
  "upgradeFlippedRow now r = r\<lparr>status := StatusPending, priority := PriorityUpgrade, next_attempt_at := formatTime now,
     attempts := 0, last_error := [], refused_waits := 0, upgrade_queued := True,
     upgrade_checked_at := Some (formatTime now)\<rparr>"

fun markUpgradeLoop :: "(WorkRow \<Rightarrow> bool) \<Rightarrow> instant \<Rightarrow> int list \<Rightarrow> int list \<Rightarrow> QDB \<Rightarrow> int list \<times> QDB" where
  "markUpgradeLoop cand now [] flipped db = (flipped, db)"
| "markUpgradeLoop cand now (i # is) flipped db =
     (case updateOne i cand (onStatus \<circ> upgradeFlippedRow now) db of
        (ok, db') \<Rightarrow> markUpgradeLoop cand now is (if ok then flipped @ [i] else flipped) db')"

definition MarkUpgradeQueued :: "DBQueue \<Rightarrow> instant \<Rightarrow> int list \<Rightarrow> instant \<Rightarrow> QDB \<Rightarrow> int list \<times> QDB" where
  "MarkUpgradeQueued q now ids holdBefore = markUpgradeLoop (upgradeCandidate q now holdBefore) now ids []"

section \<open>Columns stamped by id\<close>

text \<open>An \<open>UPDATE\<close> by id that no guard and no trigger concerns.\<close>

definition stamp :: "int \<Rightarrow> (WorkRow \<Rightarrow> WorkRow) \<Rightarrow> QDB \<Rightarrow> QDB" where
  "stamp i f = updateWork (byID i (\<lambda>_. True)) f"

definition SetProviderLane :: "int \<Rightarrow> gotext \<Rightarrow> gotext \<Rightarrow> QDB \<Rightarrow> QDB" where
  "SetProviderLane i lane up db =
     (if lane = [] then db else stamp i (\<lambda>r. r\<lparr>provider_lane := Some lane, upstream := nullIfEmpty up\<rparr>) db)"

definition ClearProviderLane :: "int \<Rightarrow> QDB \<Rightarrow> QDB" where
  "ClearProviderLane i = updateWork (byID i processing) (\<lambda>r. r\<lparr>provider_lane := None, upstream := None\<rparr>)"

definition SetInstrumentalResult :: "int \<Rightarrow> int \<Rightarrow> InstrumentalTelemetry \<Rightarrow> QDB \<Rightarrow> QDB" where
  "SetInstrumentalResult i result tel = stamp i (\<lambda>r. r\<lparr>instrumental_result := Some result, telemetry := telColumns tel\<rparr>)"

definition SetOutcomeType :: "int \<Rightarrow> gotext \<Rightarrow> QDB \<Rightarrow> QDB" where
  "SetOutcomeType i outcome = stamp i (\<lambda>r. r\<lparr>outcome_type := Some outcome\<rparr>)"

record TimingRecord =
  trOutcome :: gotext
  trMagnitude :: float64
  trRatio :: float64
  trMeasured :: bool
  trEvaluatedAt :: instant
  trSource :: gotext
  trGeneration :: "int option"
  trFileState :: "gotext option"

definition stampSource :: "TimingRecord \<Rightarrow> QueueError + gotext option" where
  "stampSource rec =
     (if trSource rec = [] then Inr None
      else if trSource rec \<in> {lit ''fetch'', lit ''sweep'', lit ''revalidate''} then Inr (Some (trSource rec))
      else Inl (ErrInvalid (lit ''unknown timing stamp source'')))"

definition timingRow :: "TimingRecord \<Rightarrow> gotext option \<Rightarrow> WorkRow \<Rightarrow> WorkRow" where
  "timingRow rec src r =
     (let redescribes = trFileState rec \<noteq> None \<and> \<not> processing r
      in r\<lparr>timing := \<lparr>timing_outcome = Some (trOutcome rec),
             overrun_magnitude = (if trMeasured rec then Some (trMagnitude rec) else None),
             overrun_ratio = (if trMeasured rec then Some (trRatio rec) else None),
             evaluated_at = (if isZero (trEvaluatedAt rec) then None else Some (formatTime (trEvaluatedAt rec))),
             timing_stamp_source = src\<rparr>,
           missync_recheck_generation := (if src = Some (lit ''fetch'') then missync_recheck_generation r else None),
           outcome_type := (if redescribes then nullIfEmpty (the (trFileState rec)) else outcome_type r),
           sync_tier := (if redescribes then None else sync_tier r),
           providers_version := (case trGeneration rec of None \<Rightarrow> providers_version r | Some g \<Rightarrow> g)\<rparr>)"

definition SetTimingOutcome :: "int \<Rightarrow> TimingRecord \<Rightarrow> QDB \<Rightarrow> (QueueError + unit) \<times> QDB" where
  "SetTimingOutcome i rec db =
     (if trOutcome rec = [] then (Inr (), db)
      else case stampSource rec of Inl e \<Rightarrow> (Inl e, db) | Inr src \<Rightarrow> (Inr (), stamp i (timingRow rec src) db))"

definition SetTimingOutcomeIfIdle :: "int \<Rightarrow> TimingRecord \<Rightarrow> QDB \<Rightarrow> (QueueError + bool) \<times> QDB" where
  "SetTimingOutcomeIfIdle i rec db =
     (if trOutcome rec = [] then (Inr False, db)
      else case stampSource rec of
        Inl e \<Rightarrow> (Inl e, db)
      | Inr src \<Rightarrow> (case updateOne i (\<lambda>r. \<not> processing r) (timingRow rec src) db of (ok, db') \<Rightarrow> (Inr ok, db')))"

record CompletionProvenance =
  cpISRC :: gotext
  cpMBID :: gotext
  cpFetchedAt :: instant
  cpWriterVersion :: gotext

definition CompletionProvenance_IsZero :: "CompletionProvenance \<Rightarrow> bool" where
  "CompletionProvenance_IsZero p \<longleftrightarrow> cpISRC p = [] \<and> cpMBID p = [] \<and> isZero (cpFetchedAt p) \<and> cpWriterVersion p = []"

definition SetCompletionProvenance :: "int \<Rightarrow> CompletionProvenance \<Rightarrow> QDB \<Rightarrow> QDB" where
  "SetCompletionProvenance i p db =
     (if CompletionProvenance_IsZero p then db
      else stamp i (\<lambda>r. r\<lparr>provenance := \<lparr>isrc = nullIfEmpty (cpISRC p), mbid = nullIfEmpty (cpMBID p),
          fetched_at = (if isZero (cpFetchedAt p) then None else Some (formatTime (cpFetchedAt p))),
          writer_version = nullIfEmpty (cpWriterVersion p)\<rparr>\<rparr>) db)"

definition SetWordTimingState :: "instant \<Rightarrow> int \<Rightarrow> WordTimingState \<Rightarrow> int \<Rightarrow> instant \<Rightarrow> QDB \<Rightarrow> (QueueError + unit) \<times> QDB" where
  "SetWordTimingState now i st generation checkedAt db =
     (if st \<noteq> WordTimingServed \<and> st \<noteq> WordTimingAbsent then (Inl (ErrInvalid (lit ''invalid state'')), db)
      else let stampAt = (if isZero checkedAt then now else checkedAt)
           in (Inr (), stamp i (\<lambda>r. r\<lparr>word := \<lparr>word_timing_state = Some st, word_timing_generation = Some generation,
                 word_timing_checked_at = Some (formatTime stampAt)\<rparr>\<rparr>) db))"

definition ClearWordTimingState :: "int \<Rightarrow> QDB \<Rightarrow> QDB" where
  "ClearWordTimingState i = updateWork
     (byID i (\<lambda>r. word_timing_state (word r) \<in> {Some WordTimingServed, Some WordTimingAbsent})) (\<lambda>r. r\<lparr>word := zeroWord\<rparr>)"

definition SyncTierWord :: gotext where "SyncTierWord = lit ''word''"
definition SyncTierLine :: gotext where "SyncTierLine = lit ''line''"
definition SyncTierUnsynced :: gotext where "SyncTierUnsynced = lit ''unsynced''"

definition validSyncTier :: "gotext \<Rightarrow> bool" where
  "validSyncTier tier \<longleftrightarrow> tier \<in> {[], SyncTierWord, SyncTierLine, SyncTierUnsynced}"

definition SetSyncTier :: "int \<Rightarrow> gotext \<Rightarrow> QDB \<Rightarrow> (QueueError + unit) \<times> QDB" where
  "SetSyncTier i tier db =
     (if \<not> validSyncTier tier then (Inl (ErrInvalid (lit ''invalid tier'')), db)
      else (Inr (), stamp i (\<lambda>r. r\<lparr>sync_tier := nullIfEmpty tier\<rparr>) db))"

text \<open>
  A guarded update whose write-ahead \<open>backup\<close> runs before the commit: the update is rolled back when
  it fails; it does not run when no row matched. \<open>None\<close> is a nil callback.
\<close>

definition backedUpdate :: "int \<Rightarrow> (WorkRow \<Rightarrow> bool) \<Rightarrow> (QDB \<Rightarrow> QDB) \<Rightarrow> bool option \<Rightarrow> QDB \<Rightarrow> (QueueError + bool) \<times> QDB" where
  "backedUpdate i p f backup db =
     (if matched (byID i p) db = [] then (Inr False, db)
      else if backup = Some False then (Inl ErrAdoptBackup, db)
      else (Inr True, f db))"

definition tierPending :: "WorkRow \<Rightarrow> bool" where
  "tierPending r \<longleftrightarrow> outcome_type r = Some (lit ''synced'') \<and> status r = StatusDone \<and> sync_tier r = None"

definition SetSyncTierIfPending :: "int \<Rightarrow> gotext \<Rightarrow> bool option \<Rightarrow> QDB \<Rightarrow> (QueueError + bool) \<times> QDB" where
  "SetSyncTierIfPending i tier backup db =
     (if \<not> validSyncTier tier then (Inl (ErrInvalid (lit ''invalid tier'')), db)
      else backedUpdate i tierPending
        (updateWork (byID i tierPending) (\<lambda>r. r\<lparr>sync_tier := nullIfEmpty tier\<rparr>)) backup db)"

definition SetLyricEdit :: "instant \<Rightarrow> int \<Rightarrow> int \<Rightarrow> QDB \<Rightarrow> QDB" where
  "SetLyricEdit now i offset = stamp i (\<lambda>r. r\<lparr>lyric_offset_ms := Some offset, lyric_edited_at := Some (formatTime now)\<rparr>)"

definition SetLyricRetime :: "instant \<Rightarrow> int \<Rightarrow> QDB \<Rightarrow> QDB" where
  "SetLyricRetime now i = stamp i (\<lambda>r. r\<lparr>lyric_offset_ms := None, lyric_edited_at := Some (formatTime now)\<rparr>)"

definition ClearLyricEdit :: "int \<Rightarrow> QDB \<Rightarrow> QDB" where
  "ClearLyricEdit i = stamp i (\<lambda>r. r\<lparr>lyric_offset_ms := None, lyric_edited_at := None\<rparr>)"

definition LyricRetimed :: "int \<Rightarrow> QDB \<Rightarrow> bool option" where
  "LyricRetimed i db =
     (case matched (byID i (\<lambda>_. True)) db of [] \<Rightarrow> None
      | r # _ \<Rightarrow> Some (lyric_edited_at r \<noteq> None \<and> lyric_offset_ms r = None))"

definition LyricEdit :: "int \<Rightarrow> QDB \<Rightarrow> (int \<times> bool) option" where
  "LyricEdit i db =
     (case matched (byID i (\<lambda>_. True)) db of [] \<Rightarrow> None
      | r # _ \<Rightarrow> Some (case lyric_offset_ms r of None \<Rightarrow> 0 | Some n \<Rightarrow> n, lyric_edited_at r \<noteq> None))"

section \<open>Adopting settled files\<close>

record AdoptCandidate =
  acScanResultID :: int
  acFilePath :: gotext
  acOutdir :: gotext
  acFilename :: gotext
  acTrack :: Track
  acArtistKey :: gotext
  acTitleKey :: gotext

record AdoptClass =
  clsOutcomeType :: gotext
  clsSyncTier :: gotext

datatype AdoptResult = AdoptNoRow | AdoptInserted | AdoptLinked | AdoptAlreadyLinked | AdoptNotSettled

definition startsWith :: "gotext \<Rightarrow> gotext \<Rightarrow> bool" where
  "startsWith p s \<longleftrightarrow> take (length p) s = p"

definition adoptCandidateOf :: "(gotext \<Rightarrow> gotext) \<Rightarrow> Track \<Rightarrow> ScanRow \<Rightarrow> AdoptCandidate" where
  "adoptCandidateOf nkey track s =
     (let keys = (if sr_artist_key s = [] \<or> sr_title_key s = [] then IdentityKeys nkey track
                  else (sr_artist_key s, sr_title_key s))
      in \<lparr>acScanResultID = sr_id s, acFilePath = file_path s, acOutdir = sr_outdir s, acFilename = sr_filename s,
          acTrack = track, acArtistKey = fst keys, acTitleKey = snd keys\<rparr>)"

definition ListUnlinkedSettled :: "(gotext \<Rightarrow> gotext) \<Rightarrow> int \<Rightarrow> gotext \<Rightarrow> int \<Rightarrow> int \<Rightarrow> QDB \<Rightarrow> AdoptCandidate list" where
  "ListUnlinkedSettled nkey lib pathPrefix afterID limit db =
     (let prefix = (if pathPrefix = [] then [] else pathClean pathPrefix);
          under = (if prefix = [] then [] else if last prefix = 47 then prefix else prefix @ [47]);
          rows = sort_key sr_id (filter (\<lambda>s. library_id s = lib \<and> sr_status s = ScanDone \<and> afterID < sr_id s \<and>
            (prefix = [] \<or> file_path s = prefix \<or> startsWith under (file_path s)) \<and>
            (\<forall>l \<in> set (links db). snd l \<noteq> sr_id s)) (scan_results db));
          trackOf = (\<lambda>s. zeroTrack\<lparr>ArtistName := sr_artist s, TrackName := sr_title s, AlbumName := sr_album s,
                                   AlbumArtist := sr_album_artist s\<rparr>)
      in map (\<lambda>s. adoptCandidateOf nkey (trackOf s) s) (if limit < 0 then rows else take (nat limit) rows))"

text \<open>\<open>backup\<close> says whether the write-ahead record of the adoption could be written.\<close>

definition linkExistingTx :: "AdoptCandidate \<Rightarrow> gotext \<Rightarrow> bool option \<Rightarrow> QDB \<Rightarrow> (QueueError + AdoptResult) \<times> QDB" where
  "linkExistingTx c ed backup db =
     (case matched (identityIs (acArtistKey c) (acTitleKey c) ed) db of
        [] \<Rightarrow> (Inr AdoptNoRow, db)
      | r # _ \<Rightarrow>
          if status r \<noteq> StatusDone then (Inr AdoptNotSettled, db)
          else if (rowid r, acScanResultID c) \<in> set (links db) then (Inr AdoptAlreadyLinked, db)
          else if backup = Some False then (Inl ErrAdoptBackup, db)
          else (Inr AdoptLinked, addLink (rowid r) (acScanResultID c) db))"

definition LinkSettled :: "DBQueue \<Rightarrow> AdoptCandidate \<Rightarrow> bool option \<Rightarrow> QDB \<Rightarrow> (QueueError + AdoptResult) \<times> QDB" where
  "LinkSettled q c backup db =
     (case resolveEditionTx q (acArtistKey c) (acTitleKey c) (acTrack c) (acFilePath c) db of
        Inl e \<Rightarrow> (Inl e, db)
      | Inr ed \<Rightarrow> linkExistingTx c ed backup db)"

definition adoptedRow :: "int \<Rightarrow> int \<Rightarrow> AdoptCandidate \<Rightarrow> AdoptClass \<Rightarrow> gotext \<Rightarrow> int \<Rightarrow> WorkRow" where
  "adoptedRow i wall c cls ed now =
     (defaultRow i wall (acArtistKey c) (acTitleKey c) ed
        \<lparr>artist = ArtistName (acTrack c), title = TrackName (acTrack c), album = AlbumName (acTrack c),
         album_artist = AlbumArtist (acTrack c), outdir = acOutdir c, filename = acFilename c, source_path = acFilePath c,
         output_paths = Some [\<lparr>opOutdir = acOutdir c, opFilename = acFilename c\<rparr>]\<rparr>)\<lparr>
       scan_result_id := Some (acScanResultID c), status := StatusDone, attempts := 0,
       outcome_type := Some (clsOutcomeType cls), sync_tier := nullIfEmpty (clsSyncTier cls), completed_at := Some now,
       word := zeroWord\<lparr>word_timing_checked_at := (if clsOutcomeType cls = lit ''synced'' then Some now else None)\<rparr>,
       adopted_at := Some now\<rparr>"

definition InsertSettledDone :: "DBQueue \<Rightarrow> int \<Rightarrow> instant \<Rightarrow> AdoptCandidate \<Rightarrow> AdoptClass \<Rightarrow> bool option \<Rightarrow> QDB
    \<Rightarrow> (QueueError + AdoptResult) \<times> QDB" where
  "InsertSettledDone q wall now c cls backup db =
     (case resolveEditionTx q (acArtistKey c) (acTitleKey c) (acTrack c) (acFilePath c) db of
        Inl e \<Rightarrow> (Inl e, db)
      | Inr ed \<Rightarrow>
          if matched (identityIs (acArtistKey c) (acTitleKey c) ed) db \<noteq> [] then linkExistingTx c ed backup db
          else if backup = Some False then (Inl ErrAdoptBackup, db)
          else let i = lastRowid db + 1; x = adoptedRow i wall c cls ed (formatTime now)
               in (Inr AdoptInserted, addLink i (acScanResultID c)
                     (db\<lparr>work_queue := work_queue db @ [x], lastRowid := i\<rparr>)))"

section \<open>Reconciling\<close>

datatype RemediatedAction = RemediatedReset | RemediatedUnsynced | RemediatedTier

record RemediatedCandidate =
  rcID :: int
  rcArtist :: gotext
  rcTitle :: gotext
  rcPriorSyncTier :: gotext
  rcPriorTiming :: gotext

definition orEmpty :: "gotext option \<Rightarrow> gotext" where
  "orEmpty t = (case t of None \<Rightarrow> [] | Some s \<Rightarrow> s)"

definition remediatedGuard :: "RemediatedCandidate \<Rightarrow> RemediatedAction \<Rightarrow> WorkRow \<Rightarrow> bool" where
  "remediatedGuard c action r \<longleftrightarrow> outcome_type r = Some (lit ''synced'') \<and> status r = StatusDone \<and>
     \<not> wordQueued r \<and> \<not> upgrade_queued r \<and> orEmpty (sync_tier r) = rcPriorSyncTier c \<and>
     orEmpty (timing_outcome (timing r)) = rcPriorTiming c \<and> artist (paths r) = rcArtist c \<and> title (paths r) = rcTitle c \<and>
     (action = RemediatedReset \<longrightarrow> last_error r = [])"

definition remediatedResetRow :: "instant \<Rightarrow> WorkRow \<Rightarrow> WorkRow" where
  "remediatedResetRow now r = r\<lparr>status := StatusDeferred, priority := - 100, attempts := 0, refused_waits := 0,
     outcome_type := None, next_attempt_at := formatTime now, last_error := [], sync_tier := None, word := zeroWord,
     upgrade_checked_at := None, upgrade_queued := False, timing := zeroTiming, missync_recheck_generation := None\<rparr>"

fun remediatedRow :: "instant \<Rightarrow> RemediatedAction \<Rightarrow> gotext \<Rightarrow> WorkRow \<Rightarrow> WorkRow" where
  "remediatedRow now RemediatedReset tier r = onStatus (remediatedResetRow now r)"
| "remediatedRow now RemediatedUnsynced tier r = r\<lparr>outcome_type := Some (lit ''unsynced''), sync_tier := None\<rparr>"
| "remediatedRow now RemediatedTier tier r = r\<lparr>sync_tier := Some tier\<rparr>"

definition offerScansOf :: "int \<Rightarrow> QDB \<Rightarrow> QDB" where
  "offerScansOf i db = setScan ScanPending (\<lambda>s. sr_status s \<noteq> ScanPending \<and> sr_status s \<noteq> ScanProcessing \<and>
     ((i, sr_id s) \<in> set (links db) \<or> (\<exists>r \<in> set (work_queue db). rowid r = i \<and> scan_result_id r = Some (sr_id s)))) db"

text \<open>The reset also drops the entry of the lyrics cache, which is not part of the queue.\<close>

definition ApplyRemediated :: "instant \<Rightarrow> RemediatedCandidate \<Rightarrow> RemediatedAction \<Rightarrow> gotext \<Rightarrow> bool option \<Rightarrow> QDB
    \<Rightarrow> (QueueError + bool) \<times> QDB" where
  "ApplyRemediated now c action tier backup db =
     (if action = RemediatedTier \<and> tier \<noteq> SyncTierWord \<and> tier \<noteq> SyncTierLine
      then (Inl (ErrInvalid (lit ''invalid tier'')), db)
      else backedUpdate (rcID c) (remediatedGuard c action)
        (\<lambda>db. let db1 = updateWork (byID (rcID c) (remediatedGuard c action)) (remediatedRow now action tier) db
              in if action = RemediatedReset then offerScansOf (rcID c) db1 else db1) backup db)"

definition upstreamPending :: "gotext \<Rightarrow> WorkRow \<Rightarrow> bool" where
  "upstreamPending lane r \<longleftrightarrow> status r = StatusDone \<and> provider_lane r = Some lane \<and> upstream r = None"

definition SetUpstreamIfPending :: "int \<Rightarrow> gotext \<Rightarrow> gotext \<Rightarrow> bool option \<Rightarrow> QDB \<Rightarrow> (QueueError + bool) \<times> QDB" where
  "SetUpstreamIfPending i lane up backup db =
     (if up = [] then (Inl (ErrInvalid (lit ''empty upstream'')), db)
      else backedUpdate i (upstreamPending lane)
        (updateWork (byID i (upstreamPending lane)) (\<lambda>r. r\<lparr>upstream := Some up\<rparr>)) backup db)"

definition ListUpstreamCandidates :: "gotext list \<Rightarrow> QDB \<Rightarrow> WorkRow list" where
  "ListUpstreamCandidates lanes db =
     (if lanes = [] then []
      else sort_key rowid (matched (\<lambda>r. status r \<in> {StatusDone, StatusProcessing} \<and> upstream r = None \<and>
             (\<exists>l \<in> set lanes. provider_lane r = Some l)) db))"

section \<open>Reads\<close>

record ListFilter =
  lfStatus :: "RowStatus option"
  lfLimit :: int

definition ListRows :: "ListFilter \<Rightarrow> QDB \<Rightarrow> WorkItem list" where
  "ListRows f db =
     (let rows = orderFIFO (matched (\<lambda>r. case lfStatus f of None \<Rightarrow> True | Some st \<Rightarrow> status r = st) db)
      in map scanWorkItem (if 0 < lfLimit f then take (nat (lfLimit f)) rows else rows))"

definition IDsBySourcePaths :: "gotext list \<Rightarrow> QDB \<Rightarrow> int list" where
  "IDsBySourcePaths ps db =
     (if ps = [] then [] else map rowid (sort_key rowid (matched (\<lambda>r. source_path (paths r) \<in> set ps \<and> \<not> processing r) db)))"

definition CountByStatus :: "QDB \<Rightarrow> RowStatus \<Rightarrow> int option" where
  "CountByStatus db st =
     (let n = length (matched (\<lambda>r. status r = st) db) in if n = 0 then None else Some (int n))"

definition CountByTimingOutcome :: "QDB \<Rightarrow> gotext \<Rightarrow> int option" where
  "CountByTimingOutcome db out =
     (let n = length (matched (\<lambda>r. timing_outcome (timing r) = Some out) db) in if n = 0 then None else Some (int n))"

text \<open>
  \<open>math.Round\<close> is half away from zero; the conversion of a value outside \<open>int\<close> is the least \<open>int\<close>
  on the 64-bit platforms the program is built for, which \<open>max 0\<close> makes 0.
\<close>

definition mathRound :: "rat \<Rightarrow> int" where
  "mathRound x = (if x < 0 then - \<lfloor>1 / 2 - x\<rfloor> else \<lfloor>x + 1 / 2\<rfloor>)"

definition judgedSeconds :: "float64 \<Rightarrow> int" where
  "judgedSeconds f = (case f of Fin x \<Rightarrow> (if mathRound x \<ge> 2 ^ 63 then 0 else max 0 (mathRound x)) | _ \<Rightarrow> 0)"

definition LookupTiming :: "(gotext \<Rightarrow> gotext) \<Rightarrow> gotext \<Rightarrow> gotext \<Rightarrow> QDB \<Rightarrow> (gotext \<times> int \<times> int) option" where
  "LookupTiming nkey a t db =
     (case matched (identityIs (nkey a) (nkey t) EditionNone) db of
        [] \<Rightarrow> None
      | r # _ \<Rightarrow>
          (case timing_outcome (timing r) of
             None \<Rightarrow> None
           | Some out \<Rightarrow>
               if out = [] then None
               else Some (out, providers_version r,
                 (case (overrun_magnitude (timing r), overrun_ratio (timing r)) of
                    (Some m, Some ratio) \<Rightarrow>
                      (if categoricalFileless r \<and> flt (Fin 1) ratio
                       then judgedSeconds (fdiv m (fsub ratio (Fin 1))) else 0)
                  | _ \<Rightarrow> 0))))"

text \<open>The artist a row is matched by (\<open>internal/normalize\<close>).\<close>

definition isGenericAlbumArtist :: "gotext \<Rightarrow> bool" where
  "isGenericAlbumArtist s \<longleftrightarrow>
     toLower (trimSpace s) \<in> {lit ''various artists'', lit ''various'', lit ''va''}"

definition ResolveArtist :: "gotext \<Rightarrow> gotext \<Rightarrow> gotext" where
  "ResolveArtist albumArtist trackArtist =
     (let trimmed = trimSpace albumArtist
      in if trimmed \<noteq> [] \<and> \<not> isGenericAlbumArtist trimmed then trimmed else trackArtist)"

text \<open>Most recent completion first, NULLs last, newest id first among equals.\<close>

definition servedOrder :: "WorkRow list \<Rightarrow> WorkRow list" where
  "servedOrder rows = sort_key (\<lambda>r. if completed_at r = None then 1 else 0 :: nat)
     (sort_key (\<lambda>r. case completed_at r of None \<Rightarrow> 0 | Some c \<Rightarrow> - c) (sort_key (\<lambda>r. - rowid r) rows))"

definition LatestServedTrack :: "gotext \<Rightarrow> QDB \<Rightarrow> Track option" where
  "LatestServedTrack lane db =
     map_option (\<lambda>r. zeroTrack\<lparr>ArtistName := ResolveArtist (album_artist (paths r)) (artist (paths r)), TrackName := title (paths r),
         AlbumName := album (paths r), AlbumArtist := album_artist (paths r)\<rparr>)
       (List.find (\<lambda>r. trimSpace (ResolveArtist (album_artist (paths r)) (artist (paths r))) \<noteq> [])
         (servedOrder (matched (\<lambda>r. provider_lane r = Some lane \<and> status r = StatusDone \<and> last_error r = [] \<and>
            \<not> blankText (title (paths r))) db)))"

section \<open>The in-memory queue of a one-shot run\<close>

record InputsQueue =
  iqItems :: "Inputs list"

definition NewInputsQueue :: InputsQueue where "NewInputsQueue = \<lparr>iqItems = []\<rparr>"

definition iqNext :: "InputsQueue \<Rightarrow> Inputs option" where
  "iqNext q = (case iqItems q of [] \<Rightarrow> None | i # _ \<Rightarrow> Some i)"

definition iqPop :: "InputsQueue \<Rightarrow> Inputs option \<times> InputsQueue" where
  "iqPop q = (case iqItems q of [] \<Rightarrow> (None, q) | i # is \<Rightarrow> (Some i, q\<lparr>iqItems := is\<rparr>))"

definition iqPush :: "Inputs \<Rightarrow> InputsQueue \<Rightarrow> InputsQueue" where
  "iqPush i q = q\<lparr>iqItems := iqItems q @ [i]\<rparr>"

definition iqLen :: "InputsQueue \<Rightarrow> int" where "iqLen q = int (length (iqItems q))"

definition iqEmpty :: "InputsQueue \<Rightarrow> bool" where "iqEmpty q \<longleftrightarrow> iqItems q = []"

end
