(* ===== verification/QueueLaws.thy ===== *)
theory QueueLaws
  imports QueueStamps
begin

text \<open>
  The laws of the statement forms, the invariant of the queue and its life cycle. A row that a
  worker holds is touched by no other operation, a worker's operation touches only the row it
  names, and every operation keeps the identities of the rows unique and the columns the triggers
  maintain consistent. \<open>rewritten\<close> relates two states whose rows correspond one to one.
\<close>

section \<open>In-place rewriting\<close>

definition rewritten :: "(WorkRow \<Rightarrow> WorkRow \<Rightarrow> bool) \<Rightarrow> QDB \<Rightarrow> QDB \<Rightarrow> bool" where
  "rewritten E db db' \<longleftrightarrow> lastRowid db' = lastRowid db \<and> list_all2 E (work_queue db) (work_queue db')"

lemma rewritten_refl [intro]: "(\<And>r. E r r) \<Longrightarrow> rewritten E db db"
  by (simp add: rewritten_def list_all2_refl)

lemma rewritten_trans:
  assumes "\<And>a b c. E a b \<Longrightarrow> E b c \<Longrightarrow> E a c" and "rewritten E db1 db2" and "rewritten E db2 db3"
  shows "rewritten E db1 db3"
  using assms by (auto simp: rewritten_def intro: list_all2_trans)

lemma rewritten_updateWork: "(\<And>r. E r r) \<Longrightarrow> (\<And>r. p r \<Longrightarrow> E r (f r)) \<Longrightarrow> rewritten E db (updateWork p f db)"
  by (auto simp: rewritten_def updateWork_def list_all2_conv_all_nth)

lemma scan_frame [simp]:
  "work_queue (updateScan p f db) = work_queue db" "lastRowid (updateScan p f db) = lastRowid db"
  "links (updateScan p f db) = links db" "lyric_blocks (updateScan p f db) = lyric_blocks db"
  "work_queue (setScan st p db) = work_queue db" "lastRowid (setScan st p db) = lastRowid db"
  "links (setScan st p db) = links db" "lyric_blocks (setScan st p db) = lyric_blocks db"
  by (simp_all add: updateScan_def setScan_def)

lemma writeback_frame [simp]:
  "work_queue (writeBackScanResultsDone i db) = work_queue db" "lastRowid (writeBackScanResultsDone i db) = lastRowid db"
  "links (writeBackScanResultsDone i db) = links db"
  "work_queue (resetScanResultsPending i db) = work_queue db" "lastRowid (resetScanResultsPending i db) = lastRowid db"
  "links (resetScanResultsPending i db) = links db"
  "work_queue (setLinkedScan i from st db) = work_queue db" "lastRowid (setLinkedScan i from st db) = lastRowid db"
  "links (setLinkedScan i from st db) = links db"
  by (simp_all add: writeBackScanResultsDone_def resetScanResultsPending_def setLinkedScan_def)

lemma addLink_frame [simp]:
  "work_queue (addLink w s db) = work_queue db" "lastRowid (addLink w s db) = lastRowid db"
  "scan_results (addLink w s db) = scan_results db"
  by (simp_all add: addLink_def)

lemma updateWork_frame [simp]:
  "lastRowid (updateWork p f db) = lastRowid db" "scan_results (updateWork p f db) = scan_results db"
  "links (updateWork p f db) = links db" "lyric_blocks (updateWork p f db) = lyric_blocks db"
  by (simp_all add: updateWork_def)

lemma rewritten_same_rows:
  "work_queue db' = work_queue db \<Longrightarrow> lastRowid db' = lastRowid db \<Longrightarrow> (\<And>r. E r r) \<Longrightarrow> rewritten E db db'"
  by (simp add: rewritten_def list_all2_refl)

lemma onStatus_keeps [simp]:
  "rowid (onStatus r) = rowid r" "status (onStatus r) = status r" "artist_key (onStatus r) = artist_key r"
  "title_key (onStatus r) = title_key r" "edition (onStatus r) = edition r" "paths (onStatus r) = paths r"
  "prev_status (onStatus r) = prev_status r" "attempts (onStatus r) = attempts r" "miss_count (onStatus r) = miss_count r"
  "refused_waits (onStatus r) = refused_waits r" "last_error (onStatus r) = last_error r" "claimed_at (onStatus r) = claimed_at r"
  "priority (onStatus r) = priority r" "next_attempt_at (onStatus r) = next_attempt_at r" "batch_seq (onStatus r) = batch_seq r"
  "created_at (onStatus r) = created_at r" "completed_at (onStatus r) = completed_at r" "word (onStatus r) = word r"
  by (simp_all add: onStatus_def clearFailureClass_def clearUpgradeQueued_def)

lemma clearFailureClass_keeps [simp]:
  "rowid (clearFailureClass r) = rowid r" "status (clearFailureClass r) = status r" "artist_key (clearFailureClass r) = artist_key r"
  "title_key (clearFailureClass r) = title_key r" "edition (clearFailureClass r) = edition r"
  "upgrade_queued (clearFailureClass r) = upgrade_queued r"
  by (simp_all add: clearFailureClass_def)

lemma ClearWordRecheckQueued_keeps [simp]:
  "rowid (ClearWordRecheckQueued r) = rowid r" "status (ClearWordRecheckQueued r) = status r"
  "artist_key (ClearWordRecheckQueued r) = artist_key r" "title_key (ClearWordRecheckQueued r) = title_key r"
  "edition (ClearWordRecheckQueued r) = edition r" "prev_status (ClearWordRecheckQueued r) = prev_status r"
  "upgrade_queued (ClearWordRecheckQueued r) = upgrade_queued r" "last_error (ClearWordRecheckQueued r) = last_error r"
  "failure_class (ClearWordRecheckQueued r) = failure_class r"
  by (simp_all add: ClearWordRecheckQueued_def)

section \<open>The row invariant\<close>

definition ident :: "WorkRow \<Rightarrow> gotext \<times> gotext \<times> gotext" where
  "ident r = (artist_key r, title_key r, edition r)"

text \<open>
  What the triggers and the claim maintain: an upgrade trip is not settled, a failure class stands
  only beside an error of a row that is neither pending nor done, and a held row remembers a
  status that it can be given back to.
\<close>

definition goodRow :: "WorkRow \<Rightarrow> bool" where
  "goodRow r \<longleftrightarrow>
     (upgrade_queued r \<longrightarrow> \<not> terminal r) \<and>
     (failure_class r \<noteq> None \<longrightarrow> status r \<noteq> StatusPending \<and> status r \<noteq> StatusDone \<and> last_error r \<noteq> []) \<and>
     (processing r \<longrightarrow> prev_status r \<in> {Some StatusPending, Some StatusFailed, Some StatusDeferred})"

text \<open>The columns of a row that its holder relies on.\<close>

definition heldCols :: "WorkRow \<Rightarrow> int \<times> RowPaths \<times> RowStatus \<times> RowStatus option \<times> int \<times> int \<times> int \<times> gotext \<times> int option" where
  "heldCols r = (rowid r, paths r, status r, prev_status r, attempts r, miss_count r, refused_waits r, last_error r, claimed_at r)"

text \<open>What an operation that is not a worker's may do to a row in place.\<close>

definition adminRow :: "WorkRow \<Rightarrow> WorkRow \<Rightarrow> bool" where
  "adminRow r r' \<longleftrightarrow> rowid r' = rowid r \<and> ident r' = ident r \<and> (goodRow r \<longrightarrow> goodRow r') \<and>
     (if processing r then heldCols r' = heldCols r else \<not> processing r') \<and>
     (status r' = StatusUnavailable \<longrightarrow> status r = StatusUnavailable)"

text \<open>
  What an operation on row \<open>i\<close> by the worker that holds it may do: other rows, and a row nobody
  holds, are not touched, and a good row that is touched is given back.
\<close>

definition workerRow :: "int \<Rightarrow> WorkRow \<Rightarrow> WorkRow \<Rightarrow> bool" where
  "workerRow i r r' \<longleftrightarrow> (rowid r \<noteq> i \<or> \<not> processing r \<longrightarrow> r' = r) \<and> rowid r' = rowid r \<and> ident r' = ident r \<and>
     (goodRow r \<longrightarrow> goodRow r' \<and> (r' = r \<or> \<not> processing r'))"

lemma adminRow_refl [simp, intro]: "adminRow r r"
  by (simp add: adminRow_def)

lemma adminRow_trans: "adminRow a b \<Longrightarrow> adminRow b c \<Longrightarrow> adminRow a c"
  by (auto simp: adminRow_def heldCols_def processing_def split: if_splits)

lemma workerRow_refl [simp, intro]: "workerRow i r r"
  by (simp add: workerRow_def)

lemmas row_rules = adminRow_def workerRow_def ident_def goodRow_def processing_def terminal_def
lemmas trigger_defs = onStatus_def clearFailureClass_def clearUpgradeQueued_def

section \<open>Rows the other operations rewrite\<close>

lemma adminRow_cols:
  assumes "rowid r' = rowid r" "ident r' = ident r" "goodRow r \<Longrightarrow> goodRow r'" "\<not> processing r" "\<not> processing r'"
    and "status r' = StatusUnavailable \<longrightarrow> status r = StatusUnavailable"
  shows "adminRow r r'"
  using assms by (simp add: adminRow_def)

text \<open>A column that no invariant reads.\<close>

lemma adminRow_quiet:
  assumes "rowid r' = rowid r" "ident r' = ident r" "heldCols r' = heldCols r"
    and "upgrade_queued r' = upgrade_queued r" "failure_class r' = failure_class r"
  shows "adminRow r r'"
  using assms by (auto simp: adminRow_def heldCols_def goodRow_def processing_def terminal_def)

text \<open>A statement that names \<open>status\<close>: the triggers establish what it may have broken.\<close>

lemma goodRow_onStatus: "\<not> processing r \<Longrightarrow> goodRow (onStatus r)"
  by (auto simp: goodRow_def trigger_defs processing_def terminal_def)

lemma adminRow_onStatus:
  assumes "rowid r' = rowid r" "ident r' = ident r" "\<not> processing r" "\<not> processing r'" "status r' \<noteq> StatusUnavailable"
  shows "adminRow r (onStatus r')"
  using assms goodRow_onStatus[of r'] by (auto simp: adminRow_def processing_def ident_def)

lemma not_processing_iff [simp]:
  "status r = StatusDone \<Longrightarrow> \<not> processing r" "status r = StatusPending \<Longrightarrow> \<not> processing r"
  "status r = StatusFailed \<Longrightarrow> \<not> processing r" "status r = StatusDeferred \<Longrightarrow> \<not> processing r"
  "status r = StatusUnavailable \<Longrightarrow> \<not> processing r"
  by (simp_all add: processing_def)

lemma retryable_not_processing [simp]: "retryable r \<Longrightarrow> \<not> processing r"
  by (auto simp: retryable_def processing_def)

lemma admin_updateWork: "(\<And>r. p r \<Longrightarrow> adminRow r (f r)) \<Longrightarrow> rewritten adminRow db (updateWork p f db)"
  by (rule rewritten_updateWork) auto

lemma admin_updateOne: "(\<And>r. p r \<Longrightarrow> adminRow r (f r)) \<Longrightarrow> rewritten adminRow db (snd (updateOne i p f db))"
  by (auto simp: updateOne_def byID_def intro: admin_updateWork)

lemma admin_refl [simp, intro]: "rewritten adminRow db db"
  by (rule rewritten_refl) auto

lemma admin_trans: "rewritten adminRow a b \<Longrightarrow> rewritten adminRow b c \<Longrightarrow> rewritten adminRow a c"
  using rewritten_trans[of adminRow] adminRow_trans by blast

lemma admin_same_rows: "work_queue db' = work_queue db \<Longrightarrow> lastRowid db' = lastRowid db \<Longrightarrow> rewritten adminRow db db'"
  by (rule rewritten_same_rows) auto

lemma admin_scan [simp]:
  "rewritten adminRow db (setScan st p db')  \<longleftrightarrow> rewritten adminRow db db'"
  "rewritten adminRow db (writeBackScanResultsDone i db') \<longleftrightarrow> rewritten adminRow db db'"
  "rewritten adminRow db (resetScanResultsPending i db') \<longleftrightarrow> rewritten adminRow db db'"
  "rewritten adminRow db (setLinkedScan i from st db') \<longleftrightarrow> rewritten adminRow db db'"
  "rewritten adminRow db (addLink i s db') \<longleftrightarrow> rewritten adminRow db db'"
  by (simp_all add: rewritten_def)

lemma admin_updateReturning:
  "(\<And>r. p r \<Longrightarrow> adminRow r (onStatus (f r))) \<Longrightarrow> rewritten adminRow db (snd (updateReturning i p f db))"
  by (auto simp: updateReturning_def byID_def split: list.splits intro!: admin_updateWork)

lemma admin_settleTx:
  "(\<And>r. p r \<Longrightarrow> adminRow r (onStatus (f r))) \<Longrightarrow> rewritten adminRow db (snd (settleTx i p f db))"
  using admin_updateOne[of p "onStatus \<circ> f" db i] by (auto simp: settleTx_def split: prod.splits)

section \<open>Every operation that is not a worker's\<close>

named_theorems admin_ops "operations that rewrite rows in place and leave held rows alone"

lemma reopenRow_admin: "reopenable r \<Longrightarrow> adminRow r (onStatus (reopenRow now r))"
  by (rule adminRow_onStatus) (auto simp: reopenRow_def reopenable_def ident_def)

lemma ReopenDoneRowTx_admin [admin_ops]: "rewritten adminRow db (snd (ReopenDoneRowTx i now db))"
  by (simp add: ReopenDoneRowTx_def admin_updateOne reopenRow_admin)

lemma deleteScan_admin: "rewritten adminRow db (deleteScan p db)"
  by (auto simp: deleteScan_def Let_def rewritten_def list_all2_conv_all_nth intro!: adminRow_quiet
      simp: ident_def heldCols_def split: option.splits)

lemma movedTo_admin: "\<not> processing r \<Longrightarrow> adminRow r (movedTo new sr r)"
  by (auto simp: movedTo_def row_rules)

lemma unretire_admin: "retiredGone r \<Longrightarrow> adminRow r (clearFailureClass (unretireRow (movedTo new sr r)))"
  by (auto simp: retiredGone_def row_rules movedTo_def unretireRow_def clearFailureClass_def)

lemma resurrect_admin: "retiredGone r \<Longrightarrow> adminRow r (onStatus (resurrectRow now (movedTo new sr r)))"
  by (rule adminRow_onStatus) (auto simp: retiredGone_def resurrectRow_def movedTo_def ident_def)

lemma moveRow_admin [admin_ops]: "rewritten adminRow db (snd (moveRow m new sr now db))"
proof -
  let ?a = "\<lambda>p r. p r \<and> source_path (paths r) = oldPath m"
  have p: "rewritten adminRow db (snd (updateOne (mvID m) (?a (\<lambda>r. \<not> processing r)) (movedTo new sr) db))"
    by (rule admin_updateOne) (simp add: movedTo_admin)
  have s: "rewritten adminRow db (snd (updateOne (mvID m) (?a (\<lambda>r. retiredGone r \<and> source_gone_at r = None \<and> notHandProtected r))
             (onStatus \<circ> resurrectRow now \<circ> movedTo new sr) db))"
    by (rule admin_updateOne) (simp add: resurrect_admin)
  have u: "rewritten adminRow db (snd (updateOne (mvID m) (?a (\<lambda>r. retiredGone r \<and> source_gone_at r \<noteq> None))
             (clearFailureClass \<circ> unretireRow \<circ> movedTo new sr) db))"
    by (rule admin_updateOne) (simp add: unretire_admin)
  show ?thesis
    using p s u by (auto simp: moveRow_def Let_def split: prod.splits bool.splits)
qed

lemma dropGoneScan_admin: "rewritten adminRow db (dropGoneScan g s db)"
  by (simp add: dropGoneScan_def deleteScan_admin)

lemma moveGoneSourceTx_admin [admin_ops]: "rewritten adminRow db (snd (moveGoneSourceTx m inputs now db))"
  using moveRow_admin[of db m "inSourcePath inputs"]
  by (auto simp: moveGoneSourceTx_def Let_def settleMovedScan_def split: prod.splits bool.splits
      intro: admin_trans[OF _ dropGoneScan_admin] dest: sym)
     (metis snd_conv admin_trans[OF _ dropGoneScan_admin])+

lemma RepointGoneSource_admin [admin_ops]: "rewritten adminRow db (snd (RepointGoneSource nkey q stat now inputs db))"
  using moveGoneSourceTx_admin[of db _ inputs "formatTime now"]
  by (auto simp: RepointGoneSource_def split: sum.splits option.splits prod.splits) (metis snd_conv)

lemma stamp_admin [admin_ops]: "rewritten adminRow db (stamp i f db)"
  if "\<And>r. rowid (f r) = rowid r \<and> ident (f r) = ident r \<and> heldCols (f r) = heldCols r \<and>
        upgrade_queued (f r) = upgrade_queued r \<and> failure_class (f r) = failure_class r"
  using that by (auto simp: stamp_def intro!: admin_updateWork adminRow_quiet)

lemma quiet_updateOne: "rewritten adminRow db (snd (updateOne i p f db))"
  if "\<And>r. rowid (f r) = rowid r \<and> ident (f r) = ident r \<and> heldCols (f r) = heldCols r \<and>
        upgrade_queued (f r) = upgrade_queued r \<and> failure_class (f r) = failure_class r"
  using that by (auto intro!: admin_updateOne adminRow_quiet)

lemma quiet_updateWork: "rewritten adminRow db (updateWork p f db)"
  if "\<And>r. rowid (f r) = rowid r \<and> ident (f r) = ident r \<and> heldCols (f r) = heldCols r \<and>
        upgrade_queued (f r) = upgrade_queued r \<and> failure_class (f r) = failure_class r"
  using that by (auto intro!: admin_updateWork adminRow_quiet)

lemma reopenWordRecheckForScan_admin [admin_ops]:
  "rewritten adminRow db (reopenWordRecheckForScan nkey inputs ed now db)"
  by (auto simp: reopenWordRecheckForScan_def intro: ReopenDoneRowTx_admin split: prod.splits list.splits)

lemma reopenCategoricalForScan_admin [admin_ops]:
  "rewritten adminRow db (snd (reopenCategoricalForScan nkey inputs ed now db))"
proof -
  have w: "rewritten adminRow db (updateWork p (\<lambda>r. r\<lparr>timing := (timing r)\<lparr>timing_stamp_source := None\<rparr>\<rparr>) d)"
    if "rewritten adminRow db d" for p d
    by (rule admin_trans[OF that quiet_updateWork]) (simp add: ident_def heldCols_def)
  have d: "rewritten adminRow db d" if "ReopenDoneRowTx i now db = (b, d)" for i b d
    using ReopenDoneRowTx_admin[of db i now] by (simp add: that)
  show ?thesis
    unfolding reopenCategoricalForScan_def Let_def
    by (auto simp del: One_nat_def split: prod.split list.split bool.split intro: w d)
qed

lemma reopenAdoptedForScan_admin [admin_ops]:
  "rewritten adminRow db (snd (reopenAdoptedForScan nkey inputs ed now db))"
proof -
  have d: "rewritten adminRow db d" if "ReopenDoneRowTx i now (updateWork p (\<lambda>r. r\<lparr>adopted_at := None\<rparr>) db) = (b, d)" for i b d p
  proof -
    have "rewritten adminRow db (updateWork p (\<lambda>r. r\<lparr>adopted_at := None\<rparr>) db)"
      by (rule quiet_updateWork) (simp add: ident_def heldCols_def)
    then show ?thesis
      using admin_trans ReopenDoneRowTx_admin[of "updateWork p (\<lambda>r. r\<lparr>adopted_at := None\<rparr>) db" i now]
      by (simp add: that)
  qed
  show ?thesis
    unfolding reopenAdoptedForScan_def Let_def
    by (auto split: prod.split list.split bool.split intro: d)
qed

lemma reopensForScan_admin [admin_ops]: "rewritten adminRow db (snd (reopensForScan nkey inputs ed now db))"
proof -
  let ?d1 = "reopenWordRecheckForScan nkey inputs ed now db"
  let ?d2 = "snd (reopenCategoricalForScan nkey inputs ed now ?d1)"
  have "rewritten adminRow db ?d1" by (rule reopenWordRecheckForScan_admin)
  moreover from this have "rewritten adminRow db ?d2" by (rule admin_trans) (rule reopenCategoricalForScan_admin)
  moreover from calculation have "rewritten adminRow db (snd (reopenAdoptedForScan nkey inputs ed now ?d1))"
    by (auto intro: admin_trans reopenAdoptedForScan_admin)
  moreover from calculation have "rewritten adminRow db (snd (reopenAdoptedForScan nkey inputs ed now ?d2))"
    by (auto intro: admin_trans reopenAdoptedForScan_admin)
  ultimately show ?thesis
    by (auto simp: reopensForScan_def Let_def split: prod.splits sum.splits if_splits dest: sym)
qed

lemma conflictRow_admin: "adminRow r (onStatus (conflictRow refresh x r))"
proof -
  let ?c = "conflictRow refresh x r"
  have c: "rowid ?c = rowid r" "ident ?c = ident r" "status ?c = status r" "prev_status ?c = prev_status r"
    "upgrade_queued ?c = upgrade_queued r" "processing r \<Longrightarrow> heldCols ?c = heldCols r"
    by (auto simp: conflictRow_def ident_def heldCols_def keepsPaths_def processing_def)
  have h: "heldCols (onStatus y) = heldCols y" for y by (simp add: heldCols_def)
  have g: "goodRow r \<Longrightarrow> goodRow (onStatus ?c)"
    using c(3,4,5) by (auto simp: goodRow_def trigger_defs processing_def terminal_def)
  show ?thesis
    using c g by (auto simp: adminRow_def h ident_def processing_def)
qed

lemma Retry_admin [admin_ops]: "rewritten adminRow db (snd (Retry now i db))"
proof -
  have "rewritten adminRow db (snd (updateReturning i (\<lambda>r. status r = StatusFailed) (retryRow now) db))"
    by (rule admin_updateReturning, rule adminRow_onStatus) (auto simp: retryRow_def ident_def)
  then show ?thesis by (auto simp: Retry_def split: prod.splits sum.splits)
qed

lemma RecheckDeferred_admin [admin_ops]: "rewritten adminRow db (snd (RecheckDeferred now lib db))"
  by (auto simp: RecheckDeferred_def Let_def ident_def heldCols_def intro!: quiet_updateWork)

lemma fold_setScan_frame:
  "work_queue (fold (\<lambda>i. setScan st (p i)) ids db) = work_queue db"
  "lastRowid (fold (\<lambda>i. setScan st (p i)) ids db) = lastRowid db"
  "links (fold (\<lambda>i. setScan st (p i)) ids db) = links db"
  by (induction ids arbitrary: db) simp_all

lemma unsettleScans_frame [simp]:
  "work_queue (unsettleScans lib ids db) = work_queue db" "lastRowid (unsettleScans lib ids db) = lastRowid db"
  "links (unsettleScans lib ids db) = links db"
  by (simp_all add: unsettleScans_def fold_setScan_frame)

lemma recheckRetired_admin [admin_ops]: "rewritten adminRow db (snd (recheckRetired now lib expected db))"
proof -
  have "rewritten adminRow db (updateWork (\<lambda>r. recheckRetiredWhere r \<and> recheckLibraryClause lib db r) (onStatus \<circ> revivedRow now) db)"
    by (rule admin_updateWork, simp, rule adminRow_onStatus) (auto simp: recheckRetiredWhere_def revivedRow_def ident_def)
  then have "rewritten adminRow db (unsettleScans lib is (updateWork (\<lambda>r. recheckRetiredWhere r \<and> recheckLibraryClause lib db r)
      (onStatus \<circ> revivedRow now) db))" for "is"
    by (simp add: rewritten_def)
  then show ?thesis by (simp add: recheckRetired_def Let_def admin_refl)
qed

lemma ReopenBlockedTx_admin [admin_ops]: "rewritten adminRow db (snd (ReopenBlockedTx ak tk now db))"
proof -
  have "rewritten adminRow db (snd (foldl (\<lambda>(n, db) i. case ReopenDoneRowTx i now db of (ok, db') \<Rightarrow> (if ok then n + 1 else n, db'))
      acc ids))" if "rewritten adminRow db (snd acc)" for ids and acc :: "int \<times> QDB"
    using that
  proof (induction ids arbitrary: acc)
    case (Cons i ids)
    have "rewritten adminRow db (snd (ReopenDoneRowTx i now (snd acc)))"
      using Cons.prems ReopenDoneRowTx_admin by (rule admin_trans)
    then show ?case
      using Cons.IH by (simp add: case_prod_beta)
  qed simp
  then show ?thesis by (simp add: ReopenBlockedTx_def)
qed

lemma StampUnclassifiedMiss_admin [admin_ops]: "rewritten adminRow db (snd (StampUnclassifiedMiss i tel db))"
  by (auto simp: StampUnclassifiedMiss_def ident_def heldCols_def intro!: quiet_updateOne)

lemma StampInstrumentalTelemetry_admin [admin_ops]: "rewritten adminRow db (snd (StampInstrumentalTelemetry i tel db))"
  by (auto simp: StampInstrumentalTelemetry_def ident_def heldCols_def intro!: quiet_updateOne)

lemma ResetInstrumentalToUnclassified_admin [admin_ops]: "rewritten adminRow db (snd (ResetInstrumentalToUnclassified i db))"
  by (auto simp: ResetInstrumentalToUnclassified_def ident_def heldCols_def intro!: quiet_updateOne)

lemma ResetInstrumental_admin [admin_ops]: "rewritten adminRow db (snd (ResetInstrumental now i db))"
proof -
  have "rewritten adminRow db (snd (updateOne i (\<lambda>r. instrumental_result r = Some 1 \<and> status r = StatusDone)
      (onStatus \<circ> resetInstrumentalRow now) db))"
    by (rule admin_updateOne, simp, rule adminRow_onStatus) (auto simp: resetInstrumentalRow_def ident_def)
  then show ?thesis by (auto simp: ResetInstrumental_def split: prod.splits bool.splits)
qed

lemma UnsettleInstrumental_admin [admin_ops]: "rewritten adminRow db (snd (UnsettleInstrumental now i db))"
  unfolding UnsettleInstrumental_def
  by (rule admin_updateOne, simp, rule adminRow_onStatus) (auto simp: unsettledRow_def ident_def)

lemma manualRow_admin: "\<not> processing r \<Longrightarrow> adminRow r (onStatus (manualRow now r))"
  by (rule adminRow_onStatus) (auto simp: manualRow_def ident_def)

lemma MarkManualInstrumentalTx_admin [admin_ops]: "rewritten adminRow db (snd (MarkManualInstrumentalTx i now db))"
proof -
  have "rewritten adminRow db (snd (settleTx i (\<lambda>r. \<not> processing r \<and> manual_instrumental_at r = None) (manualRow now) db))"
    by (rule admin_settleTx) (simp add: manualRow_admin)
  then show ?thesis by (auto simp: MarkManualInstrumentalTx_def split: prod.splits list.splits)
qed

lemma UnmarkManualInstrumentalTx_admin [admin_ops]: "rewritten adminRow db (snd (UnmarkManualInstrumentalTx i now db))"
proof -
  have "rewritten adminRow db (snd (updateOne i (\<lambda>r. manual_instrumental_at r \<noteq> None \<and> \<not> processing r) (onStatus \<circ> unmarkedRow now) db))"
    by (rule admin_updateOne, simp, rule adminRow_onStatus) (auto simp: unmarkedRow_def ident_def)
  then show ?thesis by (auto simp: UnmarkManualInstrumentalTx_def split: prod.splits bool.splits)
qed

lemma markWordLoop_admin: "rewritten adminRow db (snd (markWordLoop opts now report ids prior db))"
proof (induction opts now report ids prior db rule: markWordLoop.induct)
  case (2 opts now report i "is" prior db)
  have "rewritten adminRow db (updateWork (byID i (wordRecheckPredicate opts db)) (onStatus \<circ> wordFlippedRow opts now) db)"
    by (rule admin_updateWork, simp, rule adminRow_onStatus)
       (auto simp: wordFlippedRow_def wordRecheckPredicate_def byID_def ident_def)
  then show ?case
    using 2 by (auto split: list.splits intro: admin_trans)
qed simp

lemma MarkWordRecheckQueued_admin [admin_ops]: "rewritten adminRow db (snd (MarkWordRecheckQueued ids opts now report db))"
  using markWordLoop_admin[of db opts now report ids "[]"]
  by (auto simp: MarkWordRecheckQueued_def inTx_def split: prod.splits sum.splits)

lemma markUpgradeLoop_admin:
  "(\<And>r. cand r \<Longrightarrow> status r = StatusDone) \<Longrightarrow> rewritten adminRow db (snd (markUpgradeLoop cand now ids flipped db))"
proof (induction cand now ids flipped db rule: markUpgradeLoop.induct)
  case (2 cand now i "is" flipped db)
  have "rewritten adminRow db (snd (updateOne i cand (onStatus \<circ> upgradeFlippedRow now) db))"
    by (rule admin_updateOne, simp, rule adminRow_onStatus)
       (auto simp: upgradeFlippedRow_def ident_def dest!: "2.prems")
  then show ?case
    using 2 by (auto split: prod.splits intro: admin_trans)
qed simp

lemma MarkUpgradeQueued_admin [admin_ops]: "rewritten adminRow db (snd (MarkUpgradeQueued q now ids holdBefore db))"
  by (auto simp: MarkUpgradeQueued_def upgradeCandidate_def upgradeCandidatePredicate_def upgradeMissyncedPredicate_def
      intro!: markUpgradeLoop_admin)

lemma backedUpdate_admin: "rewritten adminRow db (f db) \<Longrightarrow> rewritten adminRow db (snd (backedUpdate i p f backup db))"
  by (auto simp: backedUpdate_def)

lemma remediatedRow_admin: "remediatedGuard c action r \<Longrightarrow> adminRow r (remediatedRow now action tier r)"
proof (cases action)
  case RemediatedReset
  moreover assume "remediatedGuard c action r"
  ultimately have "adminRow r (onStatus (remediatedResetRow now r))"
    by (intro adminRow_onStatus) (auto simp: remediatedGuard_def remediatedResetRow_def ident_def)
  then show ?thesis by (simp add: RemediatedReset)
qed (auto simp: ident_def heldCols_def intro!: adminRow_quiet)

lemma ApplyRemediated_admin [admin_ops]: "rewritten adminRow db (snd (ApplyRemediated now c action tier backup db))"
proof -
  have "rewritten adminRow db (updateWork (byID (rcID c) (remediatedGuard c action)) (remediatedRow now action tier) db)"
    by (rule admin_updateWork) (auto simp: byID_def intro: remediatedRow_admin)
  then show ?thesis
    by (auto simp: ApplyRemediated_def Let_def offerScansOf_def intro!: backedUpdate_admin)
qed

lemma SetUpstreamIfPending_admin [admin_ops]: "rewritten adminRow db (snd (SetUpstreamIfPending i lane up backup db))"
  by (auto simp: SetUpstreamIfPending_def ident_def heldCols_def intro!: backedUpdate_admin quiet_updateWork)

lemma SetSyncTierIfPending_admin [admin_ops]: "rewritten adminRow db (snd (SetSyncTierIfPending i tier backup db))"
  by (auto simp: SetSyncTierIfPending_def ident_def heldCols_def intro!: backedUpdate_admin quiet_updateWork)

lemma LinkSettled_admin [admin_ops]: "rewritten adminRow db (snd (LinkSettled q c backup db))"
  by (auto simp: LinkSettled_def linkExistingTx_def split: sum.splits list.splits)

lemma SetTimingOutcomeIfIdle_admin [admin_ops]: "rewritten adminRow db (snd (SetTimingOutcomeIfIdle i rec db))"
proof -
  have "rewritten adminRow db (snd (updateOne i p (timingRow rec src) db))" for p src
    by (rule quiet_updateOne) (simp add: timingRow_def Let_def ident_def heldCols_def)
  then show ?thesis
    by (auto simp: SetTimingOutcomeIfIdle_def split: sum.splits prod.splits) (metis snd_conv)
qed

lemma stamps_admin [admin_ops]:
  "rewritten adminRow db (SetProviderLane i lane up db)"
  "rewritten adminRow db (ClearProviderLane i db)"
  "rewritten adminRow db (SetInstrumentalResult i result tel db)"
  "rewritten adminRow db (SetOutcomeType i outcome db)"
  "rewritten adminRow db (snd (SetTimingOutcome i rec db))"
  "rewritten adminRow db (SetCompletionProvenance i prov db)"
  "rewritten adminRow db (snd (SetWordTimingState now i st generation checkedAt db))"
  "rewritten adminRow db (ClearWordTimingState i db)"
  "rewritten adminRow db (snd (SetSyncTier i tier db))"
  "rewritten adminRow db (SetLyricEdit now i offset db)"
  "rewritten adminRow db (SetLyricRetime now i db)"
  "rewritten adminRow db (ClearLyricEdit i db)"
  "rewritten adminRow db (ClearSourceGone i db)"
  by (auto simp: SetProviderLane_def ClearProviderLane_def SetInstrumentalResult_def SetOutcomeType_def SetTimingOutcome_def
      SetCompletionProvenance_def SetWordTimingState_def ClearWordTimingState_def SetSyncTier_def SetLyricEdit_def
      SetLyricRetime_def ClearLyricEdit_def ClearSourceGone_def timingRow_def Let_def ident_def heldCols_def
      intro!: stamp_admin quiet_updateWork split: sum.splits)

lemma backfill_admin [admin_ops]: "rewritten adminRow db (snd (settleInstrumentalOnce now i tel OwnedByBackfill db))"
proof -
  have "rewritten adminRow db (snd (settleTx i (\<lambda>r. status r = ownerStatus OwnedByBackfill \<and> (processing r \<or> \<not> wordQueued r))
      (instrumentalRow now tel) db))"
    by (rule admin_settleTx, rule adminRow_onStatus) (auto simp: instrumentalRow_def ident_def)
  then show ?thesis by (auto simp: settleInstrumentalOnce_def split: prod.splits bool.splits)
qed

end
