(* ===== verification/QueueSteps.thy ===== *)
theory QueueSteps
  imports QueueLaws
begin

text \<open>
  The queue as a transition system: one rule per operation, by who performs it (a worker claiming,
  the worker that holds a row, anyone else), the states reachable from an empty queue, and their
  invariant. \<open>adminReach\<close> is what any operation that is not a worker's amounts to.
\<close>

section \<open>What an operation that is not a worker's amounts to\<close>

inductive adminReach :: "QDB \<Rightarrow> QDB \<Rightarrow> bool" where
  Stay: "adminReach a a"
| Rewrite: "adminReach a b \<Longrightarrow> rewritten adminRow b c \<Longrightarrow> adminReach a c"
| Delete: "adminReach a b \<Longrightarrow> work_queue c = filter keep (work_queue b) \<Longrightarrow> lastRowid c = lastRowid b \<Longrightarrow>
    \<forall>r \<in> set (work_queue b). keep r \<or> \<not> processing r \<and> status r \<noteq> StatusUnavailable \<Longrightarrow> adminReach a c"
| Insert: "adminReach a b \<Longrightarrow> work_queue c = work_queue b @ [x] \<Longrightarrow> rowid x = lastRowid b + 1 \<Longrightarrow>
    lastRowid c = lastRowid b + 1 \<Longrightarrow> goodRow x \<Longrightarrow> \<not> processing x \<Longrightarrow> status x \<noteq> StatusUnavailable \<Longrightarrow>
    ident x \<notin> ident ` set (work_queue b) \<Longrightarrow> adminReach a c"

lemma adminReach_trans:
  assumes "adminReach a b" and "adminReach b c"
  shows "adminReach a c"
  using assms(2,1)
proof induction
  case (Insert a' b' c' x)
  show ?case
    by (rule adminReach.Insert[OF Insert.IH[OF Insert.prems] Insert.hyps(2-)])
qed (auto intro: adminReach.intros)

lemma adminReach_rewritten: "rewritten adminRow a b \<Longrightarrow> adminReach a b"
  by (rule Rewrite[OF Stay])

lemma admin_ops_reach: "rewritten adminRow a b \<Longrightarrow> adminReach z a \<Longrightarrow> adminReach z b"
  by (rule Rewrite)

lemma adminReach_delete:
  assumes "\<And>r. p r \<Longrightarrow> \<not> processing r \<and> status r \<noteq> StatusUnavailable"
  shows "adminReach db (deleteWork p db)"
  using assms by (intro Delete[OF Stay, where keep = "\<lambda>r. \<not> p r"]) (auto simp: deleteWork_def)

lemma deleteQueued_reach:
  assumes "\<And>r. p r \<Longrightarrow> retryable r"
  shows "adminReach db (snd (deleteQueued p i db))"
proof -
  have "adminReach (resetScanResultsPending i db) (deleteWork (byID i p) (resetScanResultsPending i db))"
    by (rule adminReach_delete) (auto simp: byID_def dest!: assms simp: retryable_def)
  then show ?thesis
    using adminReach_trans[OF adminReach_rewritten, of db "resetScanResultsPending i db"]
    by (simp add: deleteQueued_def Let_def admin_refl)
qed

lemma cleanupLoop_reach: "adminReach db (snd (cleanupLoop ids n db))"
proof (induction ids n db rule: cleanupLoop.induct)
  case (2 i "is" n db)
  have "adminReach db (snd (deleteQueued cancellable i db))"
    by (rule deleteQueued_reach) (simp add: cancellable_def)
  with 2 show ?case by (auto split: prod.splits intro: adminReach_trans)
qed (auto intro: Stay)

lemma Cleanup_reach: "adminReach db (snd (Cleanup nkey q inputs db))"
  using cleanupLoop_reach[of db]
  by (auto simp: Cleanup_def Stay split: prod.splits sum.splits) (metis snd_conv)

lemma cancelLoop_reach: "adminReach db (snd (cancelLoop dry lib cs n db))"
proof (induction dry lib cs n db rule: cancelLoop.induct)
  case (2 dryRun lib c cs deleted updated db)
  have d: "adminReach db d" if "deleteQueued retryable (rowid c) db = (n, d)" for n d
    using deleteQueued_reach[of retryable db "rowid c"] that by simp
  have u: "adminReach db d"
    if "updateOne (rowid c) retryable (\<lambda>r. r\<lparr>paths := (paths r)\<lparr>output_paths := Some ps\<rparr>\<rparr>) db = (ok, d)" for ps ok d
  proof -
    have "adminReach db (snd (updateOne (rowid c) retryable (\<lambda>r. r\<lparr>paths := (paths r)\<lparr>output_paths := Some ps\<rparr>\<rparr>) db))"
      by (rule adminReach_rewritten, rule admin_updateOne) (auto simp: row_rules retryable_def)
    then show ?thesis by (simp add: that)
  qed
  show ?case
    using 2 by (auto simp: Let_def split: prod.split intro: adminReach_trans[OF d] adminReach_trans[OF u])
qed (auto intro: Stay)

lemma ClearDone_reach: "adminReach db (snd (ClearDone db))"
  by (auto simp: ClearDone_def clearable_def intro!: adminReach_delete)

lemma goodRow_freshRow: "goodRow (freshRow q i wall now ak tk ed inputs prio)"
  by (simp add: goodRow_def freshRow_def defaultRow_def processing_def)

lemma upsert_reach: "adminReach db (snd (upsert q wall now ak tk ed inputs prio db))"
proof (cases "matched (identityIs ak tk ed) db")
  case Nil
  let ?x = "freshRow q (lastRowid db + 1) wall now ak tk ed inputs prio"
  have "ident ?x \<notin> ident ` set (work_queue db)"
    using Nil by (auto simp: matched_def filter_empty_conv identityIs_def sameKeys_def ident_def freshRow_def defaultRow_def)
  then show ?thesis
    using Nil by (auto simp: upsert_def Let_def goodRow_freshRow intro!: Insert[OF Stay])
       (simp_all add: freshRow_def defaultRow_def processing_def)
next
  case (Cons r rs)
  then show ?thesis
    by (auto simp: upsert_def Let_def conflictRow_admin intro!: adminReach_rewritten admin_updateWork)
qed

lemma enqueueBody_reach: "adminReach db (snd (enqueueBody nkey q move wall now inputs prio db))"
proof -
  let ?b = "enqueueBody nkey q move wall now inputs prio db"
  have m: "adminReach db (case move of None \<Rightarrow> db | Some m \<Rightarrow> snd (moveGoneSourceTx m inputs (formatTime now) db))"
    by (auto intro: Stay adminReach_rewritten admin_ops split: option.split)
  have r: "adminReach d d'" if "reopensForScan nkey inputs ed now d = (x, d')" for d d' x ed
    using reopensForScan_admin[of d nkey inputs ed now] that by (auto intro: adminReach_rewritten)
  have u: "adminReach d d'" if "upsert q wall t ak tk ed inputs prio d = (x, d')" for d d' x t ak tk ed
    using upsert_reach[of d q wall t ak tk ed inputs prio] that by simp
  have b: "adminReach z (updateWork p (\<lambda>r. r\<lparr>batch_seq := None\<rparr>) d)" if "adminReach z d" for z d p
    by (rule Rewrite[OF that], rule quiet_updateWork) (simp add: ident_def heldCols_def)
  have s: "adminReach z (settleTerminalScan sr w d)" "adminReach z (addLink w sr d)" if "adminReach z d" for z d sr w
    using that by (auto simp: settleTerminalScan_def intro: Rewrite)
  have ru: "adminReach d d''" if "reopensForScan nkey inputs ed now d = (x, d')"
      and "upsert q wall t ak tk ed' inputs prio d' = (y, d'')" for d d' d'' x y t ak tk ed ed'
    using r[OF that(1)] u[OF that(2)] by (rule adminReach_trans)
  show ?thesis
    unfolding enqueueBody_def Let_def
    by (auto split: prod.split sum.split intro!: adminReach_trans[OF m] b s intro: Stay r ru)
qed

lemma inTx_reach: "adminReach db (snd (f db)) \<Longrightarrow> adminReach db (snd (inTx f db))"
  by (auto simp: inTx_def Stay split: prod.split sum.split)

lemma Enqueue_reach: "adminReach db (snd (enqueueTx nkey q move wall now inputs prio db))"
  by (simp add: enqueueTx_def inTx_reach enqueueBody_reach)

lemma InsertSettledDone_reach: "adminReach db (snd (InsertSettledDone q wall now c cls backup db))"
proof -
  have l: "adminReach db (snd (linkExistingTx c ed backup db))" for ed
    by (auto simp: linkExistingTx_def Stay intro!: adminReach_rewritten split: list.split)
  have "adminReach db (addLink (lastRowid db + 1) (acScanResultID c)
      (db\<lparr>work_queue := work_queue db @ [adoptedRow (lastRowid db + 1) wall c cls ed t], lastRowid := lastRowid db + 1\<rparr>))"
    if "matched (identityIs (acArtistKey c) (acTitleKey c) ed) db = []" for ed t
  proof -
    let ?x = "adoptedRow (lastRowid db + 1) wall c cls ed t"
    have "ident ?x \<notin> ident ` set (work_queue db)"
      using that by (auto simp: matched_def filter_empty_conv identityIs_def sameKeys_def ident_def adoptedRow_def defaultRow_def)
    then show ?thesis
      by (intro Insert[OF Stay, where x = ?x])
         (simp_all add: adoptedRow_def defaultRow_def goodRow_def processing_def)
  qed
  then show ?thesis
    using l by (auto simp: InsertSettledDone_def Let_def Stay split: sum.split)
qed

section \<open>What the worker that holds a row does\<close>

lemma worker_updateWork:
  "(\<And>r. p r \<Longrightarrow> rowid r = i \<and> workerRow i r (f r)) \<Longrightarrow> rewritten (workerRow i) db (updateWork p f db)"
  by (rule rewritten_updateWork) auto

lemma worker_refl [simp, intro]: "rewritten (workerRow i) db db"
  by (rule rewritten_refl) auto

lemma worker_scan [simp]:
  "rewritten (workerRow i) db (setScan st p db') \<longleftrightarrow> rewritten (workerRow i) db db'"
  "rewritten (workerRow i) db (writeBackScanResultsDone j db') \<longleftrightarrow> rewritten (workerRow i) db db'"
  "rewritten (workerRow i) db (setLinkedScan j from st db') \<longleftrightarrow> rewritten (workerRow i) db db'"
  by (simp_all add: rewritten_def)

text \<open>A statement of the holder that names \<open>status\<close>.\<close>

lemma workerRow_onStatus:
  assumes "rowid r' = rowid r" "ident r' = ident r" "processing r" "goodRow r \<Longrightarrow> \<not> processing r'" "rowid r = i"
  shows "workerRow i r (onStatus r')"
  using assms goodRow_onStatus[of r'] by (auto simp: workerRow_def ident_def processing_def)

lemma worker_updateOne:
  assumes "\<And>r. p r \<Longrightarrow> processing r \<and> rowid (f r) = rowid r \<and> ident (f r) = ident r \<and> (goodRow r \<longrightarrow> \<not> processing (f r))"
  shows "rewritten (workerRow i) db (snd (updateOne i p (onStatus \<circ> f) db))"
    and "rewritten (workerRow i) db (snd (requireAffected (updateOne i p (onStatus \<circ> f) db)))"
    and "rewritten (workerRow i) db (snd (settleTx i p f db))"
    and "rewritten (workerRow i) db (snd (requireAffected (settleTx i p f db)))"
    and "rewritten (workerRow i) db (snd (updateReturning i p f db))"
proof -
  have "rewritten (workerRow i) db (updateWork (byID i p) (onStatus \<circ> f) db)"
    by (rule worker_updateWork) (auto simp: byID_def dest: assms intro!: workerRow_onStatus)
  then show "rewritten (workerRow i) db (snd (updateOne i p (onStatus \<circ> f) db))"
    and "rewritten (workerRow i) db (snd (requireAffected (updateOne i p (onStatus \<circ> f) db)))"
    and "rewritten (workerRow i) db (snd (settleTx i p f db))"
    and "rewritten (workerRow i) db (snd (requireAffected (settleTx i p f db)))"
    and "rewritten (workerRow i) db (snd (updateReturning i p f db))"
    by (auto simp: updateOne_def requireAffected_def settleTx_def updateReturning_def split: list.split)
qed

named_theorems worker_ops "operations by which a worker gives back the row it holds"

lemma not_processing_of:
  "status r \<noteq> StatusProcessing \<Longrightarrow> \<not> processing r"
  by (simp add: processing_def)

lemma settles_worker [worker_ops]:
  "rewritten (workerRow i) db (snd (completeOnce q now i db))"
  "rewritten (workerRow i) db (snd (settleInstrumentalOnce now i tel OwnedByWorker db))"
  "rewritten (workerRow i) db (snd (settleGuardRejectedOnce now i reason db))"
  "rewritten (workerRow i) db (snd (settleBlockedOnce now i db))"
proof -
  show "rewritten (workerRow i) db (snd (completeOnce q now i db))"
    unfolding completeOnce_def by (rule worker_updateOne) (auto simp: completeRow_def ident_def)
  have "rewritten (workerRow i) db (snd (settleTx i (\<lambda>r. status r = ownerStatus OwnedByWorker \<and> (processing r \<or> \<not> wordQueued r)) (instrumentalRow now tel) db))"
    by (rule worker_updateOne) (auto simp: instrumentalRow_def ident_def processing_def)
  then show "rewritten (workerRow i) db (snd (settleInstrumentalOnce now i tel OwnedByWorker db))"
    by (auto simp: settleInstrumentalOnce_def split: prod.split bool.split)
  have "rewritten (workerRow i) db (snd (settleTx i processing (rejectedRow now reason) db))"
    by (rule worker_updateOne) (auto simp: rejectedRow_def ident_def)
  then show "rewritten (workerRow i) db (snd (settleGuardRejectedOnce now i reason db))"
    by (auto simp: settleGuardRejectedOnce_def split: prod.split bool.split)
  have "rewritten (workerRow i) db (snd (settleTx i (\<lambda>r. processing r \<and> (artist_key r, title_key r) \<in> set (lyric_blocks db)) (blockedRow now) db))"
    by (rule worker_updateOne) (auto simp: blockedRow_def ident_def)
  then show "rewritten (workerRow i) db (snd (settleBlockedOnce now i db))"
    by (auto simp: settleBlockedOnce_def split: prod.split bool.split list.split)
qed

lemma releases_worker [worker_ops]:
  "rewritten (workerRow i) db (snd (Release i db))"
  "rewritten (workerRow i) db (snd (ReleaseUntil now i retryAfter db))"
  unfolding Release_def ReleaseUntil_def
  by (rule worker_updateOne; auto simp: releaseRow_def ident_def goodRow_def processing_def split: option.split)+

lemma failures_worker [worker_ops]:
  "rewritten (workerRow i) db (snd (failOnce q now i cause db))"
  "rewritten (workerRow i) db (snd (Defer now i retryAfter cause db))"
  "rewritten (workerRow i) db (snd (deferRefusedOnce now i retryAfter maxWaits txt db))"
  "rewritten (workerRow i) db (snd (RetireMiss now i db))"
proof -
  have "rewritten (workerRow i) db (snd (updateReturning i processing (failRow q now cause) db))"
    by (rule worker_updateOne) (auto simp: failRow_def Let_def ident_def)
  then show "rewritten (workerRow i) db (snd (failOnce q now i cause db))"
    by (auto simp: failOnce_def split: prod.split sum.split)
  show "rewritten (workerRow i) db (snd (Defer now i retryAfter cause db))"
    unfolding Defer_def by (rule worker_updateOne) (auto simp: deferRow_def ident_def)
  have "rewritten (workerRow i) db (snd (updateOne i processing (onStatus \<circ> refusedRow now retryAfter txt) db))"
    by (rule worker_updateOne) (auto simp: refusedRow_def ident_def)
  then show "rewritten (workerRow i) db (snd (deferRefusedOnce now i retryAfter maxWaits txt db))"
    by (auto simp: deferRefusedOnce_def split: list.split)
  have "rewritten (workerRow i) db (snd (updateReturning i processing (retireRow now) db))"
    by (rule worker_updateOne) (auto simp: retireRow_def ident_def)
  then show "rewritten (workerRow i) db (snd (RetireMiss now i db))"
    by (auto simp: RetireMiss_def split: prod.split sum.split)
qed

lemma word_worker [worker_ops]:
  "rewritten (workerRow i) db (snd (SettleWordRecheck now i st gen db))"
  "rewritten (workerRow i) db (snd (DeferWordRecheck now i retryAfter maxWaits txt cls db))"
  "rewritten (workerRow i) db (snd (RetryWordRecheckWrite now i retryAfter txt db))"
proof -
  have "rewritten (workerRow i) db (snd (requireAffected (settleTx i wordRecheckOwned (wordSettledRow now st gen) db)))"
    by (rule worker_updateOne) (auto simp: wordSettledRow_def wordRecheckOwned_def ident_def)
  then show "rewritten (workerRow i) db (snd (SettleWordRecheck now i st gen db))"
    by (simp add: SettleWordRecheck_def)
  have "rewritten (workerRow i) db (snd (updateReturning i wordRecheckOwned (wordDeferredRow now retryAfter maxWaits txt cls) db))"
    by (rule worker_updateOne) (auto simp: wordDeferredRow_def Let_def wordRecheckOwned_def ident_def processing_def)
  then show "rewritten (workerRow i) db (snd (DeferWordRecheck now i retryAfter maxWaits txt cls db))"
    by (auto simp: DeferWordRecheck_def split: prod.split sum.split)
  show "rewritten (workerRow i) db (snd (RetryWordRecheckWrite now i retryAfter txt db))"
    unfolding RetryWordRecheckWrite_def
    by (rule worker_updateOne) (auto simp: wordRecheckOwned_def ident_def)
qed

lemma matched_byID_iff:
  assumes "distinct (map rowid (work_queue db))" and "matched (byID i p) db = r # rs"
  shows "r \<in> set (work_queue db) \<and> rowid r = i \<and> p r \<and> rs = [] \<and> (\<forall>x \<in> set (work_queue db). rowid x = i \<longrightarrow> x = r)"
proof -
  have r: "r \<in> set (work_queue db)" "rowid r = i" "p r"
    using list.set_intros(1)[of r rs] unfolding assms(2)[symmetric] by (simp_all add: matched_def byID_def)
  have u: "x = r" if "x \<in> set (work_queue db)" "rowid x = i" for x
    using assms(1) r that by (auto simp: distinct_map inj_on_def)
  have "distinct (r # rs)"
    using assms(1) distinct_filter[of "work_queue db" "byID i p"] unfolding assms(2)[symmetric] matched_def
    by (simp add: distinct_map)
  moreover have "x = r" if "x \<in> set rs" for x
  proof (rule u)
    have "x \<in> set (matched (byID i p) db)" using that assms(2) by simp
    then show "x \<in> set (work_queue db)" "rowid x = i" by (simp_all add: matched_def byID_def)
  qed
  ultimately have "rs = []" by (cases rs) auto
  then show ?thesis using r u by blast
qed

lemma trips_worker [worker_ops]:
  "rewritten (workerRow i) db (snd (SettleUpgradeTrip q i answered db))"
  "rewritten (workerRow i) db (snd (SettleStuckUpgradeTrip q now i landed db))"
  "distinct (map rowid (work_queue db)) \<Longrightarrow> rewritten (workerRow i) db (snd (SettleGoneUpgradeTrip now i confirmAfter db))"
proof -
  show "rewritten (workerRow i) db (snd (SettleUpgradeTrip q i answered db))"
    unfolding SettleUpgradeTrip_def
    by (rule worker_updateOne) (auto simp: tripSettledRow_def upgradeTrip_def ident_def)
  show "rewritten (workerRow i) db (snd (SettleStuckUpgradeTrip q now i landed db))"
    unfolding SettleStuckUpgradeTrip_def
    by (rule worker_updateOne) (auto simp: upgradeTrip_def ident_def)
  assume d: "distinct (map rowid (work_queue db))"
  show "rewritten (workerRow i) db (snd (SettleGoneUpgradeTrip now i confirmAfter db))"
  proof (cases "matched (byID i upgradeTrip) db")
    case (Cons r rs)
    note r = matched_byID_iff[OF d Cons]
    have "rewritten (workerRow i) db (updateWork (byID i (\<lambda>_. True)) (onStatus \<circ> f) db)"
      if "rowid (f r) = rowid r" "ident (f r) = ident r" "\<not> processing (f r)" for f
      unfolding rewritten_def updateWork_def list_all2_conv_all_nth
    proof (clarsimp, rule workerRow_onStatus)
      fix n assume "n < length (work_queue db)" "byID i (\<lambda>_. True) (work_queue db ! n)"
      then have "work_queue db ! n = r" using r by (simp add: byID_def)
      then show "rowid (f (work_queue db ! n)) = rowid (work_queue db ! n)" "ident (f (work_queue db ! n)) = ident (work_queue db ! n)"
        "processing (work_queue db ! n)" "\<not> processing (f (work_queue db ! n))" "rowid (work_queue db ! n) = i"
        using that r by (auto simp: upgradeTrip_def)
    qed
    from this[of "goneRetiredRow now"] this[of "goneMarkedRow now"] show ?thesis
      by (auto simp: SettleGoneUpgradeTrip_def Cons Let_def goneRetiredRow_def goneMarkedRow_def ident_def)
  qed (simp add: SettleGoneUpgradeTrip_def)
qed

section \<open>Claiming\<close>

text \<open>What a claim may do to a row: take one that is ready, or renumber the buffer.\<close>

definition claimedRow :: "WorkRow \<Rightarrow> WorkRow \<Rightarrow> bool" where
  "claimedRow r r' \<longleftrightarrow> rowid r' = rowid r \<and> ident r' = ident r \<and> (goodRow r \<longrightarrow> goodRow r') \<and> paths r' = paths r \<and>
     (processing r \<longrightarrow> heldCols r' = heldCols r) \<and>
     (status r' = status r \<or> retryable r \<and> status r' = StatusProcessing \<and> prev_status r' = Some (status r))"

lemma claimedRow_refl [simp, intro]: "claimedRow r r"
  by (simp add: claimedRow_def)

lemma claimedRow_quiet:
  "rowid r' = rowid r \<Longrightarrow> ident r' = ident r \<Longrightarrow> heldCols r' = heldCols r \<Longrightarrow> upgrade_queued r' = upgrade_queued r \<Longrightarrow>
   failure_class r' = failure_class r \<Longrightarrow> claimedRow r r'"
  by (auto simp: claimedRow_def heldCols_def goodRow_def processing_def terminal_def)

lemma claimRow_claimed: "retryable r \<Longrightarrow> claimedRow r (onStatus (claimRow wall r))"
  by (auto simp: claimedRow_def claimRow_def ident_def goodRow_def processing_def terminal_def retryable_def trigger_defs)

lemma claimedRow_trans: "claimedRow a b \<Longrightarrow> claimedRow b c \<Longrightarrow> claimedRow a c"
  by (auto simp: claimedRow_def heldCols_def retryable_def processing_def)

lemma claimed_updateWork: "(\<And>r. p r \<Longrightarrow> claimedRow r (f r)) \<Longrightarrow> rewritten claimedRow db (updateWork p f db)"
  by (rule rewritten_updateWork) auto

lemma claimed_trans: "rewritten claimedRow a b \<Longrightarrow> rewritten claimedRow b c \<Longrightarrow> rewritten claimedRow a c"
  using rewritten_trans[of claimedRow] claimedRow_trans by blast

lemma claimed_refl [simp, intro]: "rewritten claimedRow db db"
  by (rule rewritten_refl) auto

lemma rewritten_rowids: "rewritten E db db' \<Longrightarrow> (\<And>a b. E a b \<Longrightarrow> rowid b = rowid a) \<Longrightarrow> map rowid (work_queue db') = map rowid (work_queue db)"
  unfolding rewritten_def by (auto intro!: nth_equalityI simp: list_all2_conv_all_nth)

lemma claimFirst_claimed:
  assumes "distinct (map rowid (work_queue db))" and "\<And>r. r \<in> set cs \<Longrightarrow> r \<in> set (work_queue db) \<and> retryable r"
  shows "rewritten claimedRow db (snd (claimFirst wall cs db))"
proof (cases cs)
  case (Cons r rs)
  then have r: "r \<in> set (work_queue db)" "retryable r" using assms(2) by auto
  have u: "x = r" if "x \<in> set (work_queue db)" "rowid x = rowid r" for x
    using assms(1) r that by (auto simp: distinct_map inj_on_def)
  have "rewritten claimedRow db (updateWork (byID (rowid r) (\<lambda>_. True)) (onStatus \<circ> claimRow wall) db)"
    unfolding rewritten_def updateWork_def list_all2_conv_all_nth
    using u r(2) by (auto simp: byID_def intro!: claimRow_claimed dest!: nth_mem)
  then show ?thesis by (auto simp: claimFirst_def Cons updateReturning_def split: list.split)
qed (simp add: claimFirst_def)

lemma refillBuffer_claimed: "rewritten claimedRow db (refillBuffer q now rnd db)"
proof -
  have c: "rewritten claimedRow d (clearStaleBatchSeq now d)" for d
    unfolding clearStaleBatchSeq_def by (rule claimed_updateWork, rule claimedRow_quiet) (simp_all add: ident_def heldCols_def)
  have s: "rewritten claimedRow d (stampDrawn offset drawn d)" for d offset drawn
    unfolding stampDrawn_def Let_def by (rule claimed_updateWork, rule claimedRow_quiet) (simp_all add: ident_def heldCols_def)
  show ?thesis
    using c claimed_trans[OF c s] by (simp add: refillBuffer_def Let_def)
qed

lemma dequeue_claimed:
  assumes "distinct (map rowid (work_queue db))"
  shows "rewritten claimedRow db (snd (dequeueOnce q now wall rnd db))"
proof -
  let ?d1 = "refillBuffer q now rnd db"
  have d1: "distinct (map rowid (work_queue ?d1))"
    using rewritten_rowids[OF refillBuffer_claimed] assms by (metis claimedRow_def)
  have "rewritten claimedRow ?d1 (snd (dequeueBatched q now wall rnd db))"
    unfolding dequeueBatched_def Let_def
    by (rule claimFirst_claimed[OF d1]) (auto simp: matched_def eligible_def)
  then have b: "rewritten claimedRow db (snd (dequeueBatched q now wall rnd db))"
    by (rule claimed_trans[OF refillBuffer_claimed])
  show ?thesis
    using b by (auto simp: dequeueOnce_def orderRandom_def orderFIFO_def matched_def eligible_def
        intro!: claimFirst_claimed[OF assms])
qed

section \<open>The transition system\<close>

datatype actor = Claimer | Holder int | Anyone

inductive qstep :: "actor \<Rightarrow> QDB \<Rightarrow> QDB \<Rightarrow> bool" where
  Claim: "qstep Claimer db (snd (dequeueOnce q now wall rnd db))"
| WComplete: "qstep (Holder i) db (snd (completeOnce q now i db))"
| WInstrumental: "qstep (Holder i) db (snd (settleInstrumentalOnce now i tel OwnedByWorker db))"
| WRejected: "qstep (Holder i) db (snd (settleGuardRejectedOnce now i reason db))"
| WBlocked: "qstep (Holder i) db (snd (settleBlockedOnce now i db))"
| WRelease: "qstep (Holder i) db (snd (Release i db))"
| WReleaseUntil: "qstep (Holder i) db (snd (ReleaseUntil now i retryAfter db))"
| WFail: "qstep (Holder i) db (snd (failOnce q now i cause db))"
| WDefer: "qstep (Holder i) db (snd (Defer now i retryAfter cause db))"
| WDeferRefused: "qstep (Holder i) db (snd (deferRefusedOnce now i retryAfter maxWaits txt db))"
| WRetireMiss: "qstep (Holder i) db (snd (RetireMiss now i db))"
| WSettleWord: "qstep (Holder i) db (snd (SettleWordRecheck now i st gen db))"
| WDeferWord: "qstep (Holder i) db (snd (DeferWordRecheck now i retryAfter maxWaits txt cls db))"
| WRetryWord: "qstep (Holder i) db (snd (RetryWordRecheckWrite now i retryAfter txt db))"
| WSettleTrip: "qstep (Holder i) db (snd (SettleUpgradeTrip q i answered db))"
| WSettleStuck: "qstep (Holder i) db (snd (SettleStuckUpgradeTrip q now i landed db))"
| WSettleGone: "qstep (Holder i) db (snd (SettleGoneUpgradeTrip now i confirmAfter db))"
| AEnqueue: "qstep Anyone db (snd (enqueueTx nkey q move wall now inputs prio db))"
| ARepoint: "qstep Anyone db (snd (RepointGoneSource nkey q stat now inputs db))"
| ACleanup: "qstep Anyone db (snd (Cleanup nkey q inputs db))"
| ACancel: "qstep Anyone db (snd (cancelByLibrary dryRun lib db))"
| ARetry: "qstep Anyone db (snd (Retry now i db))"
| ARecheckDeferred: "qstep Anyone db (snd (RecheckDeferred now scope db))"
| ARecheckRetired: "qstep Anyone db (snd (recheckRetired now scope expected db))"
| AClearDone: "qstep Anyone db (snd (ClearDone db))"
| AReopenDone: "qstep Anyone db (snd (ReopenDoneRowTx i now db))"
| AReopenBlocked: "qstep Anyone db (snd (ReopenBlockedTx ak tk now db))"
| AStampMiss: "qstep Anyone db (snd (StampUnclassifiedMiss i tel db))"
| AStampTelemetry: "qstep Anyone db (snd (StampInstrumentalTelemetry i tel db))"
| AResetInstrumental: "qstep Anyone db (snd (ResetInstrumental now i db))"
| AResetUnclassified: "qstep Anyone db (snd (ResetInstrumentalToUnclassified i db))"
| AUnsettle: "qstep Anyone db (snd (UnsettleInstrumental now i db))"
| ABackfill: "qstep Anyone db (snd (settleInstrumentalOnce now i tel OwnedByBackfill db))"
| AMarkManual: "qstep Anyone db (snd (MarkManualInstrumentalTx i now db))"
| AUnmarkManual: "qstep Anyone db (snd (UnmarkManualInstrumentalTx i now db))"
| AMarkWord: "qstep Anyone db (snd (MarkWordRecheckQueued ids opts now report db))"
| AMarkUpgrade: "qstep Anyone db (snd (MarkUpgradeQueued q now ids holdBefore db))"
| ALink: "qstep Anyone db (snd (LinkSettled q c backup db))"
| AAdopt: "qstep Anyone db (snd (InsertSettledDone q wall now c cls backup db))"
| ARemediate: "qstep Anyone db (snd (ApplyRemediated now cand action tier backup db))"
| AUpstream: "qstep Anyone db (snd (SetUpstreamIfPending i lane up backup db))"
| ATierIfPending: "qstep Anyone db (snd (SetSyncTierIfPending i tier backup db))"
| ATimingIfIdle: "qstep Anyone db (snd (SetTimingOutcomeIfIdle i rec db))"
| ASetLane: "qstep Anyone db (SetProviderLane i lane up db)"
| AClearLane: "qstep Anyone db (ClearProviderLane i db)"
| ASetInstrumental: "qstep Anyone db (SetInstrumentalResult i result tel db)"
| ASetOutcome: "qstep Anyone db (SetOutcomeType i outcome db)"
| ASetTiming: "qstep Anyone db (snd (SetTimingOutcome i rec db))"
| ASetProvenance: "qstep Anyone db (SetCompletionProvenance i prov db)"
| ASetWord: "qstep Anyone db (snd (SetWordTimingState now i st generation checkedAt db))"
| AClearWord: "qstep Anyone db (ClearWordTimingState i db)"
| ASetTier: "qstep Anyone db (snd (SetSyncTier i tier db))"
| ASetEdit: "qstep Anyone db (SetLyricEdit now i offset db)"
| ASetRetime: "qstep Anyone db (SetLyricRetime now i db)"
| AClearEdit: "qstep Anyone db (ClearLyricEdit i db)"
| AClearGone: "qstep Anyone db (ClearSourceGone i db)"
| AScanner: "work_queue db' = work_queue db \<Longrightarrow> lastRowid db' = lastRowid db \<Longrightarrow> qstep Anyone db db'"

text \<open>The rows that exist, are unique, and are good; and the states reachable from an empty queue.\<close>

definition qinv :: "QDB \<Rightarrow> bool" where
  "qinv db \<longleftrightarrow> distinct (map rowid (work_queue db)) \<and> (\<forall>r \<in> set (work_queue db). rowid r \<le> lastRowid db \<and> goodRow r) \<and>
     distinct (map ident (work_queue db))"

definition emptyDB :: QDB where
  "emptyDB = \<lparr>work_queue = [], lastRowid = 0, scan_results = [], links = [], lyric_blocks = []\<rparr>"

inductive qreachable :: "QDB \<Rightarrow> bool" where
  Start: "qreachable emptyDB"
| Step: "qreachable db \<Longrightarrow> qstep a db db' \<Longrightarrow> qreachable db'"

lemma anyone_reach: "qstep Anyone db db' \<Longrightarrow> adminReach db db'"
  by (cases rule: qstep.cases)
     (auto simp: cancelByLibrary_def intro: adminReach_rewritten admin_ops admin_same_rows Enqueue_reach Cleanup_reach
        cancelLoop_reach ClearDone_reach InsertSettledDone_reach)

lemma holder_rewritten: "qstep (Holder i) db db' \<Longrightarrow> distinct (map rowid (work_queue db)) \<Longrightarrow> rewritten (workerRow i) db db'"
  by (cases rule: qstep.cases) (auto intro: worker_ops)

lemma claimer_rewritten: "qstep Claimer db db' \<Longrightarrow> distinct (map rowid (work_queue db)) \<Longrightarrow> rewritten claimedRow db db'"
  by (cases rule: qstep.cases) (auto intro: dequeue_claimed)

end
