(* ===== verification/QueueLife.thy ===== *)
theory QueueLife
  imports QueueSteps
begin

text \<open>
  The invariant of the queue, the separation of its users, and the abstract life cycle of a row
  that every operation implements.
\<close>

section \<open>The invariant\<close>

lemma list_all2_map_eq: "list_all2 E xs ys \<Longrightarrow> (\<And>a b. E a b \<Longrightarrow> f b = f a) \<Longrightarrow> map f ys = map f xs"
  by (auto intro!: nth_equalityI simp: list_all2_conv_all_nth)

lemma list_all2_set: "list_all2 E xs ys \<Longrightarrow> y \<in> set ys \<Longrightarrow> \<exists>x \<in> set xs. E x y"
  by (induction rule: list_all2_induct) auto

lemma qinv_rewritten:
  assumes "qinv a" and "rewritten E a b"
    and "\<And>r r'. E r r' \<Longrightarrow> rowid r' = rowid r \<and> ident r' = ident r \<and> (goodRow r \<longrightarrow> goodRow r')"
  shows "qinv b"
proof -
  have l: "list_all2 E (work_queue a) (work_queue b)" "lastRowid b = lastRowid a"
    using assms(2) by (simp_all add: rewritten_def)
  have "map rowid (work_queue b) = map rowid (work_queue a)" "map ident (work_queue b) = map ident (work_queue a)"
    using l(1) by (auto intro!: list_all2_map_eq dest: assms(3))
  moreover have "rowid r' \<le> lastRowid b \<and> goodRow r'" if r': "r' \<in> set (work_queue b)" for r'
  proof -
    obtain r where r: "r \<in> set (work_queue a)" "E r r'" using list_all2_set[OF l(1) r'] by blast
    then have "rowid r \<le> lastRowid a" "goodRow r" using assms(1) by (simp_all add: qinv_def)
    then show ?thesis using assms(3)[OF r(2)] l(2) by simp
  qed
  ultimately show ?thesis
    using assms(1) by (simp add: qinv_def)
qed

lemma distinct_map_filter': "distinct (map f xs) \<Longrightarrow> distinct (map f (filter p xs))"
  by (induction xs) auto

lemma qinv_admin: "adminReach a b \<Longrightarrow> qinv a \<Longrightarrow> qinv b"
proof (induction rule: adminReach.induct)
  case (Rewrite a b c)
  then show ?case by (auto intro: qinv_rewritten simp: adminRow_def)
next
  case (Delete a b c keep)
  then show ?case by (simp add: qinv_def distinct_map_filter')
next
  case (Insert a b c x)
  then have "rowid x \<notin> rowid ` set (work_queue b)" by (fastforce simp: qinv_def)
  with Insert show ?case by (auto simp: qinv_def intro: order_trans)
qed

lemma qinv_step:
  assumes "qstep a db db'" and q: "qinv db"
  shows "qinv db'"
proof -
  have d: "distinct (map rowid (work_queue db))" using q by (simp add: qinv_def)
  show ?thesis
  proof (cases a)
    case Claimer
    with assms d have "rewritten claimedRow db db'" by (simp add: claimer_rewritten)
    with q show ?thesis by (rule qinv_rewritten) (simp add: claimedRow_def)
  next
    case (Holder i)
    with assms d have "rewritten (workerRow i) db db'" by (simp add: holder_rewritten)
    with q show ?thesis by (rule qinv_rewritten) (simp add: workerRow_def)
  next
    case Anyone
    with assms show ?thesis by (auto intro: qinv_admin anyone_reach)
  qed
qed


definition exInputs :: Inputs where
  "exInputs = \<lparr>inTrack = zeroTrack\<lparr>ArtistName := lit ''A'', TrackName := lit ''T''\<rparr>, inOutdir = lit ''/m'',
     inFilename = lit ''t.lrc'', inSourcePath = lit ''/m/t.flac'', inOutputPaths = [], inScanResultID = 0,
     inLibraryID = 0, inFromScan = False, inReopenCategorical = False, inReopenAdopted = False,
     inDetectInstrumental = None\<rparr>"

definition exQueued :: QDB where
  "exQueued = snd (enqueueTx id NewDBQueue None 0 0 exInputs PriorityScan emptyDB)"

lemma exQueued_rows: "work_queue exQueued = [freshRow NewDBQueue 1 0 0 (lit ''A'') (lit ''T'') [] exInputs 0]"
  by (simp add: exQueued_def enqueueTx_def inTx_def enqueueBody_def IdentityKeys_def resolveEditionTx_def NewDBQueue_def
      exInputs_def reopensForScan_def upsert_def Let_def emptyDB_def matched_def PriorityScan_def PriorityWebhook_def
      EditionNone_def formatTime_def)


section \<open>Held rows\<close>

definition heldRows :: "QDB \<Rightarrow> (int \<times> RowPaths \<times> RowStatus \<times> RowStatus option \<times> int \<times> int \<times> int \<times> gotext \<times> int option) list" where
  "heldRows db = map heldCols (filter processing (work_queue db))"

lemma heldRows_rewritten: "rewritten adminRow a b \<Longrightarrow> heldRows b = heldRows a"
proof -
  have "map heldCols (filter processing ys) = map heldCols (filter processing xs)" if "list_all2 adminRow xs ys" for xs ys
    using that by (induction rule: list_all2_induct) (auto simp: adminRow_def heldCols_def processing_def split: if_splits)
  then show "rewritten adminRow a b \<Longrightarrow> heldRows b = heldRows a" by (simp add: rewritten_def heldRows_def)
qed

lemma heldRows_reach: "adminReach a b \<Longrightarrow> heldRows b = heldRows a"
proof (induction rule: adminReach.induct)
  case (Delete a b c keep)
  then have "filter processing (filter keep (work_queue b)) = filter processing (work_queue b)"
    by (induction "work_queue b") (auto simp: filter_id_conv intro!: filter_cong)
  with Delete show ?case by (simp add: heldRows_def)
next
  case (Insert a b c x)
  then show ?case by (simp add: heldRows_def)
qed (simp_all add: heldRows_rewritten)

text \<open>
  C16: whatever anyone but a worker does to the queue -- an enqueue that hits the row, a scan, a
  cancel, a sweep, an operator's retry, clear, mark or edit -- the rows workers hold stay, in order,
  with their paths, status, remembered status, attempts, miss and wait counts, error and claim
  time, and no row becomes held.
\<close>

theorem held_rows_untouched: "qstep Anyone db db' \<Longrightarrow> heldRows db' = heldRows db"
  by (rule heldRows_reach[OF anyone_reach])

definition exFIFO :: DBQueue where "exFIFO = SetRandomized False NewDBQueue"

definition exHeld :: QDB where "exHeld = snd (dequeueOnce exFIFO 0 7 id exQueued)"

lemma exHeld_rows: "work_queue exHeld = [onStatus (claimRow 7 (freshRow NewDBQueue 1 0 0 (lit ''A'') (lit ''T'') [] exInputs 0))]"
  by (simp add: exHeld_def exFIFO_def SetRandomized_def NewDBQueue_def dequeueOnce_def orderFIFO_def matched_def eligible_def
      retryable_def exQueued_rows freshRow_def defaultRow_def formatTime_def claimFirst_def updateReturning_def byID_def updateWork_def)

lemma exHeld_qinv: "qinv exQueued" "qinv exHeld"
proof -
  show "qinv exQueued"
    unfolding exQueued_def by (rule qinv_step[OF AEnqueue]) (simp add: qinv_def emptyDB_def)
  then show "qinv exHeld"
    unfolding exHeld_def by (rule qinv_step[OF Claim])
qed

theorem held_rows_untouched_witness:
  "heldRows (snd (enqueueTx id NewDBQueue None 0 0 exInputs PriorityWebhook exHeld)) = heldRows exHeld \<and> length (heldRows exHeld) = 1"
  using held_rows_untouched[OF AEnqueue[where nkey = id and q = NewDBQueue and move = None and wall = 0 and now = 0
      and inputs = exInputs and prio = PriorityWebhook and db = exHeld]]
  by (simp add: heldRows_def exHeld_rows processing_def claimRow_def)

section \<open>The holder's frame\<close>

text \<open>
  C17: an operation of the worker that holds row \<open>i\<close> -- any settle, release, deferral, failure or
  retirement -- changes no other row, and nothing at all when nobody holds row \<open>i\<close>, so a worker
  that lost its row cannot overwrite it; what it does change, it gives back.
\<close>

theorem holder_frame:
  assumes "qinv db" and "qstep (Holder i) db db'"
  shows "list_all2 (\<lambda>r r'. r' = r \<or> rowid r = i \<and> rowid r' = i \<and> processing r \<and> \<not> processing r') (work_queue db) (work_queue db')"
proof -
  have "rewritten (workerRow i) db db'" "\<forall>r \<in> set (work_queue db). goodRow r"
    using assms holder_rewritten by (simp_all add: qinv_def)
  then show ?thesis
    by (auto simp: rewritten_def workerRow_def list_all2_conv_all_nth)
qed

theorem holder_frame_witness:
  "list_all2 (\<lambda>r r'. r' = r \<or> rowid r = 1 \<and> rowid r' = 1 \<and> processing r \<and> \<not> processing r')
     (work_queue exHeld) (work_queue (snd (Release 1 exHeld)))"
  using holder_frame[OF exHeld_qinv(2) WRelease[where i = 1]] by simp

section \<open>The life cycle of a row\<close>

datatype Life = Absent | Waiting | Held | Finished | Retired

fun lifeOf :: "RowStatus \<Rightarrow> Life" where
  "lifeOf StatusPending = Waiting"
| "lifeOf StatusFailed = Waiting"
| "lifeOf StatusDeferred = Waiting"
| "lifeOf StatusProcessing = Held"
| "lifeOf StatusDone = Finished"
| "lifeOf StatusUnavailable = Retired"

definition life :: "QDB \<Rightarrow> int \<Rightarrow> Life" where
  "life db i = (case matched (byID i (\<lambda>_. True)) db of [] \<Rightarrow> Absent | r # _ \<Rightarrow> lifeOf (status r))"

text \<open>
  The promise: only a claim makes a row held, and only of a waiting row; only its holder ends that;
  only the holder retires a row; everyone else moves rows nobody holds.
\<close>

inductive lifeStep :: "actor \<Rightarrow> int \<Rightarrow> Life \<Rightarrow> Life \<Rightarrow> bool" where
  Keep: "lifeStep a i s s"
| Take: "lifeStep Claimer i Waiting Held"
| GiveBack: "lifeStep (Holder i) i Held Waiting"
| Finish: "lifeStep (Holder i) i Held Finished"
| Retire: "lifeStep (Holder i) i Held Retired"
| Other: "s \<noteq> Held \<Longrightarrow> s' \<noteq> Held \<Longrightarrow> s' \<noteq> Retired \<Longrightarrow> lifeStep Anyone i s s'"

inductive_simps lifeStep_Anyone: "lifeStep Anyone i s s'"
inductive_simps lifeStep_Holder: "lifeStep (Holder j) i s s'"

lemma lifeOf_iff [simp]:
  "lifeOf st = Held \<longleftrightarrow> st = StatusProcessing" "lifeOf st = Retired \<longleftrightarrow> st = StatusUnavailable"
  "lifeOf st = Finished \<longleftrightarrow> st = StatusDone" "lifeOf st \<noteq> Absent" "Absent \<noteq> lifeOf st"
  by (cases st; simp)+

lemma life_alt: "life db i = (case List.find (\<lambda>r. rowid r = i) (work_queue db) of None \<Rightarrow> Absent | Some r \<Rightarrow> lifeOf (status r))"
proof -
  have "(case filter (\<lambda>r. rowid r = i) xs of [] \<Rightarrow> Absent | r # _ \<Rightarrow> lifeOf (status r)) =
        (case List.find (\<lambda>r. rowid r = i) xs of None \<Rightarrow> Absent | Some r \<Rightarrow> lifeOf (status r))" for xs
    by (induction xs) auto
  moreover have "byID i (\<lambda>_. True) = (\<lambda>r. rowid r = i)" by (auto simp: byID_def)
  ultimately show ?thesis by (simp add: life_def matched_def)
qed

abbreviation lifeIn :: "WorkRow list \<Rightarrow> int \<Rightarrow> Life" where
  "lifeIn xs i \<equiv> (case List.find (\<lambda>r. rowid r = i) xs of None \<Rightarrow> Absent | Some r \<Rightarrow> lifeOf (status r))"

lemma life_list:
  assumes "list_all2 (\<lambda>r r'. rowid r' = rowid r \<and> lifeStep a (rowid r) (lifeOf (status r)) (lifeOf (status r'))) xs ys"
  shows "lifeStep a i (lifeIn xs i) (lifeIn ys i)"
  using assms by (induction rule: list_all2_induct) (auto intro: lifeStep.Keep)

lemma life_rewritten:
  assumes "rewritten E db db'"
    and "\<And>r r'. r \<in> set (work_queue db) \<Longrightarrow> E r r' \<Longrightarrow> rowid r' = rowid r \<and> lifeStep a (rowid r) (lifeOf (status r)) (lifeOf (status r'))"
  shows "lifeStep a i (life db i) (life db' i)"
  unfolding life_alt
proof (rule life_list)
  show "list_all2 (\<lambda>r r'. rowid r' = rowid r \<and> lifeStep a (rowid r) (lifeOf (status r)) (lifeOf (status r')))
      (work_queue db) (work_queue db')"
    using assms(1) unfolding rewritten_def by (auto simp: list_all2_conv_all_nth assms(2))
qed

lemma lifeStep_Anyone_trans: "lifeStep Anyone i a b \<Longrightarrow> lifeStep Anyone i b c \<Longrightarrow> lifeStep Anyone i a c"
  by (auto simp: lifeStep_Anyone)

lemma life_delete:
  assumes "\<forall>r \<in> set xs. keep r \<or> \<not> processing r \<and> status r \<noteq> StatusUnavailable" and "distinct (map rowid xs)"
  shows "lifeStep Anyone i (lifeIn xs i) (lifeIn (filter keep xs) i)"
  using assms
proof (induction xs)
  case (Cons x xs)
  show ?case
  proof (cases "rowid x = i \<and> \<not> keep x")
    case True
    then have "List.find (\<lambda>r. rowid r = i) (filter keep xs) = None"
      using Cons.prems(2) by (auto simp: find_None_iff image_iff)
    then show ?thesis using True Cons.prems(1) by (auto simp: lifeStep_Anyone processing_def)
  next
    case False
    then show ?thesis using Cons by (auto intro: lifeStep.Keep)
  qed
qed (simp add: lifeStep.Keep)

lemma life_insert:
  assumes "rowid x \<notin> rowid ` set xs" "\<not> processing x" "status x \<noteq> StatusUnavailable"
  shows "lifeStep Anyone i (lifeIn xs i) (lifeIn (xs @ [x]) i)"
  using assms
proof (induction xs)
  case Nil
  then show ?case by (auto simp: lifeStep_Anyone processing_def)
qed (auto simp: lifeStep_Anyone)

lemma life_reach: "adminReach a b \<Longrightarrow> qinv a \<Longrightarrow> lifeStep Anyone i (life a i) (life b i)"
proof (induction rule: adminReach.induct)
  case (Stay a)
  show ?case by (rule lifeStep.Keep)
next
  case (Rewrite a b c)
  have "lifeStep Anyone i (life b i) (life c i)"
    by (rule life_rewritten[OF Rewrite.hyps(2)])
       (auto simp: adminRow_def lifeStep_Anyone heldCols_def processing_def split: if_splits)
  with Rewrite.IH[OF Rewrite.prems] show ?case by (rule lifeStep_Anyone_trans)
next
  case (Delete a b c keep)
  have "lifeStep Anyone i (life b i) (life c i)"
    unfolding life_alt Delete.hyps(2)
    using Delete.hyps(4) qinv_admin[OF Delete.hyps(1) Delete.prems] by (intro life_delete) (auto simp: qinv_def)
  with Delete.IH[OF Delete.prems] show ?case by (rule lifeStep_Anyone_trans)
next
  case (Insert a b c x)
  have "rowid x \<notin> rowid ` set (work_queue b)"
    using qinv_admin[OF Insert.hyps(1) Insert.prems] Insert.hyps(3) by (fastforce simp: qinv_def)
  then have "lifeStep Anyone i (life b i) (life c i)"
    unfolding life_alt Insert.hyps(2) by (rule life_insert[OF _ Insert.hyps(6,7)])
  with Insert.IH[OF Insert.prems] show ?case by (rule lifeStep_Anyone_trans)
qed

lemma queue_refines_step:
  assumes "qinv db" and "qstep a db db'"
  shows "lifeStep a i (life db i) (life db' i)"
proof -
  have d: "distinct (map rowid (work_queue db))" and g: "\<And>r. r \<in> set (work_queue db) \<Longrightarrow> goodRow r"
    using assms(1) by (simp_all add: qinv_def)
  show ?thesis
  proof (cases a)
    case Claimer
    with assms d have "rewritten claimedRow db db'" by (simp add: claimer_rewritten)
    then show ?thesis
      unfolding Claimer by (rule life_rewritten) (auto simp: claimedRow_def retryable_def intro: lifeStep.intros)
  next
    case (Holder j)
    with assms d have "rewritten (workerRow j) db db'" by (simp add: holder_rewritten)
    then show ?thesis
      unfolding Holder
    proof (rule life_rewritten)
      fix r r' assume r: "r \<in> set (work_queue db)" "workerRow j r r'"
      show "rowid r' = rowid r \<and> lifeStep (Holder j) (rowid r) (lifeOf (status r)) (lifeOf (status r'))"
      proof (cases "r' = r")
        case False
        then have "rowid r = j" "status r = StatusProcessing" "status r' \<noteq> StatusProcessing" "rowid r' = rowid r"
          using r g[OF r(1)] by (auto simp: workerRow_def processing_def)
        then show ?thesis by (cases "status r'") (auto simp: lifeStep_Holder)
      qed (simp add: lifeStep.Keep)
    qed
  next
    case Anyone
    with assms show ?thesis by (auto intro: life_reach anyone_reach)
  qed
qed

text \<open>
  C18: the queue implements the abstract life cycle of a row: seen through \<open>life\<close> (absent, waiting,
  held, finished, retired), every operation on the tables is, for every row id, a step the life
  cycle allows to whoever performs it.
\<close>

theorem queue_refines_life: "qinv db \<Longrightarrow> qstep a db db' \<Longrightarrow> lifeStep a i (life db i) (life db' i)"
  by (rule queue_refines_step)

theorem queue_refines_life_witness:
  "lifeStep Claimer 1 (life exQueued 1) (life exHeld 1) \<and> life exQueued 1 = Waiting \<and> life exHeld 1 = Held"
  using queue_refines_life[OF exHeld_qinv(1) Claim[where q = exFIFO and now = 0 and wall = 7 and rnd = id], of 1]
  by (simp add: exHeld_def[symmetric] life_alt exHeld_rows exQueued_rows) (simp add: freshRow_def defaultRow_def claimRow_def)

end
