(* ===== verification/QueueClaims.thy ===== *)
theory QueueClaims
  imports QueueLife
begin

text \<open>
  What a worker gets from the queue and what giving back does: the row \<open>Dequeue\<close> chooses in each of
  its modes, the buffer of the batched mode, the round trip of a claim and a release, the bounds of
  the failure backoff and of the refused waits, and the retries of a locked database.
\<close>

section \<open>Sorting by several keys\<close>

lemma sorted_wrt_insort_key:
  assumes "sorted_wrt (\<lambda>x y. f x < f y \<or> f x = f y \<and> R x y) xs" and "\<forall>y \<in> set xs. R x y"
  shows "sorted_wrt (\<lambda>x y. (f x :: 'b :: linorder) < f y \<or> f x = f y \<and> R x y) (insort_key f x xs)"
  using assms by (induction xs) (auto simp: set_insort_key)

lemma sorted_wrt_sort_key:
  "sorted_wrt R xs \<Longrightarrow> sorted_wrt (\<lambda>x y. (f x :: 'b :: linorder) < f y \<or> f x = f y \<and> R x y) (sort_key f xs)"
  by (induction xs) (auto simp: sort_key_def intro!: sorted_wrt_insort_key simp flip: sort_key_def)

lemma hd_sort_key:
  assumes "sort_key f xs = y # ys"
  shows "y \<in> set xs \<and> (\<forall>x \<in> set xs. (f y :: 'b :: linorder) \<le> f x)"
proof -
  have "set xs = set (y # ys)" "sorted (map f (y # ys))" using assms by (metis set_sort, metis sorted_sort_key)
  then show ?thesis by auto
qed

text \<open>The order of a FIFO claim: priority, then age, then id.\<close>

definition fifoBefore :: "WorkRow \<Rightarrow> WorkRow \<Rightarrow> bool" where
  "fifoBefore x y \<longleftrightarrow> priority y < priority x \<or> priority x = priority y \<and>
     (created_at x < created_at y \<or> created_at x = created_at y \<and> rowid x \<le> rowid y)"

lemma orderFIFO_sorted: "sorted_wrt fifoBefore (orderFIFO rows)"
proof -
  have "sorted_wrt (\<lambda>x y. rowid x \<le> rowid y) (sort_key rowid rows)"
    using sorted_sort_key[of rowid rows] by (simp add: sorted_wrt_map sorted_map)
  from sorted_wrt_sort_key[OF sorted_wrt_sort_key[OF this], of "\<lambda>r. - priority r" created_at]
  show ?thesis unfolding orderFIFO_def fifoBefore_def by (auto elim!: sorted_wrt_mono_rel[rotated])
qed

lemma hd_orderFIFO: "orderFIFO rows = r # rs \<Longrightarrow> r \<in> set rows \<and> (\<forall>x \<in> set rows. fifoBefore r x)"
proof -
  assume a: "orderFIFO rows = r # rs"
  have "set rows = set (r # rs)" unfolding a[symmetric] by (simp add: orderFIFO_def)
  moreover have "\<forall>x \<in> set rs. fifoBefore r x" using orderFIFO_sorted[of rows] by (simp add: a)
  moreover have "fifoBefore r r" by (simp add: fifoBefore_def)
  ultimately show ?thesis by auto
qed

section \<open>Claiming one row\<close>

lemma qinv_unique: "qinv db \<Longrightarrow> r \<in> set (work_queue db) \<Longrightarrow> x \<in> set (work_queue db) \<Longrightarrow> rowid x = rowid r \<Longrightarrow> x = r"
  by (auto simp: qinv_def distinct_map inj_on_def)

lemma matched_unique:
  assumes "qinv db" "r \<in> set (work_queue db)"
  shows "matched (byID (rowid r) p) db = (if p r then [r] else [])"
proof (cases "matched (byID (rowid r) p) db")
  case Nil
  then show ?thesis using assms(2) by (auto simp: matched_def byID_def filter_empty_conv)
next
  case (Cons x xs)
  then show ?thesis
    using matched_byID_iff[OF _ Cons] assms qinv_unique[OF assms] by (auto simp: qinv_def)
qed

lemma updateWork_unique:
  assumes "qinv db" "r \<in> set (work_queue db)" "p r"
  shows "updateWork (byID (rowid r) p) f db = updateWork (\<lambda>x. x = r) f db"
  unfolding updateWork_def using assms qinv_unique[OF assms(1,2)]
  by (auto simp: byID_def intro!: arg_cong[where f = "\<lambda>l. db\<lparr>work_queue := l\<rparr>"])

lemma claimFirst_row:
  assumes "qinv db" "r \<in> set (work_queue db)"
  shows "claimFirst wall (r # rs) db = (Inr (scanWorkItem (claimRow wall r)), updateWork (\<lambda>x. x = r) (onStatus \<circ> claimRow wall) db)"
  using matched_unique[OF assms, of "\<lambda>_. True"] updateWork_unique[OF assms, of "\<lambda>_. True"]
  by (simp add: claimFirst_def updateReturning_def)

lemma sort_key_Nil [simp]: "sort_key f xs = [] \<longleftrightarrow> xs = []"
  by (metis length_0_conv length_sort)

text \<open>
  Without randomizing, \<open>Dequeue\<close> fails with \<open>ErrNoRows\<close>, changing nothing, exactly when no row
  is retryable and due; otherwise it claims, of those that are, the one of the highest priority,
  the oldest among equals and the lowest id among those, returns that row as claimed, and changes
  no other row.
\<close>

theorem dequeue_fifo:
  assumes "qinv db" and "\<not> randomized q"
  shows "case dequeueOnce q now wall rnd db of
     (Inl e, db') \<Rightarrow> e = ErrNoRows \<and> db' = db \<and> (\<forall>r \<in> set (work_queue db). \<not> eligible now r)
   | (Inr item, db') \<Rightarrow> \<exists>r \<in> set (work_queue db). eligible now r \<and>
       (\<forall>x \<in> set (work_queue db). eligible now x \<longrightarrow> fifoBefore r x) \<and>
       item = scanWorkItem (claimRow wall r) \<and> db' = updateWork (\<lambda>x. x = r) (onStatus \<circ> claimRow wall) db"
proof (cases "orderFIFO (matched (eligible now) db)")
  case Nil
  then have "matched (eligible now) db = []" by (simp add: orderFIFO_def)
  then show ?thesis
    using assms(2) Nil by (simp add: dequeueOnce_def claimFirst_def matched_def filter_empty_conv)
next
  case (Cons r rs)
  from hd_orderFIFO[OF this] have r: "r \<in> set (work_queue db)" "eligible now r"
    "\<forall>x \<in> set (work_queue db). eligible now x \<longrightarrow> fifoBefore r x"
    by (auto simp: matched_def)
  then show ?thesis
    using assms(2) claimFirst_row[OF assms(1) r(1)] by (auto simp: dequeueOnce_def Cons)
qed

theorem dequeue_fifo_witness:
  "case dequeueOnce exFIFO 0 7 id exQueued of
     (Inl e, db') \<Rightarrow> e = ErrNoRows \<and> db' = exQueued \<and> (\<forall>r \<in> set (work_queue exQueued). \<not> eligible 0 r)
   | (Inr item, db') \<Rightarrow> \<exists>r \<in> set (work_queue exQueued). eligible 0 r \<and>
       (\<forall>x \<in> set (work_queue exQueued). eligible 0 x \<longrightarrow> fifoBefore r x) \<and>
       item = scanWorkItem (claimRow 7 r) \<and> db' = updateWork (\<lambda>x. x = r) (onStatus \<circ> claimRow 7) exQueued"
  by (rule dequeue_fifo[OF exHeld_qinv(1)]) (simp add: exFIFO_def SetRandomized_def)

section \<open>The buffer of the batched mode\<close>

lemma clearStale_rows:
  "r' \<in> set (work_queue (clearStaleBatchSeq now db)) \<longleftrightarrow>
   (\<exists>r \<in> set (work_queue db). r' = (if buffered r \<and> \<not> eligible now r then r\<lparr>batch_seq := None\<rparr> else r))"
  by (auto simp: clearStaleBatchSeq_def updateWork_def)

lemma eligible_batch_seq [simp]: "eligible now (r\<lparr>batch_seq := b\<rparr>) = eligible now r"
  by (simp add: eligible_def retryable_def)

lemma buffered_batch_seq [simp]: "buffered (r\<lparr>batch_seq := b\<rparr>) \<longleftrightarrow> b \<noteq> None"
  by (simp add: buffered_def)

lemma clearStale_eligible: "r \<in> set (work_queue (clearStaleBatchSeq now db)) \<Longrightarrow> buffered r \<Longrightarrow> eligible now r"
proof -
  assume b: "buffered r" and "r \<in> set (work_queue (clearStaleBatchSeq now db))"
  then obtain x where "r = (if buffered x \<and> \<not> eligible now x then x\<lparr>batch_seq := None\<rparr> else x)"
    by (auto simp only: clearStale_rows)
  with b show "eligible now r" by (cases "buffered x \<and> \<not> eligible now x") auto
qed

lemma clearStale_keeps: "r \<in> set (work_queue db) \<Longrightarrow> eligible now r \<Longrightarrow> r \<in> set (work_queue (clearStaleBatchSeq now db))"
  by (auto simp: clearStale_rows)

lemma quiet_claimed:
  "rewritten claimedRow db (updateWork p (\<lambda>r. r\<lparr>batch_seq := g r\<rparr>) db)"
  by (rule claimed_updateWork, rule claimedRow_quiet) (simp_all add: ident_def heldCols_def)

lemma qinv_claimed: "qinv db \<Longrightarrow> rewritten claimedRow db db' \<Longrightarrow> qinv db'"
  by (rule qinv_rewritten[of db claimedRow]) (simp_all add: claimedRow_def)

lemma qinv_clearStale: "qinv db \<Longrightarrow> qinv (clearStaleBatchSeq now db)"
  unfolding clearStaleBatchSeq_def by (erule qinv_claimed) (rule quiet_claimed)

lemma qinv_refill: "qinv db \<Longrightarrow> qinv (refillBuffer q now rnd db)"
  by (erule qinv_claimed) (rule refillBuffer_claimed)

text \<open>The index of a row among the rows drawn.\<close>

definition drawnIndex :: "WorkRow list \<Rightarrow> int \<Rightarrow> nat option" where
  "drawnIndex drawn = map_of (zip (map rowid drawn) [0 ..< length drawn])"

lemma drawnIndex_nth: "distinct (map rowid drawn) \<Longrightarrow> k < length drawn \<Longrightarrow> drawnIndex drawn (rowid (drawn ! k)) = Some k"
  by (auto simp: drawnIndex_def intro!: map_of_eq_Some_iff[THEN iffD2] exI[of _ k] simp: set_zip)

lemma drawnIndex_Some: "drawnIndex drawn i = Some k \<Longrightarrow> k < length drawn \<and> rowid (drawn ! k) = i"
  unfolding drawnIndex_def by (drule map_of_SomeD) (auto simp: set_zip)

lemma drawnIndex_dom: "drawnIndex drawn i \<noteq> None \<longleftrightarrow> i \<in> rowid ` set drawn"
  by (simp add: drawnIndex_def map_of_zip_is_None)

lemma stampDrawn_queue:
  "work_queue (stampDrawn offset drawn db) = map (\<lambda>r. case drawnIndex drawn (rowid r) of None \<Rightarrow> r
      | Some k \<Rightarrow> r\<lparr>batch_seq := Some (offset + int k + 1)\<rparr>) (work_queue db)"
  unfolding stampDrawn_def Let_def updateWork_def drawnIndex_def[symmetric] by (auto split: option.split)

lemma stampDrawn_buffered:
  "length (matched buffered (stampDrawn offset drawn db)) \<le> length (matched buffered db) + length drawn"
  if "distinct (map rowid (work_queue db))" "set drawn \<subseteq> set (work_queue db)"
proof -
  let ?f = "\<lambda>r. case drawnIndex drawn (rowid r) of None \<Rightarrow> r | Some k \<Rightarrow> r\<lparr>batch_seq := Some (offset + int k + 1)\<rparr>"
  have a: "length (filter buffered (map ?f xs)) \<le> length (filter buffered xs) + length (filter (\<lambda>r. rowid r \<in> rowid ` set drawn) xs)" for xs
  proof (induction xs)
    case (Cons x xs)
    then show ?case
      using drawnIndex_dom[of drawn "rowid x"] by (cases "drawnIndex drawn (rowid x)") auto
  qed simp
  have b: "length (filter (\<lambda>r. rowid r \<in> rowid ` set drawn) (work_queue db)) \<le> length drawn"
  proof -
    have d: "distinct (filter (\<lambda>r. rowid r \<in> rowid ` set drawn) (work_queue db))"
      using that(1) by (simp add: distinct_map)
    have "set (filter (\<lambda>r. rowid r \<in> rowid ` set drawn) (work_queue db)) \<subseteq> set drawn"
      using that by (auto simp: distinct_map inj_on_def)
    then show ?thesis
      unfolding distinct_card[OF d, symmetric] by (intro order_trans[OF card_mono card_length]) auto
  qed
  show ?thesis
    unfolding matched_def stampDrawn_queue using a[of "work_queue db"] b by linarith
qed

text \<open>The rows a refill draws.\<close>

definition drawnRows :: "DBQueue \<Rightarrow> instant \<Rightarrow> (int \<Rightarrow> int) \<Rightarrow> QDB \<Rightarrow> WorkRow list" where
  "drawnRows q now rnd db = take (nat (batchSize q - int (length (matched buffered db))))
     (orderRandom rnd (matched (\<lambda>r. eligible now r \<and> \<not> buffered r) db))"

lemma drawnRows_set: "r \<in> set (drawnRows q now rnd db) \<Longrightarrow> r \<in> set (work_queue db) \<and> eligible now r \<and> \<not> buffered r"
  by (auto simp: drawnRows_def matched_def orderRandom_def dest: in_set_takeD)

lemma drawnRows_distinct: "qinv db \<Longrightarrow> distinct (map rowid (drawnRows q now rnd db))"
proof -
  assume "qinv db"
  then have d: "distinct (map rowid (work_queue db))" by (simp add: qinv_def)
  then have "distinct (drawnRows q now rnd db)"
    by (simp add: drawnRows_def orderRandom_def matched_def distinct_map)
  moreover have "inj_on rowid (set (drawnRows q now rnd db))"
    using d drawnRows_set by (auto simp: distinct_map inj_on_def)
  ultimately show ?thesis by (simp add: distinct_map)
qed

lemma refillBuffer_alt:
  "refillBuffer q now rnd db = (let db1 = clearStaleBatchSeq now db
     in stampDrawn (maxBatchSeq db1) (drawnRows q now rnd db1) db1)"
proof -
  have n: "stampDrawn off [] d = d" for off d
    by (simp add: stampDrawn_def updateWork_def)
  show ?thesis
    by (auto simp: refillBuffer_def Let_def drawnRows_def n)
qed

lemma refill_from:
  assumes "r1 \<in> set (work_queue (refillBuffer q now rnd db))"
  shows "\<exists>r \<in> set (work_queue db). \<exists>b. r1 = r\<lparr>batch_seq := b\<rparr>"
proof -
  have same: "\<exists>b. r = r\<lparr>batch_seq := b\<rparr>" for r :: WorkRow
    by (rule exI[of _ "batch_seq r"]) simp
  have c: "\<exists>b. (case i of None \<Rightarrow> r | Some k \<Rightarrow> r\<lparr>batch_seq := f k\<rparr>) = r\<lparr>batch_seq := b\<rparr>" for i :: "nat option" and f and r :: WorkRow
    using same[of r] by (cases i) auto
  have s: "\<exists>b. (if p then r\<lparr>batch_seq := None\<rparr> else r) = r\<lparr>batch_seq := b\<rparr>" for p and r :: WorkRow
    using same[of r] by (cases p) auto
  obtain d where d: "d \<in> set (work_queue (clearStaleBatchSeq now db))" and r1: "r1 =
      (case drawnIndex (drawnRows q now rnd (clearStaleBatchSeq now db)) (rowid d) of None \<Rightarrow> d
       | Some k \<Rightarrow> d\<lparr>batch_seq := Some (maxBatchSeq (clearStaleBatchSeq now db) + int k + 1)\<rparr>)"
    using assms unfolding refillBuffer_alt Let_def stampDrawn_queue by auto
  have 1: "\<exists>b. r1 = d\<lparr>batch_seq := b\<rparr>" unfolding r1 by (rule c)
  obtain r where r: "r \<in> set (work_queue db)" and d': "d = (if buffered r \<and> \<not> eligible now r then r\<lparr>batch_seq := None\<rparr> else r)"
    using d unfolding clearStale_rows by blast
  have 2: "\<exists>b. d = r\<lparr>batch_seq := b\<rparr>" unfolding d' by (rule s)
  obtain b c where "r1 = d\<lparr>batch_seq := b\<rparr>" "d = r\<lparr>batch_seq := c\<rparr>" using 1 2 by blast
  then have "r1 = r\<lparr>batch_seq := b\<rparr>" by simp
  with r show ?thesis by blast
qed

lemma refill_keeps:
  assumes "r \<in> set (work_queue (clearStaleBatchSeq now db))" and "buffered r" and "qinv db"
  shows "r \<in> set (work_queue (refillBuffer q now rnd db))"
proof -
  let ?d = "clearStaleBatchSeq now db"
  have "rowid r \<notin> rowid ` set (drawnRows q now rnd ?d)"
    using drawnRows_set qinv_unique[OF qinv_clearStale[OF assms(3)] assms(1)] assms(2) by fastforce
  then have "drawnIndex (drawnRows q now rnd ?d) (rowid r) = None" using drawnIndex_dom by blast
  then show ?thesis
    using assms(1) by (auto simp: refillBuffer_alt Let_def stampDrawn_queue image_iff intro!: bexI[of _ r])
qed

lemma refill_drawn:
  assumes "qinv db" and "k < length (drawnRows q now rnd (clearStaleBatchSeq now db))"
  shows "(drawnRows q now rnd (clearStaleBatchSeq now db) ! k)\<lparr>batch_seq := Some (maxBatchSeq (clearStaleBatchSeq now db) + int k + 1)\<rparr>
     \<in> set (work_queue (refillBuffer q now rnd db))"
proof -
  let ?d = "clearStaleBatchSeq now db" let ?w = "drawnRows q now rnd ?d"
  have "?w ! k \<in> set (work_queue ?d)" using drawnRows_set nth_mem[OF assms(2)] by blast
  moreover have "drawnIndex ?w (rowid (?w ! k)) = Some k"
    using assms drawnRows_distinct qinv_clearStale by (intro drawnIndex_nth) auto
  ultimately show ?thesis
    by (auto simp: refillBuffer_alt Let_def stampDrawn_queue image_iff intro!: bexI[of _ "?w ! k"])
qed

text \<open>Every buffered row of a refilled buffer is due: kept from before, or drawn with its number.\<close>

lemma refill_buffered:
  assumes "r1 \<in> set (work_queue (refillBuffer q now rnd db))" and "buffered r1" and "qinv db"
  defines "d \<equiv> clearStaleBatchSeq now db"
  shows "eligible now r1 \<and> (r1 \<in> set (work_queue d) \<and> buffered r1 \<or>
     (\<exists>k < length (drawnRows q now rnd d). r1 = (drawnRows q now rnd d ! k)\<lparr>batch_seq := Some (maxBatchSeq d + int k + 1)\<rparr>))"
proof -
  let ?w = "drawnRows q now rnd d"
  obtain r where r: "r \<in> set (work_queue d)"
    "r1 = (case drawnIndex ?w (rowid r) of None \<Rightarrow> r | Some k \<Rightarrow> r\<lparr>batch_seq := Some (maxBatchSeq d + int k + 1)\<rparr>)"
    using assms(1) unfolding refillBuffer_alt Let_def stampDrawn_queue d_def by auto
  show ?thesis
  proof (cases "drawnIndex ?w (rowid r)")
    case None
    then show ?thesis using r assms(2) clearStale_eligible by (auto simp: d_def)
  next
    case (Some k)
    then have k: "k < length ?w" "rowid (?w ! k) = rowid r" using drawnIndex_Some by blast+
    moreover have "?w ! k \<in> set (work_queue d) \<and> eligible now (?w ! k)" using drawnRows_set nth_mem[OF k(1)] by blast
    moreover have "qinv d" using assms(3) by (simp add: d_def qinv_clearStale)
    ultimately have "?w ! k = r" using qinv_unique[OF _ r(1)] by blast
    then show ?thesis using Some r(2) k(1) \<open>?w ! k \<in> _ \<and> _\<close> by auto
  qed
qed

lemma refill_exists:
  assumes "qinv db" "0 < batchSize q" "r \<in> set (work_queue db)" "eligible now r"
  shows "\<exists>r1 \<in> set (work_queue (refillBuffer q now rnd db)). eligible now r1 \<and> buffered r1"
proof (cases "matched buffered (clearStaleBatchSeq now db)")
  case (Cons x xs)
  then have "x \<in> set (matched buffered (clearStaleBatchSeq now db))" by simp
  then have x: "x \<in> set (work_queue (clearStaleBatchSeq now db))" "buffered x" by (auto simp: matched_def)
  then show ?thesis using refill_keeps[OF x assms(1)] clearStale_eligible by blast
next
  case Nil
  let ?d = "clearStaleBatchSeq now db"
  have r: "r \<in> set (work_queue ?d)" using clearStale_keeps assms(3,4) by blast
  moreover have "\<not> buffered r" using Nil r by (auto simp: matched_def filter_empty_conv)
  ultimately have "r \<in> set (orderRandom rnd (matched (\<lambda>r. eligible now r \<and> \<not> buffered r) ?d))"
    using assms(4) by (simp add: orderRandom_def matched_def)
  then have "drawnRows q now rnd ?d \<noteq> []" using Nil assms(2) by (auto simp: drawnRows_def)
  then have k: "0 < length (drawnRows q now rnd ?d)" by simp
  show ?thesis
    using refill_drawn[OF assms(1) k] drawnRows_set[OF nth_mem[OF k]] by (auto intro!: bexI[rotated])
qed

lemma refill_count:
  assumes "qinv db"
  shows "int (length (matched buffered (refillBuffer q now rnd db))) \<le> max (batchSize q) (int (length (matched buffered db)))"
proof -
  let ?d = "clearStaleBatchSeq now db"
  have "filter buffered (map (\<lambda>r. if p r then r\<lparr>batch_seq := None\<rparr> else r) xs) = filter (\<lambda>r. buffered r \<and> \<not> p r) xs" for p xs
    by (induction xs) auto
  then have c: "length (matched buffered ?d) \<le> length (matched buffered db)"
    by (simp add: matched_def clearStaleBatchSeq_def updateWork_def) (metis filter_filter length_filter_le)
  have "length (matched buffered (refillBuffer q now rnd db)) \<le> length (matched buffered ?d) + length (drawnRows q now rnd ?d)"
    unfolding refillBuffer_alt Let_def
    using qinv_clearStale[OF assms] drawnRows_set by (intro stampDrawn_buffered) (auto simp: qinv_def)
  moreover have "int (length (drawnRows q now rnd ?d)) \<le> max 0 (batchSize q - int (length (matched buffered ?d)))"
    by (simp add: drawnRows_def)
  ultimately show ?thesis using c by linarith
qed

text \<open>The candidates of a batched claim, in buffer order.\<close>

definition bufferedDue :: "instant \<Rightarrow> QDB \<Rightarrow> WorkRow list" where
  "bufferedDue now db = sort_key (\<lambda>r. the (batch_seq r)) (matched (\<lambda>r. eligible now r \<and> buffered r) db)"

lemma dequeueOnce_batched:
  "randomized q \<Longrightarrow> 0 < batchSize q \<Longrightarrow> dequeueOnce q now wall rnd db =
   claimFirst wall (bufferedDue now (refillBuffer q now rnd db)) (refillBuffer q now rnd db)"
  by (simp add: dequeueOnce_def dequeueBatched_def bufferedDue_def Let_def)

lemma bufferedDue_Cons:
  assumes "bufferedDue now db = r # rs"
  shows "r \<in> set (work_queue db) \<and> eligible now r \<and> buffered r \<and>
    (\<forall>x \<in> set (work_queue db). eligible now x \<and> buffered x \<longrightarrow> the (batch_seq r) \<le> the (batch_seq x))"
  using hd_sort_key[OF assms[unfolded bufferedDue_def]] by (auto simp: matched_def)

lemma maxBatchSeq_ge: "x \<in> set (work_queue db) \<Longrightarrow> buffered x \<Longrightarrow> the (batch_seq x) \<le> maxBatchSeq db"
proof -
  assume "x \<in> set (work_queue db)" "buffered x"
  then have "x \<in> set (matched buffered db)" by (simp add: matched_def)
  then show ?thesis by (auto simp: maxBatchSeq_def Let_def)
qed

lemma claimed_in_order:
  assumes "qinv db" and "bufferedDue now (refillBuffer q now rnd db) = r1 # rs"
    and r: "r \<in> set (work_queue db)" "rowid r = rowid r1"
    and x: "x \<in> set (work_queue db)" "eligible now x" "buffered x"
  shows "buffered r \<and> the (batch_seq r) \<le> the (batch_seq x)"
proof -
  let ?d = "clearStaleBatchSeq now db"
  note r1 = bufferedDue_Cons[OF assms(2)]
  have xd: "x \<in> set (work_queue ?d)" using clearStale_keeps x by blast
  then have le: "the (batch_seq r1) \<le> the (batch_seq x)"
    using refill_keeps[OF _ x(3) assms(1)] r1 x by blast
  have "the (batch_seq x) \<le> maxBatchSeq ?d" using maxBatchSeq_ge[OF xd x(3)] .
  then have "r1 \<in> set (work_queue ?d)"
    using refill_buffered[of r1 q now rnd db] r1 assms(1) le by auto
  then obtain y where y: "y \<in> set (work_queue db)" "r1 = (if buffered y \<and> \<not> eligible now y then y\<lparr>batch_seq := None\<rparr> else y)"
    unfolding clearStale_rows by blast
  then have "r1 = y" using r1 by (cases "buffered y \<and> \<not> eligible now y") auto
  then have "r = r1" using qinv_unique[OF assms(1) y(1) r(1)] r(2) by simp
  then show ?thesis using le r1 by simp
qed

text \<open>
  C20: in the batched mode a claim never starves: it fails only when no row is retryable and due.
  Otherwise the row claimed was due, and served in buffer order: if a due row was already numbered,
  the one claimed was too and no due row had a lower number. Afterwards every numbered row is due
  and the buffer holds no more rows than before, or than its size.
\<close>

theorem dequeue_batched:
  assumes "qinv db" and "randomized q" and "0 < batchSize q"
  shows "case dequeueOnce q now wall rnd db of
     (Inl e, db') \<Rightarrow> e = ErrNoRows \<and> (\<forall>r \<in> set (work_queue db). \<not> eligible now r)
   | (Inr item, db') \<Rightarrow> \<exists>r \<in> set (work_queue db). eligible now r \<and> rowid (fst item) = rowid r \<and> processing (fst item) \<and>
       (\<forall>x \<in> set (work_queue db). eligible now x \<and> buffered x \<longrightarrow> buffered r \<and> the (batch_seq r) \<le> the (batch_seq x)) \<and>
       (\<forall>x \<in> set (work_queue db'). buffered x \<longrightarrow> eligible now x) \<and>
       int (length (matched buffered db')) \<le> max (batchSize q) (int (length (matched buffered db)))"
proof (cases "bufferedDue now (refillBuffer q now rnd db)")
  let ?d = "refillBuffer q now rnd db"
  case Nil
  then have "\<forall>x \<in> set (work_queue ?d). \<not> (eligible now x \<and> buffered x)"
    by (auto simp: bufferedDue_def matched_def filter_empty_conv)
  then have "\<forall>r \<in> set (work_queue db). \<not> eligible now r"
    using refill_exists[OF assms(1,3)] by blast
  then show ?thesis by (simp add: dequeueOnce_batched[OF assms(2,3)] Nil claimFirst_def)
next
  let ?d = "refillBuffer q now rnd db"
  case (Cons r1 rs)
  note r1 = bufferedDue_Cons[OF Cons]
  have q: "qinv ?d" by (rule qinv_refill[OF assms(1)])
  let ?e = "updateWork (\<lambda>x. x = r1) (onStatus \<circ> claimRow wall) ?d"
  have claim: "dequeueOnce q now wall rnd db = (Inr (scanWorkItem (claimRow wall r1)), ?e)"
    using claimFirst_row[OF q] r1 by (simp add: dequeueOnce_batched[OF assms(2,3)] Cons)
  obtain r b where r: "r \<in> set (work_queue db)" "r1 = r\<lparr>batch_seq := b\<rparr>" using refill_from r1 by blast
  have nb: "\<not> buffered (onStatus (claimRow wall x))" for x by (simp add: buffered_def claimRow_def)
  have due: "eligible now x" if "x \<in> set (work_queue ?e)" "buffered x" for x
  proof -
    have "x \<in> set (work_queue ?d)" using that nb by (auto simp: updateWork_def split: if_splits)
    then show ?thesis using refill_buffered[OF _ that(2) assms(1)] by blast
  qed
  have "filter buffered (map (\<lambda>x. if x = r1 then (onStatus \<circ> claimRow wall) x else x) xs) = filter (\<lambda>x. buffered x \<and> x \<noteq> r1) xs" for xs
    using nb by (induction xs) auto
  then have "length (matched buffered ?e) \<le> length (matched buffered ?d)"
    by (simp add: matched_def updateWork_def) (metis filter_filter length_filter_le)
  then have "int (length (matched buffered ?e)) \<le> max (batchSize q) (int (length (matched buffered db)))"
    using refill_count[OF assms(1), of q now rnd] by linarith
  moreover have "rowid r = rowid r1" using r(2) by simp
  note claimed_in_order[OF assms(1) Cons r(1) this]
  ultimately show ?thesis
    unfolding claim using r r1 due by (auto simp: scanWorkItem_def claimRow_def processing_def intro!: bexI[of _ r])
qed

theorem dequeue_batched_witness:
  "case dequeueOnce NewDBQueue 0 7 id exQueued of
     (Inl e, db') \<Rightarrow> e = ErrNoRows \<and> (\<forall>r \<in> set (work_queue exQueued). \<not> eligible 0 r)
   | (Inr item, db') \<Rightarrow> \<exists>r \<in> set (work_queue exQueued). eligible 0 r \<and> rowid (fst item) = rowid r \<and> processing (fst item) \<and>
       (\<forall>x \<in> set (work_queue exQueued). eligible 0 x \<and> buffered x \<longrightarrow> buffered r \<and> the (batch_seq r) \<le> the (batch_seq x)) \<and>
       (\<forall>x \<in> set (work_queue db'). buffered x \<longrightarrow> eligible 0 x) \<and>
       int (length (matched buffered db')) \<le> max (batchSize NewDBQueue) (int (length (matched buffered exQueued)))"
  by (rule dequeue_batched[OF exHeld_qinv(1)]) (simp_all add: NewDBQueue_def defaultBatchSize_def)

text \<open>With an empty buffer a batched claim takes the head of the draw, a row of the highest priority.\<close>

lemma empty_buffer_claim:
  assumes "qinv db" and "randomized q" "0 < batchSize q" and e: "matched buffered db = []"
    and "dequeueOnce q now wall rnd db = (Inr w, db2)"
  shows "\<exists>r \<in> set (work_queue db). rowid (fst w) = rowid r \<and> eligible now r \<and>
    (\<forall>x \<in> set (work_queue db). eligible now x \<longrightarrow> priority x \<le> priority r)"
proof -
  let ?d = "clearStaleBatchSeq now db" let ?w = "drawnRows q now rnd ?d"
  have nb: "\<not> buffered x" if "x \<in> set (work_queue db)" for x using e that by (auto simp: matched_def filter_empty_conv)
  have d: "?d = db"
    using nb by (simp add: clearStaleBatchSeq_def updateWork_def map_idI)
  have m: "maxBatchSeq db = 0" by (simp add: maxBatchSeq_def e)
  obtain r1 rs where c: "bufferedDue now (refillBuffer q now rnd db) = r1 # rs"
    using assms(5) by (cases "bufferedDue now (refillBuffer q now rnd db)")
      (auto simp: dequeueOnce_batched[OF assms(2,3)] claimFirst_def)
  note r1 = bufferedDue_Cons[OF c]
  have w: "fst w = claimRow wall r1"
    using assms(5) claimFirst_row[OF qinv_refill[OF assms(1)]] r1
    by (auto simp: dequeueOnce_batched[OF assms(2,3)] c scanWorkItem_def)
  obtain k where k: "k < length ?w" "r1 = (?w ! k)\<lparr>batch_seq := Some (int k + 1)\<rparr>"
    using refill_buffered[of r1 q now rnd db] r1 assms(1) nb m by (auto simp: d)
  then have "0 < length ?w" by linarith
  from refill_drawn[OF assms(1) this] have "(?w ! 0)\<lparr>batch_seq := Some 1\<rparr> \<in> set (work_queue (refillBuffer q now rnd db))"
    using m by (simp add: d)
  moreover have "eligible now (?w ! 0)" using drawnRows_set nth_mem[OF \<open>0 < length ?w\<close>] by blast
  ultimately have "the (batch_seq r1) \<le> 1" using r1 by fastforce
  then have "k = 0" using k(2) by simp
  obtain y ys where o': "orderRandom rnd (matched (\<lambda>r. eligible now r \<and> \<not> buffered r) db) = y # ys"
    using \<open>0 < length ?w\<close> by (cases "orderRandom rnd (matched (\<lambda>r. eligible now r \<and> \<not> buffered r) db)") (auto simp: drawnRows_def d)
  then have "?w ! 0 = y" using \<open>0 < length ?w\<close> by (simp add: drawnRows_def d)
  moreover have "y \<in> set (work_queue db) \<and> eligible now y \<and> (\<forall>x \<in> set (work_queue db). eligible now x \<longrightarrow> priority x \<le> priority y)"
    using hd_sort_key[OF o'[unfolded orderRandom_def]] nb by (auto simp: matched_def)
  ultimately show ?thesis
    using k(2) \<open>k = 0\<close> by (auto simp: w claimRow_def intro!: bexI[of _ y])
qed

lemma enqueue_clears_buffer:
  assumes "enqueueTx nkey q move wall now inputs prio db = (Inr item, db1)" and "PriorityWebhook \<le> prio"
  shows "matched buffered db1 = []"
proof -
  have "matched buffered (updateWork (\<lambda>r. batch_seq r \<noteq> None) (\<lambda>r. r\<lparr>batch_seq := None\<rparr>) d) = []" for d
    by (auto simp: matched_def updateWork_def filter_empty_conv buffered_def)
  then show ?thesis
    using assms by (auto simp: enqueueTx_def inTx_def enqueueBody_def Let_def split: prod.splits sum.splits)
qed

text \<open>
  C21: a webhook preempts the buffer: after an enqueue at webhook priority (or above) succeeds, the
  next batched claim takes a row of the highest priority among all due rows, whatever the buffer
  held before.
\<close>

theorem webhook_preempts:
  assumes "qinv db" and "enqueueTx nkey qe move wall now inputs prio db = (Inr item, db1)" and "PriorityWebhook \<le> prio"
    and "randomized q" and "0 < batchSize q" and "dequeueOnce q now' wall' rnd db1 = (Inr w, db2)"
  shows "\<exists>r \<in> set (work_queue db1). rowid (fst w) = rowid r \<and> eligible now' r \<and>
    (\<forall>x \<in> set (work_queue db1). eligible now' x \<longrightarrow> priority x \<le> priority r)"
proof -
  have "qinv db1"
    using qinv_step[OF AEnqueue assms(1)] assms(2) by (metis snd_conv)
  then show ?thesis
    using assms(4-6) enqueue_clears_buffer[OF assms(2,3)] by (intro empty_buffer_claim) auto
qed

lemma batched_claims_some:
  assumes "qinv db" "randomized q" "0 < batchSize q" "r \<in> set (work_queue db)" "eligible now r"
  shows "\<exists>w db2. dequeueOnce q now wall rnd db = (Inr w, db2)"
proof -
  have "matched (\<lambda>r. eligible now r \<and> buffered r) (refillBuffer q now rnd db) \<noteq> []"
    using refill_exists[OF assms(1,3-5), of rnd] by (auto simp: matched_def filter_empty_conv)
  then obtain r1 rs where c: "bufferedDue now (refillBuffer q now rnd db) = r1 # rs"
    by (cases "bufferedDue now (refillBuffer q now rnd db)") (auto simp: bufferedDue_def)
  then show ?thesis
    using claimFirst_row[OF qinv_refill[OF assms(1)]] bufferedDue_Cons[OF c]
    by (simp add: dequeueOnce_batched[OF assms(2,3)])
qed

definition exPushed :: "(QueueError + WorkItem) \<times> QDB" where
  "exPushed = enqueueTx id NewDBQueue None 0 0 exInputs PriorityWebhook emptyDB"

lemma exPushed_rows:
  "(\<exists>item. fst exPushed = Inr item) \<and> work_queue (snd exPushed) = [freshRow NewDBQueue 1 0 0 (lit ''A'') (lit ''T'') [] exInputs 10]"
  by (simp add: exPushed_def enqueueTx_def inTx_def enqueueBody_def IdentityKeys_def resolveEditionTx_def NewDBQueue_def
      exInputs_def reopensForScan_def upsert_def Let_def emptyDB_def matched_def PriorityWebhook_def updateWork_def
      EditionNone_def formatTime_def) (simp add: freshRow_def defaultRow_def)

theorem webhook_preempts_witness:
  "\<exists>w db2. dequeueOnce NewDBQueue 0 7 id (snd exPushed) = (Inr w, db2) \<and>
    (\<exists>r \<in> set (work_queue (snd exPushed)). rowid (fst w) = rowid r \<and> eligible 0 r \<and>
      (\<forall>x \<in> set (work_queue (snd exPushed)). eligible 0 x \<longrightarrow> priority x \<le> priority r))"
proof -
  have e: "qinv emptyDB" by (simp add: qinv_def emptyDB_def)
  obtain item where i: "exPushed = (Inr item, snd exPushed)" using exPushed_rows by (metis prod.collapse)
  have q: "qinv (snd exPushed)" unfolding exPushed_def by (rule qinv_step[OF AEnqueue e])
  have b: "randomized NewDBQueue" "0 < batchSize NewDBQueue" by (simp_all add: NewDBQueue_def defaultBatchSize_def)
  have "\<exists>r \<in> set (work_queue (snd exPushed)). eligible 0 r"
    by (simp add: exPushed_rows eligible_def retryable_def freshRow_def defaultRow_def formatTime_def)
  then obtain w db2 where "dequeueOnce NewDBQueue 0 7 id (snd exPushed) = (Inr w, db2)"
    using batched_claims_some[OF q b] by blast
  with webhook_preempts[OF e i[unfolded exPushed_def] _ b, of 0 7 id w db2] show ?thesis
    by (auto simp: exPushed_def)
qed

section \<open>Claim and release\<close>

text \<open>What a claim and a release leave of the row: what it was, but for the marks of the claim.\<close>

definition releasedRow :: "int \<Rightarrow> WorkRow \<Rightarrow> WorkRow" where
  "releasedRow wall r = r\<lparr>prev_status := Some (status r), claimed_at := Some wall, adopted_at := None, batch_seq := None,
     last_error := (if status r = StatusPending \<and> last_error r \<noteq> [] then releaseCauseClearedError else last_error r)\<rparr>"

lemma onStatus_idle:
  "(upgrade_queued r \<Longrightarrow> \<not> terminal r) \<Longrightarrow>
   (failure_class r \<noteq> None \<Longrightarrow> status r \<noteq> StatusPending \<and> status r \<noteq> StatusDone \<and> last_error r \<noteq> []) \<Longrightarrow> onStatus r = r"
proof -
  assume "upgrade_queued r \<Longrightarrow> \<not> terminal r"
    and f: "failure_class r \<noteq> None \<Longrightarrow> status r \<noteq> StatusPending \<and> status r \<noteq> StatusDone \<and> last_error r \<noteq> []"
  then have "clearUpgradeQueued r = r" by (auto simp: clearUpgradeQueued_def terminal_def)
  moreover have "clearFailureClass r = r" using f unfolding clearFailureClass_def by (intro if_not_P) blast
  ultimately show "onStatus r = r" by (simp add: onStatus_def)
qed

lemma releaseRow_claimRow: "retryable r \<Longrightarrow> releaseRow (claimRow wall r) = releasedRow wall r"
  by (rule WorkRow.equality) (auto simp: releaseRow_def claimRow_def releasedRow_def retryable_def)

lemma release_claim_row:
  assumes "goodRow r" "retryable r"
  shows "onStatus (releaseRow (onStatus (claimRow wall r))) = releasedRow wall r"
proof -
  have "onStatus (claimRow wall r) = claimRow wall r"
    by (rule onStatus_idle) (use assms(1) in \<open>simp_all add: claimRow_def goodRow_def terminal_def\<close>)
  moreover have "onStatus (releasedRow wall r) = releasedRow wall r"
    by (rule onStatus_idle) (use assms in \<open>auto simp: releasedRow_def goodRow_def terminal_def\<close>)
  ultimately show ?thesis by (simp add: releaseRow_claimRow[OF assms(2)])
qed

lemma release_after_claim:
  assumes "qinv db" "r \<in> set (work_queue db)" "retryable r"
    and db1_def: "db1 = updateWork (\<lambda>x. x = r) (onStatus \<circ> claimRow wall) db"
  shows "Release (rowid r) db1 = (Inr (), updateWork (\<lambda>x. x = r) (releasedRow wall) db)"
proof -
  let ?c = "onStatus (claimRow wall r)"
  have good: "goodRow r" using assms(1,2) by (auto simp: qinv_def)
  have q1: "qinv db1"
    unfolding db1_def
    by (rule qinv_claimed[OF assms(1) claimed_updateWork]) (simp add: claimRow_claimed[OF assms(3)])
  have c: "?c \<in> set (work_queue db1)" using assms(2) by (auto simp: db1_def updateWork_def)
  have id: "rowid ?c = rowid r" and p: "processing ?c" by (simp_all add: claimRow_def processing_def)
  have "Release (rowid r) db1 = (Inr (), updateWork (\<lambda>x. x = ?c) (onStatus \<circ> releaseRow) db1)"
    using matched_unique[OF q1 c, of processing, unfolded id] updateWork_unique[OF q1 c, of processing, OF p, unfolded id] p
    by (simp add: Release_def requireAffected_def updateOne_def)
  moreover have "x \<noteq> ?c" if "x \<in> set (work_queue db)" "x \<noteq> r" for x
    using qinv_unique[OF assms(1,2) that(1)] that(2) id by metis
  ultimately show ?thesis
    using release_claim_row[OF good assms(3), of wall] by (auto simp: db1_def updateWork_def)
qed

text \<open>The state of the queue but for the numbers of the claim buffer.\<close>

definition unnumbered :: "QDB \<Rightarrow> QDB" where
  "unnumbered = updateWork (\<lambda>_. True) (\<lambda>r. r\<lparr>batch_seq := None\<rparr>)"

lemma unnumbered_stamp: "unnumbered (updateWork p (\<lambda>r. r\<lparr>batch_seq := f r\<rparr>) db) = unnumbered db"
  by (auto simp: unnumbered_def updateWork_def)

lemma unnumbered_refill: "unnumbered (refillBuffer q now rnd db) = unnumbered db"
  by (simp add: refillBuffer_def clearStaleBatchSeq_def stampDrawn_def unnumbered_stamp Let_def)

text \<open>The rows a claim chooses from: in the batched mode it refills the buffer first.\<close>

definition claimedFrom :: "DBQueue \<Rightarrow> instant \<Rightarrow> (int \<Rightarrow> int) \<Rightarrow> QDB \<Rightarrow> QDB" where
  "claimedFrom q now rnd db = (if randomized q \<and> 0 < batchSize q then refillBuffer q now rnd db else db)"

lemma claim_row:
  assumes "qinv db" "dequeueOnce q now wall rnd db = (Inr item, db1)"
  obtains r where "r \<in> set (work_queue (claimedFrom q now rnd db))" "eligible now r" "item = scanWorkItem (claimRow wall r)"
    "db1 = updateWork (\<lambda>x. x = r) (onStatus \<circ> claimRow wall) (claimedFrom q now rnd db)"
proof -
  let ?d = "claimedFrom q now rnd db"
  have q: "qinv ?d" using assms(1) by (simp add: claimedFrom_def qinv_refill)
  obtain rows where run: "dequeueOnce q now wall rnd db = claimFirst wall rows ?d"
    and rows: "\<forall>r \<in> set rows. r \<in> set (work_queue ?d) \<and> eligible now r"
  proof (cases "randomized q \<and> 0 < batchSize q")
    case True
    then show thesis
      by (intro that[of "bufferedDue now ?d"]) (auto simp: dequeueOnce_batched claimedFrom_def bufferedDue_def matched_def)
  next
    case False
    then show thesis
      by (intro that[of "if randomized q then orderRandom rnd (matched (eligible now) db) else orderFIFO (matched (eligible now) db)"])
        (auto simp: dequeueOnce_def claimedFrom_def orderRandom_def orderFIFO_def matched_def)
  qed
  obtain r rs where r: "rows = r # rs" using run assms(2) by (cases rows) (auto simp: claimFirst_def)
  then show thesis using that[of r] run rows assms(2) claimFirst_row[OF q, of r wall rs] by auto
qed

text \<open>
  C22: claiming a row and releasing it is a round trip in every mode. The row carries the marks of the
  claim (the remembered status, the claim time, no adoption mark and no buffer number), the error of a
  row that was pending is replaced by the sentinel that says its cause was cleared, and otherwise the
  queue is what it was before; in particular the row's status, priority, due time and counters stand.
  In the batched mode the claim also refills the buffer, which the release does not undo: there the
  other rows keep the numbers the refill gave them, and nothing else of them has changed.
\<close>

theorem claim_release_roundtrip:
  assumes "qinv db" and "dequeueOnce q now wall rnd db = (Inr item, db1)"
  shows "let i = rowid (fst item); d = (if randomized q \<and> 0 < batchSize q then refillBuffer q now rnd db else db) in
     i \<in> rowid ` set (work_queue db) \<and>
     Release i db1 = (Inr (), updateWork (\<lambda>x. rowid x = i) (releasedRow wall) d) \<and>
     map (\<lambda>r. r\<lparr>batch_seq := None\<rparr>) (work_queue d) = map (\<lambda>r. r\<lparr>batch_seq := None\<rparr>) (work_queue db) \<and>
     d = db\<lparr>work_queue := work_queue d\<rparr>"
proof -
  let ?d = "claimedFrom q now rnd db"
  obtain r where r: "r \<in> set (work_queue ?d)" "eligible now r" "item = scanWorkItem (claimRow wall r)"
    "db1 = updateWork (\<lambda>x. x = r) (onStatus \<circ> claimRow wall) ?d" using claim_row[OF assms] by blast
  have q: "qinv ?d" using assms(1) by (simp add: claimedFrom_def qinv_refill)
  have i: "rowid (fst item) = rowid r" by (simp add: r(3) scanWorkItem_def claimRow_def)
  have u: "unnumbered ?d = unnumbered db" by (simp add: claimedFrom_def unnumbered_refill)
  have w: "map (\<lambda>r. r\<lparr>batch_seq := None\<rparr>) (work_queue ?d) = map (\<lambda>r. r\<lparr>batch_seq := None\<rparr>) (work_queue db)"
    using arg_cong[OF u, of work_queue] by (simp add: unnumbered_def updateWork_def)
  have "rowid ` set (work_queue ?d) = rowid ` set (work_queue db)"
    using arg_cong[OF w, of "\<lambda>rs. rowid ` set rs"] by (simp add: image_image)
  moreover have "Release (rowid r) db1 = (Inr (), updateWork (\<lambda>x. rowid x = rowid r) (releasedRow wall) ?d)"
  proof -
    have "x = r \<longleftrightarrow> rowid x = rowid r" if "x \<in> set (work_queue ?d)" for x using qinv_unique[OF q r(1) that] by auto
    then have "updateWork (\<lambda>x. x = r) (releasedRow wall) ?d = updateWork (\<lambda>x. rowid x = rowid r) (releasedRow wall) ?d"
      by (simp add: updateWork_def cong: map_cong)
    then show ?thesis using release_after_claim[OF q r(1) _ r(4)] r(2) by (simp add: eligible_def)
  qed
  moreover have "?d = db\<lparr>work_queue := work_queue ?d\<rparr>"
    by (simp add: claimedFrom_def refillBuffer_def clearStaleBatchSeq_def stampDrawn_def updateWork_def Let_def)
  ultimately show ?thesis using r(1) w by (auto simp: Let_def i claimedFrom_def)
qed

text \<open>A claim in the batched mode, which is the default.\<close>

theorem claim_release_roundtrip_witness:
  "\<exists>item db1. dequeueOnce NewDBQueue 0 7 id exQueued = (Inr item, db1) \<and>
     Release (rowid (fst item)) db1 =
       (Inr (), updateWork (\<lambda>x. rowid x = rowid (fst item)) (releasedRow 7) (refillBuffer NewDBQueue 0 id exQueued))"
proof -
  have b: "randomized NewDBQueue" "0 < batchSize NewDBQueue" by (simp_all add: NewDBQueue_def defaultBatchSize_def)
  have "\<exists>r \<in> set (work_queue exQueued). eligible 0 r"
    by (simp add: exQueued_rows eligible_def retryable_def freshRow_def defaultRow_def formatTime_def)
  then obtain item db1 where run: "dequeueOnce NewDBQueue 0 7 id exQueued = (Inr item, db1)"
    using batched_claims_some[OF exHeld_qinv(1) b] by blast
  with claim_release_roundtrip[OF exHeld_qinv(1) run] b show ?thesis by (auto simp: Let_def)
qed

end
