(* ===== verification/QueueSettle.thy ===== *)
theory QueueSettle
  imports QueueClaims
begin

text \<open>
  Giving rows back: retries of a locked database, the schedule of a failed row, the bound on waits
  for lanes that refuse, and the scan results a settled or cancelled row leaves behind.
\<close>

section \<open>Retries of a locked database\<close>

lemma retryLoop_result:
  "retryLoop n k faults f db = (res, db', ds) \<Longrightarrow>
   (case res of Inl e \<Rightarrow> db' = db | Inr a \<Rightarrow> f db = (a, db')) \<and> length ds < max n 1 \<and>
   (\<forall>d \<in> set ds. \<exists>j. d = Geometric (int j) retryBaseDelay retryMaxDelay)"
proof (induction n k faults f db arbitrary: res db' ds rule: retryLoop.induct)
  case (2 n k faults f db)
  show ?case
  proof (cases faults)
    case (Cons fl rest)
    show ?thesis
    proof (cases fl)
      case Busy
      show ?thesis
      proof (cases "n = 0")
        case False
        obtain res1 db1 ds1 where r: "retryLoop n (k + 1) rest f db = (res1, db1, ds1)" by (metis prod_cases3)
        note ih = "2.IH"[OF Cons Busy False r]
        show ?thesis using 2(2) ih r False by (auto simp: Cons Busy)
      qed (use 2(2) in \<open>auto simp: Cons Busy\<close>)
    qed (use 2(2) in \<open>auto simp: Cons split: prod.splits if_splits\<close>)
  qed (use 2(2) in \<open>auto split: prod.splits\<close>)
qed auto

lemma retryLoop_busy:
  "fst (retryLoop n k (replicate m Busy) f db) = (if m < n then Inr (fst (f db)) else Inl FaultBusy)"
proof (induction n arbitrary: k m)
  case (Suc n)
  show ?case
  proof (cases m)
    case (Suc m')
    then show ?thesis using Suc.IH[of "k + 1" m'] by (auto split: prod.splits)
  qed (simp add: case_prod_beta)
qed simp

text \<open>Whatever the driver does, an operation wrapped in \<open>RetryOnBusy\<close> is applied at most once: a
  fault leaves the database as it was, and a result is the operation's on the database as found.
  There are fewer pauses than attempts, each between nothing and two seconds. When the database is
  locked for the first \<open>k\<close> attempts the operation still commits if attempts are left, and the
  caller gets the busy error otherwise.
\<close>

theorem RetryOnBusy_once:
  "(case RetryOnBusy m faults f db of (res, db', ds) \<Rightarrow>
      (case res of Inl e \<Rightarrow> db' = db | Inr a \<Rightarrow> (a, db') = f db) \<and> length ds < max m 1 \<and>
      list_all (\<lambda>d. 0 \<le> d \<and> d \<le> 2 * second) ds) \<and>
   fst (RetryOnBusy m (replicate k Busy) f db) = (if k < max m 1 then Inr (fst (f db)) else Inl FaultBusy)"
proof -
  have g: "0 \<le> Geometric (int j) retryBaseDelay retryMaxDelay \<and> Geometric (int j) retryBaseDelay retryMaxDelay \<le> 2 * second" for j
    using geo.window_between[of retryMaxDelay retryBaseDelay "int j"]
    by (simp add: retryMaxDelay_def retryBaseDelay_def second_def is_int64_def)
  obtain res db' ds where r: "RetryOnBusy m faults f db = (res, db', ds)" by (metis prod_cases3)
  from retryLoop_result[OF r[unfolded RetryOnBusy_def]]
  show ?thesis
    unfolding r using g retryLoop_busy[of "max m 1" 1 k f db]
    by (auto simp: RetryOnBusy_def list_all_iff split: sum.splits)
qed

section \<open>Failures and refused waits\<close>

lemma updateReturning_unique:
  assumes "qinv db" "r \<in> set (work_queue db)" "p r"
  shows "updateReturning (rowid r) p f db = (Inr (scanWorkItem (f r)), updateWork (\<lambda>x. x = r) (onStatus \<circ> f) db)"
  using matched_unique[OF assms(1,2), of p] updateWork_unique[OF assms(1,2), of p, OF assms(3)] assms(3)
  by (simp add: updateReturning_def)

text \<open>
  Failing a held row counts one more attempt and schedules it after the doubled backoff: not
  before now, not later than the longest backoff, and the row cannot be claimed until then. The
  scan results that were in flight for it become failed, no other row changes.
\<close>

theorem fail_schedules:
  assumes "qinv db" "r \<in> set (work_queue db)" "processing r"
    and "0 \<le> attempts r" "attempts r < 2 ^ 63 - 1" "is_int64 (maxBackoff q)" "0 < baseBackoff q" "0 < maxBackoff q"
  shows "\<exists>r'. failOnce q now (rowid r) cause db =
      (Inr (scanWorkItem r'), setLinkedScan (rowid r) [ScanProcessing] ScanFailed (updateWork (\<lambda>x. x = r) (\<lambda>_. onStatus r') db)) \<and>
    status r' = StatusFailed \<and> attempts r' = attempts r + 1 \<and>
    next_attempt_at r' = formatTime (now + min (maxBackoff q) (baseBackoff q * 2 ^ nat (attempts r))) \<and>
    (\<forall>t. eligible t (onStatus r') \<longrightarrow> next_attempt_at r' \<le> formatTime t) \<and>
    formatTime now \<le> next_attempt_at r' \<and> next_attempt_at r' \<le> formatTime (now + maxBackoff q)"
proof -
  let ?r = "failRow q now cause r"
  have n: "int64 (attempts r + 1) = attempts r + 1"
    using assms(4,5) by (intro int64_id) (simp add: is_int64_def)
  have g: "Geometric (attempts r + 1) (baseBackoff q) (maxBackoff q) = min (maxBackoff q) (baseBackoff q * 2 ^ nat (attempts r))"
    using assms(6-8) by (simp add: Geometric_closed)
  have "0 \<le> min (maxBackoff q) (baseBackoff q * 2 ^ nat (attempts r))" using assms(7,8) by simp
  then have b: "formatTime now \<le> formatTime (now + min (maxBackoff q) (baseBackoff q * 2 ^ nat (attempts r)))"
    "formatTime (now + min (maxBackoff q) (baseBackoff q * 2 ^ nat (attempts r))) \<le> formatTime (now + maxBackoff q)"
    by (auto simp: formatTime_def second_def intro!: zdiv_mono1)
  have "updateWork (\<lambda>x. x = r) (onStatus \<circ> failRow q now cause) db = updateWork (\<lambda>x. x = r) (\<lambda>_. onStatus ?r) db"
    by (auto simp: updateWork_def)
  then show ?thesis
    using updateReturning_unique[of db r processing "failRow q now cause"] assms(1-3) n g b
    by (intro exI[of _ ?r]) (simp add: failOnce_def failRow_def Let_def eligible_def)
qed

definition exRow :: WorkRow where
  "exRow = onStatus (claimRow 7 (freshRow NewDBQueue 1 0 0 (lit ''A'') (lit ''T'') [] exInputs 0))"

lemma exRow_in: "exRow \<in> set (work_queue exHeld)" "processing exRow" "rowid exRow = 1" "attempts exRow = 0" "refused_waits exRow = 0"
  by (simp_all add: exHeld_rows exRow_def processing_def) (simp_all add: claimRow_def freshRow_def defaultRow_def)

theorem fail_schedules_witness:
  "\<exists>r'. failOnce NewDBQueue 0 1 None exHeld =
      (Inr (scanWorkItem r'), setLinkedScan 1 [ScanProcessing] ScanFailed (updateWork (\<lambda>x. x = exRow) (\<lambda>_. onStatus r') exHeld)) \<and>
    status r' = StatusFailed \<and> attempts r' = 1 \<and> next_attempt_at r' = 60"
  using fail_schedules[OF exHeld_qinv(2) exRow_in(1,2), of NewDBQueue 0 None]
  by (auto simp: exRow_in NewDBQueue_def DefaultBase_def DefaultMax_def is_int64_def hour_def minute_def second_def formatTime_def)

text \<open>
  A row refused again and again: each wait is a deferral by \<open>DeferRefused\<close>, and the row is claimed
  again before the next; the run ends when a deferral is not granted.
\<close>

fun refuseRun :: "int \<Rightarrow> int \<Rightarrow> (instant \<times> duration \<times> gotext) list \<Rightarrow> QDB \<Rightarrow> nat" where
  "refuseRun i maxWaits [] db = 0"
| "refuseRun i maxWaits ((now, wait, cause) # rest) db =
     (case deferRefusedOnce now i wait maxWaits cause db of
        (Inr True, db') \<Rightarrow> Suc (refuseRun i maxWaits rest (updateWork (byID i retryable) (onStatus \<circ> claimRow now) db'))
      | _ \<Rightarrow> 0)"

lemma in_updateWork: "r \<in> set (work_queue db) \<Longrightarrow> p r \<Longrightarrow> f r \<in> set (work_queue (updateWork p f db))"
  by (auto simp: updateWork_def)

text \<open>
  C24: a row never waits more than \<open>maxWaits\<close> times for lanes that refuse: over any sequence of
  refusals, with whatever delays and causes, exactly as many waits are granted as the budget has
  left, and then the deferral is denied.
\<close>

theorem refused_waits_bounded:
  assumes "qinv db" "r \<in> set (work_queue db)" "processing r"
  shows "refuseRun (rowid r) maxWaits refusals db = min (length refusals) (nat (maxWaits - refused_waits r))"
  using assms
proof (induction refusals arbitrary: db r)
  case (Cons x rest)
  obtain now wait cause where x: "x = (now, wait, cause)" by (cases x)
  note m = matched_unique[OF Cons.prems(1,2), of processing]
  show ?case
  proof (cases "refused_waits r \<ge> maxWaits")
    case True
    then show ?thesis using m Cons.prems(3) by (simp add: x deferRefusedOnce_def)
  next
    case False
    let ?f = "onStatus \<circ> refusedRow now wait cause" and ?g = "onStatus \<circ> claimRow now"
    let ?d1 = "updateWork (byID (rowid r) processing) ?f db" let ?d2 = "updateWork (byID (rowid r) retryable) ?g ?d1"
    have s: "deferRefusedOnce now (rowid r) wait maxWaits cause db = (Inr True, ?d1)"
      using m Cons.prems(3) False by (simp add: deferRefusedOnce_def updateOne_def)
    have "qinv (snd (deferRefusedOnce now (rowid r) wait maxWaits cause db))"
      by (rule qinv_step[OF WDeferRefused Cons.prems(1)])
    then have q1: "qinv ?d1" by (simp add: s)
    have q2: "qinv ?d2"
      by (rule qinv_claimed[OF q1 claimed_updateWork]) (auto simp: byID_def intro: claimRow_claimed)
    have r1: "?f r \<in> set (work_queue ?d1)"
      using Cons.prems by (intro in_updateWork) (simp_all add: byID_def)
    have "?g (?f r) \<in> set (work_queue ?d2)"
      by (rule in_updateWork[OF r1]) (simp add: byID_def refusedRow_def retryable_def)
    moreover have "processing (?g (?f r))" "rowid (?g (?f r)) = rowid r" "refused_waits (?g (?f r)) = refused_waits r + 1"
      by (simp_all add: processing_def claimRow_def refusedRow_def)
    ultimately have "refuseRun (rowid r) maxWaits rest ?d2 = min (length rest) (nat (maxWaits - (refused_waits r + 1)))"
      using Cons.IH[OF q2, of "?g (?f r)"] by simp
    then show ?thesis using False by (simp add: x s)
  qed
qed simp

theorem refused_waits_bounded_witness:
  "refuseRun 1 2 [(0, second, lit ''x''), (5, second, lit ''x''), (9, second, lit ''x'')] exHeld = 2"
  using refused_waits_bounded[OF exHeld_qinv(2) exRow_in(1,2), of 2 "[(0, second, lit ''x''), (5, second, lit ''x''), (9, second, lit ''x'')]"]
  by (simp add: exRow_in)

section \<open>Scan results\<close>

text \<open>
  A scan result is stranded when it is marked as in flight or failed and no row that would settle
  it is linked to it: no later scan offers it again.
\<close>

definition stranded :: "QDB \<Rightarrow> ScanRow \<Rightarrow> bool" where
  "stranded db s \<longleftrightarrow> s \<in> set (scan_results db) \<and> sr_status s \<in> {ScanProcessing, ScanFailed} \<and>
     \<not> (\<exists>r \<in> set (work_queue db). (rowid r, sr_id s) \<in> set (links db) \<and> liveOwner r)"

text \<open>Only row \<open>i\<close> loses its ownership, and what it owned alone is settled or offered again.\<close>

lemma no_new_stranded:
  assumes "\<And>r. r \<in> set (work_queue db) \<Longrightarrow> rowid r \<noteq> i \<Longrightarrow> r \<in> set (work_queue db')"
    and "\<And>w s. w \<noteq> i \<Longrightarrow> (w, s) \<in> set (links db) \<Longrightarrow> (w, s) \<in> set (links db')"
    and "\<And>s'. s' \<in> set (scan_results db') \<Longrightarrow> sr_status s' \<in> {ScanProcessing, ScanFailed} \<Longrightarrow>
       s' \<in> set (scan_results db) \<and> ((i, sr_id s') \<in> set (links db) \<longrightarrow> liveSibling db i (sr_id s'))"
    and "stranded db' s"
  shows "stranded db s"
proof -
  have s: "s \<in> set (scan_results db)" "(i, sr_id s) \<in> set (links db) \<longrightarrow> liveSibling db i (sr_id s)"
    "sr_status s \<in> {ScanProcessing, ScanFailed}"
    using assms(3)[of s] assms(4) by (auto simp: stranded_def)
  have no: "rowid r = i" if "r \<in> set (work_queue db)" "(rowid r, sr_id s) \<in> set (links db)" "liveOwner r" for r
    using assms(1)[OF that(1)] assms(2)[OF _ that(2)] that(3) assms(4) by (auto simp: stranded_def)
  have "\<not> liveSibling db i (sr_id s)" using no by (auto simp: liveSibling_def)
  with s(2) no s(1,3) show ?thesis by (auto simp: stranded_def)
qed

lemma setScan_other: "s \<in> set (scan_results (setScan st p db)) \<Longrightarrow> sr_status s \<noteq> st \<Longrightarrow> s \<in> set (scan_results db) \<and> \<not> p s"
  by (auto simp: setScan_def updateScan_def split: if_splits)

lemma liveSibling_byID: "liveSibling (updateWork (byID i p) f db) i s \<longleftrightarrow> liveSibling db i s" if "\<And>r. rowid (f r) = rowid r"
  unfolding liveSibling_def updateWork_def byID_def using that by (auto simp: image_iff)

lemma stranded_settle:
  assumes f: "\<And>r. rowid (f r) = rowid r" and "stranded (writeBackScanResultsDone i (updateWork (byID i p) f db)) s"
  shows "stranded db s"
proof (rule no_new_stranded[OF _ _ _ assms(2), of _ i])
  fix s' assume "s' \<in> set (scan_results (writeBackScanResultsDone i (updateWork (byID i p) f db)))" "sr_status s' \<in> {ScanProcessing, ScanFailed}"
  then show "s' \<in> set (scan_results db) \<and> ((i, sr_id s') \<in> set (links db) \<longrightarrow> liveSibling db i (sr_id s'))"
    unfolding writeBackScanResultsDone_def by (auto dest!: setScan_other simp: liveSibling_byID[OF f])
qed (auto simp: updateWork_def byID_def image_iff)

lemma stranded_settleTx:
  "(\<And>r. rowid (f r) = rowid r) \<Longrightarrow> stranded (snd (settleTx i p f db)) s \<Longrightarrow> stranded db s"
  using stranded_settle[of "onStatus \<circ> f" i p db s] by (auto simp: settleTx_def updateOne_def split: if_splits)

lemma stranded_deleteQueued:
  assumes "stranded (snd (deleteQueued p i db)) s"
  shows "stranded db s"
proof (rule no_new_stranded[OF _ _ _ assms, of _ i])
  let ?d = "resetScanResultsPending i db"
  have m: "r \<in> set (matched (byID i p) ?d) \<Longrightarrow> rowid r = i" for r by (auto simp: matched_def byID_def)
  show "r \<in> set (work_queue (snd (deleteQueued p i db)))" if "r \<in> set (work_queue db)" "rowid r \<noteq> i" for r
    using that by (simp add: deleteQueued_def Let_def deleteWork_def byID_def)
  show "(w, s) \<in> set (links (snd (deleteQueued p i db)))" if "w \<noteq> i" "(w, s) \<in> set (links db)" for w s
    using that m by (auto simp: deleteQueued_def Let_def deleteWork_def)
  show "s' \<in> set (scan_results db) \<and> ((i, sr_id s') \<in> set (links db) \<longrightarrow> liveSibling db i (sr_id s'))"
    if "s' \<in> set (scan_results (snd (deleteQueued p i db)))" "sr_status s' \<in> {ScanProcessing, ScanFailed}" for s'
  proof -
    have "s' \<in> set (scan_results ?d)" using that(1) by (simp add: deleteQueued_def Let_def deleteWork_def)
    then show ?thesis using that(2) unfolding resetScanResultsPending_def by (auto dest!: setScan_other)
  qed
qed

lemma stranded_cleanupLoop: "stranded (snd (cleanupLoop ids n db)) s \<Longrightarrow> stranded db s"
proof (induction ids n db rule: cleanupLoop.induct)
  case (2 i "is" n db)
  then show ?case using stranded_deleteQueued[of cancellable i db s] by (auto split: prod.splits)
qed simp

lemma stranded_paths:
  assumes "\<And>r. rowid (f r) = rowid r \<and> (liveOwner (f r) \<longleftrightarrow> liveOwner r)"
  shows "stranded (updateWork p f db) s \<longleftrightarrow> stranded db s"
proof -
  have g: "rowid (if p r then f r else r) = rowid r" "liveOwner (if p r then f r else r) \<longleftrightarrow> liveOwner r" for r
    using assms by auto
  show ?thesis by (simp add: stranded_def updateWork_def g del: if_image_distrib)
qed

lemma stranded_cancelLoop: "stranded (snd (cancelLoop dry lib cs n db)) s \<Longrightarrow> stranded db s"
proof (induction dry lib cs n db rule: cancelLoop.induct)
  case (2 dryRun lib c cs deleted updated db)
  have d: "stranded db' s \<Longrightarrow> stranded db s" if "deleteQueued retryable (rowid c) db = (n, db')" for n db'
    using stranded_deleteQueued[of retryable "rowid c" db s] that by simp
  have u: "stranded db' s \<Longrightarrow> stranded db s"
    if "updateOne (rowid c) retryable (\<lambda>r. r\<lparr>paths := (paths r)\<lparr>output_paths := Some ps\<rparr>\<rparr>) db = (ok, db')" for ps ok db'
    using that stranded_paths[of "\<lambda>r. r\<lparr>paths := (paths r)\<lparr>output_paths := Some ps\<rparr>\<rparr>" "byID (rowid c) retryable" db s]
    by (auto simp: updateOne_def liveOwner_def terminal_def notWordRecheckQueued_def wordQueued_def)
  show ?case
    using 2 d u by (auto simp: Let_def split: prod.splits if_splits)
qed simp

text \<open>
  C19: no settle and no cancel strands a scan result: completing, settling as instrumental,
  rejected or blocked, and retiring a row, cleaning up the rows of a track and cancelling a library
  leave every linked scan result done, offered to the scan again, or owned by another live row. A
  result that is in flight or failed without a live owner afterwards was so before.
\<close>

theorem no_stranded_scan_results:
  "Collect (stranded (snd (completeOnce q now i db))) \<subseteq> Collect (stranded db) \<and>
   Collect (stranded (snd (settleInstrumentalOnce now i tel owner db))) \<subseteq> Collect (stranded db) \<and>
   Collect (stranded (snd (settleGuardRejectedOnce now i reason db))) \<subseteq> Collect (stranded db) \<and>
   Collect (stranded (snd (settleBlockedOnce now i db))) \<subseteq> Collect (stranded db) \<and>
   Collect (stranded (snd (RetireMiss now i db))) \<subseteq> Collect (stranded db) \<and>
   Collect (stranded (snd (Cleanup nkey q inputs db))) \<subseteq> Collect (stranded db) \<and>
   Collect (stranded (snd (cancelByLibrary dryRun lib db))) \<subseteq> Collect (stranded db)"
proof -
  have c: "stranded (snd (completeOnce q now i db)) s \<Longrightarrow> stranded db s" for s
    using stranded_settleTx[of "completeRow q now" i processing db s] by (simp add: completeOnce_def requireAffected_def completeRow_def)
  have i: "stranded (snd (settleInstrumentalOnce now i tel owner db)) s \<Longrightarrow> stranded db s" for s
    using stranded_settleTx[of "instrumentalRow now tel" i "\<lambda>r. status r = ownerStatus owner \<and> (processing r \<or> \<not> wordQueued r)" db s]
    by (auto simp: settleInstrumentalOnce_def instrumentalRow_def split: prod.splits bool.splits)
  have g: "stranded (snd (settleGuardRejectedOnce now i reason db)) s \<Longrightarrow> stranded db s" for s
    using stranded_settleTx[of "rejectedRow now reason" i processing db s]
    by (auto simp: settleGuardRejectedOnce_def rejectedRow_def split: prod.splits bool.splits)
  have b: "stranded (snd (settleBlockedOnce now i db)) s \<Longrightarrow> stranded db s" for s
    using stranded_settleTx[of "blockedRow now" i "\<lambda>r. processing r \<and> (artist_key r, title_key r) \<in> set (lyric_blocks db)" db s]
    by (auto simp: settleBlockedOnce_def blockedRow_def split: prod.splits bool.splits list.splits if_splits)
  have r: "stranded (snd (RetireMiss now i db)) s \<Longrightarrow> stranded db s" for s
    using stranded_settle[of "onStatus \<circ> retireRow now" i processing db s]
    by (auto simp: RetireMiss_def updateReturning_def retireRow_def split: list.splits)
  have l: "stranded (snd (Cleanup nkey q inputs db)) s \<Longrightarrow> stranded db s" for s
    using stranded_cleanupLoop[of _ 0 db s] by (auto simp: Cleanup_def split: prod.splits sum.splits) (metis snd_conv)
  have k: "stranded (snd (cancelByLibrary dryRun lib db)) s \<Longrightarrow> stranded db s" for s
    unfolding cancelByLibrary_def by (rule stranded_cancelLoop)
  show ?thesis using c i g b r l k by (auto simp only: subset_iff mem_Collect_eq)
qed

end
