(* ===== verification/QueueSweeps.thy ===== *)
theory QueueSweeps
  imports QueueSettle
begin

text \<open>
  The previews that promise what a sweep will do and the sweeps themselves: the dry run of a library
  cancel, the revival of retired rows, the upgrade sweep; and what an enqueue does to a row that
  already exists.
\<close>

section \<open>Cancelling a library\<close>

lemma keepSet_setScan [simp]: "keepSetForRow w lib (setScan st p db) = keepSetForRow w lib db"
proof -
  have "map (\<lambda>s. outputPathKey \<lparr>opOutdir = sr_outdir s, opFilename = sr_filename s\<rparr>)
      (filter (\<lambda>s. (w, sr_id s) \<in> L \<and> library_id s \<noteq> lib) (map (\<lambda>s. if p s then s\<lparr>sr_status := st\<rparr> else s) xs)) =
    map (\<lambda>s. outputPathKey \<lparr>opOutdir = sr_outdir s, opFilename = sr_filename s\<rparr>)
      (filter (\<lambda>s. (w, sr_id s) \<in> L \<and> library_id s \<noteq> lib) xs)" for L xs
    by (induction xs) auto
  then show ?thesis by (simp add: keepSetForRow_def setScan_def updateScan_def)
qed

lemma keepSet_updateWork [simp]: "keepSetForRow w lib (updateWork p f db) = keepSetForRow w lib db"
  by (simp add: keepSetForRow_def)

lemma keepSet_deleteQueued:
  "w \<noteq> i \<Longrightarrow> keepSetForRow w lib (snd (deleteQueued p i db)) = keepSetForRow w lib db"
proof -
  assume "w \<noteq> i"
  then have "(w, s) \<in> set (links (deleteWork (byID i p) d)) \<longleftrightarrow> (w, s) \<in> set (links d)" for s d
    by (auto simp: deleteWork_def matched_def byID_def)
  then have "keepSetForRow w lib (deleteWork (byID i p) d) = keepSetForRow w lib d" for d
    by (simp add: keepSetForRow_def deleteWork_def)
  then show ?thesis
    unfolding deleteQueued_def Let_def resetScanResultsPending_def by simp
qed

lemma deleteQueued_one:
  assumes "qinv db" "c \<in> set (work_queue db)" "p c"
  shows "fst (deleteQueued p (rowid c) db) = 1"
proof -
  have "matched (byID (rowid c) p) (resetScanResultsPending (rowid c) db) = matched (byID (rowid c) p) db"
    by (simp add: matched_def)
  then show ?thesis using matched_unique[OF assms(1,2), of p] assms(3) by (simp add: deleteQueued_def Let_def)
qed

lemma paths_admin: "retryable r \<Longrightarrow> adminRow r (r\<lparr>paths := ps\<rparr>)"
  by (auto simp: row_rules retryable_def)

lemma cancelLoop_preview:
  assumes "qinv d" and "distinct (map rowid cs)" and "\<forall>c \<in> set cs. c \<in> set (work_queue d) \<and> retryable c"
    and "\<forall>c \<in> set cs. keepSetForRow (rowid c) lib d = keepSetForRow (rowid c) lib db"
  shows "fst (cancelLoop False lib cs (m, n) d) = fst (cancelLoop True lib cs (m, n) db)"
  using assms
proof (induction cs arbitrary: d m n)
  case (Cons c cs)
  let ?ps = "case output_paths (paths c) of None \<Rightarrow> [] | Some ps \<Rightarrow> ps"
  let ?kept = "filter (\<lambda>p. outputPathKey p \<in> set (keepSetForRow (rowid c) lib db)) ?ps"
  have c: "c \<in> set (work_queue d)" "retryable c" "rowid c \<notin> rowid ` set cs" and k: "keepSetForRow (rowid c) lib d = keepSetForRow (rowid c) lib db"
    using Cons.prems by auto
  show ?case
  proof (cases "?kept = [] \<or> length ?kept = length ?ps")
    case True
    obtain e d' where d': "deleteQueued retryable (rowid c) d = (e, d')" by (cases "deleteQueued retryable (rowid c) d")
    have e: "e = 1" using deleteQueued_one[OF Cons.prems(1) c(1), of retryable] c(2) d' by simp
    have q: "qinv d'"
      using qinv_admin[OF deleteQueued_reach[of retryable d "rowid c"] Cons.prems(1)] d' by simp
    have ne: "rowid x \<noteq> rowid c" if "x \<in> set cs" for x using that c(3) by (metis imageI)
    have m: "x \<in> set (work_queue d')" if "x \<in> set cs" for x
      using that Cons.prems(3) ne[OF that] d' by (auto simp: deleteQueued_def Let_def deleteWork_def byID_def)
    have s: "keepSetForRow (rowid x) lib d' = keepSetForRow (rowid x) lib db" if "x \<in> set cs" for x
    proof -
      from keepSet_deleteQueued[OF ne[OF that], of lib retryable d] show ?thesis using that Cons.prems(4) d' by simp
    qed
    have 1: "fst (cancelLoop False lib cs (m + 1, n) d') = fst (cancelLoop True lib cs (m + 1, n) db)" for m n
      using Cons.prems(2,3) m s by (intro Cons.IH[OF q]) auto
    have 2: "fst (cancelLoop False lib cs (m, n) d) = fst (cancelLoop True lib cs (m, n) db)" for m n
      using Cons.prems by (intro Cons.IH) auto
    show ?thesis using True 1 2 e by (auto simp: k d' Let_def)
  next
    case False
    let ?f = "\<lambda>r. r\<lparr>paths := (paths r)\<lparr>output_paths := Some ?kept\<rparr>\<rparr>"
    have o': "updateOne (rowid c) retryable ?f d = (True, updateWork (byID (rowid c) retryable) ?f d)"
      using matched_unique[OF Cons.prems(1) c(1), of retryable] c(2) by (simp add: updateOne_def)
    have q: "qinv (updateWork (byID (rowid c) retryable) ?f d)"
      by (rule qinv_admin[OF adminReach_rewritten Cons.prems(1)], rule admin_updateWork) (simp add: byID_def paths_admin)
    have ne: "rowid x \<noteq> rowid c" if "x \<in> set cs" for x using that c(3) by (metis imageI)
    have m: "x \<in> set (work_queue (updateWork (byID (rowid c) retryable) ?f d))" if "x \<in> set cs" for x
      using that Cons.prems(3) ne[OF that] by (auto simp: updateWork_def byID_def image_iff intro!: bexI[of _ x])
    have "fst (cancelLoop False lib cs (m, n + 1) (updateWork (byID (rowid c) retryable) ?f d)) = fst (cancelLoop True lib cs (m, n + 1) db)"
      using Cons.prems(2-4) m by (intro Cons.IH[OF q]) auto
    then show ?thesis using False o' by (simp add: k Let_def)
  qed
qed simp

text \<open>The dry run of a library cancel is exact: the numbers of rows it announces as deleted and as
  rewritten are those of the cancel run on the same state, although the cancel deletes rows, links
  and paths while it goes and the dry run judges every row on the state before it.
\<close>

theorem cancel_preview_exact:
  "qinv db \<Longrightarrow> fst (cancelByLibrary True lib db) = fst (cancelByLibrary False lib db)"
proof -
  assume q: "qinv db"
  let ?cs = "sort_key rowid (matched (\<lambda>r. linkedToLibrary db lib r \<and> cancellable r) db)"
  have "distinct (map rowid (matched (\<lambda>r. linkedToLibrary db lib r \<and> cancellable r) db))"
    using q by (simp add: matched_def qinv_def distinct_map_filter')
  then have "distinct (map rowid ?cs)" by (simp add: distinct_map)
  then show ?thesis
    unfolding cancelByLibrary_def
    by (intro cancelLoop_preview[OF q, symmetric]) (auto simp: matched_def cancellable_def)
qed

text \<open>One queued row linked to one scan result of library 1.\<close>

definition exLinked :: QDB where
  "exLinked = exQueued\<lparr>links := [(1, 5)], scan_results := [\<lparr>sr_id = 5, library_id = 1, file_path = lit ''/m/t.flac'',
     sr_outdir = lit ''/m'', sr_filename = lit ''t.lrc'', sr_status = ScanProcessing, sr_artist = lit ''A'', sr_title = lit ''T'',
     sr_album = [], sr_album_artist = [], sr_artist_key = lit ''A'', sr_title_key = lit ''T''\<rparr>]\<rparr>"

theorem cancel_preview_exact_witness:
  "fst (cancelByLibrary True 1 exLinked) = fst (cancelByLibrary False 1 exLinked) \<and> fst (cancelByLibrary True 1 exLinked) = (1, 0)"
proof -
  have "qinv exLinked" using exHeld_qinv(1) by (simp add: exLinked_def qinv_def)
  moreover have "fst (cancelByLibrary True 1 exLinked) = (1, 0)"
    by (simp add: cancelByLibrary_def exLinked_def exQueued_rows matched_def linkedToLibrary_def cancellable_def retryable_def
        notWordRecheckQueued_def wordQueued_def freshRow_def defaultRow_def zeroWord_def keepSetForRow_def Let_def)
  ultimately show ?thesis using cancel_preview_exact[of exLinked 1] by simp
qed

section \<open>Reviving retired rows\<close>

lemma matched_map_none:
  "(\<And>r. \<not> p (f r)) \<Longrightarrow> (\<And>r. p r \<Longrightarrow> q r) \<Longrightarrow> matched p (updateWork q f db) = []"
  by (auto simp: matched_def updateWork_def filter_empty_conv)

lemma updateWork_none: "matched p db = [] \<Longrightarrow> updateWork p f db = db"
proof -
  assume "matched p db = []"
  then have "map (\<lambda>r. if p r then f r else r) (work_queue db) = work_queue db"
    by (intro map_idI) (auto simp: matched_def filter_empty_conv)
  then show ?thesis by (simp add: updateWork_def)
qed

text \<open>
  The revival of retired rows does what its preview counts: with no expected number, or the
  number \<open>CountRecheckRetired\<close> gives, it returns that number, the rows it revives are those of the
  scope retired by the miss limit -- they become deferred misses due now, and every other row is
  left alone -- and the preview counts none afterwards. Any other expected number changes nothing.
\<close>

theorem recheck_retired_exact:
  "recheckRetired now scope expected db =
     (if expected \<in> {None, Some (CountRecheckRetired scope db)}
      then (Inr (CountRecheckRetired scope db), snd (recheckRetired now scope None db))
      else (Inl ErrRecheckRetiredCountChanged, db)) \<and>
   list_all2 (\<lambda>r r'. if recheckRetiredWhere r \<and> recheckLibraryClause scope db r
      then status r' = StatusDeferred \<and> priority r' = - 100 \<and> next_attempt_at r' = formatTime now \<and> last_error r' = [] \<and>
           miss_count r' = miss_count r \<and> ident r' = ident r \<and> eligible now r'
      else r' = r) (work_queue db) (work_queue (snd (recheckRetired now scope None db))) \<and>
   CountRecheckRetired None (snd (recheckRetired now None None db)) = 0"
proof -
  let ?p = "\<lambda>r. recheckRetiredWhere r \<and> recheckLibraryClause scope db r"
  let ?f = "onStatus \<circ> revivedRow now"
  have w: "work_queue (snd (recheckRetired now sc None db)) =
      work_queue (updateWork (\<lambda>r. recheckRetiredWhere r \<and> recheckLibraryClause sc db r) ?f db)" for sc
    by (auto simp: recheckRetired_def Let_def updateWork_none)
  have gone: "\<not> recheckRetiredWhere (?f r)" for r
    by (simp add: recheckRetiredWhere_def revivedRow_def)
  have rows: "status (?f r) = StatusDeferred \<and> priority (?f r) = - 100 \<and> next_attempt_at (?f r) = formatTime now \<and>
      last_error (?f r) = [] \<and> miss_count (?f r) = miss_count r \<and> ident (?f r) = ident r \<and> eligible now (?f r)" for r
    by (auto simp: revivedRow_def ClearWordRecheckQueued_def ident_def eligible_def retryable_def)
  have "list_all2 (\<lambda>r r'. if ?p r then r' = ?f r else r' = r) (work_queue db) (work_queue (updateWork ?p ?f db))"
    by (simp add: updateWork_def list_all2_conv_all_nth)
  then have l: "list_all2 (\<lambda>r r'. if ?p r then status r' = StatusDeferred \<and> priority r' = - 100 \<and> next_attempt_at r' = formatTime now \<and>
      last_error r' = [] \<and> miss_count r' = miss_count r \<and> ident r' = ident r \<and> eligible now r' else r' = r)
      (work_queue db) (work_queue (snd (recheckRetired now scope None db)))"
    unfolding w by (rule list_all2_mono) (simp add: rows del: comp_apply split: if_splits)
  have "matched recheckRetiredWhere (updateWork recheckRetiredWhere ?f db) = []"
    by (rule matched_map_none) (simp_all add: gone del: comp_apply)
  then have c: "CountRecheckRetired None (snd (recheckRetired now None None db)) = 0"
    by (simp add: CountRecheckRetired_def matched_def w recheckLibraryClause_def)
  have "recheckRetired now scope expected db =
     (if expected \<in> {None, Some (CountRecheckRetired scope db)}
      then (Inr (CountRecheckRetired scope db), snd (recheckRetired now scope None db))
      else (Inl ErrRecheckRetiredCountChanged, db))"
    by (auto simp: recheckRetired_def CountRecheckRetired_def Let_def)
  with l c show ?thesis by blast
qed

section \<open>The upgrade sweep\<close>

lemma upgrade_flip_once:
  "upgradeCandidate q now holdBefore r \<Longrightarrow> status r = StatusDone"
  "\<not> upgradeCandidate q now holdBefore (onStatus (upgradeFlippedRow now' r))"
  by (auto simp: upgradeCandidate_def upgradeCandidatePredicate_def upgradeMissyncedPredicate_def upgradeFlippedRow_def)

lemma markUpgradeLoop_rows:
  assumes "\<And>r. \<not> cand (onStatus (upgradeFlippedRow now r))"
  shows "work_queue (snd (markUpgradeLoop cand now ids fl db)) =
    map (\<lambda>r. if rowid r \<in> set ids \<and> cand r then onStatus (upgradeFlippedRow now r) else r) (work_queue db) \<and>
    set (fst (markUpgradeLoop cand now ids fl db)) = set fl \<union> {i \<in> set ids. \<exists>r \<in> set (work_queue db). rowid r = i \<and> cand r}"
proof (induction ids arbitrary: fl db)
  case (Cons i ids)
  let ?g = "\<lambda>r. onStatus (upgradeFlippedRow now r)"
  let ?d = "updateWork (byID i cand) ?g db"
  have u: "updateOne i cand (onStatus \<circ> upgradeFlippedRow now) db = (\<exists>r \<in> set (work_queue db). rowid r = i \<and> cand r, ?d)"
    by (auto simp: updateOne_def matched_def byID_def filter_empty_conv comp_def)
  have id: "rowid (?g r) = rowid r" for r by (simp add: upgradeFlippedRow_def)
  have w: "work_queue ?d = map (\<lambda>r. if rowid r = i \<and> cand r then ?g r else r) (work_queue db)"
    by (simp add: updateWork_def byID_def)
  have rows: "map (\<lambda>r. if rowid r \<in> set ids \<and> cand r then ?g r else r) (work_queue ?d) =
      map (\<lambda>r. if rowid r \<in> set (i # ids) \<and> cand r then ?g r else r) (work_queue db)"
    using assms id by (auto simp: w)
  have ex: "(\<exists>r \<in> set (work_queue ?d). rowid r = j \<and> cand r) \<longleftrightarrow> j \<noteq> i \<and> (\<exists>r \<in> set (work_queue db). rowid r = j \<and> cand r)" for j
    using assms id by (auto simp: w split: if_splits)
  show ?case
    using Cons.IH[of _ ?d] rows ex by (simp add: u) blast
qed (simp add: map_idI)

text \<open>The upgrade flip re-queues exactly the rows asked for that are still candidates, and reports
  them: each becomes a pending row due now at upgrade priority, armed and stamped, that keeps what
  it knows of the file on disk; no other row changes, and no row flipped is a candidate again until
  it is settled.
\<close>

theorem upgrade_flip_exact:
  "list_all2 (\<lambda>r r'. if rowid r \<in> set ids \<and> upgradeCandidate q now holdBefore r
       then status r' = StatusPending \<and> priority r' = PriorityUpgrade \<and> next_attempt_at r' = formatTime now \<and> upgrade_queued r' \<and>
            upgrade_checked_at r' = Some (formatTime now) \<and> attempts r' = 0 \<and> refused_waits r' = 0 \<and> last_error r' = [] \<and>
            paths r' = paths r \<and> outcome_type r' = outcome_type r \<and> sync_tier r' = sync_tier r \<and>
            completed_at r' = completed_at r \<and> miss_count r' = miss_count r \<and> \<not> upgradeCandidate q now holdBefore r'
       else r' = r) (work_queue db) (work_queue (snd (MarkUpgradeQueued q now ids holdBefore db))) \<and>
    set (fst (MarkUpgradeQueued q now ids holdBefore db)) = {i \<in> set ids. \<exists>r \<in> set (work_queue db). rowid r = i \<and> upgradeCandidate q now holdBefore r}"
proof -
  define cand where "cand = upgradeCandidate q now holdBefore"
  have n: "\<not> cand (onStatus (upgradeFlippedRow now r))" for r unfolding cand_def by (rule upgrade_flip_once)
  note rows = markUpgradeLoop_rows[of cand now ids "[]" db, OF n]
  have k: "onStatus (upgradeFlippedRow now r) = (upgradeFlippedRow now r)\<lparr>failure_class := None\<rparr>" for r
    by (simp add: trigger_defs upgradeFlippedRow_def)
  have cols: "status r' = StatusPending \<and> priority r' = PriorityUpgrade \<and> next_attempt_at r' = formatTime now \<and> upgrade_queued r' \<and>
      upgrade_checked_at r' = Some (formatTime now) \<and> attempts r' = 0 \<and> refused_waits r' = 0 \<and> last_error r' = [] \<and>
      paths r' = paths r \<and> outcome_type r' = outcome_type r \<and> sync_tier r' = sync_tier r \<and>
      completed_at r' = completed_at r \<and> miss_count r' = miss_count r \<and> \<not> cand r'" if "r' = onStatus (upgradeFlippedRow now r)" for r r'
    using n unfolding that by (simp add: k) (simp add: upgradeFlippedRow_def)
  have "list_all2 (\<lambda>r r'. r' = (if rowid r \<in> set ids \<and> cand r then onStatus (upgradeFlippedRow now r) else r)) (work_queue db)
      (work_queue (snd (MarkUpgradeQueued q now ids holdBefore db)))"
    using rows by (simp add: MarkUpgradeQueued_def cand_def list_all2_conv_all_nth)
  then have "list_all2 (\<lambda>r r'. if rowid r \<in> set ids \<and> cand r
       then status r' = StatusPending \<and> priority r' = PriorityUpgrade \<and> next_attempt_at r' = formatTime now \<and> upgrade_queued r' \<and>
            upgrade_checked_at r' = Some (formatTime now) \<and> attempts r' = 0 \<and> refused_waits r' = 0 \<and> last_error r' = [] \<and>
            paths r' = paths r \<and> outcome_type r' = outcome_type r \<and> sync_tier r' = sync_tier r \<and>
            completed_at r' = completed_at r \<and> miss_count r' = miss_count r \<and> \<not> cand r'
       else r' = r) (work_queue db) (work_queue (snd (MarkUpgradeQueued q now ids holdBefore db)))"
  proof (rule list_all2_mono)
    fix r r' assume "r' = (if rowid r \<in> set ids \<and> cand r then onStatus (upgradeFlippedRow now r) else r)"
    then show "if rowid r \<in> set ids \<and> cand r
       then status r' = StatusPending \<and> priority r' = PriorityUpgrade \<and> next_attempt_at r' = formatTime now \<and> upgrade_queued r' \<and>
            upgrade_checked_at r' = Some (formatTime now) \<and> attempts r' = 0 \<and> refused_waits r' = 0 \<and> last_error r' = [] \<and>
            paths r' = paths r \<and> outcome_type r' = outcome_type r \<and> sync_tier r' = sync_tier r \<and>
            completed_at r' = completed_at r \<and> miss_count r' = miss_count r \<and> \<not> cand r'
       else r' = r"
      using cols[of r' r] by (cases "rowid r \<in> set ids \<and> cand r") (simp_all only: if_True if_False simp_thms)
  qed
  moreover have "set (fst (MarkUpgradeQueued q now ids holdBefore db)) = {i \<in> set ids. \<exists>r \<in> set (work_queue db). rowid r = i \<and> cand r}"
    using rows by (simp add: MarkUpgradeQueued_def cand_def)
  ultimately show ?thesis unfolding cand_def by (rule conjI)
qed

text \<open>
  A row below the line rung that was admitted at time \<open>t\<close> and has missed \<open>n\<close> trips since it
  last improved is admitted again only when more than \<open>2 ^ min n 3\<close> base holds have passed: one,
  two, four, then at most eight weeks for the base hold of a week.
\<close>

theorem upgrade_hold_escalates:
  assumes "upgradeCandidatePredicate now (now - weeks * second) r" and "0 \<le> weeks" and "upgrade_checked_at r = Some t"
  shows "t + weeks * 2 ^ nat (min (upgrade_miss_count r) 3) < formatTime now"
proof -
  have b: "upgradeHoldBase now (now - weeks * second) = weeks"
    using assms(2) by (simp add: upgradeHoldBase_def second_def)
  have "formatTime (now - weeks * second) = formatTime now - weeks"
    using div_mult_self1[of second now "- weeks"] by (simp add: formatTime_def second_def algebra_simps)
  moreover have "t < upgradeHoldCut now (now - weeks * second) (upgrade_miss_count r)"
    using assms(1,3) by (simp add: upgradeCandidatePredicate_def beforeCut_def)
  then have "t < formatTime (now - weeks * second) - weeks * (2 ^ nat (min (upgrade_miss_count r) 3) - 1)"
    unfolding upgradeHoldCut_def b UpgradeMaxHoldDoublings_def .
  ultimately show ?thesis by (simp add: right_diff_distrib)
qed

definition exSettled :: WorkRow where
  "exSettled = (freshRow NewDBQueue 1 0 0 (lit ''A'') (lit ''T'') [] exInputs 0)\<lparr>status := StatusDone,
     outcome_type := Some (lit ''unsynced''), completed_at := Some 0, upgrade_checked_at := Some 10, upgrade_miss_count := 1\<rparr>"

theorem upgrade_hold_escalates_witness:
  "upgradeCandidatePredicate (1000 * second) (1000 * second - 100 * second) exSettled \<and>
   10 + 100 * 2 ^ nat (min (upgrade_miss_count exSettled) 3) < formatTime (1000 * second)"
proof -
  have c: "upgradeCandidatePredicate (1000 * second) (1000 * second - 100 * second) exSettled"
    by (simp add: upgradeCandidatePredicate_def belowLineRung_def outcomeIn_def wordQueued_def blankText_def notHandProtected_def
        beforeCut_def upgradeHoldCut_def upgradeHoldBase_def UpgradeMaxHoldDoublings_def exSettled_def freshRow_def defaultRow_def
        zeroTiming_def zeroWord_def inputPaths_def exInputs_def formatTime_def second_def lit_def)
  then show ?thesis using upgrade_hold_escalates[OF c, of 10] by (simp add: exSettled_def)
qed

section \<open>Enqueue\<close>




















end
