(* ===== verification/QueueLease.thy ===== *)
theory QueueLease
  imports QueueSweeps
begin

text \<open>
  What the workers rely on when they share the queue: a claim is a lease, ended by nobody but the
  worker that holds it. The contract is the locale \<open>lease\<close>; the queue provides it.
\<close>

section \<open>The contract\<close>

locale lease =
  fixes inv :: "'s \<Rightarrow> bool" and held :: "'s \<Rightarrow> int \<Rightarrow> bool" and step :: "actor \<Rightarrow> 's \<Rightarrow> 's \<Rightarrow> bool"
  assumes inv_step: "inv s \<Longrightarrow> step a s s' \<Longrightarrow> inv s'"
    and held_until: "inv s \<Longrightarrow> step a s s' \<Longrightarrow> held s i \<Longrightarrow> a \<noteq> Holder i \<Longrightarrow> held s' i"
begin

text \<open>Runs in which the holder of \<open>i\<close> does nothing keep the lease.\<close>

lemma lease_lasts:
  assumes "(\<lambda>s s'. \<exists>a. a \<noteq> Holder i \<and> step a s s')\<^sup>*\<^sup>* s t" and "inv s" and "held s i"
  shows "inv t \<and> held t i"
  using assms by (induction rule: rtranclp_induct) (auto intro: inv_step held_until)

end

inductive_simps lifeStep_from_Held: "lifeStep a i Held s"

interpretation queue_lease: lease qinv "\<lambda>db i. life db i = Held" qstep
proof
  fix s s' a assume "qinv s" "qstep a s s'"
  then show "qinv s'" by (rule qinv_step[rotated])
next
  fix s s' a i assume "qinv s" "qstep a s s'" "life s i = Held" "a \<noteq> Holder i"
  then show "life s' i = Held"
    using queue_refines_step[of s a s' i] by (auto simp: lifeStep_from_Held)
qed

section \<open>Claims are exclusive\<close>

lemma life_member: "qinv db \<Longrightarrow> r \<in> set (work_queue db) \<Longrightarrow> life db (rowid r) = lifeOf (status r)"
  using matched_unique[of db r "\<lambda>_. True"] by (simp add: life_def)

lemma claimFirst_life:
  assumes "qinv db" "\<And>r. r \<in> set cs \<Longrightarrow> r \<in> set (work_queue db) \<and> retryable r" "claimFirst wall cs db = (Inr item, db')"
  shows "\<exists>r \<in> set (work_queue db). retryable r \<and> rowid r = rowid (fst item) \<and> life db' (rowid (fst item)) = Held"
proof -
  obtain r rs where c: "cs = r # rs" using assms(3) by (cases cs) (auto simp: claimFirst_def)
  have r: "r \<in> set (work_queue db)" "retryable r" using assms(2)[of r] c by auto
  from claimFirst_row[OF assms(1) r(1), of wall rs] assms(3)
  have e: "fst item = claimRow wall r" "db' = updateWork (\<lambda>x. x = r) (onStatus \<circ> claimRow wall) db"
    by (auto simp: c scanWorkItem_def)
  have "qinv db'"
    unfolding e(2) by (rule qinv_claimed[OF assms(1) claimed_updateWork]) (simp add: claimRow_claimed[OF r(2)])
  moreover have "onStatus (claimRow wall r) \<in> set (work_queue db')"
    unfolding e(2) using r(1) by (auto simp: updateWork_def)
  ultimately have "life db' (rowid (onStatus (claimRow wall r))) = lifeOf (status (onStatus (claimRow wall r)))"
    by (rule life_member)
  then show ?thesis using r e by (auto simp: claimRow_def)
qed

lemma dequeue_life:
  assumes "qinv db" and "dequeueOnce q now wall rnd db = (Inr item, db')"
  shows "life db (rowid (fst item)) = Waiting \<and> life db' (rowid (fst item)) = Held"
proof -
  have w: "life db (rowid r) = Waiting" if "r \<in> set (work_queue db)" "retryable r" for r
    using life_member[OF assms(1) that(1)] that(2) by (auto simp: retryable_def)
  show ?thesis
  proof (cases "randomized q \<and> 0 < batchSize q")
    case True
    let ?d = "refillBuffer q now rnd db"
    have c: "claimFirst wall (bufferedDue now ?d) ?d = (Inr item, db')"
      using assms(2) True dequeueOnce_batched by auto
    have m: "r \<in> set (bufferedDue now ?d) \<Longrightarrow> r \<in> set (work_queue ?d) \<and> retryable r" for r
      by (auto simp: bufferedDue_def matched_def eligible_def)
    obtain r1 where r1: "r1 \<in> set (work_queue ?d)" "retryable r1" "rowid r1 = rowid (fst item)" "life db' (rowid (fst item)) = Held"
      using claimFirst_life[OF qinv_refill[OF assms(1)] m c] by blast
    obtain r b where "r \<in> set (work_queue db)" "r1 = r\<lparr>batch_seq := b\<rparr>" using refill_from[OF r1(1)] by blast
    then show ?thesis using w[of r] r1 by (simp add: retryable_def)
  next
    case False
    define cs where "cs = (if randomized q then orderRandom rnd (matched (eligible now) db) else orderFIFO (matched (eligible now) db))"
    have c: "claimFirst wall cs db = (Inr item, db')" using assms(2) False by (auto simp: dequeueOnce_def cs_def)
    have m: "r \<in> set cs \<Longrightarrow> r \<in> set (work_queue db) \<and> retryable r" for r
      by (auto simp: cs_def orderRandom_def orderFIFO_def matched_def eligible_def split: if_splits)
    obtain r where "r \<in> set (work_queue db)" "retryable r" "rowid r = rowid (fst item)" "life db' (rowid (fst item)) = Held"
      using claimFirst_life[OF assms(1) m c] by blast
    then show ?thesis using w[of r] by simp
  qed
qed

text \<open>
  C15: two workers never hold the same row: once a claim returned a row, no later claim, in any
  mode and after any sequence of operations by other workers, the scanner and the operator, returns
  it again, unless the worker that holds it gave it back in between.
\<close>

theorem no_double_claim:
  assumes "qinv db" and "dequeueOnce q now wall rnd db = (Inr item, db1)"
    and "(\<lambda>s s'. \<exists>a. a \<noteq> Holder (rowid (fst item)) \<and> qstep a s s')\<^sup>*\<^sup>* db1 db2"
    and "dequeueOnce q' now' wall' rnd' db2 = (Inr item', db3)"
  shows "rowid (fst item') \<noteq> rowid (fst item)"
proof -
  have "qinv db1" using qinv_step[OF Claim assms(1)] assms(2) by (metis snd_conv)
  then have "qinv db2 \<and> life db2 (rowid (fst item)) = Held"
    using queue_lease.lease_lasts[OF assms(3)] dequeue_life[OF assms(1,2)] by blast
  then show ?thesis using dequeue_life[of db2 q' now' wall' rnd' item' db3] assms(4) by auto
qed

definition exOther :: Inputs where
  "exOther = exInputs\<lparr>inTrack := zeroTrack\<lparr>ArtistName := lit ''A'', TrackName := lit ''U''\<rparr>\<rparr>"

definition exTwo :: QDB where "exTwo = snd (enqueueTx id NewDBQueue None 0 0 exOther PriorityScan exHeld)"

lemma exHeld_last: "lastRowid exHeld = 1"
proof -
  have "lastRowid exQueued = 1"
    by (simp add: exQueued_def enqueueTx_def inTx_def enqueueBody_def IdentityKeys_def resolveEditionTx_def NewDBQueue_def
        exInputs_def reopensForScan_def upsert_def Let_def emptyDB_def matched_def PriorityScan_def PriorityWebhook_def)
  moreover have "rewritten claimedRow exQueued exHeld"
    unfolding exHeld_def using exHeld_qinv(1) by (intro dequeue_claimed) (simp add: qinv_def)
  ultimately show ?thesis by (simp add: rewritten_def)
qed

lemma exTwo_rows: "work_queue exTwo =
    [onStatus (claimRow 7 (freshRow NewDBQueue 1 0 0 (lit ''A'') (lit ''T'') [] exInputs 0)),
     freshRow NewDBQueue 2 0 0 (lit ''A'') (lit ''U'') [] exOther 0]"
proof -
  have "\<not> identityIs (lit ''A'') (lit ''U'') [] (onStatus (claimRow 7 (freshRow NewDBQueue 1 0 0 (lit ''A'') (lit ''T'') [] exInputs 0)))"
    by (simp add: identityIs_def sameKeys_def claimRow_def freshRow_def defaultRow_def lit_def)
  then show ?thesis
    by (simp add: exTwo_def enqueueTx_def inTx_def enqueueBody_def IdentityKeys_def resolveEditionTx_def NewDBQueue_def
        exOther_def exInputs_def reopensForScan_def upsert_def Let_def matched_def PriorityScan_def PriorityWebhook_def
        EditionNone_def formatTime_def exHeld_rows exHeld_last)
qed

theorem no_double_claim_witness:
  "\<exists>item item' db3. dequeueOnce exFIFO 0 7 id exQueued = (Inr item, exHeld) \<and>
     dequeueOnce exFIFO 0 8 id exTwo = (Inr item', db3) \<and> rowid (fst item') \<noteq> rowid (fst item)"
proof -
  have "\<exists>item. fst (dequeueOnce exFIFO 0 7 id exQueued) = Inr item"
    by (simp add: exFIFO_def SetRandomized_def NewDBQueue_def dequeueOnce_def orderFIFO_def matched_def eligible_def
      retryable_def exQueued_rows freshRow_def defaultRow_def formatTime_def claimFirst_def updateReturning_def byID_def)
  then obtain item where a: "dequeueOnce exFIFO 0 7 id exQueued = (Inr item, exHeld)"
    by (metis exHeld_def prod.collapse)
  have "\<exists>item. fst (dequeueOnce exFIFO 0 8 id exTwo) = Inr item"
    by (simp add: exFIFO_def SetRandomized_def NewDBQueue_def dequeueOnce_def orderFIFO_def matched_def eligible_def
      retryable_def exTwo_rows freshRow_def defaultRow_def formatTime_def claimFirst_def updateReturning_def byID_def claimRow_def)
  then obtain item' db3 where b: "dequeueOnce exFIFO 0 8 id exTwo = (Inr item', db3)" by (metis prod.collapse)
  have "(\<lambda>s s'. \<exists>a. a \<noteq> Holder (rowid (fst item)) \<and> qstep a s s')\<^sup>*\<^sup>* exHeld exTwo"
    by (rule r_into_rtranclp) (auto simp: exTwo_def intro!: exI[of _ Anyone] AEnqueue)
  from no_double_claim[OF exHeld_qinv(1) a this b] show ?thesis using a b by blast
qed

end
