(* ===== verification/Pathutil.thy ===== *)
theory Pathutil
  imports QueueIntake
begin

text \<open>
  \<open>internal/pathutil/pathutil.go\<close>: lexical containment of a path in a root, the innermost root that
  contains a path, and the canonical spellings that confine and key paths. \<open>filepath.Rel\<close> is
  spelled out on the components of cleaned paths; the file system's symbolic links are a function
  \<open>eval\<close> (\<open>None\<close> when a path does not resolve) and the working directory is \<open>cwd\<close>.
\<close>

section \<open>Definitions\<close>

definition slash :: rune where "slash = 47"
definition dotdot :: gotext where "dotdot = [46, 46]"

definition isAbs :: "gotext \<Rightarrow> bool" where
  "isAbs p \<longleftrightarrow> take 1 p = [slash]"

definition pathComps :: "gotext \<Rightarrow> gotext list" where
  "pathComps p = filter (\<lambda>s. s \<noteq> []) (splitSlash p)"

fun dropCommon :: "'a list \<Rightarrow> 'a list \<Rightarrow> 'a list \<times> 'a list" where
  "dropCommon (b # bs) (t # ts) = (if b = t then dropCommon bs ts else (b # bs, t # ts))"
| "dropCommon bs ts = (bs, ts)"

definition pathRel :: "gotext \<Rightarrow> gotext \<Rightarrow> gotext option" where
  "pathRel base0 targ0 =
     (let base = pathClean base0; targ = pathClean targ0; base' = (if base = [46] then [] else base)
      in if targ = base then Some [46]
         else if isAbs base' \<noteq> isAbs targ then None
         else case dropCommon (pathComps base') (pathComps targ) of
           (bs, ts) \<Rightarrow> if bs \<noteq> [] \<and> hd bs = dotdot then None
                       else Some (joinSlash (replicate (length bs) dotdot @ ts)))"

definition relWithin :: "gotext \<Rightarrow> gotext \<Rightarrow> gotext option" where
  "relWithin dir p =
     (case pathRel dir p of None \<Rightarrow> None
      | Some rel \<Rightarrow> if rel = dotdot \<or> take 3 rel = dotdot @ [slash] then None else Some rel)"

definition WithinRoot :: "gotext \<Rightarrow> gotext \<Rightarrow> bool" where
  "WithinRoot dir p \<longleftrightarrow> dir \<noteq> [] \<and> p \<noteq> [] \<and> relWithin (pathClean dir) (pathClean p) \<noteq> None"

text \<open>The scan keeps the best root so far and its cleaned length.\<close>

fun containingLoop :: "gotext \<Rightarrow> gotext list \<Rightarrow> (gotext \<times> nat) option \<Rightarrow> gotext option" where
  "containingLoop p [] best = map_option fst best"
| "containingLoop p (r # rs) best =
     (let n = length (pathClean r)
      in if WithinRoot r p \<and> (case best of None \<Rightarrow> True | Some (_, b) \<Rightarrow> n > b)
         then containingLoop p rs (Some (r, n)) else containingLoop p rs best)"

definition ContainingRoot :: "gotext list \<Rightarrow> gotext \<Rightarrow> gotext option" where
  "ContainingRoot roots p = containingLoop p roots None"

definition pathJoin :: "gotext \<Rightarrow> gotext \<Rightarrow> gotext" where
  "pathJoin a b = (if a = [] \<and> b = [] then [] else if a = [] then pathClean b else pathClean (a @ [slash] @ b))"

definition ResolveWithinRoot :: "(gotext \<Rightarrow> gotext option) \<Rightarrow> gotext \<Rightarrow> gotext \<Rightarrow> gotext option" where
  "ResolveWithinRoot eval dir p =
     (if dir = [] \<or> p = [] then None
      else let cleanRoot = pathClean dir
           in case relWithin cleanRoot (pathClean p) of None \<Rightarrow> None
              | Some rel \<Rightarrow> (case eval cleanRoot of None \<Rightarrow> None
                  | Some resolvedRoot \<Rightarrow> (case eval (pathJoin resolvedRoot rel) of None \<Rightarrow> None
                      | Some resolved \<Rightarrow> if relWithin resolvedRoot resolved = None then None else Some resolved)))"

definition absPath :: "gotext \<Rightarrow> gotext \<Rightarrow> gotext" where
  "absPath cwd p = (if isAbs p then pathClean p else pathJoin cwd p)"

definition CanonicalPath :: "gotext \<Rightarrow> (gotext \<Rightarrow> gotext option) \<Rightarrow> gotext \<Rightarrow> gotext" where
  "CanonicalPath cwd eval p = (let a = absPath cwd p in case eval a of None \<Rightarrow> a | Some c \<Rightarrow> c)"

definition CanonicalRoot :: "gotext \<Rightarrow> (gotext \<Rightarrow> gotext option) \<Rightarrow> gotext \<Rightarrow> gotext \<times> gotext" where
  "CanonicalRoot cwd eval dir = (absPath cwd dir, CanonicalPath cwd eval dir)"

definition RebaseUnderCanonicalRoot :: "gotext \<Rightarrow> (gotext \<Rightarrow> gotext option) \<Rightarrow> gotext \<Rightarrow> gotext \<Rightarrow> gotext \<Rightarrow> gotext" where
  "RebaseUnderCanonicalRoot cwd eval absRoot canonRoot p =
     (case relWithin absRoot p of None \<Rightarrow> CanonicalPath cwd eval p | Some rel \<Rightarrow> pathJoin canonRoot rel)"

section \<open>Lemmas\<close>

lemma containingLoop_spec:
  "containingLoop p rs best = Some dir \<Longrightarrow>
     (\<exists>b. best = Some (dir, b)) \<or> dir \<in> set rs \<and> WithinRoot dir p"
  by (induction rs arbitrary: best) (auto simp: Let_def split: if_splits)

lemma containingLoop_longest:
  assumes "containingLoop p rs best = Some dir" and "\<And>r b. best = Some (r, b) \<Longrightarrow> b = length (pathClean r)"
  shows "(\<forall>r \<in> set rs. WithinRoot r p \<longrightarrow> length (pathClean r) \<le> length (pathClean dir)) \<and>
    (\<forall>r b. best = Some (r, b) \<longrightarrow> b \<le> length (pathClean dir))"
  using assms
proof (induction rs arbitrary: best)
  case Nil
  then show ?case by auto
next
  case (Cons r rs)
  show ?case
  proof (cases "WithinRoot r p \<and> (case best of None \<Rightarrow> True | Some (_, b) \<Rightarrow> length (pathClean r) > b)")
    case True
    with Cons.prems(1) have c: "containingLoop p rs (Some (r, length (pathClean r))) = Some dir"
      by (simp add: Let_def)
    from Cons.IH[OF this] True show ?thesis by (auto split: option.splits)
  next
    case False
    with Cons.prems(1) have c: "containingLoop p rs best = Some dir" by (simp add: Let_def)
    from Cons.IH[OF this Cons.prems(2)] False show ?thesis by (auto split: option.splits)
  qed
qed

lemma containingLoop_none: "containingLoop p rs best = None \<Longrightarrow> best = None \<and> (\<forall>r \<in> set rs. \<not> WithinRoot r p)"
  by (induction rs arbitrary: best) (auto simp: Let_def split: if_splits option.splits)

text \<open>The root returned contains the path, and no other root that contains it is longer.\<close>

lemma ContainingRoot_innermost:
  "case ContainingRoot roots p of
     Some dir \<Rightarrow> dir \<in> set roots \<and> WithinRoot dir p \<and>
       (\<forall>r \<in> set roots. WithinRoot r p \<longrightarrow> length (pathClean r) \<le> length (pathClean dir))
   | None \<Rightarrow> \<forall>r \<in> set roots. \<not> WithinRoot r p"
  using containingLoop_spec[of p roots None] containingLoop_longest[of p roots None] containingLoop_none[of p roots None]
  by (auto simp: ContainingRoot_def split: option.split)

text \<open>A path that resolves is inside the resolved root, whatever symbolic links there are.\<close>

lemma ResolveWithinRoot_contained:
  "ResolveWithinRoot eval dir p = Some q \<Longrightarrow> \<exists>r. eval (pathClean dir) = Some r \<and> relWithin r q \<noteq> None"
  by (auto simp: ResolveWithinRoot_def Let_def split: if_splits option.splits)

end
