(* ===== verification/Cache.thy ===== *)
theory Cache
  imports Canticle_Prelude Outcome
begin

text \<open>
  \<open>internal/cache/cache.go\<close>: the table \<open>lyrics_cache\<close>, a map from (artist, title, duration bucket) to
  the stored text, and the two counters of the process. Keys are normalized by \<open>nkey\<close>. A query the
  driver fails is an input of the lookup (\<open>f1\<close>, \<open>f2\<close> for its two queries) and of the writes.
\<close>

section \<open>Definitions\<close>

record CacheRepo =
  lyrics_cache :: "gotext \<times> gotext \<times> int \<Rightarrow> gotext option"
  cacheHits :: int
  cacheLookups :: int

definition newCacheRepo :: CacheRepo where
  "newCacheRepo = \<lparr>lyrics_cache = Map.empty, cacheHits = 0, cacheLookups = 0\<rparr>"

definition lookupError :: "goerr \<Rightarrow> goerr" where
  "lookupError e = Wrapf (lit ''cache: lookup: '') e []"

definition LookupAccepted :: "(gotext \<Rightarrow> gotext) \<Rightarrow> goerr option \<Rightarrow> goerr option \<Rightarrow> gotext \<Rightarrow> gotext \<Rightarrow> int
    \<Rightarrow> (gotext \<Rightarrow> bool) \<Rightarrow> CacheRepo \<Rightarrow> (goerr + gotext) \<times> CacheRepo" where
  "LookupAccepted nkey f1 f2 artist title bucket accept c0 =
     (let c = c0\<lparr>cacheLookups := cacheLookups c0 + 1\<rparr>;
          served = c\<lparr>cacheHits := cacheHits c + 1\<rparr>;
          exact = lyrics_cache c (nkey artist, nkey title, bucket);
          fallback =
            (if bucket = 0 then (Inl (Sentinel SqlErrNoRows), c)
             else case f2 of Some e \<Rightarrow> (Inl (lookupError e), c)
             | None \<Rightarrow> (case lyrics_cache c (nkey artist, nkey title, 0) of
                 None \<Rightarrow> (Inl (Sentinel SqlErrNoRows), c)
               | Some text \<Rightarrow> if accept text then (Inr text, served) else (Inl (Sentinel SqlErrNoRows), c)))
      in case f1 of Some e \<Rightarrow> (Inl (lookupError e), c)
         | None \<Rightarrow> (case exact of
             Some text \<Rightarrow> if accept text then (Inr text, served) else fallback
           | None \<Rightarrow> fallback))"

definition Lookup :: "(gotext \<Rightarrow> gotext) \<Rightarrow> goerr option \<Rightarrow> goerr option \<Rightarrow> gotext \<Rightarrow> gotext \<Rightarrow> int
    \<Rightarrow> CacheRepo \<Rightarrow> (goerr + gotext) \<times> CacheRepo" where
  "Lookup nkey f1 f2 artist title bucket = LookupAccepted nkey f1 f2 artist title bucket (\<lambda>_. True)"

definition Store :: "(gotext \<Rightarrow> gotext) \<Rightarrow> goerr option \<Rightarrow> gotext \<Rightarrow> gotext \<Rightarrow> int \<Rightarrow> gotext
    \<Rightarrow> CacheRepo \<Rightarrow> goerr option \<times> CacheRepo" where
  "Store nkey fault artist title bucket text c =
     (case fault of Some e \<Rightarrow> (Some (Wrapf (lit ''cache: store: '') e []), c)
      | None \<Rightarrow> (None, c\<lparr>lyrics_cache := (lyrics_cache c)((nkey artist, nkey title, bucket) \<mapsto> text)\<rparr>))"

text \<open>Every bucket of the key is deleted; the number of rows it deleted is left out.\<close>

definition Invalidate :: "(gotext \<Rightarrow> gotext) \<Rightarrow> goerr option \<Rightarrow> gotext \<Rightarrow> gotext \<Rightarrow> CacheRepo \<Rightarrow> goerr option \<times> CacheRepo" where
  "Invalidate nkey fault artist title c =
     (case fault of Some e \<Rightarrow> (Some (Wrapf (lit ''cache: invalidate: '') e []), c)
      | None \<Rightarrow> (None, c\<lparr>lyrics_cache :=
           (\<lambda>(a, t, b). if a = nkey artist \<and> t = nkey title then None else lyrics_cache c (a, t, b))\<rparr>))"

definition CacheStats :: "CacheRepo \<Rightarrow> int \<times> int" where
  "CacheStats c = (cacheHits c, cacheLookups c)"

section \<open>Lemmas\<close>

text \<open>What a lookup serves was stored under the key, in the bucket asked for or in bucket 0, and was accepted.\<close>

lemma LookupAccepted_served:
  assumes "LookupAccepted nkey f1 f2 artist title bucket accept c = (Inr text, c')"
  shows "accept text \<and> (\<exists>b \<in> {bucket, 0}. lyrics_cache c (nkey artist, nkey title, b) = Some text)"
  using assms by (auto simp: LookupAccepted_def Let_def split: option.splits if_splits)

lemma LookupAccepted_cache [simp]:
  "lyrics_cache (snd (LookupAccepted nkey f1 f2 artist title bucket accept c)) = lyrics_cache c"
  by (simp add: LookupAccepted_def Let_def split: option.split)

text \<open>Without a database error a lookup serves nothing only if no stored text of the two buckets is accepted.\<close>

lemma LookupAccepted_miss:
  assumes "LookupAccepted nkey None None artist title bucket accept c = (Inl e, c')"
  shows "e = Sentinel SqlErrNoRows \<and>
    (\<forall>b \<in> {bucket, 0}. \<forall>text. lyrics_cache c (nkey artist, nkey title, b) = Some text \<longrightarrow> \<not> accept text)"
  using assms by (auto simp: LookupAccepted_def Let_def split: option.splits if_splits)

text \<open>A stored text is what the next lookup of its key and bucket serves; after an invalidation none is.\<close>

lemma Lookup_Store:
  "Lookup nkey None f2 artist title bucket (snd (Store nkey None artist title bucket text c)) =
     (Inr text, (snd (Store nkey None artist title bucket text c))\<lparr>cacheLookups := cacheLookups c + 1, cacheHits := cacheHits c + 1\<rparr>)"
  by (simp add: Lookup_def LookupAccepted_def Store_def Let_def)

lemma Lookup_Invalidate:
  "fst (Lookup nkey None None artist title bucket (snd (Invalidate nkey None artist title c))) = Inl (Sentinel SqlErrNoRows)"
  by (simp add: Lookup_def LookupAccepted_def Invalidate_def Let_def)

text \<open>The hit counter never exceeds the lookups: one lookup counts once, and at most one hit.\<close>

lemma LookupAccepted_counts:
  "cacheLookups (snd (LookupAccepted nkey f1 f2 artist title bucket accept c)) = cacheLookups c + 1 \<and>
   cacheHits (snd (LookupAccepted nkey f1 f2 artist title bucket accept c)) =
     cacheHits c + (if isl (fst (LookupAccepted nkey f1 f2 artist title bucket accept c)) then 0 else 1)"
  by (simp add: LookupAccepted_def Let_def split: option.split)

end
