(* ===== verification/Providers.thy ===== *)
theory Providers
  imports Lane "HOL-Library.Word" "HOL-Library.List_Lexorder"
begin

unbundle bit_operations_syntax

text \<open>
  \<open>internal/providers\<close>: which provider is the primary one, whether the disabled list leaves a
  provider to ask, and the two generations that stamp what was reached under a set of lanes
  (\<open>Generation\<close> on a queue row, \<open>WordGeneration\<close> on a word verdict). A generation is the FNV-1a hash
  of the sorted names, on 64-bit words; names are hashed as their UTF-8 bytes. Provider names and
  \<open>WordCapable\<close> are in \<open>Lane\<close>.
\<close>

section \<open>Definitions\<close>

definition providerDisabled :: "gotext \<Rightarrow> gotext list \<Rightarrow> bool" where
  "providerDisabled name disabled \<longleftrightarrow> (\<exists>v \<in> set disabled. NormalizeName v = NormalizeName name)"

datatype selectError = ProviderDisabled gotext | UnsupportedProvider gotext | PrimaryDisabled gotext | NoProviderEnabled

definition primaryName :: "gotext \<Rightarrow> gotext" where
  "primaryName primary = (if NormalizeName primary = [] then Musixmatch else NormalizeName primary)"

text \<open>A candidate is its name; a nil candidate is \<open>None\<close>. The result is the position of the one chosen.\<close>

definition Select :: "gotext \<Rightarrow> gotext list \<Rightarrow> gotext option list \<Rightarrow> selectError + nat" where
  "Select primary disabled candidates =
     (let p = primaryName primary
      in if providerDisabled p disabled then Inl (ProviderDisabled p)
         else case List.find (\<lambda>i. map_option NormalizeName (candidates ! i) = Some p) [0 ..< length candidates] of
                Some i \<Rightarrow> Inr i | None \<Rightarrow> Inl (UnsupportedProvider p))"

definition ValidateSelection :: "gotext \<Rightarrow> gotext list \<Rightarrow> selectError option" where
  "ValidateSelection primary disabled =
     (let p = primaryName primary
      in if providerDisabled p disabled then Some (PrimaryDisabled p)
         else if \<exists>k \<in> set Known. \<not> providerDisabled k disabled then None
         else Some NoProviderEnabled)"

definition utf8 :: "rune \<Rightarrow> nat list" where
  "utf8 r = (if r < 128 then [r]
     else if r < 2048 then [192 + r div 64, 128 + r mod 64]
     else if r < 65536 then [224 + r div 4096, 128 + r div 64 mod 64, 128 + r mod 64]
     else [240 + r div 262144, 128 + r div 4096 mod 64, 128 + r div 64 mod 64, 128 + r mod 64])"

definition fnv64a :: "nat list \<Rightarrow> 64 word" where
  "fnv64a bytes = foldl (\<lambda>h b. (h XOR of_nat b) * 1099511628211) 14695981039346656037 bytes"

definition hash31 :: "gotext \<Rightarrow> int" where
  "hash31 key = uint (fnv64a (concat (map utf8 key)) AND 0x7fffffff)"

fun joinNames :: "gotext \<Rightarrow> gotext list \<Rightarrow> gotext" where
  "joinNames sep [] = []"
| "joinNames sep [x] = x"
| "joinNames sep (x # y # xs) = x @ sep @ joinNames sep (y # xs)"

text \<open>
  The loop over the names with its set of names seen: the first occurrence of each name is kept. The names
  are then sorted, as byte strings in Go: the order of UTF-8 texts is that of their code points.
\<close>

fun uniqueNames :: "(gotext \<Rightarrow> bool) \<Rightarrow> gotext list \<Rightarrow> gotext list \<Rightarrow> gotext list" where
  "uniqueNames ok found [] = []"
| "uniqueNames ok found (n # ns) =
     (let v = NormalizeName n
      in if \<not> ok v \<or> v \<in> set found then uniqueNames ok found ns
         else v # uniqueNames ok (v # found) ns)"

definition Generation :: "gotext list \<Rightarrow> int" where
  "Generation names = hash31 (joinNames [44] (sort (uniqueNames (\<lambda>v. v \<noteq> []) [] names)))"

definition WordCapabilityRevision :: int where "WordCapabilityRevision = 1"

definition wordGenerationOf :: "int \<Rightarrow> gotext list \<Rightarrow> int" where
  "wordGenerationOf revision names =
     hash31 (lit ''wordcap:v'' @ itoa revision @ [124] @ joinNames [44] (sort (uniqueNames WordCapable [] names)))"

definition WordGeneration :: "gotext list \<Rightarrow> int" where
  "WordGeneration names = wordGenerationOf WordCapabilityRevision names"

section \<open>Lemmas\<close>

lemma set_uniqueNames: "set (uniqueNames ok found ns) = {v \<in> NormalizeName ` set ns. ok v} - set found"
  by (induction ns arbitrary: found) (auto simp: Let_def)

lemma distinct_uniqueNames: "distinct (uniqueNames ok found ns)"
  by (induction ns arbitrary: found) (auto simp: Let_def set_uniqueNames)

text \<open>Order, case, blanks and duplicates of the names do not matter to a generation.\<close>

lemma sort_uniqueNames:
  "{v \<in> NormalizeName ` set ns. ok v} = {v \<in> NormalizeName ` set ms. ok v} \<Longrightarrow>
   sort (uniqueNames ok [] ns) = sort (uniqueNames ok [] ms)"
  by (rule sorted_distinct_set_unique) (simp_all add: distinct_uniqueNames set_uniqueNames)

lemma hash31_range: "0 \<le> hash31 key \<and> hash31 key < 2 ^ 31"
proof -
  have "uint (w AND 0x7fffffff) < 2 ^ 31" for w :: "64 word"
  proof -
    have "w AND 0x7fffffff = take_bit 31 w" by (simp add: take_bit_eq_mask mask_eq_exp_minus_1)
    then show ?thesis using take_bit_int_less_exp[of 31 "uint w"] by (simp add: unsigned_take_bit_eq)
  qed
  then show ?thesis by (simp add: hash31_def)
qed

theorem Generation_of_set:
  assumes "NormalizeName ` set ns - {[]} = NormalizeName ` set ms - {[]}"
  shows "Generation ns = Generation ms \<and> 0 \<le> Generation ns \<and> Generation ns < 2 ^ 31"
proof -
  have "{v \<in> NormalizeName ` set ns. v \<noteq> []} = {v \<in> NormalizeName ` set ms. v \<noteq> []}" using assms by blast
  from sort_uniqueNames[OF this] show ?thesis
    unfolding Generation_def using hash31_range by auto
qed

theorem WordGeneration_ignores:
  assumes "{v \<in> NormalizeName ` set ns. WordCapable v} = {v \<in> NormalizeName ` set ms. WordCapable v}"
  shows "WordGeneration ns = WordGeneration ms \<and> 0 \<le> WordGeneration ns \<and> WordGeneration ns < 2 ^ 31"
  unfolding WordGeneration_def wordGenerationOf_def sort_uniqueNames[OF assms] using hash31_range by auto

text \<open>A selection that validates can be made: the primary is enabled, so a candidate of its name is chosen.\<close>

theorem validated_selection:
  assumes "ValidateSelection primary disabled = None" and "Some (primaryName primary) \<in> map_option NormalizeName ` set candidates"
  shows "\<exists>i. Select primary disabled candidates = Inr i \<and> i < length candidates \<and>
    map_option NormalizeName (candidates ! i) = Some (primaryName primary)"
proof -
  have d: "\<not> providerDisabled (primaryName primary) disabled"
    using assms(1) by (auto simp: ValidateSelection_def Let_def split: if_splits)
  obtain j where "j < length candidates" "map_option NormalizeName (candidates ! j) = Some (primaryName primary)"
    using assms(2) by (metis (no_types, lifting) imageE in_set_conv_nth)
  then obtain i where "List.find (\<lambda>i. map_option NormalizeName (candidates ! i) = Some (primaryName primary)) [0 ..< length candidates] = Some i"
    by (metis (mono_tags, lifting) atLeastLessThan_iff find_None_iff not_None_eq set_upt zero_le)
  moreover from this have "i < length candidates \<and> map_option NormalizeName (candidates ! i) = Some (primaryName primary)"
    by (auto simp: find_Some_iff)
  ultimately show ?thesis using d by (auto simp: Select_def Let_def)
qed

end
