(* ===== verification/WorkerBase.thy ===== *)
theory WorkerBase
  imports QueueStamps Pathutil Cache Providers Parallel Normalize "HOL-Library.State_Monad"
begin

text \<open>
  The state and the inputs of the queue worker (\<open>internal/worker\<close>), and the pure functions its
  decisions rest on. \<open>Worker\<close> is the struct of \<open>worker.go\<close> with the tables, the cache and the lanes it
  reaches, and a log of the events it records and the files it writes. One pass reads what the
  outside world does from a \<open>PassEnv\<close>: clock readings, the answers of the lanes, of the writer, the
  verifier and the healer, and for each call of the queue the instant it happens at and the error
  the driver ends it with, if any. A pass is a computation in the state monad; an error returned is
  a \<open>goerr option\<close>.
\<close>

section \<open>Detection memo\<close>

record storedTelemetry =
  stVersion :: gotext
  stMusicSum :: float64
  stVocalPeak :: float64
  stSpeechMean :: float64
  stVocalClass :: gotext
  stGateComplete :: bool

text \<open>\<open>mdDecider\<close> is the model version and the decision rule of an inner detector that has them.\<close>

record memoDetector =
  mdDecider :: "(gotext \<times> (float64 \<Rightarrow> float64 \<Rightarrow> float64 \<Rightarrow> bool)) option"
  mdPrimed :: "storedTelemetry option"
  mdLast :: DetectResult
  mdRan :: bool
  mdErrored :: bool

definition zeroDetect :: DetectResult where
  "zeroDetect = \<lparr>dr_Instrumental = False, dr_Confidence = Fin 0, dr_VocalConfidence = Fin 0, dr_SpeechConfidence = Fin 0,
     dr_WinningVocalClass = [], dr_Version = [], dr_Reusable = False\<rparr>"

definition newMemoDetector :: "(gotext \<times> (float64 \<Rightarrow> float64 \<Rightarrow> float64 \<Rightarrow> bool)) option \<Rightarrow> memoDetector" where
  "newMemoDetector decider = \<lparr>mdDecider = decider, mdPrimed = None, mdLast = zeroDetect, mdRan = False, mdErrored = False\<rparr>"

definition prime :: "storedTelemetry option \<Rightarrow> memoDetector \<Rightarrow> memoDetector" where
  "prime p m = m\<lparr>mdPrimed := p, mdLast := zeroDetect, mdRan := False, mdErrored := False\<rparr>"

definition canReuse :: "memoDetector \<Rightarrow> bool" where
  "canReuse m = (case (mdDecider m, mdPrimed m) of
       (Some (version, _), Some p) \<Rightarrow> stVersion p \<noteq> [] \<and> stGateComplete p \<and> stVersion p = version
     | _ \<Rightarrow> False)"

definition reuseResult :: "memoDetector \<Rightarrow> DetectResult" where
  "reuseResult m = (case (mdDecider m, mdPrimed m) of
       (Some (_, decide), Some p) \<Rightarrow>
         \<lparr>dr_Instrumental = decide (stMusicSum p) (stVocalPeak p) (stSpeechMean p), dr_Confidence = stMusicSum p,
          dr_VocalConfidence = stVocalPeak p, dr_SpeechConfidence = stSpeechMean p,
          dr_WinningVocalClass = stVocalClass p, dr_Version = stVersion p, dr_Reusable = stGateComplete p\<rparr>
     | _ \<Rightarrow> zeroDetect)"

definition memoDetect :: "(gotext \<Rightarrow> goerr + DetectResult) \<Rightarrow> gotext \<Rightarrow> memoDetector \<Rightarrow> (goerr + DetectResult) \<times> memoDetector" where
  "memoDetect inner path m =
     (if canReuse m then (Inr (reuseResult m), m\<lparr>mdLast := reuseResult m, mdRan := False, mdErrored := False\<rparr>)
      else case inner path of
        Inl e \<Rightarrow> (Inl e, m\<lparr>mdLast := zeroDetect, mdRan := True, mdErrored := True\<rparr>)
      | Inr res \<Rightarrow> (Inr res, m\<lparr>mdLast := res, mdRan := True, mdErrored := False\<rparr>))"

definition lastInference :: "memoDetector \<Rightarrow> DetectResult \<times> bool" where
  "lastInference m = (mdLast m, mdRan m)"

definition detectErrored :: "memoDetector \<Rightarrow> bool" where
  "detectErrored m = mdErrored m"

section \<open>What the writer answers\<close>

datatype Rung = RungNone | RungInstrumental | RungUnsynced | RungLine | RungWord

fun rungRank :: "Rung \<Rightarrow> nat" where
  "rungRank RungNone = 0"
| "rungRank RungInstrumental = 1"
| "rungRank RungUnsynced = 2"
| "rungRank RungLine = 3"
| "rungRank RungWord = 4"

record KeptError =
  keOnDisk :: Rung
  keSynced :: bool
  keJudged :: bool
  keManual :: bool

text \<open>The result of a write: nothing, or one of the errors the worker tells apart.\<close>

datatype WriteRes = Wrote | Kept KeptError | DirMissing goerr | Refused goerr | WriteFailed goerr

text \<open>
  A write is given its position in the pass, the song and the output; \<open>wrGuarded\<close>, \<open>wrAbsent\<close> and
  \<open>wrLanding\<close> are the optional interfaces of a writer (\<open>WriteLRCNoDowngrade\<close>; \<open>WriteLRCIfAbsent\<close> with
  \<open>Occupant\<close>; \<open>WordSyncEnabled\<close> with \<open>WordsLanded\<close>), \<open>wrHolds\<close> what \<open>heldByLaterPath\<close> reads on disk.
\<close>

record WriterEnv =
  wrWrite :: "nat \<Rightarrow> Song \<Rightarrow> OutputPath \<Rightarrow> WriteRes"
  wrGuarded :: "(nat \<Rightarrow> Song \<Rightarrow> OutputPath \<Rightarrow> WriteRes) option"
  wrAbsent :: "((nat \<Rightarrow> Song \<Rightarrow> OutputPath \<Rightarrow> WriteRes) \<times> (Song \<Rightarrow> OutputPath \<Rightarrow> goerr + KeptError option)) option"
  wrLanding :: "(bool \<times> (Song \<Rightarrow> OutputPath \<Rightarrow> bool)) option"
  wrHolds :: "Song \<Rightarrow> OutputPath \<Rightarrow> bool"

section \<open>Files, roots and metadata\<close>

record AudioFacts =
  afTrackLength :: int
  afISRC :: gotext
  afAlbum :: gotext
  afMTimeNano :: int
  afSizeBytes :: int
  afDurationErr :: bool
  afMultiValueErr :: bool

record AudioMetadata =
  amTrackLength :: int
  amISRC :: gotext
  amAlbumName :: gotext
  amMTimeNano :: int
  amSizeBytes :: int

text \<open>
  \<open>mdRead\<close> is \<open>readMetadata\<close> (nil when \<open>None\<close>), \<open>mdFacts\<close> is \<open>readFacts\<close>, \<open>mdCache\<close> the metadata cache with
  what \<open>statFile\<close> and \<open>Facts\<close> answer (nil when either is), \<open>mdDurations\<close> whether there is a duration store.
\<close>

record MetaEnv =
  meRead :: "(goerr + AudioMetadata) option"
  meFacts :: "(goerr + AudioFacts) option"
  meCache :: "((goerr + int \<times> int) \<times> (goerr + AudioFacts option)) option"
  meDurations :: bool
  meKey :: "gotext \<Rightarrow> gotext"

datatype SourceState = SourceUnproven | SourcePresent | SourceGone

text \<open>
  The healer: the configured roots, whether a root is populated, the repair \<open>classifyEntry\<close> proves for
  a single-entry row, whether an entry is provably stale and what is known of a source file. The
  stale check asks whether a root is online (\<open>Some (root, rest)\<close>, \<open>rest\<close> the verdict if it is) or
  answers no without asking; \<open>heResolve\<close> is \<open>filepath.EvalSymlinks\<close>.
\<close>

record HealerEnv =
  heRoots :: "goerr + gotext list"
  heOnline :: "gotext \<Rightarrow> bool"
  heFix :: "gotext \<Rightarrow> gotext \<Rightarrow> gotext \<Rightarrow> OutputPath \<Rightarrow> OutputPath option"
  heStale :: "OutputPath \<Rightarrow> goerr + (gotext \<times> bool) option"
  heSource :: "goerr + SourceState"
  heResolve :: "gotext \<Rightarrow> gotext option"

text \<open>What the worker remembers of the roots between passes.\<close>

record RootState =
  rsCache :: "gotext \<Rightarrow> (bool \<times> instant) option"
  rsList :: "(gotext list \<times> instant) option"
  rsAlias :: "gotext \<Rightarrow> gotext option"
  rsSpellings :: "gotext list"
  rsOwner :: "gotext \<Rightarrow> gotext option"
  rsNotes :: "gotext \<Rightarrow> (instant \<times> int) option"

section \<open>The worker\<close>

datatype WorkerEvent =
  EvHit gotext | EvMiss gotext | EvAttempts int "LaneAttempt list" | EvSource gotext gotext
| EvWrote OutputPath Song | EvStored Track Song | EvBanked gotext AudioFacts | EvDuration gotext int int int

text \<open>
  \<open>wkDetLane\<close> is the detector lane, \<open>wkDetBreaker\<close> the breaker that outlives a detector switched off;
  \<open>wkLanes\<close> are the provider lanes, the first the primary one.
\<close>

record Worker =
  wkQueue :: DBQueue
  wkDB :: QDB
  wkCalls :: nat
  wkTicks :: nat
  wkCache :: CacheRepo
  wkLanes :: "Lane list"
  wkDetLane :: "Lane option"
  wkDetBreaker :: "breaker option"
  wkWorld :: World
  wkMode :: Mode
  wkRaceWait :: duration
  wkOrdering :: gotext
  wkGuard :: "ScriptGuard option"
  wkBlocks :: "BlockChecker option"
  wkMemo :: "memoDetector option"
  wkDetectDefault :: bool
  wkEnrich :: bool
  wkVerifyBelow :: float64
  wkBaseBackoff :: duration
  wkMaxBackoff :: duration
  wkCircuitBase :: duration
  wkOpenDuration :: duration
  wkMissBase :: duration
  wkMissCap :: duration
  wkMaxMiss :: int
  wkProvidersVersion :: int
  wkTitleRule :: bool
  wkTitleRuleWeak :: bool
  wkRecorder :: bool
  wkSourceEvents :: bool
  wkRoots :: RootState
  wkFailures :: int
  wkContacted :: bool
  wkLastFail :: "int \<times> gotext \<times> gotext"
  wkLog :: "WorkerEvent list"

text \<open>
  The environments of one dispatch, lane by lane: those of an ordered one, and those of a parallel
  one with the schedule of its race. \<open>deInfer\<close> is live inference by the detector.
\<close>

record DispatchEnv =
  deOrdered :: "nat \<Rightarrow> LaneEnv \<times> goerr option"
  dePre :: "nat \<Rightarrow> LaneEnv \<times> goerr option"
  deRace :: "nat \<Rightarrow> LaneEnv"
  dePost :: "nat \<Rightarrow> LaneEnv \<times> goerr option"
  deEvents :: "raceEvent list"
  deStart :: "goerr option"
  deEnd :: "goerr option"
  deInfer :: "gotext \<Rightarrow> goerr + DetectResult"

text \<open>
  \<open>peClock n\<close> is the \<open>n\<close>-th reading of the worker's own clock, \<open>peCalls n\<close> the instant of the \<open>n\<close>-th call
  of the queue and the error of the driver, if any (a call that retries a locked database ends with
  one or with one run). \<open>peTitleSettles\<close>, \<open>peTitleWeak\<close> and \<open>peKaraoke\<close> are the verdicts of \<open>internal/instrumentaltitle\<close> on a
  title, \<open>peTransient\<close> that of \<open>internal/failsig\<close> on an error text, \<open>peGuardReason\<close> the reason text of the
  script guard, \<open>peVerify\<close> the verifier (its similarity as printed).
\<close>

record PassEnv =
  peKey :: "gotext \<Rightarrow> gotext"
  peCtx :: "goerr option"
  peCtxEnd :: "goerr option"
  peClock :: "nat \<Rightarrow> instant"
  peGate :: "nat \<Rightarrow> instant"
  peCalls :: "nat \<Rightarrow> instant \<times> goerr option"
  peWall :: int
  peRandom :: "int \<Rightarrow> int"
  peMeta :: MetaEnv
  peHealer :: "HealerEnv option"
  peStat :: "gotext \<Rightarrow> statResult"
  peWriter :: WriterEnv
  peDispatch :: DispatchEnv
  peWordDispatch :: DispatchEnv
  peEarly :: LaneEnv
  peEarlyInfer :: "gotext \<Rightarrow> goerr + DetectResult"
  peLookupFaults :: "goerr option \<times> goerr option"
  peStoreFault :: "goerr option"
  peEncode :: "Song \<Rightarrow> goerr + gotext"
  peDecode :: "gotext \<Rightarrow> Track \<Rightarrow> Song"
  peVerify :: "(Song \<Rightarrow> goerr + bool \<times> gotext) option"
  peGuardReason :: "Song \<Rightarrow> gotext"
  peTitleSettles :: "gotext \<Rightarrow> gotext \<Rightarrow> gotext \<Rightarrow> gotext \<Rightarrow> bool \<times> bool"
  peTitleWeak :: "gotext \<Rightarrow> gotext \<Rightarrow> bool"
  peKaraoke :: "gotext \<Rightarrow> gotext \<Rightarrow> bool"
  peTransient :: "gotext \<Rightarrow> bool"
  peVersion :: gotext

end
