(* ===== verification/WorkerOps.thy ===== *)
theory WorkerOps
  imports WorkerBase
begin

text \<open>
  The operations a pass of the worker is built from: the calls of the queue, what is recorded, the
  classes of failures, the verdicts on a song that need no state, and the recording identity that is
  re-read from the audio file (\<open>worker.go\<close>, \<open>failure_class.go\<close>).
\<close>

section \<open>The monad\<close>

abbreviation ret :: "'a \<Rightarrow> (Worker, 'a) state" where "ret \<equiv> State_Monad.return"

definition reads :: "(Worker \<Rightarrow> 'a) \<Rightarrow> (Worker, 'a) state" where
  "reads f = State (\<lambda>w. (f w, w))"

definition alters :: "(Worker \<Rightarrow> Worker) \<Rightarrow> (Worker, unit) state" where
  "alters f = State (\<lambda>w. ((), f w))"

definition emit :: "WorkerEvent \<Rightarrow> (Worker, unit) state" where
  "emit ev = alters (\<lambda>w. w\<lparr>wkLog := wkLog w @ [ev]\<rparr>)"

fun forEach :: "('b \<Rightarrow> (Worker, unit) state) \<Rightarrow> 'b list \<Rightarrow> (Worker, unit) state" where
  "forEach f [] = ret ()"
| "forEach f (x # xs) = do { _ \<leftarrow> f x; forEach f xs }"

text \<open>A reading of \<open>w.now()\<close>.\<close>

definition tick :: "PassEnv \<Rightarrow> (Worker, instant) state" where
  "tick env = State (\<lambda>w. (peClock env (wkTicks w), w\<lparr>wkTicks := wkTicks w + 1\<rparr>))"

definition queueErr :: "QueueError \<Rightarrow> goerr" where
  "queueErr e = (case e of ErrNoRows \<Rightarrow> Sentinel SqlErrNoRows
     | ErrInvalid msg \<Rightarrow> Opaque msg | _ \<Rightarrow> Opaque (lit ''queue: refused''))"

text \<open>
  A call of the queue: it happens at the next instant of the pass's calls and either fails in the
  driver, leaving the tables as they were, or runs.
\<close>

definition qOp :: "PassEnv \<Rightarrow> (DBQueue \<Rightarrow> instant \<Rightarrow> QDB \<Rightarrow> (QueueError + 'a) \<times> QDB) \<Rightarrow> (Worker, goerr + 'a) state" where
  "qOp env f = State (\<lambda>w.
     case peCalls env (wkCalls w) of (now, fault) \<Rightarrow>
       (case fault of
          Some e \<Rightarrow> (Inl e, w\<lparr>wkCalls := wkCalls w + 1\<rparr>)
        | None \<Rightarrow> (case f (wkQueue w) now (wkDB w) of
            (res, db) \<Rightarrow> (map_sum queueErr id res, w\<lparr>wkCalls := wkCalls w + 1, wkDB := db\<rparr>))))"

definition qVal :: "PassEnv \<Rightarrow> (DBQueue \<Rightarrow> instant \<Rightarrow> QDB \<Rightarrow> 'a \<times> QDB) \<Rightarrow> (Worker, goerr + 'a) state" where
  "qVal env f = qOp env (\<lambda>q now db. case f q now db of (a, db') \<Rightarrow> (Inr a, db'))"

definition qStamp :: "PassEnv \<Rightarrow> (QDB \<Rightarrow> QDB) \<Rightarrow> (Worker, goerr + unit) state" where
  "qStamp env f = qOp env (\<lambda>q now db. (Inr (), f db))"

definition errOf :: "goerr + 'a \<Rightarrow> goerr option" where
  "errOf r = (case r of Inl e \<Rightarrow> Some e | Inr _ \<Rightarrow> None)"

text \<open>\<open>fmt.Errorf\<close> with the wrapped error last.\<close>

definition wrapErr :: "gotext \<Rightarrow> goerr + 'a \<Rightarrow> goerr option" where
  "wrapErr msg r = (case r of Inl e \<Rightarrow> Some (Wrapf msg e []) | Inr _ \<Rightarrow> None)"

section \<open>The claimed item\<close>

definition itemID :: "WorkItem \<Rightarrow> int" where "itemID item = rowid (fst item)"
definition itemSource :: "WorkItem \<Rightarrow> gotext" where "itemSource item = source_path (paths (fst item))"
definition upgradeItem :: "WorkItem \<Rightarrow> bool" where "upgradeItem item = upgrade_queued (fst item)"
definition wordItem :: "WorkItem \<Rightarrow> bool" where "wordItem item = wordQueued (fst item)"

definition itemTrack :: "WorkItem \<Rightarrow> Track" where
  "itemTrack item = (let p = paths (fst item) in
     zeroTrack\<lparr>ArtistName := artist p, TrackName := title p, AlbumName := album p, AlbumArtist := album_artist p\<rparr>)"

definition outputPaths :: "WorkItem \<Rightarrow> OutputPath list" where
  "outputPaths item = (if snd item \<noteq> [] then snd item
     else [\<lparr>opOutdir = outdir (paths (fst item)), opFilename = filename (paths (fst item))\<rparr>])"

definition blockKey :: "PassEnv \<Rightarrow> WorkItem \<Rightarrow> blockIdentity" where
  "blockKey env item = Some (IdentityKeys (peKey env) (itemTrack item))"

definition withoutPaths :: "OutputPath list \<Rightarrow> OutputPath list \<Rightarrow> OutputPath list" where
  "withoutPaths ps missing = (if missing = [] then ps else filter (\<lambda>p. p \<notin> set missing) ps)"

section \<open>Failure classes\<close>

text \<open>
  A cause with the class attached to it. \<open>scrubWritePaths\<close> attaches the class of writes; the paths it
  strips from the text are left out of the errors of the writer here.
\<close>

type_synonym wcause = "goerr \<times> FailureClass option"

definition plain :: "goerr \<Rightarrow> wcause" where "plain e = (e, None)"

definition scrubWritePaths :: "goerr \<Rightarrow> wcause" where "scrubWritePaths e = (e, Some FailureWrite)"

definition wrapCause :: "gotext \<Rightarrow> wcause \<Rightarrow> wcause" where
  "wrapCause msg c = (Wrapf msg (fst c) [], snd c)"

fun asPartialFailure :: "goerr \<Rightarrow> bool" where
  "asPartialFailure (PartialFailureError _) \<longleftrightarrow> True"
| "asPartialFailure (Wrapf _ e _) \<longleftrightarrow> asPartialFailure e"
| "asPartialFailure (Joined a b) \<longleftrightarrow> asPartialFailure a \<or> asPartialFailure b"
| "asPartialFailure (LaneOutageError c) \<longleftrightarrow> (case c of None \<Rightarrow> False | Some e \<Rightarrow> asPartialFailure e)"
| "asPartialFailure _ \<longleftrightarrow> False"

fun asRefusedUntried :: "goerr \<Rightarrow> (gotext \<times> bool) option" where
  "asRefusedUntried (RefusedUntriedError lane _ blocked) = Some (lane, blocked)"
| "asRefusedUntried (Wrapf _ e _) = asRefusedUntried e"
| "asRefusedUntried (Joined a b) = (case asRefusedUntried a of None \<Rightarrow> asRefusedUntried b | Some x \<Rightarrow> Some x)"
| "asRefusedUntried (LaneOutageError c) = (case c of None \<Rightarrow> None | Some e \<Rightarrow> asRefusedUntried e)"
| "asRefusedUntried (PartialFailureError e) = asRefusedUntried e"
| "asRefusedUntried _ = None"

definition containsText :: "gotext \<Rightarrow> gotext \<Rightarrow> bool" where
  "containsText needle s \<longleftrightarrow> (\<exists>i \<in> set [0 ..< length s + 1]. take (length needle) (drop i s) = needle)"

definition localLock :: "goerr \<Rightarrow> bool" where
  "localLock cause = (let s = toLower (errText cause)
     in containsText (lit ''database is locked'') s \<or> containsText (lit ''sqlite_busy'') s)"

definition failureClass :: "PassEnv \<Rightarrow> wcause \<Rightarrow> FailureClass" where
  "failureClass env c =
     (case snd c of Some cls \<Rightarrow> cls
      | None \<Rightarrow>
         (if errorsIs (fst c) WrkNoWordAnswer then FailureMiss
          else case classifyErr (fst c) of
            OutcomeBenignMiss \<Rightarrow> FailureMiss
          | OutcomeAuthRateLimit \<Rightarrow> FailureThrottle
          | OutcomeUnavailable \<Rightarrow> FailureThrottle
          | OutcomeLaneNotReady \<Rightarrow> FailureThrottle
          | OutcomeRefusedUntried \<Rightarrow> FailureThrottle
          | OutcomeLaneOutage \<Rightarrow> FailureNetwork
          | OutcomeTransport \<Rightarrow>
              (if IsRefusal (fst c) then FailureThrottle
               else if localLock (fst c) then FailureOther
               else if peTransient env (errText (fst c)) then FailureNetwork
               else FailureOther)
          | _ \<Rightarrow> FailureOther))"

definition classed :: "PassEnv \<Rightarrow> wcause \<Rightarrow> Cause option" where
  "classed env c = Some \<lparr>causeText = errText (fst c), causeClass = Some (failureClass env c)\<rparr>"

section \<open>What a song is settled as\<close>

definition outcomeTypeSynced :: gotext where "outcomeTypeSynced = lit ''synced''"
definition outcomeTypeUnsynced :: gotext where "outcomeTypeUnsynced = lit ''unsynced''"
definition outcomeTypeInstrumental :: gotext where "outcomeTypeInstrumental = lit ''instrumental''"

definition outcomeTypeFromSong :: "Song \<Rightarrow> gotext" where
  "outcomeTypeFromSong song =
     (case fst (DecidePromotion song) of
        Quarantine \<Rightarrow> []
      | DemoteToUnsynced \<Rightarrow> outcomeTypeUnsynced
      | PromoteAsIs \<Rightarrow>
          (if Instrumental (STrack song) = 1 then outcomeTypeInstrumental
           else if Subtitles song \<noteq> [] then outcomeTypeSynced
           else if LyricsBody song \<noteq> [] then outcomeTypeUnsynced
           else []))"

fun timingName :: "TimingOutcome \<Rightarrow> gotext" where
  "timingName Ok = lit ''ok''"
| "timingName MisSynced = lit ''mis_synced''"
| "timingName Categorical = lit ''categorical''"
| "timingName UnknownDuration = lit ''unknown_duration''"
| "timingName Degenerate = lit ''degenerate''"

definition timingRecordFromSong :: "Song \<Rightarrow> int \<Rightarrow> instant \<Rightarrow> TimingRecord" where
  "timingRecordFromSong song durationSeconds now =
     (if Subtitles song = []
      then \<lparr>trOutcome = [], trMagnitude = Fin 0, trRatio = Fin 0, trMeasured = False, trEvaluatedAt = 0, trSource = [],
            trGeneration = None, trFileState = None\<rparr>
      else case Evaluate song durationSeconds of (outcome, mag) \<Rightarrow>
        \<lparr>trOutcome = timingName outcome, trMagnitude = OverrunSeconds mag, trRatio = Ratio mag, trMeasured = Measured mag,
         trEvaluatedAt = now, trSource = lit ''fetch'', trGeneration = None, trFileState = None\<rparr>)"

definition provenanceFromSong :: "PassEnv \<Rightarrow> Song \<Rightarrow> CompletionProvenance" where
  "provenanceFromSong env song = \<lparr>cpISRC = ISRC (STrack song), cpMBID = RecordingMBID (STrack song),
     cpFetchedAt = FetchedAt song, cpWriterVersion = peVersion env\<rparr>"

definition TitleRuleLaneName :: gotext where "TitleRuleLaneName = lit ''title-rule''"

definition RecordedUpstream :: "Song \<Rightarrow> gotext" where
  "RecordedUpstream song =
     (if WinningLane song = [] \<or> WinningLane song = detectorLaneName \<or> DetectorVersion song \<noteq> [] then [] else Upstream song)"

definition contactedProvider :: "Song \<Rightarrow> bool" where
  "contactedProvider song \<longleftrightarrow> LaneAttempts song = [] \<or> (\<exists>a \<in> set (LaneAttempts song). \<not> la_Local a)"

definition deliveredEvent :: "gotext \<Rightarrow> gotext \<Rightarrow> gotext" where
  "deliveredEvent outcome tier =
     (if outcome = outcomeTypeInstrumental then lit ''instrumental''
      else if outcome = outcomeTypeUnsynced then lit ''unsynced''
      else if outcome = outcomeTypeSynced then tier else [])"

definition guardReject :: "Worker \<Rightarrow> Song \<Rightarrow> bool" where
  "guardReject w song = (case wkGuard w of None \<Rightarrow> False | Some g \<Rightarrow> Enabled g \<and> \<not> Accept g song)"

text \<open>\<open>jaroWinkler_total\<close>: the two scores always exist.\<close>

definition Confidence :: "(gotext \<Rightarrow> gotext) \<Rightarrow> Track \<Rightarrow> Track \<Rightarrow> float64" where
  "Confidence nkey want got =
     (case (MatchConfidence nkey (ArtistName want) (ArtistName got), MatchConfidence nkey (TrackName want) (TrackName got)) of
        (Some a, Some t) \<Rightarrow> fdiv (fadd a t) (Fin 2) | _ \<Rightarrow> NaN)"

definition verify :: "PassEnv \<Rightarrow> Worker \<Rightarrow> WorkItem \<Rightarrow> Song \<Rightarrow> float64 \<Rightarrow> goerr option" where
  "verify env w item song confidence =
     (case peVerify env of None \<Rightarrow> None
      | Some f \<Rightarrow>
         (if itemSource item = [] \<or> fle (wkVerifyBelow w) confidence then None
          else case f song of
            Inl e \<Rightarrow> Some (Wrapf (lit ''worker: verify lyrics: '') e [])
          | Inr (accepted, similarity) \<Rightarrow>
              (if accepted then None
               else Some (Wrapf [] (Sentinel WrkVerificationRejected) (lit '': similarity '' @ similarity)))))"

text \<open>The lowest rung among the kept outputs; of equals, the first.\<close>

definition lowestKept :: "KeptError list \<Rightarrow> KeptError" where
  "lowestKept kept = foldl (\<lambda>low k. if rungRank (keOnDisk k) < rungRank (keOnDisk low) then k else low) (hd kept) (tl kept)"

definition keptStamps :: "KeptError list \<Rightarrow> gotext \<times> gotext" where
  "keptStamps kept =
     (let low = lowestKept kept
      in if keOnDisk low = RungNone then ([], [])
         else if keSynced low \<and> \<not> keJudged low then (outcomeTypeSynced, [])
         else if keSynced low \<and> keOnDisk low = RungWord then (outcomeTypeSynced, SyncTierWord)
         else if keSynced low \<and> keOnDisk low = RungLine then (outcomeTypeSynced, SyncTierLine)
         else if keSynced low then (outcomeTypeSynced, SyncTierUnsynced)
         else if keOnDisk low = RungInstrumental then (outcomeTypeInstrumental, [])
         else (outcomeTypeUnsynced, []))"

definition verdictGeneration :: "Worker \<Rightarrow> bool \<Rightarrow> int option" where
  "verdictGeneration w cacheHit = (if cacheHit then None else Some (wkProvidersVersion w))"

definition usesCache :: "WorkItem \<Rightarrow> bool" where
  "usesCache item \<longleftrightarrow> edition (fst item) \<noteq> EditionInstrumental"

definition wordSyncOff :: "PassEnv \<Rightarrow> bool" where
  "wordSyncOff env = (case wrLanding (peWriter env) of None \<Rightarrow> False | Some (enabled, _) \<Rightarrow> \<not> enabled)"

definition wordsLandedOver :: "(Song \<Rightarrow> OutputPath \<Rightarrow> bool) \<Rightarrow> Song \<Rightarrow> OutputPath list \<Rightarrow> bool" where
  "wordsLandedOver landed song ps \<longleftrightarrow> ps \<noteq> [] \<and> (\<forall>p \<in> set ps. landed song p)"

definition wordGeneration :: "Worker \<Rightarrow> int" where
  "wordGeneration w = WordGeneration (map lname (wkLanes w))"

definition ordinaryWordVerdict :: "PassEnv \<Rightarrow> OutputPath list \<Rightarrow> Song \<Rightarrow> WordTimingState option" where
  "ordinaryWordVerdict env ps song =
     (case wrLanding (peWriter env) of None \<Rightarrow> None
      | Some (enabled, landed) \<Rightarrow>
         (if \<not> enabled \<or> outcomeTypeFromSong song \<noteq> outcomeTypeSynced \<or> \<not> WordCapable (WinningLane song) then None
          else if wordsLandedOver landed song ps then Some WordTimingServed
          else if WordAns song = WordAnswerAbsent then Some WordTimingAbsent
          else None))"

definition ordinarySyncTier :: "PassEnv \<Rightarrow> OutputPath list \<Rightarrow> Song \<Rightarrow> gotext" where
  "ordinarySyncTier env ps song =
     (if outcomeTypeFromSong song \<noteq> outcomeTypeSynced then []
      else case wrLanding (peWriter env) of
        Some (_, landed) \<Rightarrow> (if wordsLandedOver landed song ps then SyncTierWord else SyncTierLine)
      | None \<Rightarrow> SyncTierLine)"

definition wordRecheckWritable :: "Song \<Rightarrow> int \<Rightarrow> bool" where
  "wordRecheckWritable song audioSeconds \<longleftrightarrow>
     Instrumental (STrack song) \<noteq> 1 \<and> QualityOf song = QualityWordSynced \<and> HasQualifyingWords song \<and>
     fst (DecidePromotion (song\<lparr>AudioDurationSeconds := audioSeconds\<rparr>)) = PromoteAsIs"

section \<open>Recording\<close>

definition recordSourceEvent :: "gotext \<Rightarrow> gotext \<Rightarrow> (Worker, unit) state" where
  "recordSourceEvent lane event = do {
     on \<leftarrow> reads wkSourceEvents;
     if lane = [] \<or> event = [] \<or> \<not> on then ret () else emit (EvSource lane event) }"

definition recordHitCounter :: "gotext \<Rightarrow> (Worker, unit) state" where
  "recordHitCounter lane =
     (if lane = [] then ret ()
      else do {
        _ \<leftarrow> recordSourceEvent lane (lit ''hit'');
        on \<leftarrow> reads wkRecorder;
        if on then emit (EvHit lane) else ret () })"

definition recordMiss :: "LaneAttempt \<Rightarrow> (Worker, unit) state" where
  "recordMiss a =
     (if la_Hit a then ret ()
      else do {
        _ \<leftarrow> recordSourceEvent (la_Lane a) (lit ''miss'');
        on \<leftarrow> reads wkRecorder;
        if on then emit (EvMiss (la_Lane a)) else ret () })"

definition recordMisses :: "LaneAttempt list \<Rightarrow> (Worker, unit) state" where
  "recordMisses attempted = forEach recordMiss attempted"

definition recordLaneAttempts :: "int \<Rightarrow> LaneAttempt list \<Rightarrow> (Worker, unit) state" where
  "recordLaneAttempts i attempted = do {
     on \<leftarrow> reads wkRecorder;
     if \<not> on \<or> attempted = [] then ret () else emit (EvAttempts i attempted) }"

section \<open>Stamps before a settle\<close>

text \<open>An advisory stamp: its error is logged and dropped.\<close>

definition advisory :: "(Worker, goerr + 'a) state \<Rightarrow> (Worker, unit) state" where
  "advisory m = do { _ \<leftarrow> m; ret () }"

definition stampLane :: "PassEnv \<Rightarrow> WorkItem \<Rightarrow> Song \<Rightarrow> (Worker, unit) state" where
  "stampLane env item song =
     (if WinningLane song = [] then ret ()
      else advisory (qStamp env (SetProviderLane (itemID item) (WinningLane song) (RecordedUpstream song))))"

definition recordHit :: "PassEnv \<Rightarrow> WorkItem \<Rightarrow> gotext \<Rightarrow> (Worker, unit) state" where
  "recordHit env item lane =
     (if lane = [] then ret ()
      else do { _ \<leftarrow> recordHitCounter lane; stampLane env item (zeroSong\<lparr>WinningLane := lane\<rparr>) })"

definition stampCompletionProvenance :: "PassEnv \<Rightarrow> WorkItem \<Rightarrow> Song \<Rightarrow> (Worker, unit) state" where
  "stampCompletionProvenance env item song =
     advisory (qStamp env (SetCompletionProvenance (itemID item) (provenanceFromSong env song)))"

definition stampTimingOutcome :: "PassEnv \<Rightarrow> WorkItem \<Rightarrow> Song \<Rightarrow> int \<Rightarrow> int option \<Rightarrow> (Worker, unit) state" where
  "stampTimingOutcome env item song durationSeconds generation =
     do {
     now \<leftarrow> tick env;
     let rec = timingRecordFromSong song durationSeconds now;
     if trOutcome rec = [] then ret ()
     else advisory (qOp env (\<lambda>q now. SetTimingOutcome (itemID item) (rec\<lparr>trGeneration := generation\<rparr>))) }"

definition clearWordTiming :: "PassEnv \<Rightarrow> WorkItem \<Rightarrow> (Worker, unit) state" where
  "clearWordTiming env item =
     (if word_timing_state (word (fst item)) \<notin> {Some WordTimingServed, Some WordTimingAbsent} then ret ()
      else advisory (qStamp env (ClearWordTimingState (itemID item))))"

definition stampWordTiming :: "PassEnv \<Rightarrow> WorkItem \<Rightarrow> OutputPath list \<Rightarrow> Song \<Rightarrow> (Worker, unit) state" where
  "stampWordTiming env item ps song =
     (case ordinaryWordVerdict env ps song of
        None \<Rightarrow> clearWordTiming env item
      | Some st \<Rightarrow> do {
          gen \<leftarrow> reads wordGeneration;
          r \<leftarrow> qOp env (\<lambda>q now. SetWordTimingState now (itemID item) st gen 0);
          if \<not> isl r \<or> word_timing_state (word (fst item)) = Some st then ret () else clearWordTiming env item })"

definition setSyncTier :: "PassEnv \<Rightarrow> WorkItem \<Rightarrow> gotext \<Rightarrow> (Worker, goerr + unit) state" where
  "setSyncTier env item tier = qOp env (\<lambda>q now. SetSyncTier (itemID item) tier)"

definition clearSyncTier :: "PassEnv \<Rightarrow> WorkItem \<Rightarrow> (Worker, unit) state" where
  "clearSyncTier env item = advisory (setSyncTier env item [])"

definition stampOrClearSyncTier :: "PassEnv \<Rightarrow> WorkItem \<Rightarrow> gotext \<Rightarrow> (Worker, goerr option) state" where
  "stampOrClearSyncTier env item tier = do {
     r \<leftarrow> setSyncTier env item tier;
     case r of Inr _ \<Rightarrow> ret None
     | Inl e \<Rightarrow> do {
         r' \<leftarrow> setSyncTier env item [];
         case r' of Inr _ \<Rightarrow> ret None
         | Inl e' \<Rightarrow> ret (Some (Wrapf (lit ''worker: stamp and clear sync tier for item '' @ itoa (itemID item)
             @ lit '' both failed: '') (Joined e e') [])) }}"

definition stampDetectorMissTelemetry :: "PassEnv \<Rightarrow> WorkItem \<Rightarrow> (Worker, unit) state" where
  "stampDetectorMissTelemetry env item = do {
     memo \<leftarrow> reads wkMemo;
     case memo of None \<Rightarrow> ret ()
     | Some m \<Rightarrow>
        (case lastInference m of (res, fresh) \<Rightarrow>
          (if \<not> fresh \<or> dr_Instrumental res \<or> dr_Version res = [] \<or> \<not> dr_Reusable res then ret ()
           else advisory (qStamp env (SetInstrumentalResult (itemID item) 0
             \<lparr>telMusicSum = dr_Confidence res, telVocalPeak = dr_VocalConfidence res, telSpeechMean = dr_SpeechConfidence res,
              telVocalClass = dr_WinningVocalClass res, telDetectorVersion = dr_Version res,
              telGateComplete = dr_Reusable res\<rparr>)))) }"

definition telFloat :: "float64 option \<Rightarrow> float64" where
  "telFloat f = (case f of None \<Rightarrow> Fin 0 | Some x \<Rightarrow> x)"

definition storedScores :: "WorkItem \<Rightarrow> storedTelemetry option" where
  "storedScores item =
     (let r = fst item; t = telemetry r
      in case detector_version t of
           Some v \<Rightarrow> (if instrumental_result r = None then None
             else Some \<lparr>stVersion = v, stMusicSum = telFloat (music_sum t), stVocalPeak = telFloat (vocal_peak t),
               stSpeechMean = telFloat (speech_mean t), stVocalClass = orEmpty (vocal_class t),
               stGateComplete = (gate_complete t = Some True)\<rparr>)
         | None \<Rightarrow> None)"

definition primeDetectorMemo :: "WorkItem \<Rightarrow> (Worker, unit) state" where
  "primeDetectorMemo item = alters (\<lambda>w. w\<lparr>wkMemo := map_option (prime (storedScores item)) (wkMemo w)\<rparr>)"

end
