(* ===== verification/WorkerSettle.thy ===== *)
theory WorkerSettle
  imports WorkerOps
begin

text \<open>
  How a pass of the worker ends for the row it holds: the settles, failures, deferrals and releases
  of \<open>worker.go\<close> and \<open>blocked.go\<close>, each with the error it returns to the run loop.
\<close>

definition upgradeMaxAttempts :: int where "upgradeMaxAttempts = 3"
definition maxRefusedWaits :: int where "maxRefusedWaits = 3"
definition goneConfirmAfter :: duration where "goneConfirmAfter = 24 * hour"
definition defaultCircuitBackoffBase :: duration where "defaultCircuitBackoffBase = 60 * second"
definition defaultCircuitOpenDuration :: duration where "defaultCircuitOpenDuration = 30 * minute"

definition noFailures :: "(Worker, unit) state" where
  "noFailures = alters (\<lambda>w. w\<lparr>wkFailures := 0\<rparr>)"

definition notContacted :: "(Worker, unit) state" where
  "notContacted = alters (\<lambda>w. w\<lparr>wkContacted := False\<rparr>)"

text \<open>\<open>fmt.Errorf\<close> of a message with the item's number in it.\<close>

definition itemMsg :: "char list \<Rightarrow> WorkItem \<Rightarrow> char list \<Rightarrow> gotext" where
  "itemMsg before item after = lit before @ itoa (itemID item) @ lit after"

definition releaseItem :: "PassEnv \<Rightarrow> WorkItem \<Rightarrow> char list \<Rightarrow> char list \<Rightarrow> (Worker, goerr option) state" where
  "releaseItem env item before after = do {
     r \<leftarrow> qOp env (\<lambda>q now. Release (itemID item));
     ret (wrapErr (itemMsg before item after) r) }"

section \<open>Failing\<close>

definition failPass :: "PassEnv \<Rightarrow> WorkItem \<Rightarrow> wcause \<Rightarrow> bool \<Rightarrow> (Worker, goerr option) state" where
  "failPass env item cause landed =
     (if isCanceled (peCtxEnd env) \<and> errorsIs (fst cause) CtxCanceled
      then releaseItem env item ''worker: release item '' '' after shutdown: ''
      else do {
        settled \<leftarrow>
          (if upgradeItem item \<and> \<not> landed \<and>
              (errorsIs (fst cause) WrkVerificationRejected \<or> attempts (fst item) + 1 \<ge> upgradeMaxAttempts)
           then do {
             r \<leftarrow> qVal env (\<lambda>q now. SettleUpgradeTrip q (itemID item) (errorsIs (fst cause) WrkVerificationRejected));
             ret (r = Inr True) }
           else ret False);
        if settled then ret None
        else do {
          _ \<leftarrow> alters (\<lambda>w. w\<lparr>wkFailures := wkFailures w + 1,
                 wkLastFail := (itemID item, artist (paths (fst item)), title (paths (fst item)))\<rparr>);
          r \<leftarrow> qOp env (\<lambda>q now. failOnce q now (itemID item) (classed env cause));
          ret (wrapErr (itemMsg ''worker: fail item '' item '' after '' @ errText (fst cause) @ lit '': '') r) } })"

definition fail :: "PassEnv \<Rightarrow> WorkItem \<Rightarrow> wcause \<Rightarrow> (Worker, goerr option) state" where
  "fail env item cause = failPass env item cause False"

datatype capSettle = capNever | capKept | capLanded

definition failStuckItem :: "PassEnv \<Rightarrow> WorkItem \<Rightarrow> capSettle \<Rightarrow> goerr \<Rightarrow> (Worker, goerr option) state" where
  "failStuckItem env item how cause = do {
     settled \<leftarrow>
       (if how \<noteq> capNever \<and> upgradeItem item \<and> attempts (fst item) + 1 \<ge> upgradeMaxAttempts
        then do {
          r \<leftarrow> qVal env (\<lambda>q now. SettleStuckUpgradeTrip q now (itemID item) (how = capLanded));
          ret (r = Inr True) }
        else ret False);
     if settled then ret None
     else do {
       _ \<leftarrow> alters (\<lambda>w. w\<lparr>wkFailures := wkFailures w + 1\<rparr>);
       r \<leftarrow> qOp env (\<lambda>q now. failOnce q now (itemID item) (classed env (plain cause)));
       case r of
         Inl e \<Rightarrow> ret (Some (Wrapf (itemMsg ''worker: item '' item '' and mark failed: '') (Joined cause e) []))
       | Inr _ \<Rightarrow> ret (Some (Wrapf (itemMsg ''worker: item '' item '' (marked failed): '') cause [])) } }"

section \<open>Upgrade trips\<close>

definition settleUpgradeTripAnswered :: "PassEnv \<Rightarrow> WorkItem \<Rightarrow> bool \<Rightarrow> (Worker, goerr option) state" where
  "settleUpgradeTripAnswered env item answer = do {
     r \<leftarrow> qVal env (\<lambda>q now. SettleUpgradeTrip q (itemID item) answer);
     case r of
       Inl e \<Rightarrow> fail env item (plain (Wrapf (itemMsg ''worker: settle upgrade trip '' item '': '') e []))
     | Inr _ \<Rightarrow> do { _ \<leftarrow> noFailures; ret None } }"

definition settleUpgradeTrip :: "PassEnv \<Rightarrow> WorkItem \<Rightarrow> (Worker, goerr option) state" where
  "settleUpgradeTrip env item = settleUpgradeTripAnswered env item True"

definition clearGoneMark :: "PassEnv \<Rightarrow> WorkItem \<Rightarrow> (Worker, unit) state" where
  "clearGoneMark env item = advisory (qStamp env (ClearSourceGone (itemID item)))"

text \<open>\<open>None\<close> is an item that was not handled; \<open>Some err\<close> ends the pass with \<open>err\<close>.\<close>

definition settleGoneTrip :: "PassEnv \<Rightarrow> HealerEnv \<Rightarrow> WorkItem \<Rightarrow> (Worker, goerr option option) state" where
  "settleGoneTrip env he item =
     (case heSource he of
        Inl e \<Rightarrow> ret None
      | Inr SourceUnproven \<Rightarrow> ret None
      | Inr SourcePresent \<Rightarrow> do { _ \<leftarrow> clearGoneMark env item; ret None }
      | Inr SourceGone \<Rightarrow> do {
          r \<leftarrow> qVal env (\<lambda>q now. SettleGoneUpgradeTrip now (itemID item) goneConfirmAfter);
          case r of
            Inl e \<Rightarrow> do {
              err \<leftarrow> fail env item (plain (Wrapf (itemMsg ''worker: settle item '' item '' with source gone: '') e []));
              ret (Some err) }
          | Inr _ \<Rightarrow> do { _ \<leftarrow> notContacted; ret (Some None) } })"

section \<open>Misses\<close>

definition requeueDeferred :: "PassEnv \<Rightarrow> WorkItem \<Rightarrow> wcause \<Rightarrow> (Worker, goerr option) state" where
  "requeueDeferred env item cause =
     (if upgradeItem item
      then (if errorsIs (fst cause) MxmTruncatedResponse then settleUpgradeTripAnswered env item False
            else settleUpgradeTrip env item)
      else do {
        w \<leftarrow> reads id;
        let misses = miss_count (fst item) + 1;
        let retire = (wkMaxMiss w > 0 \<and> misses \<ge> wkMaxMiss w);
        r \<leftarrow> (if retire then qOp env (\<lambda>q now. RetireMiss now (itemID item))
             else qOp env (\<lambda>q now. Defer now (itemID item) (MissCooldown misses (wkMissBase w) (wkMissCap w)) (classed env cause)));
        case r of
          Inl e \<Rightarrow> ret (if errorsIs e SqlErrNoRows then None
             else Some (Wrapf (itemMsg (if retire then ''worker: retire miss item '' else ''worker: requeue item '') item '' after ''
                 @ errText (fst cause) @ lit '': '') e []))
        | Inr _ \<Rightarrow> ret None })"

section \<open>Giving a row back uncharged\<close>

definition releaseAfterThrottle :: "PassEnv \<Rightarrow> WorkItem \<Rightarrow> (Worker, goerr option) state" where
  "releaseAfterThrottle env item = do {
     _ \<leftarrow> alters (\<lambda>w. w\<lparr>wkFailures := 0, wkLastFail := (0, [], [])\<rparr>);
     releaseItem env item ''worker: release item '' '' after circuit open: '' }"

text \<open>The shortest open window of a provider lane, over which a parked row waits.\<close>

definition openWindows :: "instant \<Rightarrow> Lane list \<Rightarrow> duration list" where
  "openWindows now lanes = filter (\<lambda>d. d > 0) (map (\<lambda>l. OpenUntil (lbreaker l) - now) lanes)"

definition providerReopenWait :: "PassEnv \<Rightarrow> (Worker, duration) state" where
  "providerReopenWait env = do {
     now \<leftarrow> tick env;
     w \<leftarrow> reads id;
     let shortest = foldl (\<lambda>wait d. if wait = 0 \<or> d < wait then d else wait) 0 (openWindows now (wkLanes w));
     ret (if shortest > 0 then shortest
          else if wkCircuitBase w > 0 then wkCircuitBase w else defaultCircuitBackoffBase) }"

definition parkUnaskedRow :: "PassEnv \<Rightarrow> WorkItem \<Rightarrow> (Worker, goerr option) state" where
  "parkUnaskedRow env item = do {
     wait \<leftarrow> providerReopenWait env;
     r \<leftarrow> qOp env (\<lambda>q now. ReleaseUntil now (itemID item) wait);
     case r of
       Inl e \<Rightarrow> ret (Some (Wrapf (itemMsg ''worker: park item '' item '' with no provider available: '') e []))
     | Inr _ \<Rightarrow> do { _ \<leftarrow> notContacted; ret None } }"

text \<open>\<open>None\<close>: the wait budget is spent and the pass goes on.\<close>

definition deferRefusedUntried :: "PassEnv \<Rightarrow> WorkItem \<Rightarrow> goerr \<Rightarrow> (Worker, goerr option option) state" where
  "deferRefusedUntried env item cause = do {
     wait \<leftarrow> reads wkOpenDuration;
     r \<leftarrow> qOp env (\<lambda>q now. deferRefusedOnce now (itemID item) wait maxRefusedWaits (errText cause));
     case r of
       Inl e \<Rightarrow>
         (if errorsIs e SqlErrNoRows then ret (Some None)
          else do {
            err \<leftarrow> fail env item (plain (Wrapf (itemMsg ''worker: defer timing-refused item '' item '': '') e []));
            ret (Some err) })
     | Inr True \<Rightarrow> do { _ \<leftarrow> noFailures; ret (Some None) }
     | Inr False \<Rightarrow> ret None }"

text \<open>A guarded settle that did not apply gives the row back; \<open>SettleInstrumental\<close> is treated apart.\<close>

definition settledOrReleased :: "PassEnv \<Rightarrow> WorkItem \<Rightarrow> char list \<Rightarrow> SettleOutcome \<Rightarrow> (Worker, goerr option) state" where
  "settledOrReleased env item before outcome =
     (if outcome = Settled then do { _ \<leftarrow> noFailures; ret None }
      else do {
        err \<leftarrow> releaseItem env item before '': '';
        case err of Some e \<Rightarrow> ret (Some e) | None \<Rightarrow> do { _ \<leftarrow> noFailures; ret None } })"

definition settleBlocked :: "PassEnv \<Rightarrow> WorkItem \<Rightarrow> (Worker, goerr option) state" where
  "settleBlocked env item =
     (if upgradeItem item then settleUpgradeTrip env item
      else do {
        _ \<leftarrow> stampDetectorMissTelemetry env item;
        r \<leftarrow> qVal env (\<lambda>q now. settleBlockedOnce now (itemID item));
        case r of
          Inl e \<Rightarrow> fail env item (plain (Wrapf (itemMsg ''worker: settle blocked item '' item '': '') e []))
        | Inr outcome \<Rightarrow> settledOrReleased env item ''worker: release unsettled blocked item '' outcome })"

definition settleGuardRejected :: "PassEnv \<Rightarrow> WorkItem \<Rightarrow> Song \<Rightarrow> (Worker, goerr option) state" where
  "settleGuardRejected env item song =
     (if upgradeItem item then settleUpgradeTrip env item
      else do {
        _ \<leftarrow> stampLane env item song;
        _ \<leftarrow> clearWordTiming env item;
        _ \<leftarrow> clearSyncTier env item;
        r \<leftarrow> qVal env (\<lambda>q now. settleGuardRejectedOnce now (itemID item) (peGuardReason env song));
        case r of
          Inl e \<Rightarrow> fail env item (plain (Wrapf (itemMsg ''worker: settle guard-rejected item '' item '': '') e []))
        | Inr outcome \<Rightarrow> settledOrReleased env item ''worker: release unsettled guard-rejected item '' outcome })"

section \<open>Kept files\<close>

definition completeKept :: "PassEnv \<Rightarrow> WorkItem \<Rightarrow> KeptError list \<Rightarrow> (Worker, goerr option) state" where
  "completeKept env item kept =
     (case keptStamps kept of (outcome, tier) \<Rightarrow> do {
        _ \<leftarrow> (if outcome = [] then ret () else advisory (qStamp env (SetOutcomeType (itemID item) outcome)));
        tierErr \<leftarrow> stampOrClearSyncTier env item tier;
        case tierErr of
          Some e \<Rightarrow> failStuckItem env item capNever e
        | None \<Rightarrow> do {
            r \<leftarrow> qOp env (\<lambda>q now. completeOnce q now (itemID item));
            case r of
              Inl e \<Rightarrow> failStuckItem env item capKept (Wrapf (itemMsg ''worker: complete kept item '' item '': '') e [])
            | Inr _ \<Rightarrow> do { _ \<leftarrow> noFailures; ret None } } })"

section \<open>The cache\<close>

definition store :: "PassEnv \<Rightarrow> Track \<Rightarrow> Song \<Rightarrow> (Worker, goerr option) state" where
  "store env track song =
     (case peEncode env song of
        Inl e \<Rightarrow> ret (Some (Wrapf (lit ''worker: encode song cache: '') e []))
      | Inr text \<Rightarrow> do {
          c \<leftarrow> reads wkCache;
          case Store (peKey env) (peStoreFault env) (ArtistName track) (TrackName track) (DurationBucket (TrackLength track)) text c of
            (err, c') \<Rightarrow> do {
              _ \<leftarrow> alters (\<lambda>w. w\<lparr>wkCache := c'\<rparr>);
              case err of
                Some e \<Rightarrow> ret (Some (Wrapf (lit ''worker: store cache: '') e []))
              | None \<Rightarrow> do { _ \<leftarrow> emit (EvStored track song); ret None } } })"

end
