(* ===== verification/WorkerRoots.thy ===== *)
theory WorkerRoots
  imports WorkerSettle
begin

text \<open>
  What a pass learns from the disk before it writes: the library roots and whether the root of the
  row is online, missing output directories and their repair, and the recording identity re-read
  from the audio file (\<open>worker.go\<close>; \<open>HealOutputPaths\<close> is in \<open>internal/prune/repair.go\<close>).
\<close>

definition rootOnlineTTL :: duration where "rootOnlineTTL = minute"
definition libraryOfflineWait :: duration where "libraryOfflineWait = 5 * minute"

definition onRoots :: "(RootState \<Rightarrow> RootState) \<Rightarrow> (Worker, unit) state" where
  "onRoots f = alters (\<lambda>w. w\<lparr>wkRoots := f (wkRoots w)\<rparr>)"

section \<open>Library roots\<close>

text \<open>The spellings under which a root is matched: as configured, and resolved where that differs.\<close>

fun aliasLoop :: "(gotext \<Rightarrow> gotext option) \<Rightarrow> gotext list \<Rightarrow> (gotext \<Rightarrow> gotext option)
    \<Rightarrow> gotext list \<times> (gotext \<Rightarrow> gotext option) \<Rightarrow> (gotext \<Rightarrow> gotext option) \<times> gotext list \<times> (gotext \<Rightarrow> gotext option)" where
  "aliasLoop resolveLink [] alias (spellings, owner) = (alias, spellings, owner)"
| "aliasLoop resolveLink (r # rs) alias (spellings, owner) =
     (let alias' = (case resolveLink (pathClean r) of None \<Rightarrow> alias | Some a \<Rightarrow> alias(r \<mapsto> a))
      in case alias' r of
           None \<Rightarrow> aliasLoop resolveLink rs alias' (spellings @ [r], owner)
         | Some a \<Rightarrow>
             (if a \<noteq> [] \<and> a \<noteq> pathClean r
              then aliasLoop resolveLink rs alias' (spellings @ [r, a], owner(a \<mapsto> r))
              else aliasLoop resolveLink rs alias' (spellings @ [r], owner)))"

definition refreshRootAliases :: "(gotext \<Rightarrow> gotext option) \<Rightarrow> gotext list \<Rightarrow> RootState \<Rightarrow> RootState" where
  "refreshRootAliases resolveLink roots rs =
     (case aliasLoop resolveLink roots (rsAlias rs) ([], Map.empty) of
        (alias, spellings, owner) \<Rightarrow> rs\<lparr>rsAlias := alias, rsSpellings := spellings, rsOwner := owner\<rparr>)"

definition libraryRoots :: "PassEnv \<Rightarrow> HealerEnv \<Rightarrow> (Worker, goerr + gotext list) state" where
  "libraryRoots env he = do {
     now \<leftarrow> tick env;
     rs \<leftarrow> reads wkRoots;
     let fetch = (case heRoots he of
         Inl e \<Rightarrow> ret (Inl e)
       | Inr roots \<Rightarrow> do {
           _ \<leftarrow> onRoots (\<lambda>rs. refreshRootAliases (heResolve he) roots (rs\<lparr>rsList := Some (roots, now)\<rparr>));
           ret (Inr roots) });
     case rsList rs of
       Some (roots, since) \<Rightarrow> if now - since < rootOnlineTTL then ret (Inr roots) else fetch
     | None \<Rightarrow> fetch }"

definition rootIsOnline :: "PassEnv \<Rightarrow> HealerEnv \<Rightarrow> gotext \<Rightarrow> (Worker, bool) state" where
  "rootIsOnline env he libRoot = do {
     now \<leftarrow> tick env;
     rs \<leftarrow> reads wkRoots;
     let probe = do {
       _ \<leftarrow> onRoots (\<lambda>rs. rs\<lparr>rsCache := (rsCache rs)(libRoot \<mapsto> (heOnline he libRoot, now))\<rparr>);
       ret (heOnline he libRoot) };
     case rsCache rs libRoot of
       Some (online, since) \<Rightarrow> if now - since < rootOnlineTTL then ret online else probe
     | None \<Rightarrow> probe }"

definition noteOffline :: "PassEnv \<Rightarrow> gotext \<Rightarrow> (Worker, unit) state" where
  "noteOffline env libRoot = do {
     now \<leftarrow> tick env;
     onRoots (\<lambda>rs. case rsNotes rs libRoot of
         None \<Rightarrow> rs\<lparr>rsNotes := (rsNotes rs)(libRoot \<mapsto> (now, 0))\<rparr>
       | Some (since, parked) \<Rightarrow>
           (if \<not> isZero since \<and> now - since < rootOnlineTTL then rs\<lparr>rsNotes := (rsNotes rs)(libRoot \<mapsto> (since, parked + 1))\<rparr>
            else rs\<lparr>rsNotes := (rsNotes rs)(libRoot \<mapsto> (now, 0))\<rparr>)) }"

text \<open>\<open>None\<close>: the pass goes on.\<close>

definition parkOffline :: "PassEnv \<Rightarrow> WorkItem \<Rightarrow> gotext \<Rightarrow> (Worker, goerr option) state" where
  "parkOffline env item libRoot = do {
     r \<leftarrow> qOp env (\<lambda>q now. ReleaseUntil now (itemID item) libraryOfflineWait);
     case r of
       Inl e \<Rightarrow> ret (Some (Wrapf (itemMsg ''worker: park item '' item '' with library root offline: '') e []))
     | Inr _ \<Rightarrow> do { _ \<leftarrow> noteOffline env libRoot; ret None } }"

definition parkIfLibraryOffline :: "PassEnv \<Rightarrow> WorkItem \<Rightarrow> (Worker, goerr option option) state" where
  "parkIfLibraryOffline env item =
     (case peHealer env of None \<Rightarrow> ret None
      | Some he \<Rightarrow>
         (if itemSource item = [] then ret None
          else do {
            listed \<leftarrow> libraryRoots env he;
            rs \<leftarrow> reads wkRoots;
            case (listed, ContainingRoot (rsSpellings rs) (itemSource item)) of
              (Inr _, Some spelling) \<Rightarrow> do {
                let libRoot = (case rsOwner rs spelling of None \<Rightarrow> spelling | Some configured \<Rightarrow> configured);
                online \<leftarrow> rootIsOnline env he libRoot;
                if online then do { _ \<leftarrow> onRoots (\<lambda>rs. rs\<lparr>rsNotes := (rsNotes rs)(libRoot := None)\<rparr>); ret None }
                else do { err \<leftarrow> parkOffline env item libRoot; ret (Some err) } }
            | _ \<Rightarrow> ret None }))"

section \<open>Output directories\<close>

definition healOutputPaths :: "int \<Rightarrow> OutputPath list \<Rightarrow> OutputPath list \<Rightarrow> QDB \<Rightarrow> bool \<times> QDB" where
  "healOutputPaths i old new =
     updateOne i (\<lambda>r. processing r \<and> output_paths (paths r) = Some old) (\<lambda>r. r\<lparr>paths := (paths r)\<lparr>output_paths := Some new\<rparr>\<rparr>)"

definition HealOutputPaths :: "PassEnv \<Rightarrow> HealerEnv \<Rightarrow> WorkItem \<Rightarrow> OutputPath list
    \<Rightarrow> (Worker, goerr + OutputPath list option) state" where
  "HealOutputPaths env he item ps =
     (case ps of
        [entry] \<Rightarrow>
          (case heRoots he of
             Inl e \<Rightarrow> ret (Inl e)
           | Inr _ \<Rightarrow>
              (case heFix he (outdir (paths (fst item))) (filename (paths (fst item))) (itemSource item) entry of
                 None \<Rightarrow> ret (Inr None)
               | Some fixed \<Rightarrow> do {
                   r \<leftarrow> qVal env (\<lambda>q now. healOutputPaths (itemID item) ps [fixed]);
                   case r of
                     Inl e \<Rightarrow> ret (Inl (Wrapf (itemMsg ''prune: heal output_paths for work_queue '' item '': '') e []))
                   | Inr did \<Rightarrow> ret (Inr (if did then Some [fixed] else None)) }))
      | _ \<Rightarrow> ret (Inr None))"

definition preflightOutputs :: "PassEnv \<Rightarrow> WorkItem \<Rightarrow> (Worker, WorkItem \<times> bool) state" where
  "preflightOutputs env item =
     (case peHealer env of None \<Rightarrow> ret (item, True)
      | Some he \<Rightarrow>
         (let ps = outputPaths item
          in if \<exists>p \<in> set ps. peStat env (opOutdir p) \<noteq> StatNotExist then ret (item, True)
             else do {
               r \<leftarrow> HealOutputPaths env he item ps;
               case r of
                 Inr (Some healed) \<Rightarrow> ret ((fst item, healed), True)
               | _ \<Rightarrow> ret (item, False) }))"

text \<open>The entries whose directory is missing: whether each is provably stale.\<close>

primrec allStale :: "PassEnv \<Rightarrow> HealerEnv \<Rightarrow> OutputPath list \<Rightarrow> (Worker, bool) state" where
  "allStale env he [] = ret True"
| "allStale env he (p # ps) =
     (case heStale he p of
        Inr (Some (libRoot, rest)) \<Rightarrow> do {
          online \<leftarrow> rootIsOnline env he libRoot;
          if online \<and> rest then allStale env he ps else ret False }
      | _ \<Rightarrow> ret False)"

definition skippedAllStale :: "PassEnv \<Rightarrow> OutputPath list \<Rightarrow> (Worker, bool) state" where
  "skippedAllStale env missing =
     (case peHealer env of None \<Rightarrow> ret False | Some he \<Rightarrow> allStale env he missing)"

section \<open>Recording identity\<close>

definition factsMetadata :: "AudioFacts \<Rightarrow> int \<Rightarrow> int \<Rightarrow> AudioMetadata" where
  "factsMetadata f mtime bytes = \<lparr>amTrackLength = afTrackLength f, amISRC = afISRC f, amAlbumName = afAlbum f,
     amMTimeNano = mtime, amSizeBytes = bytes\<rparr>"

text \<open>Facts are banked only when they were read from the very file that was looked up.\<close>

definition bankable :: "AudioFacts \<Rightarrow> int \<Rightarrow> int \<Rightarrow> bool" where
  "bankable f mtime bytes \<longleftrightarrow> (afMTimeNano f \<noteq> 0 \<or> afSizeBytes f \<noteq> 0) \<and> \<not> afDurationErr f \<and> \<not> afMultiValueErr f \<and>
     afMTimeNano f = mtime \<and> afSizeBytes f = bytes"

definition readAndBankMetadata :: "MetaEnv \<Rightarrow> (goerr + AudioMetadata) \<Rightarrow> gotext \<Rightarrow> int \<Rightarrow> int
    \<Rightarrow> (Worker, goerr + AudioMetadata) state" where
  "readAndBankMetadata me readMetadata key mtime bytes =
     (case meFacts me of
        None \<Rightarrow> ret readMetadata
      | Some (Inl e) \<Rightarrow> ret (Inl e)
      | Some (Inr f) \<Rightarrow> do {
          _ \<leftarrow> (if bankable f mtime bytes then emit (EvBanked key f) else ret ());
          ret (Inr (factsMetadata f (afMTimeNano f) (afSizeBytes f))) })"

definition resolveMetadata :: "MetaEnv \<Rightarrow> (goerr + AudioMetadata) \<Rightarrow> gotext \<Rightarrow> (Worker, goerr + AudioMetadata) state" where
  "resolveMetadata me readMetadata path =
     (case meCache me of
        Some (Inr (mtime, bytes), Inr None) \<Rightarrow> readAndBankMetadata me readMetadata (meKey me path) mtime bytes
      | Some (Inr (mtime, bytes), Inr (Some f)) \<Rightarrow> ret (Inr (factsMetadata f mtime bytes))
      | _ \<Rightarrow> ret readMetadata)"

definition recordDuration :: "MetaEnv \<Rightarrow> gotext \<Rightarrow> AudioMetadata \<Rightarrow> int \<Rightarrow> (Worker, unit) state" where
  "recordDuration me path meta secs =
     (if \<not> meDurations me \<or> secs \<le> 0 \<or> trimSpace path = [] \<or> (amMTimeNano meta = 0 \<and> amSizeBytes meta = 0)
      then ret ()
      else emit (EvDuration (meKey me path) (amMTimeNano meta) (amSizeBytes meta) secs))"

definition refreshRecordingIdentity :: "PassEnv \<Rightarrow> WorkItem \<Rightarrow> Track \<Rightarrow> (Worker, Track) state" where
  "refreshRecordingIdentity env item track = do {
     enrich \<leftarrow> reads wkEnrich;
     case meRead (peMeta env) of
       None \<Rightarrow> ret track
     | Some readMetadata \<Rightarrow>
        (if \<not> enrich \<or> trimSpace (itemSource item) = [] then ret track
         else do {
           r \<leftarrow> resolveMetadata (peMeta env) readMetadata (itemSource item);
           case r of
             Inl e \<Rightarrow> ret track
           | Inr meta \<Rightarrow> do {
               _ \<leftarrow> (if amTrackLength meta > 0 then recordDuration (peMeta env) (itemSource item) meta (amTrackLength meta) else ret ());
               ret (track\<lparr>TrackLength := (if amTrackLength meta > 0 then amTrackLength meta else TrackLength track),
                          ISRC := (if amISRC meta \<noteq> [] then amISRC meta else ISRC track),
                          AlbumName := (if amAlbumName meta \<noteq> [] then amAlbumName meta else AlbumName track)\<rparr>) } }) }"

end
