(* ===== verification/WorkerWrite.thy ===== *)
theory WorkerWrite
  imports WorkerRoots
begin

text \<open>
  Writing: the loop over the outputs of an ordinary pass, the marker of a detector verdict, and the
  title rule with its marker (\<open>worker.go\<close>, \<open>title_rule.go\<close>, \<open>heldByLaterPath\<close> of \<open>blocked.go\<close>).
\<close>

section \<open>One output\<close>

definition writeErr :: "WriteRes \<Rightarrow> goerr option" where
  "writeErr r = (case r of Wrote \<Rightarrow> None | Kept k \<Rightarrow> Some (Sentinel LyrErrKeptBetter)
     | DirMissing e \<Rightarrow> Some e | Refused e \<Rightarrow> Some e | WriteFailed e \<Rightarrow> Some e)"

text \<open>What a write answers is recorded when it wrote.\<close>

definition wrote :: "Song \<Rightarrow> OutputPath \<Rightarrow> WriteRes \<Rightarrow> (Worker, WriteRes) state" where
  "wrote song p r = do { _ \<leftarrow> (if r = Wrote then emit (EvWrote p song) else ret ()); ret r }"

definition writeFor :: "PassEnv \<Rightarrow> WorkItem \<Rightarrow> nat \<Rightarrow> Song \<Rightarrow> OutputPath \<Rightarrow> (Worker, WriteRes) state" where
  "writeFor env item i song p =
     wrote song p (case wrGuarded (peWriter env) of
         Some f \<Rightarrow> (if upgradeItem item then f i song p else wrWrite (peWriter env) i song p)
       | None \<Rightarrow> wrWrite (peWriter env) i song p)"

definition heldByLaterPath :: "PassEnv \<Rightarrow> Song \<Rightarrow> OutputPath list \<Rightarrow> bool" where
  "heldByLaterPath env song later \<longleftrightarrow> (\<exists>p \<in> set later. wrHolds (peWriter env) song p)"

text \<open>
  A loop over the outputs ends blocked, with an error that ends the pass (and whether an output had
  landed), or with the kept files, the outputs without a directory, the first error of those, and
  whether something was written.
\<close>

datatype WriteEnd =
  AllBlocked | Broke goerr bool | Ended "KeptError list" "OutputPath list" "goerr option" bool

definition firstErr :: "goerr option \<Rightarrow> goerr \<Rightarrow> goerr option" where
  "firstErr missingErr e = (case missingErr of None \<Rightarrow> Some e | Some d \<Rightarrow> Some d)"

primrec writeLoop :: "PassEnv \<Rightarrow> WorkItem \<Rightarrow> Song \<Rightarrow> OutputPath list \<Rightarrow> nat \<Rightarrow> KeptError list \<Rightarrow> OutputPath list
    \<Rightarrow> goerr option \<Rightarrow> bool \<Rightarrow> (Worker, WriteEnd) state" where
  "writeLoop env item song [] i kept missing missingErr landed = ret (Ended kept missing missingErr landed)"
| "writeLoop env item song (p # ps) i kept missing missingErr landed = do {
     r \<leftarrow> writeFor env item i song p;
     case r of
       Wrote \<Rightarrow> writeLoop env item song ps (Suc i) kept missing missingErr True
     | Kept k \<Rightarrow> writeLoop env item song ps (Suc i) (kept @ [k]) missing missingErr landed
     | DirMissing e \<Rightarrow> writeLoop env item song ps (Suc i) kept (missing @ [p]) (firstErr missingErr e) landed
     | Refused e \<Rightarrow> ret (if \<not> landed \<and> kept = [] \<and> \<not> heldByLaterPath env song ps then AllBlocked else Broke e landed)
     | WriteFailed e \<Rightarrow> ret (Broke e landed) }"

text \<open>Whether outputs without a directory may be left behind: something is in place, and all are stale.\<close>

definition missingSettles :: "PassEnv \<Rightarrow> KeptError list \<Rightarrow> OutputPath list \<Rightarrow> bool \<Rightarrow> (Worker, bool) state" where
  "missingSettles env kept missing landed =
     (if missing = [] then ret True
      else if \<not> landed \<and> kept = [] then ret False
      else skippedAllStale env missing)"

section \<open>The marker of a detector verdict\<close>

primrec markerLoop :: "PassEnv \<Rightarrow> WorkItem \<Rightarrow> Song \<Rightarrow> OutputPath list \<Rightarrow> nat \<Rightarrow> KeptError list \<Rightarrow> OutputPath list
    \<Rightarrow> goerr option \<Rightarrow> bool \<Rightarrow> (Worker, WriteEnd) state" where
  "markerLoop env item song [] i kept missing missingErr landed = ret (Ended kept missing missingErr landed)"
| "markerLoop env item song (p # ps) i kept missing missingErr landed = do {
     r \<leftarrow> writeFor env item i song p;
     case r of
       Wrote \<Rightarrow> markerLoop env item song ps (Suc i) kept missing missingErr True
     | Kept k \<Rightarrow> markerLoop env item song ps (Suc i) (kept @ [k]) missing missingErr landed
     | DirMissing e \<Rightarrow> markerLoop env item song ps (Suc i) kept (missing @ [p]) (firstErr missingErr e) landed
     | Refused e \<Rightarrow> ret (Broke e landed)
     | WriteFailed e \<Rightarrow> ret (Broke e landed) }"

definition deferThenReset :: "PassEnv \<Rightarrow> WorkItem \<Rightarrow> wcause \<Rightarrow> (Worker, goerr option) state" where
  "deferThenReset env item cause = do {
     err \<leftarrow> requeueDeferred env item cause;
     case err of Some e \<Rightarrow> ret (Some e) | None \<Rightarrow> do { _ \<leftarrow> noFailures; ret None } }"

definition failMarker :: "PassEnv \<Rightarrow> WorkItem \<Rightarrow> goerr \<Rightarrow> (Worker, goerr option) state" where
  "failMarker env item e =
     deferThenReset env item (wrapCause (itemMsg ''worker: write instrumental item '' item '' output: '') (scrubWritePaths e))"

definition songTelemetry :: "Song \<Rightarrow> InstrumentalTelemetry" where
  "songTelemetry song = \<lparr>telMusicSum = DetectorMusicSum song, telVocalPeak = DetectorVocalPeak song,
     telSpeechMean = DetectorSpeechMean song, telVocalClass = DetectorVocalClass song,
     telDetectorVersion = DetectorVersion song, telGateComplete = DetectorGateComplete song\<rparr>"

definition settleDetectorInstrumental :: "PassEnv \<Rightarrow> WorkItem \<Rightarrow> Song \<Rightarrow> (Worker, goerr + SettleOutcome) state" where
  "settleDetectorInstrumental env item song = do {
     r \<leftarrow> qVal env (\<lambda>q now. settleInstrumentalOnce now (itemID item) (songTelemetry song) OwnedByWorker);
     case r of Inl e \<Rightarrow> ret (Inl (Wrapf (lit ''settle instrumental: '') e [])) | Inr outcome \<Rightarrow> ret (Inr outcome) }"

definition settleMarker :: "PassEnv \<Rightarrow> WorkItem \<Rightarrow> Song \<Rightarrow> (Worker, goerr option) state" where
  "settleMarker env item song = do {
     _ \<leftarrow> stampCompletionProvenance env item song;
     _ \<leftarrow> clearWordTiming env item;
     _ \<leftarrow> clearSyncTier env item;
     r \<leftarrow> settleDetectorInstrumental env item song;
     case r of
       Inl e \<Rightarrow> deferThenReset env item (plain e)
     | Inr outcome \<Rightarrow> do {
         _ \<leftarrow> (if outcome = Settled then recordSourceEvent (WinningLane song) (lit ''instrumental'')
              else if outcome = SettleAlreadyInstrumental \<or> outcome = SettleRowGone then ret ()
              else advisory (qOp env (\<lambda>q now. Release (itemID item))));
         _ \<leftarrow> noFailures;
         ret None } }"

definition completeDetectorInstrumental :: "PassEnv \<Rightarrow> WorkItem \<Rightarrow> Song \<Rightarrow> (Worker, goerr option) state" where
  "completeDetectorInstrumental env item song = do {
     let ps = outputPaths item;
     fin \<leftarrow> markerLoop env item song ps 0 [] [] None False;
     case fin of
       Ended kept missing missingErr landed \<Rightarrow> do {
         ok \<leftarrow> missingSettles env kept missing landed;
         if \<not> ok then failMarker env item (the missingErr)
         else if length kept = length ps - length missing then completeKept env item kept
         else settleMarker env item song }
     | Broke e _ \<Rightarrow> failMarker env item e
     | AllBlocked \<Rightarrow> ret None }"

section \<open>The title rule\<close>

definition titleRuleSettles :: "PassEnv \<Rightarrow> Worker \<Rightarrow> WorkItem \<Rightarrow> Track \<Rightarrow> bool" where
  "titleRuleSettles env w item track =
     (case peTitleSettles env (TrackName track) (AlbumName track) (ArtistName (itemTrack item)) (AlbumArtist (itemTrack item)) of
        (settles, release) \<Rightarrow> wkTitleRule w \<and> settles \<and> (release \<longrightarrow> edition (fst item) = EditionInstrumental))"

text \<open>An output the probe of \<open>Occupant\<close> found occupied, or the error of the probe, or neither.\<close>

definition probed :: "goerr + KeptError option \<Rightarrow> WriteRes" where
  "probed r = (case r of Inl e \<Rightarrow> (if errorsIs e LyrErrOutputDirMissing then DirMissing e else WriteFailed e)
     | Inr (Some k) \<Rightarrow> Kept k | Inr None \<Rightarrow> Wrote)"

definition probeKept :: "WriteRes \<Rightarrow> bool" where
  "probeKept r \<longleftrightarrow> (\<exists>k. r = Kept k)"

text \<open>
  With an output occupied nothing is written: the loop goes over the probes. Otherwise it writes
  where nothing is.
\<close>

primrec titleLoop :: "(nat \<Rightarrow> Song \<Rightarrow> OutputPath \<Rightarrow> WriteRes) \<Rightarrow> (OutputPath \<Rightarrow> WriteRes) \<Rightarrow> bool \<Rightarrow> Song \<Rightarrow> OutputPath list
    \<Rightarrow> nat \<Rightarrow> KeptError list \<Rightarrow> OutputPath list \<Rightarrow> goerr option \<Rightarrow> bool \<Rightarrow> (Worker, WriteEnd) state" where
  "titleLoop ifAbsent probe occupied song [] i kept missing missingErr landed = ret (Ended kept missing missingErr landed)"
| "titleLoop ifAbsent probe occupied song (p # ps) i kept missing missingErr landed =
     (if occupied \<and> probe p = Wrote
      then titleLoop ifAbsent probe occupied song ps (Suc i) kept missing missingErr landed
      else do {
        r \<leftarrow> (if occupied then ret (probe p) else wrote song p (ifAbsent i song p));
        case r of
          Wrote \<Rightarrow> titleLoop ifAbsent probe occupied song ps (Suc i) kept missing missingErr True
        | Kept k \<Rightarrow> titleLoop ifAbsent probe occupied song ps (Suc i) (kept @ [k]) missing missingErr landed
        | DirMissing e \<Rightarrow> titleLoop ifAbsent probe occupied song ps (Suc i) kept (missing @ [p]) (firstErr missingErr e) landed
        | Refused e \<Rightarrow> ret (Broke e landed)
        | WriteFailed e \<Rightarrow> ret (Broke e landed) })"

definition failTitle :: "PassEnv \<Rightarrow> WorkItem \<Rightarrow> goerr \<Rightarrow> (Worker, goerr option) state" where
  "failTitle env item e =
     fail env item (wrapCause (itemMsg ''worker: write title-rule marker for item '' item '': '') (scrubWritePaths e))"

definition settleTitle :: "PassEnv \<Rightarrow> WorkItem \<Rightarrow> Song \<Rightarrow> (Worker, goerr option) state" where
  "settleTitle env item song = do {
     _ \<leftarrow> stampCompletionProvenance env item song;
     _ \<leftarrow> clearWordTiming env item;
     _ \<leftarrow> clearSyncTier env item;
     let stuck = (\<lambda>e. failStuckItem env item capNever (Wrapf (itemMsg ''worker: settle title-rule item '' item '': '') e []));
     r1 \<leftarrow> qStamp env (SetProviderLane (itemID item) TitleRuleLaneName []);
     case r1 of Inl e \<Rightarrow> stuck e
     | Inr _ \<Rightarrow> do {
         r2 \<leftarrow> qStamp env (SetOutcomeType (itemID item) outcomeTypeInstrumental);
         case r2 of Inl e \<Rightarrow> stuck e
         | Inr _ \<Rightarrow> do {
             r3 \<leftarrow> qOp env (\<lambda>q now. completeOnce q now (itemID item));
             case r3 of Inl e \<Rightarrow> stuck e | Inr _ \<Rightarrow> do { _ \<leftarrow> noFailures; ret None } } } }"

definition completeTitleInstrumental :: "PassEnv \<Rightarrow> WorkItem \<Rightarrow> Track
    \<Rightarrow> (nat \<Rightarrow> Song \<Rightarrow> OutputPath \<Rightarrow> WriteRes) \<times> (Song \<Rightarrow> OutputPath \<Rightarrow> goerr + KeptError option)
    \<Rightarrow> (Worker, goerr option) state" where
  "completeTitleInstrumental env item track writer =
     (case writer of (ifAbsent, occupant) \<Rightarrow>
       (let song = StampBlockIdentity (blockKey env item)
              (zeroSong\<lparr>STrack := track\<lparr>Instrumental := 1\<rparr>, WinningLane := TitleRuleLaneName\<rparr>);
            ps = outputPaths item;
            probe = (\<lambda>p. probed (occupant song p));
            occupied = (\<exists>p \<in> set ps. probeKept (probe p))
        in do {
          fin \<leftarrow> titleLoop ifAbsent probe occupied song ps 0 [] [] None False;
          case fin of
            Ended kept missing missingErr landed \<Rightarrow> do {
              ok \<leftarrow> missingSettles env kept missing landed;
              if \<not> ok then failTitle env item (the missingErr)
              else if occupied \<or> length kept = length ps - length missing then completeKept env item kept
              else settleTitle env item song }
          | Broke e _ \<Rightarrow> failTitle env item e
          | AllBlocked \<Rightarrow> ret None }))"

section \<open>Weak titles\<close>

definition weakTitleEligible :: "PassEnv \<Rightarrow> Worker \<Rightarrow> WorkItem \<Rightarrow> Track \<Rightarrow> gotext \<Rightarrow> bool" where
  "weakTitleEligible env w item track detectorPath \<longleftrightarrow>
     wkTitleRuleWeak w \<and> wkDetLane w \<noteq> None \<and> detectorPath \<noteq> [] \<and> \<not> upgradeItem item \<and>
     peTitleWeak env (TrackName track) (AlbumName track) \<and>
     (case wrAbsent (peWriter env) of None \<Rightarrow> False
      | Some (_, occupant) \<Rightarrow>
          (\<forall>p \<in> set (outputPaths item). occupant (zeroSong\<lparr>STrack := track\<lparr>Instrumental := 1\<rparr>\<rparr>) p = Inr None))"

definition skipDetectorFirst :: "PassEnv \<Rightarrow> Worker \<Rightarrow> Track \<Rightarrow> bool" where
  "skipDetectorFirst env w track \<longleftrightarrow>
     wkTitleRule w \<and> wkOrdering w = lit ''front'' \<and> peKaraoke env (TrackName track) (AlbumName track)"

end
