(* ===== verification/WorkerDispatch.thy ===== *)
theory WorkerDispatch
  imports WorkerWrite
begin

text \<open>
  The lanes of the worker: the orchestrator it builds from them, the gate before a claim, a dispatch
  with the cache in front of it, the detector asked ahead of the providers, and the setters that
  change the lanes (\<open>worker.go\<close>, \<open>weakTitleDetectorFirst\<close> of \<open>title_rule.go\<close>, \<open>wordOrchestrator\<close> of
  \<open>word_recheck.go\<close>).
\<close>

section \<open>The orchestrator\<close>

definition detectorEnabled :: "Worker \<Rightarrow> bool" where
  "detectorEnabled w \<longleftrightarrow> wkMemo w \<noteq> None"

definition effectiveLanes :: "Worker \<Rightarrow> Lane list" where
  "effectiveLanes w = (case wkDetLane w of None \<Rightarrow> wkLanes w
     | Some det \<Rightarrow> if wkOrdering w = lit ''front'' then det # wkLanes w else wkLanes w @ [det])"

definition buildOrch :: "Lane list \<Rightarrow> Mode \<Rightarrow> duration \<Rightarrow> Quality \<Rightarrow> Worker \<Rightarrow> Orchestrator" where
  "buildOrch lanes md wait q w = \<lparr>o_lanes = lanes, o_guard = (if length lanes > 1 then wkGuard w else None),
     o_mode = md, o_raceWait = wait, o_minCommit = q, o_blocks = wkBlocks w\<rparr>"

definition currentOrch :: "Worker \<Rightarrow> Orchestrator" where
  "currentOrch w = buildOrch (effectiveLanes w) (wkMode w)
     (if wkRaceWait w > 0 then wkRaceWait w else DefaultRaceWait) QualityNone w"

definition wordOrchestrator :: "Worker \<Rightarrow> Orchestrator option" where
  "wordOrchestrator w = (let lanes = filter laneWordCapable (wkLanes w)
     in if lanes = [] then None else Some (buildOrch lanes ModeOrdered DefaultRaceWait QualityWordSynced w))"

text \<open>The lanes of a dispatch go back where they came from.\<close>

primrec putBack :: "(Lane \<Rightarrow> bool) \<Rightarrow> Lane list \<Rightarrow> Lane list \<Rightarrow> Lane list" where
  "putBack p [] new = []"
| "putBack p (l # ls) new =
     (if p l then (case new of [] \<Rightarrow> l # putBack p ls [] | n # ns \<Rightarrow> n # putBack p ls ns) else l # putBack p ls new)"

section \<open>One dispatch\<close>

definition inferEnv :: "DispatchEnv \<Rightarrow> memoDetector option \<Rightarrow> LaneEnv \<Rightarrow> LaneEnv" where
  "inferEnv de memo env = env\<lparr>detect := (\<lambda>path. case memo of None \<Rightarrow> deInfer de path
     | Some m \<Rightarrow> fst (memoDetect (deInfer de) path m))\<rparr>"

text \<open>The context of a schedule that ends early is canceled, so that every race returns.\<close>

definition runDispatch :: "(gotext \<Rightarrow> gotext) \<Rightarrow> DispatchEnv \<Rightarrow> memoDetector option \<Rightarrow> Orchestrator \<Rightarrow> blockIdentity
    \<Rightarrow> Track \<Rightarrow> gotext \<Rightarrow> World \<Rightarrow> (Song \<times> goerr option) \<times> Lane list \<times> World" where
  "runDispatch nkey de memo orc ctx track path world =
     (let env = inferEnv de memo;
          envs = (\<lambda>f lanes. map (\<lambda>i. (env (fst (f i)), snd (f i))) [0 ..< length lanes])
      in case o_mode orc of
           ModeOrdered \<Rightarrow>
             (case findOrdered nkey orc ctx track path (envs (deOrdered de) (o_lanes orc)) (deEnd de) world of
                (ans, orc', world') \<Rightarrow> (ans, o_lanes orc', world'))
         | ModeParallel \<Rightarrow>
             (case stagedLanes orc of (pre, race, post) \<Rightarrow>
               (case findParallel nkey orc ctx track path (envs (dePre de) pre)
                       (map (\<lambda>i. env (deRace de i)) [0 ..< length race]) (envs (dePost de) post)
                       (deEvents de @ [ParentDone (Sentinel CtxCanceled)]) (deStart de) (deEnd de) world of
                  Some (ans, (pre', race', post'), world') \<Rightarrow> (ans, pre' @ race' @ post', world')
                | None \<Rightarrow> ((zeroSong, Some (Sentinel CtxCanceled)), o_lanes orc, world))))"

text \<open>Whether the detector lane was asked in a dispatch: then the memo holds what it answered.\<close>

definition askedDetector :: "Song \<Rightarrow> gotext \<Rightarrow> bool" where
  "askedDetector song path \<longleftrightarrow> path \<noteq> [] \<and> (\<exists>a \<in> set (LaneAttempts song). la_Lane a = detectorLaneName)"

definition remember :: "bool \<Rightarrow> (gotext \<Rightarrow> goerr + DetectResult) \<Rightarrow> gotext \<Rightarrow> memoDetector option \<Rightarrow> memoDetector option" where
  "remember consultedIt infer path memo =
     (if consultedIt then map_option (\<lambda>m. snd (memoDetect infer path m)) memo else memo)"

definition dispatch :: "PassEnv \<Rightarrow> WorkItem \<Rightarrow> Track \<Rightarrow> gotext \<Rightarrow> (Worker, Song \<times> goerr option) state" where
  "dispatch env item track path = State (\<lambda>w.
     case runDispatch (peKey env) (peDispatch env) (wkMemo w) (currentOrch w) (blockKey env item) track path (wkWorld w) of
       ((song, err), lanes, world) \<Rightarrow>
         ((song, err), w\<lparr>wkLanes := filter (\<lambda>l. \<not> instrumentalOnly l) lanes,
            wkDetLane := (case wkDetLane w of None \<Rightarrow> None | Some det \<Rightarrow> (case filter instrumentalOnly lanes of
                 [] \<Rightarrow> Some det | det' # _ \<Rightarrow> Some det')),
            wkWorld := world,
            wkMemo := remember (askedDetector song path) (deInfer (peDispatch env)) path (wkMemo w)\<rparr>))"

definition wordDispatch :: "PassEnv \<Rightarrow> WorkItem \<Rightarrow> Orchestrator \<Rightarrow> Track \<Rightarrow> (Worker, Song \<times> goerr option) state" where
  "wordDispatch env item orc track = State (\<lambda>w.
     case runDispatch (peKey env) (peWordDispatch env) (wkMemo w) orc (blockKey env item) track [] (wkWorld w) of
       (ans, lanes, world) \<Rightarrow> (ans, w\<lparr>wkLanes := putBack laneWordCapable (wkLanes w) lanes, wkWorld := world\<rparr>))"

section \<open>The cache in front of a dispatch\<close>

definition cacheAccepts :: "PassEnv \<Rightarrow> Worker \<Rightarrow> WorkItem \<Rightarrow> Track \<Rightarrow> gotext \<Rightarrow> bool" where
  "cacheAccepts env w item track raw \<longleftrightarrow>
     \<not> isBlocked (wkBlocks w) (blockKey env item) (peDecode env raw track) \<and>
     \<not> RefusedByTimingGuard (StampBlockIdentity (blockKey env item) (peDecode env raw track)) (TrackLength track)"

definition cached :: "PassEnv \<Rightarrow> WorkItem \<Rightarrow> Track \<Rightarrow> (Worker, goerr + Song) state" where
  "cached env item track = State (\<lambda>w.
     case LookupAccepted (peKey env) (fst (peLookupFaults env)) (snd (peLookupFaults env)) (ArtistName track) (TrackName track)
            (DurationBucket (TrackLength track)) (cacheAccepts env w item track) (wkCache w) of
       (r, c) \<Rightarrow> ((case r of Inl e \<Rightarrow> Inl e | Inr raw \<Rightarrow> Inr (StampBlockIdentity (blockKey env item) (peDecode env raw track))),
                  w\<lparr>wkCache := c\<rparr>))"

text \<open>The song, whether the cache served it, and the error.\<close>

definition songFor :: "PassEnv \<Rightarrow> WorkItem \<Rightarrow> Track \<Rightarrow> gotext \<Rightarrow> bool \<Rightarrow> (Worker, Song \<times> bool \<times> goerr option) state" where
  "songFor env item track path bypassCache = do {
     hit \<leftarrow> (if bypassCache then ret (Inl (Sentinel SqlErrNoRows)) else cached env item track);
     case hit of
       Inr decoded \<Rightarrow> ret (decoded, True, None)
     | Inl e \<Rightarrow>
        (if \<not> errorsIs e SqlErrNoRows then ret (zeroSong, False, Some (Wrapf (lit ''worker: lookup cache: '') e []))
         else do { ans \<leftarrow> dispatch env item track path; ret (fst ans, False, snd ans) }) }"

section \<open>Detection\<close>

definition detectionEnabledFor :: "Worker \<Rightarrow> WorkItem \<Rightarrow> bool" where
  "detectionEnabledFor w item = (case detect_instrumental (fst item) of None \<Rightarrow> wkDetectDefault w | Some d \<Rightarrow> d)"

definition detectorPathFor :: "Worker \<Rightarrow> WorkItem \<Rightarrow> gotext" where
  "detectorPathFor w item =
     (if \<not> detectionEnabledFor w item \<or> \<not> detectorEnabled w \<or> trimSpace (itemSource item) = [] then []
      else itemSource item)"

text \<open>
  The detector asked before the providers for a weak title: an agreed song, whether it answered, and
  the error the pass carries should the providers miss.
\<close>

definition askDetector :: "PassEnv \<Rightarrow> Track \<Rightarrow> gotext \<Rightarrow> Lane \<Rightarrow> (Worker, (Song \<times> goerr option) \<times> Lane) state" where
  "askDetector env track path det = State (\<lambda>w.
     case laneFindLyrics (peKey env) ((peEarly env)\<lparr>detect := (\<lambda>p. case wkMemo w of None \<Rightarrow> peEarlyInfer env p
              | Some m \<Rightarrow> fst (memoDetect (peEarlyInfer env) p m))\<rparr>) track path det (wkWorld w) of
       (ans, det', world) \<Rightarrow>
         ((ans, det'), w\<lparr>wkDetLane := Some det', wkWorld := world,
            wkMemo := remember (snd ans \<noteq> Some (Sentinel ErrLaneUnavailable)) (peEarlyInfer env) path (wkMemo w)\<rparr>))"

definition weakTitleDetectorFirst :: "PassEnv \<Rightarrow> WorkItem \<Rightarrow> Track \<Rightarrow> gotext
    \<Rightarrow> (Worker, Song option \<times> bool \<times> goerr option) state" where
  "weakTitleDetectorFirst env item track path = do {
     w \<leftarrow> reads id;
     case (weakTitleEligible env w item track path, wkDetLane w) of
       (True, Some det) \<Rightarrow> do {
         r \<leftarrow> askDetector env track path det;
         case r of ((s, err), det') \<Rightarrow>
           ret (if err = None \<and> Instrumental (STrack s) = 1
                then (Some (s\<lparr>WinningLane := lname det',
                         LaneAttempts := [\<lparr>la_Lane = lname det', la_Hit = True, la_Local = llocal det'\<rparr>]\<rparr>), True, None)
                else if (case err of None \<Rightarrow> False | Some e \<Rightarrow> errorsIs e ErrLaneBenignMiss) then (None, True, None)
                else if ClassifyOutcome err = OutcomeLaneNotReady then (None, True, err)
                else if ClassifyOutcome err = OutcomeLaneOutage then (None, False, err)
                else (None, False, None)) }
     | _ \<Rightarrow> ret (None, False, None) }"

section \<open>The gate before a claim\<close>

text \<open>Lanes are asked in order until one is not open; asking moves a breaker whose window has passed.\<close>

primrec gateLoop :: "(nat \<Rightarrow> instant) \<Rightarrow> nat \<Rightarrow> Lane list \<Rightarrow> bool \<times> Lane list" where
  "gateLoop clock n [] = (True, [])"
| "gateLoop clock n (l # ls) =
     (case Allow (clock n) (lbreaker l) of (st, b) \<Rightarrow>
        (if st \<noteq> StateOpen then (False, l\<lparr>lbreaker := b\<rparr> # ls)
         else case gateLoop clock (Suc n) ls of (allOpen, ls') \<Rightarrow> (allOpen, l\<lparr>lbreaker := b\<rparr> # ls')))"

definition allLanesUnavailable :: "PassEnv \<Rightarrow> (Worker, bool) state" where
  "allLanesUnavailable env = State (\<lambda>w.
     (let staged = (wkMode w = ModeParallel \<and> wkOrdering w \<noteq> lit ''front'');
          gate = (\<lambda>n w. case gateLoop (peGate env) n (wkLanes w) of (allOpen, ls) \<Rightarrow> (allOpen, w\<lparr>wkLanes := ls\<rparr>))
      in case wkDetLane w of
           Some det \<Rightarrow>
             (if staged then gate 0 w
              else case Allow (peGate env 0) (lbreaker det) of (st, b) \<Rightarrow>
                (if st \<noteq> StateOpen then (False, w\<lparr>wkDetLane := Some (det\<lparr>lbreaker := b\<rparr>)\<rparr>)
                 else gate 1 (w\<lparr>wkDetLane := Some (det\<lparr>lbreaker := b\<rparr>)\<rparr>)))
         | None \<Rightarrow> gate 0 w))"

end
