(* ===== verification/WorkerRecheck.thy ===== *)
theory WorkerRecheck
  imports WorkerDispatch
begin

text \<open>
  The recheck of a settled row for word timing (\<open>word_recheck.go\<close>): its own dispatch over the lanes
  that carry words, its write, and the ways it gives the row back, none of which counts as an attempt.
\<close>

definition maxWordRecheckWaits :: int where "maxWordRecheckWaits = 3"

section \<open>Giving the row back\<close>

definition classifyWordRecheckFailure :: "goerr \<Rightarrow> (Worker, goerr option) state" where
  "classifyWordRecheckFailure cause =
     (if errorsIs cause WrkNoWordAnswer then do { _ \<leftarrow> noFailures; ret None }
      else case classifyErr cause of
        OutcomeUnavailable \<Rightarrow> ret (Some (Sentinel WrkLanesUnavailable))
      | OutcomeAuthRateLimit \<Rightarrow> do { _ \<leftarrow> noFailures; ret (Some (Sentinel WrkThrottled)) }
      | OutcomeTransport \<Rightarrow>
          (if asPartialFailure cause then do { _ \<leftarrow> noFailures; ret None }
           else do { _ \<leftarrow> alters (\<lambda>w. w\<lparr>wkFailures := wkFailures w + 1\<rparr>); ret None })
      | _ \<Rightarrow> do { _ \<leftarrow> noFailures; ret None })"

text \<open>An error other than a row that is no longer the worker's.\<close>

definition driverErr :: "goerr + 'a \<Rightarrow> goerr option" where
  "driverErr r = (case r of Inl e \<Rightarrow> (if errorsIs e SqlErrNoRows then None else Some e) | Inr _ \<Rightarrow> None)"

definition deferWordRecheck :: "PassEnv \<Rightarrow> WorkItem \<Rightarrow> wcause \<Rightarrow> (Worker, goerr option) state" where
  "deferWordRecheck env item cause =
     (if isCanceled (peCtxEnd env) \<and> errorsIs (fst cause) CtxCanceled
      then releaseItem env item ''worker: release word recheck '' '' after shutdown: ''
      else do {
        wait \<leftarrow> reads wkOpenDuration;
        r \<leftarrow> qOp env (\<lambda>q now. DeferWordRecheck now (itemID item) wait maxWordRecheckWaits (errText (fst cause))
               (Some (failureClass env cause)));
        case driverErr r of
          Some e \<Rightarrow> ret (Some (Wrapf (itemMsg ''worker: defer word recheck '' item '' after '' @ errText (fst cause) @ lit '': '') e []))
        | None \<Rightarrow> classifyWordRecheckFailure (fst cause) })"

definition retryWordRecheckWrite :: "PassEnv \<Rightarrow> WorkItem \<Rightarrow> goerr \<Rightarrow> (Worker, goerr option) state" where
  "retryWordRecheckWrite env item cause =
     (if isCanceled (peCtxEnd env) \<and> errorsIs cause CtxCanceled
      then releaseItem env item ''worker: release word recheck '' '' after shutdown: ''
      else do {
        wait \<leftarrow> reads wkOpenDuration;
        r \<leftarrow> qOp env (\<lambda>q now. RetryWordRecheckWrite now (itemID item) wait (errText cause));
        case driverErr r of
          Some e \<Rightarrow> ret (Some (Wrapf (itemMsg ''worker: retry word recheck write '' item '' after '' @ errText cause @ lit '': '') e []))
        | None \<Rightarrow> classifyWordRecheckFailure cause })"

definition releaseWordRecheckOff :: "PassEnv \<Rightarrow> WorkItem \<Rightarrow> (Worker, goerr option) state" where
  "releaseWordRecheckOff env item = do {
     r \<leftarrow> qOp env (\<lambda>q now. DeferWordRecheck now (itemID item) 0 0 (lit ''worker: word recheck: output.word_sync_mode is off'')
            (Some FailureOther));
     case driverErr r of
       Some e \<Rightarrow> ret (Some (Wrapf (itemMsg ''worker: release word recheck '' item '' under word_sync_mode off: '') e []))
     | None \<Rightarrow> ret None }"

definition wordTimingText :: "WordTimingState \<Rightarrow> gotext" where
  "wordTimingText st = (case st of WordTimingServed \<Rightarrow> lit ''served'' | WordTimingAbsent \<Rightarrow> lit ''absent'' | WordTimingQueued \<Rightarrow> lit ''queued'')"

text \<open>\<open>onSettled\<close> runs when the settle did, and when the row is no longer the worker's.\<close>

definition settleWordRecheckThen :: "PassEnv \<Rightarrow> WorkItem \<Rightarrow> WordTimingState \<Rightarrow> (Worker, unit) state \<Rightarrow> (Worker, goerr option) state" where
  "settleWordRecheckThen env item st onSettled = do {
     gen \<leftarrow> reads wordGeneration;
     r \<leftarrow> qOp env (\<lambda>q now. SettleWordRecheck now (itemID item) st gen);
     case driverErr r of
       None \<Rightarrow> do { _ \<leftarrow> onSettled; ret None }
     | Some e \<Rightarrow> deferWordRecheck env item (plain (Wrapf (lit ''worker: settle word recheck '' @ wordTimingText st @ lit '': '') e [])) }"

definition settleWordRecheck :: "PassEnv \<Rightarrow> WorkItem \<Rightarrow> (Worker, goerr option) state" where
  "settleWordRecheck env item = settleWordRecheckThen env item WordTimingAbsent (ret ())"

section \<open>Writing\<close>

primrec wordWriteLoop :: "PassEnv \<Rightarrow> Song \<Rightarrow> OutputPath list \<Rightarrow> nat \<Rightarrow> OutputPath list
    \<Rightarrow> goerr option \<Rightarrow> bool \<Rightarrow> (Worker, WriteEnd) state" where
  "wordWriteLoop env song [] i missing missingErr landed = ret (Ended [] missing missingErr landed)"
| "wordWriteLoop env song (p # ps) i missing missingErr landed = do {
     r \<leftarrow> wrote song p (wrWrite (peWriter env) i song p);
     case r of
       Wrote \<Rightarrow> wordWriteLoop env song ps (Suc i) missing missingErr True
     | DirMissing e \<Rightarrow> wordWriteLoop env song ps (Suc i) (missing @ [p]) (firstErr missingErr e) landed
     | _ \<Rightarrow> ret (Broke (the (writeErr r)) landed) }"

definition failWordWrite :: "PassEnv \<Rightarrow> WorkItem \<Rightarrow> goerr \<Rightarrow> (Worker, goerr option) state" where
  "failWordWrite env item e =
     (if errorsIs e LyrErrBlocked
      then deferWordRecheck env item (plain (Wrapf (itemMsg ''worker: write item '' item '': '') (Sentinel ErrAllResultsBlocked) []))
      else deferWordRecheck env item (wrapCause (itemMsg ''worker: write item '' item '' output: '') (scrubWritePaths e)))"

definition wordTier :: "PassEnv \<Rightarrow> Song \<Rightarrow> OutputPath list \<Rightarrow> gotext" where
  "wordTier env song ps = (case wrLanding (peWriter env) of
       Some (_, landed) \<Rightarrow> (if wordsLandedOver landed song ps then SyncTierWord else SyncTierLine)
     | None \<Rightarrow> SyncTierLine)"

definition stampWordWrite :: "PassEnv \<Rightarrow> WorkItem \<Rightarrow> Song \<Rightarrow> OutputPath list \<Rightarrow> (Worker, goerr option) state" where
  "stampWordWrite env item song written = do {
     _ \<leftarrow> advisory (qStamp env (SetProviderLane (itemID item) (WinningLane song) (RecordedUpstream song)));
     _ \<leftarrow> stampCompletionProvenance env item song;
     _ \<leftarrow> stampTimingOutcome env item song (GuardDurationSeconds song) None;
     tierErr \<leftarrow> stampOrClearSyncTier env item (wordTier env song written);
     case tierErr of
       Some e \<Rightarrow> retryWordRecheckWrite env item e
     | None \<Rightarrow> do {
         _ \<leftarrow> noFailures;
         settleWordRecheckThen env item WordTimingServed (recordSourceEvent (WinningLane song) (wordTier env song written)) } }"

definition writeWordRecheck :: "PassEnv \<Rightarrow> WorkItem \<Rightarrow> Track \<Rightarrow> Song \<Rightarrow> (Worker, goerr option) state" where
  "writeWordRecheck env item track song0 =
     (let song = StampBlockIdentity (blockKey env item) (song0\<lparr>AudioDurationSeconds := TrackLength track, AudioPath := itemSource item\<rparr>);
          ps = outputPaths item
      in do {
        fin \<leftarrow> wordWriteLoop env song ps 0 [] None False;
        case fin of
          Ended _ missing missingErr landed \<Rightarrow> do {
            ok \<leftarrow> missingSettles env [] missing landed;
            if \<not> ok then failWordWrite env item (the missingErr)
            else stampWordWrite env item song (withoutPaths ps missing) }
        | Broke e _ \<Rightarrow> failWordWrite env item e
        | AllBlocked \<Rightarrow> ret None })"

section \<open>The recheck\<close>

text \<open>A word result that the guard, the promotion rule and the verifier let through.\<close>

definition acceptWordResult :: "PassEnv \<Rightarrow> WorkItem \<Rightarrow> Track \<Rightarrow> Song \<Rightarrow> (Worker, goerr option) state" where
  "acceptWordResult env item track song = do {
     w \<leftarrow> reads id;
     if guardReject w song then settleWordRecheck env item
     else case verify env w item song (Confidence (peKey env) (itemTrack item) (STrack song)) of
       Some e \<Rightarrow> (if errorsIs e WrkVerificationRejected then settleWordRecheck env item
                 else deferWordRecheck env item (plain e))
     | None \<Rightarrow> do {
         now \<leftarrow> tick env;
         let fetched = song\<lparr>FetchedAt := now\<rparr>;
         storeErr \<leftarrow> (if usesCache item then store env track fetched else ret None);
         case storeErr of
           Some e \<Rightarrow> deferWordRecheck env item (plain e)
         | None \<Rightarrow> writeWordRecheck env item track fetched } }"

definition runWordRecheck :: "PassEnv \<Rightarrow> WorkItem \<Rightarrow> Track \<Rightarrow> (Worker, goerr option) state" where
  "runWordRecheck env item track =
     (if wordSyncOff env then do { _ \<leftarrow> noFailures; releaseWordRecheckOff env item }
      else do {
        w \<leftarrow> reads id;
        case wordOrchestrator w of
          None \<Rightarrow> settleWordRecheck env item
        | Some orc \<Rightarrow> do {
            ans \<leftarrow> wordDispatch env item orc track;
            case ans of (song, err) \<Rightarrow>
              (case err of
                 Some e \<Rightarrow>
                   (if ClassifyOutcome err = OutcomeBenignMiss \<and> WordAns song = WordAnswerAbsent
                    then do { _ \<leftarrow> noFailures; settleWordRecheck env item }
                    else deferWordRecheck env item (plain e))
               | None \<Rightarrow> do {
                   _ \<leftarrow> alters (\<lambda>w. w\<lparr>wkContacted := contactedProvider song\<rparr>);
                   if wordRecheckWritable song (TrackLength track) then acceptWordResult env item track song
                   else if WordAns song = WordAnswerAbsent then do { _ \<leftarrow> noFailures; settleWordRecheck env item }
                   else deferWordRecheck env item (plain (Sentinel WrkNoWordAnswer)) }) } })"

end
