(* ===== verification/WorkerPass.thy ===== *)
theory WorkerPass
  imports WorkerRecheck
begin

text \<open>
  One pass of the worker (\<open>RunOnce\<close> of \<open>worker.go\<close>), in the steps its code has: the gate and the
  claim, what is settled before a fetch, the fetch, its errors, the checks on what it found, the
  write and the stamps, the settle; then the run loop around passes.
\<close>

section \<open>The title rule ahead of the rest\<close>

definition markTitle :: "PassEnv \<Rightarrow> WorkItem \<Rightarrow> Track
    \<Rightarrow> (nat \<Rightarrow> Song \<Rightarrow> OutputPath \<Rightarrow> WriteRes) \<times> (Song \<Rightarrow> OutputPath \<Rightarrow> goerr + KeptError option)
    \<Rightarrow> (Worker, goerr option) state" where
  "markTitle env item track writer = do {
     pre \<leftarrow> preflightOutputs env item;
     if snd pre then completeTitleInstrumental env (fst pre) track writer
     else fail env item (plain (Wrapf (itemMsg ''worker: item '' item '' output: '') (Sentinel LyrErrOutputDirMissing) [])) }"

text \<open>\<open>None\<close>: not handled.\<close>

definition titleRuleGate :: "PassEnv \<Rightarrow> WorkItem \<Rightarrow> Track \<Rightarrow> (Worker, goerr option option) state" where
  "titleRuleGate env item track = do {
     w \<leftarrow> reads id;
     if \<not> titleRuleSettles env w item track then ret None
     else if wordItem item then
       (if wordSyncOff env then ret None
        else do {
          _ \<leftarrow> notContacted;
          _ \<leftarrow> noFailures;
          err \<leftarrow> settleWordRecheck env item;
          ret (Some err) })
     else if upgradeItem item then do {
       _ \<leftarrow> notContacted;
       err \<leftarrow> settleUpgradeTrip env item;
       ret (Some err) }
     else case wrAbsent (peWriter env) of
       None \<Rightarrow> ret None
     | Some writer \<Rightarrow> do {
         _ \<leftarrow> notContacted;
         err \<leftarrow> markTitle env item track writer;
         ret (Some err) } }"

section \<open>The end of a fetch that found something\<close>

definition stampLanding :: "PassEnv \<Rightarrow> WorkItem \<Rightarrow> Song \<Rightarrow> bool \<Rightarrow> (Worker, unit) state" where
  "stampLanding env item song cacheHit =
     (if cacheHit \<and> WinningLane song = [] then advisory (qStamp env (ClearProviderLane (itemID item)))
      else stampLane env item song)"

text \<open>A fresh song is stored unless the row keeps out of the cache or the timing rule refuses it.\<close>

definition storeFresh :: "PassEnv \<Rightarrow> WorkItem \<Rightarrow> Track \<Rightarrow> Song \<Rightarrow> bool \<Rightarrow> (Worker, goerr option) state" where
  "storeFresh env item track song cacheHit =
     (if \<not> cacheHit \<and> usesCache item \<and> \<not> RefusedByTimingGuard song (TrackLength track) then store env track song else ret None)"

definition settleLanded :: "PassEnv \<Rightarrow> WorkItem \<Rightarrow> Song \<Rightarrow> bool \<Rightarrow> OutputPath list \<Rightarrow> (Worker, goerr option) state" where
  "settleLanded env item song cacheHit written = do {
     _ \<leftarrow> (if outcomeTypeFromSong song = [] then ret ()
          else advisory (qStamp env (SetOutcomeType (itemID item) (outcomeTypeFromSong song))));
     _ \<leftarrow> stampCompletionProvenance env item song;
     gen \<leftarrow> reads (\<lambda>w. verdictGeneration w cacheHit);
     _ \<leftarrow> stampTimingOutcome env item song (GuardDurationSeconds song) gen;
     _ \<leftarrow> stampWordTiming env item written song;
     let tier = ordinarySyncTier env written song;
     tierErr \<leftarrow> stampOrClearSyncTier env item tier;
     case tierErr of
       Some e \<Rightarrow> failStuckItem env item capNever e
     | None \<Rightarrow> do {
         r \<leftarrow> qOp env (\<lambda>q now. completeOnce q now (itemID item));
         case r of
           Inl e \<Rightarrow> failStuckItem env item capLanded (Wrapf (itemMsg ''worker: complete item '' item '': '') e [])
         | Inr _ \<Rightarrow> do {
             _ \<leftarrow> (if cacheHit then ret ()
                  else recordSourceEvent (WinningLane song) (deliveredEvent (outcomeTypeFromSong song) tier));
             _ \<leftarrow> noFailures;
             ret None } } }"

definition writeOutputs :: "PassEnv \<Rightarrow> WorkItem \<Rightarrow> Track \<Rightarrow> Song \<Rightarrow> bool \<Rightarrow> (Worker, goerr option) state" where
  "writeOutputs env item track song cacheHit = do {
     let ps = outputPaths item;
     fin \<leftarrow> writeLoop env item song ps 0 [] [] None False;
     case fin of
       AllBlocked \<Rightarrow> settleBlocked env item
     | Broke e landed \<Rightarrow>
         failPass env item (wrapCause (itemMsg ''worker: write item '' item '' output: '') (scrubWritePaths e)) landed
     | Ended kept missing missingErr landed \<Rightarrow> do {
         ok \<leftarrow> missingSettles env kept missing landed;
         if \<not> ok then
           failPass env item (wrapCause (itemMsg ''worker: write item '' item '' output: '') (scrubWritePaths (the missingErr))) landed
         else if length kept = length ps - length missing then completeKept env item kept
         else do {
           _ \<leftarrow> stampLanding env item song cacheHit;
           storeErr \<leftarrow> storeFresh env item track song cacheHit;
           case storeErr of
             Some e \<Rightarrow> failPass env item (plain e) landed
           | None \<Rightarrow> settleLanded env item song cacheHit (withoutPaths ps missing) } } }"

text \<open>
  An upgrade trip keeps the file on disk unless the song is promoted as it is and, over a mis-synced
  file, judged ok against the length of the audio.
\<close>

definition upgradeKeepsFile :: "WorkItem \<Rightarrow> Track \<Rightarrow> Song \<Rightarrow> bool" where
  "upgradeKeepsFile item track song =
     (case DecidePromotion song of (decision, verdict, _) \<Rightarrow>
        decision \<noteq> PromoteAsIs \<or>
        (timing_outcome (timing (fst item)) = Some (timingName MisSynced) \<and> (TrackLength track \<le> 0 \<or> verdict \<noteq> Some Ok)))"

definition writeVetted :: "PassEnv \<Rightarrow> WorkItem \<Rightarrow> Track \<Rightarrow> Song \<Rightarrow> bool \<Rightarrow> (Worker, goerr option) state" where
  "writeVetted env item track song0 cacheHit =
     (let song = song0\<lparr>AudioDurationSeconds := TrackLength track, AudioPath := itemSource item\<rparr>
      in if upgradeItem item \<and> upgradeKeepsFile item track song then settleUpgradeTrip env item
         else writeOutputs env item track song cacheHit)"

text \<open>The checks on a fresh song: the verifier, then the script guard.\<close>

definition vetFresh :: "PassEnv \<Rightarrow> WorkItem \<Rightarrow> Track \<Rightarrow> Song \<Rightarrow> (Worker, goerr option) state" where
  "vetFresh env item track song0 = do {
     now \<leftarrow> tick env;
     let song = song0\<lparr>FetchedAt := now\<rparr>;
     _ \<leftarrow> recordHitCounter (WinningLane song);
     _ \<leftarrow> recordLaneAttempts (itemID item) (LaneAttempts song);
     w \<leftarrow> reads id;
     case verify env w item song (Confidence (peKey env) (itemTrack item) (STrack song)) of
       Some e \<Rightarrow> do {
         _ \<leftarrow> (if upgradeItem item then ret () else stampLane env item song);
         fail env item (plain e) }
     | None \<Rightarrow>
        (if guardReject w song then settleGuardRejected env item song
         else writeVetted env item track song False) }"

definition finishFound :: "PassEnv \<Rightarrow> WorkItem \<Rightarrow> Track \<Rightarrow> Song \<Rightarrow> bool \<Rightarrow> (Worker, goerr option) state" where
  "finishFound env item track song cacheHit =
     (if \<not> cacheHit \<and> WinningLane song = detectorLaneName then do {
        _ \<leftarrow> recordHitCounter (WinningLane song);
        _ \<leftarrow> recordLaneAttempts (itemID item) (LaneAttempts song);
        completeDetectorInstrumental env item song }
      else if cacheHit then writeVetted env item track song True
      else vetFresh env item track song)"

section \<open>The end of a fetch that failed\<close>

definition finishMiss :: "PassEnv \<Rightarrow> WorkItem \<Rightarrow> Song \<Rightarrow> goerr \<Rightarrow> (Worker, goerr option) state" where
  "finishMiss env item song e = do {
     _ \<leftarrow> recordMisses (LaneAttempts song);
     _ \<leftarrow> recordLaneAttempts (itemID item) (LaneAttempts song);
     _ \<leftarrow> stampDetectorMissTelemetry env item;
     deferThenReset env item (plain e) }"

definition finishUnavailable :: "PassEnv \<Rightarrow> WorkItem \<Rightarrow> goerr \<Rightarrow> (Worker, goerr option) state" where
  "finishUnavailable env item e = do {
     _ \<leftarrow> stampDetectorMissTelemetry env item;
     memo \<leftarrow> reads wkMemo;
     if errorsIs e ErrNoProviderAsked \<and> (case memo of None \<Rightarrow> False | Some m \<Rightarrow> \<not> detectErrored m)
     then parkUnaskedRow env item
     else do {
       err \<leftarrow> releaseItem env item ''worker: release item '' '' after lanes unavailable: '';
       ret (case err of Some d \<Rightarrow> Some d | None \<Rightarrow> Some (Sentinel WrkLanesUnavailable)) } }"

definition finishError :: "PassEnv \<Rightarrow> WorkItem \<Rightarrow> Song \<Rightarrow> goerr \<Rightarrow> (Worker, goerr option) state" where
  "finishError env item song e =
     (if errorsIs e ErrAllResultsBlocked then settleBlocked env item
      else case classifyErr e of
        OutcomeUnavailable \<Rightarrow> finishUnavailable env item e
      | OutcomeLaneNotReady \<Rightarrow> do {
          err \<leftarrow> releaseItem env item ''worker: release item '' '' after detector not ready: '';
          case err of Some d \<Rightarrow> ret (Some d) | None \<Rightarrow> do { _ \<leftarrow> noFailures; ret None } }
      | OutcomeAuthRateLimit \<Rightarrow> do {
          err \<leftarrow> releaseAfterThrottle env item;
          ret (case err of Some d \<Rightarrow> Some d | None \<Rightarrow> Some (Sentinel WrkThrottled)) }
      | OutcomeBenignMiss \<Rightarrow> finishMiss env item song e
      | OutcomeLaneOutage \<Rightarrow> finishMiss env item song e
      | _ \<Rightarrow> do {
          err \<leftarrow> fail env item (plain e);
          _ \<leftarrow> (if err = None \<and> asPartialFailure e then noFailures else ret ());
          ret err })"

section \<open>The fetch\<close>

text \<open>
  A timing-refused result with a lane untried waits; with the wait budget spent it goes on as the
  result it is (\<open>None\<close>), or as blocked.
\<close>

definition finishAnswer :: "PassEnv \<Rightarrow> WorkItem \<Rightarrow> Track \<Rightarrow> Song \<Rightarrow> bool \<Rightarrow> goerr option \<Rightarrow> (Worker, goerr option) state" where
  "finishAnswer env item track song cacheHit err =
     (case err of
        Some e \<Rightarrow> finishError env item song e
      | None \<Rightarrow> do {
          _ \<leftarrow> alters (\<lambda>w. w\<lparr>wkContacted := contactedProvider song\<rparr>);
          finishFound env item track (StampBlockIdentity (blockKey env item) song) cacheHit })"

definition finishFetch :: "PassEnv \<Rightarrow> WorkItem \<Rightarrow> Track \<Rightarrow> Song \<Rightarrow> bool \<Rightarrow> goerr option \<Rightarrow> (Worker, goerr option) state" where
  "finishFetch env item track song cacheHit err =
     (case err of
        Some e \<Rightarrow>
          (if classifyErr e = OutcomeRefusedUntried then do {
             _ \<leftarrow> stampDetectorMissTelemetry env item;
             deferred \<leftarrow> deferRefusedUntried env item e;
             case deferred of
               Some result \<Rightarrow> ret result
             | None \<Rightarrow> finishAnswer env item track song cacheHit
                 (case asRefusedUntried e of Some (_, True) \<Rightarrow> Some (Sentinel ErrAllResultsBlocked) | _ \<Rightarrow> None) }
           else finishAnswer env item track song cacheHit err)
      | None \<Rightarrow> finishAnswer env item track song cacheHit None)"

definition bypassCache :: "Worker \<Rightarrow> WorkItem \<Rightarrow> bool" where
  "bypassCache w item \<longleftrightarrow> upgradeItem item \<or> \<not> usesCache item \<or>
     (wkProvidersVersion w \<noteq> 0 \<and> providers_version (fst item) \<noteq> wkProvidersVersion w)"

definition fetch :: "PassEnv \<Rightarrow> WorkItem \<Rightarrow> Track \<Rightarrow> (Worker, goerr option) state" where
  "fetch env item track = do {
     w \<leftarrow> reads id;
     let path = (if skipDetectorFirst env w track then [] else detectorPathFor w item);
     _ \<leftarrow> primeDetectorMemo item;
     early \<leftarrow> weakTitleDetectorFirst env item track path;
     case early of (agreed, detectorDone, carried) \<Rightarrow>
       (case agreed of
          Some song \<Rightarrow> finishFetch env item track song False None
        | None \<Rightarrow> do {
            found \<leftarrow> songFor env item track (if detectorDone then [] else path) (bypassCache w item);
            case found of (song, cacheHit, err) \<Rightarrow>
              finishFetch env item track song cacheHit
                (if carried \<noteq> None \<and> ClassifyOutcome err = OutcomeBenignMiss then carried else err) }) }"

section \<open>Before the fetch\<close>

definition resolvedTrack :: "WorkItem \<Rightarrow> Track" where
  "resolvedTrack item = (itemTrack item)\<lparr>ArtistName := ResolveArtist (AlbumArtist (itemTrack item)) (ArtistName (itemTrack item))\<rparr>"

definition noOutputs :: "PassEnv \<Rightarrow> WorkItem \<Rightarrow> (Worker, goerr option) state" where
  "noOutputs env item = do {
     handled \<leftarrow> (case peHealer env of
         Some he \<Rightarrow> if upgradeItem item then settleGoneTrip env he item else ret None
       | None \<Rightarrow> ret None);
     case handled of
       Some result \<Rightarrow> ret result
     | None \<Rightarrow> fail env item (plain (Wrapf (itemMsg ''worker: item '' item '' output: '') (Sentinel LyrErrOutputDirMissing) [])) }"

definition ordinaryPass :: "PassEnv \<Rightarrow> WorkItem \<Rightarrow> Track \<Rightarrow> (Worker, goerr option) state" where
  "ordinaryPass env item0 track = do {
     pre \<leftarrow> preflightOutputs env item0;
     case pre of (item, ok) \<Rightarrow>
       (if \<not> ok then noOutputs env item
        else do {
          _ \<leftarrow> (if upgradeItem item \<and> peHealer env \<noteq> None then clearGoneMark env item else ret ());
          fetch env item track }) }"

definition claimedPass :: "PassEnv \<Rightarrow> WorkItem \<Rightarrow> (Worker, goerr option) state" where
  "claimedPass env item = do {
     parked \<leftarrow> parkIfLibraryOffline env item;
     case parked of
       Some (Some e) \<Rightarrow> ret (Some e)
     | Some None \<Rightarrow> do { _ \<leftarrow> notContacted; ret None }
     | None \<Rightarrow> do {
         track \<leftarrow> refreshRecordingIdentity env item (resolvedTrack item);
         handled \<leftarrow> titleRuleGate env item track;
         case handled of
           Some result \<Rightarrow> ret result
         | None \<Rightarrow> (if wordItem item then runWordRecheck env item track else ordinaryPass env item track) } }"

definition RunOnce :: "PassEnv \<Rightarrow> (Worker, goerr option) state" where
  "RunOnce env = do {
     _ \<leftarrow> alters (\<lambda>w. w\<lparr>wkContacted := True\<rparr>);
     case peCtx env of
       Some e \<Rightarrow> ret (Some e)
     | None \<Rightarrow> do {
         allOpen \<leftarrow> allLanesUnavailable env;
         if allOpen then ret (Some (Sentinel WrkLanesUnavailable))
         else do {
           claimed \<leftarrow> qOp env (\<lambda>q now. dequeueOnce q now (peWall env) (peRandom env));
           case claimed of
             Inl e \<Rightarrow> ret (Some (if errorsIs e SqlErrNoRows then Sentinel WrkQueueEmpty
                         else Wrapf (lit ''worker: dequeue: '') e []))
           | Inr item \<Rightarrow> claimedPass env item } } }"

section \<open>The run loop\<close>

text \<open>
  The passes of a run, each with whether the context is done after the wait before it, after it, and
  after the pause behind it, if that ends the run and how (\<open>pause\<close>). \<open>None\<close>: the run goes on.
\<close>

record PassCtx =
  pcEnv :: PassEnv
  pcAfterSleep :: bool
  pcAfter :: bool
  pcPause :: "goerr option"

definition endsRun :: "goerr \<Rightarrow> bool \<Rightarrow> goerr option" where
  "endsRun e ctxDone =
     (if errorsIs e WrkIdle then None
      else if ctxDone \<and> (errorsIs e CtxCanceled \<or> errorsIs e CtxDeadlineExceeded) then None
      else Some e)"

definition runStep :: "bool \<Rightarrow> PassCtx \<Rightarrow> (Worker, goerr option option) state" where
  "runStep paced pc = do {
     failures \<leftarrow> reads wkFailures;
     if failures > 0 \<and> pcAfterSleep pc then ret (Some None)
     else do {
       err \<leftarrow> RunOnce (pcEnv pc);
       case err of
         Some e \<Rightarrow> ret (Some (endsRun e (pcAfter pc)))
       | None \<Rightarrow>
          (if pcAfter pc then ret (Some None)
           else do {
             w \<leftarrow> reads id;
             if wkFailures w > 0 \<or> \<not> paced \<or> \<not> wkContacted w then ret None
             else case pcPause pc of
               None \<Rightarrow> ret None
             | Some e \<Rightarrow> ret (Some (if errorsIs e CtxCanceled \<or> errorsIs e CtxDeadlineExceeded then None else Some e)) }) } }"

text \<open>The delay before a pass.\<close>

definition runDelay :: "Worker \<Rightarrow> duration option" where
  "runDelay w = (if wkFailures w > 0 then Some (Geometric (wkFailures w) (wkBaseBackoff w) (wkMaxBackoff w)) else None)"

primrec runLoop :: "bool \<Rightarrow> PassCtx list \<Rightarrow> (Worker, goerr option option) state" where
  "runLoop paced [] = ret None"
| "runLoop paced (pc # pcs) = do {
     fin \<leftarrow> runStep paced pc;
     case fin of Some result \<Rightarrow> ret (Some result) | None \<Rightarrow> runLoop paced pcs }"

end
