(* ===== verification/WorkerRules.thy ===== *)
theory WorkerRules
  imports WorkerPass
begin

text \<open>
  The calculus for passes: what a computation of the worker makes of a predicate on its state, rule by
  rule over the monad. The locales \<open>row_invariant\<close> and \<open>pass_invariant\<close> state what the queue calls of a
  pass on row \<open>i\<close> keep of a predicate on the tables; what whole passes keep is proved in them once.
\<close>

section \<open>Triples\<close>

definition triple :: "(Worker \<Rightarrow> bool) \<Rightarrow> (Worker, 'a) state \<Rightarrow> ('a \<Rightarrow> Worker \<Rightarrow> bool) \<Rightarrow> bool" where
  "triple P m Q \<longleftrightarrow> (\<forall>w. P w \<longrightarrow> (case run_state m w of (a, w') \<Rightarrow> Q a w'))"

lemma tripleI: "(\<And>w a w'. P w \<Longrightarrow> run_state m w = (a, w') \<Longrightarrow> Q a w') \<Longrightarrow> triple P m Q"
  by (auto simp: triple_def)

lemma tripleD: "triple P m Q \<Longrightarrow> P w \<Longrightarrow> run_state m w = (a, w') \<Longrightarrow> Q a w'"
  by (auto simp: triple_def)

lemma triple_return: "(\<And>w. P w \<Longrightarrow> Q a w) \<Longrightarrow> triple P (ret a) Q"
  by (simp add: triple_def)

lemma triple_bind: "triple P m R \<Longrightarrow> (\<And>a. triple (R a) (f a) Q) \<Longrightarrow> triple P (State_Monad.bind m f) Q"
  by (fastforce simp: triple_def split: prod.splits)

lemma triple_conseq: "triple P m Q \<Longrightarrow> (\<And>w. P' w \<Longrightarrow> P w) \<Longrightarrow> (\<And>a w. Q a w \<Longrightarrow> Q' a w) \<Longrightarrow> triple P' m Q'"
  by (fastforce simp: triple_def)

lemma triple_false: "(\<And>w. \<not> P w) \<Longrightarrow> triple P m Q"
  by (simp add: triple_def)

section \<open>Invariants\<close>

definition keeps :: "(Worker \<Rightarrow> bool) \<Rightarrow> (Worker, 'a) state \<Rightarrow> bool" where
  "keeps P m \<longleftrightarrow> triple P m (\<lambda>_. P)"

named_theorems keep "what keeps an invariant"

lemma keeps_return [keep]: "keeps P (ret a)"
  by (simp add: keeps_def triple_return)

lemma keeps_bind [keep]: "keeps P m \<Longrightarrow> (\<And>a. keeps P (f a)) \<Longrightarrow> keeps P (State_Monad.bind m f)"
  unfolding keeps_def by (rule triple_bind)

text \<open>The same with what is known of the value handed on.\<close>

lemma keeps_bind_value: "keeps P m \<Longrightarrow> (\<And>a w w'. run_state m w = (a, w') \<Longrightarrow> keeps P (f a)) \<Longrightarrow> keeps P (State_Monad.bind m f)"
  unfolding keeps_def triple_def by (auto split: prod.split) (metis case_prodD old.prod.case)

lemma keeps_reads [keep]: "keeps P (reads f)"
  by (simp add: keeps_def triple_def reads_def)

lemma keeps_if [keep]: "(b \<Longrightarrow> keeps P m) \<Longrightarrow> (\<not> b \<Longrightarrow> keeps P n) \<Longrightarrow> keeps P (if b then m else n)"
  by simp

lemma keeps_let [keep]: "(\<And>x. keeps P (f x)) \<Longrightarrow> keeps P (Let a f)"
  by simp

lemma keeps_cases [keep]:
  "keeps P m \<Longrightarrow> (\<And>y. keeps P (f y)) \<Longrightarrow> keeps P (case x of None \<Rightarrow> m | Some y \<Rightarrow> f y)"
  "(\<And>e. keeps P (g e)) \<Longrightarrow> (\<And>y. keeps P (h y)) \<Longrightarrow> keeps P (case s of Inl e \<Rightarrow> g e | Inr y \<Rightarrow> h y)"
  "(\<And>a b. keeps P (k a b)) \<Longrightarrow> keeps P (case p of (a, b) \<Rightarrow> k a b)"
  "keeps P n \<Longrightarrow> (\<And>y ys. keeps P (c y ys)) \<Longrightarrow> keeps P (case l of [] \<Rightarrow> n | y # ys \<Rightarrow> c y ys)"
  "keeps P t \<Longrightarrow> keeps P f' \<Longrightarrow> keeps P (case b of True \<Rightarrow> t | False \<Rightarrow> f')"
  by (auto split: option.split sum.split prod.split list.split bool.split)

lemma keeps_worker_cases [keep]:
  "keeps P a \<Longrightarrow> (\<And>k. keeps P (b k)) \<Longrightarrow> (\<And>e. keeps P (c e)) \<Longrightarrow> (\<And>e. keeps P (d e)) \<Longrightarrow> (\<And>e. keeps P (f e)) \<Longrightarrow>
     keeps P (case r of Wrote \<Rightarrow> a | Kept k \<Rightarrow> b k | DirMissing e \<Rightarrow> c e | Refused e \<Rightarrow> d e | WriteFailed e \<Rightarrow> f e)"
  "keeps P m \<Longrightarrow> (\<And>e l. keeps P (g e l)) \<Longrightarrow> (\<And>k s e l. keeps P (h k s e l)) \<Longrightarrow>
     keeps P (case fin of AllBlocked \<Rightarrow> m | Broke e l \<Rightarrow> g e l | Ended k s e l \<Rightarrow> h k s e l)"
  "keeps P s1 \<Longrightarrow> keeps P s2 \<Longrightarrow> keeps P s3 \<Longrightarrow> keeps P (case st of SourceUnproven \<Rightarrow> s1 | SourcePresent \<Rightarrow> s2 | SourceGone \<Rightarrow> s3)"
  "keeps P o1 \<Longrightarrow> keeps P o2 \<Longrightarrow> keeps P o3 \<Longrightarrow> keeps P o4 \<Longrightarrow> keeps P o5 \<Longrightarrow> keeps P o6 \<Longrightarrow> keeps P o7 \<Longrightarrow> keeps P o8 \<Longrightarrow>
     keeps P (case cl of OutcomeSuccess \<Rightarrow> o1 | OutcomeAuthRateLimit \<Rightarrow> o2 | OutcomeBenignMiss \<Rightarrow> o3 | OutcomeUnavailable \<Rightarrow> o4
       | OutcomeTransport \<Rightarrow> o5 | OutcomeLaneOutage \<Rightarrow> o6 | OutcomeLaneNotReady \<Rightarrow> o7 | OutcomeRefusedUntried \<Rightarrow> o8)"
  by (auto split: WriteRes.split WriteEnd.split SourceState.split OutcomeClass.split)

lemma keeps_forEach [keep]: "(\<And>x. keeps P (f x)) \<Longrightarrow> keeps P (forEach f xs)"
  by (induction xs) (auto intro!: keep)

section \<open>What leaves the tables alone\<close>

text \<open>A computation that does not touch the tables keeps every predicate on them.\<close>

definition onDB :: "(QDB \<Rightarrow> bool) \<Rightarrow> Worker \<Rightarrow> bool" where
  "onDB P w = P (wkDB w)"

lemma keeps_alters [keep]: "(\<And>w. wkDB (f w) = wkDB w) \<Longrightarrow> keeps (onDB P) (alters f)"
  by (simp add: keeps_def triple_def alters_def onDB_def)

lemma keeps_tick [keep]: "keeps (onDB P) (tick env)"
  by (simp add: keeps_def triple_def tick_def onDB_def)

end
