(* ===== verification/WorkerKeeps.thy ===== *)
theory WorkerKeeps
  imports WorkerRules
begin

text \<open>
  What a pass keeps. \<open>stamp_invariant\<close> lists the calls that stamp columns of the row, \<open>row_invariant\<close> adds
  those of a word recheck and those that give a row back uncharged, \<open>pass_invariant\<close> the calls that settle,
  fail or defer a row. A predicate on the tables that these calls keep is kept by every pass.
\<close>

section \<open>Rows that are stamped\<close>

locale stamp_invariant =
  fixes P :: "QDB \<Rightarrow> bool" and i :: int
  assumes stamps: "P db \<Longrightarrow> P (SetProviderLane i lane up db)" "P db \<Longrightarrow> P (ClearProviderLane i db)"
      "P db \<Longrightarrow> P (SetOutcomeType i outcome db)" "P db \<Longrightarrow> P (SetInstrumentalResult i result tel db)"
      "P db \<Longrightarrow> P (SetCompletionProvenance i prov db)" "P db \<Longrightarrow> P (ClearWordTimingState i db)"
      "P db \<Longrightarrow> P (ClearSourceGone i db)" "P db \<Longrightarrow> P (snd (SetTimingOutcome i rec db))"
      "P db \<Longrightarrow> P (snd (SetSyncTier i tier db))" "P db \<Longrightarrow> P (snd (healOutputPaths i old new db))"
begin

abbreviation K :: "(Worker, 'a) state \<Rightarrow> bool" where
  "K \<equiv> keeps (onDB P)"

lemma qOp_keeps: "(\<And>q now db. P db \<Longrightarrow> P (snd (f q now db))) \<Longrightarrow> K (qOp env f)"
  by (auto simp: keeps_def triple_def qOp_def onDB_def split: prod.split option.split) (metis snd_conv)

lemma qVal_keeps: "(\<And>q now db. P db \<Longrightarrow> P (snd (f q now db))) \<Longrightarrow> K (qVal env f)"
  unfolding qVal_def by (rule qOp_keeps) (simp add: case_prod_beta)

lemma qStamp_keeps: "(\<And>db. P db \<Longrightarrow> P (f db)) \<Longrightarrow> K (qStamp env f)"
  unfolding qStamp_def by (rule qOp_keeps) simp

lemma advisory_keeps: "K m \<Longrightarrow> K (advisory m)"
  unfolding advisory_def by (intro keep)

lemma records_keep: "K (emit ev)" "K (recordSourceEvent lane event)" "K (recordHitCounter lane)"
  "K (recordMisses attempted)" "K (recordLaneAttempts n attempted)" "K noFailures" "K notContacted"
  "K (primeDetectorMemo item)" "K (onRoots g)"
  unfolding recordSourceEvent_def recordHitCounter_def recordMisses_def recordMiss_def recordLaneAttempts_def
    emit_def noFailures_def notContacted_def primeDetectorMemo_def onRoots_def
  by (intro keep; simp)+

lemmas basic = keep qOp_keeps qVal_keeps qStamp_keeps advisory_keeps records_keep

lemma roots_keep: "K (libraryRoots env he)" "K (rootIsOnline env he r)" "K (noteOffline env r)" "K (skippedAllStale env missing)"
proof -
  show "K (libraryRoots env he)" "K (noteOffline env r)" and r: "\<And>he r. K (rootIsOnline env he r)"
    by (auto simp: libraryRoots_def noteOffline_def rootIsOnline_def Let_def intro!: basic)
  have "K (allStale env he ps)" for he ps
    by (induction ps) (auto intro!: basic r)
  then show "K (skippedAllStale env missing)"
    unfolding skippedAllStale_def by (intro basic)
qed

lemma metadata_keep: "K (refreshRecordingIdentity env item track)"
  unfolding refreshRecordingIdentity_def resolveMetadata_def readAndBankMetadata_def recordDuration_def
  by (intro basic)

lemma writes_keep: "K (wrote song p r)" "K (writeFor env item n song p)" "K (missingSettles env kept missing landed)"
  unfolding wrote_def writeFor_def missingSettles_def by (intro basic roots_keep)+

lemma loops_keep:
  "K (writeLoop env item song ps n kept missing err landed)"
  "K (markerLoop env item song ps n kept missing err landed)"
  "K (titleLoop ifAbsent probe occupied song ps n kept missing err landed)"
  "K (wordWriteLoop env song ps n missing err landed)"
  by (induction ps arbitrary: n kept missing err landed) (auto intro!: basic writes_keep)

lemma dispatches_keep: "K (dispatch env item track path)" "K (wordDispatch env item orc track)" "K (cached env item track)"
  "K (askDetector env track path det)" "K (allLanesUnavailable env)"
  unfolding dispatch_def wordDispatch_def cached_def askDetector_def allLanesUnavailable_def
  by (auto simp: keeps_def triple_def onDB_def Let_def split: prod.split option.split if_splits)

lemma fetches_keep: "K (songFor env item track path bypass)" "K (weakTitleDetectorFirst env item track path)"
  unfolding songFor_def weakTitleDetectorFirst_def by (intro basic dispatches_keep)+

lemma store_keeps: "K (store env track song)"
  unfolding store_def by (intro basic; simp)

text \<open>The calls on the row itself.\<close>

lemma stamps_keep:
  assumes "itemID item = i"
  shows "K (stampLane env item song)" "K (stampCompletionProvenance env item song)" "K (stampTimingOutcome env item song d gen)"
    "K (clearWordTiming env item)" "K (clearSyncTier env item)"
    "K (stampOrClearSyncTier env item tier)" "K (stampDetectorMissTelemetry env item)" "K (clearGoneMark env item)"
  unfolding stampLane_def stampCompletionProvenance_def stampTimingOutcome_def clearWordTiming_def
    clearSyncTier_def stampOrClearSyncTier_def stampDetectorMissTelemetry_def clearGoneMark_def setSyncTier_def assms
  by (intro basic stamps; assumption)+

lemma preflight_keeps:
  assumes "itemID item = i"
  shows "K (preflightOutputs env item)"
  unfolding preflightOutputs_def HealOutputPaths_def
  by (auto simp: assms intro!: basic stamps)

end

section \<open>Rows that are given back or rechecked\<close>

locale row_invariant = stamp_invariant +
  assumes releases: "P db \<Longrightarrow> P (snd (Release i db))" "P db \<Longrightarrow> P (snd (ReleaseUntil now i wait db))"
    and rechecks: "P db \<Longrightarrow> P (snd (SettleWordRecheck now i st gen db))"
      "P db \<Longrightarrow> P (snd (DeferWordRecheck now i wait maxWaits txt cls db))"
      "P db \<Longrightarrow> P (snd (RetryWordRecheckWrite now i wait txt db))"
begin

lemma releases_keep:
  assumes "itemID item = i"
  shows "K (releaseItem env item before after)" "K (releaseAfterThrottle env item)" "K (parkUnaskedRow env item)"
    "K (parkIfLibraryOffline env item)"
  unfolding releaseItem_def releaseAfterThrottle_def parkUnaskedRow_def providerReopenWait_def parkIfLibraryOffline_def
    parkOffline_def assms
  by (intro basic roots_keep releases; simp)+

lemma recheck_ends_keep:
  assumes "itemID item = i"
  shows "K (deferWordRecheck env item cause)" "K (retryWordRecheckWrite env item e)" "K (releaseWordRecheckOff env item)"
    "K m \<Longrightarrow> K (settleWordRecheckThen env item st m)"
proof -
  have c: "K (classifyWordRecheckFailure e)" for e
    unfolding classifyWordRecheckFailure_def by (intro basic; simp)
  show d: "K (deferWordRecheck env item cause)" for cause
    unfolding deferWordRecheck_def 
    by (auto simp: assms intro!: basic c releases_keep rechecks split: option.split)
  show "K (retryWordRecheckWrite env item e)"
    unfolding retryWordRecheckWrite_def 
    by (auto simp: assms intro!: basic c releases_keep rechecks split: option.split)
  show "K (releaseWordRecheckOff env item)"
    unfolding releaseWordRecheckOff_def  by (auto simp: assms intro!: basic rechecks split: option.split)
  show "K m \<Longrightarrow> K (settleWordRecheckThen env item st m)"
    unfolding settleWordRecheckThen_def  by (auto simp: assms intro!: basic d rechecks split: option.split)
qed

lemma settleWordRecheck_keeps: "itemID item = i \<Longrightarrow> K (settleWordRecheck env item)"
  unfolding settleWordRecheck_def by (intro recheck_ends_keep basic)

lemma word_write_keeps:
  assumes "itemID item = i"
  shows "K (writeWordRecheck env item track song)"
proof -
  have f: "K (failWordWrite env item e)" for e
    unfolding failWordWrite_def using assms by (intro basic recheck_ends_keep)
  have s: "K (stampWordWrite env item song written)" for song written
    unfolding stampWordWrite_def 
    by (auto simp: assms intro!: basic stamps stamps_keep recheck_ends_keep split: option.split)
  show ?thesis
    unfolding writeWordRecheck_def Let_def by (intro basic loops_keep writes_keep f s)
qed

text \<open>A word recheck uses none but these calls.\<close>

lemma runWordRecheck_keeps:
  assumes "itemID item = i"
  shows "K (runWordRecheck env item track)"
proof -
  have "K (acceptWordResult env item track song)" for song
    unfolding acceptWordResult_def Let_def using assms
    by (intro basic settleWordRecheck_keeps recheck_ends_keep store_keeps word_write_keeps)
  then show ?thesis
    unfolding runWordRecheck_def using assms
    by (intro basic recheck_ends_keep settleWordRecheck_keeps dispatches_keep; simp)
qed

lemma word_pass_keeps:
  assumes "itemID item = i" and "wordItem item"
  shows "K (claimedPass env item)"
proof -
  have "K (titleRuleGate env item track)" for track
    unfolding titleRuleGate_def using assms by (intro basic settleWordRecheck_keeps; simp)
  then show ?thesis
    unfolding claimedPass_def using assms by (intro basic releases_keep metadata_keep runWordRecheck_keeps; simp)
qed

end

section \<open>Whole passes\<close>

lemma preflight_item: "run_state (preflightOutputs env item) w = (pre, w') \<Longrightarrow> fst (fst pre) = fst item"
  by (auto simp: preflightOutputs_def Let_def split: option.splits sum.splits if_splits prod.splits)

locale pass_invariant = row_invariant +
  assumes word_stamp: "P db \<Longrightarrow> P (snd (SetWordTimingState now i st gen checkedAt db))"
    and settles: "P db \<Longrightarrow> P (snd (completeOnce q now i db))"
      "P db \<Longrightarrow> P (snd (settleInstrumentalOnce now i tel OwnedByWorker db))"
      "P db \<Longrightarrow> P (snd (settleGuardRejectedOnce now i reason db))" "P db \<Longrightarrow> P (snd (settleBlockedOnce now i db))"
    and failures: "P db \<Longrightarrow> P (snd (failOnce q now i cause db))" "P db \<Longrightarrow> P (snd (Defer now i wait cause db))"
      "P db \<Longrightarrow> P (snd (RetireMiss now i db))" "P db \<Longrightarrow> P (snd (deferRefusedOnce now i wait maxWaits txt db))"
    and trips: "P db \<Longrightarrow> P (snd (SettleUpgradeTrip q i ans db))" "P db \<Longrightarrow> P (snd (SettleStuckUpgradeTrip q now i ok db))"
      "P db \<Longrightarrow> P (snd (SettleGoneUpgradeTrip now i wait db))"
begin

lemma stampWordTiming_keeps:
  assumes "itemID item = i"
  shows "K (stampWordTiming env item ps song)"
  unfolding stampWordTiming_def by (auto simp: assms intro!: basic stamps_keep word_stamp split: option.split)

lemma fails_keep:
  assumes "itemID item = i"
  shows "K (failPass env item cause ok)" "K (fail env item cause)" "K (failStuckItem env item how e)"
proof -
  show f: "K (failPass env item cause ok)" for ok
    unfolding failPass_def  by (auto simp: assms intro!: basic releases_keep trips failures)
  show "K (fail env item cause)" unfolding fail_def by (rule f)
  show "K (failStuckItem env item how e)"
    unfolding failStuckItem_def  by (auto simp: assms intro!: basic trips failures)
qed

lemma trips_keep:
  assumes "itemID item = i"
  shows "K (settleUpgradeTripAnswered env item ans)" "K (settleUpgradeTrip env item)" "K (settleGoneTrip env he item)"
proof -
  show t: "K (settleUpgradeTripAnswered env item ans)" for ans
    unfolding settleUpgradeTripAnswered_def  by (auto simp: assms intro!: basic trips fails_keep)
  show "K (settleUpgradeTrip env item)" unfolding settleUpgradeTrip_def by (rule t)
  show "K (settleGoneTrip env he item)"
    unfolding settleGoneTrip_def  by (auto simp: assms intro!: basic trips fails_keep stamps_keep)
qed

lemma misses_keep:
  assumes "itemID item = i"
  shows "K (requeueDeferred env item cause)" "K (deferThenReset env item cause)" "K (deferRefusedUntried env item e)"
proof -
  show r: "K (requeueDeferred env item cause)"
    unfolding requeueDeferred_def  by (auto simp: assms Let_def intro!: basic trips_keep failures)
  show "K (deferThenReset env item cause)" unfolding deferThenReset_def by (intro basic r)
  show "K (deferRefusedUntried env item e)"
    unfolding deferRefusedUntried_def  by (auto simp: assms intro!: basic fails_keep failures)
qed

lemma settles_keep:
  assumes "itemID item = i"
  shows "K (settleBlocked env item)" "K (settleGuardRejected env item song)" "K (completeKept env item kept)"
proof -
  have s: "K (settledOrReleased env item before outcome)" for before outcome
    unfolding settledOrReleased_def using assms by (intro basic releases_keep)
  show "K (settleBlocked env item)"
    unfolding settleBlocked_def  by (auto simp: assms intro!: basic trips_keep stamps_keep settles fails_keep s)
  show "K (settleGuardRejected env item song)"
    unfolding settleGuardRejected_def  by (auto simp: assms intro!: basic trips_keep stamps_keep settles fails_keep s)
  show "K (completeKept env item kept)"
    unfolding completeKept_def  by (auto simp: assms intro!: basic stamps stamps_keep fails_keep settles)
qed

lemma markers_keep:
  assumes "itemID item = i"
  shows "K (completeDetectorInstrumental env item song)" "K (completeTitleInstrumental env item track writer)"
proof -
  have "K (settleMarker env item song)"
    unfolding settleMarker_def settleDetectorInstrumental_def 
    by (auto simp: assms intro!: basic stamps_keep settles misses_keep releases)
  then show "K (completeDetectorInstrumental env item song)"
    unfolding completeDetectorInstrumental_def failMarker_def Let_def using assms
    by (intro basic loops_keep writes_keep misses_keep settles_keep)
  have "K (settleTitle env item song)" for song
    unfolding settleTitle_def Let_def  by (auto simp: assms intro!: basic stamps stamps_keep fails_keep settles)
  then show "K (completeTitleInstrumental env item track writer)"
    unfolding completeTitleInstrumental_def failTitle_def Let_def using assms
    by (intro basic loops_keep writes_keep fails_keep settles_keep)
qed

lemma found_keeps:
  assumes "itemID item = i"
  shows "K (finishFound env item track song hit)"
proof -
  have l: "K (settleLanded env item song hit written)" for song hit written
    unfolding settleLanded_def Let_def  by (auto simp: assms intro!: basic stamps stamps_keep stampWordTiming_keeps fails_keep settles)
  have "K (stampLanding env item song hit)" "K (storeFresh env item track song hit)" for song hit
    unfolding stampLanding_def storeFresh_def  by (auto simp: assms intro!: basic stamps stamps_keep store_keeps)
  then have o: "K (writeOutputs env item track song hit)" for song hit
    unfolding writeOutputs_def Let_def using assms by (intro basic loops_keep writes_keep settles_keep fails_keep l)
  have v: "K (writeVetted env item track song hit)" for song hit
    unfolding writeVetted_def Let_def using assms by (intro basic trips_keep o)
  have "K (vetFresh env item track song)"
    unfolding vetFresh_def Let_def using assms by (intro basic stamps_keep fails_keep settles_keep v)
  then show ?thesis
    unfolding finishFound_def using assms by (intro basic markers_keep v)
qed

lemma answer_keeps:
  assumes "itemID item = i"
  shows "K (finishAnswer env item track song hit err)" "K (finishFetch env item track song hit err)"
proof -
  have "K (finishUnavailable env item e)" for e
    unfolding finishUnavailable_def using assms by (intro basic stamps_keep releases_keep)
  moreover have "K (finishMiss env item song e)" for e
    unfolding finishMiss_def using assms by (intro basic stamps_keep misses_keep)
  ultimately have "K (finishError env item song e)" for e
    unfolding finishError_def using assms by (intro basic settles_keep releases_keep fails_keep)
  then show a: "K (finishAnswer env item track song hit err)" for err
    unfolding finishAnswer_def using assms by (intro basic found_keeps; simp)
  show "K (finishFetch env item track song hit err)"
    unfolding finishFetch_def using assms by (intro basic stamps_keep misses_keep a)
qed

text \<open>What the calls keep, a pass on the claimed row keeps.\<close>

lemma claimedPass_keeps:
  assumes "itemID item = i"
  shows "K (claimedPass env item)"
proof -
  have f: "K (fetch env item' track)" if "itemID item' = i" for item' track
    unfolding fetch_def Let_def using that by (intro basic fetches_keep answer_keeps)
  have n: "K (noOutputs env item')" if "itemID item' = i" for item'
    unfolding noOutputs_def using that by (intro basic trips_keep fails_keep)
  have same: "itemID (fst pre) = i" if "run_state (preflightOutputs env item) w = (pre, w')" for pre w w'
    using preflight_item[OF that] assms by (simp add: itemID_def)
  have "K (ordinaryPass env item track)" for track
    unfolding ordinaryPass_def
    by (rule keeps_bind_value[OF preflight_keeps[OF assms]])
       (auto dest: same intro!: basic n f stamps_keep split: prod.split)
  moreover have "K (titleRuleGate env item track)" for track
  proof -
    have "K (markTitle env item track writer)" for writer
      unfolding markTitle_def
      by (rule keeps_bind_value[OF preflight_keeps[OF assms]]) (auto simp: assms dest: same intro!: basic markers_keep fails_keep)
    then show ?thesis
      unfolding titleRuleGate_def using assms by (intro basic settleWordRecheck_keeps trips_keep)
  qed
  ultimately show ?thesis
    unfolding claimedPass_def using assms
    by (intro basic releases_keep metadata_keep runWordRecheck_keeps)
qed

end

end
