(* ===== verification/WorkerConfig.thy ===== *)
theory WorkerConfig
  imports WorkerDispatch
begin

text \<open>
  The worker as it is made and set up (\<open>New\<close> and the setters of \<open>worker.go\<close> and \<open>title_rule.go\<close>). A setter that
  rebuilds the orchestrator makes a new detector lane over the breaker the old one had. What a setter
  hands over of the outside world (verifier, metadata reader and cache, healer) is in the \<open>PassEnv\<close>.
\<close>

definition driftThreshold :: int where "driftThreshold = 5"

text \<open>\<open>named\<close> is the name of a fetcher that has one.\<close>

definition laneName :: "gotext option \<Rightarrow> gotext" where
  "laneName named = (case named of None \<Rightarrow> Musixmatch
     | Some n \<Rightarrow> if NormalizeName n \<noteq> [] then NormalizeName n else Musixmatch)"

definition withDriftDetection :: "Lane \<Rightarrow> Lane" where
  "withDriftDetection l = WithResponseDrift (newDetector driftThreshold) True l"

definition noRoots :: RootState where
  "noRoots = \<lparr>rsCache = Map.empty, rsList = None, rsAlias = Map.empty, rsSpellings = [], rsOwner = Map.empty, rsNotes = Map.empty\<rparr>"

definition NewWorker :: "DBQueue \<Rightarrow> QDB \<Rightarrow> CacheRepo \<Rightarrow> gotext option \<Rightarrow> nat option \<Rightarrow> World \<Rightarrow> Worker" where
  "NewWorker q db c named pacer world =
     \<lparr>wkQueue = q, wkDB = db, wkCalls = 0, wkTicks = 0, wkCache = c,
      wkLanes = [withDriftDetection (NewProviderLane (laneName named) (NewBreaker defaultCircuitBackoffBase defaultCircuitOpenDuration) pacer)],
      wkDetLane = None, wkDetBreaker = None, wkWorld = world, wkMode = ModeOrdered, wkRaceWait = DefaultRaceWait,
      wkOrdering = [], wkGuard = None, wkBlocks = None, wkMemo = None, wkDetectDefault = False, wkEnrich = True,
      wkVerifyBelow = Fin (85 / 100), wkBaseBackoff = DefaultBase, wkMaxBackoff = DefaultMax,
      wkCircuitBase = defaultCircuitBackoffBase, wkOpenDuration = defaultCircuitOpenDuration,
      wkMissBase = DefaultMissBase, wkMissCap = DefaultMissCap, wkMaxMiss = 0, wkProvidersVersion = 0,
      wkTitleRule = False, wkTitleRuleWeak = False, wkRecorder = False, wkSourceEvents = False,
      wkRoots = noRoots, wkFailures = 0, wkContacted = False, wkLastFail = (0, [], []), wkLog = []\<rparr>"

text \<open>The breaker of the detector, kept while the detector is switched off.\<close>

definition detectorBreaker :: "Worker \<Rightarrow> breaker option" where
  "detectorBreaker w = (case wkDetLane w of Some l \<Rightarrow> Some (lbreaker l) | None \<Rightarrow> wkDetBreaker w)"

definition rebuildOrchestrator :: "Worker \<Rightarrow> Worker" where
  "rebuildOrchestrator w =
     (case wkMemo w of
        None \<Rightarrow> w\<lparr>wkDetBreaker := detectorBreaker w, wkDetLane := None\<rparr>
      | Some _ \<Rightarrow>
         (let cb = (case detectorBreaker w of None \<Rightarrow> NewBreaker (wkCircuitBase w) (wkOpenDuration w) | Some b \<Rightarrow> b)
          in w\<lparr>wkDetBreaker := Some cb, wkDetLane := Some (NewDetectorLane cb (lpacer (hd (wkLanes w))))\<rparr>))"

text \<open>
  A mode the orchestrator does not know leaves the one in use, with its lanes. (The code also points
  the gate before a claim at a new detector lane over the same breaker; only a breaker is read there.)
\<close>

definition SetProvidersMode :: "gotext \<Rightarrow> Worker \<Rightarrow> Worker" where
  "SetProvidersMode md w = (case parseMode md of
       Some m \<Rightarrow> rebuildOrchestrator (w\<lparr>wkMode := m\<rparr>) | None \<Rightarrow> w)"

definition WorkerSetRaceWait :: "duration \<Rightarrow> Worker \<Rightarrow> Worker" where
  "WorkerSetRaceWait d w = (if d \<le> 0 then w else rebuildOrchestrator (w\<lparr>wkRaceWait := d\<rparr>))"

text \<open>Every breaker of the worker changed alike.\<close>

definition onBreakers :: "(breaker \<Rightarrow> breaker) \<Rightarrow> Worker \<Rightarrow> Worker" where
  "onBreakers f w = w\<lparr>wkLanes := map (\<lambda>l. l\<lparr>lbreaker := f (lbreaker l)\<rparr>) (wkLanes w),
     wkDetLane := map_option (\<lambda>l. l\<lparr>lbreaker := f (lbreaker l)\<rparr>) (wkDetLane w),
     wkDetBreaker := map_option f (wkDetBreaker w)\<rparr>"

definition SetCircuitOpenDuration :: "duration \<Rightarrow> Worker \<Rightarrow> Worker" where
  "SetCircuitOpenDuration d w = (if d \<le> 0 then w else onBreakers (SetOpenDuration d) (w\<lparr>wkOpenDuration := d\<rparr>))"

definition SetFallbackProviders :: "(gotext \<times> nat option) option list \<Rightarrow> Worker \<Rightarrow> Worker" where
  "SetFallbackProviders provs w =
     rebuildOrchestrator (w\<lparr>wkLanes := hd (wkLanes w) # map (\<lambda>(name, p). withDriftDetection
        (NewProviderLane name (NewBreaker (wkCircuitBase w) (wkOpenDuration w)) p)) (List.map_filter id provs)\<rparr>)"

definition WorkerSetProvidersVersion :: "int \<Rightarrow> Worker \<Rightarrow> Worker" where
  "WorkerSetProvidersVersion v w = w\<lparr>wkProvidersVersion := v\<rparr>"

definition SetMissBackoff :: "duration \<Rightarrow> duration \<Rightarrow> Worker \<Rightarrow> Worker" where
  "SetMissBackoff base cap w = w\<lparr>wkMissBase := (if base > 0 then base else wkMissBase w),
     wkMissCap := (if cap > 0 then cap else wkMissCap w)\<rparr>"

definition SetCircuitBackoff :: "duration \<Rightarrow> duration \<Rightarrow> Worker \<Rightarrow> Worker" where
  "SetCircuitBackoff base cap w =
     (if base \<le> 0 \<and> cap \<le> 0 then w
      else let w = (if base > 0 then w\<lparr>wkCircuitBase := base\<rparr> else w);
               w = (if cap > 0 then w\<lparr>wkOpenDuration := cap\<rparr> else w)
           in onBreakers (SetBackoff (wkCircuitBase w) (wkOpenDuration w)) w)"

definition SetMaxMissAttempts :: "int \<Rightarrow> Worker \<Rightarrow> Worker" where
  "SetMaxMissAttempts n w = w\<lparr>wkMaxMiss := (if n < 0 then 0 else n)\<rparr>"

definition EnableVerification :: "float64 \<Rightarrow> Worker \<Rightarrow> Worker" where
  "EnableVerification below w = (if flt (Fin 0) below \<and> fle below (Fin 1) then w\<lparr>wkVerifyBelow := below\<rparr> else w)"

text \<open>\<open>None\<close> switches the detector off; a detector is wrapped in a memo.\<close>

definition EnableAudioDetector :: "(gotext \<times> (float64 \<Rightarrow> float64 \<Rightarrow> float64 \<Rightarrow> bool)) option option \<Rightarrow> Worker \<Rightarrow> Worker" where
  "EnableAudioDetector d w = rebuildOrchestrator (w\<lparr>wkMemo := map_option newMemoDetector d\<rparr>)"

definition SetInstrumentalDetectionDefault :: "bool \<Rightarrow> Worker \<Rightarrow> Worker" where
  "SetInstrumentalDetectionDefault on w = w\<lparr>wkDetectDefault := on\<rparr>"

definition SetRecordingEnrichmentDefault :: "bool \<Rightarrow> Worker \<Rightarrow> Worker" where
  "SetRecordingEnrichmentDefault on w = w\<lparr>wkEnrich := on\<rparr>"

definition SetDetectorOrdering :: "gotext \<Rightarrow> Worker \<Rightarrow> Worker" where
  "SetDetectorOrdering place w = rebuildOrchestrator (w\<lparr>wkOrdering := place\<rparr>)"

definition WorkerSetBlockChecker :: "BlockChecker option \<Rightarrow> Worker \<Rightarrow> Worker" where
  "WorkerSetBlockChecker c w = rebuildOrchestrator (w\<lparr>wkBlocks := c\<rparr>)"

definition EnableGuard :: "ScriptGuard option \<Rightarrow> Worker \<Rightarrow> Worker" where
  "EnableGuard g w = rebuildOrchestrator (w\<lparr>wkGuard := g\<rparr>)"

definition SetProviderRecorder :: "bool \<Rightarrow> Worker \<Rightarrow> Worker" where
  "SetProviderRecorder on w = w\<lparr>wkRecorder := on\<rparr>"

definition SetSourceEventRecorder :: "bool \<Rightarrow> Worker \<Rightarrow> Worker" where
  "SetSourceEventRecorder on w = w\<lparr>wkSourceEvents := on\<rparr>"

definition SetTitleRule :: "bool \<Rightarrow> Worker \<Rightarrow> Worker" where
  "SetTitleRule on w = w\<lparr>wkTitleRule := on\<rparr>"

definition SetTitleRuleWeak :: "bool \<Rightarrow> Worker \<Rightarrow> Worker" where
  "SetTitleRuleWeak on w = w\<lparr>wkTitleRuleWeak := on\<rparr>"

text \<open>
  The setters of what a pass is given: a nil reader is ignored, a replaced one no longer reads whole
  facts.
\<close>

definition SetOutputHealer :: "HealerEnv option \<Rightarrow> PassEnv \<Rightarrow> PassEnv" where
  "SetOutputHealer he env = env\<lparr>peHealer := he\<rparr>"

definition SetMetadataReader :: "(goerr + AudioMetadata) option \<Rightarrow> PassEnv \<Rightarrow> PassEnv" where
  "SetMetadataReader r env = (if r = None then env else env\<lparr>peMeta := (peMeta env)\<lparr>meRead := r, meFacts := None\<rparr>\<rparr>)"

definition SetMetadataCache :: "((goerr + int \<times> int) \<times> (goerr + AudioFacts option)) option \<Rightarrow> PassEnv \<Rightarrow> PassEnv" where
  "SetMetadataCache c env = env\<lparr>peMeta := (peMeta env)\<lparr>meCache := c\<rparr>\<rparr>"

definition SetDurationStore :: "bool \<Rightarrow> PassEnv \<Rightarrow> PassEnv" where
  "SetDurationStore on env = env\<lparr>peMeta := (peMeta env)\<lparr>meDurations := on\<rparr>\<rparr>"

text \<open>The health of the lanes in use, each read at its own instant.\<close>

definition workerLaneHealth :: "instant list \<Rightarrow> Worker \<Rightarrow> LaneState list" where
  "workerLaneHealth clock w = LaneHealth (zip clock (o_lanes (currentOrch w)))"

section \<open>Lemmas\<close>

text \<open>The worker is well formed: a primary lane, provider lanes that are, and a detector lane with its memo.\<close>

definition workerWF :: "Worker \<Rightarrow> bool" where
  "workerWF w \<longleftrightarrow> wkLanes w \<noteq> [] \<and> (\<forall>l \<in> set (wkLanes w). lkind l = ProviderLane \<and> \<not> instrumentalOnly l) \<and>
     (wkDetLane w = None \<longleftrightarrow> wkMemo w = None) \<and> (\<forall>l. wkDetLane w = Some l \<longrightarrow> lkind l = DetectorLane \<and> instrumentalOnly l) \<and>
     wkRaceWait w > 0 \<and> wkMaxMiss w \<ge> 0"

lemma workerWF_rebuild:
  "wkLanes w \<noteq> [] \<Longrightarrow> \<forall>l \<in> set (wkLanes w). lkind l = ProviderLane \<and> \<not> instrumentalOnly l \<Longrightarrow>
   wkRaceWait w > 0 \<Longrightarrow> wkMaxMiss w \<ge> 0 \<Longrightarrow> workerWF (rebuildOrchestrator w)"
  by (auto simp: workerWF_def rebuildOrchestrator_def Let_def NewDetectorLane_def split: option.split)

lemma workerWF_new: "workerWF (NewWorker q db c named pacer world)"
  by (simp add: workerWF_def NewWorker_def withDriftDetection_def WithResponseDrift_def NewProviderLane_def DefaultRaceWait_def second_def)

lemma workerWF_setters:
  assumes "workerWF w"
  shows "workerWF (SetProvidersMode md w)" "workerWF (WorkerSetRaceWait d w)" "workerWF (SetCircuitOpenDuration d w)"
    "workerWF (SetFallbackProviders provs w)" "workerWF (SetCircuitBackoff base cap w)" "workerWF (SetMaxMissAttempts n w)"
    "workerWF (EnableAudioDetector det w)" "workerWF (SetDetectorOrdering place w)"
    "workerWF (WorkerSetBlockChecker blocks w)" "workerWF (EnableGuard g w)"
proof -
  have wf: "wkLanes w \<noteq> []" "\<forall>l \<in> set (wkLanes w). lkind l = ProviderLane \<and> \<not> instrumentalOnly l"
    "wkRaceWait w > 0" "wkMaxMiss w \<ge> 0"
    using assms by (simp_all add: workerWF_def)
  have r: "workerWF (rebuildOrchestrator w')" if "wkLanes w' = wkLanes w" "wkRaceWait w' > 0" "wkMaxMiss w' \<ge> 0" for w'
    by (rule workerWF_rebuild) (simp_all add: that wf)
  have b: "workerWF w' \<Longrightarrow> workerWF (onBreakers f w')" for f w'
    by (auto simp: workerWF_def onBreakers_def)
  have o: "workerWF (w\<lparr>wkOpenDuration := d\<rparr>)" "workerWF (w\<lparr>wkCircuitBase := d\<rparr>)"
    "workerWF (w\<lparr>wkCircuitBase := d, wkOpenDuration := e\<rparr>)" for d e
    using assms by (simp_all add: workerWF_def)
  show "workerWF (SetProvidersMode md w)" "workerWF (WorkerSetRaceWait d w)"
    "workerWF (EnableAudioDetector det w)" "workerWF (SetDetectorOrdering place w)"
    "workerWF (WorkerSetBlockChecker blocks w)" "workerWF (EnableGuard g w)"
    unfolding SetProvidersMode_def WorkerSetRaceWait_def EnableAudioDetector_def SetDetectorOrdering_def
      WorkerSetBlockChecker_def EnableGuard_def
    using assms wf by (auto intro!: r split: option.split)
  show "workerWF (SetCircuitOpenDuration d w)"
    using assms by (simp add: SetCircuitOpenDuration_def b o)
  show "workerWF (SetCircuitBackoff base cap w)"
    using assms by (simp add: SetCircuitBackoff_def b o Let_def)
  show "workerWF (SetMaxMissAttempts n w)"
    using assms by (simp add: SetMaxMissAttempts_def workerWF_def)
  show "workerWF (SetFallbackProviders provs w)"
    unfolding SetFallbackProviders_def
    by (rule workerWF_rebuild) (auto simp: wf withDriftDetection_def WithResponseDrift_def NewProviderLane_def)
qed

end
