(* ===== verification/WorkerLaws.thy ===== *)
theory WorkerLaws
  imports WorkerKeeps WorkerConfig QueueLease
begin

text \<open>
  From rows to passes. A relation between a row before and after that the statements of a pass satisfy
  (\<open>row_relation\<close>, \<open>pass_relation\<close>) relates the whole table before and after any pass: the locales of
  \<open>WorkerKeeps\<close> hold of it. Each law of a pass below is one such relation.
\<close>

section \<open>Stamps\<close>

text \<open>The columns the row invariant and the claim depend on; a stamp leaves them.\<close>

definition quietRow :: "WorkRow \<Rightarrow> WorkRow \<Rightarrow> bool" where
  "quietRow r r' \<longleftrightarrow> rowid r' = rowid r \<and> ident r' = ident r \<and> status r' = status r \<and> prev_status r' = prev_status r \<and>
     upgrade_queued r' = upgrade_queued r \<and> failure_class r' = failure_class r \<and> last_error r' = last_error r \<and>
     attempts r' = attempts r \<and> miss_count r' = miss_count r \<and> upgrade_miss_count r' = upgrade_miss_count r \<and>
     priority r' = priority r \<and> (wordQueued r' \<longleftrightarrow> wordQueued r)"

definition quietOn :: "int \<Rightarrow> (QDB \<Rightarrow> QDB) \<Rightarrow> bool" where
  "quietOn i g \<longleftrightarrow> (\<exists>p f. g = updateWork p f \<and> (\<forall>r. p r \<longrightarrow> rowid r = i \<and> quietRow r (f r)))"

lemma quietOn_stamp: "(\<And>r. quietRow r (f r)) \<Longrightarrow> quietOn i (stamp i f)"
  unfolding quietOn_def stamp_def[abs_def]
  by (rule exI[of _ "byID i (\<lambda>_. True)"], rule exI[of _ f]) (simp add: byID_def)

lemma quietOn_update: "(\<And>r. p r \<Longrightarrow> quietRow r (f r)) \<Longrightarrow> quietOn i (updateWork (byID i p) f)"
  unfolding quietOn_def by (rule exI[of _ "byID i p"], rule exI[of _ f]) (simp add: byID_def)

lemma quietOn_id: "quietOn i (\<lambda>db. db)"
  unfolding quietOn_def updateWork_def by (intro exI[of _ "\<lambda>_. False"]) auto

text \<open>Every stamp of a pass is quiet, but for the one that sets the word state to a verdict.\<close>

lemma stamps_quiet:
  "quietOn i (SetProviderLane i lane up)" "quietOn i (ClearProviderLane i)" "quietOn i (SetOutcomeType i outcome)"
  "quietOn i (SetInstrumentalResult i result tel)" "quietOn i (SetCompletionProvenance i prov)"
  "quietOn i (ClearWordTimingState i)" "quietOn i (ClearSourceGone i)" "quietOn i (\<lambda>db. snd (SetTimingOutcome i rec db))"
  "quietOn i (\<lambda>db. snd (SetSyncTier i tier db))"
  "quietOn i (\<lambda>db. snd (healOutputPaths i old new db))"
proof -
  note q = quietRow_def ident_def wordQueued_def
  have st: "quietOn i (\<lambda>db. if b then db else stamp i f db)" if "\<And>r. quietRow r (f r)" for b f
    using that quietOn_stamp quietOn_id by (cases b) simp_all
  show "quietOn i (SetProviderLane i lane up)" unfolding SetProviderLane_def[abs_def] by (rule st) (simp add: q)
  show "quietOn i (SetCompletionProvenance i prov)" unfolding SetCompletionProvenance_def[abs_def] by (rule st) (simp add: q)
  show "quietOn i (SetOutcomeType i outcome)" unfolding SetOutcomeType_def[abs_def] by (rule quietOn_stamp) (simp add: q)
  show "quietOn i (SetInstrumentalResult i result tel)"
    unfolding SetInstrumentalResult_def[abs_def] by (rule quietOn_stamp) (simp add: q)
  show "quietOn i (ClearProviderLane i)" unfolding ClearProviderLane_def[abs_def] by (rule quietOn_update) (simp add: q)
  show "quietOn i (ClearWordTimingState i)"
    unfolding ClearWordTimingState_def[abs_def] by (rule quietOn_update) (auto simp: q zeroWord_def)
  show "quietOn i (ClearSourceGone i)" unfolding ClearSourceGone_def[abs_def] by (rule quietOn_update) (simp add: q)
  show "quietOn i (\<lambda>db. snd (healOutputPaths i old new db))"
    unfolding healOutputPaths_def updateOne_def snd_conv by (rule quietOn_update) (simp add: q)
  have t: "quietRow r (timingRow rec src r)" for r src by (simp add: q timingRow_def Let_def)
  show "quietOn i (\<lambda>db. snd (SetTimingOutcome i rec db))"
    by (cases "trOutcome rec = []"; cases "stampSource rec") (simp_all add: SetTimingOutcome_def quietOn_id quietOn_stamp t)
  show "quietOn i (\<lambda>db. snd (SetSyncTier i tier db))"
    by (cases "validSyncTier tier") (auto simp: SetSyncTier_def q intro!: quietOn_id quietOn_stamp)
qed

section \<open>Relations between rows\<close>

definition rowsRel :: "(WorkRow \<Rightarrow> WorkRow \<Rightarrow> bool) \<Rightarrow> QDB \<Rightarrow> QDB \<Rightarrow> bool" where
  "rowsRel E db db' \<longleftrightarrow> distinct (map rowid (work_queue db')) \<and> rewritten E db db'"

text \<open>The statement of \<open>ReleaseUntil\<close>, of \<open>RetryWordRecheckWrite\<close> and of \<open>SettleStuckUpgradeTrip\<close> on a row.\<close>

definition untilRow :: "instant \<Rightarrow> duration \<Rightarrow> WorkRow \<Rightarrow> WorkRow" where
  "untilRow now wait r = r\<lparr>status := (case prev_status r of None \<Rightarrow> StatusPending | Some st \<Rightarrow> st),
     next_attempt_at := formatTime (now + wait)\<rparr>"

definition recheckRetryRow :: "instant \<Rightarrow> duration \<Rightarrow> gotext \<Rightarrow> WorkRow \<Rightarrow> WorkRow" where
  "recheckRetryRow now wait cause r = r\<lparr>status := StatusDeferred, next_attempt_at := formatTime (now + wait),
     last_error := cause, failure_class := storedClass cause (Some FailureOther)\<rparr>"

definition verdictRow :: "WordTimingState \<Rightarrow> int \<Rightarrow> int \<Rightarrow> WorkRow \<Rightarrow> WorkRow" where
  "verdictRow st gen checked r = r\<lparr>word := \<lparr>word_timing_state = Some st, word_timing_generation = Some gen,
     word_timing_checked_at = Some checked\<rparr>\<rparr>"

definition stuckRow :: "DBQueue \<Rightarrow> instant \<Rightarrow> bool \<Rightarrow> WorkRow \<Rightarrow> WorkRow" where
  "stuckRow q now landed r = r\<lparr>status := StatusDone, last_error := [], refused_waits := 0, attempts := 0,
     completed_at := (if landed then Some (formatTime now) else completed_at r),
     missync_recheck_generation := (if misSynced r then Some (queueGeneration q) else missync_recheck_generation r)\<rparr>"

locale row_relation =
  fixes E :: "WorkRow \<Rightarrow> WorkRow \<Rightarrow> bool" and i :: int
  assumes E_refl: "E r r" and E_trans: "E a b \<Longrightarrow> E b c \<Longrightarrow> E a c" and E_rowid: "E r r' \<Longrightarrow> rowid r' = rowid r"
    and E_quiet: "rowid r = i \<Longrightarrow> quietRow r r' \<Longrightarrow> E r r'"
    and E_releases: "rowid r = i \<Longrightarrow> processing r \<Longrightarrow> E r (onStatus (releaseRow r)) \<and> E r (onStatus (untilRow now wait r))"
    and E_rechecks: "rowid r = i \<Longrightarrow> wordRecheckOwned r \<Longrightarrow> E r (onStatus (wordSettledRow now st gen r)) \<and>
      E r (onStatus (wordDeferredRow now wait maxWaits txt cls r)) \<and> E r (onStatus (recheckRetryRow now wait txt r))"
begin

lemma rowsRel_step: "rowsRel E db db1 \<Longrightarrow> rewritten E db1 db2 \<Longrightarrow> rowsRel E db db2"
  unfolding rowsRel_def using rewritten_rowids[of E db1 db2] rewritten_trans[of E db db1 db2] E_trans E_rowid by metis

lemma rowsRel_rows: "rowsRel E db db1 \<Longrightarrow> (\<And>r. p r \<Longrightarrow> E r (f r)) \<Longrightarrow> rowsRel E db (updateWork p f db1)"
  by (rule rowsRel_step, assumption, rule rewritten_updateWork) (auto intro: E_refl)

lemma rowsRel_writeback [simp]:
  "rowsRel E db (writeBackScanResultsDone j d) \<longleftrightarrow> rowsRel E db d" "rowsRel E db (setLinkedScan j from st d) \<longleftrightarrow> rowsRel E db d"
  by (simp_all add: rowsRel_def rewritten_def)

lemma rowsRel_quiet: "quietOn i g \<Longrightarrow> rowsRel E db db1 \<Longrightarrow> rowsRel E db (g db1)"
  by (auto simp: quietOn_def intro!: rowsRel_rows E_quiet)

text \<open>A guarded statement on the row, in each of the forms the queue has.\<close>

lemma rowsRel_statement:
  assumes "rowsRel E db db1" and "\<And>r. rowid r = i \<Longrightarrow> p r \<Longrightarrow> E r (onStatus (f r))"
  shows "rowsRel E db (snd (updateOne i p (onStatus \<circ> f) db1))"
    and "rowsRel E db (snd (requireAffected (updateOne i p (onStatus \<circ> f) db1)))"
    and "rowsRel E db (snd (settleTx i p f db1))"
    and "rowsRel E db (snd (requireAffected (settleTx i p f db1)))"
    and "rowsRel E db (snd (updateReturning i p f db1))"
proof -
  have "rowsRel E db (updateWork (byID i p) (onStatus \<circ> f) db1)"
    by (rule rowsRel_rows[OF assms(1)]) (auto simp: byID_def intro: assms(2))
  then show "rowsRel E db (snd (updateOne i p (onStatus \<circ> f) db1))"
    and "rowsRel E db (snd (requireAffected (updateOne i p (onStatus \<circ> f) db1)))"
    and "rowsRel E db (snd (settleTx i p f db1))"
    and "rowsRel E db (snd (requireAffected (settleTx i p f db1)))"
    and "rowsRel E db (snd (updateReturning i p f db1))"
    using assms(1) by (auto simp: updateOne_def requireAffected_def settleTx_def updateReturning_def split: list.split)
qed

lemma rowsRel_releases:
  assumes "rowsRel E db db1"
  shows "rowsRel E db (snd (Release i db1))" "rowsRel E db (snd (ReleaseUntil now i wait db1))"
  unfolding Release_def ReleaseUntil_def
  using rowsRel_statement(2)[OF assms, of processing releaseRow] rowsRel_statement(2)[OF assms, of processing "untilRow now wait"]
    E_releases by (simp_all add: untilRow_def[abs_def])

lemma rowsRel_rechecks:
  assumes "rowsRel E db db1"
  shows "rowsRel E db (snd (SettleWordRecheck now i st gen db1))"
    "rowsRel E db (snd (DeferWordRecheck now i wait maxWaits txt cls db1))"
    "rowsRel E db (snd (RetryWordRecheckWrite now i wait txt db1))"
proof -
  show "rowsRel E db (snd (SettleWordRecheck now i st gen db1))"
    using rowsRel_statement(4)[OF assms, of wordRecheckOwned "wordSettledRow now st gen"] E_rechecks assms
    by (simp add: SettleWordRecheck_def)
  have "rowsRel E db (snd (updateReturning i wordRecheckOwned (wordDeferredRow now wait maxWaits txt cls) db1))"
    using rowsRel_statement(5)[OF assms, of wordRecheckOwned "wordDeferredRow now wait maxWaits txt cls"] E_rechecks by simp
  then show "rowsRel E db (snd (DeferWordRecheck now i wait maxWaits txt cls db1))"
    using assms by (auto simp: DeferWordRecheck_def split: prod.split sum.split)
  show "rowsRel E db (snd (RetryWordRecheckWrite now i wait txt db1))"
    using rowsRel_statement(2)[OF assms, of wordRecheckOwned "recheckRetryRow now wait txt"] E_rechecks
    by (simp add: RetryWordRecheckWrite_def recheckRetryRow_def[abs_def])
qed

end

sublocale row_relation \<subseteq> row_invariant "rowsRel E db" i for db
  by unfold_locales (erule stamps_quiet[THEN rowsRel_quiet] rowsRel_releases rowsRel_rechecks)+

locale pass_relation = row_relation +
  assumes E_verdict: "rowid r = i \<Longrightarrow> st \<noteq> WordTimingQueued \<Longrightarrow> E r (verdictRow st gen checked r)"
    and E_settles: "rowid r = i \<Longrightarrow> processing r \<Longrightarrow> E r (onStatus (completeRow q now r)) \<and>
      E r (onStatus (instrumentalRow now tel r)) \<and> E r (onStatus (rejectedRow now reason r)) \<and> E r (onStatus (blockedRow now r))"
    and E_failures: "rowid r = i \<Longrightarrow> processing r \<Longrightarrow> E r (onStatus (failRow q now cause r)) \<and>
      E r (onStatus (deferRow now wait cause r)) \<and> E r (onStatus (retireRow now r)) \<and> E r (onStatus (refusedRow now wait txt r))"
    and E_trips: "rowid r = i \<Longrightarrow> upgradeTrip r \<Longrightarrow> E r (onStatus (tripSettledRow q ans r)) \<and>
      E r (onStatus (stuckRow q now ok r)) \<and> E r (onStatus (goneRetiredRow now r)) \<and> E r (onStatus (goneMarkedRow now r))"
begin

lemma rowsRel_verdict:
  "rowsRel E db db1 \<Longrightarrow> rowsRel E db (snd (SetWordTimingState now i st gen checkedAt db1))"
  unfolding SetWordTimingState_def Let_def stamp_def
  by (cases st) (auto simp: byID_def verdictRow_def[symmetric] intro!: rowsRel_rows E_verdict)

lemma rowsRel_settles:
  assumes "rowsRel E db db1"
  shows "rowsRel E db (snd (completeOnce q now i db1))"
    "rowsRel E db (snd (settleInstrumentalOnce now i tel OwnedByWorker db1))"
    "rowsRel E db (snd (settleGuardRejectedOnce now i reason db1))" "rowsRel E db (snd (settleBlockedOnce now i db1))"
proof -
  have t: "rowsRel E db (snd (settleTx i p f db1))" if "\<And>r. rowid r = i \<Longrightarrow> p r \<Longrightarrow> E r (onStatus (f r))" for p f
    using rowsRel_statement(3)[OF assms that] by blast
  show "rowsRel E db (snd (completeOnce q now i db1))"
    unfolding completeOnce_def by (rule rowsRel_statement(4)[OF assms]) (use E_settles in blast)
  show "rowsRel E db (snd (settleInstrumentalOnce now i tel OwnedByWorker db1))"
    using t[of "\<lambda>r. status r = ownerStatus OwnedByWorker \<and> (processing r \<or> \<not> wordQueued r)" "instrumentalRow now tel"] E_settles assms
    by (auto simp: settleInstrumentalOnce_def processing_def split: prod.split bool.split)
  show "rowsRel E db (snd (settleGuardRejectedOnce now i reason db1))"
    using t[of processing "rejectedRow now reason"] E_settles assms
    by (auto simp: settleGuardRejectedOnce_def split: prod.split bool.split)
  show "rowsRel E db (snd (settleBlockedOnce now i db1))"
    using t[of "\<lambda>r. processing r \<and> (artist_key r, title_key r) \<in> set (lyric_blocks db1)" "blockedRow now"] E_settles assms
    by (auto simp: settleBlockedOnce_def split: prod.split bool.split list.split)
qed

lemma rowsRel_failures:
  assumes "rowsRel E db db1"
  shows "rowsRel E db (snd (failOnce q now i cause db1))" "rowsRel E db (snd (Defer now i wait cause db1))"
    "rowsRel E db (snd (RetireMiss now i db1))" "rowsRel E db (snd (deferRefusedOnce now i wait maxWaits txt db1))"
proof -
  have u: "rowsRel E db (snd (updateReturning i processing f db1))"
    if "\<And>r. rowid r = i \<Longrightarrow> processing r \<Longrightarrow> E r (onStatus (f r))" for f
    using rowsRel_statement(5)[OF assms that] by blast
  show "rowsRel E db (snd (failOnce q now i cause db1))"
    using u[of "failRow q now cause"] E_failures assms by (auto simp: failOnce_def split: prod.split sum.split)
  show "rowsRel E db (snd (Defer now i wait cause db1))"
    unfolding Defer_def by (rule u) (use E_failures in blast)
  show "rowsRel E db (snd (RetireMiss now i db1))"
    using u[of "retireRow now"] E_failures assms by (auto simp: RetireMiss_def split: prod.split sum.split)
  show "rowsRel E db (snd (deferRefusedOnce now i wait maxWaits txt db1))"
    using rowsRel_statement(1)[OF assms, of processing "refusedRow now wait txt"] E_failures assms
    by (auto simp: deferRefusedOnce_def split: list.split)
qed

lemma rowsRel_trips:
  assumes "rowsRel E db db1"
  shows "rowsRel E db (snd (SettleUpgradeTrip q i ans db1))" "rowsRel E db (snd (SettleStuckUpgradeTrip q now i ok db1))"
    "rowsRel E db (snd (SettleGoneUpgradeTrip now i wait db1))"
proof -
  show "rowsRel E db (snd (SettleUpgradeTrip q i ans db1))"
    unfolding SettleUpgradeTrip_def by (rule rowsRel_statement(1)[OF assms]) (use E_trips in blast)
  have "rowsRel E db (snd (updateOne i upgradeTrip (onStatus \<circ> stuckRow q now ok) db1))"
    by (rule rowsRel_statement(1)[OF assms]) (use E_trips in blast)
  then show "rowsRel E db (snd (SettleStuckUpgradeTrip q now i ok db1))"
    by (simp add: SettleStuckUpgradeTrip_def stuckRow_def[abs_def])
  show "rowsRel E db (snd (SettleGoneUpgradeTrip now i wait db1))"
  proof (cases "matched (byID i upgradeTrip) db1")
    case (Cons r rs)
    have d: "distinct (map rowid (work_queue db1))" using assms by (simp add: rowsRel_def)
    note r = matched_byID_iff[OF d Cons]
    have "rowsRel E db (updateWork (byID i (\<lambda>_. True)) (onStatus \<circ> f) db1)" if "E r (onStatus (f r))" for f
      by (rule rowsRel_step[OF assms], unfold rewritten_def updateWork_def list_all2_conv_all_nth)
         (use r that E_refl in \<open>auto simp: byID_def dest!: nth_mem\<close>)
    then show ?thesis
      using E_trips[of r] r assms by (auto simp: SettleGoneUpgradeTrip_def Cons Let_def)
  qed (simp add: SettleGoneUpgradeTrip_def assms)
qed

end

sublocale pass_relation \<subseteq> pass_invariant "rowsRel E db" i for db
  by unfold_locales (erule rowsRel_verdict rowsRel_settles rowsRel_failures rowsRel_trips)+

end
