(* ===== verification/WorkerClaims.thy ===== *)
theory WorkerClaims
  imports WorkerLaws
begin

text \<open>
  The laws of a pass as interpretations of \<open>row_relation\<close> and \<open>pass_relation\<close>: a pass touches the row it
  claimed and no other, it charges that row at most once, and a word recheck charges it nothing.
\<close>

section \<open>A pass is a claim and work on the claimed row\<close>

lemma RunOnce_claims:
  assumes "run_state (RunOnce env) w = (res, w')"
  obtains (none) "wkDB w' = wkDB w"
  | (refused) q now e where "dequeueOnce q now (peWall env) (peRandom env) (wkDB w) = (Inl e, wkDB w')"
  | (claimed) q now item w1 where "dequeueOnce q now (peWall env) (peRandom env) (wkDB w) = (Inr item, wkDB w1)"
      "run_state (claimedPass env item) w1 = (res, w')"
proof (cases "peCtx env")
  case (Some e)
  then have "wkDB w' = wkDB w" using assms by (auto simp: RunOnce_def alters_def)
  then show thesis by (rule none)
next
  case None
  let ?w0 = "w\<lparr>wkContacted := True\<rparr>"
  obtain allOpen w1 where g: "run_state (allLanesUnavailable env) ?w0 = (allOpen, w1)" by (cases "run_state (allLanesUnavailable env) ?w0")
  have d: "wkDB w1 = wkDB w"
    using g by (auto simp: allLanesUnavailable_def Let_def split: prod.splits option.splits if_splits)
  obtain now fault where c: "peCalls env (wkCalls w1) = (now, fault)" by (cases "peCalls env (wkCalls w1)")
  obtain r db1 where q: "dequeueOnce (wkQueue w1) now (peWall env) (peRandom env) (wkDB w1) = (r, db1)"
    by (cases "dequeueOnce (wkQueue w1) now (peWall env) (peRandom env) (wkDB w1)")
  note run = assms None g d c q
  show thesis
  proof (cases "allOpen \<or> fault \<noteq> None")
    case True
    with run have "wkDB w' = wkDB w"
      by (cases allOpen; cases fault) (auto simp: RunOnce_def alters_def qOp_def)
    then show thesis by (rule none)
  next
    case False
    show thesis
    proof (cases r)
      case (Inl e)
      with run False have "wkDB w' = db1" by (auto simp: RunOnce_def alters_def qOp_def)
      then show thesis using refused q d Inl by metis
    next
      case (Inr item)
      have "run_state (claimedPass env item) (w1\<lparr>wkCalls := wkCalls w1 + 1, wkDB := db1\<rparr>) = (res, w')"
        using run False Inr by (auto simp: RunOnce_def alters_def qOp_def)
      then show thesis using q d Inr by (intro claimed) auto
    qed
  qed
qed

section \<open>Only the claimed row\<close>

definition passRow :: "int \<Rightarrow> WorkRow \<Rightarrow> WorkRow \<Rightarrow> bool" where
  "passRow i r r' \<longleftrightarrow> (rowid r \<noteq> i \<longrightarrow> r' = r) \<and> rowid r' = rowid r \<and> ident r' = ident r \<and> (goodRow r \<longrightarrow> goodRow r') \<and>
     (processing r' \<longrightarrow> processing r)"

lemma passRow_given: "rowid r = i \<Longrightarrow> processing r \<Longrightarrow> rowid r' = rowid r \<Longrightarrow> ident r' = ident r \<Longrightarrow>
    (goodRow r \<Longrightarrow> \<not> processing r') \<Longrightarrow> passRow i r (onStatus r')"
  using goodRow_onStatus[of r'] by (auto simp: passRow_def ident_def processing_def)

interpretation own_row: pass_relation "passRow i" i for i
proof
  fix r r' a b c q now wait st gen maxWaits msg cls tel reason cause ans ok
  show "passRow i r r" "passRow i a b \<Longrightarrow> passRow i b c \<Longrightarrow> passRow i a c" "passRow i r r' \<Longrightarrow> rowid r' = rowid r"
    by (auto simp: passRow_def)
  show "rowid r = i \<Longrightarrow> quietRow r r' \<Longrightarrow> passRow i r r'"
    by (auto simp: passRow_def quietRow_def goodRow_def terminal_def processing_def)
  show "rowid r = i \<Longrightarrow> st \<noteq> WordTimingQueued \<Longrightarrow> passRow i r (verdictRow st gen now r)"
    by (auto simp: passRow_def verdictRow_def ident_def goodRow_def terminal_def processing_def)
  show "rowid r = i \<Longrightarrow> processing r \<Longrightarrow> passRow i r (onStatus (releaseRow r)) \<and> passRow i r (onStatus (untilRow now wait r))"
    by (intro conjI passRow_given) (auto simp: releaseRow_def untilRow_def ident_def goodRow_def processing_def split: option.split)
  show "rowid r = i \<Longrightarrow> wordRecheckOwned r \<Longrightarrow> passRow i r (onStatus (wordSettledRow now st gen r)) \<and>
      passRow i r (onStatus (wordDeferredRow now wait maxWaits msg cls r)) \<and> passRow i r (onStatus (recheckRetryRow now wait msg r))"
    by (intro conjI passRow_given)
       (auto simp: wordSettledRow_def wordDeferredRow_def recheckRetryRow_def ident_def processing_def wordRecheckOwned_def Let_def)
  show "rowid r = i \<Longrightarrow> processing r \<Longrightarrow> passRow i r (onStatus (completeRow q now r)) \<and>
      passRow i r (onStatus (instrumentalRow now tel r)) \<and> passRow i r (onStatus (rejectedRow now reason r)) \<and>
      passRow i r (onStatus (blockedRow now r))"
    by (intro conjI passRow_given)
       (auto simp: completeRow_def instrumentalRow_def rejectedRow_def blockedRow_def ident_def processing_def)
  show "rowid r = i \<Longrightarrow> processing r \<Longrightarrow> passRow i r (onStatus (failRow q now cause r)) \<and>
      passRow i r (onStatus (deferRow now wait cause r)) \<and> passRow i r (onStatus (retireRow now r)) \<and>
      passRow i r (onStatus (refusedRow now wait msg r))"
    by (intro conjI passRow_given)
       (auto simp: failRow_def deferRow_def retireRow_def refusedRow_def ident_def processing_def Let_def)
  show "rowid r = i \<Longrightarrow> upgradeTrip r \<Longrightarrow> passRow i r (onStatus (tripSettledRow q ans r)) \<and>
      passRow i r (onStatus (stuckRow q now ok r)) \<and> passRow i r (onStatus (goneRetiredRow now r)) \<and>
      passRow i r (onStatus (goneMarkedRow now r))"
    by (intro conjI passRow_given)
       (auto simp: tripSettledRow_def stuckRow_def goneRetiredRow_def goneMarkedRow_def upgradeTrip_def ident_def processing_def)
qed

context pass_relation
begin

lemma pass_rewrites:
  assumes "itemID item = i" "run_state (claimedPass env item) w = (res, w')" "distinct (map rowid (work_queue (wkDB w)))"
  shows "rewritten E (wkDB w) (wkDB w')"
proof -
  have "onDB (rowsRel E (wkDB w)) w"
    using assms(3) E_refl by (auto simp: onDB_def rowsRel_def)
  then have "onDB (rowsRel E (wkDB w)) w'"
    using claimedPass_keeps[OF assms(1), of "wkDB w" env] assms(2) unfolding keeps_def by (blast dest: tripleD)
  then show ?thesis by (simp add: onDB_def rowsRel_def)
qed

end

context row_relation
begin

lemma word_pass_rewrites:
  assumes "itemID item = i" "wordItem item" "run_state (claimedPass env item) w = (res, w')"
    and "distinct (map rowid (work_queue (wkDB w)))"
  shows "rewritten E (wkDB w) (wkDB w')"
proof -
  have "onDB (rowsRel E (wkDB w)) w"
    using assms(4) E_refl by (auto simp: onDB_def rowsRel_def)
  then have "onDB (rowsRel E (wkDB w)) w'"
    using word_pass_keeps[OF assms(1,2), of "wkDB w" env] assms(3) unfolding keeps_def by (blast dest: tripleD)
  then show ?thesis by (simp add: onDB_def rowsRel_def)
qed

end

lemma rewritten_qinv_passRow: "rewritten (passRow i) a b \<Longrightarrow> qinv a \<Longrightarrow> qinv b"
  by (rule qinv_rewritten[where E = "passRow i"]) (auto simp: passRow_def)

lemma held_through:
  assumes "rewritten claimedRow a b" "rewritten (passRow i) b c" "qinv a" "life a i \<noteq> Held" "r \<in> set (work_queue a)" "processing r"
  shows "\<exists>r' \<in> set (work_queue c). rowid r' = rowid r \<and> heldCols r' = heldCols r"
proof -
  have l: "list_all2 claimedRow (work_queue a) (work_queue b)" "list_all2 (passRow i) (work_queue b) (work_queue c)"
    using assms(1,2) by (simp_all add: rewritten_def)
  obtain n where n: "n < length (work_queue a)" "r = work_queue a ! n" using assms(5) by (auto simp: in_set_conv_nth)
  have "claimedRow r (work_queue b ! n)" "passRow i (work_queue b ! n) (work_queue c ! n)" and len: "n < length (work_queue c)"
    using l n by (auto simp: list_all2_conv_all_nth)
  moreover have "rowid r \<noteq> i" using life_member[OF assms(3,5)] assms(4,6) by (auto simp: processing_def)
  ultimately have "rowid (work_queue c ! n) = rowid r \<and> heldCols (work_queue c ! n) = heldCols r"
    using assms(6) by (auto simp: claimedRow_def passRow_def)
  then show ?thesis using len nth_mem by blast
qed

text \<open>
  C2: a pass of the worker, whatever the lanes, the writer, the disk and the database driver answer, is
  a claim followed by changes to one row: one that nobody held before. It keeps the invariant of the
  queue, and what the holders of all other claimed rows rely on is as it was.
\<close>

theorem pass_frame:
  assumes "qinv (wkDB w)"
  shows "let db = wkDB w; db' = wkDB (snd (run_state (RunOnce env) w)) in
    qinv db' \<and>
    (\<exists>i db1. rewritten claimedRow db db1 \<and> rewritten (passRow i) db1 db' \<and> life db i \<noteq> Held) \<and>
    (\<forall>r \<in> set (work_queue db). processing r \<longrightarrow> (\<exists>r' \<in> set (work_queue db'). rowid r' = rowid r \<and> heldCols r' = heldCols r))"
proof -
  obtain res w' where run: "run_state (RunOnce env) w = (res, w')" by (cases "run_state (RunOnce env) w")
  have d: "distinct (map rowid (work_queue (wkDB w)))" using assms by (simp add: qinv_def)
  have absent: "life (wkDB w) (lastRowid (wkDB w) + 1) \<noteq> Held"
  proof -
    have "List.find (\<lambda>r. rowid r = lastRowid (wkDB w) + 1) (work_queue (wkDB w)) = None"
      using assms by (fastforce simp: find_None_iff qinv_def)
    then show ?thesis by (simp add: life_alt)
  qed
  have refl: "rewritten (passRow i) db db" for i db by (rule rewritten_refl) (simp add: passRow_def)
  have "\<exists>i db1. rewritten claimedRow (wkDB w) db1 \<and> rewritten (passRow i) db1 (wkDB w') \<and> life (wkDB w) i \<noteq> Held"
    using run
  proof (cases rule: RunOnce_claims)
    case none
    then show ?thesis using refl absent claimed_refl by metis
  next
    case (refused q now e)
    then have "rewritten claimedRow (wkDB w) (wkDB w')" using dequeue_claimed[OF d, of q now "peWall env" "peRandom env"] by simp
    then show ?thesis using refl absent by metis
  next
    case (claimed q now item w1)
    have c: "rewritten claimedRow (wkDB w) (wkDB w1)"
      using dequeue_claimed[OF d, of q now "peWall env" "peRandom env"] claimed(1) by simp
    then have "distinct (map rowid (work_queue (wkDB w1)))"
      using rewritten_rowids[OF c] d by (metis claimedRow_def)
    then have "rewritten (passRow (itemID item)) (wkDB w1) (wkDB w')"
      using own_row.pass_rewrites[OF HOL.refl claimed(2)] by simp
    moreover have "life (wkDB w) (itemID item) \<noteq> Held"
      using dequeue_life[OF assms claimed(1)] by (simp add: itemID_def)
    ultimately show ?thesis using c by blast
  qed
  then obtain i db1 where c: "rewritten claimedRow (wkDB w) db1" "rewritten (passRow i) db1 (wkDB w')" "life (wkDB w) i \<noteq> Held"
    by blast
  have "qinv (wkDB w')" using c(1,2) assms by (blast intro: qinv_claimed rewritten_qinv_passRow)
  then show ?thesis using c held_through[OF c(1,2) assms c(3)] by (auto simp: Let_def run)
qed

section \<open>A worker to run\<close>

text \<open>
  A new worker over given tables, and a pass in which the provider answers nothing, the output
  directory takes every write and the database answers.
\<close>

definition exWorker :: "QDB \<Rightarrow> Worker" where
  "exWorker db = NewWorker exFIFO db newCacheRepo None None exWorld"

definition exPassLane :: LaneEnv where
  "exPassLane = \<lparr>ask = (\<lambda>_. (zeroSong, Some (Sentinel ErrLaneBenignMiss))), detect = (\<lambda>_. Inl (Sentinel ErrLaneBenignMiss)),
     tAllow = 1, tSettle = 2, tRead = 3\<rparr>"

definition exDispatch :: DispatchEnv where
  "exDispatch = \<lparr>deOrdered = (\<lambda>_. (exPassLane, None)), dePre = (\<lambda>_. (exPassLane, None)), deRace = (\<lambda>_. exPassLane), dePost = (\<lambda>_. (exPassLane, None)),
     deEvents = [], deStart = None, deEnd = None, deInfer = (\<lambda>_. Inl (Sentinel ErrLaneBenignMiss))\<rparr>"

definition exPass :: PassEnv where
  "exPass = \<lparr>peKey = id, peCtx = None, peCtxEnd = None, peClock = (\<lambda>n. int n + 1), peGate = (\<lambda>n. int n + 1),
     peCalls = (\<lambda>n. (int n + 1, None)), peWall = 7, peRandom = id,
     peMeta = \<lparr>meRead = None, meFacts = None, meCache = None, meDurations = False, meKey = id\<rparr>,
     peHealer = None, peStat = (\<lambda>_. StatOK),
     peWriter = \<lparr>wrWrite = (\<lambda>_ _ _. Wrote), wrGuarded = None, wrAbsent = None, wrLanding = None, wrHolds = (\<lambda>_ _. False)\<rparr>,
     peDispatch = exDispatch, peWordDispatch = exDispatch, peEarly = exPassLane, peEarlyInfer = (\<lambda>_. Inl (Sentinel ErrLaneBenignMiss)),
     peLookupFaults = (None, None), peStoreFault = None, peEncode = (\<lambda>_. Inr []), peDecode = (\<lambda>_ _. zeroSong),
     peVerify = None, peGuardReason = (\<lambda>_. []), peTitleSettles = (\<lambda>_ _ _ _. (False, False)), peTitleWeak = (\<lambda>_ _. False),
     peKaraoke = (\<lambda>_ _. False), peTransient = (\<lambda>_. False), peVersion = []\<rparr>"

lemma exWorker_db [simp]: "wkDB (exWorker db) = db"
  by (simp add: exWorker_def NewWorker_def)

lemma exHeld_distinct: "distinct (map rowid (work_queue exHeld))"
  using exHeld_qinv(2) by (simp add: qinv_def)

theorem pass_frame_witness:
  "qinv (wkDB (snd (run_state (RunOnce exPass) (exWorker exHeld)))) \<and>
   (\<exists>r'. r' \<in> set (work_queue (wkDB (snd (run_state (RunOnce exPass) (exWorker exHeld))))) \<and> rowid r' = 1 \<and> status r' = StatusProcessing)"
proof -
  have "processing (hd (work_queue exHeld))" "hd (work_queue exHeld) \<in> set (work_queue exHeld)" "rowid (hd (work_queue exHeld)) = 1"
    by (simp_all add: exHeld_rows processing_def claimRow_def freshRow_def defaultRow_def)
  then show ?thesis
    using pass_frame[of "exWorker exHeld" exPass] exHeld_qinv(2) by (fastforce simp: Let_def heldCols_def processing_def)
qed

section \<open>What a pass charges\<close>

definition counters :: "WorkRow \<Rightarrow> int \<times> int" where
  "counters r = (attempts r, miss_count r)"

text \<open>A row is charged when it is given back: one attempt, or one miss, or the attempts of a trip are cleared.\<close>

definition chargedRow :: "int \<Rightarrow> WorkRow \<Rightarrow> WorkRow \<Rightarrow> bool" where
  "chargedRow i r r' \<longleftrightarrow> rowid r' = rowid r \<and> (rowid r \<noteq> i \<longrightarrow> r' = r) \<and>
     (counters r' = counters r \<and> (processing r' \<longrightarrow> processing r) \<or>
      processing r \<and> \<not> processing r' \<and>
        counters r' \<in> {(int64 (attempts r + 1), miss_count r), (attempts r, miss_count r + 1), (0, miss_count r)})"

interpretation charges: pass_relation "chargedRow i" i for i
proof
  fix r r' a b c q now wait st gen maxWaits msg cls tel reason cause ans ok
  show "chargedRow i r r" "chargedRow i a b \<Longrightarrow> chargedRow i b c \<Longrightarrow> chargedRow i a c" "chargedRow i r r' \<Longrightarrow> rowid r' = rowid r"
    by (auto simp: chargedRow_def counters_def)
  show "rowid r = i \<Longrightarrow> quietRow r r' \<Longrightarrow> chargedRow i r r'"
    by (auto simp: chargedRow_def quietRow_def counters_def processing_def)
qed (auto simp: chargedRow_def counters_def verdictRow_def releaseRow_def untilRow_def wordSettledRow_def wordDeferredRow_def recheckRetryRow_def
      completeRow_def instrumentalRow_def rejectedRow_def blockedRow_def failRow_def deferRow_def retireRow_def refusedRow_def
      tripSettledRow_def stuckRow_def goneRetiredRow_def goneMarkedRow_def upgradeTrip_def wordRecheckOwned_def processing_def Let_def)

text \<open>
  C3: whatever happens in a pass, the claimed row is charged at most once: its counters stay, or it was
  given back with one more attempt, with one more miss, or with the attempts of an upgrade trip
  cleared. Every other row is as it was.
\<close>

theorem one_charge:
  assumes "distinct (map rowid (work_queue (wkDB w)))"
  shows "list_all2 (\<lambda>r r'. rowid r' = rowid r \<and> (rowid r \<noteq> itemID item \<longrightarrow> r' = r) \<and>
       (counters r' = counters r \<or> processing r \<and> \<not> processing r' \<and>
         counters r' \<in> {(int64 (attempts r + 1), miss_count r), (attempts r, miss_count r + 1), (0, miss_count r)}))
     (work_queue (wkDB w)) (work_queue (wkDB (snd (run_state (claimedPass env item) w))))"
  using charges.pass_rewrites[OF refl _ assms, of env item]
  by (cases "run_state (claimedPass env item) w") (auto simp: rewritten_def chargedRow_def elim!: list_all2_mono)

theorem one_charge_witness:
  "length (work_queue (wkDB (snd (run_state (claimedPass exPass (hd (work_queue exHeld), [])) (exWorker exHeld))))) = 1 \<and>
   rowid (hd (work_queue (wkDB (snd (run_state (claimedPass exPass (hd (work_queue exHeld), [])) (exWorker exHeld)))))) = 1"
  using one_charge[of "exWorker exHeld" "(hd (work_queue exHeld), [])" exPass] exHeld_distinct
  by (auto simp: exHeld_rows list_all2_Cons1 claimRow_def freshRow_def defaultRow_def)

section \<open>A word recheck charges nothing\<close>

definition unchargedRow :: "int \<Rightarrow> WorkRow \<Rightarrow> WorkRow \<Rightarrow> bool" where
  "unchargedRow i r r' \<longleftrightarrow> rowid r' = rowid r \<and> (rowid r \<noteq> i \<longrightarrow> r' = r) \<and> counters r' = counters r \<and>
     upgrade_miss_count r' = upgrade_miss_count r \<and> priority r' = priority r"

lemma onStatus_upgrade [simp]: "upgrade_miss_count (onStatus r) = upgrade_miss_count r"
  by (simp add: trigger_defs)

interpretation rechecks: row_relation "unchargedRow i" i for i
  by unfold_locales
     (auto simp: unchargedRow_def counters_def quietRow_def releaseRow_def untilRow_def wordSettledRow_def wordDeferredRow_def
        recheckRetryRow_def Let_def)

text \<open>
  C4: a pass over a row queued for a word recheck never costs the row an attempt, a miss, a failed
  upgrade trip or its place in the queue, whichever way the recheck ends.
\<close>

theorem word_recheck_uncharged:
  assumes "distinct (map rowid (work_queue (wkDB w)))" and "wordItem item"
  shows "list_all2 (\<lambda>r r'. rowid r' = rowid r \<and> counters r' = counters r \<and>
       upgrade_miss_count r' = upgrade_miss_count r \<and> priority r' = priority r)
     (work_queue (wkDB w)) (work_queue (wkDB (snd (run_state (claimedPass env item) w))))"
  using rechecks.word_pass_rewrites[OF refl assms(2) _ assms(1), of env]
  by (cases "run_state (claimedPass env item) w") (auto simp: rewritten_def unchargedRow_def elim!: list_all2_mono)


definition exWordRow :: WorkRow where
  "exWordRow = (hd (work_queue exHeld))\<lparr>word := zeroWord\<lparr>word_timing_state := Some WordTimingQueued\<rparr>\<rparr>"

theorem word_recheck_uncharged_witness:
  "map counters (work_queue (wkDB (snd (run_state (claimedPass exPass (exWordRow, [])) (exWorker exHeld))))) = [(0, 0)]"
proof -
  have "wordItem (exWordRow, [])" by (simp add: wordItem_def wordQueued_def exWordRow_def)
  then show ?thesis
    using word_recheck_uncharged[of "exWorker exHeld" "(exWordRow, [])" exPass] exHeld_distinct
    by (auto simp: exHeld_rows list_all2_Cons1 claimRow_def freshRow_def defaultRow_def counters_def)
qed

end
