(* ===== verification/WorkerReturns.thy ===== *)
theory WorkerReturns
  imports WorkerClaims
begin

text \<open>
  A pass gives back the row it claimed. \<open>gives\<close> holds of a computation that starts with the row held and
  ends with it given back; \<open>decides\<close> of one whose value tells which of the two it left. Both assume a
  database that answers (\<open>answering\<close>).
\<close>

definition answering :: "PassEnv \<Rightarrow> bool" where
  "answering env \<longleftrightarrow> (\<forall>k. snd (peCalls env k) = None)"

text \<open>The row is held, with the marks the item was claimed with; the row is not held.\<close>

definition heldRow :: "bool \<Rightarrow> bool \<Rightarrow> WorkRow \<Rightarrow> bool" where
  "heldRow up wd r \<longleftrightarrow> processing r \<and> goodRow r \<and> upgrade_queued r = up \<and> wordQueued r = wd"

definition holds :: "int \<Rightarrow> bool \<Rightarrow> bool \<Rightarrow> QDB \<Rightarrow> bool" where
  "holds i up wd db \<longleftrightarrow> distinct (map rowid (work_queue db)) \<and>
     (\<exists>r \<in> set (work_queue db). rowid r = i \<and> heldRow up wd r)"

definition givenBack :: "int \<Rightarrow> QDB \<Rightarrow> bool" where
  "givenBack i db \<longleftrightarrow> (\<forall>r \<in> set (work_queue db). rowid r = i \<longrightarrow> \<not> processing r)"

abbreviation H :: "int \<Rightarrow> bool \<Rightarrow> bool \<Rightarrow> Worker \<Rightarrow> bool" where "H i up wd \<equiv> onDB (holds i up wd)"
abbreviation R :: "int \<Rightarrow> Worker \<Rightarrow> bool" where "R i \<equiv> onDB (givenBack i)"

section \<open>One statement\<close>

lemma quiet_held: "quietRow r r' \<Longrightarrow> heldRow up wd r \<Longrightarrow> heldRow up wd r'"
  by (auto simp: quietRow_def heldRow_def goodRow_def terminal_def processing_def)

lemma quietOn_rows:
  assumes "quietOn i g"
  shows "holds i up wd db \<Longrightarrow> holds i up wd (g db)" "givenBack i db \<Longrightarrow> givenBack i (g db)"
proof -
  obtain p f where g: "g = updateWork p f" "\<forall>r. p r \<longrightarrow> rowid r = i \<and> quietRow r (f r)"
    using assms by (auto simp: quietOn_def)
  have w: "work_queue (g db) = map (\<lambda>r. if p r then f r else r) (work_queue db)"
    using g(1) by (simp add: updateWork_def)
  have m: "map rowid (work_queue (g db)) = map rowid (work_queue db)"
    unfolding w using g(2) by (simp add: quietRow_def)
  show "holds i up wd (g db)" if h: "holds i up wd db"
  proof -
    obtain r where r: "r \<in> set (work_queue db)" "rowid r = i" "heldRow up wd r" "distinct (map rowid (work_queue db))"
      using h by (auto simp: holds_def)
    have "(if p r then f r else r) \<in> set (work_queue (g db))" unfolding w set_map by (rule imageI[OF r(1)])
    moreover have "rowid (if p r then f r else r) = i \<and> heldRow up wd (if p r then f r else r)"
      using r(2,3) g(2) quiet_held[of r "f r"] by (simp add: quietRow_def)
    ultimately show ?thesis using r(4) unfolding holds_def m by - (rule conjI, assumption, rule bexI, assumption, assumption)
  qed
  show "givenBack i (g db)" if "givenBack i db"
  proof -
    have "rowid (f r) = rowid r \<and> status (f r) = status r" if "p r" for r using g(2) that by (simp add: quietRow_def)
    then show ?thesis using that unfolding givenBack_def w by (auto simp: processing_def)
  qed
qed

lemmas quiet_keeps = stamps_quiet[THEN quietOn_rows(1)] stamps_quiet[THEN quietOn_rows(2)]

interpretation held: stamp_invariant "holds i up wd" i for i up wd
  by unfold_locales (erule quiet_keeps)+

interpretation given: stamp_invariant "givenBack i" i for i
  by unfold_locales (erule quiet_keeps)+

text \<open>A statement whose guard the held row meets, and that sets another status, gives it back.\<close>

lemma holds_matched:
  assumes "holds i up wd db"
  obtains r where "heldRow up wd r" "rowid r = i" "r \<in> set (work_queue db)" "\<And>x. x \<in> set (work_queue db) \<Longrightarrow> rowid x = i \<Longrightarrow> x = r"
    "\<And>p. matched (byID i p) db = (if p r then [r] else [])"
proof -
  obtain r where r: "r \<in> set (work_queue db)" "rowid r = i" "heldRow up wd r" and d: "distinct (map rowid (work_queue db))"
    using assms by (auto simp: holds_def)
  have u: "x = r" if "x \<in> set (work_queue db)" "rowid x = i" for x
    using d r that by (auto simp: distinct_map inj_on_def)
  have "matched (byID i p) db = (if p r then [r] else [])" for p
  proof (cases "matched (byID i p) db")
    case Nil
    then have "\<not> p r" using r by (auto simp: matched_def byID_def filter_empty_conv)
    then show ?thesis using Nil by simp
  next
    case (Cons x xs)
    have "x = r" "xs = []" "p r" using matched_byID_iff[OF d Cons] u by auto
    then show ?thesis using Cons by simp
  qed
  then show thesis using that r u by blast
qed

lemma given_map:
  assumes "\<And>x. x \<in> set (work_queue db) \<Longrightarrow> rowid x = i \<Longrightarrow> \<not> processing (if byID i p x then f x else x)" "\<And>x. rowid (f x) = rowid x"
  shows "givenBack i (updateWork (byID i p) f db)"
proof -
  have "\<not> processing y" if y: "y \<in> set (work_queue (updateWork (byID i p) f db))" "rowid y = i" for y
  proof -
    obtain x where x: "x \<in> set (work_queue db)" "y = (if byID i p x then f x else x)"
      using y(1) by (auto simp: updateWork_def)
    then have "rowid x = i" using y(2) assms(2)[of x] by (simp split: if_splits)
    then show ?thesis using assms(1)[OF x(1)] x(2) by simp
  qed
  then show ?thesis by (simp add: givenBack_def)
qed

lemma given_by_update:
  assumes "holds i up wd db" "\<And>r. heldRow up wd r \<Longrightarrow> p r \<and> \<not> processing (f r)" "\<And>r. rowid (f r) = rowid r"
  shows "givenBack i (updateWork (byID i p) (onStatus \<circ> f) db)" "matched (byID i p) db \<noteq> []"
proof -
  obtain r where r: "heldRow up wd r" "rowid r = i" "\<And>x. x \<in> set (work_queue db) \<Longrightarrow> rowid x = i \<Longrightarrow> x = r"
    "\<And>p. matched (byID i p) db = (if p r then [r] else [])"
    using holds_matched[OF assms(1)] by metis
  show "matched (byID i p) db \<noteq> []" using r assms(2) by auto
  show "givenBack i (updateWork (byID i p) (onStatus \<circ> f) db)"
    using r assms(2,3) by (auto simp: givenBack_def updateWork_def byID_def processing_def) metis+
qed

lemma givenBack_scans [simp]:
  "givenBack i (writeBackScanResultsDone j db) \<longleftrightarrow> givenBack i db" "givenBack i (setLinkedScan j from st db) \<longleftrightarrow> givenBack i db"
  by (simp_all add: givenBack_def)

lemma given_statement:
  assumes "holds i up wd db" "\<And>r. heldRow up wd r \<Longrightarrow> p r \<and> \<not> processing (f r)" "\<And>r. rowid (f r) = rowid r"
  shows "fst (updateOne i p (onStatus \<circ> f) db) \<and> givenBack i (snd (updateOne i p (onStatus \<circ> f) db))"
    and "\<not> isl (fst (requireAffected (updateOne i p (onStatus \<circ> f) db))) \<and> givenBack i (snd (requireAffected (updateOne i p (onStatus \<circ> f) db)))"
    and "fst (settleTx i p f db) \<and> givenBack i (snd (settleTx i p f db))"
    and "\<not> isl (fst (requireAffected (settleTx i p f db))) \<and> givenBack i (snd (requireAffected (settleTx i p f db)))"
    and "\<not> isl (fst (updateReturning i p f db)) \<and> givenBack i (snd (updateReturning i p f db))"
  using given_by_update[of i up wd db p f] assms
  by (auto simp: updateOne_def requireAffected_def settleTx_def updateReturning_def split: list.split)

lemma given_release:
  assumes "holds i up wd db"
  shows "\<not> isl (fst (Release i db)) \<and> givenBack i (snd (Release i db))"
    "\<not> isl (fst (ReleaseUntil now i wait db)) \<and> givenBack i (snd (ReleaseUntil now i wait db))"
proof -
  have g: "goodRow r \<Longrightarrow> processing r \<Longrightarrow> \<not> processing (releaseRow r) \<and> \<not> processing (untilRow now wait r)" for r
    by (auto simp: goodRow_def releaseRow_def untilRow_def processing_def split: option.split)
  show "\<not> isl (fst (Release i db)) \<and> givenBack i (snd (Release i db))"
    unfolding Release_def by (rule given_statement(2)[OF assms]) (auto simp: heldRow_def g, simp add: releaseRow_def)
  have "\<not> isl (fst (requireAffected (updateOne i processing (onStatus \<circ> untilRow now wait) db))) \<and>
      givenBack i (snd (requireAffected (updateOne i processing (onStatus \<circ> untilRow now wait) db)))"
    by (rule given_statement(2)[OF assms]) (auto simp: heldRow_def g, simp add: untilRow_def)
  then show "\<not> isl (fst (ReleaseUntil now i wait db)) \<and> givenBack i (snd (ReleaseUntil now i wait db))"
    by (simp add: ReleaseUntil_def untilRow_def[abs_def])
qed

lemma given_settle:
  assumes "holds i up wd db"
  shows "\<not> isl (fst (completeOnce q now i db)) \<and> givenBack i (snd (completeOnce q now i db))"
    "fst (settleInstrumentalOnce now i tel OwnedByWorker db) = Settled \<and> givenBack i (snd (settleInstrumentalOnce now i tel OwnedByWorker db))"
    "fst (settleGuardRejectedOnce now i reason db) = Settled \<and> givenBack i (snd (settleGuardRejectedOnce now i reason db))"
    "fst (settleBlockedOnce now i db) = Settled \<and> givenBack i (snd (settleBlockedOnce now i db)) \<or>
     fst (settleBlockedOnce now i db) = SettleNoBlock \<and> snd (settleBlockedOnce now i db) = db"
proof -
  show "\<not> isl (fst (completeOnce q now i db)) \<and> givenBack i (snd (completeOnce q now i db))"
    unfolding completeOnce_def
    by (rule given_statement(4)[OF assms]) (auto simp: heldRow_def completeRow_def processing_def)
  have "fst (settleTx i (\<lambda>r. status r = ownerStatus OwnedByWorker \<and> (processing r \<or> \<not> wordQueued r)) (instrumentalRow now tel) db) \<and>
     givenBack i (snd (settleTx i (\<lambda>r. status r = ownerStatus OwnedByWorker \<and> (processing r \<or> \<not> wordQueued r)) (instrumentalRow now tel) db))"
    by (rule given_statement(3)[OF assms]) (auto simp: heldRow_def instrumentalRow_def processing_def)
  then show "fst (settleInstrumentalOnce now i tel OwnedByWorker db) = Settled \<and> givenBack i (snd (settleInstrumentalOnce now i tel OwnedByWorker db))"
    by (auto simp: settleInstrumentalOnce_def split: prod.split bool.split)
  have "fst (settleTx i processing (rejectedRow now reason) db) \<and> givenBack i (snd (settleTx i processing (rejectedRow now reason) db))"
    by (rule given_statement(3)[OF assms]) (auto simp: heldRow_def rejectedRow_def processing_def)
  then show "fst (settleGuardRejectedOnce now i reason db) = Settled \<and> givenBack i (snd (settleGuardRejectedOnce now i reason db))"
    by (auto simp: settleGuardRejectedOnce_def split: prod.split bool.split)
  let ?b = "\<lambda>r. processing r \<and> (artist_key r, title_key r) \<in> set (lyric_blocks db)"
  obtain r where r: "heldRow up wd r" "\<And>p. matched (byID i p) db = (if p r then [r] else [])"
    "\<And>x. x \<in> set (work_queue db) \<Longrightarrow> rowid x = i \<Longrightarrow> x = r"
    using holds_matched[OF assms] by metis
  show "fst (settleBlockedOnce now i db) = Settled \<and> givenBack i (snd (settleBlockedOnce now i db)) \<or>
     fst (settleBlockedOnce now i db) = SettleNoBlock \<and> snd (settleBlockedOnce now i db) = db"
  proof (cases "?b r")
    case True
    have "givenBack i (updateWork (byID i ?b) (onStatus \<circ> blockedRow now) db)"
    proof (rule given_map)
      fix x assume "x \<in> set (work_queue db)" "rowid x = i"
      then have "x = r" by (rule r(3))
      then show "\<not> processing (if byID i ?b x then (onStatus \<circ> blockedRow now) x else x)"
        using True \<open>rowid x = i\<close> by (simp add: byID_def processing_def blockedRow_def)
    qed (simp add: blockedRow_def)
    then show ?thesis
      by (simp add: settleBlockedOnce_def settleTx_def updateOne_def r(2) True)
  next
    case False
    then show ?thesis using r(1) by (simp add: settleBlockedOnce_def settleTx_def updateOne_def r(2) heldRow_def)
  qed
qed

lemma given_failure:
  assumes "holds i up wd db"
  shows "\<not> isl (fst (failOnce q now i cause db)) \<and> givenBack i (snd (failOnce q now i cause db))"
    "\<not> isl (fst (Defer now i wait cause db)) \<and> givenBack i (snd (Defer now i wait cause db))"
    "\<not> isl (fst (RetireMiss now i db)) \<and> givenBack i (snd (RetireMiss now i db))"
    "fst (deferRefusedOnce now i wait maxWaits txt db) = Inr True \<and> givenBack i (snd (deferRefusedOnce now i wait maxWaits txt db)) \<or>
     fst (deferRefusedOnce now i wait maxWaits txt db) = Inr False \<and> snd (deferRefusedOnce now i wait maxWaits txt db) = db"
proof -
  have u: "\<not> isl (fst (updateReturning i processing f db)) \<and> givenBack i (snd (updateReturning i processing f db))"
    if "\<And>r. status (f r) \<noteq> StatusProcessing" "\<And>r. rowid (f r) = rowid r" for f
    by (rule given_statement(5)[OF assms]) (use that in \<open>auto simp: heldRow_def processing_def\<close>)
  show "\<not> isl (fst (failOnce q now i cause db)) \<and> givenBack i (snd (failOnce q now i cause db))"
    using u[of "failRow q now cause"] by (auto simp: failOnce_def failRow_def Let_def split: prod.split sum.split)
  show "\<not> isl (fst (Defer now i wait cause db)) \<and> givenBack i (snd (Defer now i wait cause db))"
    unfolding Defer_def by (rule u) (simp_all add: deferRow_def)
  show "\<not> isl (fst (RetireMiss now i db)) \<and> givenBack i (snd (RetireMiss now i db))"
    using u[of "retireRow now"] by (auto simp: RetireMiss_def retireRow_def split: prod.split sum.split)
  obtain r where r: "heldRow up wd r" "\<And>p. matched (byID i p) db = (if p r then [r] else [])"
    using holds_matched[OF assms] by metis
  have "givenBack i (snd (updateOne i processing (onStatus \<circ> refusedRow now wait txt) db))"
    using given_statement(1)[OF assms, of processing "refusedRow now wait txt"]
    by (simp add: heldRow_def refusedRow_def processing_def)
  then show "fst (deferRefusedOnce now i wait maxWaits txt db) = Inr True \<and> givenBack i (snd (deferRefusedOnce now i wait maxWaits txt db)) \<or>
     fst (deferRefusedOnce now i wait maxWaits txt db) = Inr False \<and> snd (deferRefusedOnce now i wait maxWaits txt db) = db"
    using r(1) by (simp add: deferRefusedOnce_def r(2) heldRow_def)
qed

lemma given_trip:
  assumes "holds i True wd db"
  shows "fst (SettleUpgradeTrip q i ans db) \<and> givenBack i (snd (SettleUpgradeTrip q i ans db))"
    "fst (SettleStuckUpgradeTrip q now i ok db) \<and> givenBack i (snd (SettleStuckUpgradeTrip q now i ok db))"
    "givenBack i (snd (SettleGoneUpgradeTrip now i wait db))"
proof -
  show "fst (SettleUpgradeTrip q i ans db) \<and> givenBack i (snd (SettleUpgradeTrip q i ans db))"
    unfolding SettleUpgradeTrip_def
    by (rule given_statement(1)[OF assms]) (auto simp: heldRow_def upgradeTrip_def tripSettledRow_def processing_def)
  show "fst (SettleStuckUpgradeTrip q now i ok db) \<and> givenBack i (snd (SettleStuckUpgradeTrip q now i ok db))"
    unfolding SettleStuckUpgradeTrip_def
    by (rule given_statement(1)[OF assms]) (auto simp: heldRow_def upgradeTrip_def processing_def)
  have g: "givenBack i (updateWork (byID i (\<lambda>_. True)) (onStatus \<circ> f) db)"
    if "\<And>r. status (f r) \<noteq> StatusProcessing" "\<And>r. rowid (f r) = rowid r" for f
    by (rule given_map) (use that in \<open>simp_all add: byID_def processing_def\<close>)
  obtain r where r: "heldRow True wd r" "\<And>p. matched (byID i p) db = (if p r then [r] else [])"
    using holds_matched[OF assms] by metis
  have "upgradeTrip r" using r(1) by (simp add: heldRow_def upgradeTrip_def)
  then show "givenBack i (snd (SettleGoneUpgradeTrip now i wait db))"
    using g[of "goneRetiredRow now"] g[of "goneMarkedRow now"]
    by (simp add: SettleGoneUpgradeTrip_def Let_def r(2) goneRetiredRow_def goneMarkedRow_def)
qed

lemma given_recheck:
  assumes "holds i up True db"
  shows "st \<noteq> WordTimingQueued \<Longrightarrow> \<not> isl (fst (SettleWordRecheck now i st gen db)) \<and> givenBack i (snd (SettleWordRecheck now i st gen db))"
    "\<not> isl (fst (DeferWordRecheck now i wait maxWaits txt cls db)) \<and> givenBack i (snd (DeferWordRecheck now i wait maxWaits txt cls db))"
    "\<not> isl (fst (RetryWordRecheckWrite now i wait txt db)) \<and> givenBack i (snd (RetryWordRecheckWrite now i wait txt db))"
proof -
  have o: "heldRow up True r \<Longrightarrow> wordRecheckOwned r" for r by (simp add: heldRow_def wordRecheckOwned_def)
  have "\<not> isl (fst (requireAffected (settleTx i wordRecheckOwned (wordSettledRow now st gen) db))) \<and>
      givenBack i (snd (requireAffected (settleTx i wordRecheckOwned (wordSettledRow now st gen) db)))"
    by (rule given_statement(4)[OF assms]) (auto simp: o wordSettledRow_def processing_def)
  then show "st \<noteq> WordTimingQueued \<Longrightarrow> \<not> isl (fst (SettleWordRecheck now i st gen db)) \<and> givenBack i (snd (SettleWordRecheck now i st gen db))"
    by (cases st) (simp_all add: SettleWordRecheck_def)
  have "\<not> isl (fst (updateReturning i wordRecheckOwned (wordDeferredRow now wait maxWaits txt cls) db)) \<and>
      givenBack i (snd (updateReturning i wordRecheckOwned (wordDeferredRow now wait maxWaits txt cls) db))"
    by (rule given_statement(5)[OF assms]) (auto simp: o wordDeferredRow_def Let_def processing_def)
  then show "\<not> isl (fst (DeferWordRecheck now i wait maxWaits txt cls db)) \<and> givenBack i (snd (DeferWordRecheck now i wait maxWaits txt cls db))"
    by (auto simp: DeferWordRecheck_def split: prod.split sum.split)
  show "\<not> isl (fst (RetryWordRecheckWrite now i wait txt db)) \<and> givenBack i (snd (RetryWordRecheckWrite now i wait txt db))"
    unfolding RetryWordRecheckWrite_def by (rule given_statement(2)[OF assms]) (auto simp: o processing_def)
qed

end
