(* ===== verification/WorkerGives.thy ===== *)
theory WorkerGives
  imports WorkerReturns
begin

text \<open>
  Every way a pass ends gives the row back: the calculus of \<open>gives\<close> and \<open>decides\<close> over the functions of
  \<open>WorkerSettle\<close> to \<open>WorkerPass\<close>, for a database that answers.
\<close>

definition gives :: "int \<Rightarrow> bool \<Rightarrow> bool \<Rightarrow> (Worker, 'a) state \<Rightarrow> bool" where
  "gives i up wd m \<longleftrightarrow> triple (H i up wd) m (\<lambda>_. R i)"

definition decides :: "int \<Rightarrow> bool \<Rightarrow> bool \<Rightarrow> (Worker, 'a option) state \<Rightarrow> bool" where
  "decides i up wd m \<longleftrightarrow> triple (H i up wd) m (\<lambda>a. case a of None \<Rightarrow> H i up wd | Some _ \<Rightarrow> R i)"

text \<open>A call that gives the row back and does not fail.\<close>

definition settling :: "int \<Rightarrow> bool \<Rightarrow> bool \<Rightarrow> (Worker, goerr + 'a) state \<Rightarrow> bool" where
  "settling i up wd m \<longleftrightarrow> triple (H i up wd) m (\<lambda>r w. R i w \<and> \<not> isl r)"

section \<open>Rules\<close>

lemma op_triple:
  assumes "answering env" and "\<And>q now db. holds i up wd db \<Longrightarrow> Q (map_sum queueErr id (fst (f q now db))) (snd (f q now db))"
  shows "triple (H i up wd) (qOp env f) (\<lambda>r w. Q r (wkDB w))"
proof (rule tripleI)
  fix w r w' assume h: "H i up wd w" and run: "run_state (qOp env f) w = (r, w')"
  obtain now where c: "peCalls env (wkCalls w) = (now, None)"
    using assms(1) by (cases "peCalls env (wkCalls w)") (auto simp: answering_def dest: spec[of _ "wkCalls w"])
  obtain a db where f: "f (wkQueue w) now (wkDB w) = (a, db)" by (cases "f (wkQueue w) now (wkDB w)")
  have "Q (map_sum queueErr id a) db" using assms(2)[of "wkDB w" "wkQueue w" now] h f by (simp add: onDB_def)
  moreover have "r = map_sum queueErr id a" "wkDB w' = db" using run c f by (auto simp: qOp_def)
  ultimately show "Q r (wkDB w')" by simp
qed

lemma settling_op: "answering env \<Longrightarrow> (\<And>q now db. holds i up wd db \<Longrightarrow> \<not> isl (fst (f q now db)) \<and> givenBack i (snd (f q now db))) \<Longrightarrow>
    settling i up wd (qOp env f)"
  unfolding settling_def using op_triple[of env i up wd "\<lambda>r db. givenBack i db \<and> \<not> isl r" f] by (simp add: onDB_def isl_map_sum)

lemma settling_val: "answering env \<Longrightarrow> (\<And>q now db. holds i up wd db \<Longrightarrow> givenBack i (snd (f q now db))) \<Longrightarrow> settling i up wd (qVal env f)"
  unfolding qVal_def by (rule settling_op) (auto simp: case_prod_beta)

named_theorems give "what gives the row back"

lemma gives_keep: "keeps (H i up wd) m \<Longrightarrow> (\<And>a. gives i up wd (f a)) \<Longrightarrow> gives i up wd (State_Monad.bind m f)"
  unfolding gives_def keeps_def by (rule triple_bind)

lemma gives_keep_value: "keeps (H i up wd) m \<Longrightarrow> (\<And>a w w'. run_state m w = (a, w') \<Longrightarrow> gives i up wd (f a)) \<Longrightarrow>
    gives i up wd (State_Monad.bind m f)"
  unfolding gives_def keeps_def triple_def by (auto split: prod.split) (metis case_prodD old.prod.case)

lemma gives_then: "gives i up wd m \<Longrightarrow> (\<And>a. keeps (R i) (f a)) \<Longrightarrow> gives i up wd (State_Monad.bind m f)"
  unfolding gives_def keeps_def by (rule triple_bind)

lemma gives_decided: "decides i up wd m \<Longrightarrow> gives i up wd (f None) \<Longrightarrow> (\<And>y. keeps (R i) (f (Some y))) \<Longrightarrow>
    gives i up wd (State_Monad.bind m f)"
  unfolding gives_def decides_def keeps_def by (erule triple_bind) (simp split: option.split)

lemma gives_settling:
  "settling i up wd m \<Longrightarrow> (\<And>y. keeps (R i) (g y)) \<Longrightarrow>
     gives i up wd (State_Monad.bind m (\<lambda>r. case r of Inl e \<Rightarrow> f e | Inr y \<Rightarrow> g y))"
  "settling i up wd m \<Longrightarrow> gives i up wd (State_Monad.bind m (\<lambda>r. ret (h r)))"
  unfolding gives_def settling_def keeps_def
  by (erule triple_bind, auto simp: triple_def split: sum.split prod.split)+

lemma gives_cases [give]:
  "(b \<Longrightarrow> gives i up wd m) \<Longrightarrow> (\<not> b \<Longrightarrow> gives i up wd n) \<Longrightarrow> gives i up wd (if b then m else n)"
  "gives i up wd m \<Longrightarrow> (\<And>y. gives i up wd (f y)) \<Longrightarrow> gives i up wd (case x of None \<Rightarrow> m | Some y \<Rightarrow> f y)"
  "(\<And>e. gives i up wd (g e)) \<Longrightarrow> (\<And>y. gives i up wd (h y)) \<Longrightarrow> gives i up wd (case s of Inl e \<Rightarrow> g e | Inr y \<Rightarrow> h y)"
  "(\<And>a b. gives i up wd (k a b)) \<Longrightarrow> gives i up wd (case p of (a, b) \<Rightarrow> k a b)"
  by (auto split: option.split sum.split prod.split)

lemma decides_none: "decides i up wd (ret None)"
  unfolding decides_def by (rule triple_return) simp

lemma decides_keep: "keeps (H i up wd) m \<Longrightarrow> (\<And>a. decides i up wd (f a)) \<Longrightarrow> decides i up wd (State_Monad.bind m f)"
  unfolding decides_def keeps_def by (rule triple_bind)

lemma decides_given: "gives i up wd m \<Longrightarrow> decides i up wd (State_Monad.bind m (\<lambda>a. ret (Some (h a))))"
  unfolding decides_def gives_def by (erule triple_bind) (rule triple_return, simp)

lemma decides_cases:
  "(b \<Longrightarrow> decides i up wd m) \<Longrightarrow> (\<not> b \<Longrightarrow> decides i up wd n) \<Longrightarrow> decides i up wd (if b then m else n)"
  "decides i up wd m \<Longrightarrow> (\<And>y. decides i up wd (f y)) \<Longrightarrow> decides i up wd (case x of None \<Rightarrow> m | Some y \<Rightarrow> f y)"
  "(\<And>e. decides i up wd (g e)) \<Longrightarrow> (\<And>y. decides i up wd (h y)) \<Longrightarrow> decides i up wd (case s of Inl e \<Rightarrow> g e | Inr y \<Rightarrow> h y)"
  by (auto split: option.split sum.split)

text \<open>A settle that is tried first, and whose value tells whether it gave the row back.\<close>

definition attempts_to :: "int \<Rightarrow> bool \<Rightarrow> bool \<Rightarrow> (Worker, bool) state \<Rightarrow> bool" where
  "attempts_to i up wd m \<longleftrightarrow> triple (H i up wd) m (\<lambda>b. if b then R i else H i up wd)"

lemma gives_attempted: "attempts_to i up wd m \<Longrightarrow> keeps (R i) m' \<Longrightarrow> gives i up wd n \<Longrightarrow>
    gives i up wd (State_Monad.bind m (\<lambda>b. if b then m' else n))"
  unfolding attempts_to_def gives_def keeps_def by (erule triple_bind) simp

lemma attempts_trip:
  assumes "answering env" "c \<Longrightarrow> up" "\<And>q now db. holds i True wd db \<Longrightarrow> fst (f q now db) \<and> givenBack i (snd (f q now db))"
  shows "attempts_to i up wd (if c then State_Monad.bind (qVal env f) (\<lambda>r. ret (r = Inr True)) else ret False)"
proof (cases c)
  case True
  have "triple (H i up wd) (qVal env f) (\<lambda>r w. r = Inr True \<and> givenBack i (wkDB w))"
    unfolding qVal_def
    by (rule op_triple[OF assms(1), where Q = "\<lambda>r db. r = Inr True \<and> givenBack i db"]) (use assms(2,3) True in \<open>auto simp: case_prod_beta\<close>)
  then show ?thesis
    using True unfolding attempts_to_def by (simp, elim triple_bind) (rule triple_return, simp add: onDB_def)
qed (auto simp: attempts_to_def intro: triple_return)

section \<open>Failing and releasing\<close>

lemma release_gives:
  assumes "answering env" "itemID item = i"
  shows "gives i up wd (releaseItem env item before after)" "gives i up wd (releaseAfterThrottle env item)"
    "gives i up wd (parkUnaskedRow env item)"
proof -
  show r: "gives i up wd (releaseItem env item before after)" for before after
    unfolding releaseItem_def assms(2)
    by (rule gives_settling, rule settling_op[OF assms(1)], rule given_release)
  show "gives i up wd (releaseAfterThrottle env item)"
    unfolding releaseAfterThrottle_def by (rule gives_keep, rule keep, simp, rule r)
  have "keeps (H i up wd) (providerReopenWait env)"
    unfolding providerReopenWait_def by (intro held.basic)
  then show "gives i up wd (parkUnaskedRow env item)"
    unfolding parkUnaskedRow_def assms(2)
    by (rule gives_keep) (rule gives_settling, rule settling_op[OF assms(1)], erule given_release, intro given.basic)
qed

lemma fail_gives:
  assumes "answering env" "itemID item = i" "upgradeItem item = up"
  shows "gives i up wd (failPass env item cause ok)" "gives i up wd (fail env item cause)" "gives i up wd (failStuckItem env item how e)"
proof -
  have f: "settling i up wd (qOp env (\<lambda>q now. failOnce q now i c))" for c
    by (rule settling_op[OF assms(1)], erule given_failure)
  have a: "keeps (H i up wd) (alters g)" if "\<And>w. wkDB (g w) = wkDB w" for g using that by (intro keep)
  show p: "gives i up wd (failPass env item cause ok)" for ok
    unfolding failPass_def assms(2)
    by (rule give)
       (rule release_gives[OF assms(1,2)],
        rule gives_attempted, rule attempts_trip[OF assms(1)], use assms(3) in simp, erule given_trip, rule keep,
        rule gives_keep, rule a, simp, rule gives_settling, rule f)
  show "gives i up wd (fail env item cause)" unfolding fail_def by (rule p)
  show "gives i up wd (failStuckItem env item how e)"
    unfolding failStuckItem_def assms(2)
    by (rule gives_attempted, rule attempts_trip[OF assms(1)], use assms(3) in simp, erule given_trip, rule keep,
        rule gives_keep, rule a, simp, rule gives_settling, rule f, rule keep)
qed

section \<open>Trips, misses and settles\<close>

lemma quiet_ends: "keeps (R i) noFailures" "keeps (R i) notContacted" "keeps (R i) (noteOffline env r)"
    "keeps (R i) (recordSourceEvent lane event)" "keeps (R i) (ret a)"
    "keeps (R i) (State_Monad.bind noFailures (\<lambda>_. ret a))" "keeps (R i) (State_Monad.bind notContacted (\<lambda>_. ret a))"
  by (intro given.basic given.roots_keep)+

lemma decides_settling: "settling i up wd m \<Longrightarrow> (\<And>y. keeps (R i) (n y)) \<Longrightarrow>
    decides i up wd (State_Monad.bind m (\<lambda>r. case r of Inl e \<Rightarrow> f e | Inr y \<Rightarrow> State_Monad.bind (n y) (\<lambda>_. ret (Some (c y)))))"
  unfolding settling_def decides_def keeps_def
  by (erule triple_bind, split sum.split, intro conjI allI impI, simp add: triple_def, rule triple_bind, erule meta_allE, rule triple_conseq,
      assumption, simp, assumption, rule triple_return, simp)

lemma trip_gives:
  assumes "answering env" "itemID item = i" "upgradeItem item"
  shows "gives i True wd (settleUpgradeTripAnswered env item ans)" "gives i True wd (settleUpgradeTrip env item)"
    "decides i True wd (settleGoneTrip env he item)"
proof -
  show t: "gives i True wd (settleUpgradeTripAnswered env item ans)" for ans
    unfolding settleUpgradeTripAnswered_def assms(2)
    by (rule gives_settling, rule settling_val[OF assms(1)], use given_trip in blast, rule quiet_ends)
  show "gives i True wd (settleUpgradeTrip env item)" unfolding settleUpgradeTrip_def by (rule t)
  have gone: "decides i True wd (State_Monad.bind (qVal env (\<lambda>q now. SettleGoneUpgradeTrip now i goneConfirmAfter))
      (\<lambda>r. case r of Inl e \<Rightarrow> f e | Inr y \<Rightarrow> State_Monad.bind notContacted (\<lambda>_. ret (Some None))))" for f
    by (rule decides_settling, rule settling_val[OF assms(1)], erule given_trip, rule quiet_ends)
  have mark: "keeps (H i True wd) (clearGoneMark env item)" by (rule held.stamps_keep[OF assms(2)])
  show "decides i True wd (settleGoneTrip env he item)"
  proof (cases "heSource he")
    case (Inl e)
    then show ?thesis by (simp add: settleGoneTrip_def decides_none)
  next
    case (Inr st)
    show ?thesis
      by (cases st) (simp_all add: settleGoneTrip_def Inr assms(2) decides_none decides_keep[OF mark] gone)
  qed
qed

lemma miss_gives:
  assumes "answering env" "itemID item = i" "upgradeItem item = up"
  shows "gives i up wd (requeueDeferred env item cause)" "gives i up wd (deferThenReset env item cause)"
    "decides i up wd (deferRefusedUntried env item e)"
proof -
  have s: "settling i v wd (if b then qOp env (\<lambda>q now. RetireMiss now i) else qOp env (\<lambda>q now. Defer now i d c))" for v b d c
    by (cases b) (simp_all add: settling_op[OF assms(1)] given_failure)
  show r: "gives i up wd (requeueDeferred env item cause)"
  proof (cases up)
    case True
    then show ?thesis
      using assms(3) unfolding requeueDeferred_def
      by (auto intro: trip_gives(1,2)[OF assms(1,2)])
  next
    case False
    then show ?thesis
      using assms(3) unfolding requeueDeferred_def assms(2) Let_def
      by (simp cong: if_cong) (rule gives_keep[OF keeps_reads], rule gives_settling(1)[OF s], rule keep)
  qed
  show "gives i up wd (deferThenReset env item cause)"
    unfolding deferThenReset_def by (rule gives_then[OF r]) (auto intro!: quiet_ends split: option.split)
  have d: "triple (H i up wd) (qOp env (\<lambda>q now. deferRefusedOnce now i wait maxRefusedWaits (errText e)))
      (\<lambda>r w. r = Inr True \<and> R i w \<or> r = Inr False \<and> H i up wd w)" for wait
    unfolding onDB_def[of _ "_ :: Worker", abs_def]
    by (rule op_triple[OF assms(1), where Q = "\<lambda>r db. r = Inr True \<and> givenBack i db \<or> r = Inr False \<and> holds i up wd db", unfolded onDB_def[abs_def]])
       (metis given_failure(4) map_sum.simps(2) id_apply)
  show "decides i up wd (deferRefusedUntried env item e)"
    unfolding deferRefusedUntried_def assms(2)
    by (rule decides_keep[OF keeps_reads], unfold decides_def, rule triple_bind[OF d])
       (auto simp: triple_def noFailures_def alters_def onDB_def split: sum.split bool.split prod.split)
qed

section \<open>Settles\<close>

lemma outcome_gives:
  assumes "answering env" "itemID item = i" "\<And>q now db. holds i up wd db \<Longrightarrow>
      fst (f q now db) = Settled \<and> givenBack i (snd (f q now db)) \<or> fst (f q now db) = SettleNoBlock \<and> snd (f q now db) = db"
  shows "gives i up wd (State_Monad.bind (qVal env f)
      (\<lambda>r. case r of Inl e \<Rightarrow> g e | Inr outcome \<Rightarrow> settledOrReleased env item before outcome))"
proof -
  have q: "triple (H i up wd) (qVal env f) (\<lambda>r w. r = Inr Settled \<and> R i w \<or> r = Inr SettleNoBlock \<and> H i up wd w)"
    unfolding qVal_def onDB_def[of _ "_ :: Worker", abs_def]
    by (rule op_triple[OF assms(1), where Q = "\<lambda>r db. r = Inr Settled \<and> givenBack i db \<or> r = Inr SettleNoBlock \<and> holds i up wd db",
          unfolded onDB_def[abs_def]])
       (frule assms(3), auto simp: case_prod_beta)
  have s: "keeps (R i) (settledOrReleased env item before Settled)"
    unfolding settledOrReleased_def by (simp add: quiet_ends)
  have n: "gives i up wd (settledOrReleased env item before SettleNoBlock)"
    unfolding settledOrReleased_def
    by simp (rule gives_then[OF release_gives(1)[OF assms(1,2)]], intro keep quiet_ends)
  show ?thesis
    unfolding gives_def
    by (rule triple_bind[OF q]) (use s n in \<open>auto simp: gives_def keeps_def triple_def split: sum.split\<close>)
qed

lemma settle_gives:
  assumes "answering env" "itemID item = i" "upgradeItem item = up"
  shows "gives i up wd (settleBlocked env item)" "gives i up wd (settleGuardRejected env item song)"
    "gives i up wd (completeKept env item kept)"
proof -
  have t: "up \<Longrightarrow> gives i up wd (settleUpgradeTrip env item)" using trip_gives(2)[OF assms(1,2)] assms(3) by auto
  show "gives i up wd (settleBlocked env item)"
    unfolding settleBlocked_def assms(3)
    by (rule give(1)[OF t]) (assumption, rule gives_keep[OF held.stamps_keep(7)[OF assms(2)]], rule outcome_gives[OF assms(1,2)],
      unfold assms(2), rule given_settle(4))
  show "gives i up wd (settleGuardRejected env item song)"
    unfolding settleGuardRejected_def assms(3)
    by (rule give(1)[OF t]) (assumption, (rule gives_keep, rule held.stamps_keep[OF assms(2)])+, rule outcome_gives[OF assms(1,2)],
      unfold assms(2), rule disjI1, rule given_settle(3))
  have c: "settling i up wd (qOp env (\<lambda>q now. completeOnce q now i))"
    by (rule settling_op[OF assms(1)], erule given_settle)
  have o: "keeps (H i up wd) (if outcome = [] then ret () else advisory (qStamp env (SetOutcomeType (itemID item) outcome)))" for outcome
    unfolding assms(2) by (intro held.basic held.stamps)
  show "gives i up wd (completeKept env item kept)"
    unfolding completeKept_def
    by (rule give(4)) (rule gives_keep[OF o], rule gives_keep, rule held.stamps_keep[OF assms(2)], rule give(2), unfold assms(2),
      rule gives_settling[OF c], rule quiet_ends, rule fail_gives[OF assms])
qed

section \<open>Markers\<close>

lemma loop_ends:
  "run_state (markerLoop env item song ps n kept missing err landed) w = (fin, w') \<Longrightarrow> fin \<noteq> AllBlocked"
  "run_state (titleLoop ifAbsent probe occupied song ps n kept missing err landed) w = (fin, w') \<Longrightarrow> fin \<noteq> AllBlocked"
  "run_state (wordWriteLoop env song ps n missing err landed) w = (fin, w') \<Longrightarrow> fin \<noteq> AllBlocked"
proof -
  show "run_state (markerLoop env item song ps n kept missing err landed) w = (fin, w') \<Longrightarrow> fin \<noteq> AllBlocked"
    by (induction ps arbitrary: n kept missing err landed w) (auto split: prod.splits WriteRes.splits)
  show "run_state (titleLoop ifAbsent probe occupied song ps n kept missing err landed) w = (fin, w') \<Longrightarrow> fin \<noteq> AllBlocked"
    by (induction ps arbitrary: n kept missing err landed w) (auto split: prod.splits WriteRes.splits if_splits)
  show "run_state (wordWriteLoop env song ps n missing err landed) w = (fin, w') \<Longrightarrow> fin \<noteq> AllBlocked"
    by (induction ps arbitrary: n missing err landed w) (auto split: prod.splits WriteRes.splits)
qed

lemma gives_end:
  "fin \<noteq> AllBlocked \<Longrightarrow> (\<And>e l. gives i up wd (g e l)) \<Longrightarrow> (\<And>k s e l. gives i up wd (h k s e l)) \<Longrightarrow>
     gives i up wd (case fin of AllBlocked \<Rightarrow> m | Broke e l \<Rightarrow> g e l | Ended k s e l \<Rightarrow> h k s e l)"
  by (cases fin) auto

lemma gives_value: "triple (H i up wd) m (\<lambda>r w. r = v \<and> R i w) \<Longrightarrow> keeps (R i) (f v) \<Longrightarrow> gives i up wd (State_Monad.bind m f)"
  unfolding gives_def keeps_def by (erule triple_bind) (auto simp: triple_def)

lemma marker_settles:
  assumes "answering env" "itemID item = i"
  shows "triple (H i up wd) (settleDetectorInstrumental env item song) (\<lambda>r w. r = Inr Settled \<and> R i w)"
proof -
  have "triple (H i up wd) (qVal env (\<lambda>q now. settleInstrumentalOnce now i (songTelemetry song) OwnedByWorker))
      (\<lambda>r w. r = Inr Settled \<and> givenBack i (wkDB w))"
    unfolding qVal_def
    by (rule op_triple[OF assms(1), where Q = "\<lambda>r db. r = Inr Settled \<and> givenBack i db"])
       (drule given_settle(2), auto simp: case_prod_beta)
  then show ?thesis
    unfolding settleDetectorInstrumental_def assms(2) by (rule triple_bind) (auto simp: triple_def onDB_def)
qed

lemma marker_gives:
  assumes "answering env" "itemID item = i" "upgradeItem item = up"
  shows "gives i up wd (completeDetectorInstrumental env item song)" "gives i up wd (completeTitleInstrumental env item track writer)"
proof -
  have m: "gives i up wd (settleMarker env item song)"
    unfolding settleMarker_def
    by ((rule gives_keep, rule held.stamps_keep[OF assms(2)])+, rule gives_value, rule marker_settles[OF assms(1,2)])
       (simp, intro keep quiet_ends)
  have f: "gives i up wd (failMarker env item e)" for e unfolding failMarker_def by (rule miss_gives[OF assms])
  show "gives i up wd (completeDetectorInstrumental env item song)"
    unfolding completeDetectorInstrumental_def Let_def
    by (rule gives_keep_value, rule held.loops_keep, drule loop_ends, rule gives_end, assumption, rule f,
        rule gives_keep, rule held.writes_keep, intro give f m settle_gives[OF assms])
  have c: "settling i up wd (qOp env (\<lambda>q now. completeOnce q now i))"
    by (rule settling_op[OF assms(1)], erule given_settle)
  have k: "keeps (H i up wd) (qStamp env (SetProviderLane i a b))" "keeps (H i up wd) (qStamp env (SetOutcomeType i a))" for a b
    by (intro held.basic held.stamps; assumption)+
  have s: "gives i up wd (settleTitle env item song)" for song
    unfolding settleTitle_def Let_def assms(2)
    by ((rule gives_keep, rule held.stamps_keep[OF assms(2)])+,
        rule gives_keep[OF k(1)], rule give, rule fail_gives[OF assms], rule gives_keep[OF k(2)], rule give, rule fail_gives[OF assms],
        rule gives_settling[OF c], rule quiet_ends)
  have t: "gives i up wd (failTitle env item e)" for e unfolding failTitle_def by (rule fail_gives[OF assms])
  show "gives i up wd (completeTitleInstrumental env item track writer)"
    unfolding completeTitleInstrumental_def Let_def
    by (rule give(4), rule gives_keep_value, rule held.loops_keep, drule loop_ends, rule gives_end, assumption, rule t,
        rule gives_keep, rule held.writes_keep, intro give t s settle_gives[OF assms])
qed

section \<open>What was found\<close>

text \<open>The word-timing stamp of an ordinary pass leaves an ordinary row held.\<close>

lemma word_stamp_held:
  assumes "itemID item = i"
  shows "keeps (H i up False) (stampWordTiming env item ps song)"
proof -
  have s: "holds i up False (stamp i (\<lambda>r. r\<lparr>word := v\<rparr>) db)"
    if h: "holds i up False db" and v: "word_timing_state v \<noteq> Some WordTimingQueued" for v db
  proof -
    obtain r where r: "r \<in> set (work_queue db)" "rowid r = i" "heldRow up False r" "distinct (map rowid (work_queue db))"
      using h by (auto simp: holds_def)
    let ?g = "\<lambda>r. if byID i (\<lambda>_. True) r then r\<lparr>word := v\<rparr> else r"
    have w: "work_queue (stamp i (\<lambda>r. r\<lparr>word := v\<rparr>) db) = map ?g (work_queue db)" by (simp add: stamp_def updateWork_def)
    have "rowid (?g x) = rowid x" for x by simp
    then have "map rowid (map ?g (work_queue db)) = map rowid (work_queue db)" unfolding map_map comp_def by (rule map_cong[OF refl])
    moreover have "?g r \<in> set (map ?g (work_queue db))" unfolding set_map by (rule imageI[OF r(1)])
    moreover have "heldRow up False (?g r)" "rowid (?g r) = i"
      using r(2,3) v by (simp_all add: heldRow_def processing_def goodRow_def terminal_def wordQueued_def)
    ultimately show ?thesis using r(4) unfolding holds_def w by - (rule conjI, simp only:, rule bexI, rule conjI)
  qed
  have "holds i up False db \<Longrightarrow> holds i up False (snd (SetWordTimingState now i st gen checkedAt db))" for now st gen checkedAt db
    by (cases st) (auto simp: SetWordTimingState_def Let_def intro!: s)
  then show ?thesis
    unfolding stampWordTiming_def
    by (auto simp: assms intro!: held.basic held.stamps_keep split: option.split)
qed

lemma landed_gives:
  assumes "answering env" "itemID item = i" "upgradeItem item = up"
  shows "gives i up False (settleLanded env item song hit written)"
proof -
  have c: "settling i up False (qOp env (\<lambda>q now. completeOnce q now i))"
    by (rule settling_op[OF assms(1)], erule given_settle)
  have o: "keeps (H i up False) (if b then ret () else advisory (qStamp env (SetOutcomeType i outcome)))" for b outcome
    by (intro held.basic held.stamps)
  show ?thesis
    unfolding settleLanded_def Let_def assms(2)
    by (rule gives_keep[OF o], rule gives_keep, rule held.stamps_keep[OF assms(2)], rule gives_keep[OF keeps_reads],
        rule gives_keep, rule held.stamps_keep[OF assms(2)], rule gives_keep[OF word_stamp_held[OF assms(2)]],
        rule gives_keep, rule held.stamps_keep[OF assms(2)], rule give(2), rule gives_settling[OF c],
        intro given.basic, rule fail_gives[OF assms])
qed

lemma found_gives:
  assumes "answering env" "itemID item = i" "upgradeItem item = up"
  shows "gives i up False (finishFound env item track song hit)"
proof -
  have k: "keeps (H i up False) (stampLanding env item song hit)" "keeps (H i up False) (storeFresh env item track song hit)" for song hit
    unfolding stampLanding_def storeFresh_def
    by (auto simp: assms(2) intro!: held.basic held.stamps held.stamps_keep held.store_keeps)
  have o: "gives i up False (writeOutputs env item track song hit)" for song hit
    unfolding writeOutputs_def Let_def
    by (rule gives_keep, rule held.loops_keep)
       (auto split: WriteEnd.split intro!: settle_gives[OF assms] fail_gives[OF assms] landed_gives[OF assms] give
          gives_keep[OF held.writes_keep(3)] gives_keep[OF k(1)] gives_keep[OF k(2)])
  have t: "up \<Longrightarrow> gives i up False (settleUpgradeTrip env item)" using trip_gives(2)[OF assms(1,2)] assms(3) by auto
  have v: "gives i up False (writeVetted env item track song hit)" for song hit
    unfolding writeVetted_def Let_def assms(3)
    by (rule give(1)[OF t o]) simp
  have l: "keeps (H i up False) (if b then ret () else stampLane env item song)" for b
    by (intro held.basic held.stamps_keep[OF assms(2)])
  have "gives i up False (vetFresh env item track song)"
    unfolding vetFresh_def Let_def
    by (rule gives_keep[OF keeps_tick], (rule gives_keep, rule held.records_keep)+, rule gives_keep[OF keeps_reads], rule give,
        intro give settle_gives[OF assms] v, rule gives_keep, intro held.basic held.stamps_keep[OF assms(2)], rule fail_gives[OF assms])
  then show ?thesis
    unfolding finishFound_def
    by (intro give v) (assumption | (rule gives_keep, rule held.records_keep) | rule marker_gives[OF assms])+
qed

section \<open>What was answered\<close>

lemma answer_gives:
  assumes "answering env" "itemID item = i" "upgradeItem item = up"
  shows "gives i up False (finishAnswer env item track song hit err)" "gives i up False (finishFetch env item track song hit err)"
proof -
  have t: "keeps (H i up False) (stampDetectorMissTelemetry env item)" by (rule held.stamps_keep[OF assms(2)])
  have r: "gives i up False (State_Monad.bind (releaseItem env item before after) f)" if "\<And>a. keeps (R i) (f a)" for before after f
    by (rule gives_then[OF release_gives(1)[OF assms(1,2)] that])
  have u: "gives i up False (finishUnavailable env item e)" for e
    unfolding finishUnavailable_def
    by (rule gives_keep[OF t], rule gives_keep[OF keeps_reads], rule give, rule release_gives[OF assms(1,2)], rule r, rule keep)
  have m: "gives i up False (finishMiss env item song e)" for e
    unfolding finishMiss_def
    by ((rule gives_keep, rule held.records_keep)+, rule gives_keep[OF t], rule miss_gives[OF assms])
  have e: "gives i up False (finishError env item song e)" for e
  proof -
    have th: "gives i up False (State_Monad.bind (releaseAfterThrottle env item) (\<lambda>err. ret (h err)))" for h :: "goerr option \<Rightarrow> goerr option"
      by (rule gives_then[OF release_gives(2)[OF assms(1,2)]]) (rule keep)
    have f: "gives i up False (State_Monad.bind (fail env item c) (\<lambda>err. State_Monad.bind (if b err then noFailures else ret ()) (\<lambda>_. ret (h err))))"
      for c b and h :: "goerr option \<Rightarrow> goerr option"
      by (rule gives_then[OF fail_gives(2)[OF assms]]) (intro given.basic)
    show ?thesis
      unfolding finishError_def
      by (rule give, rule settle_gives[OF assms], cases "classifyErr e")
         (simp_all add: u m th f, (rule r, intro given.basic)?)
  qed
  show a: "gives i up False (finishAnswer env item track song hit err)" for err
    unfolding finishAnswer_def
    by (rule give(2), rule gives_keep, rule held.basic, simp, rule found_gives[OF assms], rule e)
  show "gives i up False (finishFetch env item track song hit err)"
    unfolding finishFetch_def
    by (rule give(2), rule a, rule give, rule gives_keep[OF t], rule gives_decided[OF miss_gives(3)[OF assms]])
       (simp_all add: a keeps_return)
qed

lemma fetch_gives:
  assumes "answering env" "itemID item = i" "upgradeItem item = up"
  shows "gives i up False (fetch env item track)"
  unfolding fetch_def Let_def
  by (rule gives_keep[OF keeps_reads], rule gives_keep, rule held.records_keep, rule gives_keep, rule held.fetches_keep,
      intro give answer_gives[OF assms], rule gives_keep, rule held.fetches_keep, intro give answer_gives[OF assms])

section \<open>A word recheck\<close>

lemma driver_gives: "settling i up wd m \<Longrightarrow> keeps (R i) n \<Longrightarrow>
    gives i up wd (State_Monad.bind m (\<lambda>r. case driverErr r of None \<Rightarrow> n | Some e \<Rightarrow> f e))"
  unfolding gives_def settling_def keeps_def
  by (erule triple_bind) (auto simp: triple_def driverErr_def split: sum.split)

lemma recheck_gives:
  assumes "answering env" "itemID item = i"
  shows "gives i up True (deferWordRecheck env item cause)" "gives i up True (retryWordRecheckWrite env item e)"
    "gives i up True (releaseWordRecheckOff env item)"
    "st \<noteq> WordTimingQueued \<Longrightarrow> keeps (R i) m \<Longrightarrow> gives i up True (settleWordRecheckThen env item st m)"
    "gives i up True (settleWordRecheck env item)"
proof -
  have c: "keeps (R i) (classifyWordRecheckFailure e)" for e
    unfolding classifyWordRecheckFailure_def by (intro given.basic; simp)
  have q: "settling i up True (qOp env (\<lambda>q now. DeferWordRecheck now i wait waits msg cls))"
    "settling i up True (qOp env (\<lambda>q now. RetryWordRecheckWrite now i wait msg))"
    "st \<noteq> WordTimingQueued \<Longrightarrow> settling i up True (qOp env (\<lambda>q now. SettleWordRecheck now i st gen))" for wait waits msg cls st gen
    by (rule settling_op[OF assms(1)], erule given_recheck, assumption?)+
  show d: "gives i up True (deferWordRecheck env item cause)" for cause
    unfolding deferWordRecheck_def assms(2)
    by (rule give, rule release_gives[OF assms], rule gives_keep[OF keeps_reads], rule driver_gives[OF q(1) c])
  show "gives i up True (retryWordRecheckWrite env item e)"
    unfolding retryWordRecheckWrite_def assms(2)
    by (rule give, rule release_gives[OF assms], rule gives_keep[OF keeps_reads], rule driver_gives[OF q(2) c])
  show "gives i up True (releaseWordRecheckOff env item)"
    unfolding releaseWordRecheckOff_def assms(2) by (rule driver_gives[OF q(1)]) (rule keep)
  show s: "gives i up True (settleWordRecheckThen env item st m)" if "st \<noteq> WordTimingQueued" "keeps (R i) m" for st m
    unfolding settleWordRecheckThen_def assms(2)
    by (rule gives_keep[OF keeps_reads], rule driver_gives[OF q(3)[OF that(1)]], intro keep that(2))
  show "gives i up True (settleWordRecheck env item)"
    unfolding settleWordRecheck_def by (rule s) (simp, rule keep)
qed

lemma word_gives:
  assumes "answering env" "itemID item = i"
  shows "gives i up True (runWordRecheck env item track)"
proof -
  note ends = recheck_gives[OF assms]
  have f: "gives i up True (failWordWrite env item e)" for e unfolding failWordWrite_def by (intro give ends)
  have l: "keeps (H i up True) (advisory (qStamp env (SetProviderLane i a b)))" for a b by (intro held.basic held.stamps)
  have s: "gives i up True (stampWordWrite env item song written)" for song written
    unfolding stampWordWrite_def assms(2)
    by (rule gives_keep[OF l], (rule gives_keep, rule held.stamps_keep[OF assms(2)])+, rule give(2), rule gives_keep, rule held.records_keep)
       (simp_all add: ends given.records_keep)
  have w: "gives i up True (writeWordRecheck env item track song)" for song
    unfolding writeWordRecheck_def Let_def
    by (rule gives_keep_value, rule held.loops_keep, drule loop_ends, rule gives_end, assumption, rule f,
        rule gives_keep, rule held.writes_keep, intro give f s)
  have k: "keeps (H i up True) (if usesCache item then store env track song else ret None)" for song
    by (intro keep held.store_keeps)
  have a: "gives i up True (acceptWordResult env item track song)" for song
    unfolding acceptWordResult_def Let_def
    by (rule gives_keep[OF keeps_reads], intro give ends, rule gives_keep[OF keeps_tick], rule gives_keep[OF k], intro give ends w)
  have n: "gives i up True (State_Monad.bind noFailures (\<lambda>_. m))" if "gives i up True m" for m :: "(Worker, 'a) state"
    by (rule gives_keep[OF _ that]) (rule held.records_keep)
  show ?thesis
    unfolding runWordRecheck_def
    by (intro give n ends gives_keep[OF keeps_reads] gives_keep[OF held.dispatches_keep(2)])
       (rule gives_keep, rule held.basic, simp, intro give n ends a)
qed

section \<open>A whole pass\<close>

lemma park_decides:
  assumes "answering env" "itemID item = i"
  shows "decides i up wd (parkIfLibraryOffline env item)"
proof -
  have p: "gives i up wd (parkOffline env item r)" for r
    unfolding parkOffline_def assms(2)
    by (rule gives_settling, rule settling_op[OF assms(1)], erule given_release, intro keep quiet_ends)
  show ?thesis
    unfolding parkIfLibraryOffline_def Let_def
    by (auto simp: case_prod_beta intro!: decides_none decides_keep[OF held.roots_keep(1)] decides_keep[OF keeps_reads]
         decides_keep[OF held.roots_keep(2)] decides_keep[OF held.records_keep(9)] decides_given[OF p] split: option.split sum.split)
qed

lemma title_decides:
  assumes "answering env" "itemID item = i" "upgradeItem item = up" "wordItem item = wd"
  shows "decides i up wd (titleRuleGate env item track)"
proof -
  have m: "gives i up wd (markTitle env item track writer)" for writer
    unfolding markTitle_def
    by (rule gives_keep_value, rule held.preflight_keeps[OF assms(2)])
       (use assms in \<open>auto dest!: preflight_item simp: itemID_def upgradeItem_def intro!: give marker_gives fail_gives\<close>)
  have n: "decides i up wd (State_Monad.bind notContacted (\<lambda>_. x))" "decides i up wd (State_Monad.bind noFailures (\<lambda>_. x))"
    if "decides i up wd x" for x :: "(Worker, 'a option) state"
    by (rule decides_keep[OF _ that], rule held.records_keep)+
  have w: "gives i up wd (settleWordRecheck env item)" if "wd" using recheck_gives(5)[OF assms(1,2)] that by simp
  have t: "gives i up wd (settleUpgradeTrip env item)" if "up" using trip_gives(2)[OF assms(1,2)] assms(3) that by simp
  show ?thesis
    unfolding titleRuleGate_def assms(3,4)
    by (rule decides_keep[OF keeps_reads])
       (rule decides_cases(1) decides_cases(2) decides_none n decides_given m w t | assumption)+
qed

lemma claimed_gives:
  assumes "answering env"
  shows "gives (itemID item) (upgradeItem item) (wordItem item) (claimedPass env item)"
proof -
  let ?i = "itemID item" and ?up = "upgradeItem item"
  have same: "itemID (fst pre) = ?i \<and> upgradeItem (fst pre) = ?up" if "run_state (preflightOutputs env item) w = (pre, w')" for pre w w'
    using preflight_item[OF that] by (simp add: itemID_def upgradeItem_def)
  have no: "gives ?i ?up False (noOutputs env item')" if "itemID item' = ?i" "upgradeItem item' = ?up" for item'
  proof -
    have "decides ?i ?up False (case peHealer env of Some he \<Rightarrow> if upgradeItem item' then settleGoneTrip env he item' else ret None | None \<Rightarrow> ret None)"
      using trip_gives(3)[OF assms that(1)] that(2) by (auto intro!: decides_none split: option.split)
    then show ?thesis
      unfolding noOutputs_def by (rule gives_decided) (simp_all add: fail_gives[OF assms that] keeps_return)
  qed
  have clear: "keeps (H ?i ?up False) (if b then clearGoneMark env item' else ret ())" if "itemID item' = ?i" for b item'
    by (intro keep held.stamps_keep[OF that])
  have o: "gives ?i ?up False (ordinaryPass env item track)" for track
    unfolding ordinaryPass_def
  proof (rule gives_keep_value, rule held.preflight_keeps[OF refl], drule same)
    fix pre :: "WorkItem \<times> bool" assume pre: "itemID (fst pre) = ?i \<and> upgradeItem (fst pre) = ?up"
    obtain item' ok where p: "pre = (item', ok)" by (cases pre)
    then have i: "itemID item' = ?i" "upgradeItem item' = ?up" using pre by auto
    show "gives ?i ?up False (case pre of (item, ok) \<Rightarrow>
        if \<not> ok then noOutputs env item
        else State_Monad.bind (if upgradeItem item \<and> peHealer env \<noteq> None then clearGoneMark env item else ret ()) (\<lambda>_. fetch env item track))"
      unfolding p prod.case by (intro give no i gives_keep[OF clear[OF i(1)]] fetch_gives[OF assms i])
  qed
  have rest: "gives ?i ?up (wordItem item) (if wordItem item then runWordRecheck env item track else ordinaryPass env item track)" for track
    using o[of track] word_gives[OF assms refl, of item ?up track] by auto
  show ?thesis
    unfolding claimedPass_def
    by (rule gives_decided[OF park_decides[OF assms refl]], unfold option.case, rule gives_keep, rule held.metadata_keep,
        rule gives_decided[OF title_decides[OF assms refl refl refl]], unfold option.case, rule rest)
       (auto intro!: keep quiet_ends split: option.split)
qed

text \<open>A claim returns a row that is held, as it is in the table.\<close>

lemma claimFirst_holds:
  assumes "qinv db" "\<And>r. r \<in> set cs \<Longrightarrow> r \<in> set (work_queue db) \<and> retryable r" "claimFirst wall cs db = (Inr item, db')"
  shows "holds (itemID item) (upgradeItem item) (wordItem item) db'"
proof -
  obtain r rs where c: "cs = r # rs" using assms(3) by (cases cs) (auto simp: claimFirst_def)
  have r: "r \<in> set (work_queue db)" "retryable r" using assms(2)[of r] c by auto
  from claimFirst_row[OF assms(1) r(1), of wall rs] assms(3)
  have e: "fst item = claimRow wall r" "db' = updateWork (\<lambda>x. x = r) (onStatus \<circ> claimRow wall) db"
    by (auto simp: c scanWorkItem_def)
  have inv: "qinv db'"
    unfolding e(2) by (rule qinv_claimed[OF assms(1) claimed_updateWork]) (simp add: claimRow_claimed[OF r(2)])
  have m: "onStatus (claimRow wall r) \<in> set (work_queue db')"
    unfolding e(2) using r(1) by (auto simp: updateWork_def)
  have "goodRow (onStatus (claimRow wall r))" using inv m by (simp add: qinv_def)
  moreover have "upgrade_queued (onStatus (claimRow wall r)) = upgrade_queued (claimRow wall r)"
    "wordQueued (onStatus (claimRow wall r)) = wordQueued (claimRow wall r)"
    by (simp_all add: claimRow_def trigger_defs terminal_def wordQueued_def)
  ultimately have "heldRow (upgradeItem item) (wordItem item) (onStatus (claimRow wall r))"
    using e(1) by (simp add: heldRow_def upgradeItem_def wordItem_def processing_def claimRow_def)
  moreover have "rowid (onStatus (claimRow wall r)) = itemID item" using e(1) by (simp add: itemID_def)
  ultimately show ?thesis using inv m unfolding holds_def qinv_def by blast
qed

lemma dequeue_holds:
  assumes "qinv db" "dequeueOnce q now wall rnd db = (Inr item, db')"
  shows "holds (itemID item) (upgradeItem item) (wordItem item) db'"
proof (cases "randomized q \<and> 0 < batchSize q")
  case True
  then have c: "claimFirst wall (bufferedDue now (refillBuffer q now rnd db)) (refillBuffer q now rnd db) = (Inr item, db')"
    using assms(2) dequeueOnce_batched by auto
  show ?thesis
    by (rule claimFirst_holds[OF qinv_refill[OF assms(1)] _ c]) (auto simp: bufferedDue_def matched_def eligible_def)
next
  case False
  then have c: "claimFirst wall (if randomized q then orderRandom rnd (matched (eligible now) db) else orderFIFO (matched (eligible now) db)) db
      = (Inr item, db')"
    using assms(2) by (auto simp: dequeueOnce_def)
  show ?thesis
    by (rule claimFirst_holds[OF assms(1) _ c])
       (auto simp: orderRandom_def orderFIFO_def matched_def eligible_def split: if_splits)
qed

text \<open>A claim takes one row at most, the one it returns.\<close>

definition takes :: "QDB \<Rightarrow> (QueueError + WorkItem) \<times> QDB \<Rightarrow> bool" where
  "takes db res \<longleftrightarrow> (\<forall>r' \<in> set (work_queue (snd res)). processing r' \<longrightarrow>
     (\<exists>r \<in> set (work_queue db). rowid r = rowid r' \<and> processing r) \<or> (\<exists>item. fst res = Inr item \<and> itemID item = rowid r'))"

lemma claimFirst_takes:
  assumes "qinv db" "\<And>r. r \<in> set cs \<Longrightarrow> r \<in> set (work_queue db) \<and> retryable r"
  shows "takes db (claimFirst wall cs db)"
proof (cases cs)
  case Nil
  then show ?thesis by (auto simp: takes_def claimFirst_def)
next
  case (Cons r rs)
  have r: "r \<in> set (work_queue db)" using assms(2)[of r] Cons by simp
  show ?thesis
    unfolding takes_def Cons claimFirst_row[OF assms(1) r]
    by (auto simp: updateWork_def scanWorkItem_def itemID_def claimRow_def)
qed

lemma dequeue_takes:
  assumes "qinv db"
  shows "takes db (dequeueOnce q now wall rnd db)"
proof (cases "randomized q \<and> 0 < batchSize q")
  case True
  let ?d = "refillBuffer q now rnd db"
  have t: "takes ?d (dequeueOnce q now wall rnd db)"
    unfolding dequeueOnce_batched[OF conjunct1[OF True] conjunct2[OF True]]
    by (rule claimFirst_takes[OF qinv_refill[OF assms]]) (auto simp: bufferedDue_def matched_def eligible_def)
  have "\<exists>x \<in> set (work_queue db). rowid x = rowid r \<and> processing x" if "r \<in> set (work_queue ?d)" "processing r" for r
    using refill_from[OF that(1)] that(2) by (fastforce simp: processing_def)
  then show ?thesis using t unfolding takes_def by metis
next
  case False
  then show ?thesis
    by (auto simp: dequeueOnce_def orderRandom_def orderFIFO_def matched_def eligible_def intro!: claimFirst_takes[OF assms] split: if_splits)
qed

text \<open>
  C1: with a database that answers, a pass gives back the row it claimed, on every path it can take: no
  row is held after a pass that was not held before it, so a worker strands nothing.
\<close>

theorem pass_gives_back:
  assumes "qinv (wkDB w)" and "answering env"
  shows "\<forall>r' \<in> set (work_queue (wkDB (snd (run_state (RunOnce env) w)))). processing r' \<longrightarrow>
    (\<exists>r \<in> set (work_queue (wkDB w)). rowid r = rowid r' \<and> processing r)"
proof -
  obtain res w' where run: "run_state (RunOnce env) w = (res, w')" by (cases "run_state (RunOnce env) w")
  have t: "takes (wkDB w) (dequeueOnce q now (peWall env) (peRandom env) (wkDB w))" for q now by (rule dequeue_takes[OF assms(1)])
  have "\<exists>r \<in> set (work_queue (wkDB w)). rowid r = rowid r' \<and> processing r"
    if r': "r' \<in> set (work_queue (wkDB w'))" "processing r'" for r'
    using run
  proof (cases rule: RunOnce_claims)
    case none
    then show ?thesis using r' by auto
  next
    case (refused q now e)
    then show ?thesis using t[of q now] r' by (simp add: takes_def)
  next
    case (claimed q now item w1)
    have h: "holds (itemID item) (upgradeItem item) (wordItem item) (wkDB w1)" by (rule dequeue_holds[OF assms(1) claimed(1)])
    have "givenBack (itemID item) (wkDB w')"
      using tripleD[OF claimed_gives[OF assms(2), of item, unfolded gives_def] _ claimed(2)] h by (simp add: onDB_def)
    then have n: "rowid r' \<noteq> itemID item" using r' by (auto simp: givenBack_def)
    have "rewritten (passRow (itemID item)) (wkDB w1) (wkDB w')"
      using own_row.pass_rewrites[OF refl claimed(2)] h by (simp add: holds_def)
    then obtain r1 where "r1 \<in> set (work_queue (wkDB w1))" "passRow (itemID item) r1 r'"
      using r'(1) by (fastforce simp: rewritten_def list_all2_conv_all_nth in_set_conv_nth)
    then show ?thesis using t[of q now] claimed(1) r'(2) n by (auto simp: takes_def passRow_def)
  qed
  then show ?thesis by (simp add: run)
qed

theorem pass_gives_back_witness:
  "filter processing (work_queue (wkDB (snd (run_state (RunOnce exPass) (exWorker exQueued))))) = []"
proof -
  have "answering exPass" by (simp add: answering_def exPass_def)
  moreover have "\<not> processing r" if "r \<in> set (work_queue exQueued)" for r
    using that by (simp add: exQueued_rows freshRow_def defaultRow_def processing_def)
  ultimately show ?thesis
    using pass_gives_back[of "exWorker exQueued" exPass] exHeld_qinv(1) by (auto simp: filter_empty_conv)
qed

end
