(* ===== verification/Disk.thy ===== *)
theory Disk
  imports Pathutil LrcNormalize Outcome "HOL-Library.AList"
begin

text \<open>
  The file system as the lyrics writer sees it: a finite store of entries keyed by their full path,
  with the calls of package \<open>os\<close> the writer makes (\<open>Lstat\<close>, \<open>Stat\<close>, \<open>ReadDir\<close>, \<open>Remove\<close>, \<open>Rename\<close>), and
  the facts on paths the components over it share. Paths compare by their bytes, as on a case-sensitive
  file system; the content of a file is text.
\<close>

section \<open>Entries\<close>

text \<open>
  What a symbolic link leads to: a readable or unreadable regular file, some other entry, nothing, or
  a path that cannot be followed. A regular file has its identity, its permission bits and its content,
  \<open>None\<close> when reading it fails; \<open>Directory e\<close> is empty or not; \<open>Undetermined r\<close> is a name that \<open>Lstat\<close>
  fails on, and which a listing reports as a regular file or not.
\<close>

datatype LinkTarget = LinkFile "gotext option" | LinkOther | LinkDangling | LinkUnknown

datatype Entry =
  Regular nat nat "gotext option" | Directory bool | Symlink LinkTarget | Special | Undetermined bool

type_synonym Disk = "(gotext \<times> Entry) list"

datatype LstatResult = Absent | LstatFailed | Found Entry

definition osLstat :: "Disk \<Rightarrow> gotext \<Rightarrow> LstatResult" where
  "osLstat d p = (case map_of d p of None \<Rightarrow> Absent | Some (Undetermined r) \<Rightarrow> LstatFailed | Some e \<Rightarrow> Found e)"

definition osStat :: "Disk \<Rightarrow> gotext \<Rightarrow> statResult" where
  "osStat d p = (case osLstat d p of Absent \<Rightarrow> StatNotExist | LstatFailed \<Rightarrow> StatError
     | Found (Symlink LinkDangling) \<Rightarrow> StatNotExist | Found (Symlink LinkUnknown) \<Rightarrow> StatError
     | Found _ \<Rightarrow> StatOK)"

text \<open>\<open>os.ReadFile\<close>, which follows links.\<close>

definition osReadFile :: "Disk \<Rightarrow> gotext \<Rightarrow> goerr + gotext" where
  "osReadFile d p = (case osLstat d p of
       Found (Regular i m (Some s)) \<Rightarrow> Inr s | Found (Symlink (LinkFile (Some s))) \<Rightarrow> Inr s
     | _ \<Rightarrow> Inl (Opaque (lit ''read failed'')))"

fun isRegular :: "Entry \<Rightarrow> bool" where
  "isRegular (Regular i m s) \<longleftrightarrow> True"
| "isRegular _ \<longleftrightarrow> False"

fun isDirectory :: "Entry \<Rightarrow> bool" where
  "isDirectory (Directory e) \<longleftrightarrow> True"
| "isDirectory _ \<longleftrightarrow> False"

fun isSymlink :: "Entry \<Rightarrow> bool" where
  "isSymlink (Symlink t) \<longleftrightarrow> True"
| "isSymlink _ \<longleftrightarrow> False"

text \<open>\<open>DirEntry.Type().IsRegular()\<close>.\<close>

fun typeRegular :: "Entry \<Rightarrow> bool" where
  "typeRegular (Undetermined r) \<longleftrightarrow> r"
| "typeRegular e \<longleftrightarrow> isRegular e"

definition regularAt :: "Disk \<Rightarrow> gotext \<Rightarrow> bool" where
  "regularAt d p = (case map_of d p of None \<Rightarrow> False | Some e \<Rightarrow> isRegular e)"

section \<open>Changing entries\<close>

definition diskPut :: "gotext \<Rightarrow> Entry \<Rightarrow> Disk \<Rightarrow> Disk" where
  "diskPut p e d = AList.update p e d"

definition diskDel :: "gotext \<Rightarrow> Disk \<Rightarrow> Disk" where
  "diskDel p d = AList.delete p d"

text \<open>\<open>os.Remove\<close>: \<open>Inr False\<close> when there was nothing to remove; \<open>fault\<close> is an error of the system.\<close>

definition osRemove :: "goerr option \<Rightarrow> gotext \<Rightarrow> Disk \<Rightarrow> (goerr + bool) \<times> Disk" where
  "osRemove fault p d = (case fault of
       Some e \<Rightarrow> (Inl e, d)
     | None \<Rightarrow> (case map_of d p of
           None \<Rightarrow> (Inr False, d)
         | Some (Directory False) \<Rightarrow> (Inl (Opaque (lit ''directory not empty'')), d)
         | Some _ \<Rightarrow> (Inr True, diskDel p d)))"

text \<open>\<open>os.ReadDir\<close>: the names in a directory in their order, with their entries.\<close>

definition osReadDir :: "Disk \<Rightarrow> gotext \<Rightarrow> (gotext \<times> Entry) list" where
  "osReadDir d dir = map (\<lambda>p. (pathBase p, the (map_of d p)))
     (stableSort (\<lambda>p q. textLess (pathBase p) (pathBase q)) (filter (\<lambda>p. pathDir p = pathClean dir) (remdups (map fst d))))"

text \<open>Keys are canonical absolute paths: the directory joined with a proper name.\<close>

definition baseName :: "gotext \<Rightarrow> bool" where
  "baseName n \<longleftrightarrow> n \<noteq> [] \<and> slash \<notin> set n \<and> n \<noteq> [46] \<and> n \<noteq> dotdot"

definition properPath :: "gotext \<Rightarrow> bool" where
  "properPath p \<longleftrightarrow> baseName (pathBase p) \<and> pathJoin (pathDir p) (pathBase p) = p"

definition diskWF :: "Disk \<Rightarrow> bool" where
  "diskWF d \<longleftrightarrow> (\<forall>p \<in> set (map fst d). properPath p)"

section \<open>Lemmas on the store\<close>

named_theorems disk_simps "the content of the store after a change"

lemma map_of_diskPut [disk_simps]: "map_of (diskPut p e d) = (map_of d)(p \<mapsto> e)"
  by (simp add: diskPut_def update_conv')

lemma map_of_diskDel [disk_simps]: "map_of (diskDel p d) = (map_of d)(p := None)"
  by (simp add: diskDel_def delete_conv')

lemma keys_diskPut: "set (map fst (diskPut p e d)) = insert p (set (map fst d))"
  by (simp add: diskPut_def dom_update)

lemma keys_diskDel: "set (map fst (diskDel p d)) = set (map fst d) - {p}"
  by (simp add: diskDel_def image_set [symmetric] delete_keys)

lemma diskWF_key: "diskWF d \<Longrightarrow> map_of d p = Some e \<Longrightarrow> properPath p"
  unfolding diskWF_def by (force dest: map_of_SomeD)

lemma regularAt_iff: "regularAt d p \<longleftrightarrow> (\<exists>i m s. map_of d p = Some (Regular i m s))"
  by (auto simp: regularAt_def split: option.splits elim: isRegular.elims)

lemma diskWF_put: "diskWF d \<Longrightarrow> properPath p \<Longrightarrow> diskWF (diskPut p e d)"
  unfolding diskWF_def keys_diskPut by blast

lemma diskWF_del: "diskWF d \<Longrightarrow> diskWF (diskDel p d)"
  unfolding diskWF_def keys_diskDel by blast

lemma osRemove_elsewhere: "q \<noteq> p \<Longrightarrow> map_of (snd (osRemove fault p d)) q = map_of d q"
  by (auto simp: osRemove_def disk_simps split: option.splits Entry.splits bool.splits)

lemma osRemove_gone: "osRemove fault p d = (Inr b, d') \<Longrightarrow> map_of d' p = None"
  by (auto simp: osRemove_def disk_simps split: option.splits Entry.splits bool.splits)

lemma osRemove_failed: "osRemove fault p d = (Inl e, d') \<Longrightarrow> d' = d"
  by (auto simp: osRemove_def split: option.splits Entry.splits bool.splits)

lemma osRemove_wf: "diskWF d \<Longrightarrow> diskWF (snd (osRemove fault p d))"
  by (auto simp: osRemove_def diskWF_del split: option.splits Entry.splits bool.splits)

lemma stableSort_set: "set (stableSort lt xs) = set xs"
  using mset_stableSort by (rule mset_eq_setD)

lemma osReadDir_iff:
  "(n, e) \<in> set (osReadDir d dir) \<longleftrightarrow> (\<exists>p. map_of d p = Some e \<and> pathBase p = n \<and> pathDir p = pathClean dir)"
proof -
  have "(n, e) \<in> set (osReadDir d dir) \<longleftrightarrow> (\<exists>p \<in> fst ` set d. pathDir p = pathClean dir \<and> n = pathBase p \<and> e = the (map_of d p))"
    unfolding osReadDir_def set_map stableSort_set by auto
  moreover have "p \<in> fst ` set d \<longleftrightarrow> (\<exists>e. map_of d p = Some e)" for p
    by (metis domIff dom_map_of_conv_image_fst not_Some_eq)
  ultimately show ?thesis by force
qed

section \<open>Lemmas on paths\<close>

lemma splitSlash_nonempty [simp]: "splitSlash p \<noteq> []"
  by (induction p) (auto split: list.splits)

lemma splitSlash_noslash: "47 \<notin> set n \<Longrightarrow> splitSlash n = [n]"
  by (induction n) auto

lemma splitSlash_append: "splitSlash (a @ 47 # b) = splitSlash a @ splitSlash b"
  by (induction a) (auto split: list.splits)

lemma splitSlash_parts: "p \<in> set (splitSlash s) \<Longrightarrow> 47 \<notin> set p"
  by (induction s arbitrary: p) (auto split: if_splits list.splits)

lemma joinSlash_snoc: "ps \<noteq> [] \<Longrightarrow> joinSlash (ps @ [n]) = joinSlash ps @ 47 # n"
  by (induction ps rule: joinSlash.induct) auto

lemma splitSlash_joinSlash: "ps \<noteq> [] \<Longrightarrow> \<forall>p \<in> set ps. 47 \<notin> set p \<Longrightarrow> splitSlash (joinSlash ps) = ps"
  by (induction ps rule: joinSlash.induct) (auto simp: splitSlash_noslash splitSlash_append)

lemma cleanParts_append: "cleanParts r st (ps @ qs) = cleanParts r (rev (cleanParts r st ps)) qs"
  by (induction r st ps rule: cleanParts.induct) auto

lemma cleanParts_base: "baseName n \<Longrightarrow> cleanParts r st (ps @ [n]) = cleanParts r st ps @ [n]"
  by (simp add: cleanParts_append baseName_def dotdot_def)

lemma lastElem_slash: "47 \<notin> set n \<Longrightarrow> lastElem (a @ 47 # n) = n"
  by (simp add: lastElem_def) (subst takeWhile_append2, auto)

text \<open>The elements a cleaned path keeps: no empty one, no dot, and \<open>..\<close> only in front of a relative one.\<close>

definition cleanElems :: "bool \<Rightarrow> gotext list \<Rightarrow> bool" where
  "cleanElems r xs \<longleftrightarrow> (\<forall>x \<in> set xs. x \<noteq> [] \<and> x \<noteq> [46]) \<and>
     dotdot \<notin> set (if r then xs else dropWhile (\<lambda>x. x = dotdot) xs)"

lemma cleanElems_snoc: "cleanElems r (xs @ [x]) \<longleftrightarrow> cleanElems r xs \<and> x \<noteq> [] \<and> x \<noteq> [46] \<and> (x = dotdot \<longrightarrow> \<not> r \<and> (\<forall>y \<in> set xs. y = dotdot))"
proof (cases "\<forall>y \<in> set xs. y = dotdot")
  case True
  then have e: "dropWhile (\<lambda>x. x = dotdot) xs = []" by (simp add: dropWhile_Nil_iff)
  with True show ?thesis by (cases "x = dotdot") (auto simp: cleanElems_def dropWhile_append e)
next
  case False
  then show ?thesis by (auto simp: cleanElems_def dropWhile_append)
qed

lemma cleanElems_butlast: "cleanElems r (rev (x # st)) \<Longrightarrow> cleanElems r (rev st)"
  by (simp add: cleanElems_snoc)

lemma cleanElems_dots: "cleanElems r (rev (dotdot # st)) \<Longrightarrow> \<not> r \<and> (\<forall>y \<in> set (dotdot # st). y = dotdot)"
  by (simp add: cleanElems_snoc)

lemma cleanElems_push:
  assumes "cleanElems r (rev st)" "p \<noteq> []" "p \<noteq> [46]" "p = dotdot \<Longrightarrow> \<not> r \<and> (st = [] \<or> hd st = dotdot)"
  shows "cleanElems r (rev (p # st))"
proof (cases st)
  case Nil
  with assms show ?thesis by (simp add: cleanElems_def dotdot_def)
next
  case (Cons a st')
  have "p = dotdot \<Longrightarrow> \<not> r \<and> (\<forall>y \<in> set st. y = dotdot)"
    using cleanElems_dots [of r st'] assms(1, 4) Cons by simp
  with assms(1-3) show ?thesis by (simp add: cleanElems_snoc)
qed

lemma cleanParts_clean: "cleanElems r (rev st) \<Longrightarrow> cleanElems r (cleanParts r st ps)"
proof (induction ps arbitrary: st)
  case (Cons p ps)
  have t: "cleanElems r (rev (tl st))"
    using Cons.prems by (cases st) (auto simp: cleanElems_snoc)
  have p: "p \<noteq> [] \<Longrightarrow> p \<noteq> [46] \<Longrightarrow> (p = dotdot \<Longrightarrow> \<not> r \<and> (st = [] \<or> hd st = dotdot)) \<Longrightarrow> cleanElems r (rev (p # st))"
    using Cons.prems by (rule cleanElems_push)
  show ?case
    using Cons.IH [OF Cons.prems] Cons.IH [OF t] Cons.IH [OF p] by (auto simp: dotdot_def)
qed simp

lemma cleanParts_fixed: "cleanElems r (rev st @ xs) \<Longrightarrow> cleanParts r st xs = rev st @ xs"
proof (induction xs arbitrary: st)
  case (Cons x xs)
  have c: "cleanElems r (rev (x # st) @ xs)" using Cons.prems by simp
  have x: "x \<noteq> []" "x \<noteq> [46]" using Cons.prems by (auto simp: cleanElems_def)
  have d: "x = dotdot \<Longrightarrow> \<not> r \<and> (\<forall>y \<in> set st. y = dotdot)"
    using Cons.prems by (auto simp: cleanElems_def dropWhile_append split: if_splits)
  have "x = [46, 46] \<Longrightarrow> \<not> r \<and> (st = [] \<or> hd st = [46, 46])"
    using d by (cases st) (auto simp: dotdot_def)
  then have "cleanParts r st (x # xs) = cleanParts r (x # st) xs" using x by auto
  with Cons.IH [OF c] show ?case by simp
qed simp

text \<open>A path is cleaned through whether it is rooted and its elements; cleaning keeps both.\<close>

definition rooted :: "gotext \<Rightarrow> bool" where
  "rooted d \<longleftrightarrow> d \<noteq> [] \<and> hd d = 47"

definition elemsOf :: "gotext \<Rightarrow> gotext list" where
  "elemsOf d = cleanParts (rooted d) [] (splitSlash d)"

definition rootPrefix :: "gotext \<Rightarrow> gotext" where
  "rootPrefix d = (if rooted d then [47] else [])"

lemma pathClean_elems: "pathClean d = (if \<not> rooted d \<and> elemsOf d = [] then [46] else rootPrefix d @ joinSlash (elemsOf d))"
proof -
  have "p \<in> set (elemsOf d) \<Longrightarrow> p \<noteq> []" for p
    using cleanParts_clean [of "rooted d" "[]" "splitSlash d"] by (auto simp: elemsOf_def cleanElems_def)
  then have "joinSlash (elemsOf d) = [] \<longleftrightarrow> elemsOf d = []"
    by (cases "elemsOf d" rule: joinSlash.cases) auto
  then show ?thesis
    by (auto simp: pathClean_def Let_def rooted_def rootPrefix_def elemsOf_def)
qed

lemma tl_in: "x \<in> set (tl xs) \<Longrightarrow> x \<in> set xs"
  by (cases xs) auto

lemma elemsOf_clean: "cleanElems (rooted d) (elemsOf d)" and elemsOf_noslash: "p \<in> set (elemsOf d) \<Longrightarrow> 47 \<notin> set p"
proof -
  show "cleanElems (rooted d) (elemsOf d)"
    unfolding elemsOf_def by (rule cleanParts_clean) (simp add: cleanElems_def)
  have "set (cleanParts r st ps) \<subseteq> set st \<union> set ps" for r st ps
    by (induction r st ps rule: cleanParts.induct) (auto 4 4 dest: tl_in)
  from this [of "rooted d" "[]" "splitSlash d"] show "p \<in> set (elemsOf d) \<Longrightarrow> 47 \<notin> set p"
    using splitSlash_parts [of p d] by (auto simp: elemsOf_def)
qed

lemma joinSlash_hd: "ps \<noteq> [] \<Longrightarrow> hd ps \<noteq> [] \<Longrightarrow> joinSlash ps \<noteq> [] \<and> hd (joinSlash ps) = hd (hd ps)"
  by (cases ps rule: joinSlash.cases) auto

lemma hd_noslash: "p \<noteq> [] \<Longrightarrow> 47 \<notin> set p \<Longrightarrow> hd p \<noteq> (47 :: nat)"
  by (cases p) auto

lemma elems_rebuilt:
  assumes "\<forall>p \<in> set ps. 47 \<notin> set p" "cleanElems r ps" "r \<or> ps \<noteq> []"
  shows "rooted ((if r then [47] else []) @ joinSlash ps @ sep) = r"
    and "sep \<in> {[], [47]} \<Longrightarrow> elemsOf ((if r then [47] else []) @ joinSlash ps @ sep) = ps"
proof -
  let ?s = "(if r then [47] else []) @ joinSlash ps @ sep"
  show r: "rooted ?s = r"
    using joinSlash_hd [of ps] assms hd_noslash [of "hd ps"] by (cases r) (auto simp: rooted_def cleanElems_def)
  assume "sep \<in> {[], [47]}"
  then have "\<exists>e e'. set e \<subseteq> {[]} \<and> set e' \<subseteq> {[]} \<and> splitSlash ?s = e @ ps @ e'"
  proof (cases "ps = []")
    case True
    then have "set (splitSlash ?s) \<subseteq> {[]}" using \<open>sep \<in> _\<close> assms(3) by (cases r) auto
    then show ?thesis by (intro exI [of _ "splitSlash ?s"] exI [of _ "[]"]) (simp add: True)
  next
    case False
    have j: "splitSlash (joinSlash ps) = ps" using False assms(1) by (rule splitSlash_joinSlash)
    have "splitSlash (joinSlash ps @ [47]) = ps @ [[]]" using splitSlash_append [of "joinSlash ps" "[]"] j by simp
    with j \<open>sep \<in> _\<close> show ?thesis
      by (cases r) (auto intro: exI [of _ "[]"] exI [of _ "[[]]"])
  qed
  then obtain e e' where e: "set e \<subseteq> {[]}" "set e' \<subseteq> {[]}" "splitSlash ?s = e @ ps @ e'" by blast
  have skip: "set e \<subseteq> {[]} \<Longrightarrow> cleanParts r st (e @ xs) = cleanParts r st xs" for e st xs
    by (induction e) auto
  have skip': "set e' \<subseteq> {[]} \<Longrightarrow> cleanParts r st e' = rev st" for st
    by (induction e') auto
  show "elemsOf ?s = ps"
    unfolding elemsOf_def r e(3) skip [OF e(1)] unfolding cleanParts_append skip' [OF e(2)]
    using cleanParts_fixed [of r "[]" ps] assms(2) by simp
qed

lemma pathClean_keeps: "rooted (pathClean d) = rooted d" "elemsOf (pathClean d) = elemsOf d"
proof -
  have "rooted (pathClean d) = rooted d \<and> elemsOf (pathClean d) = elemsOf d"
  proof (cases "\<not> rooted d \<and> elemsOf d = []")
    case True
    then show ?thesis by (simp add: pathClean_elems) (simp add: rooted_def elemsOf_def)
  next
    case False
    then show ?thesis
      using elems_rebuilt [of "elemsOf d" "rooted d" "[]"] elemsOf_noslash [of _ d] elemsOf_clean [of d]
      by (auto simp: pathClean_elems rootPrefix_def)
  qed
  then show "rooted (pathClean d) = rooted d" "elemsOf (pathClean d) = elemsOf d" by auto
qed

lemma pathClean_idem [simp]: "pathClean (pathClean d) = pathClean d"
  unfolding pathClean_elems [of "pathClean d"] rootPrefix_def pathClean_keeps by (simp add: pathClean_elems rootPrefix_def)

lemma pathDir_clean [simp]: "pathClean (pathDir p) = pathDir p"
  by (simp add: pathDir_def)

text \<open>Joining a directory and a proper name.\<close>

definition dirPrefix :: "gotext \<Rightarrow> gotext" where
  "dirPrefix d = rootPrefix d @ joinSlash (elemsOf d) @ (if elemsOf d = [] then [] else [47])"

lemma pathJoin_base:
  assumes "baseName n"
  shows "pathJoin d n = dirPrefix d @ n"
proof -
  have n: "n \<noteq> []" "47 \<notin> set n" "cleanParts r st [n] = rev st @ [n]" for r st
    using assms by (auto simp: baseName_def slash_def dotdot_def)
  show ?thesis
  proof (cases "d = []")
    case True
    have "rooted n = False" using n by (cases n) (auto simp: rooted_def)
    with n True show ?thesis
      by (simp add: pathJoin_def pathClean_elems dirPrefix_def rootPrefix_def elemsOf_def splitSlash_noslash) (simp add: rooted_def)
  next
    case False
    then have r: "rooted (d @ 47 # n) = rooted d" by (simp add: rooted_def)
    have "elemsOf (d @ 47 # n) = elemsOf d @ [n]"
      using n cleanParts_append unfolding elemsOf_def r splitSlash_append splitSlash_noslash [OF n(2)] by simp
    with False n r show ?thesis
      by (cases "elemsOf d = []") (simp_all add: pathJoin_def slash_def pathClean_elems dirPrefix_def rootPrefix_def joinSlash_snoc)
  qed
qed

lemma pathBase_join: "baseName n \<Longrightarrow> pathBase (pathJoin d n) = n"
  and lastElem_join: "baseName n \<Longrightarrow> lastElem (pathJoin d n) = n"
proof -
  assume n: "baseName n"
  then have n': "n \<noteq> []" "47 \<notin> set n" by (auto simp: baseName_def slash_def)
  have tw: "takeWhile (\<lambda>c. c \<noteq> 47) (rev n) = rev n"
    using n' by (auto simp: takeWhile_eq_all_conv)
  have "dirPrefix d = [] \<or> (\<exists>a. dirPrefix d = a @ [47])"
    by (auto simp: dirPrefix_def rootPrefix_def)
  then show l: "lastElem (pathJoin d n) = n"
  proof
    assume "dirPrefix d = []"
    then show ?thesis by (simp only: pathJoin_base [OF n] lastElem_def append_Nil tw rev_rev_ident)
  next
    assume "\<exists>a. dirPrefix d = a @ [47]"
    then show ?thesis using lastElem_slash [OF n'(2)] by (auto simp: pathJoin_base [OF n])
  qed
  have "dropWhile (\<lambda>c. c = 47) (rev (pathJoin d n)) = rev (pathJoin d n)"
    unfolding pathJoin_base [OF n] using n' by (cases n rule: rev_cases) auto
  with l n' show "pathBase (pathJoin d n) = n"
    unfolding pathBase_def by (auto simp: Let_def pathJoin_base [OF n])
qed

lemma pathDir_join: "baseName n \<Longrightarrow> pathDir (pathJoin d n) = pathClean d"
proof -
  assume n: "baseName n"
  then have n': "\<forall>c \<in> set (rev n). c \<noteq> 47" by (auto simp: baseName_def slash_def)
  have "rev (dropWhile (\<lambda>c. c \<noteq> 47) (rev (dirPrefix d @ n))) = dirPrefix d"
    using n' by (auto simp: dirPrefix_def rootPrefix_def dropWhile_append)
  moreover have "rooted (dirPrefix d) = rooted d \<and> elemsOf (dirPrefix d) = elemsOf d"
  proof (cases "\<not> rooted d \<and> elemsOf d = []")
    case True
    then show ?thesis by (simp add: dirPrefix_def rootPrefix_def) (simp add: rooted_def elemsOf_def)
  next
    case False
    then show ?thesis
      using elems_rebuilt [of "elemsOf d" "rooted d" "if elemsOf d = [] then [] else [47]"] elemsOf_noslash [of _ d] elemsOf_clean [of d]
      by (auto simp: dirPrefix_def rootPrefix_def)
  qed
  ultimately show ?thesis
    unfolding pathDir_def pathJoin_base [OF n] by (simp add: pathClean_elems rootPrefix_def)
qed

lemma dirPrefix_clean [simp]: "dirPrefix (pathClean d) = dirPrefix d"
  by (simp add: dirPrefix_def rootPrefix_def pathClean_keeps)

lemma properPath_join: "baseName n \<Longrightarrow> properPath (pathJoin d n)"
  by (simp add: properPath_def pathBase_join pathDir_join) (simp add: pathJoin_base)

end
