(* ===== verification/Sidecar.thy ===== *)
theory Sidecar
  imports Disk
begin

text \<open>
  Package \<open>internal/sidecar\<close>: the extensions of the lyric files, their kinds, and the lookup of a
  sidecar under any case of its extension, from one listing of its directory (\<open>Variants\<close>) or by trying
  the permutations of the extension (\<open>ResolveCaseVariant\<close>). The lazily built index of a listing is the
  filter it stands for.
\<close>

section \<open>Kinds and extensions\<close>

datatype Kind = KindUnknown | KindLineSynced | KindUnsynced | KindWordSynced

definition ExtLineSynced :: gotext where "ExtLineSynced = lit ''.lrc''"
definition ExtUnsynced :: gotext where "ExtUnsynced = lit ''.txt''"
definition ExtWordSynced :: gotext where "ExtWordSynced = lit ''.elrc''"

definition sidecarTable :: "(Kind \<times> gotext \<times> bool) list" where
  "sidecarTable = [(KindLineSynced, ExtLineSynced, True), (KindUnsynced, ExtUnsynced, True), (KindWordSynced, ExtWordSynced, True)]"

definition IsSidecar :: "gotext \<Rightarrow> bool" where
  "IsSidecar name = (let ext = toLower (pathExt name) in \<exists>(k, e, act) \<in> set sidecarTable. act \<and> e = ext)"

definition Extensions :: "gotext list" where
  "Extensions = map (\<lambda>(k, e, act). e) (filter (\<lambda>(k, e, act). act) sidecarTable)"

definition KindOf :: "gotext \<Rightarrow> Kind" where
  "KindOf name = (case List.find (\<lambda>(k, e, act). e = toLower (pathExt name)) sidecarTable of
     None \<Rightarrow> KindUnknown | Some (k, e, act) \<Rightarrow> k)"

definition Ext :: "Kind \<Rightarrow> gotext" where
  "Ext k = (case List.find (\<lambda>(k', e, act). k' = k) sidecarTable of None \<Rightarrow> [] | Some (k', e, act) \<Rightarrow> e)"

definition Active :: "Kind \<Rightarrow> bool" where
  "Active k = (case List.find (\<lambda>(k', e, act). k' = k) sidecarTable of None \<Rightarrow> False | Some (k', e, act) \<Rightarrow> act)"

definition StemOf :: "gotext \<Rightarrow> gotext" where
  "StemOf p = trimSuffix p (pathExt p)"

section \<open>Listings\<close>

record Listing =
  lsDir :: gotext
  lsEntries :: "(gotext \<times> Entry) list"

definition asciiLower :: "rune \<Rightarrow> rune" where
  "asciiLower c = (if 65 \<le> c \<and> c \<le> 90 then c + 32 else c)"

definition asciiUpper :: "rune \<Rightarrow> rune" where
  "asciiUpper c = (if 97 \<le> c \<and> c \<le> 122 then c - 32 else c)"

definition variantKey :: "gotext \<Rightarrow> gotext" where
  "variantKey name = StemOf name @ 0 # map asciiLower (pathExt name)"

definition lookupVariants :: "Listing \<Rightarrow> gotext \<Rightarrow> (gotext \<times> Entry) list" where
  "lookupVariants l base = filter (\<lambda>(n, e). variantKey n = variantKey base) (lsEntries l)"

definition ListDir :: "Disk \<Rightarrow> gotext \<Rightarrow> Listing" where
  "ListDir d dir = \<lparr>lsDir = dir, lsEntries = osReadDir d dir\<rparr>"

text \<open>\<open>os.SameFile\<close>: two names of one regular file.\<close>

definition sameFile :: "Disk \<Rightarrow> gotext \<Rightarrow> gotext \<Rightarrow> bool" where
  "sameFile d p q = (case (osLstat d p, osLstat d q) of
     (Found (Regular i m s), Found (Regular j m' s')) \<Rightarrow> i = j | _ \<Rightarrow> False)"

text \<open>There is an entry that is not a directory.\<close>

definition occupied :: "Disk \<Rightarrow> gotext \<Rightarrow> bool" where
  "occupied d p = (case osLstat d p of Found e \<Rightarrow> \<not> isDirectory e | _ \<Rightarrow> False)"

definition Variants :: "Disk \<Rightarrow> Listing \<Rightarrow> gotext \<Rightarrow> gotext list" where
  "Variants d l candidate =
     (let exact = occupied d candidate; out = (if exact then [candidate] else []);
          dir = pathDir candidate; base = pathBase candidate
      in if pathClean dir \<noteq> pathClean (lsDir l) then out
         else let bucket = lookupVariants l base; unlisted = exact \<and> base \<notin> fst ` set bucket
              in out @ map (\<lambda>(n, e). pathJoin dir n)
                   (filter (\<lambda>(n, e). n \<noteq> base \<and> typeRegular e \<and> \<not> (unlisted \<and> sameFile d candidate (pathJoin dir n))) bucket))"

definition SymlinkVariants :: "Listing \<Rightarrow> gotext \<Rightarrow> gotext list" where
  "SymlinkVariants l candidate =
     (let dir = pathDir candidate; base = pathBase candidate
      in if pathClean dir \<noteq> pathClean (lsDir l) then []
         else map (\<lambda>(n, e). pathJoin dir n) (filter (\<lambda>(n, e). isSymlink e) (lookupVariants l base)))"

definition asciiEqualFold :: "gotext \<Rightarrow> gotext \<Rightarrow> bool" where
  "asciiEqualFold a b \<longleftrightarrow> map asciiLower a = map asciiLower b"

section \<open>Permutations of an extension\<close>

definition asciiLetter :: "rune \<Rightarrow> bool" where
  "asciiLetter c \<longleftrightarrow> 97 \<le> c \<and> c \<le> 122 \<or> 65 \<le> c \<and> c \<le> 90"

text \<open>The bits of the mask go to the letters in their order.\<close>

fun caseMasked :: "nat \<Rightarrow> gotext \<Rightarrow> gotext" where
  "caseMasked bits [] = []"
| "caseMasked bits (c # cs) =
     (if asciiLetter c then (if odd bits then asciiUpper c else asciiLower c) # caseMasked (bits div 2) cs
      else c # caseMasked bits cs)"

definition CaseVariants :: "gotext \<Rightarrow> gotext list" where
  "CaseVariants ext = map (\<lambda>bits. caseMasked bits ext) [0 ..< 2 ^ length (filter asciiLetter ext)]"

definition ResolveCaseVariant :: "Disk \<Rightarrow> gotext \<Rightarrow> (gotext \<times> Entry) option" where
  "ResolveCaseVariant d path =
     (let ext = pathExt path; stem = trimSuffix path ext;
          matches = filter (\<lambda>p. case osLstat d p of Found e \<Rightarrow> isRegular e | _ \<Rightarrow> False)
                      (map (\<lambda>v. stem @ v) (filter (\<lambda>v. v \<noteq> ext) (CaseVariants ext)))
      in case stableSort textLess matches of [] \<Rightarrow> None | p # _ \<Rightarrow> Some (p, the (map_of d p)))"

section \<open>Lemmas: stems and extensions\<close>

lemma pathExt_split: "pathExt p = [] \<and> 46 \<notin> set (lastElem p) \<or> (\<exists>x. pathExt p = 46 # x \<and> 46 \<notin> set x \<and> 47 \<notin> set x)"
proof (cases "46 \<in> set (lastElem p)")
  case True
  have "47 \<notin> set (lastElem p)"
    unfolding lastElem_def by (auto dest: set_takeWhileD)
  then have "46 \<notin> set (takeWhile (\<lambda>c. c \<noteq> 46) (rev (lastElem p)))" "47 \<notin> set (takeWhile (\<lambda>c. c \<noteq> 46) (rev (lastElem p)))"
    by (auto dest: set_takeWhileD)
  with True show ?thesis by (auto simp: pathExt_def)
qed (simp add: pathExt_def)

lemma lastElem_suffix: "\<exists>a. p = a @ lastElem p \<and> (a = [] \<or> last a = 47)"
proof -
  have "rev p = takeWhile (\<lambda>c. c \<noteq> 47) (rev p) @ dropWhile (\<lambda>c. c \<noteq> 47) (rev p)" by simp
  then have "p = rev (dropWhile (\<lambda>c. c \<noteq> 47) (rev p)) @ lastElem p"
    unfolding lastElem_def by (metis rev_append rev_rev_ident)
  moreover have "rev (dropWhile (\<lambda>c. c \<noteq> 47) (rev p)) = [] \<or> last (rev (dropWhile (\<lambda>c. c \<noteq> 47) (rev p))) = 47"
    using hd_dropWhile [of "\<lambda>c. c \<noteq> 47" "rev p"] by (auto simp: last_rev)
  ultimately show ?thesis by blast
qed

lemma lastElem_append: "47 \<notin> set x \<Longrightarrow> lastElem (a @ x) = lastElem a @ x"
  unfolding lastElem_def by (auto simp: takeWhile_append)

lemma lastElem_noslash: "47 \<notin> set (lastElem p)"
  unfolding lastElem_def by (auto dest: set_takeWhileD)

lemma stem_ext: "p = StemOf p @ pathExt p"
proof (cases "46 \<in> set (lastElem p)")
  case True
  obtain a where a: "p = a @ lastElem p" using lastElem_suffix by blast
  let ?r = "rev (lastElem p)" let ?t = "takeWhile (\<lambda>c. c \<noteq> 46) ?r"
  have "dropWhile (\<lambda>c. c \<noteq> 46) ?r \<noteq> []" using True by (auto simp: dropWhile_Nil_iff)
  then obtain b where "dropWhile (\<lambda>c. c \<noteq> 46) ?r = 46 # b"
    using hd_dropWhile [of "\<lambda>c. c \<noteq> 46" ?r] by (metis list.collapse)
  then have "?r = ?t @ 46 # b" by (metis takeWhile_dropWhile_id)
  then have "lastElem p = rev b @ 46 # rev ?t" by (metis append.assoc append_Cons append_Nil rev.simps(2) rev_append rev_rev_ident)
  with a True have "p = (a @ rev b) @ pathExt p" by (simp add: pathExt_def)
  then show ?thesis by (metis StemOf_def append_eq_conv_conj diff_add_inverse2 drop_append length_append le_add2 trimSuffix_def)
qed (simp add: StemOf_def pathExt_def trimSuffix_def)

lemma ext_of_dot: "46 \<notin> set x \<Longrightarrow> 47 \<notin> set x \<Longrightarrow> pathExt (s @ 46 # x) = 46 # x"
  by (subst pathExt_def) (simp add: lastElem_append [of "46 # x" s] takeWhile_append)

lemma stem_of_dot: "46 \<notin> set x \<Longrightarrow> 47 \<notin> set x \<Longrightarrow> StemOf (s @ 46 # x) = s"
  using stem_ext [of "s @ 46 # x"] ext_of_dot [of x s] by simp

lemma ext_noslash: "47 \<notin> set (pathExt p)"
  using pathExt_split [of p] by auto

lemma ext_prefix: "47 \<notin> set n \<Longrightarrow> (a = [] \<or> last a = 47) \<Longrightarrow> lastElem (a @ n) = n"
proof -
  assume n: "47 \<notin> set n" and "a = [] \<or> last a = 47"
  then have "lastElem a = []" by (cases a rule: rev_cases) (auto simp: lastElem_def)
  with n show ?thesis by (simp add: lastElem_append)
qed

lemma dirPrefix_last: "dirPrefix d = [] \<or> last (dirPrefix d) = 47"
  by (auto simp: dirPrefix_def rootPrefix_def)

lemma baseName_lastElem: "baseName n \<Longrightarrow> lastElem n = n"
  using ext_prefix [of n "[]"] by (auto simp: baseName_def slash_def)

lemma ext_join: "baseName n \<Longrightarrow> pathExt (pathJoin d n) = pathExt n"
  by (simp add: pathExt_def lastElem_join baseName_lastElem)

lemma stem_join: "baseName n \<Longrightarrow> StemOf (pathJoin d n) = dirPrefix d @ StemOf n"
  using stem_ext [of "pathJoin d n"] stem_ext [of n] ext_join [of n d] pathJoin_base [of n d]
  by (metis append.assoc append_same_eq)

lemma proper_split:
  assumes "properPath p"
  shows "p = dirPrefix (pathDir p) @ pathBase p" "pathExt p = pathExt (pathBase p)"
    "StemOf p = dirPrefix (pathDir p) @ StemOf (pathBase p)"
proof -
  have n: "baseName (pathBase p)" and j: "pathJoin (pathDir p) (pathBase p) = p" using assms by (auto simp: properPath_def)
  from j show "p = dirPrefix (pathDir p) @ pathBase p" unfolding pathJoin_base [OF n] by simp
  from ext_join [OF n, of "pathDir p"] j show "pathExt p = pathExt (pathBase p)" by simp
  from stem_join [OF n, of "pathDir p"] j show "StemOf p = dirPrefix (pathDir p) @ StemOf (pathBase p)" by simp
qed

lemma last_dot_unique:
  assumes "46 \<notin> set x" "46 \<notin> set y" "u @ (46 :: rune) # x = v @ 46 # y"
  shows "u = v \<and> x = y"
proof -
  have tail: "takeWhile (\<lambda>c. c \<noteq> 46) (rev (w @ 46 # z)) = rev z" if "46 \<notin> set z" for w z :: gotext
    using that by simp (subst takeWhile_append2, auto)
  have "x = y" using tail [OF assms(1), of u] tail [OF assms(2), of v] assms(3) by simp
  with assms(3) show ?thesis by simp
qed

text \<open>The key of a file name tells stems apart and folds the case of extensions, nothing else.\<close>

lemma variantKey_iff:
  assumes "47 \<notin> set a" "47 \<notin> set b"
  shows "variantKey a = variantKey b \<longleftrightarrow> StemOf a = StemOf b \<and> asciiEqualFold (pathExt a) (pathExt b)"
proof
  assume eq: "variantKey a = variantKey b"
  have ext: "pathExt p = [] \<and> 46 \<notin> set p \<and> StemOf p = p \<or> (\<exists>x. pathExt p = 46 # x \<and> 46 \<notin> set x)" if "47 \<notin> set p" for p
  proof -
    have "lastElem p = p" using ext_prefix [of p "[]"] that by simp
    with pathExt_split [of p] stem_ext [of p] show ?thesis by auto
  qed
  have low: "46 \<notin> set x \<Longrightarrow> 46 \<notin> set (map asciiLower x)" "asciiLower 46 = 46" for x
    by (auto simp: asciiLower_def)
  from ext [OF assms(1)] ext [OF assms(2)] show "StemOf a = StemOf b \<and> asciiEqualFold (pathExt a) (pathExt b)"
  proof (elim disjE exE conjE)
    fix x y assume x: "pathExt a = 46 # x" "46 \<notin> set x" and y: "pathExt b = 46 # y" "46 \<notin> set y"
    with eq have "(StemOf a @ [0]) @ 46 # map asciiLower x = (StemOf b @ [0]) @ 46 # map asciiLower y"
      by (simp add: variantKey_def low)
    from last_dot_unique [OF low(1) low(1) this] x y show ?thesis by (simp add: asciiEqualFold_def)
  next
    fix x assume "pathExt a = 46 # x" "pathExt b = []" "46 \<notin> set b" "StemOf b = b"
    with eq have "46 \<in> set (b @ [0 :: rune])" by (metis in_set_conv_decomp list.simps(9) low(2) variantKey_def
        append.assoc append_Cons append_Nil list.simps(8))
    with \<open>46 \<notin> set b\<close> show ?thesis by simp
  next
    fix x assume "pathExt b = 46 # x" "pathExt a = []" "46 \<notin> set a" "StemOf a = a"
    with eq have "46 \<in> set (a @ [0 :: rune])" by (metis in_set_conv_decomp list.simps(9) low(2) variantKey_def
        append.assoc append_Cons append_Nil list.simps(8))
    with \<open>46 \<notin> set a\<close> show ?thesis by simp
  qed (use eq in \<open>simp add: variantKey_def asciiEqualFold_def\<close>)
qed (simp add: variantKey_def asciiEqualFold_def)

lemma foldExt_kind: "asciiEqualFold (pathExt a) (pathExt b) \<Longrightarrow> KindOf a = KindOf b"
proof -
  have "lowerRune (asciiLower c) = lowerRune c" for c by (simp add: lowerRune_def asciiLower_def)
  then have "toLower e = toLower (map asciiLower e)" for e by (simp add: toLower_def)
  then show "asciiEqualFold (pathExt a) (pathExt b) \<Longrightarrow> KindOf a = KindOf b"
    unfolding KindOf_def asciiEqualFold_def by metis
qed

section \<open>Lemmas: what a lookup finds\<close>

text \<open>Two paths are one sidecar under two cases of its extension.\<close>

definition sameSidecar :: "gotext \<Rightarrow> gotext \<Rightarrow> bool" where
  "sameSidecar p q \<longleftrightarrow> pathDir p = pathDir q \<and> StemOf p = StemOf q \<and> asciiEqualFold (pathExt p) (pathExt q)"

lemma sameSidecar_refl [simp]: "sameSidecar p p"
  by (simp add: sameSidecar_def asciiEqualFold_def)

lemma sameSidecar_sym: "sameSidecar p q \<Longrightarrow> sameSidecar q p"
  by (simp add: sameSidecar_def asciiEqualFold_def)

lemma sameSidecar_trans: "sameSidecar p q \<Longrightarrow> sameSidecar q r \<Longrightarrow> sameSidecar p r"
  by (simp add: sameSidecar_def asciiEqualFold_def)

lemma sameSidecar_kind: "sameSidecar p q \<Longrightarrow> KindOf p = KindOf q"
  by (simp add: sameSidecar_def foldExt_kind)

text \<open>A listing holds the names of one directory.\<close>

definition listingWF :: "Listing \<Rightarrow> bool" where
  "listingWF l \<longleftrightarrow> (\<forall>(n, e) \<in> set (lsEntries l). baseName n)"

lemma ListDir_wf: "diskWF d \<Longrightarrow> listingWF (ListDir d dir)"
  by (auto simp: listingWF_def ListDir_def osReadDir_iff dest: diskWF_key [unfolded properPath_def])

lemma Variants_cases:
  assumes "v \<in> set (Variants d l cand)"
  shows "v = cand \<and> occupied d cand \<or>
    (\<exists>n e. (n, e) \<in> set (lsEntries l) \<and> variantKey n = variantKey (pathBase cand) \<and> n \<noteq> pathBase cand \<and>
       typeRegular e \<and> v = pathJoin (pathDir cand) n \<and> pathClean (lsDir l) = pathDir cand)"
  using assms by (auto simp: Variants_def Let_def lookupVariants_def split: if_splits)

lemma Variants_same:
  assumes "listingWF l" "properPath cand" "v \<in> set (Variants d l cand)"
  shows "sameSidecar v cand \<and> properPath v"
  using Variants_cases [OF assms(3)]
proof (elim disjE exE conjE)
  fix n e assume n: "(n, e) \<in> set (lsEntries l)" "variantKey n = variantKey (pathBase cand)" "v = pathJoin (pathDir cand) n"
  from n(1) assms(1) have b: "baseName n" by (auto simp: listingWF_def)
  from assms(2) have c: "baseName (pathBase cand)" by (simp add: properPath_def)
  have "StemOf n = StemOf (pathBase cand) \<and> asciiEqualFold (pathExt n) (pathExt (pathBase cand))"
    using variantKey_iff [of n "pathBase cand"] n(2) b c by (auto simp: baseName_def slash_def)
  then show ?thesis
    using b properPath_join [OF b, of "pathDir cand"] proper_split [OF assms(2)]
    by (simp add: n(3) sameSidecar_def pathDir_join ext_join stem_join)
qed (use assms(2) in simp)

text \<open>Everything a fresh listing shows under another case of the extension is found.\<close>

lemma Variants_complete:
  assumes "diskWF d" "properPath cand" "map_of d v = Some e" "typeRegular e" "sameSidecar v cand" "v \<noteq> cand \<or> occupied d cand"
    "pathClean dir = pathDir cand"
  shows "v \<in> set (Variants d (ListDir d dir) cand)"
proof (cases "v = cand")
  case True
  with assms(6) show ?thesis by (auto simp: Variants_def Let_def)
next
  case False
  have v: "properPath v" using assms(1, 3) by (rule diskWF_key)
  then have b: "baseName (pathBase v)" and j: "pathJoin (pathDir v) (pathBase v) = v" by (auto simp: properPath_def)
  have c: "baseName (pathBase cand)" "pathJoin (pathDir cand) (pathBase cand) = cand" using assms(2) by (auto simp: properPath_def)
  have dirs: "pathDir v = pathDir cand" using assms(5) by (simp add: sameSidecar_def)
  have key: "variantKey (pathBase v) = variantKey (pathBase cand)"
    using variantKey_iff [of "pathBase v" "pathBase cand"] b c(1) assms(5) proper_split [OF v] proper_split [OF assms(2)]
    by (auto simp: sameSidecar_def baseName_def slash_def)
  have "(pathBase v, e) \<in> set (osReadDir d dir)"
    using assms(3, 7) dirs by (auto simp: osReadDir_iff)
  with key have m: "(pathBase v, e) \<in> set (lookupVariants (ListDir d dir) (pathBase cand))"
    by (simp add: lookupVariants_def ListDir_def)
  have listed: "occupied d cand \<Longrightarrow> pathBase cand \<in> fst ` set (lookupVariants (ListDir d dir) (pathBase cand))"
  proof -
    assume "occupied d cand"
    then obtain e' where "map_of d cand = Some e'" by (auto simp: occupied_def osLstat_def split: option.splits)
    then have "(pathBase cand, e') \<in> set (osReadDir d dir)" using assms(7) by (auto simp: osReadDir_iff)
    then show ?thesis by (force simp: lookupVariants_def ListDir_def)
  qed
  have ne: "pathBase v \<noteq> pathBase cand" using False j c(2) dirs by metis
  define l where "l = ListDir d dir"
  define bucket where "bucket = lookupVariants l (pathBase cand)"
  define keep where "keep = (\<lambda>(n, e). n \<noteq> pathBase cand \<and> typeRegular e \<and>
    \<not> ((occupied d cand \<and> pathBase cand \<notin> fst ` set bucket) \<and> sameFile d cand (pathJoin (pathDir cand) n)))"
  have same: "(pathClean (pathDir cand) \<noteq> pathClean (lsDir l)) = False" using assms(7) by (simp add: l_def ListDir_def)
  have "Variants d l cand = (if occupied d cand then [cand] else []) @ map (\<lambda>(n, e). pathJoin (pathDir cand) n) (filter keep bucket)"
    unfolding Variants_def Let_def keep_def bucket_def same if_False ..
  moreover have "(pathBase v, e) \<in> set (filter keep bucket)"
    using m ne assms(4) listed by (auto simp: keep_def bucket_def l_def)
  then have "v \<in> set (map (\<lambda>(n, e). pathJoin (pathDir cand) n) (filter keep bucket))"
    using j dirs by (force intro: image_eqI [where x = "(pathBase v, e)"])
  ultimately show ?thesis by (simp add: l_def)
qed

section \<open>Lemmas: both lookups agree\<close>

lemma textLess_irrefl [simp]: "\<not> textLess a a"
  by (induction a) auto

lemma textLess_total: "a \<noteq> b \<Longrightarrow> textLess a b \<or> textLess b a"
  by (induction a b rule: textLess.induct) (auto simp: neq_Nil_conv)

lemma textLess_trans: "textLess a b \<Longrightarrow> textLess b c \<Longrightarrow> textLess a c"
proof (induction a b arbitrary: c rule: textLess.induct)
  case (2 v va)
  then show ?case by (cases c) auto
next
  case (3 a as b bs)
  then show ?case by (cases c) auto
qed simp

lemma textLess_prefix [simp]: "textLess (p @ a) (p @ b) = textLess a b"
  by (induction p) auto

lemma textLess_neg: "\<not> textLess b a \<Longrightarrow> \<not> textLess c b \<Longrightarrow> \<not> textLess c a"
  using textLess_trans [of c a b] textLess_total [of a b] by auto

lemma stableSort_sorted:
  assumes "\<And>x y z. \<not> lt y x \<Longrightarrow> \<not> lt z y \<Longrightarrow> \<not> lt z x" "\<And>x y. lt x y \<Longrightarrow> \<not> lt y x"
  shows "sorted_wrt (\<lambda>x y. \<not> lt y x) (stableSort lt xs)"
proof -
  have ins: "sorted_wrt (\<lambda>x y. \<not> lt y x) ys \<Longrightarrow> sorted_wrt (\<lambda>x y. \<not> lt y x) (insertStable lt x ys)" for x ys
    by (induction ys) (auto dest: assms)
  show ?thesis unfolding stableSort_def by (induction xs) (simp_all add: ins)
qed

lemma caseMasked_fold: "asciiEqualFold (caseMasked bits e) e"
  by (induction bits e rule: caseMasked.induct)
    (auto simp: asciiEqualFold_def asciiLower_def asciiUpper_def asciiLetter_def)

lemma caseMasked_onto: "asciiEqualFold v e \<Longrightarrow> \<exists>bits < 2 ^ length (filter asciiLetter e). v = caseMasked bits e"
proof (induction e arbitrary: v)
  case (Cons c cs)
  then obtain x xs where v: "v = x # xs" by (cases v) (auto simp: asciiEqualFold_def)
  with Cons.prems have x: "asciiLower x = asciiLower c" and "asciiEqualFold xs cs" by (auto simp: asciiEqualFold_def)
  then obtain b where b: "b < 2 ^ length (filter asciiLetter cs)" "xs = caseMasked b cs" using Cons.IH by blast
  show ?case
  proof (cases "asciiLetter c")
    case False
    with x have "x = c" by (auto simp: asciiLower_def asciiLetter_def split: if_splits)
    with False v b show ?thesis by auto
  next
    case True
    with x consider "x = asciiUpper c" | "x = asciiLower c"
      by (auto simp: asciiLower_def asciiUpper_def asciiLetter_def split: if_splits)
    then show ?thesis
    proof cases
      case 1
      with True v b show ?thesis by (intro exI [of _ "2 * b + 1"]) auto
    next
      case 2
      with True v b show ?thesis by (intro exI [of _ "2 * b"]) auto
    qed
  qed
qed (simp add: asciiEqualFold_def)

lemma CaseVariants_set: "set (CaseVariants e) = {v. asciiEqualFold v e}"
proof
  show "{v. asciiEqualFold v e} \<subseteq> set (CaseVariants e)"
    using caseMasked_onto by (fastforce simp: CaseVariants_def)
qed (auto simp: CaseVariants_def caseMasked_fold)

text \<open>A regular file that is the sidecar under another case.\<close>

definition caseVariantOn :: "Disk \<Rightarrow> gotext \<Rightarrow> gotext \<Rightarrow> bool" where
  "caseVariantOn d p v \<longleftrightarrow> v \<noteq> p \<and> sameSidecar v p \<and> (\<exists>i m s. map_of d v = Some (Regular i m s))"

lemma regularFound: "(case osLstat d p of Found e \<Rightarrow> isRegular e | _ \<Rightarrow> False) \<longleftrightarrow> (\<exists>i m s. map_of d p = Some (Regular i m s))"
  by (auto simp: osLstat_def split: option.splits Entry.splits)

lemma dir_suffix: "47 \<notin> set x \<Longrightarrow> pathDir (s @ x) = pathDir s"
  by (auto simp: pathDir_def dropWhile_append)

lemma recased_same:
  assumes "asciiEqualFold v (pathExt p)" "v \<noteq> pathExt p"
  shows "sameSidecar (StemOf p @ v) p \<and> StemOf p @ v \<noteq> p"
proof -
  obtain x where x: "pathExt p = 46 # x" "46 \<notin> set x" "47 \<notin> set x"
    using assms pathExt_split [of p] by (auto simp: asciiEqualFold_def)
  with assms(1) obtain c y where v: "v = c # y" "asciiLower c = 46" "map asciiLower y = map asciiLower x"
    by (cases v) (auto simp: asciiEqualFold_def asciiLower_def)
  have fix46: "asciiLower a = 46 \<longleftrightarrow> a = 46" "asciiLower a = 47 \<longleftrightarrow> a = 47" for a by (auto simp: asciiLower_def)
  have "46 \<notin> set (map asciiLower y)" "47 \<notin> set (map asciiLower y)"
    unfolding v(3) using x fix46 by auto
  then have y: "46 \<notin> set y" "47 \<notin> set y" by (force simp: asciiLower_def)+
  have c: "c = 46" using v(2) fix46 by simp
  have "pathDir (StemOf p @ v) = pathDir (StemOf p @ pathExt p)"
    using y x unfolding v(1) c by (simp add: dir_suffix)
  then have "pathDir (StemOf p @ v) = pathDir p" using stem_ext [of p] by simp
  moreover have "pathExt (StemOf p @ v) = v" "StemOf (StemOf p @ v) = StemOf p"
    using ext_of_dot [OF y, of "StemOf p"] stem_of_dot [OF y, of "StemOf p"] by (simp_all add: v(1) c)
  moreover have "StemOf p @ v \<noteq> p" using stem_ext [of p] assms(2) by (metis append_same_eq same_append_eq)
  ultimately show ?thesis using assms(1) by (simp add: sameSidecar_def)
qed

lemma resolve_matches:
  "set (filter (\<lambda>p. case osLstat d p of Found e \<Rightarrow> isRegular e | _ \<Rightarrow> False)
      (map (\<lambda>v. trimSuffix p (pathExt p) @ v) (filter (\<lambda>v. v \<noteq> pathExt p) (CaseVariants (pathExt p))))) = {v. caseVariantOn d p v}"
proof (intro set_eqI iffI)
  fix v assume "v \<in> {v. caseVariantOn d p v}"
  then have v: "v \<noteq> p" "StemOf v = StemOf p" "asciiEqualFold (pathExt v) (pathExt p)" "\<exists>i m s. map_of d v = Some (Regular i m s)"
    by (auto simp: caseVariantOn_def sameSidecar_def)
  have e: "v = StemOf p @ pathExt v" using stem_ext [of v] v(2) by simp
  with v(1) have "pathExt v \<noteq> pathExt p" using stem_ext [of p] by auto
  with e v show "v \<in> set (filter (\<lambda>p. case osLstat d p of Found e \<Rightarrow> isRegular e | _ \<Rightarrow> False)
      (map (\<lambda>v. trimSuffix p (pathExt p) @ v) (filter (\<lambda>v. v \<noteq> pathExt p) (CaseVariants (pathExt p)))))"
    unfolding set_filter set_map CaseVariants_set regularFound by (auto simp: StemOf_def)
qed (auto simp: CaseVariants_set regularFound caseVariantOn_def dest: recased_same [unfolded StemOf_def])

text \<open>A listing may name a file whose \<open>Lstat\<close> fails; the names that answer are the ones expected.\<close>

definition answered :: "Disk \<Rightarrow> gotext list \<Rightarrow> gotext list" where
  "answered d vs = filter (\<lambda>v. osLstat d v \<noteq> LstatFailed) vs"

lemma Variants_answered_set:
  assumes "diskWF d" "properPath p"
  shows "set (answered d (Variants d (ListDir d (pathDir p)) p)) = {v. v = p \<and> occupied d p \<or> caseVariantOn d p v}"
proof (intro set_eqI iffI)
  fix v assume "v \<in> set (answered d (Variants d (ListDir d (pathDir p)) p))"
  then have v: "v \<in> set (Variants d (ListDir d (pathDir p)) p)" and lstat: "osLstat d v \<noteq> LstatFailed" by (auto simp: answered_def)
  show "v \<in> {v. v = p \<and> occupied d p \<or> caseVariantOn d p v}"
    using Variants_cases [OF v]
  proof (elim disjE exE conjE)
    fix n e assume n: "(n, e) \<in> set (lsEntries (ListDir d (pathDir p)))" "n \<noteq> pathBase p" "typeRegular e" "v = pathJoin (pathDir p) n"
    from n(1) obtain q where q: "map_of d q = Some e" "pathBase q = n" "pathDir q = pathDir p" by (auto simp: ListDir_def osReadDir_iff)
    then have "q = v" using diskWF_key [OF assms(1) q(1)] n(4) by (simp add: properPath_def)
    moreover have "\<exists>i m s. e = Regular i m s" using n(3) lstat q(1) \<open>q = v\<close> by (cases e) (auto simp: osLstat_def)
    moreover have "v \<noteq> p" using n(2) q(2) \<open>q = v\<close> by auto
    ultimately show ?thesis
      using q Variants_same [OF ListDir_wf [OF assms(1)] assms(2) v] by (auto simp: caseVariantOn_def)
  qed simp
next
  fix v assume "v \<in> {v. v = p \<and> occupied d p \<or> caseVariantOn d p v}"
  then consider "v = p" "occupied d p" | "caseVariantOn d p v" by blast
  then show "v \<in> set (answered d (Variants d (ListDir d (pathDir p)) p))"
  proof cases
    case 1
    then show ?thesis by (auto simp: answered_def Variants_def occupied_def Let_def)
  next
    case 2
    then show ?thesis using Variants_complete [OF assms, of v] by (auto simp: answered_def caseVariantOn_def osLstat_def)
  qed
qed

lemma Variants_fresh_set:
  assumes "diskWF d" "properPath p" "\<And>q r. map_of d q \<noteq> Some (Undetermined r)"
  shows "set (Variants d (ListDir d (pathDir p)) p) = {v. v = p \<and> occupied d p \<or> caseVariantOn d p v}"
proof -
  have "osLstat d v \<noteq> LstatFailed" for v using assms(3) [of v] by (auto simp: osLstat_def split: option.splits Entry.splits)
  then have "answered d vs = vs" for vs by (simp add: answered_def)
  with Variants_answered_set [OF assms(1, 2)] show ?thesis by simp
qed

lemma osReadDir_sorted: "sorted_wrt (\<lambda>x y. \<not> textLess (fst y) (fst x)) (osReadDir d dir)"
  unfolding osReadDir_def sorted_wrt_map fst_conv
  by (rule stableSort_sorted) (auto dest: textLess_neg textLess_trans)

lemma Variants_fresh_sorted:
  assumes "diskWF d" "osLstat d p = Absent"
  shows "sorted_wrt (\<lambda>x y. \<not> textLess y x) (Variants d (ListDir d (pathDir p)) p)"
proof -
  let ?l = "osReadDir d (pathDir p)"
  have base: "(n, e) \<in> set ?l \<Longrightarrow> pathJoin (pathDir p) n = dirPrefix (pathDir p) @ n" for n e
    using ListDir_wf [OF assms(1), of "pathDir p"] pathJoin_base by (auto simp: listingWF_def ListDir_def)
  have "sorted_wrt (\<lambda>x y. \<not> textLess (pathJoin (pathDir p) (fst y)) (pathJoin (pathDir p) (fst x))) (filter P (filter Q ?l))" for P Q
    by (intro sorted_wrt_filter sorted_wrt_mono_rel [OF _ osReadDir_sorted]) (auto simp: base)
  then show ?thesis
    using assms(2) by (auto simp: Variants_def Let_def occupied_def ListDir_def lookupVariants_def sorted_wrt_map case_prod_unfold)
qed

lemma least_unique:
  assumes "sorted_wrt (\<lambda>x y. \<not> textLess y x) (a # as)" "sorted_wrt (\<lambda>x y. \<not> textLess y x) (b # bs)" "set (a # as) = set (b # bs)"
  shows "a = b"
  using assms textLess_total [of a b] by (metis list.set_intros(1) set_ConsD sorted_wrt.simps(2))

section \<open>Theorems\<close>

text \<open>On a fresh listing \<open>Variants\<close> returns exactly the name asked for, when something that is not a
  directory has it, and the regular files with the same stem, byte for byte, whose extension differs in the
  case of ASCII letters only; so a caller that removes the result cannot touch the file of another track.\<close>

theorem variants_exact:
  assumes "diskWF d" "properPath p" "\<And>q r. map_of d q \<noteq> Some (Undetermined r)"
  shows "v \<in> set (Variants d (ListDir d (pathDir p)) p) \<longleftrightarrow>
    v = p \<and> occupied d p \<or> v \<noteq> p \<and> regularAt d v \<and>
      pathDir v = pathDir p \<and> StemOf v = StemOf p \<and> asciiEqualFold (pathExt v) (pathExt p)"
  using Variants_fresh_set [OF assms] by (auto simp: caseVariantOn_def sameSidecar_def regularAt_iff)

text \<open>C39: The two lookups agree: for a path with a base name of its own in a directory that can be read, when
  nothing has the exact name, trying the permutations of its extension
  gives the first variant that a fresh listing of its directory gives and that \<open>Lstat\<close> answers for, or nothing when
  there is none. So they differ only where the listing names a regular file that \<open>Lstat\<close> fails on: the listing
  keeps it, the permutations pass over it.\<close>

theorem case_lookups_agree:
  assumes "diskWF d" "properPath p" "osLstat d p = Absent"
  shows "ResolveCaseVariant d p =
    (case filter (\<lambda>v. osLstat d v \<noteq> LstatFailed) (Variants d (ListDir d (pathDir p)) p) of
       [] \<Rightarrow> None | v # _ \<Rightarrow> Some (v, the (map_of d v)))"
  unfolding answered_def [symmetric]
proof -
  define ms where "ms = filter (\<lambda>p. case osLstat d p of Found e \<Rightarrow> isRegular e | _ \<Rightarrow> False)
      (map (\<lambda>v. trimSuffix p (pathExt p) @ v) (filter (\<lambda>v. v \<noteq> pathExt p) (CaseVariants (pathExt p))))"
  let ?s = "stableSort textLess ms" and ?v = "answered d (Variants d (ListDir d (pathDir p)) p)"
  have set: "set ?s = set ?v"
    using Variants_answered_set [OF assms(1, 2)] assms(3)
    unfolding stableSort_set ms_def resolve_matches by (simp add: occupied_def)
  have s: "sorted_wrt (\<lambda>x y. \<not> textLess y x) ?s"
    by (rule stableSort_sorted) (auto dest: textLess_neg textLess_trans)
  have v: "sorted_wrt (\<lambda>x y. \<not> textLess y x) ?v"
    using Variants_fresh_sorted [OF assms(1, 3)] by (simp add: answered_def sorted_wrt_filter)
  have r: "ResolveCaseVariant d p = (case ?s of [] \<Rightarrow> None | v # _ \<Rightarrow> Some (v, the (map_of d v)))"
    by (simp add: ResolveCaseVariant_def Let_def ms_def)
  show "ResolveCaseVariant d p = (case ?v of [] \<Rightarrow> None | v # _ \<Rightarrow> Some (v, the (map_of d v)))"
  proof (cases ?s)
    case Nil
    with set r show ?thesis by simp
  next
    case (Cons a as)
    with set obtain b bs where "?v = b # bs" by (cases ?v) auto
    with Cons set s v least_unique [of a as b bs] r show ?thesis by simp
  qed
qed

definition exDisk :: Disk where
  "exDisk = [(lit ''/m/b.LRC'', Regular 1 420 (Some [])), (lit ''/m/b.Lrc'', Regular 2 420 (Some [])),
     (lit ''/m/B.lrc'', Regular 3 420 (Some [])), (lit ''/m/b.lRC'', Symlink LinkDangling)]"

lemma exDisk_wf: "diskWF exDisk" "map_of exDisk q \<noteq> Some (Undetermined r)" "properPath (lit ''/m/b.lrc'')"
  "osLstat exDisk (lit ''/m/b.lrc'') = Absent"
proof -
  show "map_of exDisk q \<noteq> Some (Undetermined r)" by (simp add: exDisk_def)
qed code_simp+

theorem variants_exact_witness:
  "lit ''/m/b.LRC'' \<in> set (Variants exDisk (ListDir exDisk (pathDir (lit ''/m/b.lrc''))) (lit ''/m/b.lrc''))"
  by (subst variants_exact [OF exDisk_wf(1, 3, 2)]) code_simp

text \<open>Beside them a name that \<open>Lstat\<close> fails on.\<close>

theorem case_lookups_agree_witness:
  "ResolveCaseVariant ((lit ''/m/b.LRC'', Undetermined True) # tl exDisk) (lit ''/m/b.lrc'') = Some (lit ''/m/b.Lrc'', Regular 2 420 (Some []))"
  by (subst case_lookups_agree) code_simp+

end
