(* ===== verification/LyricFiles.thy ===== *)
theory LyricFiles
  imports Sidecar WorkerOps
begin

text \<open>
  Reading the lyric files on disk (\<open>internal/lyrics\<close>: \<open>parser.go\<close>, \<open>lrcfile.go\<close>,
  \<open>instrumental_provenance.go\<close>, \<open>manual_marker.go\<close>, the reads of \<open>rung.go\<close>): the header of tags, the
  provenance it names, who owns a companion, what an instrumental marker says, the sync tier of a file;
  and the two in-place rewrites of a header. A rewrite goes through a temporary file that is renamed over
  the original: it either fails at some step, leaving the disk as it was, or replaces the file.
\<close>

section \<open>Lines of a file\<close>

definition utf8BOM :: gotext where "utf8BOM = [65279]"

definition trimPrefix :: "gotext \<Rightarrow> gotext \<Rightarrow> gotext" where
  "trimPrefix s pre = (if take (length pre) s = pre then drop (length pre) s else s)"

definition byteLen :: "gotext \<Rightarrow> nat" where
  "byteLen s = sum_list (map (\<lambda>c. length (utf8 c)) s)"

text \<open>\<open>bufio.Scanner\<close> over lines: it fails on a line that fills its buffer of 64 KiB.\<close>

function rawLines :: "gotext \<Rightarrow> gotext list" where
  "rawLines s = (if s = [] then [] else case dropWhile (\<lambda>c. c \<noteq> 10) s of
     [] \<Rightarrow> [s] | _ # rest \<Rightarrow> takeWhile (\<lambda>c. c \<noteq> 10) s # rawLines rest)"
  by auto
termination by (relation "measure length") (auto dest: dropWhile_shorter)

declare rawLines.simps [simp del]

definition scanLines :: "gotext \<Rightarrow> gotext list option" where
  "scanLines s = (if \<exists>l \<in> set (rawLines s). 65536 \<le> byteLen l then None else Some (map stripCR (rawLines s)))"

text \<open>\<open>io.LimitReader\<close>: a code point cut in two reads as the replacement character.\<close>

fun limitBytes :: "nat \<Rightarrow> gotext \<Rightarrow> gotext" where
  "limitBytes n [] = []"
| "limitBytes n (c # cs) =
     (if length (utf8 c) \<le> n then c # limitBytes (n - length (utf8 c)) cs else if n = 0 then [] else [65533])"

section \<open>Headers\<close>

definition parseTagLine :: "gotext \<Rightarrow> Tag option" where
  "parseTagLine line =
     (let s = trimSpace line
      in if take 1 s \<noteq> [91] \<or> last s \<noteq> 93 then None
         else let inner = butlast (tl s); key = takeWhile (\<lambda>c. c \<noteq> 58) inner
              in if 58 \<notin> set inner \<or> key = [] then None
                 else if isDigit (hd key) then None
                 else Some \<lparr>tag_Key = key, tag_Value = tl (dropWhile (\<lambda>c. c \<noteq> 58) inner), tag_Raw = line\<rparr>)"

fun headerLoop :: "gotext list \<Rightarrow> Tag list \<times> gotext list" where
  "headerLoop [] = ([], [])"
| "headerLoop (l # ls) =
     (case parseTagLine l of
        Some t \<Rightarrow> (t # fst (headerLoop ls), snd (headerLoop ls))
      | None \<Rightarrow>
          (if trimSpace l = [] then (\<lparr>tag_Key = [], tag_Value = [], tag_Raw = l\<rparr> # fst (headerLoop ls), snd (headerLoop ls))
           else ([], l # ls)))"

definition parseLRCHeaderFrom :: "gotext \<Rightarrow> (Tag list \<times> gotext list) option" where
  "parseLRCHeaderFrom s = (case scanLines s of None \<Rightarrow> None
     | Some [] \<Rightarrow> Some ([], []) | Some (l # ls) \<Rightarrow> Some (headerLoop (trimPrefix l utf8BOM # ls)))"

definition headerErr :: goerr where "headerErr = Opaque (lit ''scan: bufio.Scanner: token too long'')"

definition parseLRCHeader :: "Disk \<Rightarrow> gotext \<Rightarrow> goerr + Tag list \<times> gotext list" where
  "parseLRCHeader d p = (case osReadFile d p of Inl e \<Rightarrow> Inl (Wrapf (lit ''open: '') e [])
     | Inr s \<Rightarrow> (case parseLRCHeaderFrom s of None \<Rightarrow> Inl headerErr | Some r \<Rightarrow> Inr r))"

record ProvenanceTags =
  pt_Source :: gotext
  pt_Fetched :: gotext
  pt_ISRC :: gotext
  pt_MBID :: gotext
  pt_Upstream :: gotext
  pt_Artist :: gotext
  pt_Title :: gotext
  pt_Timing :: gotext

definition noProvenance :: ProvenanceTags where
  "noProvenance = \<lparr>pt_Source = [], pt_Fetched = [], pt_ISRC = [], pt_MBID = [], pt_Upstream = [], pt_Artist = [],
     pt_Title = [], pt_Timing = []\<rparr>"

definition applyTag :: "Tag \<Rightarrow> ProvenanceTags \<Rightarrow> ProvenanceTags" where
  "applyTag t pt =
     (let k = toLower (tag_Key t); v = trimSpace (tag_Value t)
      in if tag_Key t = [] then pt
         else if k = lit ''isrc'' then pt\<lparr>pt_ISRC := v\<rparr>
         else if k = lit ''mbid'' then pt\<lparr>pt_MBID := v\<rparr>
         else if k = lit ''source'' then pt\<lparr>pt_Source := v\<rparr>
         else if k = lit ''upstream'' then pt\<lparr>pt_Upstream := v\<rparr>
         else if k = lit ''fetched'' then pt\<lparr>pt_Fetched := v\<rparr>
         else if k = lit ''ar'' then pt\<lparr>pt_Artist := v\<rparr>
         else if k = lit ''ti'' then pt\<lparr>pt_Title := v\<rparr>
         else if k = lit ''timing'' then pt\<lparr>pt_Timing := v\<rparr>
         else pt)"

definition provenanceFromTags :: "Tag list \<Rightarrow> ProvenanceTags" where
  "provenanceFromTags tags = fold applyTag tags noProvenance"

definition ReadProvenanceTags :: "Disk \<Rightarrow> gotext \<Rightarrow> goerr + ProvenanceTags" where
  "ReadProvenanceTags d p = (case parseLRCHeader d p of Inl e \<Rightarrow> Inl e | Inr (tags, _) \<Rightarrow> Inr (provenanceFromTags tags))"

section \<open>Reads that follow no link\<close>

definition errNotRegular :: goerr where "errNotRegular = Opaque (lit ''not a regular file'')"
definition errTooLarge :: goerr where "errTooLarge = Opaque (lit ''file over size cap'')"

text \<open>The content and the identity of the file it came from.\<close>

definition openRegularNoFollow :: "Disk \<Rightarrow> gotext \<Rightarrow> goerr + gotext \<times> nat" where
  "openRegularNoFollow d p = (case osLstat d p of
       Found (Regular i m (Some s)) \<Rightarrow> Inr (s, i)
     | Found (Regular i m None) \<Rightarrow> Inl (Opaque (lit ''permission denied''))
     | Found _ \<Rightarrow> Inl errNotRegular
     | Absent \<Rightarrow> Inl (Opaque (lit ''no such file''))
     | LstatFailed \<Rightarrow> Inl (Opaque (lit ''lstat failed'')))"

definition readRegularNoFollowInfo :: "Disk \<Rightarrow> gotext \<Rightarrow> nat option \<Rightarrow> goerr + gotext \<times> nat" where
  "readRegularNoFollowInfo d p limit = (case openRegularNoFollow d p of Inl e \<Rightarrow> Inl e
     | Inr (s, i) \<Rightarrow> (case limit of None \<Rightarrow> Inr (s, i)
         | Some n \<Rightarrow> if byteLen s > n then Inl errTooLarge else Inr (s, i)))"

definition readRegularNoFollow :: "Disk \<Rightarrow> gotext \<Rightarrow> nat option \<Rightarrow> goerr + gotext" where
  "readRegularNoFollow d p limit = map_sum id fst (readRegularNoFollowInfo d p limit)"

definition MaxHeaderBytes :: nat where "MaxHeaderBytes = 32768"

definition readHeaderTags :: "Disk \<Rightarrow> gotext \<Rightarrow> goerr + Tag list" where
  "readHeaderTags d p = (case openRegularNoFollow d p of Inl e \<Rightarrow> Inl (Wrapf (lit ''open: '') e [])
     | Inr (s, _) \<Rightarrow> (case parseLRCHeaderFrom (limitBytes MaxHeaderBytes s) of None \<Rightarrow> Inl headerErr | Some (tags, _) \<Rightarrow> Inr tags))"

definition ReadProvenanceHeader :: "Disk \<Rightarrow> gotext \<Rightarrow> goerr + ProvenanceTags" where
  "ReadProvenanceHeader d p = map_sum id provenanceFromTags (readHeaderTags d p)"

definition ProvenanceFromBytes :: "gotext \<Rightarrow> goerr + ProvenanceTags" where
  "ProvenanceFromBytes s = (case parseLRCHeaderFrom (limitBytes MaxHeaderBytes s) of
     None \<Rightarrow> Inl headerErr | Some (tags, _) \<Rightarrow> Inr (provenanceFromTags tags))"

section \<open>Companions\<close>

definition byCanticle :: "Tag list \<Rightarrow> bool" where
  "byCanticle tags \<longleftrightarrow> (\<exists>t \<in> set tags. equalFold (tag_Key t) (lit ''by'') \<and> trimSpace (tag_Value t) = lit ''canticle'')"

definition IsOwnedCompanionBody :: "gotext \<Rightarrow> bool" where
  "IsOwnedCompanionBody body = (case parseLRCHeaderFrom body of None \<Rightarrow> False | Some (tags, _) \<Rightarrow> byCanticle tags)"

datatype companionOwnership = companionAbsent | companionOwned | companionForeign

definition companionOwnershipOfErr :: "Disk \<Rightarrow> gotext \<Rightarrow> companionOwnership \<times> goerr option" where
  "companionOwnershipOfErr d p = (case osLstat d p of
       Absent \<Rightarrow> (companionAbsent, None)
     | LstatFailed \<Rightarrow> (companionForeign, Some (Opaque (lit ''stat companion'')))
     | Found e \<Rightarrow>
         (if \<not> isRegular e then (companionForeign, None)
          else case readHeaderTags d p of
            Inl err \<Rightarrow> (companionForeign, Some (Wrapf (lit ''read companion header: '') err []))
          | Inr tags \<Rightarrow> (if byCanticle tags then companionOwned else companionForeign, None)))"

definition companionOwnershipOf :: "Disk \<Rightarrow> gotext \<Rightarrow> companionOwnership" where
  "companionOwnershipOf d p = fst (companionOwnershipOfErr d p)"

definition IsOwnedCompanion :: "Disk \<Rightarrow> gotext \<Rightarrow> bool" where
  "IsOwnedCompanion d p \<longleftrightarrow> companionOwnershipOf d p = companionOwned"

definition ownedCompanions :: "Disk \<Rightarrow> gotext \<Rightarrow> Listing \<Rightarrow> gotext list" where
  "ownedCompanions d fp l =
     (if \<not> Active KindWordSynced then []
      else filter (\<lambda>v. companionOwnershipOf d v = companionOwned) (Variants d l (StemOf fp @ ExtWordSynced)))"

fun firstOwned :: "Disk \<Rightarrow> gotext list \<Rightarrow> goerr + gotext" where
  "firstOwned d [] = Inr []"
| "firstOwned d (v # vs) = (case companionOwnershipOfErr d v of
     (_, Some e) \<Rightarrow> Inl e | (own, None) \<Rightarrow> if own = companionOwned then Inr v else firstOwned d vs)"

definition ownedCompanionOfErr :: "Disk \<Rightarrow> gotext \<Rightarrow> goerr + gotext" where
  "ownedCompanionOfErr d lrc =
     (if \<not> Active KindWordSynced \<or> KindOf lrc \<noteq> KindLineSynced then Inr []
      else let c = StemOf lrc @ ExtWordSynced
           in if osLstat d c \<noteq> Absent
              then (case companionOwnershipOfErr d c of
                  (_, Some e) \<Rightarrow> Inl e | (own, None) \<Rightarrow> Inr (if own = companionOwned then c else []))
              else firstOwned d (Variants d (ListDir d (pathDir c)) c))"

definition OwnedCompanionOf :: "Disk \<Rightarrow> gotext \<Rightarrow> gotext" where
  "OwnedCompanionOf d lrc = (case ownedCompanionOfErr d lrc of Inl _ \<Rightarrow> [] | Inr c \<Rightarrow> c)"

section \<open>Sync tiers\<close>

datatype SyncTier = TierWord | TierLine | TierUnsynced

definition parseSyncedLRC :: "gotext \<Rightarrow> Lines list" where
  "parseSyncedLRC s = Cues (ParseBody (trimPrefix s utf8BOM))"

definition ReadSyncedLRC :: "Disk \<Rightarrow> gotext \<Rightarrow> goerr + Lines list" where
  "ReadSyncedLRC d p = (case osReadFile d p of Inl e \<Rightarrow> Inl (Wrapf (lit ''read lrc: '') e []) | Inr s \<Rightarrow> Inr (parseSyncedLRC s))"

definition EvaluateLRCFile :: "Disk \<Rightarrow> gotext \<Rightarrow> int \<Rightarrow> goerr + TimingOutcome \<times> Magnitude \<times> nat" where
  "EvaluateLRCFile d p durationSeconds = (case ReadSyncedLRC d p of Inl e \<Rightarrow> Inl e
     | Inr synced \<Rightarrow> (case Evaluate (zeroSong\<lparr>Subtitles := synced\<rparr>) durationSeconds of
         (outcome, mag) \<Rightarrow> Inr (outcome, mag, length synced)))"

definition ClassifySynced :: "Lines list \<Rightarrow> SyncTier" where
  "ClassifySynced synced =
     (if synced = [] then TierUnsynced
      else if \<exists>l \<in> set synced. StripWordMarkers (Text l) \<noteq> Text l then TierWord else TierLine)"

definition classifyLRCContent :: "Disk \<Rightarrow> gotext \<Rightarrow> Lines list \<Rightarrow> goerr + SyncTier" where
  "classifyLRCContent d p synced =
     (let tier = ClassifySynced synced
      in if tier = TierLine
         then (case ownedCompanionOfErr d p of Inl e \<Rightarrow> Inl e | Inr c \<Rightarrow> Inr (if c \<noteq> [] then TierWord else tier))
         else Inr tier)"

definition ClassifyLRCFile :: "Disk \<Rightarrow> gotext \<Rightarrow> goerr + SyncTier" where
  "ClassifyLRCFile d p = (case ReadSyncedLRC d p of Inl e \<Rightarrow> Inl e | Inr synced \<Rightarrow> classifyLRCContent d p synced)"

definition PlainBody :: "Lines list \<Rightarrow> gotext" where
  "PlainBody synced = concat (map (\<lambda>l. let text = trimSpace (StripWordMarkers (Text l))
     in if IsDecorative text then [] else text @ [10]) synced)"

section \<open>Instrumental markers\<close>

definition InstrumentalMarker :: gotext where "InstrumentalMarker = [9834] @ lit '' Instrumental '' @ [9834]"
definition SourceDetector :: gotext where "SourceDetector = lit ''canticle-detector''"
definition SourceManual :: gotext where "SourceManual = lit ''manual''"
definition ManualLaneName :: gotext where "ManualLaneName = lit ''manual''"

record InstrumentalProvenance =
  ip_Source :: gotext
  ip_Version :: gotext

definition IsDetector :: "InstrumentalProvenance \<Rightarrow> bool" where
  "IsDetector p \<longleftrightarrow> ip_Source p = SourceDetector"

definition IsManual :: "InstrumentalProvenance \<Rightarrow> bool" where
  "IsManual p \<longleftrightarrow> equalFold (ip_Source p) SourceManual"

definition noMarker :: InstrumentalProvenance where
  "noMarker = \<lparr>ip_Source = [], ip_Version = []\<rparr>"

definition markerTag :: "Tag \<Rightarrow> InstrumentalProvenance \<Rightarrow> InstrumentalProvenance" where
  "markerTag t p = (let k = toLower (tag_Key t)
     in if k = lit ''source'' then p\<lparr>ip_Source := trimSpace (tag_Value t)\<rparr>
        else if k = lit ''dv'' then p\<lparr>ip_Version := trimSpace (tag_Value t)\<rparr> else p)"

definition provenanceOf :: "Tag list \<Rightarrow> gotext list \<Rightarrow> InstrumentalProvenance \<times> bool" where
  "provenanceOf tags lyricLines =
     (let isMarker = (\<exists>t \<in> set tags. containsText InstrumentalMarker (tag_Raw t)) \<or>
            (\<exists>l \<in> set lyricLines. containsText InstrumentalMarker l)
      in if \<not> isMarker then (noMarker, False) else (fold markerTag tags noMarker, True))"

definition ReadInstrumentalProvenance :: "Disk \<Rightarrow> gotext \<Rightarrow> goerr + InstrumentalProvenance \<times> bool" where
  "ReadInstrumentalProvenance d p = (case parseLRCHeader d p of Inl e \<Rightarrow> Inl e | Inr (tags, ls) \<Rightarrow> Inr (provenanceOf tags ls))"

definition maxManualMarkerBytes :: nat where "maxManualMarkerBytes = 65536"

definition isManualMarker :: "gotext \<Rightarrow> bool" where
  "isManualMarker s = (case parseLRCHeaderFrom s of None \<Rightarrow> False
     | Some (tags, ls) \<Rightarrow> (case provenanceOf tags ls of (prov, isMarker) \<Rightarrow> isMarker \<and> IsManual prov))"

definition ManualMarkerOnDisk :: "Disk \<Rightarrow> gotext \<Rightarrow> bool" where
  "ManualMarkerOnDisk d p = (case readRegularNoFollow d p (Some maxManualMarkerBytes) of Inl _ \<Rightarrow> False | Inr s \<Rightarrow> isManualMarker s)"

definition BareMarkerOnDisk :: "Disk \<Rightarrow> gotext \<Rightarrow> bool" where
  "BareMarkerOnDisk d p = (case readRegularNoFollow d p (Some maxManualMarkerBytes) of Inl _ \<Rightarrow> False
     | Inr s \<Rightarrow> (case parseLRCHeaderFrom s of None \<Rightarrow> False
         | Some (tags, ls) \<Rightarrow> (case provenanceOf tags ls of (prov, isMarker) \<Rightarrow>
             isMarker \<and> ip_Source prov = [] \<and> (\<forall>l \<in> set ls. trimSpace l = [] \<or> trimSpace l = InstrumentalMarker))))"

end
