(* ===== verification/LyricRewrite.thy ===== *)
theory LyricRewrite
  imports LyricFiles
begin

text \<open>
  The two in-place rewrites of a lyric file's header: \<open>InjectProvenance\<close> (\<open>parser.go\<close>), which adds the
  provenance tags a file lacks, and \<open>WriteMarkerProvenance\<close> (\<open>instrumental_provenance.go\<close>), which stamps
  a bare instrumental marker. Each writes a temporary file and renames it over the original; \<open>fault\<close> is the
  error one of those steps ends with, and \<open>ino\<close> the identity of the new file. \<open>injectLines\<close> are the lines
  written; reading them back gives the old header with the new tags and the lyrics unchanged.
\<close>

section \<open>Definitions\<close>

definition replaceFile :: "goerr option \<Rightarrow> nat \<Rightarrow> nat \<Rightarrow> gotext \<Rightarrow> gotext \<Rightarrow> Disk \<Rightarrow> goerr option \<times> Disk" where
  "replaceFile fault ino mode p s d = (case fault of Some e \<Rightarrow> (Some e, d) | None \<Rightarrow> (None, diskPut p (Regular ino mode (Some s)) d))"

definition sanitizeTagValue :: "gotext \<Rightarrow> gotext" where
  "sanitizeTagValue v = filter (\<lambda>c. c \<noteq> 93 \<and> c \<noteq> 13 \<and> c \<noteq> 10) v"

definition injectCandidates :: "ProvenanceTags \<Rightarrow> (gotext \<times> gotext) list" where
  "injectCandidates pt = filter (\<lambda>(k, v). v \<noteq> [])
     [(lit ''source'', sanitizeTagValue (pt_Source pt)), (lit ''fetched'', sanitizeTagValue (pt_Fetched pt)),
      (lit ''isrc'', sanitizeTagValue (pt_ISRC pt)), (lit ''mbid'', sanitizeTagValue (pt_MBID pt))]"

definition existingKeys :: "Tag list \<Rightarrow> gotext set" where
  "existingKeys tags = (\<lambda>t. toLower (tag_Key t)) ` set (filter (\<lambda>t. tag_Key t \<noteq> []) tags)"

definition tagLine :: "gotext \<Rightarrow> gotext \<Rightarrow> gotext" where
  "tagLine k v = [91] @ k @ [58] @ v @ [93]"

definition injectTags :: "Tag list \<Rightarrow> ProvenanceTags \<Rightarrow> Tag list" where
  "injectTags tags pt = map (\<lambda>(k, v). \<lparr>tag_Key = k, tag_Value = v, tag_Raw = tagLine k v\<rparr>)
     (filter (\<lambda>(k, v). k \<notin> existingKeys tags) (injectCandidates pt))"

text \<open>The new tags stand before the first blank line of the header.\<close>

definition injectedHeader :: "Tag list \<Rightarrow> ProvenanceTags \<Rightarrow> Tag list" where
  "injectedHeader tags pt = takeWhile (\<lambda>t. tag_Key t \<noteq> []) tags @ injectTags tags pt @ dropWhile (\<lambda>t. tag_Key t \<noteq> []) tags"

definition eolText :: "gotext \<Rightarrow> gotext" where
  "eolText s = (if containsText [13, 10] s then [13, 10] else [10])"

definition renderLines :: "gotext \<Rightarrow> bool \<Rightarrow> gotext list \<Rightarrow> gotext" where
  "renderLines eol trailing ls =
     (if ls = [] then [] else concat (map (\<lambda>l. l @ eol) (butlast ls)) @ last ls @ (if trailing then eol else []))"

definition InjectProvenance :: "goerr option \<Rightarrow> nat \<Rightarrow> Disk \<Rightarrow> gotext \<Rightarrow> ProvenanceTags \<Rightarrow> (goerr + nat \<times> nat) \<times> Disk" where
  "InjectProvenance fault ino d p pt =
     (if KindOf p \<noteq> KindLineSynced \<and> KindOf p \<noteq> KindWordSynced then (Inl (Opaque (lit ''not an LRC file'')), d)
      else case osLstat d p of
        Absent \<Rightarrow> (Inl (Opaque (lit ''lstat'')), d)
      | LstatFailed \<Rightarrow> (Inl (Opaque (lit ''lstat'')), d)
      | Found e \<Rightarrow>
         (if isSymlink e then (Inr (0, 0), d)
          else case osReadFile d p of Inl err \<Rightarrow> (Inl (Wrapf (lit ''read: '') err []), d)
          | Inr raw \<Rightarrow> (case parseLRCHeaderFrom raw of None \<Rightarrow> (Inl headerErr, d)
             | Some (tags, lyr) \<Rightarrow>
                (let injected = length (injectTags tags pt); skipped = length (injectCandidates pt) - injected
                 in if injected = 0 then (Inr (0, skipped), d)
                    else case replaceFile fault ino (case e of Regular i m s \<Rightarrow> m | _ \<Rightarrow> 0) p
                           (renderLines (eolText raw) (raw \<noteq> [] \<and> last raw = 10) (map tag_Raw (injectedHeader tags pt) @ lyr)) d of
                      (Some err, d') \<Rightarrow> (Inl err, d')
                    | (None, d') \<Rightarrow> (Inr (injected, skipped), d')))))"

definition markerHeader :: "InstrumentalProvenance \<Rightarrow> gotext" where
  "markerHeader prov = lit ''[by:canticle]'' @ [10] @ lit ''[source:'' @ ip_Source prov @ [93, 10] @
     (if ip_Version prov \<noteq> [] then lit ''[dv:'' @ ip_Version prov @ [93, 10] else [])"

definition WriteMarkerProvenance :: "goerr option \<Rightarrow> nat \<Rightarrow> Disk \<Rightarrow> gotext \<Rightarrow> InstrumentalProvenance \<Rightarrow> (goerr + bool) \<times> Disk" where
  "WriteMarkerProvenance fault ino d p prov =
     (case osLstat d p of
        Absent \<Rightarrow> (Inl (Opaque (lit ''lstat'')), d)
      | LstatFailed \<Rightarrow> (Inl (Opaque (lit ''lstat'')), d)
      | Found e \<Rightarrow>
         (if isSymlink e then (Inr False, d)
          else case ReadInstrumentalProvenance d p of Inl err \<Rightarrow> (Inl (Wrapf (lit ''read marker provenance: '') err []), d)
          | Inr (existing, isMarker) \<Rightarrow>
             (if \<not> isMarker \<or> ip_Source existing \<noteq> [] then (Inr False, d)
              else case osReadFile d p of Inl err \<Rightarrow> (Inl (Wrapf (lit ''read: '') err []), d)
              | Inr raw \<Rightarrow>
                 (case replaceFile fault ino (case e of Regular i m s \<Rightarrow> m | _ \<Rightarrow> 0) p (markerHeader prov @ raw) d of
                    (Some err, d') \<Rightarrow> (Inl err, d') | (None, d') \<Rightarrow> (Inr True, d')))))"

end
