(* ===== verification/LyricWriter.thy ===== *)
theory LyricWriter
  imports Selfwrite LyricFiles
begin

text \<open>
  The writer of lyric files (\<open>internal/lyrics\<close>: \<open>writer.go\<close>, \<open>manualguard.go\<close>, \<open>slugify.go\<close>,
  \<open>mtimebump.go\<close>, the rules of \<open>rung.go\<close>, \<open>fetch\<close>-independent parts of \<open>manual_marker.go\<close>). A write is planned
  (\<open>planWrite\<close>: content, timing verdict, name, directory, header, companion), guarded (\<open>refuseManualMarker\<close>,
  \<open>refuseDowngrade\<close>) and carried out (\<open>carryOut\<close>) on a \<open>WriterState\<close>: the disk, the self-write registry and
  the audio files whose time was bumped. \<open>WriteEnv\<close> holds what the world does meanwhile: the error each
  file operation ends with, and what other processes do to the disk at the two named points of a write.
\<close>

section \<open>The writer\<close>

record LRCWriter =
  lwRoots :: "gotext list"
  lwBilingual :: bool
  lwWordSync :: bool
  lwCompanion :: bool
  lwForce :: bool
  lwAllowManual :: bool
  lwOnlyIfAbsent :: bool
  lwBlocks :: "(Song \<Rightarrow> bool) option"
  lwBump :: bool

definition NewLRCWriter :: "gotext list \<Rightarrow> LRCWriter" where
  "NewLRCWriter roots = \<lparr>lwRoots = map pathClean (filter (\<lambda>r. r \<noteq> []) roots), lwBilingual = False, lwWordSync = False,
     lwCompanion = False, lwForce = False, lwAllowManual = False, lwOnlyIfAbsent = False, lwBlocks = None, lwBump = False\<rparr>"

definition SetWordSync :: "bool \<Rightarrow> LRCWriter \<Rightarrow> LRCWriter" where "SetWordSync b w = w\<lparr>lwWordSync := b\<rparr>"
definition SetWordSyncCompanion :: "bool \<Rightarrow> LRCWriter \<Rightarrow> LRCWriter" where "SetWordSyncCompanion b w = w\<lparr>lwCompanion := b\<rparr>"
definition WriterSetBlockChecker :: "(Song \<Rightarrow> bool) option \<Rightarrow> LRCWriter \<Rightarrow> LRCWriter" where "WriterSetBlockChecker c w = w\<lparr>lwBlocks := c\<rparr>"
definition SetBilingual :: "bool \<Rightarrow> LRCWriter \<Rightarrow> LRCWriter" where "SetBilingual b w = w\<lparr>lwBilingual := b\<rparr>"
definition SetForceOverwrite :: "bool \<Rightarrow> LRCWriter \<Rightarrow> LRCWriter" where "SetForceOverwrite b w = w\<lparr>lwForce := b\<rparr>"
definition SetAudioMtimeBump :: "bool \<Rightarrow> LRCWriter \<Rightarrow> LRCWriter" where "SetAudioMtimeBump b w = w\<lparr>lwBump := b\<rparr>"
definition WordSyncCompanion :: "LRCWriter \<Rightarrow> bool" where "WordSyncCompanion w = lwCompanion w"
definition WordSyncEnabled :: "LRCWriter \<Rightarrow> bool" where "WordSyncEnabled w \<longleftrightarrow> lwWordSync w \<or> lwCompanion w"

text \<open>The steps of an atomic write that can fail.\<close>

datatype WriteStep = StepCreate | StepTag | StepContent | StepClose | StepChmod | StepRemove | StepRename

record WriteEnv =
  weEval :: "gotext \<Rightarrow> gotext option"
  weNFKC :: "gotext \<Rightarrow> gotext"
  weLower :: "gotext \<Rightarrow> gotext"
  weVersion :: gotext
  weRFC3339 :: "instant \<Rightarrow> gotext"
  weCanon :: "gotext \<Rightarrow> gotext"
  weNow :: instant
  wePrune :: instant
  weAudioNow :: instant
  weAudioPrune :: instant
  weTemp :: "gotext \<Rightarrow> gotext"
  weIno :: nat
  weMain :: "WriteStep \<Rightarrow> goerr option"
  weCompanionStep :: "WriteStep \<Rightarrow> goerr option"
  weRemove :: "gotext \<Rightarrow> goerr option"
  weChtimes :: "goerr option"
  weProbed :: "Disk \<Rightarrow> Disk"
  weWritten :: "Disk \<Rightarrow> Disk"

record WriterState =
  wsDisk :: Disk
  wsReg :: "SelfRegistry option"
  wsTouched :: "gotext list"

section \<open>Names\<close>

definition forbiddenRune :: "rune \<Rightarrow> bool" where
  "forbiddenRune c \<longleftrightarrow> c \<in> {92, 47, 58, 42, 63, 34, 60, 62, 124}"

fun collapseDashes :: "gotext \<Rightarrow> gotext" where
  "collapseDashes (a # b # cs) = (if a = 45 \<and> b = 45 then collapseDashes (b # cs) else a # collapseDashes (b # cs))"
| "collapseDashes cs = cs"

definition trimDashes :: "gotext \<Rightarrow> gotext" where
  "trimDashes s = rev (dropWhile (\<lambda>c. c = 45 \<or> c = 95) (rev (dropWhile (\<lambda>c. c = 45 \<or> c = 95) s)))"

definition Slugify :: "(gotext \<Rightarrow> gotext) \<Rightarrow> gotext \<Rightarrow> gotext" where
  "Slugify nfkc s = trimDashes (collapseDashes (filter (\<lambda>c. \<not> forbiddenRune c) (nfkc s)))"

definition isUnsafeBaseName :: "gotext \<Rightarrow> bool" where
  "isUnsafeBaseName name \<longleftrightarrow> isAbs name \<or> 47 \<in> set name \<or> 92 \<in> set name"

definition SidecarNameFor :: "(gotext \<Rightarrow> gotext) \<Rightarrow> gotext \<Rightarrow> gotext \<Rightarrow> gotext \<Rightarrow> Kind \<Rightarrow> goerr + gotext" where
  "SidecarNameFor nfkc artistName trackName fname kind =
     (let ext = Ext kind
      in if ext = [] then Inl (Opaque (lit ''refusing to write: no sidecar extension for kind''))
         else if fname \<noteq> [] \<and> (fname = [46] \<or> fname = dotdot \<or> fname \<noteq> pathBase fname \<or> isUnsafeBaseName fname)
         then Inl (Opaque (lit ''refusing to write: output filename is not a base name''))
         else let fn = (if fname \<noteq> [] then trimSuffix fname (pathExt fname) @ ext
                        else Slugify nfkc (artistName @ lit '' - '' @ trackName) @ ext)
              in if isUnsafeBaseName fn then Inl (Opaque (lit ''refusing to write: derived output name is not a base name''))
                 else Inr fn)"

definition SidecarName :: "(gotext \<Rightarrow> gotext) \<Rightarrow> gotext \<Rightarrow> gotext \<Rightarrow> gotext \<Rightarrow> bool \<Rightarrow> goerr + gotext" where
  "SidecarName nfkc artistName trackName fname synced =
     SidecarNameFor nfkc artistName trackName fname (if synced then KindLineSynced else KindUnsynced)"

section \<open>The output directory\<close>

definition matchRoot :: "LRCWriter \<Rightarrow> gotext \<Rightarrow> gotext option" where
  "matchRoot w dir =
     (let best = foldl (\<lambda>best r. if WithinRoot r dir \<and> byteLen r > byteLen best then r else best) [] (lwRoots w)
      in if best = [] then None else Some best)"

fun absentWalk :: "Disk \<Rightarrow> gotext \<Rightarrow> gotext list \<Rightarrow> bool" where
  "absentWalk d cur [] = False"
| "absentWalk d cur (p # ps) =
     (let next = pathJoin cur p
      in case osLstat d next of Absent \<Rightarrow> True | LstatFailed \<Rightarrow> False
         | Found e \<Rightarrow> (if isSymlink e then False else absentWalk d next ps))"

definition absentWithoutSymlink :: "Disk \<Rightarrow> gotext \<Rightarrow> gotext \<Rightarrow> bool" where
  "absentWithoutSymlink d rt dir =
     (case pathRel (pathClean rt) (pathClean dir) of None \<Rightarrow> False
      | Some rel \<Rightarrow> (if rel = [46] \<or> rel = dotdot \<or> take 3 rel = dotdot @ [slash] then False
                     else absentWalk d (pathClean rt) (splitSlash rel)))"

definition resolveOutdir :: "WriteEnv \<Rightarrow> LRCWriter \<Rightarrow> Disk \<Rightarrow> gotext \<Rightarrow> WriteRes + gotext" where
  "resolveOutdir env w d dir =
     (case matchRoot w dir of None \<Rightarrow> Inr dir
      | Some rt \<Rightarrow> (case ResolveWithinRoot (weEval env) rt dir of Some r \<Rightarrow> Inr r
          | None \<Rightarrow> Inl (if absentWithoutSymlink d rt dir then DirMissing (Sentinel LyrErrOutputDirMissing)
                         else WriteFailed (Opaque (lit ''refusing to write: output dir escapes the confinement root or is unresolvable'')))))"

section \<open>Rendering\<close>

fun pairLoop :: "gotext list \<Rightarrow> (nat \<times> gotext) list \<Rightarrow> nat option list" where
  "pairLoop [] queue = []"
| "pairLoop (s # ss) queue =
     (case List.find (\<lambda>(j, t). t = s) queue of
        None \<Rightarrow> None # pairLoop ss queue
      | Some (j, t) \<Rightarrow> Some j # pairLoop ss (remove1 (j, t) queue))"

text \<open>
  The queues of unclaimed cues, one per stamp, are kept as one list in the order of the translation; \<open>None\<close> is
  the index -1 of a cue without a counterpart.
\<close>

definition pairBilingualTranslations :: "Lines list \<Rightarrow> Lines list \<Rightarrow> nat option list" where
  "pairBilingualTranslations original translation =
     pairLoop (map (\<lambda>l. Stamp (LTime l)) original) (enumerate 0 (map (\<lambda>l. Stamp (LTime l)) translation))"

definition noteOr :: "gotext \<Rightarrow> gotext" where
  "noteOr t = (if t = [] then [9834] else t)"

definition stampedLine :: "Lines \<Rightarrow> gotext \<Rightarrow> gotext" where
  "stampedLine l t = [91] @ Stamp (LTime l) @ [93] @ t @ [10]"

definition cueText :: "Song \<Rightarrow> bool \<Rightarrow> nat \<Rightarrow> Lines \<Rightarrow> gotext" where
  "cueText song wordSync i l =
     (case (if wordSync then a2Words (Text l) (wordTimingsByLine song (int i)) else None) of
        Some marked \<Rightarrow> marked | None \<Rightarrow> noteOr (Text l))"

definition syncedBody :: "Song \<Rightarrow> bool \<Rightarrow> bool \<Rightarrow> gotext" where
  "syncedBody song bilingual wordSync =
     (let ls = Subtitles song; ts = TranslationSubtitles song; interleave = bilingual \<and> ts \<noteq> [];
          pairs = (if interleave then pairBilingualTranslations ls ts else [])
      in concat (map (\<lambda>(i, l). stampedLine l (cueText song wordSync i l) @
           (if interleave then (case pairs ! i of None \<Rightarrow> [] | Some j \<Rightarrow> stampedLine l (noteOr (Text (ts ! j)))) else []))
           (enumerate 0 ls)))"

definition bracket :: "string \<Rightarrow> gotext \<Rightarrow> gotext" where
  "bracket k v = [91] @ lit k @ [58] @ v @ [93]"

definition upstreamTag :: "Song \<Rightarrow> gotext list" where
  "upstreamTag song = (if RecordedUpstream song \<noteq> [] then [bracket ''upstream'' (RecordedUpstream song)] else [])"

definition syncedTags :: "WriteEnv \<Rightarrow> Song \<Rightarrow> gotext list" where
  "syncedTags env song =
     (let t = STrack song; len = TrackLength t
      in [bracket ''by'' (lit ''canticle''), bracket ''ar'' (ArtistName t), bracket ''ti'' (TrackName t)]
         @ (if AlbumName t \<noteq> [] then [bracket ''al'' (AlbumName t)] else [])
         @ (if len \<noteq> 0 then [bracket ''length'' (fmt02d (quot len 60) @ [58] @ fmt02d (len - 60 * quot len 60))] else [])
         @ (if WinningLane song \<noteq> [] then bracket ''source'' (WinningLane song) # upstreamTag song else [])
         @ (if \<not> isZero (FetchedAt song) then [bracket ''fetched'' (weRFC3339 env (FetchedAt song))] else [])
         @ [bracket ''re'' (lit ''canticle''), bracket ''ve'' (weVersion env)]
         @ (if ISRC t \<noteq> [] then [bracket ''isrc'' (ISRC t)] else [])
         @ (if RecordingMBID t \<noteq> [] then [bracket ''mbid'' (RecordingMBID t)] else []))"

definition markerTags :: "Song \<Rightarrow> gotext list" where
  "markerTags song =
     (let src = (if WinningLane song = detectorLaneName \<or> DetectorVersion song \<noteq> [] then SourceDetector else WinningLane song)
      in [bracket ''by'' (lit ''canticle'')]
         @ (if src \<noteq> [] then bracket ''source'' src # upstreamTag song else [])
         @ (if DetectorVersion song \<noteq> [] then [bracket ''dv'' (DetectorVersion song)] else []))"

definition fileText :: "gotext list \<Rightarrow> gotext \<Rightarrow> gotext" where
  "fileText tags body = concat (map (\<lambda>t. t @ [10]) tags) @ body"

section \<open>Pairs of sidecars\<close>

definition oppositeSidecar :: "gotext \<Rightarrow> gotext" where
  "oppositeSidecar fp = (case KindOf fp of KindLineSynced \<Rightarrow> StemOf fp @ ExtUnsynced
     | KindUnsynced \<Rightarrow> StemOf fp @ ExtLineSynced | _ \<Rightarrow> [])"

definition staleSidecars :: "Disk \<Rightarrow> gotext \<Rightarrow> Listing \<Rightarrow> gotext list" where
  "staleSidecars d fp l = (let opp = oppositeSidecar fp in if opp = [] then [] else Variants d l opp)"

definition settledOf :: "Disk \<Rightarrow> Listing \<Rightarrow> gotext \<Rightarrow> gotext option" where
  "settledOf d l cand =
     (if osStat d cand \<noteq> StatNotExist then Some cand
      else List.find (\<lambda>v. v \<noteq> cand) (Variants d l cand))"

definition settledSidecar :: "Disk \<Rightarrow> gotext \<Rightarrow> Listing \<Rightarrow> gotext option" where
  "settledSidecar d fp l =
     (case settledOf d l (StemOf fp @ Ext KindUnsynced) of Some p \<Rightarrow> Some p
      | None \<Rightarrow> settledOf d l (StemOf fp @ Ext KindLineSynced))"

section \<open>The companion\<close>

record companionPlan =
  cpPath :: gotext
  cpRemoves :: "gotext list"
  cpWrite :: bool

definition planCompanion :: "LRCWriter \<Rightarrow> Disk \<Rightarrow> Song \<Rightarrow> gotext \<Rightarrow> bool \<Rightarrow> Listing \<Rightarrow> companionPlan" where
  "planCompanion w d song fp synced l =
     (if \<not> Active KindWordSynced then \<lparr>cpPath = [], cpRemoves = [], cpWrite = False\<rparr>
      else let path = StemOf fp @ ExtWordSynced; foreign = (companionOwnershipOf d path = companionForeign);
               write = (\<not> foreign \<and> synced \<and> lwCompanion w \<and> HasQualifyingWords song)
           in \<lparr>cpPath = (if write then path else []), cpRemoves = ownedCompanions d fp l, cpWrite = write\<rparr>)"

section \<open>Rungs\<close>

definition RungOfSong :: "Song \<Rightarrow> Rung" where
  "RungOfSong song =
     (if Instrumental (STrack song) = 1 then RungInstrumental
      else if Subtitles song \<noteq> [] then (if HasQualifyingWords song then RungWord else RungLine)
      else if LyricsBody song \<noteq> [] then RungUnsynced else RungNone)"

definition candidateRung :: "LRCWriter \<Rightarrow> Song \<Rightarrow> companionPlan \<Rightarrow> Rung" where
  "candidateRung w song c =
     (let r = RungOfSong song in if r = RungWord \<and> \<not> lwWordSync w \<and> \<not> cpWrite c then RungLine else r)"

definition kept :: "Rung \<Rightarrow> bool \<Rightarrow> bool \<Rightarrow> KeptError" where
  "kept r synced judged = \<lparr>keOnDisk = r, keSynced = synced, keJudged = judged, keManual = False\<rparr>"

definition keptManual :: KeptError where
  "keptManual = \<lparr>keOnDisk = RungInstrumental, keSynced = False, keJudged = True, keManual = True\<rparr>"

definition classifySidecar :: "Disk \<Rightarrow> gotext \<Rightarrow> bool \<Rightarrow> KeptError" where
  "classifySidecar d path synced =
     (let keep = kept (if synced then RungWord else RungUnsynced) synced False
      in case readRegularNoFollow d path None of Inl _ \<Rightarrow> keep
         | Inr s \<Rightarrow>
            (if synced then
               (case classifyLRCContent d path (parseSyncedLRC s) of Inl _ \<Rightarrow> keep
                | Inr TierWord \<Rightarrow> kept RungWord True True
                | Inr TierLine \<Rightarrow> kept RungLine True True
                | Inr TierUnsynced \<Rightarrow> kept RungUnsynced True True)
             else if containsText InstrumentalMarker s then kept RungInstrumental False True
             else kept RungUnsynced False True))"

definition considerKept :: "KeptError \<Rightarrow> KeptError \<Rightarrow> KeptError" where
  "considerKept best k = (if rungRank (keOnDisk best) < rungRank (keOnDisk k) then k else best)"

fun liftLoop :: "Disk \<Rightarrow> gotext list \<Rightarrow> gotext list \<Rightarrow> KeptError \<Rightarrow> KeptError" where
  "liftLoop d judged [] best = best"
| "liftLoop d judged (v # vs) best =
     (if v \<in> set judged then liftLoop d judged vs best
      else case readRegularNoFollow d v None of
        Inl _ \<Rightarrow> kept RungWord True False
      | Inr s \<Rightarrow> liftLoop d judged vs (if ClassifySynced (parseSyncedLRC s) = TierLine then kept RungWord True True else best))"

definition companionLift :: "Disk \<Rightarrow> gotext \<Rightarrow> Listing \<Rightarrow> gotext list \<Rightarrow> KeptError" where
  "companionLift d fp l judged = liftLoop d judged (Variants d l (StemOf fp @ ExtLineSynced)) (kept RungNone False True)"

text \<open>The files a write to \<open>fp\<close> replaces or removes besides companions, by kind.\<close>

definition judgedFiles :: "Disk \<Rightarrow> gotext \<Rightarrow> Listing \<Rightarrow> gotext list" where
  "judgedFiles d fp l = (if occupied d fp then [fp] else []) @ staleSidecars d fp l"

definition classifyOnDisk :: "Disk \<Rightarrow> gotext \<Rightarrow> Listing \<Rightarrow> gotext list \<Rightarrow> KeptError" where
  "classifyOnDisk d fp l removes =
     (let files = judgedFiles d fp l;
          lrcs = filter (\<lambda>p. KindOf p = KindLineSynced) files; txts = filter (\<lambda>p. KindOf p \<noteq> KindLineSynced) files;
          best = foldl considerKept (kept RungNone False True) (map (\<lambda>v. classifySidecar d v True) lrcs);
          best = foldl considerKept best (map (\<lambda>v. classifySidecar d v False) txts)
      in if removes = [] then best else considerKept best (companionLift d fp l lrcs))"

definition RungOnDisk :: "Disk \<Rightarrow> gotext \<Rightarrow> Listing \<Rightarrow> Rung" where
  "RungOnDisk d fp l = keOnDisk (classifyOnDisk d fp l (ownedCompanions d fp l))"

definition stemOccupant :: "Disk \<Rightarrow> gotext \<Rightarrow> Listing \<Rightarrow> KeptError" where
  "stemOccupant d fp l =
     (let stem = StemOf fp;
          best = foldl considerKept (kept RungNone False True)
            (map (\<lambda>v. classifySidecar d v True) (Variants d l (stem @ Ext KindLineSynced))
             @ map (\<lambda>v. classifySidecar d v False) (Variants d l (stem @ Ext KindUnsynced)))
      in if keOnDisk best = RungNone \<and> Active KindWordSynced \<and> Variants d l (stem @ ExtWordSynced) \<noteq> []
         then kept RungWord True False else best)"

section \<open>The guard of manual markers\<close>

definition markersFor :: "Disk \<Rightarrow> gotext \<Rightarrow> Listing \<Rightarrow> gotext list" where
  "markersFor d fp l = staleSidecars d fp l @ (if KindOf fp \<noteq> KindLineSynced then Variants d l fp else [])"

definition refuseManualMarker :: "LRCWriter \<Rightarrow> Disk \<Rightarrow> gotext \<Rightarrow> Listing \<Rightarrow> KeptError option" where
  "refuseManualMarker w d fp l =
     (if lwAllowManual w then None
      else if \<exists>p \<in> set (markersFor d fp l). KindOf p \<noteq> KindLineSynced \<and> ManualMarkerOnDisk d p then Some keptManual
      else None)"

definition recheckManualMarker :: "LRCWriter \<Rightarrow> Disk \<Rightarrow> gotext \<Rightarrow> Listing \<Rightarrow> KeptError option" where
  "recheckManualMarker w d fp l =
     (case refuseManualMarker w d fp l of Some k \<Rightarrow> Some k
      | None \<Rightarrow> (if \<not> lwAllowManual w \<and> KindOf fp \<noteq> KindLineSynced \<and> ManualMarkerOnDisk d fp then Some keptManual else None))"

end
