(* ===== verification/LyricWrite.thy ===== *)
theory LyricWrite
  imports LyricWriter
begin

text \<open>
  Carrying out a write (\<open>WriteLRC\<close> and its variants, \<open>writeAtomicGuarded\<close>, the bump of the audio file's
  time) and the calls that only read (\<open>Occupant\<close>, \<open>WordsLanded\<close>) or remove (\<open>RemoveManualMarker\<close>,
  \<open>RemoveReplacedSidecar\<close>).
\<close>

section \<open>Planning\<close>

datatype ContentKind = CInstrumental | CSynced | CUnsynced | CNothing

definition selectContent :: "Song \<Rightarrow> ContentKind" where
  "selectContent song =
     (if Instrumental (STrack song) = 1 then CInstrumental
      else if Subtitles song \<noteq> [] then CSynced
      else if LyricsBody song \<noteq> [] then CUnsynced else CNothing)"

definition contentBody :: "LRCWriter \<Rightarrow> Song \<Rightarrow> gotext" where
  "contentBody w song = (case selectContent song of CInstrumental \<Rightarrow> InstrumentalMarker @ [10]
     | CSynced \<Rightarrow> syncedBody song (lwBilingual w) (lwWordSync w) | _ \<Rightarrow> LyricsBody song)"

definition contentTags :: "WriteEnv \<Rightarrow> Song \<Rightarrow> gotext list" where
  "contentTags env song = (case selectContent song of CInstrumental \<Rightarrow> markerTags song | CSynced \<Rightarrow> syncedTags env song | _ \<Rightarrow> [])"

record WritePlan =
  wpDir :: gotext
  wpName :: gotext
  wpPath :: gotext
  wpListing :: Listing
  wpTags :: "gotext list"
  wpBody :: gotext
  wpCompanion :: companionPlan

definition placeWrite :: "WriteEnv \<Rightarrow> LRCWriter \<Rightarrow> Disk \<Rightarrow> Song \<Rightarrow> gotext \<Rightarrow> gotext \<Rightarrow> bool \<Rightarrow> WriteRes + gotext \<times> gotext" where
  "placeWrite env w d song fname dir synced =
     (case SidecarName (weNFKC env) (ArtistName (STrack song)) (TrackName (STrack song)) fname synced of
        Inl e \<Rightarrow> Inl (WriteFailed e)
      | Inr fn \<Rightarrow> (case resolveOutdir env w d dir of Inl r \<Rightarrow> Inl r | Inr out \<Rightarrow> Inr (out, fn)))"

definition planWrite :: "WriteEnv \<Rightarrow> LRCWriter \<Rightarrow> Disk \<Rightarrow> Song \<Rightarrow> gotext \<Rightarrow> gotext \<Rightarrow> WriteRes + WritePlan" where
  "planWrite env w d song fname dir =
     (if selectContent song = CNothing then Inl (WriteFailed (Opaque (lit ''nothing to save'')))
      else if (case lwBlocks w of None \<Rightarrow> False | Some blocked \<Rightarrow> blocked song) then Inl (Refused (Sentinel LyrErrBlocked))
      else let decision = fst (DecidePromotion song); demoted = (decision = DemoteToUnsynced);
               synced = (selectContent song = CSynced \<and> \<not> demoted)
           in if decision = Quarantine then Inl Wrote
              else if demoted \<and> unsyncedFallbackBody song = [] then Inl Wrote
              else case placeWrite env w d song fname dir synced of Inl r \<Rightarrow> Inl r
              | Inr (out, fn) \<Rightarrow>
                 (let fp = pathJoin out fn; l = ListDir d (pathDir fp)
                  in if demoted \<and> settledSidecar d fp l \<noteq> None then Inl Wrote
                     else Inr \<lparr>wpDir = out, wpName = fn, wpPath = fp, wpListing = l,
                            wpTags = (if demoted then [] else contentTags env song),
                            wpBody = (if demoted then unsyncedFallbackBody song else contentBody w song),
                            wpCompanion = planCompanion w d song fp synced l\<rparr>))"

section \<open>The guard against downgrades\<close>

definition foundOnDisk :: "LRCWriter \<Rightarrow> Disk \<Rightarrow> WritePlan \<Rightarrow> KeptError" where
  "foundOnDisk w d pl =
     (let have = classifyOnDisk d (wpPath pl) (wpListing pl) (cpRemoves (wpCompanion pl))
      in if lwOnlyIfAbsent w \<and> keOnDisk have = RungNone then stemOccupant d (wpPath pl) (wpListing pl) else have)"

definition refuseDowngrade :: "LRCWriter \<Rightarrow> Disk \<Rightarrow> Song \<Rightarrow> WritePlan \<Rightarrow> KeptError option" where
  "refuseDowngrade w d song pl =
     (if lwForce w then None
      else let found = foundOnDisk w d pl
           in if rungRank (candidateRung w song (wpCompanion pl)) < rungRank (keOnDisk found) \<or>
                 lwOnlyIfAbsent w \<and> keOnDisk found \<noteq> RungNone
              then Some found else None)"

section \<open>Atomic writes\<close>

definition firstFault :: "(WriteStep \<Rightarrow> goerr option) \<Rightarrow> WriteStep list \<Rightarrow> goerr option" where
  "firstFault faults steps = (case List.find (\<lambda>s. faults s \<noteq> None) steps of None \<Rightarrow> None | Some s \<Rightarrow> faults s)"

text \<open>The guard is given the disk as it is right before the old file goes.\<close>

definition writeAtomicGuarded :: "WriteEnv \<Rightarrow> (WriteStep \<Rightarrow> goerr option) \<Rightarrow> gotext \<Rightarrow> gotext \<Rightarrow> gotext list \<Rightarrow> gotext
    \<Rightarrow> (Disk \<Rightarrow> KeptError option) \<Rightarrow> Disk \<Rightarrow> WriteRes option \<times> Disk" where
  "writeAtomicGuarded env faults out fn tags body guard d =
     (let fp = pathJoin out fn; tmp = pathJoin out (weTemp env fn)
      in case faults StepCreate of Some e \<Rightarrow> (Some (WriteFailed (Wrapf (lit ''creating temp file: '') e [])), d)
         | None \<Rightarrow>
           (let steps = (if tags = [] then [] else [StepTag]) @ [StepContent, StepClose, StepChmod];
                d1 = diskPut tmp (Regular (weIno env) 384 (Some [])) d
            in case firstFault faults steps of Some e \<Rightarrow> (Some (WriteFailed e), diskDel tmp d1)
               | None \<Rightarrow>
                 (let d2 = diskPut tmp (Regular (weIno env) 438 (Some (fileText tags body))) d1
                  in case guard d2 of Some k \<Rightarrow> (Some (Kept k), diskDel tmp d2)
                     | None \<Rightarrow>
                       (case osRemove (faults StepRemove) fp d2 of
                          (Inl e, d3) \<Rightarrow> (Some (WriteFailed (Wrapf (lit ''removing existing output: '') e [])), diskDel tmp d3)
                        | (Inr _, d3) \<Rightarrow>
                          (case faults StepRename of
                             Some e \<Rightarrow> (Some (WriteFailed (Wrapf (lit ''renaming temp file into place: '') e [])), diskDel tmp d3)
                           | None \<Rightarrow> (None, diskPut fp (Regular (weIno env) 438 (Some (fileText tags body))) (diskDel tmp d3)))))))"

definition writeAtomic :: "WriteEnv \<Rightarrow> (WriteStep \<Rightarrow> goerr option) \<Rightarrow> gotext \<Rightarrow> gotext \<Rightarrow> gotext list \<Rightarrow> gotext \<Rightarrow> Disk \<Rightarrow> WriteRes option \<times> Disk" where
  "writeAtomic env faults out fn tags body d = writeAtomicGuarded env faults out fn tags body (\<lambda>_. None) d"

section \<open>The audio file's time\<close>

definition maxPriorSidecarBytes :: nat where "maxPriorSidecarBytes = 4194304"

definition readCapped :: "Disk \<Rightarrow> gotext \<Rightarrow> gotext option" where
  "readCapped d p = (case readRegularNoFollow d p (Some maxPriorSidecarBytes) of Inl _ \<Rightarrow> None | Inr s \<Rightarrow> Some s)"

definition keyStart :: "rune \<Rightarrow> bool" where
  "keyStart c \<longleftrightarrow> 65 \<le> c \<and> c \<le> 90 \<or> 97 \<le> c \<and> c \<le> 122"

definition keyRune :: "rune \<Rightarrow> bool" where
  "keyRune c \<longleftrightarrow> keyStart c \<or> isDigit c \<or> c = 95 \<or> c = 45"

text \<open>The key of a line that the header pattern matches.\<close>

definition idTagLine :: "gotext \<Rightarrow> gotext option" where
  "idTagLine line =
     (let t = rev (dropWhile (\<lambda>c. c \<in> {9, 10, 12, 13, 32}) (rev line)); key = takeWhile keyRune (tl t);
          rest = dropWhile keyRune (tl t)
      in if t \<noteq> [] \<and> hd t = 91 \<and> key \<noteq> [] \<and> keyStart (hd key) \<and> length rest \<ge> 2 \<and> hd rest = 58 \<and> last rest = 93
         then Some key else None)"

definition txtHeaderKeys :: "gotext set" where
  "txtHeaderKeys = lit ` {''by'', ''source'', ''upstream'', ''dv'', ''fetched'', ''re'', ''ve'', ''ar'', ''ti'', ''al'', ''length'', ''isrc'', ''mbid''}"

function dropCRLF :: "gotext \<Rightarrow> gotext" where
  "dropCRLF [] = []"
| "dropCRLF [c] = [c]"
| "dropCRLF (a # b # cs) = (if a = 13 \<and> b = 10 then 10 # dropCRLF cs else a # dropCRLF (b # cs))"
  by pat_completeness auto
termination by lexicographic_order

fun splitLF :: "gotext \<Rightarrow> gotext list" where
  "splitLF [] = [[]]"
| "splitLF (c # cs) = (if c = 10 then [] # splitLF cs else case splitLF cs of [] \<Rightarrow> [[c]] | p # ps \<Rightarrow> (c # p) # ps)"

definition lyricBody :: "gotext \<Rightarrow> gotext \<Rightarrow> gotext" where
  "lyricBody path s =
     (let txt = equalFold (pathExt path) (lit ''.txt'');
          body = filter (\<lambda>line. case idTagLine line of None \<Rightarrow> True | Some k \<Rightarrow> txt \<and> toLower k \<notin> txtHeaderKeys) (splitLF (dropCRLF s))
      in trimSpace (joinWith [10] (map (\<lambda>line. rev (dropWhile (\<lambda>c. c = 32 \<or> c = 9) (rev line))) body)))"

record priorSidecar =
  prActive :: bool
  prExisted :: bool
  prReplacedOther :: bool
  prBody :: "gotext option"

definition noPrior :: priorSidecar where
  "noPrior = \<lparr>prActive = False, prExisted = False, prReplacedOther = False, prBody = None\<rparr>"

definition snapshotPrior :: "LRCWriter \<Rightarrow> Disk \<Rightarrow> Song \<Rightarrow> gotext \<Rightarrow> gotext list \<Rightarrow> priorSidecar" where
  "snapshotPrior w d song fp stale =
     (if \<not> lwBump w \<or> AudioPath song = [] then noPrior
      else \<lparr>prActive = True, prExisted = (osLstat d fp \<noteq> Absent), prReplacedOther = (stale \<noteq> []),
             prBody = (case osLstat d fp of Found e \<Rightarrow> (if isRegular e then map_option (lyricBody fp) (readCapped d fp) else None)
                       | _ \<Rightarrow> None)\<rparr>)"

definition sameDir :: "WriteEnv \<Rightarrow> gotext \<Rightarrow> gotext \<Rightarrow> bool" where
  "sameDir env a b = (let a = pathClean a; b = pathClean b
     in a = b \<or> (case (weEval env a, weEval env b) of (Some ra, Some rb) \<Rightarrow> ra = rb | _ \<Rightarrow> False))"

definition sidecarBelongsTo :: "WriteEnv \<Rightarrow> gotext \<Rightarrow> gotext \<Rightarrow> bool" where
  "sidecarBelongsTo env audio p =
     (let stem = (\<lambda>q. weLower env (trimSuffix (pathBase q) (pathExt (pathBase q))))
      in sameDir env (pathDir audio) (pathDir p) \<and> stem audio = stem p)"

definition audioRegular :: "Disk \<Rightarrow> gotext \<Rightarrow> bool" where
  "audioRegular d p = (case osLstat d p of Found (Regular i m s) \<Rightarrow> True | Found (Symlink (LinkFile s)) \<Rightarrow> True | _ \<Rightarrow> False)"

definition bumpIfCorrected :: "WriteEnv \<Rightarrow> gotext \<Rightarrow> gotext \<Rightarrow> priorSidecar \<Rightarrow> WriterState \<Rightarrow> WriterState" where
  "bumpIfCorrected env audio fp p st =
     (if \<not> prActive p \<or> \<not> prExisted p \<and> \<not> prReplacedOther p then st
      else if \<not> sidecarBelongsTo env audio fp then st
      else let new = readCapped (wsDisk st) fp;
               changed = prReplacedOther p \<or> prBody p = None \<or> new = None \<or> map_option (lyricBody fp) new \<noteq> prBody p
           in if \<not> changed then st
              else if \<not> audioRegular (wsDisk st) audio then st
              else let st1 = st\<lparr>wsReg := recordPaths (weCanon env) (weAudioNow env) (weAudioPrune env) [audio] (wsReg st)\<rparr>
                   in if weChtimes env \<noteq> None then st1 else st1\<lparr>wsTouched := wsTouched st1 @ [audio]\<rparr>)"

section \<open>Removals\<close>

text \<open>The companions: the first error ends the write.\<close>

fun removeCompanions :: "WriteEnv \<Rightarrow> gotext list \<Rightarrow> Disk \<Rightarrow> WriteRes option \<times> Disk" where
  "removeCompanions env [] d = (None, d)"
| "removeCompanions env (p # ps) d = (case osRemove (weRemove env p) p d of
     (Inl e, d') \<Rightarrow> (Some (WriteFailed (Wrapf (lit ''removing stale word-synced companion: '') e [])), d')
   | (Inr _, d') \<Rightarrow> removeCompanions env ps d')"

text \<open>The opposite sidecars: a manual marker ends the write, an error does not.\<close>

fun removeStale :: "WriteEnv \<Rightarrow> LRCWriter \<Rightarrow> gotext list \<Rightarrow> Disk \<Rightarrow> KeptError option \<times> Disk" where
  "removeStale env w [] d = (None, d)"
| "removeStale env w (p # ps) d =
     (if \<not> lwAllowManual w \<and> ManualMarkerOnDisk d p then (Some keptManual, d)
      else removeStale env w ps (snd (osRemove (weRemove env p) p d)))"

section \<open>Carrying out\<close>

fun companionFailed :: "WriteRes \<Rightarrow> WriteRes" where
  "companionFailed (WriteFailed e) = WriteFailed (Wrapf (lit ''writing word-synced companion: '') e [])"
| "companionFailed r = r"

definition writeCompanion :: "WriteEnv \<Rightarrow> LRCWriter \<Rightarrow> Song \<Rightarrow> WritePlan \<Rightarrow> WriterState \<Rightarrow> WriteRes \<times> WriterState" where
  "writeCompanion env w song pl st =
     (if \<not> cpWrite (wpCompanion pl) then (Wrote, st)
      else case writeAtomic env (weCompanionStep env) (wpDir pl) (pathBase (cpPath (wpCompanion pl))) (wpTags pl)
             (syncedBody song (lwBilingual w) True) (wsDisk st) of
        (Some r, d) \<Rightarrow> (companionFailed r, st\<lparr>wsDisk := d\<rparr>)
      | (None, d) \<Rightarrow> (Wrote, st\<lparr>wsDisk := d\<rparr>))"

definition recordedPaths :: "WritePlan \<Rightarrow> gotext list \<Rightarrow> gotext list" where
  "recordedPaths pl stale = [wpPath pl, oppositeSidecar (wpPath pl), cpPath (wpCompanion pl)] @ stale @ cpRemoves (wpCompanion pl)"

definition carryOut :: "WriteEnv \<Rightarrow> LRCWriter \<Rightarrow> Song \<Rightarrow> WritePlan \<Rightarrow> WriterState \<Rightarrow> WriteRes \<times> WriterState" where
  "carryOut env w song pl st =
     (let fp = wpPath pl; l = wpListing pl; stale = staleSidecars (wsDisk st) fp l;
          prior = snapshotPrior w (wsDisk st) song fp stale;
          st1 = st\<lparr>wsReg := recordPaths (weCanon env) (weNow env) (wePrune env) (recordedPaths pl stale) (wsReg st)\<rparr>
      in case removeCompanions env (cpRemoves (wpCompanion pl)) (wsDisk st1) of
           (Some r, d) \<Rightarrow> (r, st1\<lparr>wsDisk := d\<rparr>)
         | (None, d) \<Rightarrow>
           (case writeAtomicGuarded env (weMain env) (wpDir pl) (wpName pl) (wpTags pl) (wpBody pl)
                   (\<lambda>d. recheckManualMarker w d fp l) d of
              (Some r, d) \<Rightarrow> (r, st1\<lparr>wsDisk := d\<rparr>)
            | (None, d) \<Rightarrow>
              (case removeStale env w stale (weWritten env d) of
                 (Some k, d) \<Rightarrow> (Kept k, st1\<lparr>wsDisk := d\<rparr>)
               | (None, d) \<Rightarrow> writeCompanion env w song pl (bumpIfCorrected env (AudioPath song) fp prior (st1\<lparr>wsDisk := d\<rparr>)))))"

definition WriteLRC :: "WriteEnv \<Rightarrow> LRCWriter \<Rightarrow> Song \<Rightarrow> gotext \<Rightarrow> gotext \<Rightarrow> WriterState \<Rightarrow> WriteRes \<times> WriterState" where
  "WriteLRC env w song fname dir st =
     (case planWrite env w (wsDisk st) song fname dir of Inl r \<Rightarrow> (r, st)
      | Inr pl \<Rightarrow>
        (case refuseManualMarker w (wsDisk st) (wpPath pl) (wpListing pl) of Some k \<Rightarrow> (Kept k, st)
         | None \<Rightarrow>
           (let st1 = st\<lparr>wsDisk := weProbed env (wsDisk st)\<rparr>
            in case refuseDowngrade w (wsDisk st1) song pl of Some k \<Rightarrow> (Kept k, st1)
               | None \<Rightarrow> carryOut env w song pl st1)))"

definition WriteLRCNoDowngrade :: "WriteEnv \<Rightarrow> LRCWriter \<Rightarrow> Song \<Rightarrow> gotext \<Rightarrow> gotext \<Rightarrow> WriterState \<Rightarrow> WriteRes \<times> WriterState" where
  "WriteLRCNoDowngrade env w = WriteLRC env (w\<lparr>lwForce := False\<rparr>)"

definition WriteLRCIfAbsent :: "WriteEnv \<Rightarrow> LRCWriter \<Rightarrow> Song \<Rightarrow> gotext \<Rightarrow> gotext \<Rightarrow> WriterState \<Rightarrow> WriteRes \<times> WriterState" where
  "WriteLRCIfAbsent env w = WriteLRC env (w\<lparr>lwForce := False, lwOnlyIfAbsent := True\<rparr>)"

definition WriteManualMarker :: "WriteEnv \<Rightarrow> LRCWriter \<Rightarrow> Song \<Rightarrow> gotext \<Rightarrow> gotext \<Rightarrow> WriterState \<Rightarrow> WriteRes \<times> WriterState" where
  "WriteManualMarker env w song fname dir st =
     (if Instrumental (STrack song) \<noteq> 1 \<or> WinningLane song \<noteq> ManualLaneName
      then (WriteFailed (Opaque (lit ''manual marker write needs an instrumental song from the manual lane'')), st)
      else WriteLRC env (w\<lparr>lwForce := True, lwAllowManual := True\<rparr>) song fname dir st)"

section \<open>Reading and removing\<close>

definition Occupant :: "WriteEnv \<Rightarrow> LRCWriter \<Rightarrow> Song \<Rightarrow> gotext \<Rightarrow> gotext \<Rightarrow> Disk \<Rightarrow> WriteRes + KeptError option" where
  "Occupant env w song fname dir d =
     (case placeWrite env w d song fname dir (Instrumental (STrack song) \<noteq> 1 \<and> Subtitles song \<noteq> []) of Inl r \<Rightarrow> Inl r
      | Inr (out, fn) \<Rightarrow>
        (let fp = pathJoin out fn; l = ListDir d (pathDir fp)
         in case refuseManualMarker w d fp l of Some k \<Rightarrow> Inr (Some k)
            | None \<Rightarrow>
              (let found = classifyOnDisk d fp l (ownedCompanions d fp l);
                   found = (if keOnDisk found = RungNone then stemOccupant d fp l else found)
               in Inr (if keOnDisk found = RungNone then None else Some found))))"

definition WordsLanded :: "WriteEnv \<Rightarrow> LRCWriter \<Rightarrow> Song \<Rightarrow> gotext \<Rightarrow> gotext \<Rightarrow> Disk \<Rightarrow> bool" where
  "WordsLanded env w song fname dir d =
     (if \<not> HasQualifyingWords song then False
      else if lwWordSync w then True
      else if \<not> lwCompanion w then False
      else case placeWrite env w d song fname dir True of Inl _ \<Rightarrow> False
           | Inr (out, fn) \<Rightarrow> OwnedCompanionOf d (pathJoin out fn) \<noteq> [])"

text \<open>\<open>between\<close> is what happens to the disk between the reading of the marker and the last check.\<close>

definition removeCheckedMarker :: "WriteEnv \<Rightarrow> gotext \<Rightarrow> nat \<Rightarrow> WriterState \<Rightarrow> (WriteRes + bool) \<times> WriterState" where
  "removeCheckedMarker env p checked st =
     (case osLstat (wsDisk st) p of
        Absent \<Rightarrow> (Inr False, st)
      | LstatFailed \<Rightarrow> (Inl (WriteFailed (Opaque (lit ''lstat failed''))), st)
      | Found e \<Rightarrow>
         (if (case e of Regular i m s \<Rightarrow> i \<noteq> checked | _ \<Rightarrow> True)
          then (Inl (Refused (Opaque (lit ''lyrics: the manual marker changed while being removed; nothing was removed''))), st)
          else let st1 = st\<lparr>wsReg := recordPaths (weCanon env) (weNow env) (wePrune env) [p] (wsReg st)\<rparr>
               in case osRemove (weRemove env p) p (wsDisk st1) of
                    (Inl err, d) \<Rightarrow> (Inl (WriteFailed err), st1\<lparr>wsDisk := d\<rparr>)
                  | (Inr b, d) \<Rightarrow> (Inr b, st1\<lparr>wsDisk := d\<rparr>)))"

definition RemoveManualMarker :: "WriteEnv \<Rightarrow> (Disk \<Rightarrow> Disk) \<Rightarrow> gotext \<Rightarrow> WriterState \<Rightarrow> (WriteRes + bool) \<times> WriterState" where
  "RemoveManualMarker env between p st =
     (case readRegularNoFollowInfo (wsDisk st) p (Some maxManualMarkerBytes) of
        Inl _ \<Rightarrow> (Inr False, st)
      | Inr (s, i) \<Rightarrow> (if \<not> isManualMarker s then (Inr False, st)
          else removeCheckedMarker env p i (st\<lparr>wsDisk := between (wsDisk st)\<rparr>)))"

definition RemoveReplacedSidecar :: "WriteEnv \<Rightarrow> gotext \<Rightarrow> WriterState \<Rightarrow> goerr option \<times> WriterState" where
  "RemoveReplacedSidecar env p st =
     (let st1 = st\<lparr>wsReg := recordPaths (weCanon env) (weNow env) (wePrune env) [p] (wsReg st)\<rparr>
      in if ManualMarkerOnDisk (wsDisk st1) p then (None, st1)
         else case osRemove (weRemove env p) p (wsDisk st1) of
                (Inl e, d) \<Rightarrow> (Some e, st1\<lparr>wsDisk := d\<rparr>) | (Inr _, d) \<Rightarrow> (None, st1\<lparr>wsDisk := d\<rparr>))"

end
