(* ===== verification/LyricGuards.thy ===== *)
theory LyricGuards
  imports LyricWrite "HOL-Library.Code_Target_Nat"
begin

text \<open>
  What a write touches: the names a plan uses, and the frame of each step of a write. On them rest the
  guarantees on the files of others: a manual marker is never displaced, and only the files judged are
  changed.
\<close>

section \<open>Names of a plan\<close>

lemma ext_simps [simp]: "Ext KindLineSynced = ExtLineSynced" "Ext KindUnsynced = ExtUnsynced" "Ext KindWordSynced = ExtWordSynced"
  "Active KindWordSynced"
  by (simp_all add: Ext_def Active_def sidecarTable_def)

lemma ext_parts: "ExtLineSynced = 46 # lit ''lrc''" "ExtUnsynced = 46 # lit ''txt''" "ExtWordSynced = 46 # lit ''elrc''"
  by (simp_all add: ExtLineSynced_def ExtUnsynced_def ExtWordSynced_def lit_def)

definition sidecarExts :: "gotext set" where "sidecarExts = {ExtLineSynced, ExtUnsynced, ExtWordSynced}"

lemma sidecarExt_shape: "e \<in> sidecarExts \<Longrightarrow> \<exists>c x. e = 46 # c # x \<and> 46 \<notin> set (c # x) \<and> 47 \<notin> set (c # x)"
  by (auto simp: sidecarExts_def ext_parts lit_def)

lemma swap_ext:
  assumes "properPath fp" "e \<in> sidecarExts"
  shows "pathExt (StemOf fp @ e) = e" "StemOf (StemOf fp @ e) = StemOf fp" "pathDir (StemOf fp @ e) = pathDir fp"
    "properPath (StemOf fp @ e)" "pathBase (StemOf fp @ e) = StemOf (pathBase fp) @ e"
proof -
  obtain c x where e: "e = 46 # c # x" "46 \<notin> set (c # x)" "47 \<notin> set (c # x)" using sidecarExt_shape [OF assms(2)] by blast
  show "pathExt (StemOf fp @ e) = e" "StemOf (StemOf fp @ e) = StemOf fp"
    unfolding e(1) using ext_of_dot [OF e(2, 3)] stem_of_dot [OF e(2, 3)] by auto
  let ?n = "StemOf (pathBase fp) @ e"
  have "baseName (pathBase fp)" using assms(1) by (simp add: properPath_def)
  then have "47 \<notin> set (StemOf (pathBase fp))" using stem_ext [of "pathBase fp"] by (metis Un_iff baseName_def set_append slash_def)
  then have n: "baseName ?n" using e by (auto simp: baseName_def slash_def dotdot_def append_eq_Cons_conv)
  have j: "StemOf fp @ e = pathJoin (pathDir fp) ?n"
    using proper_split(3) [OF assms(1)] pathJoin_base [OF n] by simp
  show "pathDir (StemOf fp @ e) = pathDir fp" "properPath (StemOf fp @ e)" "pathBase (StemOf fp @ e) = ?n"
    unfolding j by (simp_all add: pathDir_join [OF n] properPath_join [OF n] pathBase_join [OF n])
qed

lemma kind_of_ext: "KindOf p = (if toLower (pathExt p) = ExtLineSynced then KindLineSynced else if toLower (pathExt p) = ExtUnsynced then KindUnsynced
    else if toLower (pathExt p) = ExtWordSynced then KindWordSynced else KindUnknown)"
  by (auto simp: KindOf_def sidecarTable_def)

lemma toLower_exts [simp]: "toLower ExtLineSynced = ExtLineSynced" "toLower ExtUnsynced = ExtUnsynced" "toLower ExtWordSynced = ExtWordSynced"
  by code_simp+

lemma exts_differ [simp]: "ExtLineSynced \<noteq> ExtUnsynced" "ExtUnsynced \<noteq> ExtLineSynced" "ExtWordSynced \<noteq> ExtLineSynced" "ExtWordSynced \<noteq> ExtUnsynced"
  "ExtLineSynced \<noteq> ExtWordSynced" "ExtUnsynced \<noteq> ExtWordSynced"
  by code_simp+

lemma swapped_kind:
  assumes "properPath fp"
  shows "KindOf (StemOf fp @ ExtLineSynced) = KindLineSynced" "KindOf (StemOf fp @ ExtUnsynced) = KindUnsynced"
    "KindOf (StemOf fp @ ExtWordSynced) = KindWordSynced"
  using swap_ext(1) [OF assms] by (simp_all add: kind_of_ext sidecarExts_def)

lemma name_base:
  assumes "SidecarNameFor nfkc a t fname kind = Inr fn"
  shows "baseName fn \<and> pathExt fn = Ext kind"
proof -
  from assms obtain s where fn: "fn = s @ Ext kind" and k: "Ext kind \<noteq> []" and u: "\<not> isUnsafeBaseName fn"
    by (auto simp: SidecarNameFor_def Let_def split: if_splits)
  have "Ext kind \<in> sidecarExts" using k by (cases kind) (auto simp: Ext_def sidecarTable_def sidecarExts_def)
  then obtain c x where e: "Ext kind = 46 # c # x" "46 \<notin> set (c # x)" "47 \<notin> set (c # x)" using sidecarExt_shape by blast
  have "pathExt fn = Ext kind" unfolding fn e(1) by (rule ext_of_dot [OF e(2, 3)])
  moreover have "baseName fn" using u e unfolding fn by (auto simp: baseName_def slash_def dotdot_def isUnsafeBaseName_def append_eq_Cons_conv)
  ultimately show ?thesis by simp
qed

lemma planWrite_facts:
  assumes "planWrite env w d song fname dir = Inr pl"
  shows "wpPath pl = pathJoin (wpDir pl) (wpName pl)" "baseName (wpName pl)" "properPath (wpPath pl)"
    "KindOf (wpPath pl) \<in> {KindLineSynced, KindUnsynced}" "wpListing pl = ListDir d (pathDir (wpPath pl))"
    "\<exists>synced. wpCompanion pl = planCompanion w d song (wpPath pl) synced (wpListing pl)"
proof -
  from assms obtain out fn synced where p: "placeWrite env w d song fname dir synced = Inr (out, fn)"
    and pl: "wpDir pl = out" "wpName pl = fn" "wpPath pl = pathJoin out fn" "wpListing pl = ListDir d (pathDir (pathJoin out fn))"
      "wpCompanion pl = planCompanion w d song (pathJoin out fn) synced (ListDir d (pathDir (pathJoin out fn)))"
    by (auto simp: planWrite_def Let_def split: if_splits sum.splits)
  then have n: "SidecarNameFor (weNFKC env) (ArtistName (STrack song)) (TrackName (STrack song)) fname (if synced then KindLineSynced else KindUnsynced) = Inr fn"
    by (auto simp: placeWrite_def SidecarName_def split: sum.splits)
  note b = name_base [OF n]
  show "wpPath pl = pathJoin (wpDir pl) (wpName pl)" "baseName (wpName pl)" "properPath (wpPath pl)"
    "wpListing pl = ListDir d (pathDir (wpPath pl))" "\<exists>synced. wpCompanion pl = planCompanion w d song (wpPath pl) synced (wpListing pl)"
    using b properPath_join pl by auto
  show "KindOf (wpPath pl) \<in> {KindLineSynced, KindUnsynced}"
    using b ext_join [of fn out] unfolding pl kind_of_ext by (auto split: if_splits)
qed

section \<open>What each step touches\<close>

definition sameOutside :: "gotext set \<Rightarrow> Disk \<Rightarrow> Disk \<Rightarrow> bool" where
  "sameOutside A d d' \<longleftrightarrow> (\<forall>p. p \<notin> A \<longrightarrow> map_of d' p = map_of d p)"

named_theorems frames "what a step of a write leaves alone"

lemma sameOutside_refl [simp]: "sameOutside A d d"
  by (simp add: sameOutside_def)

lemma sameOutside_trans: "sameOutside A d d' \<Longrightarrow> sameOutside A d' d'' \<Longrightarrow> sameOutside A d d''"
  by (simp add: sameOutside_def)

lemma sameOutside_mono: "sameOutside A d d' \<Longrightarrow> A \<subseteq> B \<Longrightarrow> sameOutside B d d'"
  by (auto simp: sameOutside_def)

lemma sameOutside_put: "p \<in> A \<Longrightarrow> sameOutside A d (diskPut p e d)"
  by (auto simp: sameOutside_def disk_simps)

lemma sameOutside_del: "p \<in> A \<Longrightarrow> sameOutside A d (diskDel p d)"
  by (auto simp: sameOutside_def disk_simps)

lemma sameOutside_remove: "p \<in> A \<Longrightarrow> sameOutside A d (snd (osRemove f p d))"
  unfolding sameOutside_def by (metis osRemove_elsewhere)

lemma removeCompanions_frame: "sameOutside (set ps) d (snd (removeCompanions env ps d))"
proof (induction ps arbitrary: d)
  case (Cons p ps)
  have first: "sameOutside (set (p # ps)) d (snd (osRemove (weRemove env p) p d))" by (rule sameOutside_remove) simp
  have "sameOutside (set (p # ps)) d' (snd (removeCompanions env ps d'))" for d'
    using Cons.IH [of d'] by (rule sameOutside_mono) auto
  then show ?case
    using first sameOutside_trans [OF first] by (cases "osRemove (weRemove env p) p d") (auto split: sum.splits)
qed simp

lemma removeStale_frame: "sameOutside (set ps) d (snd (removeStale env w ps d))"
proof (induction ps arbitrary: d)
  case (Cons p ps)
  let ?d = "snd (osRemove (weRemove env p) p d)"
  have first: "sameOutside (set (p # ps)) d ?d" by (rule sameOutside_remove) simp
  have "sameOutside (set (p # ps)) ?d (snd (removeStale env w ps ?d))"
    using Cons.IH by (rule sameOutside_mono) auto
  with sameOutside_trans [OF first] show ?case by simp
qed simp

text \<open>The ways an atomic write can end: as it began, without the old file, or with the new one.\<close>

definition newFile :: "WriteEnv \<Rightarrow> gotext list \<Rightarrow> gotext \<Rightarrow> Entry" where
  "newFile env tags body = Regular (weIno env) 438 (Some (fileText tags body))"

lemma removed_file: "osRemove fault p d = (Inr b, d') \<Longrightarrow> map_of d' = (map_of d)(p := None)"
  by (auto simp: osRemove_def disk_simps split: option.splits Entry.splits bool.splits)

lemma writeAtomic_ends:
  assumes "writeAtomicGuarded env faults out fn tags body guard d = (r, d')"
    and "map_of d tmp = None" "tmp = pathJoin out (weTemp env fn)" "fp = pathJoin out fn" "tmp \<noteq> fp"
  obtains (untouched) "map_of d' = map_of d" "r \<noteq> None"
    | (lost) d2 where "\<exists>e. r = Some (WriteFailed e)" "guard d2 = None" "map_of d' = (map_of d)(fp := None)"
        "map_of d2 = (map_of d)(tmp \<mapsto> newFile env tags body)"
    | (guarded) k d2 where "r = Some (Kept k)" "guard d2 = Some k" "map_of d' = map_of d" "map_of d2 = (map_of d)(tmp \<mapsto> newFile env tags body)"
    | (written) d2 where "r = None" "guard d2 = None" "map_of d' = (map_of d)(fp \<mapsto> newFile env tags body)"
        "map_of d2 = (map_of d)(tmp \<mapsto> newFile env tags body)"
proof -
  let ?d1 = "diskPut tmp (Regular (weIno env) 384 (Some [])) d"
  let ?d2 = "diskPut tmp (newFile env tags body) ?d1"
  have m2: "map_of ?d2 = (map_of d)(tmp \<mapsto> newFile env tags body)" by (simp add: disk_simps)
  have restored: "map_of (diskDel tmp ?d1) = map_of d" "map_of (diskDel tmp ?d2) = map_of d"
    using assms(2) by (auto simp: disk_simps)
  show thesis
  proof (cases "faults StepCreate")
    case (Some e)
    with assms(1) show thesis by (intro untouched) (auto simp: writeAtomicGuarded_def)
  next
    case create: None
    show thesis
    proof (cases "firstFault faults ((if tags = [] then [] else [StepTag]) @ [StepContent, StepClose, StepChmod])")
      case (Some e)
      with create assms(1) restored(1) show thesis by (intro untouched) (auto simp: writeAtomicGuarded_def assms(3) Let_def)
    next
      case steps: None
      show thesis
      proof (cases "guard ?d2")
        case (Some k)
        with create steps assms(1) restored(2) m2 show thesis
          by (intro guarded [of k ?d2]) (auto simp: writeAtomicGuarded_def assms(3) Let_def newFile_def)
      next
        case g: None
        obtain r1 d3 where rm: "osRemove (faults StepRemove) fp ?d2 = (r1, d3)" by fastforce
        note facts = create steps g assms(1) rm
        show thesis
        proof (cases r1)
          case (Inl e)
          with rm have "d3 = ?d2" using osRemove_failed by blast
          with facts Inl restored(2) show thesis
            by (intro untouched) (auto simp: writeAtomicGuarded_def assms(3, 4) Let_def newFile_def)
        next
          case (Inr b)
          with rm have d3: "map_of d3 = (map_of ?d2)(fp := None)" using removed_file by blast
          have del: "map_of (diskDel tmp d3) = (map_of d)(fp := None)"
            using assms(2, 5) m2 d3 by (auto simp: disk_simps)
          show thesis
          proof (cases "faults StepRename")
            case (Some e)
            with facts Inr del m2 show thesis
              by (intro lost [of ?d2]) (auto simp: writeAtomicGuarded_def assms(3, 4) Let_def newFile_def)
          next
            case None
            with facts Inr have "r = None" "d' = diskPut fp (newFile env tags body) (diskDel tmp d3)"
              by (auto simp: writeAtomicGuarded_def assms(3, 4) Let_def newFile_def)
            with g m2 del show thesis by (intro written [of ?d2]) (simp_all add: disk_simps)
          qed
        qed
      qed
    qed
  qed
qed

lemma osRemove_pair: "osRemove fault p d = (r, d') \<Longrightarrow> q \<noteq> p \<Longrightarrow> map_of d' q = map_of d q"
  using osRemove_elsewhere [of q p fault d] by simp

lemma writeAtomic_frame:
  "sameOutside {pathJoin out fn, pathJoin out (weTemp env fn)} d (snd (writeAtomicGuarded env faults out fn tags body guard d))"
proof -
  have "map_of (snd (writeAtomicGuarded env faults out fn tags body guard d)) q = map_of d q"
    if "q \<noteq> pathJoin out fn" "q \<noteq> pathJoin out (weTemp env fn)" for q
    unfolding writeAtomicGuarded_def Let_def
    using that by (auto simp: disk_simps split: option.splits prod.splits sum.splits dest!: osRemove_pair [where q = q])
  then show ?thesis by (auto simp: sameOutside_def)
qed

lemma osRemove_subset: "map_of (snd (osRemove fault p d)) q \<in> {map_of d q, None}"
  by (auto simp: osRemove_def disk_simps split: option.splits Entry.splits bool.splits)

lemma removeCompanions_subset: "map_of (snd (removeCompanions env ps d)) q \<in> {map_of d q, None}"
proof (induction ps arbitrary: d)
  case (Cons p ps)
  show ?case
    using osRemove_subset [of "weRemove env p" p d q] Cons.IH [of "snd (osRemove (weRemove env p) p d)"]
    by (cases "osRemove (weRemove env p) p d") (auto split: sum.splits)
qed simp

section \<open>Temporary files\<close>

text \<open>
  \<open>os.CreateTemp\<close> with the pattern of package \<open>selfwrite\<close> picks a name that ends in \<open>.tmp\<close> and that no entry has.
\<close>

definition tempNames :: "WriteEnv \<Rightarrow> bool" where
  "tempNames env \<longleftrightarrow> (\<forall>n. baseName n \<longrightarrow> baseName (weTemp env n) \<and> pathExt (weTemp env n) = TempExt)"

definition tempFree :: "WriteEnv \<Rightarrow> Disk \<Rightarrow> bool" where
  "tempFree env d \<longleftrightarrow> (\<forall>out n. baseName n \<longrightarrow> map_of d (pathJoin out (weTemp env n)) = None)"

lemma temp_kind: "tempNames env \<Longrightarrow> baseName n \<Longrightarrow> KindOf (pathJoin out (weTemp env n)) = KindUnknown"
proof -
  assume "tempNames env" "baseName n"
  then have "pathExt (pathJoin out (weTemp env n)) = TempExt" by (simp add: tempNames_def ext_join)
  moreover have "toLower TempExt \<notin> sidecarExts" by code_simp
  ultimately show ?thesis by (simp add: kind_of_ext sidecarExts_def)
qed

section \<open>Companions of a plan\<close>

lemma variants_kind:
  assumes "listingWF l" "properPath fp" "e \<in> sidecarExts" "v \<in> set (Variants d l (StemOf fp @ e))"
  shows "KindOf v = KindOf (StemOf fp @ e)" "sameSidecar v (StemOf fp @ e)" "properPath v"
  using Variants_same [OF assms(1) swap_ext(4) [OF assms(2, 3)] assms(4)] sameSidecar_kind by auto

lemma plan_companion:
  assumes "planWrite env w d song fname dir = Inr pl" "diskWF d"
  shows "v \<in> set (cpRemoves (wpCompanion pl)) \<Longrightarrow> KindOf v = KindWordSynced"
    "cpWrite (wpCompanion pl) \<Longrightarrow> cpPath (wpCompanion pl) = StemOf (wpPath pl) @ ExtWordSynced"
    "pathJoin (wpDir pl) (pathBase (StemOf (wpPath pl) @ ExtWordSynced)) = StemOf (wpPath pl) @ ExtWordSynced"
proof -
  note facts = planWrite_facts [OF assms(1)]
  have e: "ExtWordSynced \<in> sidecarExts" by (simp add: sidecarExts_def)
  have l: "listingWF (wpListing pl)" unfolding facts(5) by (rule ListDir_wf [OF assms(2)])
  show "v \<in> set (cpRemoves (wpCompanion pl)) \<Longrightarrow> KindOf v = KindWordSynced"
    using facts(6) variants_kind(1) [OF l facts(3) e] swapped_kind(3) [OF facts(3)]
    by (auto simp: planCompanion_def ownedCompanions_def Let_def)
  show "cpWrite (wpCompanion pl) \<Longrightarrow> cpPath (wpCompanion pl) = StemOf (wpPath pl) @ ExtWordSynced"
    using facts(6) by (auto simp: planCompanion_def Let_def)
  let ?c = "StemOf (wpPath pl) @ ExtWordSynced"
  have c: "properPath ?c" "pathDir ?c = pathDir (wpPath pl)" using swap_ext [OF facts(3) e] by auto
  have "pathDir (wpPath pl) = pathClean (wpDir pl)" unfolding facts(1) by (rule pathDir_join [OF facts(2)])
  moreover have "baseName (pathBase ?c)" using c(1) by (simp add: properPath_def)
  ultimately show "pathJoin (wpDir pl) (pathBase ?c) = ?c"
    using proper_split(1) [OF c(1)] c(2) by (simp add: pathJoin_base)
qed

lemma bump_disk [simp]: "wsDisk (bumpIfCorrected env audio fp p st) = wsDisk st"
  by (simp add: bumpIfCorrected_def Let_def)

lemma writeCompanion_frame:
  assumes "planWrite env w d song fname dir = Inr pl" "diskWF d"
  shows "sameOutside {StemOf (wpPath pl) @ ExtWordSynced, pathJoin (wpDir pl) (weTemp env (pathBase (StemOf (wpPath pl) @ ExtWordSynced)))}
    (wsDisk st) (wsDisk (snd (writeCompanion env w song pl st)))"
proof (cases "cpWrite (wpCompanion pl)")
  case True
  then show ?thesis
    using writeAtomic_frame [of "wpDir pl" "pathBase (StemOf (wpPath pl) @ ExtWordSynced)" env "wsDisk st" "weCompanionStep env" "wpTags pl" "syncedBody song (lwBilingual w) True" "\<lambda>_. None"]
    by (auto simp: writeCompanion_def plan_companion(2) [OF assms True] plan_companion(3) [OF assms] writeAtomic_def split: prod.splits option.splits)
qed (simp add: writeCompanion_def)

text \<open>The paths that a write may change when nobody else acts.\<close>

definition touched :: "WriteEnv \<Rightarrow> Disk \<Rightarrow> WritePlan \<Rightarrow> gotext set" where
  "touched env d pl = {wpPath pl, pathJoin (wpDir pl) (weTemp env (wpName pl))} \<union> set (staleSidecars d (wpPath pl) (wpListing pl))
     \<union> set (cpRemoves (wpCompanion pl))
     \<union> (if cpWrite (wpCompanion pl) then {cpPath (wpCompanion pl), pathJoin (wpDir pl) (weTemp env (pathBase (cpPath (wpCompanion pl))))} else {})"

lemma carryOut_frame:
  assumes "planWrite env w d0 song fname dir = Inr pl" "diskWF d0" "\<And>d. weWritten env d = d"
  shows "sameOutside (touched env (wsDisk st) pl) (wsDisk st) (wsDisk (snd (carryOut env w song pl st)))"
proof -
  note facts = planWrite_facts [OF assms(1)]
  let ?A = "touched env (wsDisk st) pl" and ?stale = "staleSidecars (wsDisk st) (wpPath pl) (wpListing pl)"
  obtain r1 d1 where rm: "removeCompanions env (cpRemoves (wpCompanion pl)) (wsDisk st) = (r1, d1)" by fastforce
  have s1: "sameOutside ?A (wsDisk st) d1"
    using removeCompanions_frame [of "cpRemoves (wpCompanion pl)" "wsDisk st" env] rm
    by (auto simp: touched_def intro: sameOutside_mono)
  obtain r2 d2 where w: "writeAtomicGuarded env (weMain env) (wpDir pl) (wpName pl) (wpTags pl) (wpBody pl)
        (\<lambda>d. recheckManualMarker w d (wpPath pl) (wpListing pl)) d1 = (r2, d2)" by fastforce
  have "sameOutside ?A d1 d2"
    using writeAtomic_frame [of "wpDir pl" "wpName pl" env d1 "weMain env" "wpTags pl" "wpBody pl" "\<lambda>d. recheckManualMarker w d (wpPath pl) (wpListing pl)"] w
    by (auto simp: touched_def facts(1) intro: sameOutside_mono)
  with s1 have s2: "sameOutside ?A (wsDisk st) d2" by (rule sameOutside_trans)
  obtain r3 d3 where stale: "removeStale env w ?stale d2 = (r3, d3)" by fastforce
  have "sameOutside ?A d2 d3"
    using removeStale_frame [of ?stale d2 env w] stale by (auto simp: touched_def intro: sameOutside_mono)
  with s2 have s3: "sameOutside ?A (wsDisk st) d3" by (rule sameOutside_trans)
  have s4: "sameOutside ?A (wsDisk s) (wsDisk (snd (writeCompanion env w song pl s)))" for s
  proof (cases "cpWrite (wpCompanion pl)")
    case True
    then show ?thesis
      using writeCompanion_frame [OF assms(1, 2), of s] plan_companion(2) [OF assms(1, 2) True]
      by (auto simp: touched_def intro: sameOutside_mono)
  qed (simp add: writeCompanion_def)
  have "\<exists>s. wsDisk s = d3 \<and> wsDisk (snd (carryOut env w song pl st)) \<in> {d1, d2, d3, wsDisk (snd (writeCompanion env w song pl s))}"
  proof (cases "r1 = None \<and> r2 = None \<and> r3 = None")
    case True
    let ?s = "bumpIfCorrected env (AudioPath song) (wpPath pl) (snapshotPrior w (wsDisk st) song (wpPath pl) ?stale)
      (st\<lparr>wsReg := recordPaths (weCanon env) (weNow env) (wePrune env) (recordedPaths pl ?stale) (wsReg st), wsDisk := d3\<rparr>)"
    have "wsDisk ?s = d3" by simp
    moreover have "carryOut env w song pl st = writeCompanion env w song pl ?s"
      using True rm w stale by (simp add: carryOut_def Let_def assms(3))
    ultimately show ?thesis by (intro exI [of _ ?s]) simp
  next
    case False
    then show ?thesis
      using rm w stale by (intro exI [of _ "st\<lparr>wsDisk := d3\<rparr>"]) (auto simp: carryOut_def Let_def assms(3) split: option.splits)
  qed
  then obtain s where s: "wsDisk s = d3" "wsDisk (snd (carryOut env w song pl st)) \<in> {d1, d2, d3, wsDisk (snd (writeCompanion env w song pl s))}" by blast
  have "sameOutside ?A (wsDisk st) (wsDisk (snd (writeCompanion env w song pl s)))"
    using sameOutside_trans [OF s3] s4 [of s] s(1) by simp
  with s(2) s1 s2 s3 show ?thesis by auto
qed

section \<open>Manual markers\<close>

lemma manualMarker_cong: "map_of d p = map_of d' p \<Longrightarrow> ManualMarkerOnDisk d p = ManualMarkerOnDisk d' p"
  by (simp add: ManualMarkerOnDisk_def readRegularNoFollow_def readRegularNoFollowInfo_def openRegularNoFollow_def osLstat_def)

lemma removeStale_marker:
  assumes "\<not> lwAllowManual w" "ManualMarkerOnDisk d p"
  shows "map_of (snd (removeStale env w ps d)) p = map_of d p"
  using assms(2)
proof (induction ps arbitrary: d)
  case (Cons q ps)
  show ?case
  proof (cases "ManualMarkerOnDisk d q")
    case False
    then have "q \<noteq> p" using Cons.prems by auto
    then have eq: "map_of (snd (osRemove (weRemove env q) q d)) p = map_of d p" by (simp add: osRemove_elsewhere)
    then have "ManualMarkerOnDisk (snd (osRemove (weRemove env q) q d)) p"
      using manualMarker_cong [of "snd (osRemove (weRemove env q) q d)" p d] Cons.prems by simp
    from Cons.IH [OF this] eq False show ?thesis by simp
  qed (simp add: assms(1))
qed simp

lemma carryOut_marker:
  assumes plan: "planWrite env w d0 song fname dir = Inr pl" "diskWF d0"
    and env: "tempNames env" "tempFree env (wsDisk st)" "\<And>d. map_of (weWritten env d) p = map_of d p"
    and p: "\<not> lwAllowManual w" "KindOf p = KindUnsynced" "ManualMarkerOnDisk (wsDisk st) p"
  shows "map_of (wsDisk (snd (carryOut env w song pl st))) p = map_of (wsDisk st) p"
proof -
  note facts = planWrite_facts [OF plan(1)]
  let ?rm = "removeCompanions env (cpRemoves (wpCompanion pl)) (wsDisk st)"
  obtain r1 d1 where rm: "?rm = (r1, d1)" by fastforce
  have "p \<notin> set (cpRemoves (wpCompanion pl))" using plan_companion(1) [OF plan] p(2) by auto
  then have d1: "map_of d1 p = map_of (wsDisk st) p"
    using removeCompanions_frame [of "cpRemoves (wpCompanion pl)" "wsDisk st" env] rm by (simp add: sameOutside_def)
  let ?tmp = "pathJoin (wpDir pl) (weTemp env (wpName pl))"
  have tmp: "map_of d1 ?tmp = None"
    using removeCompanions_subset [of env "cpRemoves (wpCompanion pl)" "wsDisk st" ?tmp] rm env(2) facts(2) by (auto simp: tempFree_def)
  have tf: "?tmp \<noteq> wpPath pl" using temp_kind [OF env(1) facts(2)] facts(4) by (metis Kind.distinct(1, 3) insertE singletonD)
  have pt: "?tmp \<noteq> p" using temp_kind [OF env(1) facts(2)] p(2) by (metis Kind.distinct(3))
  have clash: "wpPath pl \<noteq> p"
    if "recheckManualMarker w d2 (wpPath pl) (wpListing pl) = None" "map_of d2 = (map_of d1)(?tmp \<mapsto> e)" for d2 e
  proof
    assume fp: "wpPath pl = p"
    have "map_of d2 p = map_of (wsDisk st) p" using that(2) pt d1 by simp
    then have "ManualMarkerOnDisk d2 (wpPath pl)" using manualMarker_cong p(3) fp by metis
    with that(1) p(1, 2) fp show False by (auto simp: recheckManualMarker_def split: option.splits)
  qed
  obtain r2 d2 where w: "writeAtomicGuarded env (weMain env) (wpDir pl) (wpName pl) (wpTags pl) (wpBody pl)
        (\<lambda>d. recheckManualMarker w d (wpPath pl) (wpListing pl)) d1 = (r2, d2)" by fastforce
  have d2: "map_of d2 p = map_of d1 p"
    by (rule writeAtomic_ends [OF w tmp refl facts(1) tf]) (auto dest: clash)
  obtain r3 d3 where stale: "removeStale env w (staleSidecars (wsDisk st) (wpPath pl) (wpListing pl)) (weWritten env d2) = (r3, d3)" by fastforce
  have wr: "map_of (weWritten env d2) p = map_of (wsDisk st) p" using env(3) d2 d1 by simp
  with p(3) manualMarker_cong have "ManualMarkerOnDisk (weWritten env d2) p" by metis
  from removeStale_marker [OF p(1) this] stale wr have d3: "map_of d3 p = map_of (wsDisk st) p"
    by (metis snd_conv)
  let ?c = "StemOf (wpPath pl) @ ExtWordSynced"
  have c: "KindOf ?c = KindWordSynced" "baseName (pathBase ?c)"
    using swapped_kind(3) [OF facts(3)] swap_ext(4) [OF facts(3), of ExtWordSynced] by (auto simp: properPath_def sidecarExts_def)
  then have "p \<notin> {?c, pathJoin (wpDir pl) (weTemp env (pathBase ?c))}"
    using p(2) temp_kind [OF env(1) c(2), of "wpDir pl"] by auto
  then have last: "map_of (wsDisk (snd (writeCompanion env w song pl s))) p = map_of (wsDisk s) p" for s
    using writeCompanion_frame [OF plan, of s] by (simp add: sameOutside_def)
  show ?thesis
    using rm w stale d1 d2 d3 last by (auto simp: carryOut_def Let_def split: option.splits)
qed

section \<open>Theorem\<close>

text \<open>C5: A manual instrumental marker is never displaced. Whatever the song and its rung, whether or not the
  writer is forced, whichever step of the write fails and even when the marker appears between the check and the
  write, a write leaves every manual marker that is on the disk once the check is done, and that nobody else
  touches, exactly as it is; only \<open>WriteManualMarker\<close> may replace one.\<close>

theorem manual_marker_kept:
  assumes "diskWF (wsDisk st)" "\<not> lwAllowManual w"
    and "KindOf p = KindUnsynced" "ManualMarkerOnDisk (weProbed env (wsDisk st)) p"
    and "\<And>d. map_of (weWritten env d) p = map_of d p"
    and "tempNames env" "tempFree env (weProbed env (wsDisk st))"
    and "WriteLRC env w song fname dir st = (r, st')"
  shows "st' = st \<or> map_of (wsDisk st') p = map_of (weProbed env (wsDisk st)) p"
proof (cases "planWrite env w (wsDisk st) song fname dir")
  case (Inl r)
  with assms(8) show ?thesis by (simp add: WriteLRC_def)
next
  case (Inr pl)
  let ?st = "st\<lparr>wsDisk := weProbed env (wsDisk st)\<rparr>"
  have "map_of (wsDisk (snd (carryOut env w song pl ?st))) p = map_of (wsDisk ?st) p"
    by (rule carryOut_marker [OF Inr assms(1, 6)]) (use assms in auto)
  with Inr assms(8) show ?thesis by (auto simp: WriteLRC_def Let_def split: option.splits)
qed

text \<open>A manual marker as a person writes it.\<close>

definition manualText :: gotext where
  "manualText = lit ''[source:manual]'' @ [10] @ InstrumentalMarker @ [10]"

lemma containsText_self: "containsText t t"
  unfolding containsText_def by (rule bexI [of _ 0]) auto

lemma manual_marker_text: "isManualMarker manualText" "byteLen manualText \<le> maxManualMarkerBytes"
proof -
  let ?l = "lit ''[source:manual]''" and ?t = "\<lparr>tag_Key = lit ''source'', tag_Value = lit ''manual'', tag_Raw = lit ''[source:manual]''\<rparr>"
  have "rawLines manualText = [?l, InstrumentalMarker]"
    by (simp add: manualText_def InstrumentalMarker_def lit_def rawLines.simps)
  then have s: "scanLines manualText = Some [?l, InstrumentalMarker]"
    by (simp add: scanLines_def byteLen_def utf8_def lit_def InstrumentalMarker_def stripCR_def)
  have bom: "trimPrefix ?l utf8BOM = ?l" by (simp add: trimPrefix_def utf8BOM_def lit_def)
  have "headerLoop [?l, InstrumentalMarker] = ([?t], [InstrumentalMarker])"
    by (simp add: parseTagLine_def trimSpace_def isSpace_def lit_def InstrumentalMarker_def Let_def isDigit_def)
  then have h: "parseLRCHeaderFrom manualText = Some ([?t], [InstrumentalMarker])"
    unfolding parseLRCHeaderFrom_def s option.case list.case bom by (rule arg_cong)
  have p: "provenanceOf [?t] [InstrumentalMarker] = (\<lparr>ip_Source = lit ''manual'', ip_Version = []\<rparr>, True)"
    using containsText_self [of InstrumentalMarker]
    by (simp add: provenanceOf_def markerTag_def noMarker_def Let_def toLower_def lowerRune_def lit_def trimSpace_def isSpace_def)
  show "isManualMarker manualText"
    unfolding isManualMarker_def h option.case prod.case p by (simp add: IsManual_def SourceManual_def equalFold_def)
  show "byteLen manualText \<le> maxManualMarkerBytes"
    by (simp add: maxManualMarkerBytes_def byteLen_def utf8_def lit_def InstrumentalMarker_def manualText_def)
qed

lemma manual_marker_file: "map_of d p = Some (Regular i m (Some manualText)) \<Longrightarrow> ManualMarkerOnDisk d p"
  using manual_marker_text
  by (simp add: ManualMarkerOnDisk_def readRegularNoFollow_def readRegularNoFollowInfo_def openRegularNoFollow_def osLstat_def)

definition exWEnv :: WriteEnv where
  "exWEnv = \<lparr>weEval = Some, weNFKC = (\<lambda>s. s), weLower = (\<lambda>s. s), weVersion = lit ''1.0'', weRFC3339 = (\<lambda>t. lit ''2024''),
     weCanon = (\<lambda>s. s), weNow = 0, wePrune = 0, weAudioNow = 0, weAudioPrune = 0, weTemp = (\<lambda>n. n @ lit ''.7.tmp''), weIno = 9,
     weMain = (\<lambda>s. None), weCompanionStep = (\<lambda>s. None), weRemove = (\<lambda>p. None), weChtimes = None,
     weProbed = (\<lambda>d. d), weWritten = (\<lambda>d. d)\<rparr>"

lemma exWEnv_temp: "tempNames exWEnv"
proof -
  have "baseName n \<Longrightarrow> baseName (n @ lit ''.7.tmp'')" for n
    by (auto simp: baseName_def slash_def dotdot_def append_eq_Cons_conv lit_def)
  moreover have "pathExt (n @ lit ''.7.tmp'') = TempExt" for n
    using ext_of_dot [of "lit ''tmp''" "n @ lit ''.7''"] by (simp add: lit_def TempExt_def)
  ultimately show ?thesis by (simp add: tempNames_def exWEnv_def)
qed

lemma temp_free:
  assumes "tempNames env" "\<forall>p \<in> set (map fst d). KindOf p \<noteq> KindUnknown"
  shows "tempFree env d"
  unfolding tempFree_def
proof (intro allI impI)
  fix out n assume n: "baseName n"
  have "pathJoin out (weTemp env n) \<notin> fst ` set d"
    using assms(2) temp_kind [OF assms(1) n, of out] by auto
  then show "map_of d (pathJoin out (weTemp env n)) = None" by (simp add: map_of_eq_None_iff)
qed

text \<open>A forced write of synced lyrics beside a manual marker.\<close>

definition exMarkedDisk :: Disk where
  "exMarkedDisk = [(lit ''/m/s.txt'', Regular 5 420 (Some manualText))]"

definition exWState :: WriterState where
  "exWState = \<lparr>wsDisk = exMarkedDisk, wsReg = None, wsTouched = []\<rparr>"

definition exSynced :: Song where
  "exSynced = zeroSong\<lparr>Subtitles := [cueAt ''la'' 1, cueAt ''lu'' 2]\<rparr>"

theorem manual_marker_kept_witness:
  "map_of (wsDisk (snd (WriteLRC exWEnv (SetForceOverwrite True (NewLRCWriter [])) exSynced (lit ''s.mp3'') (lit ''/m'') exWState))) (lit ''/m/s.txt'')
    = Some (Regular 5 420 (Some manualText))"
proof -
  let ?w = "SetForceOverwrite True (NewLRCWriter [])"
  obtain r st' where run: "WriteLRC exWEnv ?w exSynced (lit ''s.mp3'') (lit ''/m'') exWState = (r, st')" by fastforce
  have d: "weProbed exWEnv (wsDisk exWState) = exMarkedDisk" "wsDisk exWState = exMarkedDisk" by (simp_all add: exWEnv_def exWState_def)
  have at: "map_of exMarkedDisk (lit ''/m/s.txt'') = Some (Regular 5 420 (Some manualText))" by (simp add: exMarkedDisk_def)
  have "st' = exWState \<or> map_of (wsDisk st') (lit ''/m/s.txt'') = map_of (weProbed exWEnv (wsDisk exWState)) (lit ''/m/s.txt'')"
  proof (rule manual_marker_kept [OF _ _ _ _ _ exWEnv_temp _ run])
    show "tempFree exWEnv (weProbed exWEnv (wsDisk exWState))" unfolding d by (rule temp_free [OF exWEnv_temp]) (code_simp)
    show "ManualMarkerOnDisk (weProbed exWEnv (wsDisk exWState)) (lit ''/m/s.txt'')" using manual_marker_file [OF at] d(1) by simp
    show "map_of (weWritten exWEnv d) (lit ''/m/s.txt'') = map_of d (lit ''/m/s.txt'')" for d by (simp add: exWEnv_def)
    show "diskWF (wsDisk exWState)" unfolding d by (simp add: exMarkedDisk_def diskWF_def) code_simp
    show "\<not> lwAllowManual ?w" by (simp add: SetForceOverwrite_def NewLRCWriter_def)
    show "KindOf (lit ''/m/s.txt'') = KindUnsynced" by code_simp
  qed
  with d at run show ?thesis by auto
qed

section \<open>Downgrades\<close>

lemma considerKept_max: "rungRank (keOnDisk (foldl considerKept k ks)) \<ge> rungRank (keOnDisk k) \<and>
    (\<forall>x \<in> set ks. rungRank (keOnDisk (foldl considerKept k ks)) \<ge> rungRank (keOnDisk x))"
proof (induction ks arbitrary: k)
  case (Cons x ks)
  show ?case using Cons.IH [of "considerKept k x"] by (auto simp: considerKept_def split: if_splits)
qed simp

definition fileRung :: "Disk \<Rightarrow> gotext \<Rightarrow> Rung" where
  "fileRung d p = keOnDisk (classifySidecar d p (KindOf p = KindLineSynced))"

lemma classify_ge:
  assumes "p \<in> set (judgedFiles d fp l)"
  shows "rungRank (fileRung d p) \<le> rungRank (keOnDisk (classifyOnDisk d fp l removes))"
proof -
  define lrcs where "lrcs = filter (\<lambda>p. KindOf p = KindLineSynced) (judgedFiles d fp l)"
  define txts where "txts = filter (\<lambda>p. KindOf p \<noteq> KindLineSynced) (judgedFiles d fp l)"
  define b1 where "b1 = foldl considerKept (kept RungNone False True) (map (\<lambda>v. classifySidecar d v True) lrcs)"
  define b2 where "b2 = foldl considerKept b1 (map (\<lambda>v. classifySidecar d v False) txts)"
  have "rungRank (keOnDisk b2) \<le> rungRank (keOnDisk (classifyOnDisk d fp l removes))"
    by (auto simp: classifyOnDisk_def Let_def lrcs_def txts_def b1_def b2_def considerKept_def)
  moreover have "rungRank (fileRung d p) \<le> rungRank (keOnDisk b2)"
  proof (cases "KindOf p = KindLineSynced")
    case True
    then have "p \<in> set lrcs" using assms by (simp add: lrcs_def)
    then have "rungRank (fileRung d p) \<le> rungRank (keOnDisk b1)"
      using considerKept_max [of "kept RungNone False True" "map (\<lambda>v. classifySidecar d v True) lrcs"] True
      by (simp add: fileRung_def b1_def)
    also have "\<dots> \<le> rungRank (keOnDisk b2)" using considerKept_max by (simp add: b2_def)
    finally show ?thesis .
  next
    case False
    then have "p \<in> set txts" using assms by (simp add: txts_def)
    then show ?thesis
      using considerKept_max [of b1 "map (\<lambda>v. classifySidecar d v False) txts"] False by (simp add: fileRung_def b2_def)
  qed
  ultimately show ?thesis by simp
qed

lemma refuse_none: "refuseDowngrade w d song pl = None \<Longrightarrow> \<not> lwForce w \<Longrightarrow>
    rungRank (keOnDisk (classifyOnDisk d (wpPath pl) (wpListing pl) (cpRemoves (wpCompanion pl)))) \<le> rungRank (candidateRung w song (wpCompanion pl))"
  by (auto simp: refuseDowngrade_def foundOnDisk_def Let_def split: if_splits)

lemma planned_companion_owned:
  assumes "planWrite env w d song fname dir = Inr pl" "diskWF d" "regularAt d p"
    and "p \<in> set (cpRemoves (wpCompanion pl)) \<or> cpWrite (wpCompanion pl) \<and> p = cpPath (wpCompanion pl)"
  shows "IsOwnedCompanion d p"
proof -
  obtain i m s where e: "map_of d p = Some (Regular i m s)" using assms(3) by (auto simp: regularAt_iff)
  have "companionOwnershipOf d p \<noteq> companionAbsent"
    using e by (auto simp: companionOwnershipOf_def companionOwnershipOfErr_def osLstat_def split: sum.splits)
  moreover have "companionOwnershipOf d p \<noteq> companionForeign"
  proof -
    obtain synced where c: "wpCompanion pl = planCompanion w d song (wpPath pl) synced (wpListing pl)"
      using planWrite_facts(6) [OF assms(1)] by blast
    from assms(4) show ?thesis
    proof
      assume "p \<in> set (cpRemoves (wpCompanion pl))"
      then show ?thesis by (simp add: c planCompanion_def ownedCompanions_def Let_def)
    next
      assume "cpWrite (wpCompanion pl) \<and> p = cpPath (wpCompanion pl)"
      then show ?thesis by (auto simp: c planCompanion_def Let_def)
    qed
  qed
  ultimately show ?thesis unfolding IsOwnedCompanion_def by (cases "companionOwnershipOf d p") auto
qed

text \<open>C6: A write that is not forced never replaces or removes something better. When nobody else touches the
  disk, every regular file that is no longer what it was after a write -- refused, failed at whatever step, or
  done -- was either a companion that canticle owns, or a file ranked no higher than what the write puts in its
  place; so an unforced write never costs the library a file it could not read either.\<close>

theorem never_downgraded:
  assumes "diskWF (wsDisk st)" "\<not> lwForce w"
    and "\<And>d. weProbed env d = d" "\<And>d. weWritten env d = d" "tempNames env" "tempFree env (wsDisk st)"
    and "WriteLRC env w song fname dir st = (r, st')"
    and "regularAt (wsDisk st) p" "map_of (wsDisk st') p \<noteq> map_of (wsDisk st) p"
  shows "\<exists>pl. planWrite env w (wsDisk st) song fname dir = Inr pl \<and>
    (IsOwnedCompanion (wsDisk st) p \<or> rungRank (fileRung (wsDisk st) p) \<le> rungRank (candidateRung w song (wpCompanion pl)))"
proof (cases "planWrite env w (wsDisk st) song fname dir")
  case (Inl r)
  with assms(7, 9) show ?thesis by (auto simp: WriteLRC_def)
next
  case (Inr pl)
  let ?d = "wsDisk st"
  note facts = planWrite_facts [OF Inr]
  from Inr assms(3, 7, 9) have go: "refuseDowngrade w ?d song pl = None" "st' = snd (carryOut env w song pl st)"
    by (auto simp: WriteLRC_def Let_def split: option.splits)
  have t: "p \<in> touched env ?d pl"
    using carryOut_frame [OF Inr assms(1, 4), of st] assms(9) go(2) by (auto simp: sameOutside_def)
  have n1: "p \<noteq> pathJoin (wpDir pl) (weTemp env (wpName pl))"
    using assms(6, 8) facts(2) by (auto simp: tempFree_def regularAt_iff)
  have c: "baseName (pathBase (StemOf (wpPath pl) @ ExtWordSynced))"
    using swap_ext(4) [OF facts(3), of ExtWordSynced] by (simp add: properPath_def sidecarExts_def)
  have n2: "cpWrite (wpCompanion pl) \<Longrightarrow> p \<noteq> pathJoin (wpDir pl) (weTemp env (pathBase (cpPath (wpCompanion pl))))"
    using assms(6, 8) plan_companion(2) [OF Inr assms(1)] c by (auto simp: tempFree_def regularAt_iff)
  have occ: "occupied ?d p" using assms(8) by (auto simp: occupied_def osLstat_def regularAt_iff)
  have "p = wpPath pl \<or> p \<in> set (staleSidecars ?d (wpPath pl) (wpListing pl)) \<or> p \<in> set (cpRemoves (wpCompanion pl)) \<or>
      cpWrite (wpCompanion pl) \<and> p = cpPath (wpCompanion pl)"
    using t n1 n2 unfolding touched_def by (cases "cpWrite (wpCompanion pl)") (simp_all, blast+)
  moreover have "p = wpPath pl \<Longrightarrow> p \<in> set (judgedFiles ?d (wpPath pl) (wpListing pl))"
    "p \<in> set (staleSidecars ?d (wpPath pl) (wpListing pl)) \<Longrightarrow> p \<in> set (judgedFiles ?d (wpPath pl) (wpListing pl))"
    using occ by (auto simp: judgedFiles_def)
  ultimately consider "p \<in> set (judgedFiles ?d (wpPath pl) (wpListing pl))"
    | "p \<in> set (cpRemoves (wpCompanion pl)) \<or> cpWrite (wpCompanion pl) \<and> p = cpPath (wpCompanion pl)"
    by blast
  then show ?thesis
  proof cases
    case 1
    from classify_ge [OF this] refuse_none [OF go(1) assms(2)] Inr show ?thesis by (meson order_trans)
  next
    case 2
    with planned_companion_owned [OF Inr assms(1, 8)] Inr show ?thesis by blast
  qed
qed

text \<open>New words over old ones.\<close>

definition exWordsState :: WriterState where
  "exWordsState = \<lparr>wsDisk = [(lit ''/m/s.txt'', Regular 1 420 (Some (lit ''old words'')))], wsReg = None, wsTouched = []\<rparr>"

definition exWords :: Song where
  "exWords = zeroSong\<lparr>LyricsBody := lit ''new words''\<rparr>"

theorem never_downgraded_witness:
  "\<exists>pl. planWrite exWEnv (NewLRCWriter []) (wsDisk exWordsState) exWords (lit ''s.mp3'') (lit ''/m'') = Inr pl \<and>
    (IsOwnedCompanion (wsDisk exWordsState) (lit ''/m/s.txt'') \<or>
     rungRank (fileRung (wsDisk exWordsState) (lit ''/m/s.txt'')) \<le> rungRank (candidateRung (NewLRCWriter []) exWords (wpCompanion pl)))"
proof -
  obtain r st' where run: "WriteLRC exWEnv (NewLRCWriter []) exWords (lit ''s.mp3'') (lit ''/m'') exWordsState = (r, st')" by fastforce
  have "map_of (wsDisk (snd (WriteLRC exWEnv (NewLRCWriter []) exWords (lit ''s.mp3'') (lit ''/m'') exWordsState))) (lit ''/m/s.txt'')
      \<noteq> map_of (wsDisk exWordsState) (lit ''/m/s.txt'')" by code_simp
  with run have changed: "map_of (wsDisk st') (lit ''/m/s.txt'') \<noteq> map_of (wsDisk exWordsState) (lit ''/m/s.txt'')" by simp
  show ?thesis
  proof (rule never_downgraded [OF _ _ _ _ exWEnv_temp _ run _ changed])
    show "weProbed exWEnv d = d" "weWritten exWEnv d = d" for d by (simp_all add: exWEnv_def)
    show "tempFree exWEnv (wsDisk exWordsState)" by (rule temp_free [OF exWEnv_temp]) code_simp
    show "diskWF (wsDisk exWordsState)" by code_simp
    show "\<not> lwForce (NewLRCWriter [])" by (simp add: NewLRCWriter_def)
    show "regularAt (wsDisk exWordsState) (lit ''/m/s.txt'')" by code_simp
  qed
qed

end
