(* ===== verification/LyricText.thy ===== *)
theory LyricText
  imports LyricGuards
begin

text \<open>
  The text a write produces: the pairing of a bilingual track, and the header of a written file as the
  reader of headers finds it.
\<close>

section \<open>Pairing translations\<close>

definition countBefore :: "'a \<Rightarrow> 'a list \<Rightarrow> nat \<Rightarrow> nat" where
  "countBefore s xs i = length (filter (\<lambda>x. x = s) (take i xs))"

lemma countBefore_Cons: "countBefore s (x # xs) (Suc i) = (if x = s then 1 else 0) + countBefore s xs i"
  by (simp add: countBefore_def)

lemma countBefore_zero: "countBefore s xs 0 = 0"
  by (simp add: countBefore_def)

definition queueAt :: "gotext \<Rightarrow> (nat \<times> gotext) list \<Rightarrow> (nat \<times> gotext) list" where
  "queueAt s q = filter (\<lambda>(j, t). t = s) q"

lemma find_queue: "List.find (\<lambda>(j, t). t = s) q = (case queueAt s q of [] \<Rightarrow> None | x # _ \<Rightarrow> Some x)"
  by (induction q) (auto simp: queueAt_def)

lemma queueAt_remove: "queueAt s q = (j, s) # rest \<Longrightarrow> queueAt s' (remove1 (j, s) q) = (if s' = s then rest else queueAt s' q)"
  using remove1_idem [of "(j, s)" "queueAt s' q"] by (auto simp: queueAt_def filter_remove1)

lemma queueAt_fst: "queueAt s q = x # rest \<Longrightarrow> snd x = s"
  using filter_set [of "\<lambda>(j, t). t = s" q] by (metis (mono_tags, lifting) case_prod_beta filter_eq_ConsD queueAt_def)

lemma queueAt_fst_nth: "n < length (queueAt s q) \<Longrightarrow> snd (queueAt s q ! n) = s"
  using nth_mem [of n "queueAt s q"] by (auto simp: queueAt_def)

lemma pairLoop_nth: "i < length ss \<Longrightarrow> pairLoop ss q ! i =
    (let qs = queueAt (ss ! i) q; n = countBefore (ss ! i) ss i in if n < length qs then Some (fst (qs ! n)) else None)"
proof (induction ss arbitrary: q i)
  case (Cons s ss)
  show ?case
  proof (cases "queueAt s q")
    case Nil
    then show ?thesis
      using Cons.IH Cons.prems by (cases i) (auto simp: find_queue countBefore_Cons Let_def countBefore_zero)
  next
    case (Cons x rest)
    obtain j where x: "x = (j, s)" using queueAt_fst [OF Cons] by (cases x) auto
    then show ?thesis
      using Cons Cons.IH Cons.prems queueAt_remove [of s q j rest]
      by (cases i) (auto simp: find_queue countBefore_Cons Let_def countBefore_zero)
  qed
qed simp

lemma enumerate_queue:
  "n < length (queueAt s (enumerate 0 ts)) \<and> queueAt s (enumerate 0 ts) ! n = (j, t) \<longleftrightarrow>
    t = s \<and> j < length ts \<and> ts ! j = s \<and> countBefore s ts j = n"
proof (induction ts rule: rev_induct)
  case (snoc x xs)
  have len: "length (queueAt s (enumerate 0 xs)) = countBefore s xs (length xs)"
    by (induction xs rule: rev_induct) (auto simp: queueAt_def countBefore_def enumerate_append_eq)
  show ?case
    using snoc len
    by (auto simp: queueAt_def enumerate_append_eq nth_append countBefore_def less_Suc_eq)
qed (simp add: queueAt_def)

definition stampsOf :: "Lines list \<Rightarrow> gotext list" where
  "stampsOf ls = map (\<lambda>l. Stamp (LTime l)) ls"

text \<open>C40: The pairing of a bilingual track. An original cue is paired exactly with the translation cue that has
  the same rendered timestamp and the same rank among the cues of its track with that timestamp; so no cue of the
  translation is used twice, its order and length do not matter, and a cue without a counterpart stays alone.\<close>

theorem pairs_fifo:
  assumes "i < length original"
  shows "pairBilingualTranslations original translation ! i = Some j \<longleftrightarrow>
    j < length translation \<and> stampsOf translation ! j = stampsOf original ! i \<and>
    countBefore (stampsOf original ! i) (stampsOf translation) j = countBefore (stampsOf original ! i) (stampsOf original) i"
proof -
  let ?s = "stampsOf original ! i" and ?q = "enumerate 0 (stampsOf translation)"
  have i: "i < length (stampsOf original)" using assms(1) by (simp add: stampsOf_def)
  have *: "pairBilingualTranslations original translation ! i =
      (let qs = queueAt ?s ?q; n = countBefore ?s (stampsOf original) i in if n < length qs then Some (fst (qs ! n)) else None)"
    unfolding pairBilingualTranslations_def stampsOf_def [symmetric] by (rule pairLoop_nth [OF i])
  show ?thesis
    using enumerate_queue [of "countBefore ?s (stampsOf original) i" ?s "stampsOf translation" j ?s]
      queueAt_fst_nth [of "countBefore ?s (stampsOf original) i" ?s ?q]
    unfolding * by (auto simp: Let_def stampsOf_def prod_eq_iff)
qed

definition exCues :: "Lines list" where
  "exCues = [cueAt ''a'' 1, cueAt ''b'' 2, cueAt ''c'' 1]"

theorem pairs_fifo_witness:
  "pairBilingualTranslations exCues (rev exCues) ! 2 = Some 2"
  by (subst pairs_fifo) code_simp+

end
