(* ===== verification/LyricEcho.thy ===== *)
theory LyricEcho
  imports LyricGuards
begin

text \<open>
  The writer and the watcher: what a write changes, it has recorded before in the registry of own writes, so that
  the events of a write do not come back as a change by somebody else.
\<close>

section \<open>What a write records\<close>

lemma companion_silent [simp]:
  "wsReg (snd (writeCompanion env w song pl st)) = wsReg st" "wsTouched (snd (writeCompanion env w song pl st)) = wsTouched st"
  by (auto simp: writeCompanion_def split: prod.splits option.splits)

text \<open>The records of a write: its sidecars, then perhaps the audio file.\<close>

definition sidecarRecord :: "WriteEnv \<Rightarrow> Disk \<Rightarrow> WritePlan \<Rightarrow> selfOp" where
  "sidecarRecord env d pl =
     selfOp.Wrote (weNow env) (wePrune env) (recordedPaths pl (staleSidecars d (wpPath pl) (wpListing pl)))"

definition audioRecord :: "WriteEnv \<Rightarrow> Song \<Rightarrow> selfOp" where
  "audioRecord env song = selfOp.Wrote (weAudioNow env) (weAudioPrune env) [AudioPath song]"

lemma bump_records:
  obtains (kept) "bumpIfCorrected env (AudioPath song) fp (snapshotPrior w d song fp' stale) st = st"
  | (bumped) "AudioPath song \<noteq> []"
      "wsReg (bumpIfCorrected env (AudioPath song) fp (snapshotPrior w d song fp' stale) st) =
        applySelf (weCanon env) (audioRecord env song) (wsReg st)"
      "set (wsTouched (bumpIfCorrected env (AudioPath song) fp (snapshotPrior w d song fp' stale) st)) \<subseteq>
        insert (AudioPath song) (set (wsTouched st))"
proof (cases "AudioPath song = []")
  case True
  then show thesis by (intro kept) (simp add: bumpIfCorrected_def snapshotPrior_def noPrior_def)
next
  case False
  let ?st = "bumpIfCorrected env (AudioPath song) fp (snapshotPrior w d song fp' stale) st"
  have "?st = st \<or> wsReg ?st = applySelf (weCanon env) (audioRecord env song) (wsReg st) \<and>
      set (wsTouched ?st) \<subseteq> insert (AudioPath song) (set (wsTouched st))"
    by (auto simp: bumpIfCorrected_def audioRecord_def Let_def)
  with False kept bumped show thesis by blast
qed

lemma carryOut_records:
  assumes "wsReg st = selfRun (weCanon env) d ops"
  obtains ops' where "wsReg (snd (carryOut env w song pl st)) = selfRun (weCanon env) d (ops @ sidecarRecord env (wsDisk st) pl # ops')"
    "ops' = [] \<and> wsTouched (snd (carryOut env w song pl st)) = wsTouched st \<or>
     ops' = [audioRecord env song] \<and> AudioPath song \<noteq> [] \<and>
       set (wsTouched (snd (carryOut env w song pl st))) \<subseteq> insert (AudioPath song) (set (wsTouched st))"
proof -
  let ?fin = "snd (carryOut env w song pl st)" and ?stale = "staleSidecars (wsDisk st) (wpPath pl) (wpListing pl)"
  let ?reg = "applySelf (weCanon env) (sidecarRecord env (wsDisk st) pl) (wsReg st)"
  have reg: "?reg = selfRun (weCanon env) d (ops @ [sidecarRecord env (wsDisk st) pl])"
    using assms by (simp add: selfRun_def)
  have "wsReg ?fin = ?reg \<and> wsTouched ?fin = wsTouched st \<or>
    (\<exists>x. ?fin = snd (writeCompanion env w song pl
        (bumpIfCorrected env (AudioPath song) (wpPath pl) (snapshotPrior w (wsDisk st) song (wpPath pl) ?stale)
          (st\<lparr>wsReg := ?reg, wsDisk := x\<rparr>))))"
    by (simp add: carryOut_def sidecarRecord_def Let_def split: prod.splits option.splits) (metis (no_types, lifting))?
  then show thesis
  proof (elim disjE exE conjE)
    assume "wsReg ?fin = ?reg" "wsTouched ?fin = wsTouched st"
    with reg show thesis by (intro that [of "[]"]) auto
  next
    fix x assume s: "?fin = snd (writeCompanion env w song pl
        (bumpIfCorrected env (AudioPath song) (wpPath pl) (snapshotPrior w (wsDisk st) song (wpPath pl) ?stale)
          (st\<lparr>wsReg := ?reg, wsDisk := x\<rparr>)))"
    show thesis
    proof (rule bump_records [of env song "wpPath pl" w "wsDisk st" "wpPath pl" ?stale "st\<lparr>wsReg := ?reg, wsDisk := x\<rparr>"], goal_cases)
      case 1
      with s reg show thesis by (intro that [of "[]"]) auto
    next
      case 2
      with s reg assms show thesis by (intro that [of "[audioRecord env song]"]) (auto simp: selfRun_def)
    qed
  qed
qed

lemma recorded_fresh:
  "selfOp.Wrote t t' ps \<in> set ops \<Longrightarrow> p \<in> set ps \<Longrightarrow> p \<noteq> [] \<Longrightarrow> now < t + d \<Longrightarrow> fresh canon d ops now (canon p)"
  unfolding fresh_def by blast

lemma touched_recorded:
  assumes "planWrite env w d song fname dir = Inr pl" "diskWF d" "tempNames env"
    and "p \<in> touched env d' pl" "KindOf p \<noteq> KindUnknown"
  shows "p \<in> set (recordedPaths pl (staleSidecars d' (wpPath pl) (wpListing pl)))"
proof -
  note facts = planWrite_facts [OF assms(1)]
  have c: "baseName (pathBase (StemOf (wpPath pl) @ ExtWordSynced))"
    using swap_ext(4) [OF facts(3), of ExtWordSynced] by (simp add: properPath_def sidecarExts_def)
  have "p \<noteq> pathJoin (wpDir pl) (weTemp env (wpName pl))"
    "cpWrite (wpCompanion pl) \<Longrightarrow> p \<noteq> pathJoin (wpDir pl) (weTemp env (pathBase (cpPath (wpCompanion pl))))"
    using temp_kind [OF assms(3) facts(2)] temp_kind [OF assms(3) c] plan_companion(2) [OF assms(1, 2)] assms(5) by auto
  with assms(4) show ?thesis by (auto simp: touched_def recordedPaths_def split: if_splits)
qed

section \<open>Theorem\<close>

text \<open>C7: The writer never triggers the watcher. Whatever becomes of a write -- done, refused or failed at any step
  -- and whatever was recorded or asked before, for as long as the registry's time to live after the write began
  the watcher's question is answered yes for every lyric file the write created, replaced or removed and for the
  audio file whose time it moved.\<close>

theorem own_writes_silent:
  assumes "diskWF (wsDisk st)" "\<And>d. weProbed env d = d" "\<And>d. weWritten env d = d" "tempNames env"
    and "wsReg st = selfRun (weCanon env) d ops" "0 < d"
    and "sorted (0 # concat (map readings ops) @ [weNow env, wePrune env, weAudioNow env, weAudioPrune env, now])"
    and "now < weNow env + d"
    and "WriteLRC env w song fname dir st = (r, st')"
    and "KindOf p \<noteq> KindUnknown \<and> map_of (wsDisk st') p \<noteq> map_of (wsDisk st) p \<or> p \<in> set (wsTouched st') - set (wsTouched st)"
  shows "fst (suppress (weCanon env) now p (wsReg st'))"
proof (cases "planWrite env w (wsDisk st) song fname dir")
  case (Inl r)
  with assms(9, 10) show ?thesis by (auto simp: WriteLRC_def)
next
  case (Inr pl)
  let ?rec = "sidecarRecord env (wsDisk st) pl"
  from Inr assms(2, 9, 10) have final: "st' = snd (carryOut env w song pl st)"
    by (auto simp: WriteLRC_def Let_def split: option.splits)
  obtain ops' where run: "wsReg st' = selfRun (weCanon env) d (ops @ ?rec # ops')"
    and ops': "ops' = [] \<and> wsTouched st' = wsTouched st \<or>
      ops' = [audioRecord env song] \<and> AudioPath song \<noteq> [] \<and> set (wsTouched st') \<subseteq> insert (AudioPath song) (set (wsTouched st))"
    unfolding final by (rule carryOut_records [OF assms(5)])
  have times: "sorted (concat (map readings (ops @ ?rec # ops')) @ [now])"
    "\<forall>t \<in> set (concat (map readings (ops @ ?rec # ops'))). 0 \<le> t" "0 \<le> now"
    using assms(7) ops' by (auto simp: sidecarRecord_def audioRecord_def sorted_append)
  have "p \<noteq> [] \<and> fresh (weCanon env) d (ops @ ?rec # ops') now (weCanon env p)"
  proof (cases "p \<in> set (wsTouched st') - set (wsTouched st)")
    case True
    then have "ops' = [audioRecord env song]" "p = AudioPath song" "p \<noteq> []" using ops' by auto
    moreover have "now < weAudioNow env + d" using assms(7, 8) by (auto simp: sorted_append)
    ultimately show ?thesis
      by (auto simp: audioRecord_def intro: recorded_fresh [where t = "weAudioNow env" and t' = "weAudioPrune env" and ps = "[AudioPath song]"])
  next
    case False
    with assms(10) have p: "KindOf p \<noteq> KindUnknown" "map_of (wsDisk st') p \<noteq> map_of (wsDisk st) p" by auto
    then have "p \<in> touched env (wsDisk st) pl"
      using carryOut_frame [OF Inr assms(1, 3), of st] by (auto simp: sameOutside_def final)
    then have "p \<in> set (recordedPaths pl (staleSidecars (wsDisk st) (wpPath pl) (wpListing pl)))"
      by (rule touched_recorded [OF Inr assms(1, 4) _ p(1)])
    moreover have "KindOf [] = KindUnknown" by code_simp
    ultimately show ?thesis using p(1) assms(8) by (auto simp: sidecarRecord_def intro: recorded_fresh)
  qed
  then show ?thesis unfolding run using suppress_exact [OF assms(6) times] by simp
qed

text \<open>New words over old ones, with a registry that keeps a record for five units of time.\<close>

definition exEchoState :: WriterState where
  "exEchoState = exWordsState\<lparr>wsReg := selfRun (\<lambda>p. p) 5 []\<rparr>"

theorem own_writes_silent_witness:
  "fst (suppress (\<lambda>p. p) 3 (lit ''/m/s.txt'')
     (wsReg (snd (WriteLRC exWEnv (NewLRCWriter []) exWords (lit ''s.mp3'') (lit ''/m'') exEchoState))))"
proof -
  let ?run = "WriteLRC exWEnv (NewLRCWriter []) exWords (lit ''s.mp3'') (lit ''/m'') exEchoState"
  have "map_of (wsDisk (snd ?run)) (lit ''/m/s.txt'') \<noteq> map_of (wsDisk exEchoState) (lit ''/m/s.txt'')" by code_simp
  moreover have "KindOf (lit ''/m/s.txt'') \<noteq> KindUnknown" by code_simp
  moreover have "diskWF (wsDisk exEchoState)" by code_simp
  ultimately have "fst (suppress (weCanon exWEnv) 3 (lit ''/m/s.txt'') (wsReg (snd ?run)))"
    by (intro own_writes_silent [OF _ _ _ exWEnv_temp, of exEchoState 5 "[]" 3 "NewLRCWriter []" exWords "lit ''s.mp3''" "lit ''/m''" "fst ?run"])
      (simp_all add: exWEnv_def exEchoState_def)
  then show ?thesis by (simp add: exWEnv_def)
qed

end
