(* ===== verification/Spec2Isabelle.thy ===== *)
theory Spec2Isabelle
  imports Backoff Breaker Pacer Timing A2 Promotion RespDrift Lane Dispatch Dispatch_Accounts Parallel
    Limiter TimingAcc Repair Selfwrite Schedule LrcNormalize QueueLease WorkerGives
    LyricRewrite LyricText LyricEcho
begin

text \<open>
  \<^bold>\<open>canticle: a verification development.\<close>

  canticle is a Go daemon that fetches lyrics for a music library. A worker takes a track from a
  durable queue and asks the \<^emph>\<open>orchestrator\<close> for lyrics; the orchestrator asks its \<^emph>\<open>lanes\<close> (the
  providers musixmatch, petitlyrics and innertube, and an audio detector that can only say
  "instrumental"), judges what they answer and returns a song, or the error the queue retries on.
  The queue is one SQLite table of tracks with a
  status, next to the table of scanned files and the links between them; workers claim a row, work on
  it outside any transaction and settle it, while the scanner, webhooks, sweeps and the operator change
  the same tables. Around that core stand the timing guard that decides whether a synced lyric may be written, the
  word-level writer, the writer of lyric files beside the audio, the operator's repairs, the scan schedule, the watcher's self-write record and
  the web login. This development models the worker, the queue, the writer, that core and those components, from the
  sources under \<open>src/internal\<close>.

  \<^bold>\<open>Theories and sources.\<close>

  \<^item> \<open>Canticle_Prelude\<close>: 64-bit wrap-around, instants and durations, Go strings as code points, the
    functions of \<open>strings\<close>, \<open>strconv\<close> and \<open>fmt\<close> the code calls, shared lemmas. \<open>Go_Float\<close>: the
    \<open>float64\<close> operations, rounded to nearest even, with infinities and NaN.
  \<^item> \<open>Models\<close> (\<open>models/models.go\<close>): tracks, songs, cues, word timings. \<open>Outcome\<close>
    (\<open>orchestrator/errors.go\<close> and the error values of the providers): errors as trees,
    \<open>errors.Is\<close>, the classification of an outcome and its precedence.
  \<^item> \<open>Backoff\<close> (\<open>backoff/backoff.go\<close>), \<open>Breaker\<close> (\<open>circuit/breaker.go\<close>), \<open>Pacer\<close>
    (\<open>musixmatch/client.go\<close>): the retry delays, the circuit breaker of a lane, the request pacer.
  \<^item> \<open>Timing\<close> (\<open>timing/timing.go\<close>), \<open>Promotion\<close> (\<open>lyrics/timing_guard.go\<close>), \<open>A2\<close>
    (\<open>lyrics/a2.go\<close>, \<open>lyrics/a2parse.go\<close>): the timing verdict, the promotion guard over it, the
    word-level line format and its parser.
  \<^item> \<open>Normalize\<close> (\<open>normalize/normalize.go\<close>), \<open>RespDrift\<close> (\<open>respdrift/respdrift.go\<close>): name
    similarity and the detector of a provider that answers every query alike.
  \<^item> \<open>Lane\<close> (\<open>orchestrator/lane.go\<close>, \<open>resolve.go\<close>, \<open>detector_lane.go\<close>, \<open>laneoutage.go\<close>,
    \<open>lanehealth.go\<close>, \<open>providers/\<close>): one lane with its breaker, pacer and drift detector.
  \<^item> \<open>Dispatch\<close> and \<open>Dispatch_Accounts\<close> (\<open>orchestrator/suitability.go\<close>, \<open>orchestrator.go\<close>): the
    ordered dispatch; \<open>Parallel\<close> (\<open>orchestrator/parallel.go\<close>): the race.
  \<^item> \<open>Repair\<close> (\<open>repair/\<close>), \<open>Limiter\<close> (\<open>web/ratelimit.go\<close> and \<open>handleLogin\<close> of \<open>web/auth.go\<close>),
    \<open>TimingAcc\<close> (\<open>timingacc/timingacc.go\<close>), \<open>Selfwrite\<close> (\<open>selfwrite/selfwrite.go\<close>), \<open>Schedule\<close>
    (\<open>schedule/schedule.go\<close>), \<open>LrcNormalize\<close> (\<open>lrcnormalize/lrcnormalize.go\<close>): the operator's
    repairs, the login limiter, the timing report, the watcher's own writes, the scan schedule and
    the rewrite of LRC lines that stack timestamps.

  \<^item> \<open>QueueDB\<close>: the rows of \<open>work_queue\<close>, \<open>scan_results\<close> and the link tables as records and lists, the
    forms of statement the queue uses, the two status triggers (migrations 053 and 067), the helpers
    of \<open>queue/scan_writeback.go\<close> and the reopening of a settled row. \<open>QueueWorker\<close>: what a worker does
    (\<open>queue/queue.go\<close>, \<open>settle_blocked.go\<close>, \<open>upgrade_sweep.go\<close>, \<open>source_gone.go\<close>, \<open>word_timing.go\<close>): the
    claim in its three orders with the batched buffer, every settle, release, deferral, failure and
    retirement, and the busy retry of \<open>db/retry.go\<close>. \<open>QueueIntake\<close>: the enqueue with its upsert, editions
    (\<open>edition.go\<close>), the move of a gone source (\<open>enqueue_move.go\<close>), cleanup and cancel. \<open>QueueAdmin\<close>: what
    an operator does: retry, the rechecks and their counts, clear, instrumental marks
    (\<open>manual_instrumental.go\<close>), the word recheck sweep. \<open>QueueStamps\<close>: the upgrade sweep, the columns a
    worker or a repair stamps on a row by its id, adoption (\<open>adopt.go\<close>), the reconciliations, reads, the
    in-memory \<open>InputsQueue\<close> and \<open>normalize/resolve_artist.go\<close>.
  \<^item> \<open>QueueLaws\<close>: what each of these operations keeps of a row. \<open>QueueSteps\<close>: the operations as one
    step relation \<open>qstep\<close> labelled with who performs it (the holder of a row, a claim, anyone), its
    reachable states and the invariant \<open>qinv\<close>. \<open>QueueLife\<close>: the invariant, the frame of held rows and the
    refinement of the life cycle of a row. \<open>QueueClaims\<close>, \<open>QueueSettle\<close>, \<open>QueueSweeps\<close>: the functional
    properties of claims, settles and sweeps. \<open>QueueLease\<close>: the claim as a lease.

  \<^item> \<open>Providers\<close> (\<open>providers/\<close>), \<open>Cache\<close> (\<open>cache/cache.go\<close>), \<open>Pathutil\<close> (\<open>pathutil/pathutil.go\<close>): provider
    selection and the hashed generations, the lyrics cache, containment of paths in library roots.
  \<^item> The worker (\<open>worker/\<close>). \<open>WorkerBase\<close>: its struct as the record \<open>Worker\<close>, the inputs of a pass as the
    record \<open>PassEnv\<close>, the memo of the detector (\<open>memo_detector.go\<close>). \<open>WorkerOps\<close>: the state monad, the calls
    of the queue, what is recorded and stamped, failure classes (\<open>failure_class.go\<close>). \<open>WorkerSettle\<close>: the
    ways a pass ends. \<open>WorkerRoots\<close>: offline roots, missing directories, the recording identity.
    \<open>WorkerWrite\<close>: the write loops and the title rule (\<open>title_rule.go\<close>). \<open>WorkerDispatch\<close>: the orchestrator
    the worker builds, the cache in front of it, the gate before a claim. \<open>WorkerRecheck\<close>
    (\<open>word_recheck.go\<close>). \<open>WorkerPass\<close>: \<open>RunOnce\<close> step by step, and the run loop. \<open>WorkerConfig\<close>: \<open>New\<close> and
    the setters.
  \<^item> Its laws. \<open>WorkerRules\<close>: a calculus of triples over the monad. \<open>WorkerKeeps\<close>: what the queue calls
    of a pass keep, a whole pass keeps. \<open>WorkerLaws\<close>: relations between a row before and after, lifted
    to passes. \<open>WorkerClaims\<close>: a pass touches one row and charges it once. \<open>WorkerReturns\<close> and
    \<open>WorkerGives\<close>: every way a pass can end gives the row back.

  \<^item> The files of a track. \<open>Disk\<close>: a store of entries keyed by their full path, with the calls of \<open>os\<close> and
    \<open>filepath\<close> the code makes. \<open>Sidecar\<close> (\<open>sidecar/\<close>): the listing of a directory and its lookups under any
    case of an extension. \<open>LyricFiles\<close> (\<open>lyrics/parser.go\<close>, \<open>lrcfile.go\<close>,
    \<open>instrumental_provenance.go\<close>, \<open>manual_marker.go\<close>): headers, provenance, owned companions, the tier of a file. \<open>LyricRewrite\<close>:
    the rewrite of a header in place. \<open>LyricWriter\<close> and \<open>LyricWrite\<close> (\<open>lyrics/writer.go\<close>,
    \<open>rung.go\<close>, \<open>manualguard.go\<close>, \<open>slugify.go\<close>, \<open>mtimebump.go\<close>): names, confinement,
    rendering, rungs; then the plan of a write, its guards, the atomic write with the errors of its
    steps, removals and the companion. \<open>LyricGuards\<close>: what a write leaves alone. \<open>LyricEcho\<close>: what it
    records for the watcher. \<open>LyricText\<close>: the pairing of a bilingual track.

  A definition carries the name of the Go function it translates, prefixed where that name is taken
  (\<open>laneFindLyrics\<close>, \<open>runnerStart\<close>, \<open>memBegin\<close>).

  \<^bold>\<open>How the code is read.\<close> State is a record that an operation returns updated; an error is a value of
  a sum or option type; a method that holds its mutex for its whole body is one step, so concurrency
  is an arbitrary sequence of steps. Time and the outside world are inputs: every clock reading an
  operation takes, what a provider or the detector answers to one call and when (\<open>LaneEnv\<close>), each
  value \<open>ctx.Err()\<close> has, and, for the race, the schedule of reports, of the end of the upgrade window
  and of cancellation (\<open>raceEvent\<close>). Pacers are shared by lanes and live in the \<open>World\<close> record,
  with the drift reports. A race report and the settling of its lane are one step, taken when the
  collector receives it; a losing lane that settles after the dispatch has returned is outside the
  model. In \<open>Repair\<close> the progress counters are read together with the end of the run. Third-party code
  is a parameter: \<open>nkey\<close> is \<open>normalize.NormalizeKey\<close> (golang.org/x/text), \<open>punctSym\<close> the Unicode
  punctuation and symbol tables, \<open>canon\<close> the symbolic-link resolution of paths, a location is its
  zone table.

  \<^bold>\<open>Interfaces.\<close> \<open>circuit_gate\<close> (Breaker), \<open>adaptive_pacer\<close> (Pacer), \<open>first_best\<close> (Dispatch, of the
  retained and of the gated candidate), \<open>run_store\<close> (Repair), \<open>lease\<close> (QueueLease, exclusive
  ownership between a claim and a give-back), \<open>stamp_invariant\<close>, \<open>row_invariant\<close> and \<open>pass_invariant\<close>
  (WorkerKeeps: a predicate on the tables that the stamps, the releases and rechecks, the settles of
  one row keep) with \<open>row_relation\<close> and \<open>pass_relation\<close> (WorkerLaws, sublocales of these for a
  relation between rows) are locales with the laws a provider
  of the interface keeps; each is interpreted on the definitions of the code, and the lemmas of its
  clients are proved once inside it.

  \<^bold>\<open>What is shown.\<close>

  \<^item> Worker: whatever lanes, writer, disk and driver answer, a pass is a claim and changes to one row that
    nobody held; with a database that answers it gives that row back on every path; it charges the
    row one attempt or one miss at most, and nothing in a word recheck.
  \<^item> Dispatch: the first commit ends an ordered dispatch and later lanes are not called; a blocked
    result is never returned, in either mode and under any race schedule; a held lyric is never
    given up for an instrumental marker; the error surfaced is the first of the highest precedence,
    with the one exception the code makes; attribution names asked lanes only; "no words" is never
    claimed for a lane that was not asked; the race returns once its lanes have reported; a detector
    configured first forecloses the race.
  \<^item> Queue: the invariant of its rows in every reachable state; two workers never hold the same row;
    nobody but its holder changes a held row, and a holder changes nothing else; the operations
    implement a small life cycle (absent, waiting, held, finished, retired); which row a claim takes
    in each mode, and that it takes one when one is due; claim and release undo each other but for the numbers of the claim buffer; an enqueue
    merges into the row of its identity, after the move of a gone source if it planned one; no settle or cancel strands a scan result; the budget of
    refused waits; the busy retry runs its operation at most once; a cancel's dry run, the preview of
    the revived rows and the upgrade flip are exact.
  \<^item> Lanes: each error class moves the breaker and the pacer as the policy says; an open lane is
    inert; the detector's start-up grace ends at its bound.
  \<^item> Breaker, pacer, backoff: the breaker invariant, windows and ramps, agreement of the snapshot with
    the gate; the request slots in use at least one interval apart, whichever callers give theirs back; the geometric delay without wrap-around.
  \<^item> Lyrics: what the timing verdict depends on and its boundary values; a refusal has evidence and a
    demotion keeps the words; a word-level line parses back to its words and is faithful to its text.
  \<^item> Lyrics writer: the two lookups of a sidecar, with and without a listing, agree; a manual marker is never
    displaced, even when it appears between the judgement and the write; a write that is not forced replaces
    and removes nothing of a higher rung; the watcher never reacts to a write of its own process; a bilingual track is paired cue by cue, first come first served.
  \<^item> Repair: the runner refines a single forward-moving job; its slot and its snapshot agree; counts
    carry declared identifiers only; the answers of a start.
  \<^item> Login: at most ten guesses per address and lockout period, lockouts that no flood evicts, a
    bounded table. Report: an optimal alignment, cues accounted for, zero error for the reference.
    Self-writes: suppression exactly of recent own writes. Schedule: the next fire is ahead, and the
    first one the schedule names.
  \<^item> LRC normalizer: a rewrite is final and keeps every tag and cue (under a condition on blanks between
    timestamps that \<open>spaced_stamp_repeated\<close> shows is needed); an expanded track is sorted, free of embedded
    timestamps and a fixed point of the expansion.

  \<^bold>\<open>Termination and bounds.\<close> Every loop is structural or has a measure; no definition takes fuel. The
  one loop that may wait for ever, the race collector, is a function of a finite schedule with the
  value \<open>None\<close> when the schedule ends first; \<open>parallel_returns\<close> shows that a schedule with a report
  of every racing lane is enough. The busy retry is structural on the attempts left. Counters of runs and sums of milliseconds are taken in \<open>int\<close>;
  durations, backoffs and counts of a result wrap at 64 bits as in Go.

  \<^bold>\<open>How the queue is read.\<close> A statement is a filter and a map over the rows in id order; a transaction is
  a function that keeps the old state on an error; SQLite runs writers one at a time, so a method is
  one step, except that \<open>Enqueue\<close> plans a move in an earlier state than the one it writes
  (\<open>planGoneSourceMove\<close>, then \<open>enqueueTx\<close>). What the driver does to an attempt (busy, busy and canceled,
  another error) is an input of \<open>RetryOnBusy\<close>; the values of \<open>RANDOM()\<close>, both clocks (the process's and
  \<open>CURRENT_TIMESTAMP\<close>) and what \<open>os.Stat\<close> says of a path are inputs of the operations. Instants are stored
  as seconds, as the text \<open>formatTime\<close> prints. Output paths are lists, not their JSON text. Row ids are
  those of a rowid table with AUTOINCREMENT; an upsert that hits a row is taken not to use one up.

  \<^bold>\<open>How the worker is read.\<close> A pass is a computation in the state monad over \<open>Worker\<close>. Its inputs are in
  \<open>PassEnv\<close>: what the lanes, the writer, the verifier, the healer, the metadata reader and the file system
  answer, the verdicts of \<open>internal/instrumentaltitle\<close> and \<open>internal/failsig\<close>, the coding of a song as
  JSON, each reading of \<open>w.now()\<close>, and for each call of the queue the instant it happens at and the error
  the driver ends it with, if any (a call that retries a busy database is one call). Nothing else
  writes to the tables during a pass: \<open>held_rows_untouched\<close> shows that others leave the held row alone.
  The orchestrator is rebuilt from the worker's state where it is used; a parallel schedule that ends
  early is closed by a cancellation. \<open>scrubWritePaths\<close> also strips paths from an error's text, which is
  left out.

  \<^bold>\<open>How the writer is read.\<close> The disk is case-sensitive and free of symbolic links below the output
  directory (their resolution is a parameter), its directories are readable. What the steps of an atomic
  write answer, the texts of temporary names and of times, Unicode lower case and normalisation, and what
  other processes do at the two points where the code allows for them are inputs (\<open>WriteEnv\<close>).

  \<^bold>\<open>Not modelled.\<close> Of the queue: \<open>updated_at\<close>, the outcome counters (\<open>provider_outcomes\<close>, \<open>lane_attempts\<close>,
  \<open>source_event_daily\<close>), the backlog listings of the detector and timing sweeps, the preview per
  library, and the writes that prune and realign make to the tables directly. The editor of lyric files
  with its backups, the provider adapters (HTTP, JSON), the scanner with its tag readers, prune and realign,
  the configuration loader, the rest of the web interface and the command line; of the modelled
  files, log lines, the cached-song JSON of the promotion guard, \<open>ParseTimedLRC\<close> and text rendering
  of reports and schedules.
\<close>

end
